(* ===== verification/Prelude.thy ===== *)
theory Prelude
  imports Main "HOL-Library.Word" "HOL-Library.Sublist"
begin

text \<open>
  Shared by every component: the Python exceptions as values, sequences and slices, big-endian
  packing (Python's struct module), rounding, decimal and hexadecimal text, and the interface of
  the run-scanning loops that several tools repeat.
\<close>

unbundle bit_operations_syntax

type_synonym byte = "8 word"
type_synonym u16 = "16 word"
type_synonym u32 = "32 word"

section \<open>Collections of facts\<close>

named_theorems err_simps \<open>unfolding of the error-value plumbing\<close>
named_theorems bytes_simps \<open>lengths and positions in packed byte strings\<close>

section \<open>Errors as values\<close>

text \<open>The Python exceptions the modelled code raises or lets through.\<close>

datatype py_error =
    ValueError string
  | IndexError
  | KeyError string
  | StructError
  | TypeError
  | AttributeError
  | OSError string
  | TimeoutError
  | RuntimeError string
  | SystemExit int
  | ConfigSessionError string
  | HTTPException int string
  | FileNotFoundError
  | PermissionError string
  | SysExit string

type_synonym 'a res = "py_error + 'a"

definition bindE :: "'a res \<Rightarrow> ('a \<Rightarrow> 'b res) \<Rightarrow> 'b res" where
  "bindE m f = (case m of Inl e \<Rightarrow> Inl e | Inr x \<Rightarrow> f x)"

lemma bindE_Inr [simp, err_simps]: "bindE (Inr x) f = f x"
  by (simp add: bindE_def)

lemma bindE_Inl [simp, err_simps]: "bindE (Inl e) f = Inl e"
  by (simp add: bindE_def)

lemma bindE_eq_Inr: "bindE m f = Inr y \<longleftrightarrow> (\<exists>x. m = Inr x \<and> f x = Inr y)"
  by (cases m) auto

lemma bindE_InrE:
  assumes "bindE m f = Inr y"
  obtains x where "m = Inr x" and "f x = Inr y"
  using assms by (auto simp: bindE_eq_Inr)

definition guardE :: "bool \<Rightarrow> py_error \<Rightarrow> unit res" where
  "guardE b e = (if b then Inr () else Inl e)"

lemma guardE_eq_Inr [simp, err_simps]: "guardE b e = Inr u \<longleftrightarrow> b"
  by (simp add: guardE_def)

text \<open>The first error of a list of results, or all the values.\<close>

fun seqE :: "'a res list \<Rightarrow> 'a list res" where
  "seqE [] = Inr []"
| "seqE (Inl e # rs) = Inl e"
| "seqE (Inr x # rs) = bindE (seqE rs) (\<lambda>xs. Inr (x # xs))"

lemma seqE_map_Inr [simp]: "seqE (map (\<lambda>x. Inr (f x)) xs) = Inr (map f xs)"
  by (induction xs) auto

lemma seqE_eq_Inr: "seqE rs = Inr xs \<longleftrightarrow> rs = map Inr xs"
proof (induction rs arbitrary: xs)
  case Nil
  then show ?case by auto
next
  case (Cons r rs)
  then show ?case by (cases r) (auto simp: bindE_eq_Inr)
qed

text \<open>A loop over a state that any step may end by raising.\<close>

fun foldE :: "('a \<Rightarrow> 's \<Rightarrow> 's res) \<Rightarrow> 'a list \<Rightarrow> 's \<Rightarrow> 's res" where
  "foldE f [] s = Inr s"
| "foldE f (x # xs) s = bindE (f x s) (foldE f xs)"

lemma foldE_invariant:
  assumes "foldE f xs s = Inr s'" "P s" "\<And>x s s'. x \<in> set xs \<Longrightarrow> P s \<Longrightarrow> f x s = Inr s' \<Longrightarrow> P s'"
  shows "P s'"
  using assms
proof (induction xs arbitrary: s)
  case (Cons x xs)
  from Cons.prems(1) obtain t where "f x s = Inr t" "foldE f xs t = Inr s'" by (auto simp: bindE_eq_Inr)
  with Cons.IH [of t] Cons.prems(2,3) show ?case by (metis list.set_intros)
qed simp

text \<open>A loop that prints one item per element until an exception ends it.\<close>

fun emit_all :: "('a \<Rightarrow> 'b res) \<Rightarrow> 'a list \<Rightarrow> 'b list \<times> py_error option" where
  "emit_all f [] = ([], None)"
| "emit_all f (x # xs) =
     (case f x of Inl e \<Rightarrow> ([], Some e)
      | Inr y \<Rightarrow> (let (ys, e) = emit_all f xs in (y # ys, e)))"

lemma emit_all_ok: "(\<And>x. x \<in> set xs \<Longrightarrow> f x = Inr (g x)) \<Longrightarrow> emit_all f xs = (map g xs, None)"
  by (induction xs) auto

lemma emit_all_None: "snd (emit_all f xs) = None \<longleftrightarrow> (\<forall>x \<in> set xs. \<exists>y. f x = Inr y)"
  by (induction xs) (auto split: sum.splits prod.splits)

section \<open>Slices and indexing\<close>

text \<open>Python's \<open>xs[i:j]\<close> for non-negative bounds: out-of-range bounds are clipped.\<close>

definition slice :: "nat \<Rightarrow> nat \<Rightarrow> 'a list \<Rightarrow> 'a list" where
  "slice i j xs = take (j - i) (drop i xs)"

text \<open>\<open>xs[i:j] = ys\<close> on a bytearray: the sequence may change length.\<close>

definition slice_assign :: "nat \<Rightarrow> nat \<Rightarrow> 'a list \<Rightarrow> 'a list \<Rightarrow> 'a list" where
  "slice_assign i j ys xs = take i xs @ ys @ drop (max i j) xs"

text \<open>\<open>xs[i]\<close> with Python's negative indices.\<close>

fun nth_res :: "'a list \<Rightarrow> nat \<Rightarrow> 'a res" where
  "nth_res [] _ = Inl IndexError"
| "nth_res (x # xs) 0 = Inr x"
| "nth_res (x # xs) (Suc k) = nth_res xs k"

definition py_nth :: "'a list \<Rightarrow> int \<Rightarrow> 'a res" where
  "py_nth xs i = (if i < 0 then nth_res (rev xs) (nat (- i) - 1) else nth_res xs (nat i))"

lemma nth_res_nth: "nth_res xs k = (if k < length xs then Inr (xs ! k) else Inl IndexError)"
  by (induction xs k rule: nth_res.induct) auto

lemma length_slice [bytes_simps]: "length (slice i j xs) = min (j - i) (length xs - i)"
  by (simp add: slice_def)

lemma slice_same [simp]: "slice i i xs = []"
  by (simp add: slice_def)

lemma nth_slice: "k < length (slice i j xs) \<Longrightarrow> slice i j xs ! k = xs ! (i + k)"
  by (cases "i \<le> length xs") (auto simp: slice_def nth_drop)

lemma length_slice_assign [bytes_simps]:
  "i \<le> j \<Longrightarrow> j \<le> length xs \<Longrightarrow> length ys = j - i \<Longrightarrow> length (slice_assign i j ys xs) = length xs"
  by (simp add: slice_assign_def)

lemma slice_slice_assign_same:
  "i \<le> j \<Longrightarrow> j \<le> length xs \<Longrightarrow> length ys = j - i \<Longrightarrow> slice i j (slice_assign i j ys xs) = ys"
  by (simp add: slice_assign_def slice_def)

lemma nth_slice_assign_outside:
  assumes "i \<le> j" "j \<le> length xs" "length ys = j - i" "k < i \<or> j \<le> k" "k < length xs"
  shows "slice_assign i j ys xs ! k = xs ! k"
  using assms by (auto simp: slice_assign_def nth_append)

lemma slice_slice_assign_disjoint:
  assumes "i \<le> j" "j \<le> length xs" "length ys = j - i" "b \<le> i \<or> j \<le> a"
  shows "slice a b (slice_assign i j ys xs) = slice a b xs"
proof (rule nth_equalityI)
  have len: "length (slice_assign i j ys xs) = length xs"
    using assms by (simp add: bytes_simps)
  show "length (slice a b (slice_assign i j ys xs)) = length (slice a b xs)"
    by (simp add: length_slice len)
  fix k assume k: "k < length (slice a b (slice_assign i j ys xs))"
  then have "a + k < b" and "a + k < length xs" by (auto simp: length_slice len)
  moreover have "slice_assign i j ys xs ! (a + k) = xs ! (a + k)"
    using assms calculation by (intro nth_slice_assign_outside) auto
  ultimately show "slice a b (slice_assign i j ys xs) ! k = slice a b xs ! k"
    using k by (simp add: nth_slice length_slice len)
qed

lemma py_nth_nat: "py_nth xs (int i) = (if i < length xs then Inr (xs ! i) else Inl IndexError)"
  by (simp add: py_nth_def nth_res_nth)

lemma py_nth_ok: "0 \<le> i \<Longrightarrow> i < int (length xs) \<Longrightarrow> py_nth xs i = Inr (xs ! nat i)"
  by (simp add: py_nth_def nth_res_nth nat_less_iff)

section \<open>Big-endian words\<close>

text \<open>\<open>struct.pack(">I", v)\<close> and \<open>struct.unpack(">I", bs)\<close>, which wants four bytes.\<close>

definition pack_be32 :: "u32 \<Rightarrow> byte list" where
  "pack_be32 v = [ucast (drop_bit 24 v), ucast (drop_bit 16 v), ucast (drop_bit 8 v), ucast v]"

definition be32 :: "byte \<Rightarrow> byte \<Rightarrow> byte \<Rightarrow> byte \<Rightarrow> u32" where
  "be32 a b c d =
     (push_bit 24 (ucast a)) OR (push_bit 16 (ucast b)) OR (push_bit 8 (ucast c)) OR ucast d"

fun unpack_be32 :: "byte list \<Rightarrow> u32 res" where
  "unpack_be32 [a, b, c, d] = Inr (be32 a b c d)"
| "unpack_be32 _ = Inl StructError"

definition unpack_be16 :: "byte list \<Rightarrow> u16 res" where
  "unpack_be16 bs = (case bs of [a, b] \<Rightarrow> Inr ((push_bit 8 (ucast a)) OR ucast b) | _ \<Rightarrow> Inl StructError)"

text \<open>\<open>struct.unpack(f">{n}I", bs)\<close>: exactly \<open>4 n\<close> bytes.\<close>

fun unpack_words :: "nat \<Rightarrow> byte list \<Rightarrow> u32 list res" where
  "unpack_words 0 [] = Inr []"
| "unpack_words (Suc n) (a # b # c # d # bs) =
     bindE (unpack_words n bs) (\<lambda>ws. Inr (be32 a b c d # ws))"
| "unpack_words _ _ = Inl StructError"

lemma length_pack_be32 [simp, bytes_simps]: "length (pack_be32 v) = 4"
  by (simp add: pack_be32_def)

lemma bit_be32:
  "bit (be32 a b c d) n \<longleftrightarrow>
     n < 32 \<and> (if n < 8 then bit d n else if n < 16 then bit c (n - 8)
             else if n < 24 then bit b (n - 16) else bit a (n - 24))"
  unfolding be32_def
  by (auto simp: bit_or_iff bit_push_bit_iff bit_ucast_iff not_less dest: bit_imp_le_length)

lemma be32_pack: "be32 (ucast (drop_bit 24 v)) (ucast (drop_bit 16 v)) (ucast (drop_bit 8 v)) (ucast v) = v"
  by (rule bit_word_eqI) (auto simp: bit_be32 bit_ucast_iff bit_drop_bit_eq)

lemma unpack_pack_be32 [simp]: "unpack_be32 (pack_be32 v) = Inr v"
  by (simp add: pack_be32_def be32_pack)

lemma pack_be32_be32: "pack_be32 (be32 a b c d) = [a, b, c, d]"
  unfolding pack_be32_def
  by (auto intro!: bit_word_eqI simp: bit_be32 bit_ucast_iff bit_drop_bit_eq)

lemma unpack_be32_length: "unpack_be32 bs = Inr v \<Longrightarrow> length bs = 4 \<and> pack_be32 v = bs"
  by (cases bs rule: unpack_be32.cases) (auto simp: pack_be32_be32)

lemma unpack_be32_total: "length bs = 4 \<Longrightarrow> \<exists>v. unpack_be32 bs = Inr v"
  by (cases bs rule: unpack_be32.cases) auto

lemma length_concat_pack [simp, bytes_simps]: "length (concat (map pack_be32 ws)) = 4 * length ws"
  by (induction ws) auto

lemma unpack_words_pack [simp]: "unpack_words (length ws) (concat (map pack_be32 ws)) = Inr ws"
proof (induction ws)
  case (Cons w ws)
  then show ?case by (simp add: pack_be32_def [of w] be32_pack)
qed simp

lemma unpack_words_sound:
  "unpack_words n bs = Inr ws \<Longrightarrow> length ws = n \<and> bs = concat (map pack_be32 ws)"
proof (induction n bs arbitrary: ws rule: unpack_words.induct)
  case (2 n a b c d bs)
  then show ?case by (fastforce simp: bindE_eq_Inr pack_be32_be32)
qed auto

lemma unpack_words_iff:
  "unpack_words n bs = Inr ws \<longleftrightarrow> length ws = n \<and> bs = concat (map pack_be32 ws)"
  using unpack_words_sound by auto

lemma slice_concat_pack:
  "i < length ws \<Longrightarrow> slice (4 * i) (4 * i + 4) (concat (map pack_be32 ws)) = pack_be32 (ws ! i)"
proof (induction ws arbitrary: i)
  case (Cons w ws)
  then show ?case by (cases i) (auto simp: slice_def)
qed simp

lemma unpack_words_total: "length bs = 4 * n \<Longrightarrow> \<exists>ws. unpack_words n bs = Inr ws"
proof (induction n bs rule: unpack_words.induct)
  case (2 n a b c d bs)
  then show ?case by fastforce
qed (auto, presburger+)

text \<open>The big-endian word at a byte offset: the value a successful read returns.\<close>

definition word_at :: "nat \<Rightarrow> byte list \<Rightarrow> u32" where
  "word_at off bs = (case unpack_be32 (slice off (off + 4) bs) of Inr v \<Rightarrow> v | Inl _ \<Rightarrow> 0)"

lemma unpack_word_at:
  "off + 4 \<le> length bs \<Longrightarrow> unpack_be32 (slice off (off + 4) bs) = Inr (word_at off bs)"
  using unpack_be32_total [of "slice off (off + 4) bs"] by (auto simp: word_at_def length_slice)

lemma unpack_be32_slice_short:
  "length bs < off + 4 \<Longrightarrow> unpack_be32 (slice off (off + 4) bs) = Inl StructError"
  using unpack_be32_length [of "slice off (off + 4) bs"]
  by (cases "unpack_be32 (slice off (off + 4) bs)")
     (auto simp: length_slice elim: unpack_be32.elims)

lemma pack_word_at: "off + 4 \<le> length bs \<Longrightarrow> pack_be32 (word_at off bs) = slice off (off + 4) bs"
  using unpack_be32_length [OF unpack_word_at [of off bs]] by simp

lemma slice_append: "i \<le> j \<Longrightarrow> j \<le> k \<Longrightarrow> slice i j xs @ slice j k xs = slice i k xs"
proof -
  assume "i \<le> j" "j \<le> k"
  then have "k - i = (j - i) + (k - j)" and "j = (j - i) + i" by auto
  then show ?thesis by (metis slice_def drop_drop take_add)
qed

lemma unpack_words_at:
  "off + 4 * n \<le> length bs \<Longrightarrow>
   unpack_words n (slice off (off + 4 * n) bs) = Inr (map (\<lambda>i. word_at (off + 4 * i) bs) [0..<n])"
proof -
  assume len: "off + 4 * n \<le> length bs"
  have "slice off (off + 4 * m) bs = concat (map (\<lambda>i. pack_be32 (word_at (off + 4 * i) bs)) [0..<m])"
    if "m \<le> n" for m
    using that
  proof (induction m)
    case (Suc m)
    have "slice off (off + 4 * Suc m) bs
        = slice off (off + 4 * m) bs @ slice (off + 4 * m) (off + 4 * m + 4) bs"
      by (simp add: slice_append add.assoc [symmetric] add.commute [of "4 :: nat"])
    then show ?case using Suc len by (simp add: pack_word_at)
  qed (simp add: slice_def)
  from this [of n] show ?thesis by (simp add: unpack_words_iff comp_def)
qed

lemma word_at_take: "off + 4 \<le> n \<Longrightarrow> word_at off (take n bs) = word_at off bs"
  by (simp add: word_at_def slice_def drop_take take_take min_def)

lemma slice_slice: "j \<le> b - a \<Longrightarrow> slice i j (slice a b xs) = slice (a + i) (a + j) xs"
  by (simp add: slice_def drop_take take_take min_def add.commute)

lemma unpack_words_Inl: "length bs \<noteq> 4 * n \<Longrightarrow> unpack_words n bs = Inl StructError"
  by (induction n bs rule: unpack_words.induct) auto

lemma word_at_put_same:
  "off + 4 \<le> length bs \<Longrightarrow> word_at off (slice_assign off (off + 4) (pack_be32 v) bs) = v"
  by (simp add: word_at_def slice_slice_assign_same)

lemma word_at_put_disjoint:
  "off + 4 \<le> length bs \<Longrightarrow> off' + 4 \<le> off \<or> off + 4 \<le> off' \<Longrightarrow>
   word_at off' (slice_assign off (off + 4) (pack_be32 v) bs) = word_at off' bs"
  by (simp add: word_at_def slice_slice_assign_disjoint)

lemma take_slice_assign:
  "k \<le> i \<Longrightarrow> i \<le> length xs \<Longrightarrow> take k (slice_assign i j ys xs) = take k xs"
  by (simp add: slice_assign_def min_def)

lemma drop_slice_assign:
  "i \<le> j \<Longrightarrow> j \<le> k \<Longrightarrow> j \<le> length xs \<Longrightarrow> length ys = j - i \<Longrightarrow>
   drop k (slice_assign i j ys xs) = drop k xs"
  by (simp add: slice_assign_def max_def)

lemma foldE_append: "foldE f (xs @ ys) s = bindE (foldE f xs s) (foldE f ys)"
  by (induction xs arbitrary: s) (auto simp: bindE_def split: sum.splits)

lemma slice_inside_assign:
  "i \<le> j \<Longrightarrow> j \<le> length xs \<Longrightarrow> length ys = j - i \<Longrightarrow> b \<le> j - i \<Longrightarrow>
   slice (i + a) (i + b) (slice_assign i j ys xs) = slice a b ys"
  using slice_slice [of b j i a "slice_assign i j ys xs"] by (simp add: slice_slice_assign_same)

end
