(* ===== verification/PyText.thy ===== *)
theory PyText
  imports Prelude "HOL-Library.Char_ord"
begin

text \<open>
  The string methods and conversions of Python that the modelled code calls, on ASCII text
  (\<^typ>\<open>string\<close>): searching, splitting, stripping, \<^verbatim>\<open>int(s, base)\<close> and decimal output.
  The searches are polymorphic and serve byte strings too.
\<close>

section \<open>Searching\<close>

text \<open>\<^verbatim>\<open>hay.find(pat, start)\<close>, \<open>None\<close> for -1.\<close>

fun starts_with :: "'a list \<Rightarrow> 'a list \<Rightarrow> bool" where
  "starts_with [] _ = True"
| "starts_with _ [] = False"
| "starts_with (p # ps) (x # xs) = (p = x \<and> starts_with ps xs)"

fun find_aux :: "'a list \<Rightarrow> 'a list \<Rightarrow> nat \<Rightarrow> nat option" where
  "find_aux pat [] i = (if pat = [] then Some i else None)"
| "find_aux pat (x # xs) i = (if starts_with pat (x # xs) then Some i else find_aux pat xs (Suc i))"

definition find_from :: "'a list \<Rightarrow> nat \<Rightarrow> 'a list \<Rightarrow> nat option" where
  "find_from pat start hay = (if length hay < start then None else find_aux pat (drop start hay) start)"

definition occurs_at :: "'a list \<Rightarrow> 'a list \<Rightarrow> nat \<Rightarrow> bool" where
  "occurs_at pat hay i = (i + length pat \<le> length hay \<and> slice i (i + length pat) hay = pat)"

definition contains :: "'a list \<Rightarrow> 'a list \<Rightarrow> bool" where
  "contains pat hay = (find_from pat 0 hay \<noteq> None)"

lemma starts_with_iff: "starts_with ps xs \<longleftrightarrow> take (length ps) xs = ps"
  by (induction ps xs rule: starts_with.induct) auto

lemma find_aux_ge: "find_aux pat xs i = Some j \<Longrightarrow> i \<le> j"
  by (induction pat xs i rule: find_aux.induct) (auto split: if_splits)

lemma find_aux_Some:
  "find_aux pat xs i = Some j \<Longrightarrow>
     starts_with pat (drop (j - i) xs) \<and> j - i \<le> length xs \<and> (\<forall>k < j - i. \<not> starts_with pat (drop k xs))"
proof (induction pat xs i rule: find_aux.induct)
  case (2 pat x xs i)
  show ?case
  proof (cases "starts_with pat (x # xs)")
    case False
    with "2.prems" have f: "find_aux pat xs (Suc i) = Some j" by simp
    then have "Suc i \<le> j" by (rule find_aux_ge)
    then obtain d where d: "j - i = Suc d" and d': "j - Suc i = d" by (cases "j - i") auto
    from "2.IH" [OF False f] show ?thesis
      unfolding d d' using False by (auto simp: less_Suc_eq_0_disj)
  qed (use "2.prems" in simp)
qed (auto split: if_splits)

lemma all_le_Suc: "(\<forall>k \<le> Suc n. P k) \<longleftrightarrow> P 0 \<and> (\<forall>k \<le> n. P (Suc k))"
  using All_less_Suc2 [of "Suc n" P] by (simp add: less_Suc_eq_le)

lemma find_aux_None: "find_aux pat xs i = None \<longleftrightarrow> (\<forall>k \<le> length xs. \<not> starts_with pat (drop k xs))"
proof (induction pat xs i rule: find_aux.induct)
  case (2 pat x xs i)
  have "(\<forall>k \<le> length (x # xs). \<not> starts_with pat (drop k (x # xs)))
      \<longleftrightarrow> \<not> starts_with pat (x # xs) \<and> (\<forall>k \<le> length xs. \<not> starts_with pat (drop k xs))"
    by (simp add: all_le_Suc)
  then show ?case using "2.IH" by auto
qed (auto simp: starts_with_iff)

lemma starts_with_drop: "i \<le> length hay \<Longrightarrow> starts_with pat (drop i hay) \<longleftrightarrow> occurs_at pat hay i"
  by (auto simp: starts_with_iff occurs_at_def slice_def dest: arg_cong [where f = length])

lemma find_from_Some:
  assumes "find_from pat start hay = Some i"
  shows "start \<le> i" "occurs_at pat hay i" "\<And>k. start \<le> k \<Longrightarrow> k < i \<Longrightarrow> \<not> occurs_at pat hay k"
proof -
  from assms have s: "start \<le> length hay" and f: "find_aux pat (drop start hay) start = Some i"
    by (auto simp: find_from_def split: if_splits)
  from f show ge: "start \<le> i" by (rule find_aux_ge)
  note F = find_aux_Some [OF f]
  from F ge s have "i \<le> length hay" by (simp add: le_diff_conv2)
  moreover from F ge have "starts_with pat (drop i hay)" by simp
  ultimately show "occurs_at pat hay i" by (simp add: starts_with_drop)
  fix k assume "start \<le> k" "k < i"
  with F have "\<not> starts_with pat (drop k hay)" by (auto dest!: spec [of _ "k - start"])
  with \<open>k < i\<close> \<open>i \<le> length hay\<close> show "\<not> occurs_at pat hay k" by (simp add: starts_with_drop)
qed

lemma find_from_None:
  "find_from pat start hay = None \<longleftrightarrow> (\<forall>k \<ge> start. \<not> occurs_at pat hay k)"
proof (cases "start \<le> length hay")
  case True
  have "(\<forall>k \<le> length hay - start. \<not> starts_with pat (drop k (drop start hay)))
      \<longleftrightarrow> (\<forall>k \<le> length hay - start. \<not> occurs_at pat hay (start + k))"
    using True by (auto simp: starts_with_drop [symmetric] add.commute)
  also have "\<dots> \<longleftrightarrow> (\<forall>k \<ge> start. \<not> occurs_at pat hay k)"
  proof safe
    fix k assume k: "start \<le> k" "occurs_at pat hay k"
      and no: "\<forall>k \<le> length hay - start. \<not> occurs_at pat hay (start + k)"
    from k(2) have "k \<le> length hay" by (simp add: occurs_at_def)
    with no k show False by (auto dest!: spec [of _ "k - start"])
  qed simp
  finally show ?thesis using True by (simp add: find_from_def find_aux_None)
next
  case False
  then show ?thesis by (auto simp: find_from_def occurs_at_def)
qed

lemma contains_iff: "contains pat hay \<longleftrightarrow> (\<exists>i. occurs_at pat hay i)"
  using find_from_None [of pat 0 hay] by (auto simp: contains_def)

lemma occurs_at_split: "occurs_at pat hay i \<longleftrightarrow> (\<exists>u v. hay = u @ pat @ v \<and> length u = i)"
proof
  assume o: "occurs_at pat hay i"
  then have "hay = take i hay @ pat @ drop (i + length pat) hay" and "i \<le> length hay"
    by (simp_all add: occurs_at_def slice_def)
       (metis append_take_drop_id drop_drop add.commute)
  then show "\<exists>u v. hay = u @ pat @ v \<and> length u = i"
    by (intro exI [of _ "take i hay"] exI [of _ "drop (i + length pat) hay"]) simp
next
  assume "\<exists>u v. hay = u @ pat @ v \<and> length u = i"
  then show "occurs_at pat hay i" by (auto simp: occurs_at_def slice_def)
qed

section \<open>Splitting and stripping\<close>

text \<open>\<^verbatim>\<open>s.split(sep, 1)\<close> on a one-character separator: one or two parts.\<close>

fun split1 :: "char \<Rightarrow> string \<Rightarrow> string list" where
  "split1 c [] = [[]]"
| "split1 c (x # xs) =
     (if x = c then [[], xs] else case split1 c xs of (p # ps) \<Rightarrow> (x # p) # ps | [] \<Rightarrow> [[x]])"

text \<open>\<^verbatim>\<open>s.split(c)\<close>.\<close>

fun split_on :: "'a \<Rightarrow> 'a list \<Rightarrow> 'a list list" where
  "split_on c [] = [[]]"
| "split_on c (x # xs) =
     (case split_on c xs of (p # ps) \<Rightarrow> if x = c then [] # p # ps else (x # p) # ps | [] \<Rightarrow> [])"

definition is_space :: "char \<Rightarrow> bool" where
  "is_space c = (c \<in> {CHR '' '', CHR 0x09, CHR 0x0A, CHR 0x0B, CHR 0x0C, CHR 0x0D,
                       CHR 0x1C, CHR 0x1D, CHR 0x1E, CHR 0x1F})"

definition lstrip :: "string \<Rightarrow> string" where "lstrip s = dropWhile is_space s"
definition rstrip :: "string \<Rightarrow> string" where "rstrip s = rev (dropWhile is_space (rev s))"
definition strip :: "string \<Rightarrow> string" where "strip s = rstrip (lstrip s)"

text \<open>\<^verbatim>\<open>s.split()\<close>: the maximal runs of characters that are not whitespace.\<close>

fun words_aux :: "string \<Rightarrow> string \<Rightarrow> string list" where
  "words_aux [] acc = (if acc = [] then [] else [rev acc])"
| "words_aux (c # cs) acc =
     (if is_space c then (if acc = [] then words_aux cs [] else rev acc # words_aux cs [])
      else words_aux cs (c # acc))"

definition words :: "string \<Rightarrow> string list" where "words s = words_aux s []"

definition join :: "'a list \<Rightarrow> 'a list list \<Rightarrow> 'a list" where
  "join sep xss = (case xss of [] \<Rightarrow> [] | x # r \<Rightarrow> x @ concat (map (\<lambda>y. sep @ y) r))"

definition startswith :: "string \<Rightarrow> string \<Rightarrow> bool" where "startswith s p = starts_with p s"

lemma split_on_nonempty [simp]: "split_on c xs \<noteq> []"
  by (induction xs) (auto split: list.splits)

lemma split_on_none: "c \<notin> set xs \<Longrightarrow> split_on c xs = [xs]"
  by (induction xs) auto

lemma split_on_plain: "c \<notin> set xs \<Longrightarrow> split_on c (xs @ c # ys) = xs # split_on c ys"
  by (induction xs) (auto split: list.splits)

lemma split_on_join: "join [c] (split_on c xs) = xs"
proof (induction xs)
  case (Cons x xs)
  then show ?case
    by (cases "split_on c xs") (auto simp: join_def split: list.splits)
qed (simp add: join_def)

section \<open>Numbers\<close>

definition digit_val :: "char \<Rightarrow> nat option" where
  "digit_val c =
     (let n = of_char c :: nat in
      if 48 \<le> n \<and> n \<le> 57 then Some (n - 48)
      else if 97 \<le> n \<and> n \<le> 122 then Some (n - 87)
      else if 65 \<le> n \<and> n \<le> 90 then Some (n - 55) else None)"

text \<open>Digits with single underscores between them; \<open>ok\<close>: the last character was a digit.\<close>

fun digits :: "nat \<Rightarrow> bool \<Rightarrow> nat \<Rightarrow> string \<Rightarrow> nat option" where
  "digits b ok acc [] = (if ok then Some acc else None)"
| "digits b ok acc (c # cs) =
     (if c = CHR ''_'' then (if ok then digits b False acc cs else None)
      else case digit_val c of
        Some d \<Rightarrow> if d < b then digits b True (acc * b + d) cs else None
      | None \<Rightarrow> None)"

definition prefix_base :: "string \<Rightarrow> nat option" where
  "prefix_base s = (case s of c # d # _ \<Rightarrow>
     if c \<noteq> CHR ''0'' then None
     else if d \<in> {CHR ''x'', CHR ''X''} then Some 16
     else if d \<in> {CHR ''o'', CHR ''O''} then Some 8
     else if d \<in> {CHR ''b'', CHR ''B''} then Some 2 else None | _ \<Rightarrow> None)"

definition after_prefix :: "nat \<Rightarrow> string \<Rightarrow> nat option" where
  "after_prefix b s = (let r = drop 2 s in digits b False 0 (if startswith r ''_'' then tl r else r))"

text \<open>\<^verbatim>\<open>int(s, base)\<close> after the sign; base 0 reads the prefix and refuses a decimal with a
  leading zero that is not zero.\<close>

definition unsigned_int :: "nat \<Rightarrow> string \<Rightarrow> nat option" where
  "unsigned_int base s =
     (if base = 0 then
        (case prefix_base s of
           Some b \<Rightarrow> after_prefix b s
         | None \<Rightarrow> (case digits 10 False 0 s of
             Some n \<Rightarrow> if startswith s ''0'' \<and> n \<noteq> 0 then None else Some n
           | None \<Rightarrow> None))
      else if prefix_base s = Some base then after_prefix base s
      else digits base False 0 s)"

definition py_int :: "nat \<Rightarrow> string \<Rightarrow> int res" where
  "py_int base s =
     (let t = strip s;
          neg = startswith t ''-'';
          u = (if neg \<or> startswith t ''+'' then tl t else t)
      in case unsigned_int base u of
           Some n \<Rightarrow> Inr (if neg then - int n else int n)
         | None \<Rightarrow> Inl (ValueError ''invalid literal for int()''))"

text \<open>\<^verbatim>\<open>s.lower()\<close>, \<^verbatim>\<open>s.rstrip(c)\<close> and \<^verbatim>\<open>s.replace(c, d)\<close> for characters.\<close>

definition lower_char :: "char \<Rightarrow> char" where
  "lower_char c = (if CHR ''A'' \<le> c \<and> c \<le> CHR ''Z'' then char_of (of_char c + 32 :: nat) else c)"

definition lower :: "string \<Rightarrow> string" where "lower s = map lower_char s"

definition rstrip_char :: "char \<Rightarrow> string \<Rightarrow> string" where "rstrip_char c s = rev (dropWhile (\<lambda>x. x = c) (rev s))"

definition change_char :: "char \<Rightarrow> char \<Rightarrow> string \<Rightarrow> string" where "change_char c d s = map (\<lambda>x. if x = c then d else x) s"

text \<open>Decimal output of \<^verbatim>\<open>str(n)\<close> and \<^verbatim>\<open>f"{n}"\<close>.\<close>

definition digit_char :: "nat \<Rightarrow> char" where "digit_char d = char_of (48 + d)"

function nat_str :: "nat \<Rightarrow> string" where
  "nat_str n = (if n < 10 then [digit_char n] else nat_str (n div 10) @ [digit_char (n mod 10)])"
  by auto
termination by (relation "measure id") auto

declare nat_str.simps [simp del]

definition int_str :: "int \<Rightarrow> string" where
  "int_str i = (if i < 0 then CHR ''-'' # nat_str (nat (- i)) else nat_str (nat i))"

text \<open>\<^verbatim>\<open>f"{n:x}"\<close>, and with zero padding to a width \<^verbatim>\<open>f"{n:0kx}"\<close>.\<close>

definition hex_digit :: "nat \<Rightarrow> char" where
  "hex_digit d = (if d < 10 then char_of (48 + d) else char_of (87 + d))"

function hex_str :: "nat \<Rightarrow> string" where
  "hex_str n = (if n < 16 then [hex_digit n] else hex_str (n div 16) @ [hex_digit (n mod 16)])"
  by auto
termination by (relation "measure id") auto

declare hex_str.simps [simp del]

definition hex_fmt :: "nat \<Rightarrow> nat \<Rightarrow> string" where
  "hex_fmt k n = (let s = hex_str n in replicate (k - length s) CHR ''0'' @ s)"

text \<open>\<^verbatim>\<open>f"{i:+d}"\<close>.\<close>

definition signed_str :: "int \<Rightarrow> string" where
  "signed_str i = (if i < 0 then int_str i else CHR ''+'' # int_str i)"

lemma digit_val_char: "d < 10 \<Longrightarrow> digit_val (digit_char d) = Some d"
  by (simp add: digit_val_def digit_char_def)

lemma digit_char_code: "d < 10 \<Longrightarrow> of_char (digit_char d) = 48 + d"
  by (simp add: digit_char_def)

definition is_digit :: "char \<Rightarrow> bool" where
  "is_digit c = (48 \<le> (of_char c :: nat) \<and> (of_char c :: nat) \<le> 57)"

lemma is_digit_char [simp]: "d < 10 \<Longrightarrow> is_digit (digit_char d)"
  by (simp add: is_digit_def digit_char_code)

lemma is_digit_distinct:
  "is_digit c \<Longrightarrow> c \<noteq> CHR ''_'' \<and> c \<noteq> CHR ''-'' \<and> c \<noteq> CHR ''+'' \<and> \<not> is_space c"
  by (auto simp: is_digit_def is_space_def)

lemma digits_append:
  "d < 10 \<Longrightarrow> \<forall>c \<in> set s. is_digit c \<Longrightarrow> s \<noteq> [] \<Longrightarrow>
     digits 10 ok acc (s @ [digit_char d]) = map_option (\<lambda>n. n * 10 + d) (digits 10 ok acc s)"
proof (induction s arbitrary: ok acc)
  case (Cons c s)
  have u: "digit_char d \<noteq> CHR ''_''" using is_digit_distinct Cons.prems(1) is_digit_char by blast
  show ?case
    using Cons is_digit_distinct [of c]
    by (cases "s = []") (auto simp: digit_val_char u split: option.splits)
qed simp

lemma nat_str_digits: "nat_str n \<noteq> [] \<and> (\<forall>c \<in> set (nat_str n). is_digit c)"
proof (induction n rule: nat_str.induct)
  case (1 n)
  then show ?case by (cases "n < 10") (auto simp: nat_str.simps [of n])
qed

lemma digits_nat_str: "digits 10 False 0 (nat_str n) = Some n"
proof (induction n rule: nat_str.induct)
  case (1 n)
  show ?case
  proof (cases "n < 10")
    case True
    then show ?thesis
      using is_digit_distinct is_digit_char [OF True]
      by (auto simp: nat_str.simps [of n] digit_val_char)
  next
    case False
    then show ?thesis
      using 1 nat_str_digits [of "n div 10"] by (simp add: nat_str.simps [of n] digits_append)
  qed
qed

lemma strip_id: "\<forall>c \<in> set s. \<not> is_space c \<Longrightarrow> strip s = s"
proof -
  assume s: "\<forall>c \<in> set s. \<not> is_space c"
  then have "lstrip s = s" by (cases s) (auto simp: lstrip_def)
  moreover have "rstrip s = s"
  proof (cases "rev s")
    case (Cons c r)
    then have "\<not> is_space c" using s by (metis list.set_intros(1) set_rev)
    with Cons show ?thesis by (simp add: rstrip_def flip: rev_swap)
  qed (simp add: rstrip_def)
  ultimately show ?thesis by (simp add: strip_def)
qed

lemma prefix_base_digits: "\<forall>c \<in> set s. is_digit c \<Longrightarrow> prefix_base s = None"
proof -
  assume dig: "\<forall>c \<in> set s. is_digit c"
  have no: "\<not> is_digit CHR ''x''" "\<not> is_digit CHR ''X''" "\<not> is_digit CHR ''o''" "\<not> is_digit CHR ''O''"
    "\<not> is_digit CHR ''b''" "\<not> is_digit CHR ''B''"
    by (simp_all add: is_digit_def)
  show ?thesis
  proof (cases s rule: remdups_adj.cases)
    case (3 c d r)
    with dig have "is_digit d" by simp
    with no have "d \<notin> {CHR ''x'', CHR ''X''}" "d \<notin> {CHR ''o'', CHR ''O''}" "d \<notin> {CHR ''b'', CHR ''B''}"
      by fast+
    then show ?thesis by (simp only: 3 prefix_base_def list.case if_False if_cancel)
  qed (simp_all add: prefix_base_def)
qed

lemma unsigned_int_nat_str: "unsigned_int 10 (nat_str n) = Some n"
  using nat_str_digits [of n] by (simp add: unsigned_int_def prefix_base_digits digits_nat_str)

lemma py_int_int_str: "py_int 10 (int_str i) = Inr i"
proof -
  define u where "u = nat_str (nat \<bar>i\<bar>)"
  have d: "u \<noteq> []" "\<forall>c \<in> set u. is_digit c" by (simp_all add: u_def nat_str_digits)
  have s: "int_str i = (if i < 0 then CHR ''-'' # u else u)" by (simp add: int_str_def u_def)
  have st: "strip (int_str i) = int_str i"
    using d is_digit_distinct by (intro strip_id) (auto simp: s is_space_def)
  obtain c r where u: "u = c # r" using d by (cases u) auto
  have c: "c \<noteq> CHR ''-''" "c \<noteq> CHR ''+''" using d u is_digit_distinct by auto
  have "unsigned_int 10 u = Some (nat \<bar>i\<bar>)" by (simp add: u_def unsigned_int_nat_str)
  then show ?thesis unfolding py_int_def Let_def st
    using c by (cases "i < 0") (auto simp: startswith_def s u)
qed

section \<open>Hexadecimal digits\<close>

definition is_hex :: "char \<Rightarrow> bool" where
  "is_hex c = (is_digit c \<or> (CHR ''a'' \<le> c \<and> c \<le> CHR ''f'') \<or> (CHR ''A'' \<le> c \<and> c \<le> CHR ''F''))"

lemma is_hex_code:
  "is_hex c \<longleftrightarrow> (let n = of_char c :: nat in (48 \<le> n \<and> n \<le> 57) \<or> (97 \<le> n \<and> n \<le> 102) \<or> (65 \<le> n \<and> n \<le> 70))"
  by (simp add: is_hex_def is_digit_def less_eq_char_def Let_def)

lemma is_hex_distinct:
  "is_hex c \<Longrightarrow> c \<noteq> CHR ''_'' \<and> c \<noteq> CHR ''-'' \<and> c \<noteq> CHR ''+'' \<and> c \<noteq> CHR ''x'' \<and> c \<noteq> CHR ''X'' \<and> \<not> is_space c"
  by (auto simp: is_hex_code is_space_def)

definition hexv :: "char \<Rightarrow> nat" where "hexv c = the (digit_val c)"

lemma digit_val_hex: "is_hex c \<Longrightarrow> digit_val c = Some (hexv c) \<and> hexv c < 16"
  by (auto simp: is_hex_code digit_val_def hexv_def Let_def)

definition hexu :: "nat \<Rightarrow> char" where
  "hexu d = (if d < 10 then char_of (48 + d) else char_of (55 + d))"

lemma hexu_hex: "d < 16 \<Longrightarrow> is_hex (hexu d) \<and> hexv (hexu d) = d"
  by (auto simp: hexu_def is_hex_code hexv_def digit_val_def)

lemmas text_eval = py_int_def strip_def lstrip_def rstrip_def is_space_def startswith_def
  unsigned_int_def prefix_base_def after_prefix_def digit_val_def Let_def

end
