(* ===== verification/Crc.thy ===== *)
theory Crc
  imports Prelude
begin

text \<open>
  The integrity word of an FMan microcode container, as the two tools compute it:
  \<^verbatim>\<open>decomp/tools/qef-parse.py\<close> (a table cached on the function object, both
  bit orders, the named CRC-32 variants) and \<^verbatim>\<open>decomp/tools/qef-patch.py\<close>
  (a module-level table).  Both are compared with the bit-serial shift register, and the
  interface \<open>trailer_code\<close> states what a patcher or a verifier relies on.

  Python's integers are unbounded; every intermediate value here stays below \<open>2 ^ 32\<close>
  because the source masks the left shifts and the right shifts only shrink, so the
  registers are \<^typ>\<open>u32\<close> values.
\<close>

section \<open>The code\<close>

definition poly_reflected :: u32 where "poly_reflected = 0xEDB88320"

definition poly_msb :: u32 where "poly_msb = 0x04C11DB7"

text \<open>One shift of the inner loop that fills a table, reflected and most significant bit first.\<close>

definition rstep :: "u32 \<Rightarrow> u32 \<Rightarrow> u32" where
  "rstep poly c = (if c AND 1 \<noteq> 0 then drop_bit 1 c XOR poly else drop_bit 1 c)"

definition mstep :: "u32 \<Rightarrow> u32 \<Rightarrow> u32" where
  "mstep poly c = (if c AND 0x80000000 \<noteq> 0 then push_bit 1 c XOR poly else push_bit 1 c)"

fun iterate :: "nat \<Rightarrow> ('a \<Rightarrow> 'a) \<Rightarrow> 'a \<Rightarrow> 'a" where
  "iterate 0 f x = x"
| "iterate (Suc n) f x = iterate n f (f x)"

definition rtable :: "u32 \<Rightarrow> u32 list" where
  "rtable poly = map (\<lambda>n. iterate 8 (rstep poly) (of_nat n)) [0..<256]"

definition mtable :: "u32 \<Rightarrow> u32 list" where
  "mtable poly = map (\<lambda>n. iterate 8 (mstep poly) (push_bit 24 (of_nat n))) [0..<256]"

definition rbyte :: "u32 list \<Rightarrow> byte \<Rightarrow> u32 \<Rightarrow> u32" where
  "rbyte table b crc = (table ! unat ((crc XOR ucast b) AND 0xFF)) XOR drop_bit 8 crc"

definition mbyte :: "u32 list \<Rightarrow> byte \<Rightarrow> u32 \<Rightarrow> u32" where
  "mbyte table b crc = (table ! unat ((drop_bit 24 crc XOR ucast b) AND 0xFF)) XOR push_bit 8 crc"

text \<open>
  The function attribute \<^verbatim>\<open>_crc_reflected._t\<close> is the first component of the state:
  the table of the first call's polynomial, used by every later call.
\<close>

definition crc_reflected ::
  "u32 list option \<Rightarrow> byte list \<Rightarrow> u32 \<Rightarrow> u32 \<Rightarrow> u32 \<Rightarrow> u32 \<times> u32 list option" where
  "crc_reflected cache data init xorout poly =
     (let table = (case cache of None \<Rightarrow> rtable poly | Some t \<Rightarrow> t)
      in (fold (rbyte table) data init XOR xorout, Some table))"

definition crc_msb ::
  "u32 list option \<Rightarrow> byte list \<Rightarrow> u32 \<Rightarrow> u32 \<Rightarrow> u32 \<Rightarrow> u32 \<times> u32 list option" where
  "crc_msb cache data init xorout poly =
     (let table = (case cache of None \<Rightarrow> mtable poly | Some t \<Rightarrow> t)
      in (fold (mbyte table) data init XOR xorout, Some table))"

definition body :: "byte list \<Rightarrow> byte list" where
  "body blob = take (length blob - 4) blob"

text \<open>\<^verbatim>\<open>trailer_crc\<close> of qef-parse.py.\<close>

definition trailer_crc :: "u32 list option \<Rightarrow> byte list \<Rightarrow> u32 \<times> u32 list option" where
  "trailer_crc cache blob = crc_reflected cache (body blob) 0 0 poly_reflected"

text \<open>\<^verbatim>\<open>_TAB\<close> and \<^verbatim>\<open>trailer_crc\<close> of qef-patch.py.\<close>

definition patch_tab :: "u32 list" where
  "patch_tab = map (\<lambda>n. iterate 8 (rstep 0xEDB88320) (of_nat n)) [0..<256]"

definition patch_trailer_crc :: "byte list \<Rightarrow> u32" where
  "patch_trailer_crc blob = fold (rbyte patch_tab) (body blob) 0"

section \<open>The shift register\<close>

text \<open>
  The reference: the byte enters the low (or high) end of the register, which is then shifted
  eight times.
\<close>

definition rserial :: "u32 \<Rightarrow> byte \<Rightarrow> u32 \<Rightarrow> u32" where
  "rserial poly b crc = iterate 8 (rstep poly) (crc XOR ucast b)"

definition mserial :: "u32 \<Rightarrow> byte \<Rightarrow> u32 \<Rightarrow> u32" where
  "mserial poly b crc = iterate 8 (mstep poly) (crc XOR push_bit 24 (ucast b))"

lemma rstep_alt: "rstep poly c = drop_bit 1 c XOR (if bit c 0 then poly else 0)"
  by (simp add: rstep_def and_one_eq bit_0 odd_iff_mod_2_eq_one)

lemma and_top_bit: "(c AND 0x80000000 \<noteq> 0) = bit (c :: u32) 31"
proof -
  have "(0x80000000 :: u32) = push_bit 31 1" by simp
  then show ?thesis by (metis bit_iff_and_push_bit_not_eq_0)
qed

lemma mstep_alt: "mstep poly c = push_bit 1 c XOR (if bit c 31 then poly else 0)"
  by (simp only: mstep_def and_top_bit) auto

text \<open>
  What the table method needs of a shift: it is linear, and eight shifts of a word that is
  clear at the shifting end only move it.
\<close>

locale linear_step =
  fixes step :: "u32 \<Rightarrow> u32"
  assumes step_xor: "step (x XOR y) = step x XOR step y"
begin

lemma step_zero: "step 0 = 0"
  using step_xor [of 0 0] by simp

lemma iter_xor: "iterate n step (x XOR y) = iterate n step x XOR iterate n step y"
  by (induction n arbitrary: x y) (auto simp: step_xor)

lemma iter_inj:
  assumes "inj step"
  shows "inj (iterate n step)"
proof (induction n)
  case 0
  then show ?case by (simp add: inj_def)
next
  case (Suc n)
  have "iterate (Suc n) step = iterate n step \<circ> step" by (simp add: fun_eq_iff)
  then show ?case using inj_compose [OF Suc assms] by (simp only:)
qed

end

lemma xor_cond:
  "(a XOR b) XOR (if p \<noteq> q then c else 0)
     = (a XOR (if p then c else 0)) XOR (b XOR (if q then c else (0 :: u32)))"
  by (cases p; cases q) (simp_all add: xor.assoc xor.commute xor.left_commute)

interpretation rlin: linear_step "rstep poly" for poly
  by unfold_locales (simp only: rstep_alt drop_bit_xor bit_xor_iff xor_cond)

interpretation mlin: linear_step "mstep poly" for poly
  by unfold_locales (simp only: mstep_alt push_bit_xor bit_xor_iff xor_cond)

lemma iterate_add: "iterate (m + n) f x = iterate n f (iterate m f x)"
  by (induction m arbitrary: x) auto

lemma rstep_shift:
  "(\<And>i. i < n \<Longrightarrow> \<not> bit c i) \<Longrightarrow> iterate n (rstep poly) c = drop_bit n c"
proof (induction n arbitrary: c)
  case (Suc n)
  have "rstep poly c = drop_bit 1 c" using Suc.prems [of 0] by (simp add: rstep_alt)
  moreover have "\<And>i. i < n \<Longrightarrow> \<not> bit (drop_bit 1 c) i"
    using Suc.prems by (simp add: bit_drop_bit_eq)
  ultimately show ?case using Suc.IH [of "drop_bit 1 c"] by (simp add: drop_bit_drop_bit)
qed simp

lemma mstep_shift:
  "n \<le> 32 \<Longrightarrow> (\<And>i. 32 - n \<le> i \<Longrightarrow> \<not> bit c i) \<Longrightarrow> iterate n (mstep poly) c = push_bit n c"
proof (induction n arbitrary: c)
  case (Suc n)
  have "mstep poly c = push_bit 1 c" using Suc.prems by (simp add: mstep_alt)
  moreover have "\<And>i. 32 - n \<le> i \<Longrightarrow> \<not> bit (push_bit 1 c) i"
    using Suc.prems(2) by (auto simp only: bit_push_bit_iff)
  ultimately show ?case using Suc.IH [of "push_bit 1 c"] Suc.prems(1)
    by (simp add: push_bit_push_bit)
qed simp

section \<open>The table method computes the shift register\<close>

lemma and_ff: "(x :: u32) AND 0xFF = take_bit 8 x"
  by (simp add: take_bit_eq_mask mask_eq_exp_minus_1)

lemma unat_take8: "unat (take_bit 8 (x :: u32)) < 256"
  using take_bit_nat_less_exp [of 8 "unat x"] by (simp add: unsigned_take_bit_eq)

lemma table_nth:
  "map (\<lambda>n. f (of_nat n)) [0..<256] ! unat (take_bit 8 (x :: u32)) = f (take_bit 8 x)"
  using unat_take8 [of x] by simp

lemma split_low: "(x :: u32) = take_bit 8 x XOR push_bit 8 (drop_bit 8 x)"
  by (rule bit_word_eqI) (auto simp: bit_xor_iff bit_take_bit_iff bit_push_bit_iff bit_drop_bit_eq)

lemma split_high: "(x :: u32) = push_bit 24 (drop_bit 24 x) XOR take_bit 24 x"
  by (rule bit_word_eqI) (auto simp: bit_xor_iff bit_take_bit_iff bit_push_bit_iff bit_drop_bit_eq)

lemma drop8_byte: "drop_bit 8 (crc XOR ucast (b :: byte)) = drop_bit 8 (crc :: u32)"
  by (rule bit_word_eqI)
     (auto simp: bit_xor_iff bit_drop_bit_eq bit_ucast_iff dest: bit_imp_le_length)

lemma rbyte_table: "rbyte (rtable poly) b crc = rserial poly b crc"
proof -
  let ?x = "crc XOR ucast b"
  have "iterate 8 (rstep poly) ?x
      = iterate 8 (rstep poly) (take_bit 8 ?x)
        XOR iterate 8 (rstep poly) (push_bit 8 (drop_bit 8 ?x))"
    by (subst split_low) (rule rlin.iter_xor)
  also have "iterate 8 (rstep poly) (push_bit 8 (drop_bit 8 ?x)) = drop_bit 8 (push_bit 8 (drop_bit 8 ?x))"
    by (rule rstep_shift) (auto simp: bit_simps)
  also have "drop_bit 8 (push_bit 8 (drop_bit 8 ?x)) = drop_bit 8 crc"
    unfolding drop8_byte
    by (rule bit_word_eqI) (auto simp: bit_push_bit_iff bit_drop_bit_eq dest: bit_imp_le_length)
  finally show ?thesis
    unfolding rbyte_def rserial_def rtable_def and_ff
    by (simp only: table_nth [where f = "iterate 8 (rstep poly)"])
qed

lemma low_byte_xor:
  "push_bit 24 (take_bit 8 (drop_bit 24 crc XOR ucast (b :: byte)))
     = push_bit 24 (drop_bit 24 ((crc :: u32) XOR push_bit 24 (ucast b)))"
  by (rule bit_word_eqI)
     (auto simp: bit_xor_iff bit_take_bit_iff bit_push_bit_iff bit_drop_bit_eq bit_ucast_iff
        dest: bit_imp_le_length)

lemma mbyte_table: "mbyte (mtable poly) b crc = mserial poly b crc"
proof -
  let ?x = "crc XOR push_bit 24 (ucast b)"
  have "iterate 8 (mstep poly) ?x
      = iterate 8 (mstep poly) (push_bit 24 (drop_bit 24 ?x)) XOR iterate 8 (mstep poly) (take_bit 24 ?x)"
    by (subst split_high) (rule mlin.iter_xor)
  also have "iterate 8 (mstep poly) (take_bit 24 ?x) = push_bit 8 (take_bit 24 ?x)"
    by (rule mstep_shift) (auto simp: bit_simps)
  also have "push_bit 8 (take_bit 24 ?x) = push_bit 8 crc"
    by (rule bit_word_eqI)
       (auto simp: bit_push_bit_iff bit_take_bit_iff bit_xor_iff bit_ucast_iff)
  finally show ?thesis
    unfolding mbyte_def mserial_def mtable_def and_ff
    by (simp only: table_nth [where f = "\<lambda>x. iterate 8 (mstep poly) (push_bit 24 x)"] low_byte_xor)
qed

lemmas table_methods = rbyte_table mbyte_table

section \<open>Injectivity, and the burst of one word\<close>

lemma xor_right_cancel: "(a :: u32) XOR c = b XOR c \<longleftrightarrow> a = b"
proof
  assume "a XOR c = b XOR c"
  then have "(a XOR c) XOR c = (b XOR c) XOR c" by simp
  then show "a = b" by (simp add: xor.assoc)
qed simp

lemma rstep_inj: "bit poly 31 \<Longrightarrow> inj (rstep poly)"
proof (rule injI)
  fix x y assume p: "bit poly 31" and eq: "rstep poly x = rstep poly y"
  have top: "bit (rstep poly z) 31 = bit z 0" for z
    using p by (auto simp: rstep_alt bit_xor_iff bit_drop_bit_eq dest: bit_imp_le_length)
  have low: "bit x 0 = bit y 0" using top [of x] top [of y] eq by simp
  then have "drop_bit 1 x = drop_bit 1 y"
    using eq by (simp only: rstep_alt xor_right_cancel)
  then have "bit x (Suc n) = bit y (Suc n)" for n
    by (metis One_nat_def bit_drop_bit_eq comp_apply plus_1_eq_Suc)
  with low show "x = y" by (metis bit_eqI not0_implies_Suc)
qed

lemma poly_reflected_top: "bit poly_reflected 31"
  by (simp add: poly_reflected_def bit_iff_odd)

lemma rserial_inj:
  assumes "bit poly 31"
  shows "rserial poly b x = rserial poly b y \<longleftrightarrow> x = y"
  unfolding rserial_def inj_eq [OF rlin.iter_inj [OF rstep_inj [OF assms]]] xor_right_cancel ..

lemma fold_rserial_inj:
  assumes "bit poly 31"
  shows "fold (rserial poly) data x = fold (rserial poly) data y \<longleftrightarrow> x = y"
  by (induction data arbitrary: x y) (auto simp: rserial_inj [OF assms])

text \<open>Up to four bytes enter the register at once, least significant byte first.\<close>

fun le_word :: "byte list \<Rightarrow> u32" where
  "le_word [] = 0"
| "le_word (b # bs) = ucast b XOR push_bit 8 (le_word bs)"

lemma le_word_bound: "bit (le_word bs) i \<Longrightarrow> i < 8 * length bs"
proof (induction bs arbitrary: i)
  case (Cons b bs)
  then show ?case
    by (cases "i < 8")
       (auto simp: bit_xor_iff bit_push_bit_iff bit_ucast_iff not_less dest: bit_imp_le_length
          dest!: Cons.IH)
qed simp

lemma rserial_push8:
  assumes "length bs \<le> 3"
  shows "iterate 8 (rstep poly) (push_bit 8 (le_word bs)) = le_word bs"
proof -
  have "iterate 8 (rstep poly) (push_bit 8 (le_word bs)) = drop_bit 8 (push_bit 8 (le_word bs))"
    by (rule rstep_shift) (auto simp: bit_simps)
  also have "\<dots> = le_word bs"
    using assms by (intro bit_word_eqI) (auto simp: bit_simps dest: le_word_bound)
  finally show ?thesis .
qed

lemma fold_rserial_word:
  "length bs \<le> 4 \<Longrightarrow>
   fold (rserial poly) bs s = iterate (8 * length bs) (rstep poly) (s XOR le_word bs)"
proof (induction bs arbitrary: s)
  case (Cons b bs)
  let ?it = "iterate 8 (rstep poly)"
  have "fold (rserial poly) (b # bs) s
      = iterate (8 * length bs) (rstep poly) (?it (s XOR ucast b) XOR le_word bs)"
    using Cons.IH [of "?it (s XOR ucast b)"] Cons.prems by (simp add: rserial_def [of poly b])
  also have "?it (s XOR ucast b) XOR le_word bs = ?it ((s XOR ucast b) XOR push_bit 8 (le_word bs))"
    using Cons.prems by (simp only: rlin.iter_xor) (simp add: rserial_push8)
  also have "(s XOR ucast b) XOR push_bit 8 (le_word bs) = s XOR le_word (b # bs)"
    by (simp add: xor.assoc)
  also have "iterate (8 * length bs) (rstep poly) (?it (s XOR le_word (b # bs)))
      = iterate (8 + 8 * length bs) (rstep poly) (s XOR le_word (b # bs))"
    by (simp only: iterate_add)
  also have "8 + 8 * length bs = 8 * length (b # bs)" by simp
  finally show ?case .
qed simp

lemma le_word_inj:
  "length xs = length ys \<Longrightarrow> length xs \<le> 4 \<Longrightarrow> le_word xs = le_word ys \<Longrightarrow> xs = ys"
proof (induction xs arbitrary: ys)
  case (Cons x xs)
  then obtain y ys' where ys: "ys = y # ys'" by (cases ys) auto
  have low: "take_bit 8 (le_word (b # bs)) = ucast b" for b bs
    by (rule bit_word_eqI) (auto simp: bit_simps dest: bit_imp_le_length)
  have high: "drop_bit 8 (le_word (b # bs)) = le_word bs" if "length bs \<le> 3" for b bs
    using that by (intro bit_word_eqI) (auto simp: bit_simps dest: bit_imp_le_length le_word_bound)
  have "(ucast x :: u32) = ucast y" using Cons.prems(3) low ys by metis
  moreover have "(ucast (ucast z :: u32) :: byte) = z" for z
    by (rule bit_word_eqI) (auto simp: bit_ucast_iff)
  ultimately have "x = y" by metis
  moreover have "le_word xs = le_word ys'"
    using Cons.prems high [of xs x] high [of ys' y] by (simp add: ys)
  ultimately show ?case using Cons.IH [of ys'] Cons.prems by (simp add: ys)
qed simp

lemma burst_changes_crc:
  assumes "bit poly 31" "length xs = length ys" "length xs \<le> 4" "xs \<noteq> ys"
  shows "fold (rserial poly) (p @ xs @ s) r \<noteq> fold (rserial poly) (p @ ys @ s) r"
proof
  assume "fold (rserial poly) (p @ xs @ s) r = fold (rserial poly) (p @ ys @ s) r"
  then have "fold (rserial poly) xs (fold (rserial poly) p r) = fold (rserial poly) ys (fold (rserial poly) p r)"
    by (simp add: fold_rserial_inj [OF assms(1)])
  then have "fold (rserial poly) p r XOR le_word xs = fold (rserial poly) p r XOR le_word ys"
    using assms(2,3) by (simp add: fold_rserial_word inj_eq [OF rlin.iter_inj [OF rstep_inj [OF assms(1)]]])
  then have "le_word xs = le_word ys"
    by (simp add: xor.commute [of "fold (rserial poly) p r"] xor_right_cancel)
  with le_word_inj [OF assms(2,3)] assms(4) show False by simp
qed

section \<open>What a user of the trailer relies on\<close>

definition seal :: "(byte list \<Rightarrow> u32) \<Rightarrow> byte list \<Rightarrow> byte list" where
  "seal tcrc blob = slice_assign (length blob - 4) (length blob) (pack_be32 (tcrc blob)) blob"

definition verifies :: "(byte list \<Rightarrow> u32) \<Rightarrow> byte list \<Rightarrow> bool" where
  "verifies tcrc blob = (unpack_be32 (drop (length blob - 4) blob) = Inr (tcrc blob))"

locale trailer_code =
  fixes tcrc :: "byte list \<Rightarrow> u32"
  assumes tcrc_body: "body a = body b \<Longrightarrow> tcrc a = tcrc b"
    and tcrc_burst: "\<lbrakk>length xs = length ys; length xs \<le> 4; xs \<noteq> ys; body a = p @ xs @ s; body b = p @ ys @ s\<rbrakk>
      \<Longrightarrow> tcrc a \<noteq> tcrc b"
begin

lemma seal_eq: "seal tcrc blob = body blob @ pack_be32 (tcrc blob)"
  by (simp add: seal_def slice_assign_def body_def)

lemma body_seal: "body (seal tcrc blob) = body blob"
  by (simp add: seal_eq body_def)

lemma length_seal: "4 \<le> length blob \<Longrightarrow> length (seal tcrc blob) = length blob"
  by (simp add: seal_eq body_def)

lemma verifies_seal: "verifies tcrc (seal tcrc blob)"
  using tcrc_body [OF body_seal] by (simp add: verifies_def seal_eq)

lemma seal_only_trailer: "k + 4 < length blob \<Longrightarrow> seal tcrc blob ! k = blob ! k"
  by (simp add: seal_eq body_def nth_append less_diff_conv)

lemma burst_detected:
  assumes "verifies tcrc (p @ xs @ s @ t)" "length t = 4"
    and "length xs = length ys" "length xs \<le> 4" "xs \<noteq> ys"
  shows "\<not> verifies tcrc (p @ ys @ s @ t)"
proof -
  have "body (p @ zs @ s @ t) = p @ zs @ s" for zs
    using assms(2) by (simp add: body_def)
  then have "tcrc (p @ xs @ s @ t) \<noteq> tcrc (p @ ys @ s @ t)"
    by (intro tcrc_burst [OF assms(3-5)])
  then show ?thesis using assms(1,2) by (auto simp: verifies_def)
qed

end

lemma fold_cong_fun: "(\<And>b c. f b c = g b c) \<Longrightarrow> fold f xs s = fold g xs s"
  by (induction xs arbitrary: s) auto

lemma crc_reflected_serial:
  "cache = None \<or> cache = Some (rtable poly) \<Longrightarrow>
   crc_reflected cache data init xorout poly
     = (fold (rserial poly) data init XOR xorout, Some (rtable poly))"
  by (auto simp: crc_reflected_def Let_def intro!: arg_cong [where f = "\<lambda>x. x XOR xorout"]
      fold_cong_fun rbyte_table)

lemma crc_msb_serial:
  "cache = None \<or> cache = Some (mtable poly) \<Longrightarrow>
   crc_msb cache data init xorout poly
     = (fold (mserial poly) data init XOR xorout, Some (mtable poly))"
  by (auto simp: crc_msb_def Let_def intro!: arg_cong [where f = "\<lambda>x. x XOR xorout"]
      fold_cong_fun mbyte_table)

lemma trailer_crc_serial:
  "cache = None \<or> cache = Some (rtable poly_reflected) \<Longrightarrow>
   trailer_crc cache blob = (fold (rserial poly_reflected) (body blob) 0, Some (rtable poly_reflected))"
  by (simp add: trailer_crc_def crc_reflected_serial)

lemma patch_trailer_crc_serial:
  "patch_trailer_crc blob = fold (rserial poly_reflected) (body blob) 0"
  unfolding patch_trailer_crc_def
  by (rule fold_cong_fun)
     (simp only: rbyte_table [symmetric] patch_tab_def rtable_def poly_reflected_def)

abbreviation parse_tcrc :: "byte list \<Rightarrow> u32" where
  "parse_tcrc blob \<equiv> fst (trailer_crc None blob)"

lemma serial_trailer_code:
  assumes "\<And>b. tc b = fold (rserial poly_reflected) (body b) 0"
  shows "trailer_code tc"
  using assms burst_changes_crc [OF poly_reflected_top] by unfold_locales (metis+)

interpretation parse_tc: trailer_code parse_tcrc
  by (rule serial_trailer_code) (simp add: trailer_crc_serial)

interpretation patch_tc: trailer_code patch_trailer_crc
  by (rule serial_trailer_code) (rule patch_trailer_crc_serial)

lemma trailer_tools_agree: "patch_trailer_crc = parse_tcrc"
  by (simp add: fun_eq_iff trailer_crc_serial patch_trailer_crc_serial)

section \<open>Properties\<close>

text \<open>C37. Both table-driven CRC routines of qef-parse.py, called with an empty function-attribute
  cache or with the cache an earlier call with the same polynomial left, return the CRC of the
  bit-serial shift register, and leave that polynomial's table in the cache.\<close>

theorem crc_tables_correct:
  assumes "rc = None \<or> rc = Some (rtable poly)" and "mc = None \<or> mc = Some (mtable poly')"
  shows "crc_reflected rc data init xorout poly
           = (fold (rserial poly) data init XOR xorout, Some (rtable poly))
       \<and> crc_msb mc data init' xorout' poly'
           = (fold (mserial poly') data init' XOR xorout', Some (mtable poly'))"
  using assms by (simp add: crc_reflected_serial crc_msb_serial)

lemma crc_tables_correct_witness:
  "fst (crc_reflected None [0x31, 0x32, 0x33] 0xFFFFFFFF 0 poly_reflected) = 0x77B79C2D \<and>
   fst (crc_msb None [0x31, 0x32, 0x33] 0xFFFFFFFF 0 poly_msb) = 0xD952F164"
proof -
  have "fold (rserial poly_reflected) [0x31, 0x32, 0x33] 0xFFFFFFFF = 0x77B79C2D"
    and "fold (mserial poly_msb) [0x31, 0x32, 0x33] 0xFFFFFFFF = 0xD952F164"
    by code_simp+
  then show ?thesis
    using crc_tables_correct [where rc = None and mc = None and poly = poly_reflected and poly' = poly_msb
        and init = "0xFFFFFFFF" and init' = "0xFFFFFFFF" and xorout = 0 and xorout' = 0
        and data = "[0x31, 0x32, 0x33]"] by simp
qed

text \<open>C18. Any damage confined to four consecutive bytes of a container whose trailer verifies (a
  code word overwritten, for instance) makes the check fail, in qef-parse.py and in qef-patch.py,
  when the trailer bytes are left as they were.\<close>

theorem word_damage_detected:
  assumes "verifies parse_tcrc (p @ xs @ s @ t)" "length t = 4"
    and "length xs = length ys" "length xs \<le> 4" "xs \<noteq> ys"
  shows "\<not> verifies parse_tcrc (p @ ys @ s @ t) \<and> \<not> verifies patch_trailer_crc (p @ ys @ s @ t)"
  using parse_tc.burst_detected [OF assms] by (simp add: trailer_tools_agree)

lemma word_damage_detected_witness:
  "\<not> verifies parse_tcrc ([0x51] @ [2, 3] @ [4] @ [0x47, 0x28, 0xA4, 0x6B])
   \<and> verifies patch_trailer_crc ([0x51] @ [1, 2] @ [4] @ [0x47, 0x28, 0xA4, 0x6B])"
proof -
  have "fold (rserial poly_reflected) [0x51, 1, 2, 4] 0 = 0x4728A46B"
    by code_simp
  then have v: "verifies parse_tcrc ([0x51] @ [1, 2] @ [4] @ [0x47, 0x28, 0xA4, 0x6B])"
    by (simp add: verifies_def trailer_crc_serial body_def be32_def)
  show ?thesis
    using word_damage_detected [OF v, of "[2, 3]"] v by (simp add: trailer_tools_agree)
qed

end
