(* ===== verification/QefParse.thy ===== *)
theory QefParse
  imports Crc
begin

text \<open>
  \<^verbatim>\<open>decomp/tools/qef-parse.py\<close>: the reader of a QorIQ engine firmware container, its word
  dump, its dispatch table and its trailer checks.  A printed line is a value; a loop that
  raises half way keeps what it printed.  Paths and the layout of the printed text are left out.
\<close>

section \<open>The container\<close>

definition HDR_LEN :: nat where "HDR_LEN = 124"
definition DESC_LEN :: nat where "DESC_LEN = 120"
definition D_COUNT_OFF :: nat where "D_COUNT_OFF = 104"
definition D_VER_OFF :: nat where "D_VER_OFF = 112"
definition TRAILER_LEN :: nat where "TRAILER_LEN = 4"

lemmas layout = HDR_LEN_def DESC_LEN_def D_COUNT_OFF_def D_VER_OFF_def TRAILER_LEN_def

record qef =
  q_path :: string
  q_length :: nat
  q_id :: "nat list"
  q_layout :: byte
  q_split :: byte
  q_sections :: byte
  q_soc :: u16
  q_iram :: nat
  q_wcount :: nat
  q_code_off :: nat
  q_version :: "byte list"
  q_trailer :: u32
  q_code :: "byte list"
  q_words :: "u32 list"
  q_blob :: "byte list"

text \<open>\<^verbatim>\<open>decode("ascii", "replace")\<close>, as code points.\<close>

definition ascii_replace :: "byte list \<Rightarrow> nat list" where
  "ascii_replace bs = map (\<lambda>b. if unat b < 128 then unat b else 0xFFFD) bs"

definition parse_blob :: "string \<Rightarrow> byte list \<Rightarrow> qef res" where
  "parse_blob path raw =
     (if length raw < HDR_LEN + DESC_LEN + TRAILER_LEN then Inl (ValueError ''too small'')
      else bindE (unpack_be32 (slice 0 4 raw)) (\<lambda>lenw.
        let len = unat lenw in
        if slice 4 7 raw \<noteq> [0x51, 0x45, 0x46] \<or> raw ! 7 \<noteq> 1 then Inl (ValueError ''not a QEF v1 blob'')
        else if length raw < len then Inl (ValueError ''length field exceeds file'')
        else let blob = take len raw; d = slice HDR_LEN (HDR_LEN + DESC_LEN) blob in
          bindE (unpack_words 3 (slice (D_COUNT_OFF - 4) D_VER_OFF d)) (\<lambda>ws.
            let iram = unat (ws ! 0); wcount = unat (ws ! 1); code_off = unat (ws ! 2);
                ver = slice D_VER_OFF (D_VER_OFF + 3) d;
                code = slice code_off (code_off + wcount * 4) blob in
            if length code \<noteq> wcount * 4 then Inl (ValueError ''truncated code region'')
            else bindE (unpack_be16 (slice 72 74 blob)) (\<lambda>soc.
              bindE (unpack_be32 (drop (length blob - TRAILER_LEN) blob)) (\<lambda>trailer.
              bindE (unpack_words wcount code) (\<lambda>words.
                Inr \<lparr> q_path = path, q_length = len,
                      q_id = ascii_replace (takeWhile (\<lambda>b. b \<noteq> 0) (slice 8 70 blob)),
                      q_layout = blob ! 7, q_split = blob ! 70, q_sections = blob ! 71, q_soc = soc,
                      q_iram = iram, q_wcount = wcount, q_code_off = code_off, q_version = ver,
                      q_trailer = trailer, q_code = code, q_words = words, q_blob = blob \<rparr>))))))"

section \<open>The commands\<close>

definition dump_word :: "u32 list \<Rightarrow> int \<Rightarrow> (int \<times> int \<times> u32) res" where
  "dump_word ws i = bindE (py_nth ws i) (\<lambda>w. Inr (i, i * 4, w))"

text \<open>\<open>start\<close> and \<open>end\<close> are the integers argparse read; a negative index counts from the end.\<close>

definition cmd_dump_words :: "qef \<Rightarrow> int \<Rightarrow> int option \<Rightarrow> (int \<times> int \<times> u32) list \<times> py_error option" where
  "cmd_dump_words q start fin =
     (let hi = min (case fin of Some e \<Rightarrow> e | None \<Rightarrow> int (q_wcount q)) (int (q_wcount q))
      in emit_all (dump_word (q_words q)) [start..hi - 1])"

datatype slot_note = NoNote | VersionStamp u32 | UnusualPad u32

datatype slot = EmptySlot nat | EntrySlot nat u32 nat nat slot_note

definition dispatch_slot :: "u32 list \<Rightarrow> nat \<Rightarrow> slot res" where
  "dispatch_slot ws i =
     bindE (py_nth ws (int (i * 2))) (\<lambda>br. bindE (py_nth ws (int (i * 2 + 1))) (\<lambda>pad.
       if br = 0xFFFFFFFF \<and> pad = 0xFFFFFFFF then Inr (EmptySlot i)
       else let tgt = unat (br AND 0xFFFF);
                note = (if i = 0 then VersionStamp pad
                        else if pad \<noteq> 0xFFFFFFFF then UnusualPad pad else NoNote)
            in Inr (EntrySlot i br (48 + tgt) (tgt * 4 + 0xC0) note)))"

definition cmd_dispatch :: "qef \<Rightarrow> slot list \<times> py_error option" where
  "cmd_dispatch q = emit_all (dispatch_slot (q_words q)) [0..<24]"

datatype crc_variant = ISO_HDLC | JAMCRC | XFER | BZIP2 | MPEG2 | POSIX | BASE91_C

text \<open>
  \<^verbatim>\<open>zlib.crc32\<close> is the reflected CRC with both complements; every call of the table
  routines uses the default polynomials, so the caches do not matter.
\<close>

fun crc_variant_of :: "crc_variant \<Rightarrow> byte list \<Rightarrow> u32" where
  "crc_variant_of ISO_HDLC d = fst (crc_reflected None d 0xFFFFFFFF 0xFFFFFFFF poly_reflected)"
| "crc_variant_of JAMCRC d = fst (crc_reflected None d 0xFFFFFFFF 0 poly_reflected)"
| "crc_variant_of XFER d = fst (crc_reflected None d 0 0xFFFFFFFF poly_reflected)"
| "crc_variant_of BZIP2 d = fst (crc_msb None d 0xFFFFFFFF 0xFFFFFFFF poly_msb)"
| "crc_variant_of MPEG2 d = fst (crc_msb None d 0xFFFFFFFF 0 poly_msb)"
| "crc_variant_of POSIX d = fst (crc_msb None d 0 0xFFFFFFFF poly_msb)"
| "crc_variant_of BASE91_C d = fst (crc_msb None d 0 0 poly_msb)"

definition crc_variants :: "crc_variant list" where
  "crc_variants = [ISO_HDLC, JAMCRC, XFER, BZIP2, MPEG2, POSIX, BASE91_C]"

definition ranges :: "qef \<Rightarrow> byte list list" where
  "ranges q =
     (let blob = q_blob q; co = q_code_off q; clen = q_wcount q * 4; n = length blob in
      [slice 0 (n - 4) blob, slice 4 (n - 4) blob, slice 8 (n - 4) blob, slice HDR_LEN (n - 4) blob,
       slice co (co + clen) blob, slice 0 (n - 4) blob @ [0, 0, 0, 0],
       slice 0 (n - 4) blob @ pack_be32 (of_nat n)])"

text \<open>The check of \<^verbatim>\<open>cmd_crc\<close>: a line per blob and the exit status; the table cache is threaded.\<close>

fun crc_lines :: "u32 list option \<Rightarrow> qef list \<Rightarrow> (u32 \<times> u32 \<times> bool) list" where
  "crc_lines cache [] = []"
| "crc_lines cache (q # qs) =
     (let (calc, cache') = trailer_crc cache (q_blob q)
      in (q_trailer q, calc, calc = q_trailer q) # crc_lines cache' qs)"

definition crc_status :: "qef list \<Rightarrow> int" where
  "crc_status qs = fold (\<lambda>(_, _, ok) rc. if ok then rc else 1) (crc_lines None qs) 0"

text \<open>One row of the brute force: variant, index of the range, the values and their verdicts.\<close>

type_synonym hit = "crc_variant \<times> nat \<times> u32 list \<times> bool list"

definition brute_try :: "qef list \<Rightarrow> crc_variant \<Rightarrow> nat \<Rightarrow> hit" where
  "brute_try qs v r =
     (let vals = map (\<lambda>q. crc_variant_of v (ranges q ! r)) qs
      in (v, r, vals, map2 (\<lambda>x q. x = q_trailer q) vals qs))"

definition brute_hits :: "qef list \<Rightarrow> hit list" where
  "brute_hits qs =
     filter (\<lambda>(_, _, _, ok). list_ex id ok)
       (concat (map (\<lambda>v. map (brute_try qs v) [0..<7]) crc_variants))"

definition consistent :: "hit list \<Rightarrow> (crc_variant \<times> nat) list" where
  "consistent hits = map (\<lambda>(v, r, _, _). (v, r)) (filter (\<lambda>(_, _, _, ok). list_all id ok) hits)"

text \<open>
  The arguments of the last print: \<^verbatim>\<open>*pairs or "none ..."\<close> unpacks the string too, so each of
  its characters is an argument of its own.
\<close>

datatype print_arg = Pair crc_variant nat | Text string

definition none_message :: string where
  "none_message = ''none - trailer is not a plain CRC-32 of any tested scope''"

definition solution_args :: "hit list \<Rightarrow> print_arg list" where
  "solution_args hits =
     (case consistent hits of [] \<Rightarrow> map (\<lambda>c. Text [c]) none_message
      | c # cs \<Rightarrow> map (\<lambda>(v, r). Pair v r) (c # cs))"

section \<open>What the reader accepts\<close>

definition magic_ok :: "byte list \<Rightarrow> bool" where
  "magic_ok raw = (slice 4 8 raw = [0x51, 0x45, 0x46, 1])"

abbreviation len_field :: "byte list \<Rightarrow> nat" where "len_field raw \<equiv> unat (word_at 0 raw)"
abbreviation count_field :: "byte list \<Rightarrow> nat" where "count_field raw \<equiv> unat (word_at 228 raw)"
abbreviation code_field :: "byte list \<Rightarrow> nat" where "code_field raw \<equiv> unat (word_at 232 raw)"

definition truncated :: "byte list \<Rightarrow> bool" where
  "truncated raw = (count_field raw \<noteq> 0 \<and> len_field raw < code_field raw + count_field raw * 4)"

definition container_view :: "string \<Rightarrow> byte list \<Rightarrow> qef" where
  "container_view path raw =
     (let blob = take (len_field raw) raw; wc = count_field raw; co = code_field raw in
      \<lparr> q_path = path, q_length = len_field raw,
        q_id = ascii_replace (takeWhile (\<lambda>b. b \<noteq> 0) (slice 8 70 raw)),
        q_layout = raw ! 7, q_split = raw ! 70, q_sections = raw ! 71,
        q_soc = push_bit 8 (ucast (raw ! 72)) OR ucast (raw ! 73),
        q_iram = unat (word_at 224 raw), q_wcount = wc, q_code_off = co,
        q_version = slice 236 239 blob,
        q_trailer = word_at (len_field raw - 4) raw,
        q_code = slice co (co + wc * 4) blob,
        q_words = map (\<lambda>i. word_at (co + 4 * i) raw) [0..<wc],
        q_blob = blob \<rparr>)"

lemma magic_ok_iff:
  "248 \<le> length raw \<Longrightarrow>
   magic_ok raw \<longleftrightarrow> slice 4 7 raw = [0x51, 0x45, 0x46] \<and> raw ! 7 = 1"
proof -
  assume len: "248 \<le> length raw"
  have "slice 7 8 raw = [raw ! 7]" using len by (simp add: slice_def take_Suc hd_drop_conv_nth)
  then have "slice 4 8 raw = slice 4 7 raw @ [raw ! 7]" using slice_append [of 4 7 8 raw] by simp
  then show ?thesis by (auto simp: magic_ok_def append_eq_Cons_conv Cons_eq_append_conv)
qed

lemma unpack_be16_at:
  assumes "off + 2 \<le> length bs"
  shows "unpack_be16 (slice off (off + 2) bs) = Inr (push_bit 8 (ucast (bs ! off)) OR ucast (bs ! Suc off))"
proof -
  have "drop off bs = bs ! off # bs ! Suc off # drop (Suc (Suc off)) bs"
    using assms by (simp add: Cons_nth_drop_Suc)
  then show ?thesis by (simp add: unpack_be16_def slice_def)
qed

lemma slice_take: "j \<le> n \<Longrightarrow> slice i j (take n xs) = slice i j xs"
  by (simp add: slice_def drop_take take_take min_def)

lemma length_code_slice:
  "length (slice co (co + wc * 4) blob) = wc * 4 \<longleftrightarrow> wc = 0 \<or> co + wc * 4 \<le> length blob"
  by (auto simp: length_slice)

lemma parse_blob_closed:
  "parse_blob path raw =
     (if length raw < 248 then Inl (ValueError ''too small'')
      else if \<not> magic_ok raw then Inl (ValueError ''not a QEF v1 blob'')
      else if length raw < len_field raw then Inl (ValueError ''length field exceeds file'')
      else if len_field raw < 236 then Inl StructError
      else if truncated raw then Inl (ValueError ''truncated code region'')
      else Inr (container_view path raw))"
proof (cases "248 \<le> length raw \<and> magic_ok raw \<and> len_field raw \<le> length raw")
  case False
  then show ?thesis
    using unpack_word_at [of 0 raw]
    by (auto simp: parse_blob_def layout Let_def magic_ok_iff not_less)
next
  case True
  let ?blob = "take (len_field raw) raw"
  let ?d = "slice 124 244 ?blob"
  have magic: "slice 4 7 raw = [0x51, 0x45, 0x46]" "raw ! 7 = 1" using True magic_ok_iff by auto
  have hdr: "unpack_be32 (slice 0 4 raw) = Inr (word_at 0 raw)" using True unpack_word_at [of 0 raw] by simp
  have d: "slice 100 112 ?d = slice 224 236 ?blob" by (simp add: slice_slice)
  show ?thesis
  proof (cases "236 \<le> len_field raw")
    case False
    then have "unpack_words 3 (slice 100 112 ?d) = Inl StructError"
      by (intro unpack_words_Inl) (auto simp: d length_slice)
    with True False hdr magic show ?thesis
      by (simp add: parse_blob_def layout Let_def)
  next
    case len: True
    have "unpack_words 3 (slice 224 (224 + 4 * 3) ?blob)
        = Inr (map (\<lambda>i. word_at (224 + 4 * i) ?blob) [0..<3])"
      using True len by (intro unpack_words_at) simp
    also have "\<dots> = Inr [word_at 224 raw, word_at 228 raw, word_at 232 raw]"
      using len by (simp add: word_at_take upt_rec numeral_eq_Suc [of "Num.One"] del: upt_Suc)
    finally have ws: "unpack_words 3 (slice 100 112 ?d)
        = Inr [word_at 224 raw, word_at 228 raw, word_at 232 raw]" by (simp add: d)
    have soc: "unpack_be16 (slice 72 74 ?blob) = Inr (push_bit 8 (ucast (raw ! 72)) OR ucast (raw ! 73))"
      using unpack_be16_at [of 72 ?blob] True len by simp
    have "drop (length ?blob - 4) ?blob = slice (len_field raw - 4) (len_field raw - 4 + 4) ?blob"
      using True len by (simp add: slice_def)
    then have tr: "unpack_be32 (drop (length ?blob - 4) ?blob) = Inr (word_at (len_field raw - 4) raw)"
      using unpack_word_at [of "len_field raw - 4" ?blob] True len by (simp add: word_at_take)
    have code: "unpack_words (count_field raw) (slice (code_field raw) (code_field raw + count_field raw * 4) ?blob)
        = Inr (map (\<lambda>i. word_at (code_field raw + 4 * i) raw) [0..<count_field raw])"
      if "\<not> truncated raw"
    proof (cases "count_field raw = 0")
      case False
      with that have "code_field raw + 4 * count_field raw \<le> len_field raw" by (simp add: truncated_def)
      then show ?thesis
        using unpack_words_at [of "code_field raw" "count_field raw" ?blob] True
        by (simp add: word_at_take mult.commute)
    qed (simp add: slice_def)
    show ?thesis
      using True len hdr ws soc tr code magic
      by (simp add: parse_blob_def layout Let_def length_code_slice truncated_def
          container_view_def slice_take [of 70 "len_field raw" 8] slice_slice not_le)
  qed
qed

lemma parse_blob_eq_Inr:
  "parse_blob path raw = Inr q \<longleftrightarrow>
     248 \<le> length raw \<and> magic_ok raw \<and> 236 \<le> len_field raw \<and> len_field raw \<le> length raw \<and>
     \<not> truncated raw \<and> q = container_view path raw"
  unfolding parse_blob_closed by auto

section \<open>The commands\<close>

lemma crc_lines_cached:
  "cache = None \<or> cache = Some (rtable poly_reflected) \<Longrightarrow>
   crc_lines cache qs
     = map (\<lambda>q. (q_trailer q, parse_tcrc (q_blob q), parse_tcrc (q_blob q) = q_trailer q)) qs"
  by (induction qs arbitrary: cache) (auto simp: trailer_crc_serial Let_def)

lemma crc_status_fold:
  "fold (\<lambda>(_, _, ok) rc. if ok then rc else 1) ls (rc :: int) = (if \<forall>(_, _, ok) \<in> set ls. ok then rc else 1)"
  by (induction ls arbitrary: rc) (auto split: prod.splits)

lemma brute_try_mem: "v \<in> set crc_variants"
  by (cases v) (simp_all add: crc_variants_def)

lemma map2_oks: "list_all id (map2 (\<lambda>x q. x = g q) (map f qs) qs) \<longleftrightarrow> (\<forall>q \<in> set qs. f q = g q)"
  by (induction qs) auto

lemma map2_oks_ex: "list_ex id (map2 (\<lambda>x q. x = g q) (map f qs) qs) \<longleftrightarrow> (\<exists>q \<in> set qs. f q = g q)"
  by (induction qs) auto

lemma brute_consistent_iff:
  assumes "qs \<noteq> []"
  shows "(v, r) \<in> set (consistent (brute_hits qs)) \<longleftrightarrow>
    r < 7 \<and> (\<forall>q \<in> set qs. crc_variant_of v (ranges q ! r) = q_trailer q)"
proof -
  have ex: "(\<forall>q \<in> set qs. crc_variant_of v (ranges q ! r) = q_trailer q)
      \<Longrightarrow> (\<exists>q \<in> set qs. crc_variant_of v (ranges q ! r) = q_trailer q)"
    using assms by (cases qs) auto
  then show ?thesis
    by (auto simp: consistent_def brute_hits_def brute_try_def Let_def map2_oks map2_oks_ex
        brute_try_mem image_iff)
qed

section \<open>Properties\<close>

text \<open>The reader, on every input: which blobs it accepts, the record it builds from them (every
  field at its documented offset, the code words from the code region), and which error each other
  input gets.  A length field below 236 is not reported as a \<^verbatim>\<open>ValueError\<close> but escapes
  as the exception of the struct module.\<close>

lemma parse_blob_total:
  "parse_blob path raw =
     (if length raw < 248 then Inl (ValueError ''too small'')
      else if \<not> magic_ok raw then Inl (ValueError ''not a QEF v1 blob'')
      else if length raw < len_field raw then Inl (ValueError ''length field exceeds file'')
      else if len_field raw < 236 then Inl StructError
      else if truncated raw then Inl (ValueError ''truncated code region'')
      else Inr (container_view path raw))"
  by (rule parse_blob_closed)

text \<open>The exit status of the trailer check is 0 exactly when every blob's stored trailer is the
  CRC of the blob, and the brute force reports a (variant, range) pair as consistent exactly when
  that variant over that range gives every blob's trailer.\<close>

lemma crc_commands_sound:
  assumes "qs \<noteq> []"
  shows "(crc_status qs = 0 \<longleftrightarrow> (\<forall>q \<in> set qs. parse_tcrc (q_blob q) = q_trailer q)) \<and>
    ((v, r) \<in> set (consistent (brute_hits qs)) \<longleftrightarrow>
      r < 7 \<and> (\<forall>q \<in> set qs. crc_variant_of v (ranges q ! r) = q_trailer q))"
proof
  show "crc_status qs = 0 \<longleftrightarrow> (\<forall>q \<in> set qs. parse_tcrc (q_blob q) = q_trailer q)"
    by (auto simp: crc_status_def crc_status_fold crc_lines_cached)
qed (rule brute_consistent_iff [OF assms])

definition sample_qef :: qef where
  "sample_qef =
     \<lparr> q_path = ''a'', q_length = 8, q_id = [], q_layout = 1, q_split = 0, q_sections = 1, q_soc = 0,
       q_iram = 0, q_wcount = 0, q_code_off = 0, q_version = [], q_trailer = 0x4728A46B, q_code = [],
       q_words = [], q_blob = [0x51, 1, 2, 4, 0x47, 0x28, 0xA4, 0x6B] \<rparr>"

lemma crc_commands_sound_witness: "crc_status [sample_qef] = 0"
proof -
  have "fold (rserial poly_reflected) [0x51, 1, 2, 4] 0 = 0x4728A46B" by code_simp
  then have "parse_tcrc (q_blob sample_qef) = q_trailer sample_qef"
    by (simp add: sample_qef_def trailer_crc_serial body_def)
  then show ?thesis using crc_commands_sound [of "[sample_qef]"] by simp
qed

end
