(* ===== verification/QefPatch.thy ===== *)
theory QefPatch
  imports QefParse PyText
begin

text \<open>
  \<^verbatim>\<open>decomp/tools/qef-patch.py\<close>: finding a container in a device tree blob, the edits of
  code words, header bytes and the id field, and the recomputed trailer.  The command line
  options are a record; a run returns the bytes it writes, or the exception or exit message.
\<close>

definition qef_magic :: "byte list" where "qef_magic = [0x51, 0x45, 0x46, 0x01]"

text \<open>The body of the loop of \<^verbatim>\<open>find_qef\<close> for a magic found at \<open>start + 4\<close>.\<close>

definition qef_at :: "byte list \<Rightarrow> nat \<Rightarrow> (nat \<times> nat) option" where
  "qef_at buf start =
     (case unpack_be32 (slice start (start + 4) buf) of
        Inr lenw \<Rightarrow>
          (let len = unat lenw in
           if 0x100 < len \<and> len \<le> length buf - start \<and> verifies patch_trailer_crc (slice start (start + len) buf)
           then Some (start, len) else None)
      | Inl _ \<Rightarrow> None)"

lemma find_from_measure:
  "find_from qef_magic pos buf = Some i \<Longrightarrow> Suc (length buf) - Suc i < Suc (length buf) - pos"
  using find_from_Some(1,2) [of qef_magic pos buf i] by (auto simp: occurs_at_def qef_magic_def)

function find_qef_from :: "nat \<Rightarrow> byte list \<Rightarrow> (nat \<times> nat) option" where
  "find_qef_from pos buf =
     (case find_from qef_magic pos buf of
        None \<Rightarrow> None
      | Some i \<Rightarrow>
          (case (if 4 \<le> i then qef_at buf (i - 4) else None) of
             Some loc \<Rightarrow> Some loc
           | None \<Rightarrow> find_qef_from (i + 1) buf))"
  by auto
termination
  by (relation "measure (\<lambda>(pos, buf). Suc (length buf) - pos)") (auto dest: find_from_measure)

declare find_qef_from.simps [simp del]

definition find_qef :: "byte list \<Rightarrow> (nat \<times> nat) option" where
  "find_qef buf = find_qef_from 0 buf"

text \<open>Length, code offset and word count.\<close>

definition parse_qef :: "byte list \<Rightarrow> (nat \<times> nat \<times> nat) res" where
  "parse_qef blob =
     bindE (unpack_be32 (slice 0 4 blob)) (\<lambda>len.
     bindE (unpack_words 2 (slice 104 112 (slice 124 244 blob))) (\<lambda>ws.
       Inr (unat len, unat (ws ! 1), unat (ws ! 0))))"

section \<open>The edits\<close>

definition split_eq :: "string \<Rightarrow> (string \<times> string) res" where
  "split_eq spec = (case split1 CHR ''='' spec of [a, b] \<Rightarrow> Inr (a, b)
                    | _ \<Rightarrow> Inl (ValueError ''not enough values to unpack''))"

definition spec_ints :: "string \<Rightarrow> (int \<times> int) res" where
  "spec_ints spec =
     bindE (split_eq spec) (\<lambda>(a, b). bindE (py_int 0 a) (\<lambda>n. bindE (py_int 0 b) (\<lambda>v. Inr (n, v))))"

definition poke_word :: "nat \<Rightarrow> nat \<Rightarrow> int \<Rightarrow> int \<Rightarrow> byte list \<Rightarrow> byte list res" where
  "poke_word code_off wcount n v blob =
     (if \<not> (0 \<le> n \<and> n < int wcount) then Inl (SysExit ''word index out of range'')
      else let off = code_off + nat n * 4 in
        bindE (unpack_be32 (slice off (off + 4) blob)) (\<lambda>old.
          Inr (slice_assign off (off + 4) (pack_be32 (word_of_int v)) blob)))"

definition set_word :: "nat \<Rightarrow> nat \<Rightarrow> string \<Rightarrow> byte list \<Rightarrow> byte list res" where
  "set_word code_off wcount spec blob =
     bindE (spec_ints spec) (\<lambda>(n, v). poke_word code_off wcount n v blob)"

definition poke_byte :: "nat \<Rightarrow> int \<Rightarrow> int \<Rightarrow> byte list \<Rightarrow> byte list res" where
  "poke_byte code_off off v blob =
     (if \<not> (0 \<le> off \<and> off < int code_off) then Inl (SysExit ''header offset out of range'')
      else bindE (py_nth blob off) (\<lambda>old.
        if 0 \<le> v \<and> v < 256 then Inr (blob[nat off := word_of_int v])
        else Inl (ValueError ''byte must be in range(0, 256)'')))"

definition set_header_byte :: "nat \<Rightarrow> string \<Rightarrow> byte list \<Rightarrow> byte list res" where
  "set_header_byte code_off spec blob =
     bindE (spec_ints spec) (\<lambda>(off, v). poke_byte code_off off v blob)"

definition set_id :: "byte list option \<Rightarrow> byte list \<Rightarrow> byte list" where
  "set_id ident blob =
     (case ident of None \<Rightarrow> blob
      | Some bs \<Rightarrow> (let s = take 61 bs in slice_assign 8 70 (s @ replicate (62 - length s) 0) blob))"

record patch_args =
  opt_fdt :: bool
  opt_words :: "string list"
  opt_bytes :: "string list"
  opt_id :: "byte list option"

definition patch_blob :: "patch_args \<Rightarrow> byte list \<Rightarrow> byte list res" where
  "patch_blob args blob =
     bindE (parse_qef blob) (\<lambda>(len, code_off, wcount).
     bindE (foldE (set_word code_off wcount) (opt_words args) blob) (\<lambda>b1.
     bindE (foldE (set_header_byte code_off) (opt_bytes args) b1) (\<lambda>b2.
       if opt_words args = [] \<and> opt_bytes args = [] \<and> opt_id args = None
       then Inl (SysExit ''no patches specified'')
       else Inr (seal patch_trailer_crc (set_id (opt_id args) b2)))))"

definition patch_main :: "patch_args \<Rightarrow> byte list \<Rightarrow> byte list res" where
  "patch_main args buf =
     (if opt_fdt args then
        (case find_qef buf of
           None \<Rightarrow> Inl (SysExit ''no CRC-valid QEF blob found in DTB'')
         | Some (start, len) \<Rightarrow>
             bindE (patch_blob args (slice start (start + len) buf)) (\<lambda>blob.
               let out = slice_assign start (start + len) blob buf in
               if find_qef out \<noteq> Some (start, len)
               then Inl (SysExit ''post-patch DTB re-verify failed'') else Inr out))
      else
        bindE (parse_qef buf) (\<lambda>_.
          if slice 4 7 buf \<noteq> [0x51, 0x45, 0x46] \<or> buf ! 7 \<noteq> 1 then Inl (SysExit ''not a QEF v1 blob'')
          else bindE (unpack_be32 (drop (length buf - 4) buf)) (\<lambda>stored.
            if stored \<noteq> patch_trailer_crc buf then Inl (SysExit ''pre-patch trailer CRC mismatch'')
            else patch_blob args buf)))"

section \<open>Finding a container\<close>

definition qef_valid :: "byte list \<Rightarrow> nat \<Rightarrow> bool" where
  "qef_valid buf s =
     (occurs_at qef_magic buf (s + 4) \<and> 0x100 < unat (word_at s buf) \<and> s + unat (word_at s buf) \<le> length buf \<and>
      verifies patch_trailer_crc (slice s (s + unat (word_at s buf)) buf))"

lemma qef_at_valid:
  "occurs_at qef_magic buf (s + 4) \<Longrightarrow>
   qef_at buf s = (if qef_valid buf s then Some (s, unat (word_at s buf)) else None)"
proof -
  assume o: "occurs_at qef_magic buf (s + 4)"
  then have "s + 4 \<le> length buf" by (simp add: occurs_at_def)
  with o show ?thesis by (auto simp: qef_at_def unpack_word_at qef_valid_def Let_def)
qed

lemma find_qef_from_first:
  "find_qef_from pos buf = Some (s, l) \<longleftrightarrow>
     pos \<le> s + 4 \<and> qef_valid buf s \<and> l = unat (word_at s buf) \<and> (\<forall>s'. pos \<le> s' + 4 \<and> s' < s \<longrightarrow> \<not> qef_valid buf s')"
proof (induction pos buf rule: find_qef_from.induct)
  case (1 pos buf)
  note [simp] = find_qef_from.simps [of pos buf]
  show ?case
  proof (cases "find_from qef_magic pos buf")
    case None
    then have "\<not> qef_valid buf s" if "pos \<le> s + 4" for s
      using that by (auto simp: find_from_None qef_valid_def)
    then show ?thesis using None by auto
  next
    case (Some i)
    note F = find_from_Some [OF Some]
    have skip: "\<not> qef_valid buf t" if "pos \<le> t + 4" "t + 4 < i" for t
      using F(3) [OF that] by (simp add: qef_valid_def)
    show ?thesis
    proof (cases "4 \<le> i \<and> qef_valid buf (i - 4)")
      case True
      then have "qef_at buf (i - 4) = Some (i - 4, unat (word_at (i - 4) buf))"
        using F(2) qef_at_valid [of buf "i - 4"] by simp
      moreover have "s = i - 4" if "pos \<le> s + 4" "qef_valid buf s" "\<forall>s'. pos \<le> s' + 4 \<and> s' < s \<longrightarrow> \<not> qef_valid buf s'"
      proof -
        have "i \<le> s + 4" using skip [of s] that(1,2) by (meson not_le)
        moreover have "\<not> i - 4 < s" using that(3) True F(1) by auto
        ultimately show ?thesis by linarith
      qed
      ultimately show ?thesis using Some True F(1) skip
        by (auto simp: less_diff_conv)
    next
      case False
      then have n: "(if 4 \<le> i then qef_at buf (i - 4) else None) = None"
        using F(2) qef_at_valid [of buf "i - 4"] by auto
      have bad: "\<not> qef_valid buf t" if "pos \<le> t + 4" "t + 4 < Suc i" for t
        using skip [of t] that False by (cases "t + 4 = i") auto
      have "find_qef_from pos buf = find_qef_from (Suc i) buf" using Some n by simp
      moreover have "pos \<le> t + 4 \<longleftrightarrow> Suc i \<le> t + 4" if "qef_valid buf t" for t
        using bad [of t] that F(1) by linarith
      ultimately show ?thesis using "1.IH" [OF Some n] by (simp only: Suc_eq_plus1) blast
    qed
  qed
qed

lemma find_qef_first:
  "find_qef buf = Some (s, l) \<longleftrightarrow>
     qef_valid buf s \<and> l = unat (word_at s buf) \<and> (\<forall>s' < s. \<not> qef_valid buf s')"
  by (simp add: find_qef_def find_qef_from_first)

lemma find_qef_None: "find_qef buf = None \<longleftrightarrow> (\<forall>s. \<not> qef_valid buf s)"
proof
  assume n: "find_qef buf = None"
  show "\<forall>s. \<not> qef_valid buf s"
  proof (rule ccontr)
    assume "\<not> (\<forall>s. \<not> qef_valid buf s)"
    then have "qef_valid buf (LEAST s. qef_valid buf s)" by (auto intro: LeastI)
    moreover have "\<forall>s' < (LEAST s. qef_valid buf s). \<not> qef_valid buf s'" using not_less_Least by blast
    ultimately have "find_qef buf \<noteq> None"
      using find_qef_first by (metis option.distinct(1))
    with n show False by simp
  qed
next
  assume a: "\<forall>s. \<not> qef_valid buf s"
  show "find_qef buf = None"
  proof (cases "find_qef buf")
    case (Some loc)
    then show ?thesis using a find_qef_first [of buf "fst loc" "snd loc"] by simp
  qed
qed

section \<open>The code region as a word array\<close>

definition code_words :: "nat \<Rightarrow> nat \<Rightarrow> byte list \<Rightarrow> u32 list" where
  "code_words co wc b = map (\<lambda>i. word_at (co + 4 * i) b) [0..<wc]"

definition update_words :: "(int \<times> int) list \<Rightarrow> u32 list \<Rightarrow> u32 list" where
  "update_words edits ws = fold (\<lambda>(n, v) ws. ws[nat n := word_of_int v]) edits ws"

text \<open>Two containers that differ at most inside the code region.\<close>

definition same_outside :: "nat \<Rightarrow> nat \<Rightarrow> byte list \<Rightarrow> byte list \<Rightarrow> bool" where
  "same_outside co wc a b =
     (length a = length b \<and> take co a = take co b \<and> drop (co + 4 * wc) a = drop (co + 4 * wc) b)"

lemma same_outside_trans:
  "same_outside co wc a b \<Longrightarrow> same_outside co wc b c \<Longrightarrow> same_outside co wc a c"
  by (simp add: same_outside_def)

lemma poke_word_total:
  assumes "0 \<le> n" "n < int wc" "co + 4 * wc \<le> length b"
  shows "poke_word co wc n v b
    = Inr (slice_assign (co + 4 * nat n) (co + 4 * nat n + 4) (pack_be32 (word_of_int v)) b)"
proof -
  have "co + 4 * nat n + 4 \<le> length b" using assms by linarith
  then show ?thesis using assms by (simp add: poke_word_def Let_def unpack_word_at mult.commute)
qed

lemma poke_word_view:
  assumes "poke_word co wc n v b = Inr b'" "co + 4 * wc \<le> length b"
  shows "same_outside co wc b' b \<and> code_words co wc b' = (code_words co wc b)[nat n := word_of_int v]"
proof -
  from assms(1) have n: "0 \<le> n" "n < int wc" by (auto simp: poke_word_def split: if_splits)
  let ?off = "co + 4 * nat n"
  have b': "b' = slice_assign ?off (?off + 4) (pack_be32 (word_of_int v)) b"
    using assms poke_word_total [OF n assms(2)] by simp
  have off: "?off + 4 \<le> co + 4 * wc" using n by linarith
  have "same_outside co wc b' b"
    using off assms(2) by (simp add: same_outside_def b' length_slice_assign take_slice_assign drop_slice_assign)
  moreover have "code_words co wc b' ! i = (code_words co wc b)[nat n := word_of_int v] ! i" if "i < wc" for i
  proof (cases "i = nat n")
    case True
    then show ?thesis using that off assms(2) by (simp add: code_words_def b' word_at_put_same)
  next
    case False
    then have "co + 4 * i + 4 \<le> ?off \<or> ?off + 4 \<le> co + 4 * i" by linarith
    then show ?thesis using that off assms(2) False
      by (simp add: code_words_def b' word_at_put_disjoint)
  qed
  ultimately show ?thesis by (simp add: list_eq_iff_nth_eq code_words_def)
qed

definition edits_of :: "nat \<Rightarrow> string list \<Rightarrow> (int \<times> int) list \<Rightarrow> bool" where
  "edits_of wc specs edits =
     list_all2 (\<lambda>s (n, v). spec_ints s = Inr (n, v) \<and> 0 \<le> n \<and> n < int wc) specs edits"

lemma set_words_refine:
  assumes "edits_of wc specs edits" "co + 4 * wc \<le> length b"
  shows "\<exists>b'. foldE (set_word co wc) specs b = Inr b' \<and> same_outside co wc b' b \<and>
    code_words co wc b' = update_words edits (code_words co wc b)"
  using assms unfolding edits_of_def
proof (induction specs edits arbitrary: b rule: list_all2_induct)
  case Nil
  then show ?case by (simp add: same_outside_def update_words_def)
next
  case (Cons s ss e es)
  obtain n v where e: "e = (n, v)" by (cases e)
  from Cons.hyps(1) have sp: "spec_ints s = Inr (n, v)" and n: "0 \<le> n" "n < int wc" by (simp_all add: e)
  from poke_word_total [OF n Cons.prems] obtain b1 where b1: "poke_word co wc n v b = Inr b1" by blast
  note V = poke_word_view [OF b1 Cons.prems]
  then have "co + 4 * wc \<le> length b1" using Cons.prems by (simp add: same_outside_def)
  from Cons.IH [OF this] obtain b' where
    "foldE (set_word co wc) ss b1 = Inr b'" "same_outside co wc b' b1"
    "code_words co wc b' = update_words es (code_words co wc b1)" by blast
  then show ?case
    using V by (auto simp: set_word_def [of co wc s] sp b1 e update_words_def intro: same_outside_trans)
qed

section \<open>The patched container\<close>

lemma word_at_seal:
  "off + 8 \<le> length b \<Longrightarrow> word_at off (seal patch_trailer_crc b) = word_at off b"
  by (metis (no_types, lifting) Nat.le_diff_conv2 add.assoc add_leD2 body_def numeral_Bit0
      patch_tc.body_seal patch_tc.length_seal word_at_take)

lemma code_words_seal:
  "co + 4 * wc + 4 \<le> length b \<Longrightarrow>
   code_words co wc (seal patch_trailer_crc b) = code_words co wc b"
  by (auto simp: code_words_def intro!: word_at_seal)

lemma take_seal: "k + 4 \<le> length b \<Longrightarrow> take k (seal patch_trailer_crc b) = take k b"
  by (simp add: patch_tc.seal_eq body_def)

lemma word_at_agree: "take n a = take n b \<Longrightarrow> off + 4 \<le> n \<Longrightarrow> word_at off a = word_at off b"
  by (metis word_at_take)

lemma slice_agree: "take n a = take n b \<Longrightarrow> j \<le> n \<Longrightarrow> slice i j a = slice i j b"
  by (metis slice_take)

lemma nth_agree: "take n a = take n b \<Longrightarrow> k < n \<Longrightarrow> a ! k = b ! k"
  by (metis nth_take)

lemma parse_qef_view:
  "236 \<le> length b \<Longrightarrow> parse_qef b = Inr (len_field b, code_field b, count_field b)"
proof -
  assume len: "236 \<le> length b"
  have "slice 104 112 (slice 124 244 b) = slice 228 (228 + 4 * 2) b" by (simp add: slice_slice)
  moreover have "unpack_words 2 (slice 228 (228 + 4 * 2) b) = Inr [word_at 228 b, word_at 232 b]"
    using len unpack_words_at [of 228 2 b] by (simp add: numeral_2_eq_2)
  ultimately show ?thesis
    using len unpack_word_at [of 0 b] by (simp add: parse_qef_def)
qed

lemma container_view_update:
  assumes "take 244 out = take 244 raw" "length out = length raw" "244 \<le> length raw"
    and "len_field raw = length raw" "\<not> truncated raw" "ws = code_words (code_field raw) (count_field raw) out"
    and "verifies patch_trailer_crc out" "code_field raw + 4 * count_field raw \<le> length raw"
  shows "container_view path out =
    (container_view path raw)\<lparr> q_words := ws, q_code := concat (map pack_be32 ws),
       q_trailer := patch_trailer_crc out, q_blob := out \<rparr>"
proof -
  note W = word_at_agree [OF assms(1)] and S = slice_agree [OF assms(1)] and N = nth_agree [OF assms(1)]
  have "drop (length out - 4) out = slice (length raw - 4) (length raw - 4 + 4) out"
    using assms by (simp add: slice_def)
  then have t: "word_at (length raw - 4) out = patch_trailer_crc out"
    using assms(2,3,7) unpack_word_at [of "length raw - 4" out] by (simp add: verifies_def)
  have c: "concat (map pack_be32 ws) = slice (code_field raw) (code_field raw + count_field raw * 4) out"
    using unpack_words_at [of "code_field raw" "count_field raw" out] assms(2,6,8)
    by (simp add: unpack_words_iff code_words_def mult.commute)
  have v: "slice 236 239 (take n out) = slice 236 239 (take n raw)" for n
  proof (rule slice_agree)
    show "take 244 (take n out) = take 244 (take n raw)" using assms(1) by (metis take_take min.commute)
  qed simp
  show ?thesis
    using assms(2,4) c
    by (simp add: container_view_def Let_def W S N t v assms(6) code_words_def)
qed

lemma patch_words_core:
  assumes "parse_blob path raw = Inr q" "q_length q = length raw" "verifies patch_trailer_crc raw"
    and "244 \<le> q_code_off q" "q_code_off q + 4 * q_wcount q + 4 \<le> length raw"
    and "edits_of (q_wcount q) specs edits" "specs \<noteq> []"
  shows "\<exists>out. patch_main \<lparr> opt_fdt = False, opt_words = specs, opt_bytes = [], opt_id = None \<rparr> raw = Inr out \<and>
    parse_blob path out = Inr (q \<lparr> q_words := update_words edits (q_words q),
      q_code := concat (map pack_be32 (update_words edits (q_words q))),
      q_trailer := patch_trailer_crc out, q_blob := out \<rparr>) \<and>
    verifies patch_trailer_crc out \<and> same_outside (q_code_off q) (q_wcount q) (body out) (body raw)"
proof -
  let ?args = "\<lparr> opt_fdt = False, opt_words = specs, opt_bytes = [], opt_id = None \<rparr>"
  from assms(1) have P: "248 \<le> length raw" "magic_ok raw" "\<not> truncated raw" "q = container_view path raw"
    "len_field raw \<le> length raw" by (auto simp: parse_blob_eq_Inr)
  define co where "co = q_code_off q"
  define wc where "wc = q_wcount q"
  have F: "len_field raw = length raw" "code_field raw = co" "count_field raw = wc"
    using assms(2) by (auto simp: co_def wc_def P(4) container_view_def Let_def)
  have words: "q_words q = code_words co wc raw"
    using F by (simp add: P(4) container_view_def Let_def code_words_def)
  have fit: "244 \<le> co" "co + 4 * wc + 4 \<le> length raw" using assms(4,5) by (simp_all add: co_def wc_def)
  from set_words_refine [of wc specs edits co raw] assms(6) fit obtain b where
    b: "foldE (set_word co wc) specs raw = Inr b" "same_outside co wc b raw"
       "code_words co wc b = update_words edits (code_words co wc raw)" by (auto simp: wc_def)
  define out where "out = seal patch_trailer_crc b"
  have lb: "length b = length raw" using b(2) by (simp add: same_outside_def)
  have "unpack_be32 (drop (length raw - 4) raw) = Inr (patch_trailer_crc raw)"
    using assms(3) by (simp add: verifies_def)
  then have main: "patch_main ?args raw = Inr out"
    using P magic_ok_iff [of raw] b(1) assms(7)
    by (simp add: patch_main_def patch_blob_def parse_qef_view F set_id_def out_def)
  have lout: "length out = length raw" using P(1) lb by (simp add: out_def patch_tc.length_seal)
  have ver: "verifies patch_trailer_crc out" by (simp add: out_def patch_tc.verifies_seal)
  have cw: "code_words co wc out = update_words edits (q_words q)"
    using fit lb b(3) by (simp add: out_def code_words_seal words)
  have "take 244 b = take 244 raw"
    using b(2) fit(1) unfolding same_outside_def by (metis min.absorb1 take_take)
  then have hd: "take 244 out = take 244 raw" using P(1) lb by (simp add: out_def take_seal)
  have "parse_blob path out = Inr (container_view path out)"
    using P F fit word_at_agree [OF hd, of 0] word_at_agree [OF hd, of 228] word_at_agree [OF hd, of 232]
      slice_agree [OF hd, of 8 4]
    by (auto simp: parse_blob_eq_Inr lout magic_ok_def truncated_def)
  also have "container_view path out = q \<lparr> q_words := update_words edits (q_words q),
      q_code := concat (map pack_be32 (update_words edits (q_words q))),
      q_trailer := patch_trailer_crc out, q_blob := out \<rparr>"
    unfolding P(4)
    using container_view_update [OF hd lout _ F(1) P(3) refl ver, of path] P(1,4) F fit cw by simp
  finally have "parse_blob path out = Inr (q \<lparr> q_words := update_words edits (q_words q),
      q_code := concat (map pack_be32 (update_words edits (q_words q))),
      q_trailer := patch_trailer_crc out, q_blob := out \<rparr>)" .
  moreover have "same_outside co wc (body out) (body raw)"
    using b(2) lb fit unfolding out_def patch_tc.body_seal
    by (simp add: same_outside_def body_def drop_take min_def)
  ultimately show ?thesis using main ver unfolding co_def wc_def by blast
qed

section \<open>Every run\<close>

lemma poke_word_length: "poke_word co wc n v b = Inr b' \<Longrightarrow> length b' = length b"
proof -
  assume a: "poke_word co wc n v b = Inr b'"
  then obtain w where "unpack_be32 (slice (co + nat n * 4) (co + nat n * 4 + 4) b) = Inr w"
    and b': "b' = slice_assign (co + nat n * 4) (co + nat n * 4 + 4) (pack_be32 (word_of_int v)) b"
    by (auto simp: poke_word_def Let_def bindE_eq_Inr split: if_splits)
  then have "length (slice (co + nat n * 4) (co + nat n * 4 + 4) b) = 4"
    using unpack_be32_length by blast
  then show ?thesis by (simp add: b' length_slice_assign length_slice)
qed

lemma poke_byte_length: "poke_byte co off v b = Inr b' \<Longrightarrow> length b' = length b"
  by (auto simp: poke_byte_def bindE_eq_Inr split: if_splits)

lemma set_id_length: "70 \<le> length b \<Longrightarrow> length (set_id i b) = length b"
  by (auto simp: set_id_def Let_def length_slice_assign split: option.splits)

lemma parse_qef_Inr: "parse_qef b = Inr r \<Longrightarrow> 236 \<le> length b"
proof (rule ccontr)
  assume a: "parse_qef b = Inr r" and "\<not> 236 \<le> length b"
  then have "unpack_words 2 (slice 104 112 (slice 124 244 b)) = Inl StructError"
    by (intro unpack_words_Inl) (auto simp: length_slice)
  with a show False by (auto simp: parse_qef_def bindE_eq_Inr)
qed

lemma patch_blob_seals:
  assumes "patch_blob args b = Inr out"
  shows "236 \<le> length b \<and> length out = length b \<and> verifies patch_trailer_crc out"
proof -
  from assms obtain len co wc b1 b2 where q: "parse_qef b = Inr (len, co, wc)"
    and b1: "foldE (set_word co wc) (opt_words args) b = Inr b1"
    and b2: "foldE (set_header_byte co) (opt_bytes args) b1 = Inr b2"
    and out: "out = seal patch_trailer_crc (set_id (opt_id args) b2)"
    by (auto simp: patch_blob_def bindE_eq_Inr split: if_splits)
  have len: "236 \<le> length b" using parse_qef_Inr [OF q] .
  have "length b1 = length b"
    by (rule foldE_invariant [OF b1, where P = "\<lambda>x. length x = length b"])
       (auto simp: set_word_def bindE_eq_Inr dest: poke_word_length)
  moreover have "length b2 = length b1"
    by (rule foldE_invariant [OF b2, where P = "\<lambda>x. length x = length b1"])
       (auto simp: set_header_byte_def bindE_eq_Inr dest: poke_byte_length)
  ultimately show ?thesis
    using len by (simp add: out patch_tc.length_seal patch_tc.verifies_seal set_id_length)
qed

lemma patch_main_runs:
  assumes "patch_main args buf = Inr out"
  shows "length out = length buf \<and>
    (if opt_fdt args
     then \<exists>s l. find_qef buf = Some (s, l) \<and> find_qef out = Some (s, l) \<and>
            take s out = take s buf \<and> drop (s + l) out = drop (s + l) buf
     else verifies patch_trailer_crc buf \<and> verifies patch_trailer_crc out)"
proof (cases "opt_fdt args")
  case False
  then show ?thesis
    using assms patch_blob_seals [of args buf out]
    by (auto simp: patch_main_def bindE_eq_Inr verifies_def split: if_splits)
next
  case True
  then obtain s l blob where f: "find_qef buf = Some (s, l)"
    and p: "patch_blob args (slice s (s + l) buf) = Inr blob"
    and out: "out = slice_assign s (s + l) blob buf" and g: "find_qef out = Some (s, l)"
    using assms by (auto simp: patch_main_def bindE_eq_Inr Let_def split: option.splits if_splits)
  from f have "s + l \<le> length buf" by (auto simp: find_qef_first qef_valid_def)
  moreover from this have "length blob = l"
    using patch_blob_seals [OF p] by (simp add: length_slice)
  ultimately show ?thesis
    using True f g by (simp add: out length_slice_assign take_slice_assign drop_slice_assign)
qed

section \<open>A sample container\<close>

definition sample_base :: "byte list" where
  "sample_base =
     pack_be32 260 @ qef_magic @ replicate 216 0 @ pack_be32 0 @ pack_be32 2 @ pack_be32 248 @
     replicate 12 0 @ [1, 2, 3, 4, 5, 6, 7, 8, 0, 0, 0, 0]"

definition sample_file :: "byte list" where "sample_file = seal patch_trailer_crc sample_base"

lemma sample_facts:
  "length sample_base = 260" "word_at 0 sample_base = 260" "word_at 228 sample_base = 2"
  "word_at 232 sample_base = 248" "slice 4 8 sample_base = qef_magic"
  "code_words 248 2 sample_base = [0x01020304, 0x05060708]"
  by code_simp+

lemma sample_length: "length sample_file = 260"
  by (simp add: sample_file_def patch_tc.length_seal sample_facts)

lemma sample_head: "take 256 sample_file = take 256 sample_base"
  by (simp add: sample_file_def take_seal sample_facts)

lemma sample_words:
  "word_at 0 sample_file = 260" "word_at 228 sample_file = 2" "word_at 232 sample_file = 248"
  "code_words 248 2 sample_file = [0x01020304, 0x05060708]"
  by (simp_all add: sample_file_def word_at_seal code_words_seal sample_facts)

lemma sample_parses: "parse_blob ''a'' sample_file = Inr (container_view ''a'' sample_file)"
  using slice_agree [OF sample_head, of 8 4]
  by (simp add: parse_blob_eq_Inr sample_length sample_words truncated_def magic_ok_def sample_facts qef_magic_def)

lemma sample_verifies: "verifies patch_trailer_crc sample_file"
  by (simp add: sample_file_def patch_tc.verifies_seal)

section \<open>Properties\<close>

text \<open>C7. Patching words and reading back.  For a container that the reader accepts, whose length
  field is the file's length, whose trailer verifies and whose code lies between the descriptor
  and the trailer, a run that sets in-range words succeeds; the reader accepts the result and
  returns the same container with exactly those words replaced (the last edit of a word wins);
  the new trailer verifies; and no byte outside the code region and the trailer changes.\<close>

theorem patched_words_parse:
  assumes "parse_blob path raw = Inr q" "q_length q = length raw" "verifies patch_trailer_crc raw"
    and "244 \<le> q_code_off q" "q_code_off q + 4 * q_wcount q + 4 \<le> length raw"
    and "edits_of (q_wcount q) specs edits" "specs \<noteq> []"
  shows "\<exists>out. patch_main \<lparr> opt_fdt = False, opt_words = specs, opt_bytes = [], opt_id = None \<rparr> raw = Inr out \<and>
    parse_blob path out = Inr (q \<lparr> q_words := update_words edits (q_words q),
      q_code := concat (map pack_be32 (update_words edits (q_words q))),
      q_trailer := patch_trailer_crc out, q_blob := out \<rparr>) \<and>
    verifies patch_trailer_crc out \<and> same_outside (q_code_off q) (q_wcount q) (body out) (body raw)"
  using patch_words_core [OF assms] .

lemma patched_words_parse_witness:
  "\<exists>out. patch_main \<lparr> opt_fdt = False, opt_words = [''1=0xdead''], opt_bytes = [], opt_id = None \<rparr> sample_file = Inr out \<and>
     map_sum id q_words (parse_blob ''a'' out) = Inr [0x01020304, 0xDEAD]"
proof -
  have e: "edits_of 2 [''1=0xdead''] [(1, 0xDEAD)]"
    by (simp add: edits_of_def spec_ints_def split_eq_def text_eval)
  show ?thesis
    using patched_words_parse [OF sample_parses _ sample_verifies, of "[''1=0xdead'']" "[(1, 0xDEAD)]"] e
    by (auto simp: container_view_def Let_def sample_length sample_words update_words_def
        sample_words(4) [unfolded code_words_def])
qed

text \<open>C9. \<^verbatim>\<open>find_qef\<close> terminates on every buffer and returns the first offset at which a
  container of more than 256 bytes lies inside the buffer with the magic at its offset 4 and a
  trailer that verifies, together with its length; and \<open>None\<close> exactly when there is no such
  offset.\<close>

theorem find_qef_least:
  "(find_qef buf = Some (s, l) \<longleftrightarrow>
     qef_valid buf s \<and> l = unat (word_at s buf) \<and> (\<forall>s' < s. \<not> qef_valid buf s')) \<and>
   (find_qef buf = None \<longleftrightarrow> (\<forall>s. \<not> qef_valid buf s))"
  using find_qef_first find_qef_None by blast

lemma find_qef_least_witness: "find_qef sample_file = Some (0, 260)"
proof -
  have "slice 4 8 sample_file = qef_magic"
    using slice_agree [OF sample_head, of 8 4] by (simp add: sample_facts)
  then have "occurs_at qef_magic sample_file 4"
    by (simp add: occurs_at_def sample_length) (simp add: qef_magic_def)
  moreover have "slice 0 260 sample_file = sample_file" by (simp add: slice_def sample_length)
  ultimately have "qef_valid sample_file 0"
    using sample_verifies by (simp add: qef_valid_def sample_length sample_words)
  then show ?thesis using find_qef_least [of sample_file 0 260] by (simp add: sample_words)
qed

text \<open>C29. Whatever the options, a run that writes a file writes one of the input's size.  Without
  \<^verbatim>\<open>--fdt\<close> it only starts from a file whose trailer verifies and its output's trailer
  verifies; with it, only the bytes of the container found change, and the search finds the same
  container in the output.\<close>

theorem patch_run_safe:
  assumes "patch_main args buf = Inr out"
  shows "length out = length buf \<and>
    (if opt_fdt args
     then \<exists>s l. find_qef buf = Some (s, l) \<and> find_qef out = Some (s, l) \<and>
            take s out = take s buf \<and> drop (s + l) out = drop (s + l) buf
     else verifies patch_trailer_crc buf \<and> verifies patch_trailer_crc out)"
  using patch_main_runs [OF assms] .

lemma patch_run_safe_witness:
  "\<exists>out. patch_main \<lparr> opt_fdt = False, opt_words = [''0=7''], opt_bytes = [], opt_id = None \<rparr> sample_file = Inr out
     \<and> length out = 260 \<and> verifies patch_trailer_crc out"
proof -
  have e: "edits_of 2 [''0=7''] [(0, 7)]"
    by (simp add: edits_of_def spec_ints_def split_eq_def text_eval)
  obtain out where "patch_main \<lparr> opt_fdt = False, opt_words = [''0=7''], opt_bytes = [], opt_id = None \<rparr> sample_file = Inr out"
    using patch_words_core [OF sample_parses _ sample_verifies, of "[''0=7'']" "[(0, 7)]"] e
    by (auto simp: container_view_def Let_def sample_length sample_words)
  from this patch_run_safe [OF this] show ?thesis by (auto simp: sample_length)
qed

end
