(* ===== verification/Runs.thy ===== *)
theory Runs
  imports Prelude
begin

text \<open>
  Several tools of \<^verbatim>\<open>decomp/tools\<close> scan an array for runs of consecutive positions that
  satisfy a test, with a variable holding the start of the open run.  The interface
  \<open>run_loop\<close> states what one pass over a position does; its consequence is that the runs
  emitted so far are exactly the closed maximal runs that are long enough.
\<close>

definition all_hit :: "(nat \<Rightarrow> bool) \<Rightarrow> nat \<Rightarrow> nat \<Rightarrow> bool" where
  "all_hit hit s e = (\<forall>i. s \<le> i \<and> i < e \<longrightarrow> hit i)"

definition left_edge :: "(nat \<Rightarrow> bool) \<Rightarrow> nat \<Rightarrow> bool" where
  "left_edge hit s = (s = 0 \<or> \<not> hit (s - 1))"

text \<open>A maximal run \<open>s..e\<close> that ends before position \<open>k\<close>, and one of the first \<open>k\<close> positions.\<close>

definition closed_run :: "(nat \<Rightarrow> bool) \<Rightarrow> nat \<Rightarrow> nat \<Rightarrow> nat \<times> nat \<Rightarrow> bool" where
  "closed_run hit m k r =
     (fst r \<le> snd r \<and> snd r + 1 < k \<and> all_hit hit (fst r) (snd r + 1) \<and> \<not> hit (snd r + 1) \<and>
      left_edge hit (fst r) \<and> m \<le> snd r + 1 - fst r)"

definition maximal_run :: "(nat \<Rightarrow> bool) \<Rightarrow> nat \<Rightarrow> nat \<Rightarrow> nat \<times> nat \<Rightarrow> bool" where
  "maximal_run hit m k r =
     (fst r \<le> snd r \<and> snd r < k \<and> all_hit hit (fst r) (snd r + 1) \<and> (snd r + 1 = k \<or> \<not> hit (snd r + 1)) \<and>
      left_edge hit (fst r) \<and> m \<le> snd r + 1 - fst r)"

definition open_run :: "(nat \<Rightarrow> bool) \<Rightarrow> nat \<Rightarrow> nat \<Rightarrow> bool" where
  "open_run hit k s = (s < k \<and> all_hit hit s k \<and> left_edge hit s)"

lemma all_hit_Suc: "s \<le> k \<Longrightarrow> all_hit hit s (Suc k) \<longleftrightarrow> all_hit hit s k \<and> hit k"
  by (auto simp: all_hit_def less_Suc_eq)

lemma all_hit_nth: "all_hit hit s e \<Longrightarrow> s \<le> i \<Longrightarrow> i < e \<Longrightarrow> hit i"
  by (simp add: all_hit_def)

lemma open_run_unique: "open_run hit k s \<Longrightarrow> open_run hit k t \<Longrightarrow> s = t"
proof (induction s t rule: linorder_wlog)
  case (le s t)
  show ?case
  proof (rule ccontr)
    assume "s \<noteq> t"
    with le have "s \<le> t - 1" "t - 1 < k" "t \<noteq> 0" by (auto simp: open_run_def)
    with le show False by (auto simp: open_run_def left_edge_def dest: all_hit_nth)
  qed
qed simp

lemma open_run_exists: "hit k \<Longrightarrow> \<exists>t. open_run hit (Suc k) t"
proof (induction k)
  case 0
  then show ?case by (auto simp: open_run_def all_hit_def left_edge_def)
next
  case (Suc k)
  show ?case
  proof (cases "hit k")
    case True
    with Suc.IH obtain t where "open_run hit (Suc k) t" by blast
    with Suc.prems show ?thesis
      by (intro exI [of _ t]) (auto simp: open_run_def all_hit_Suc less_Suc_eq_le)
  next
    case False
    with Suc.prems show ?thesis
      by (intro exI [of _ "Suc k"]) (auto simp: open_run_def all_hit_def left_edge_def less_Suc_eq)
  qed
qed

lemma all_hit_cong: "(\<And>i. i < k \<Longrightarrow> h i = h' i) \<Longrightarrow> e \<le> k \<Longrightarrow> all_hit h s e = all_hit h' s e"
  by (auto simp: all_hit_def)

lemma left_edge_cong: "(\<And>i. i < k \<Longrightarrow> h i = h' i) \<Longrightarrow> s \<le> k \<Longrightarrow> left_edge h s = left_edge h' s"
  by (auto simp: left_edge_def)

lemma closed_run_cong:
  assumes "\<And>i. i < k \<Longrightarrow> h i = h' i"
  shows "closed_run h m k r \<longleftrightarrow> closed_run h' m k r"
proof (cases "fst r \<le> snd r \<and> snd r + 1 < k")
  case True
  then have "snd r + 1 \<le> k" "fst r \<le> k" "h (snd r + 1) = h' (snd r + 1)" using assms by auto
  then show ?thesis
    using all_hit_cong [OF assms, where e = "snd r + 1"] left_edge_cong [OF assms, where s = "fst r"]
    by (simp add: closed_run_def)
qed (auto simp: closed_run_def)

lemma maximal_run_cong:
  assumes "\<And>i. i < k \<Longrightarrow> h i = h' i"
  shows "maximal_run h m k r \<longleftrightarrow> maximal_run h' m k r"
proof (cases "fst r \<le> snd r \<and> snd r < k")
  case True
  then have "snd r + 1 \<le> k" "fst r \<le> k" "snd r + 1 \<noteq> k \<Longrightarrow> h (snd r + 1) = h' (snd r + 1)" using assms by auto
  then show ?thesis
    using all_hit_cong [OF assms, where e = "snd r + 1"] left_edge_cong [OF assms, where s = "fst r"]
    by (auto simp: maximal_run_def)
qed (auto simp: maximal_run_def)

text \<open>A sentinel after the last position closes the run that reaches it, or belongs to it.\<close>

lemma closed_run_sentinel_miss: "\<not> h n \<Longrightarrow> closed_run h m (Suc n) r \<longleftrightarrow> maximal_run h m n r"
  by (auto simp: closed_run_def maximal_run_def less_Suc_eq)

lemma closed_run_sentinel_hit: "h n \<Longrightarrow> closed_run h m (Suc n) r \<longleftrightarrow> closed_run h m n r"
  by (auto simp: closed_run_def less_Suc_eq)

type_synonym scan_state = "(nat \<times> nat) list \<times> nat option"

locale run_loop =
  fixes hit :: "nat \<Rightarrow> bool" and m n :: nat and scan :: "nat \<Rightarrow> scan_state"
  assumes scan_start: "scan 0 = ([], None)"
    and scan_hit: "k < n \<Longrightarrow> hit k \<Longrightarrow>
      scan (Suc k) = (fst (scan k), Some (case snd (scan k) of None \<Rightarrow> k | Some s \<Rightarrow> s))"
    and scan_miss: "k < n \<Longrightarrow> \<not> hit k \<Longrightarrow>
      scan (Suc k) = (fst (scan k) @ (case snd (scan k) of
                        Some s \<Rightarrow> if m \<le> k - s then [(s, k - 1)] else [] | None \<Rightarrow> []), None)"
    and min_pos: "0 < m"
begin

lemma scan_open: "k \<le> n \<Longrightarrow> snd (scan k) = Some s \<longleftrightarrow> open_run hit k s"
proof (induction k arbitrary: s)
  case 0
  then show ?case by (simp add: scan_start open_run_def)
next
  case (Suc k)
  then have k: "k < n" "k \<le> n" by simp_all
  note IH = Suc.IH [OF k(2)]
  show ?case
  proof (cases "hit k")
    case False
    then show ?thesis by (auto simp: scan_miss k open_run_def all_hit_def)
  next
    case True
    show ?thesis
    proof (cases "snd (scan k)")
      case None
      then have no: "\<not> open_run hit k t" for t using IH by (metis option.distinct(1))
      have "left_edge hit k"
      proof (rule ccontr)
        assume "\<not> left_edge hit k"
        then have h: "k \<noteq> 0" "hit (k - 1)" by (auto simp: left_edge_def)
        then obtain t where "open_run hit k t" using open_run_exists [of hit "k - 1"] by auto
        with no show False by simp
      qed
      then have "open_run hit (Suc k) k" using True by (auto simp: open_run_def all_hit_def less_Suc_eq)
      then show ?thesis using True None open_run_unique by (auto simp: scan_hit k)
    next
      case (Some t)
      then have "open_run hit k t" by (simp add: IH)
      then have "open_run hit (Suc k) t" using True by (auto simp: open_run_def all_hit_Suc)
      then show ?thesis using True Some open_run_unique by (auto simp: scan_hit k)
    qed
  qed
qed

lemma closed_run_Suc:
  "closed_run hit m (Suc k) r \<longleftrightarrow>
     closed_run hit m k r \<or> (\<not> hit k \<and> open_run hit k (fst r) \<and> snd r = k - 1 \<and> m \<le> k - fst r)"
proof (cases "snd r + 1 = k")
  case True
  then show ?thesis using min_pos by (auto simp: closed_run_def open_run_def)
next
  case False
  then have "snd r + 1 < Suc k \<longleftrightarrow> snd r + 1 < k" by auto
  moreover have "\<not> (snd r = k - 1 \<and> fst r < k)" using False by auto
  ultimately show ?thesis by (auto simp: closed_run_def open_run_def)
qed

lemma scan_runs: "k \<le> n \<Longrightarrow> set (fst (scan k)) = {r. closed_run hit m k r}"
proof (induction k)
  case 0
  then show ?case by (auto simp: scan_start closed_run_def)
next
  case (Suc k)
  then have k: "k < n" "k \<le> n" by simp_all
  note IH = Suc.IH [OF k(2)] and opn = scan_open [OF k(2)]
  show ?case
  proof (cases "hit k")
    case True
    then show ?thesis using IH by (auto simp: scan_hit k closed_run_Suc)
  next
    case False
    have "set (case snd (scan k) of Some s \<Rightarrow> if m \<le> k - s then [(s, k - 1)] else [] | None \<Rightarrow> [])
        = {r. open_run hit k (fst r) \<and> snd r = k - 1 \<and> m \<le> k - fst r}"
    proof (cases "snd (scan k)")
      case None
      then have "\<not> open_run hit k t" for t using opn by (metis option.distinct(1))
      then show ?thesis using None by simp
    next
      case (Some s)
      then have "open_run hit k t \<longleftrightarrow> t = s" for t using opn [of t] by auto
      then show ?thesis using Some by (auto simp: prod_eq_iff)
    qed
    then show ?thesis using False IH by (simp add: scan_miss k closed_run_Suc Collect_disj_eq)
  qed
qed

text \<open>The loops that also emit the run the array ends with.\<close>

lemma scan_with_tail:
  "set (fst (scan n)) \<union> set (case snd (scan n) of Some s \<Rightarrow> if m \<le> n - s then [(s, n - 1)] else [] | None \<Rightarrow> [])
     = {r. maximal_run hit m n r}"
proof -
  have mr: "maximal_run hit m n r \<longleftrightarrow>
      closed_run hit m n r \<or> (open_run hit n (fst r) \<and> snd r = n - 1 \<and> m \<le> n - fst r)" for r
    using min_pos by (cases "snd r + 1 = n") (auto simp: maximal_run_def closed_run_def open_run_def)
  show ?thesis
  proof (cases "snd (scan n)")
    case None
    then have "\<not> open_run hit n t" for t using scan_open [OF order_refl] by (metis option.distinct(1))
    then show ?thesis using None by (auto simp: scan_runs [OF order_refl] mr)
  next
    case (Some s)
    then have "open_run hit n t \<longleftrightarrow> t = s" for t using scan_open [OF order_refl, of t] by auto
    then show ?thesis using Some by (auto simp: scan_runs [OF order_refl] mr prod_eq_iff)
  qed
qed

lemma scan_sorted: "k \<le> n \<Longrightarrow> sorted_wrt (\<lambda>r r'. snd r + 1 < fst r') (fst (scan k))"
proof (induction k)
  case 0
  then show ?case by (simp add: scan_start)
next
  case (Suc k)
  then have k: "k < n" "k \<le> n" by simp_all
  note IH = Suc.IH [OF k(2)]
  show ?case
  proof (cases "hit k")
    case True
    then show ?thesis using IH by (simp add: scan_hit k)
  next
    case False
    have "snd r + 1 < s" if "r \<in> set (fst (scan k))" "snd (scan k) = Some s" for r s
    proof (rule ccontr)
      assume "\<not> snd r + 1 < s"
      moreover from that have "closed_run hit m k r" "open_run hit k s" by (auto simp: scan_runs [OF k(2)] scan_open [OF k(2)])
      moreover have "s \<noteq> snd r + 1" using calculation(2,3) by (auto simp: closed_run_def open_run_def dest: all_hit_nth)
      ultimately show False by (auto simp: closed_run_def open_run_def all_hit_def)
    qed
    then show ?thesis using IH False by (auto simp: scan_miss k sorted_wrt_append split: option.splits)
  qed
qed

end

text \<open>The loops run over \<^verbatim>\<open>enumerate(words)\<close>; the state after \<open>k\<close> positions.\<close>

definition scan_upto :: "(nat \<times> 'w \<Rightarrow> 's \<Rightarrow> 's) \<Rightarrow> 'w list \<Rightarrow> 's \<Rightarrow> nat \<Rightarrow> 's" where
  "scan_upto step ws s k = fold step (enumerate 0 (take k ws)) s"

lemma enumerate_snoc: "enumerate n (xs @ [x]) = enumerate n xs @ [(n + length xs, x)]"
  by (induction xs arbitrary: n) auto

lemma scan_upto_0: "scan_upto step ws s 0 = s"
  by (simp add: scan_upto_def)

lemma scan_upto_Suc:
  "scan_upto step ws s (Suc k) = (if k < length ws then step (k, ws ! k) (scan_upto step ws s k) else scan_upto step ws s k)"
proof (cases "k < length ws")
  case True
  then have "take (Suc k) ws = take k ws @ [ws ! k]" by (rule take_Suc_conv_app_nth)
  then show ?thesis using True by (simp add: scan_upto_def enumerate_snoc)
qed (simp add: scan_upto_def)

lemma scan_upto_all: "scan_upto step ws s (length ws) = fold step (enumerate 0 ws) s"
  by (simp add: scan_upto_def)

end
