(* ===== verification/CfgMap.thy ===== *)
theory CfgMap
  imports Runs PyText
begin

text \<open>
  \<^verbatim>\<open>decomp/tools/cfg-map.py\<close>: branch classification of microcode words, pad runs, jump and
  offset tables, and the partition of the code into blocks.  The JSON layout, the percentages
  (floating point) and the printed summary are left out; every list and count they are made of
  is modelled.
\<close>

section \<open>Words and branches\<close>

definition hi16 :: "u32 \<Rightarrow> nat" where "hi16 w = unat (drop_bit 16 w)"
definition lo16 :: "u32 \<Rightarrow> nat" where "lo16 w = unat (w AND 0xFFFF)"

datatype branch_kind = BAbs | BRel | BPark

definition abs_prefixes :: "nat list" where "abs_prefixes = [0xB7FF]"
definition rel_prefixes :: "nat list" where
  "rel_prefixes = [0xB3FF, 0xB43F, 0xBC3F, 0xA3FF, 0xB03F, 0xB83F, 0xB41F, 0xBC1F, 0xB81F, 0xB01F,
                   0xB45F, 0xB17F, 0xA7FF]"
definition park_prefixes :: "nat list" where "park_prefixes = [0xB7DF]"

text \<open>\<^verbatim>\<open>load_words\<close>: the fields come from the blob cut at its length field.\<close>

definition load_words :: "byte list \<Rightarrow> u32 list res" where
  "load_words raw =
     bindE (unpack_be32 (slice 0 4 raw)) (\<lambda>len.
       let blob = take (unat len) raw in
       bindE (unpack_words 2 (slice (124 + 104) (124 + 112) blob)) (\<lambda>f.
         let wcount = unat (f ! 0); code_off = unat (f ! 1) in
         unpack_words wcount (slice code_off (code_off + wcount * 4) blob)))"

definition sext16 :: "int \<Rightarrow> int" where
  "sext16 v = (if v \<ge> 0x8000 then v - 0x10000 else v)"

definition branch_at :: "nat \<Rightarrow> nat \<Rightarrow> u32 \<Rightarrow> (branch_kind \<times> nat option) option" where
  "branch_at n i w =
     (let p = hi16 w in
      if p \<in> set abs_prefixes then (let t = 48 + lo16 w in Some (BAbs, if t < n then Some t else None))
      else if p \<in> set rel_prefixes then
        (let t = int i + sext16 (int (lo16 w)) in
         Some (BRel, if 0 \<le> t \<and> t < int n then Some (nat t) else None))
      else if p \<in> set park_prefixes then Some (BPark, None)
      else None)"

text \<open>The dictionary of \<^verbatim>\<open>classify\<close>, in its insertion order.\<close>

type_synonym branch_info = "(nat \<times> branch_kind \<times> nat option) list"

definition classify :: "u32 list \<Rightarrow> branch_info" where
  "classify ws =
     List.map_filter (\<lambda>(i, w). map_option (Pair i) (branch_at (length ws) i w)) (enumerate 0 ws)"

section \<open>Runs\<close>

definition pad_step :: "nat \<Rightarrow> nat \<times> u32 \<Rightarrow> scan_state \<Rightarrow> scan_state" where
  "pad_step m = (\<lambda>(i, w) (runs, start).
     if w = 0xFFFFFFFF then (runs, case start of None \<Rightarrow> Some i | Some s \<Rightarrow> Some s)
     else (case start of
             Some s \<Rightarrow> if i - s \<ge> m then (runs @ [(s, i - 1)], None) else (runs, None)
           | None \<Rightarrow> (runs, None)))"

definition pad_runs :: "nat \<Rightarrow> u32 list \<Rightarrow> (nat \<times> nat) list" where
  "pad_runs m ws = fst (fold (pad_step m) (enumerate 0 ws) ([], None))"

definition jump_step :: "nat \<Rightarrow> nat \<times> u32 \<Rightarrow> scan_state \<Rightarrow> scan_state" where
  "jump_step m = (\<lambda>(i, w) (runs, start).
     if i < 48 then (runs, start)
     else if hi16 w = 0xB7FF then (runs, case start of None \<Rightarrow> Some i | Some s \<Rightarrow> Some s)
     else (case start of
             Some s \<Rightarrow> if i - s \<ge> m then (runs @ [(s, i - 1)], None) else (runs, None)
           | None \<Rightarrow> (runs, None)))"

definition with_tail :: "nat \<Rightarrow> nat \<Rightarrow> scan_state \<Rightarrow> (nat \<times> nat) list" where
  "with_tail m n st =
     fst st @ (case snd st of Some s \<Rightarrow> if n - s \<ge> m then [(s, n - 1)] else [] | None \<Rightarrow> [])"

definition jump_runs :: "nat \<Rightarrow> u32 list \<Rightarrow> (nat \<times> nat) list" where
  "jump_runs m ws = with_tail m (length ws) (fold (jump_step m) (enumerate 0 ws) ([], None))"

definition jump_table_runs :: "nat \<Rightarrow> u32 list \<Rightarrow> (nat \<times> nat \<times> nat list) list" where
  "jump_table_runs m ws =
     map (\<lambda>(s, e). (s, e, map (\<lambda>x. 48 + lo16 x) (slice s (e + 1) ws))) (jump_runs m ws)"

definition offset_ok :: "nat \<Rightarrow> branch_info \<Rightarrow> nat \<Rightarrow> u32 \<Rightarrow> bool" where
  "offset_ok n bi i w = (map_of bi i = None \<and> 0 < unat w \<and> unat w < n)"

definition offset_step :: "nat \<Rightarrow> branch_info \<Rightarrow> nat \<Rightarrow> nat \<times> u32 \<Rightarrow> scan_state \<Rightarrow> scan_state" where
  "offset_step n bi m = (\<lambda>(i, w) (runs, start).
     case start of
       None \<Rightarrow> if offset_ok n bi i w then (runs, Some i) else (runs, None)
     | Some s \<Rightarrow> if offset_ok n bi i w then (runs, Some s)
                 else if i - s \<ge> m then (runs @ [(s, i - 1)], None) else (runs, None))"

definition offset_runs :: "branch_info \<Rightarrow> nat \<Rightarrow> u32 list \<Rightarrow> (nat \<times> nat) list" where
  "offset_runs bi m ws =
     with_tail m (length ws) (fold (offset_step (length ws) bi m) (enumerate 0 ws) ([], None))"

definition offset_table_runs :: "branch_info \<Rightarrow> nat \<Rightarrow> u32 list \<Rightarrow> (nat \<times> nat \<times> u32 list) list" where
  "offset_table_runs bi m ws = map (\<lambda>(s, e). (s, e, slice s (e + 1) ws)) (offset_runs bi m ws)"

section \<open>Blocks\<close>

definition dispatch_target :: "u32 list \<Rightarrow> nat \<Rightarrow> nat list res" where
  "dispatch_target ws i =
     bindE (py_nth ws (int (i * 2))) (\<lambda>w.
       Inr (if hi16 w = 0xB7FF \<and> 48 + lo16 w < length ws then [48 + lo16 w] else []))"

definition dispatch_targets :: "u32 list \<Rightarrow> nat list res" where
  "dispatch_targets ws = bindE (seqE (map (dispatch_target ws) [0..<24])) (\<lambda>ts. Inr (concat ts))"

definition branch_starts :: "nat \<Rightarrow> nat \<times> branch_kind \<times> nat option \<Rightarrow> nat list" where
  "branch_starts n = (\<lambda>(i, _, t). (case t of Some x \<Rightarrow> [x] | None \<Rightarrow> []) @ (if i + 1 < n then [i + 1] else []))"

definition pad_starts :: "nat \<Rightarrow> nat \<times> nat \<Rightarrow> nat list" where
  "pad_starts n = (\<lambda>(s, e). s # (if e + 1 < n then [e + 1] else []))"

definition block_starts :: "nat list \<Rightarrow> branch_info \<Rightarrow> u32 list \<Rightarrow> nat list" where
  "block_starts dts bi ws =
     (let n = length ws in
      sort (remdups (filter (\<lambda>s. s < n)
        (dts @ concat (map (branch_starts n) bi) @ concat (map (pad_starts n) (pad_runs 4 ws))))))"

record block =
  b_start :: nat
  b_end :: nat
  b_term :: "(nat \<times> branch_kind \<times> nat option) option"

text \<open>The scan from the block's last word down to its first.\<close>

fun find_term :: "branch_info \<Rightarrow> nat list \<Rightarrow> (nat \<times> branch_kind \<times> nat option) option" where
  "find_term bi [] = None"
| "find_term bi (i # is) = (case map_of bi i of Some (k, t) \<Rightarrow> Some (i, k, t) | None \<Rightarrow> find_term bi is)"

definition mk_block :: "branch_info \<Rightarrow> nat \<Rightarrow> nat \<Rightarrow> block" where
  "mk_block bi s e = \<lparr> b_start = s, b_end = e, b_term = find_term bi (rev [s..<Suc e]) \<rparr>"

fun blocks_from :: "nat \<Rightarrow> branch_info \<Rightarrow> nat list \<Rightarrow> block list" where
  "blocks_from n bi [] = []"
| "blocks_from n bi [s] = [mk_block bi s (n - 1)]"
| "blocks_from n bi (s # s' # ss) = mk_block bi s (s' - 1) # blocks_from n bi (s' # ss)"

definition block_words :: "block \<Rightarrow> nat" where "block_words b = b_end b + 1 - b_start b"

record cfg =
  c_words :: nat
  c_starts :: "nat list"
  c_abs :: nat
  c_rel :: nat
  c_parks :: nat
  c_dispatch :: nat
  c_rel_valid :: nat
  c_convergent :: nat
  c_backward :: nat
  c_loops :: nat
  c_jump :: "(nat \<times> nat \<times> nat list) list"
  c_offset :: "(nat \<times> nat \<times> u32 list) list"
  c_pads :: "(nat \<times> nat) list"
  c_largest :: "block list"
  c_blocks :: "block list"

definition kind_count :: "branch_kind \<Rightarrow> branch_info \<Rightarrow> nat" where
  "kind_count k bi = length (filter (\<lambda>(_, k', _). k' = k) bi)"

definition rel_targets :: "branch_info \<Rightarrow> (nat \<times> nat) list" where
  "rel_targets bi = List.map_filter (\<lambda>(i, k, t). if k = BRel then map_option (Pair i) t else None) bi"

definition cfg_main :: "byte list \<Rightarrow> cfg res" where
  "cfg_main raw =
     bindE (load_words raw) (\<lambda>ws.
       let n = length ws; bi = classify ws in
       bindE (dispatch_targets ws) (\<lambda>dts.
         let starts = block_starts dts bi ws; blocks = blocks_from n bi starts; rel = rel_targets bi;
             backward = filter (\<lambda>(i, t). t < i) rel in
         Inr \<lparr> c_words = n, c_starts = starts, c_abs = kind_count BAbs bi, c_rel = kind_count BRel bi,
               c_parks = kind_count BPark bi, c_dispatch = length dts, c_rel_valid = length rel,
               c_convergent = length (filter (\<lambda>t. 2 \<le> count_list (map snd rel) t) (remdups (map snd rel))),
               c_backward = length backward,
               c_loops = length (filter (\<lambda>(i, t). 2 \<le> i - t \<and> i - t \<le> 4000) backward),
               c_jump = jump_table_runs 3 ws, c_offset = offset_table_runs bi 4 ws, c_pads = pad_runs 4 ws,
               c_largest = take 25 (sort_key (\<lambda>b. - int (block_words b)) blocks), c_blocks = blocks \<rparr>))"

section \<open>The run scanners\<close>

interpretation pad_scan: run_loop "\<lambda>i. ws ! i = 0xFFFFFFFF" 4 "length ws" "scan_upto (pad_step 4) ws ([], None)"
  for ws :: "u32 list"
  by unfold_locales
     (auto simp: scan_upto_0 scan_upto_Suc pad_step_def split: prod.splits option.splits)

lemma jump_skip: "k \<le> 48 \<Longrightarrow> scan_upto (jump_step 3) ws ([], None) k = ([], None)"
  by (induction k) (auto simp: scan_upto_0 scan_upto_Suc jump_step_def)

interpretation jump_scan: run_loop "\<lambda>i. 48 \<le> i \<and> hi16 (ws ! i) = 0xB7FF" 3 "length ws"
  "scan_upto (jump_step 3) ws ([], None)" for ws :: "u32 list"
proof unfold_locales
  fix k
  assume k: "k < length ws" and miss: "\<not> (48 \<le> k \<and> hi16 (ws ! k) = 0xB7FF)"
  show "scan_upto (jump_step 3) ws ([], None) (Suc k) =
      (fst (scan_upto (jump_step 3) ws ([], None) k) @
        (case snd (scan_upto (jump_step 3) ws ([], None) k) of
           Some s \<Rightarrow> if 3 \<le> k - s then [(s, k - 1)] else [] | None \<Rightarrow> []), None)"
  proof (cases "k < 48")
    case True
    then show ?thesis using jump_skip [of k ws] jump_skip [of "Suc k" ws] by simp
  next
    case False
    then show ?thesis using k miss
      by (auto simp: scan_upto_Suc jump_step_def split: prod.splits option.splits)
  qed
qed (auto simp: scan_upto_0 scan_upto_Suc jump_step_def split: prod.splits option.splits)

interpretation offset_scan: run_loop "\<lambda>i. offset_ok (length ws) bi i (ws ! i)" 4 "length ws"
  "scan_upto (offset_step (length ws) bi 4) ws ([], None)" for ws :: "u32 list" and bi
  by unfold_locales
     (auto simp: scan_upto_0 scan_upto_Suc offset_step_def split: prod.splits option.splits)

lemma pad_runs_set: "set (pad_runs 4 ws) = {r. closed_run (\<lambda>i. ws ! i = 0xFFFFFFFF) 4 (length ws) r}"
  using pad_scan.scan_runs [OF order_refl, of ws] by (simp add: pad_runs_def scan_upto_all)

lemma with_tail_set:
  "set (with_tail m n st) = set (fst st) \<union> set (case snd st of Some s \<Rightarrow> if m \<le> n - s then [(s, n - 1)] else [] | None \<Rightarrow> [])"
  by (simp add: with_tail_def)

lemma jump_runs_set:
  "set (jump_runs 3 ws) = {r. maximal_run (\<lambda>i. 48 \<le> i \<and> hi16 (ws ! i) = 0xB7FF) 3 (length ws) r}"
  using jump_scan.scan_with_tail [of ws] by (simp only: jump_runs_def with_tail_set scan_upto_all)

lemma offset_runs_set:
  "set (offset_runs bi 4 ws) = {r. maximal_run (\<lambda>i. offset_ok (length ws) bi i (ws ! i)) 4 (length ws) r}"
  using offset_scan.scan_with_tail [where ws = ws and bi = bi]
  by (simp only: offset_runs_def with_tail_set scan_upto_all)

section \<open>The blocks\<close>

lemma blocks_from_starts: "map b_start (blocks_from n bi ss) = ss"
  by (induction n bi ss rule: blocks_from.induct) (auto simp: mk_block_def)

lemma blocks_from_cover:
  assumes "sorted ss" "distinct ss" "\<forall>s \<in> set ss. s < n" "ss \<noteq> []" "hd ss \<le> w" "w < n"
  shows "\<exists>!b. b \<in> set (blocks_from n bi ss) \<and> b_start b \<le> w \<and> w \<le> b_end b"
  using assms
proof (induction n bi ss rule: blocks_from.induct)
  case (2 n bi s)
  then show ?case by (auto simp: mk_block_def)
next
  case (3 n bi s s' ss)
  have later: "w' \<ge> s'" if "b \<in> set (blocks_from n bi (s' # ss))" "b_start b \<le> w'" for b w'
  proof -
    have "b_start b \<in> set (map b_start (blocks_from n bi (s' # ss)))" using that by auto
    then have "b_start b \<in> set (s' # ss)" by (simp only: blocks_from_starts)
    then show ?thesis using "3.prems"(1) that(2) by auto
  qed
  show ?case
  proof (cases "w < s'")
    case True
    then have "b \<in> set (blocks_from n bi (s' # ss)) \<Longrightarrow> \<not> b_start b \<le> w" for b
      using later by (metis not_le)
    then show ?thesis using True "3.prems" by (auto simp: mk_block_def intro!: ex1I)
  next
    case False
    then have "\<exists>!b. b \<in> set (blocks_from n bi (s' # ss)) \<and> b_start b \<le> w \<and> w \<le> b_end b"
      using "3.IH" "3.prems" by simp
    moreover have "\<not> w \<le> b_end (mk_block bi s (s' - 1))" using False "3.prems"(1,2) by (auto simp: mk_block_def)
    ultimately show ?thesis by auto
  qed
qed auto

lemma blocks_from_within:
  assumes "sorted ss" "distinct ss" "\<forall>s \<in> set ss. s < n" "b \<in> set (blocks_from n bi ss)"
  shows "b_start b \<in> set ss \<and> b_start b \<le> b_end b \<and> b_end b < n \<and> (\<forall>s \<in> set ss. s \<le> b_start b \<or> b_end b < s)
    \<and> b_term b = find_term bi (rev [b_start b..<Suc (b_end b)])"
  using assms
proof (induction n bi ss rule: blocks_from.induct)
  case (3 n bi s s' ss)
  have ss': "s < s'" "\<forall>t \<in> set (s' # ss). s' \<le> t" using "3.prems"(1,2) by auto
  from "3.prems"(4) consider "b = mk_block bi s (s' - 1)" | "b \<in> set (blocks_from n bi (s' # ss))" by auto
  then show ?case
  proof cases
    case 1
    have "s' < n" using "3.prems"(3) by simp
    then show ?thesis using ss' by (auto simp: 1 mk_block_def)
  next
    case 2
    then have H: "b_start b \<in> set (s' # ss) \<and> b_start b \<le> b_end b \<and> b_end b < n \<and>
        (\<forall>s \<in> set (s' # ss). s \<le> b_start b \<or> b_end b < s) \<and>
        b_term b = find_term bi (rev [b_start b..<Suc (b_end b)])"
      using "3.IH" "3.prems" by simp
    then have "s' \<le> b_start b" using ss'(2) by blast
    with H ss'(1) show ?thesis by auto
  qed
qed (auto simp: mk_block_def)

lemma map_of_enumerate:
  "map_of (List.map_filter (\<lambda>(i, w). map_option (Pair i) (f i w)) (enumerate k xs)) i =
     (if k \<le> i \<and> i < k + length xs then f i (xs ! (i - k)) else None)"
proof (induction xs arbitrary: k)
  case (Cons x xs)
  show ?case
  proof (cases "f k x")
    case None
    then show ?thesis using Cons.IH [of "Suc k"]
      by (cases "i = k") (auto simp: List.map_filter_def nth_Cons')
  next
    case (Some y)
    then show ?thesis using Cons.IH [of "Suc k"]
      by (auto simp: List.map_filter_def nth_Cons')
  qed
qed (auto simp: List.map_filter_def)

lemma classify_lookup:
  "map_of (classify ws) i = (if i < length ws then branch_at (length ws) i (ws ! i) else None)"
  using map_of_enumerate [of "branch_at (length ws)" 0 ws i] by (simp add: classify_def)

lemma starts_facts:
  assumes "ss = block_starts dts bi ws"
  shows "sorted ss" "distinct ss" "\<forall>s \<in> set ss. s < length ws"
    and "\<And>i k t. (i, k, t) \<in> set bi \<Longrightarrow> i + 1 < length ws \<Longrightarrow> i + 1 \<in> set ss"
    and "\<And>i k t. (i, k, Some t) \<in> set bi \<Longrightarrow> t < length ws \<Longrightarrow> t \<in> set ss"
    and "\<And>t. t \<in> set dts \<Longrightarrow> t < length ws \<Longrightarrow> t \<in> set ss"
    and "\<And>s e. (s, e) \<in> set (pad_runs 4 ws) \<Longrightarrow> s < length ws \<Longrightarrow>
           s \<in> set ss \<and> (e + 1 < length ws \<longrightarrow> e + 1 \<in> set ss)"
  using assms by (force simp: block_starts_def Let_def branch_starts_def pad_starts_def)+

lemma branch_at_target: "branch_at n i w = Some (k, Some t) \<Longrightarrow> t < n"
  by (auto simp: branch_at_def Let_def split: if_splits)

lemma cfg_parts:
  assumes "cfg_main raw = Inr c" "load_words raw = Inr ws"
  shows "\<exists>dts. dispatch_targets ws = Inr dts \<and> c_starts c = block_starts dts (classify ws) ws \<and>
    c_blocks c = blocks_from (length ws) (classify ws) (c_starts c)"
  using assms by (auto simp: cfg_main_def bindE_eq_Inr Let_def)

lemma block_single_exit:
  assumes ss: "ss = block_starts dts (classify ws) ws"
    and b: "b \<in> set (blocks_from (length ws) (classify ws) ss)"
    and i: "b_start b \<le> i" "i \<le> b_end b" "branch_at (length ws) i (ws ! i) \<noteq> None"
  shows "i = b_end b"
proof -
  note F = starts_facts [OF ss]
  note W = blocks_from_within [OF F(1-3) b]
  have "i < length ws" using W i(2) by linarith
  then obtain k t where "(i, k, t) \<in> set (classify ws)"
    using i(3) classify_lookup [of ws i] by (metis map_of_SomeD not_None_eq surj_pair)
  then have "i + 1 < length ws \<Longrightarrow> i + 1 \<in> set ss" by (rule F(4))
  then have "i + 1 < length ws \<Longrightarrow> i + 1 \<le> b_start b \<or> b_end b < i + 1" using W by blast
  with W i show ?thesis by linarith
qed

lemma dispatch_targets_ok:
  assumes "47 \<le> length ws"
  shows "dispatch_targets ws = Inr (concat (map (\<lambda>i.
    if hi16 (ws ! (i * 2)) = 0xB7FF \<and> 48 + lo16 (ws ! (i * 2)) < length ws
    then [48 + lo16 (ws ! (i * 2))] else []) [0..<24]))"
proof -
  have "dispatch_target ws i = Inr (if hi16 (ws ! (i * 2)) = 0xB7FF \<and> 48 + lo16 (ws ! (i * 2)) < length ws
    then [48 + lo16 (ws ! (i * 2))] else [])" if "i \<in> set [0..<24]" for i
  proof -
    have "py_nth ws (int (i * 2)) = Inr (ws ! (i * 2))" using that assms by (simp only: py_nth_nat) auto
    then show ?thesis by (simp only: dispatch_target_def bindE_Inr)
  qed
  then have "map (dispatch_target ws) [0..<24]
      = map (\<lambda>i. Inr (if hi16 (ws ! (i * 2)) = 0xB7FF \<and> 48 + lo16 (ws ! (i * 2)) < length ws
          then [48 + lo16 (ws ! (i * 2))] else [])) [0..<24]" by (rule map_cong [OF refl])
  then show ?thesis unfolding dispatch_targets_def by (simp only: seqE_map_Inr bindE_Inr)
qed

section \<open>Properties\<close>

text \<open>The three run scanners report exactly the runs they are meant to: the pad scanner every
  maximal run of at least 4 pad words that is followed by another word (a run that reaches the end
  of the code is dropped), the jump-table and offset-table scanners every maximal run of at least
  3, respectively 4, words, the last one of the code included.\<close>

lemma run_scanners_exact:
  "set (pad_runs 4 ws) = {r. closed_run (\<lambda>i. ws ! i = 0xFFFFFFFF) 4 (length ws) r} \<and>
   set (jump_runs 3 ws) = {r. maximal_run (\<lambda>i. 48 \<le> i \<and> hi16 (ws ! i) = 0xB7FF) 3 (length ws) r} \<and>
   set (offset_runs bi 4 ws) = {r. maximal_run (\<lambda>i. offset_ok (length ws) bi i (ws ! i)) 4 (length ws) r}"
  by (simp add: pad_runs_set jump_runs_set offset_runs_set)

text \<open>C17. The blocks of the control-flow map: from the first block start on, every word lies in
  exactly one block, and no word before it lies in any; a branch is always the last word of its
  block (single exit), and every resolved branch target is the first word of a block (single
  entry).\<close>

theorem cfg_blocks_partition:
  assumes "cfg_main raw = Inr c" "load_words raw = Inr ws" "c_starts c \<noteq> []"
  shows "(\<forall>w < length ws. hd (c_starts c) \<le> w \<longrightarrow> (\<exists>!b. b \<in> set (c_blocks c) \<and> b_start b \<le> w \<and> w \<le> b_end b)) \<and>
    (\<forall>b \<in> set (c_blocks c). hd (c_starts c) \<le> b_start b \<and> b_end b < length ws) \<and>
    (\<forall>b \<in> set (c_blocks c). \<forall>i. b_start b \<le> i \<and> i \<le> b_end b \<and> branch_at (length ws) i (ws ! i) \<noteq> None \<longrightarrow> i = b_end b) \<and>
    (\<forall>i < length ws. \<forall>k t. branch_at (length ws) i (ws ! i) = Some (k, Some t) \<longrightarrow> t \<in> b_start ` set (c_blocks c))"
proof -
  from cfg_parts [OF assms(1,2)] obtain dts where
    ss: "c_starts c = block_starts dts (classify ws) ws" and
    bs: "c_blocks c = blocks_from (length ws) (classify ws) (c_starts c)" by blast
  note F = starts_facts [OF ss]
  have "t \<in> b_start ` set (c_blocks c)" if "i < length ws" "branch_at (length ws) i (ws ! i) = Some (k, Some t)" for i k t
  proof -
    have "(i, k, Some t) \<in> set (classify ws)"
      using that classify_lookup [of ws i] by (simp add: map_of_SomeD)
    then have "t \<in> set (c_starts c)" using F(5) branch_at_target that by blast
    then show ?thesis unfolding bs by (metis blocks_from_starts list.set_map)
  qed
  moreover have "hd (c_starts c) \<le> b_start b \<and> b_end b < length ws" if "b \<in> set (c_blocks c)" for b
    using blocks_from_within [OF F(1-3) that [unfolded bs]] F(1) assms(3)
    by (metis hd_Cons_tl list.sel(1) set_ConsD sorted_simps(2) order_refl)
  ultimately show ?thesis
    using blocks_from_cover [OF F(1-3) assms(3)] block_single_exit [OF ss] unfolding bs by blast
qed

definition sample_cfg :: "byte list" where
  "sample_cfg =
     pack_be32 436 @ replicate 224 0 @ pack_be32 50 @ pack_be32 236 @
     pack_be32 0xB7FF0001 @ replicate 196 0"

lemma cfg_blocks_partition_witness:
  "\<exists>c. cfg_main sample_cfg = Inr c \<and> c_starts c = [1, 49] \<and>
     (\<exists>!b. b \<in> set (c_blocks c) \<and> b_start b \<le> 20 \<and> 20 \<le> b_end b)"
proof -
  let ?ws = "0xB7FF0001 # replicate 49 0 :: u32 list"
  have ws: "load_words sample_cfg = Inr ?ws" by code_simp
  have hl: "hi16 0xB7FF0001 = 0xB7FF" "lo16 0xB7FF0001 = 1" "hi16 0 = 0" by (simp_all add: hi16_def lo16_def)
  have nth: "?ws ! i = (if i = 0 then 0xB7FF0001 else 0)" if "i < 50" for i
    using that by (simp add: nth_Cons' del: replicate.simps replicate_Suc)
  have "map (\<lambda>i. if hi16 (?ws ! (i * 2)) = 0xB7FF \<and> 48 + lo16 (?ws ! (i * 2)) < length ?ws
      then [48 + lo16 (?ws ! (i * 2))] else []) [0..<24]
    = map (\<lambda>i. if i = 0 then [49] else []) [0..<24]"
    by (rule map_cong [OF refl]) (auto simp: nth hl simp del: replicate.simps replicate_Suc)
  then have d: "dispatch_targets ?ws = Inr [49]"
    by (subst dispatch_targets_ok) (simp_all add: upt_rec)
  have "branch_at 50 i 0 = None" for i
    by (simp add: branch_at_def hl abs_prefixes_def rel_prefixes_def park_prefixes_def)
  then have "List.map_filter (\<lambda>(i, w). map_option (Pair i) (branch_at 50 i w)) (enumerate k (replicate m 0)) = []" for k m
    by (induction m arbitrary: k) (auto simp: List.map_filter_def)
  moreover have "branch_at 50 0 0xB7FF0001 = Some (BAbs, Some 49)"
    by (simp add: branch_at_def hl abs_prefixes_def Let_def)
  ultimately have cl: "classify ?ws = [(0, BAbs, Some 49)]"
    by (simp add: classify_def List.map_filter_simps del: replicate.simps replicate_Suc)
  have "fold (pad_step 4) (enumerate k (replicate m 0)) ([], None) = ([], None)" for k m
    by (induction m arbitrary: k) (auto simp: pad_step_def)
  moreover have "pad_step 4 (0, 0xB7FF0001) ([], None) = ([], None)" by (simp add: pad_step_def)
  ultimately have p: "pad_runs 4 ?ws = []"
    by (simp add: pad_runs_def del: replicate.simps replicate_Suc)
  have st: "block_starts [49] [(0, BAbs, Some 49)] ?ws = [1, 49]"
    by (simp add: block_starts_def p branch_starts_def insort_key.simps)
  obtain c where c: "cfg_main sample_cfg = Inr c" "c_starts c = [1, 49]"
    by (simp add: cfg_main_def ws Let_def d cl st del: replicate.simps replicate_Suc)
  have "\<exists>!b. b \<in> set (c_blocks c) \<and> b_start b \<le> 20 \<and> 20 \<le> b_end b"
    using conjunct1 [OF cfg_blocks_partition [OF c(1) ws]] c(2) by simp
  from c(1) c(2) this show ?thesis by (intro exI conjI)
qed

end
