(* ===== verification/StructureMap.thy ===== *)
theory StructureMap
  imports CfgMap "HOL-Library.List_Lexorder"
begin

text \<open>
  \<^verbatim>\<open>decomp/tools/structure-map.py\<close>: the dispatch table, branch statistics, candidate entry
  points, pad runs, and the alignment of two blobs with its partition into shared and unique
  runs.  Percentages (floating point) are left as the pair of counts they are computed from.
\<close>

section \<open>Dispatch table, statistics, entry points\<close>

record dslot =
  d_slot :: nat
  d_branch :: u32
  d_populated :: bool
  d_target :: "nat option"

definition dispatch_slot_of :: "u32 list \<Rightarrow> nat \<Rightarrow> dslot res" where
  "dispatch_slot_of ws i =
     bindE (py_nth ws (int (i * 2))) (\<lambda>br. bindE (py_nth ws (int (i * 2 + 1))) (\<lambda>pad.
       let populated = (\<not> (br = 0xFFFFFFFF \<and> pad = 0xFFFFFFFF)) in
       Inr \<lparr> d_slot = i, d_branch = br, d_populated = populated,
             d_target = (if populated \<and> hi16 br = 0xB7FF then Some (48 + lo16 br) else None) \<rparr>))"

definition dispatch_table :: "u32 list \<Rightarrow> dslot list res" where
  "dispatch_table ws = seqE (map (dispatch_slot_of ws) [0..<24])"

text \<open>Prefix, count, code size, in-range targets: \<^verbatim>\<open>Counter.most_common\<close> orders by count, ties
  by first appearance.\<close>

definition branch_class_stats :: "u32 list \<Rightarrow> nat \<Rightarrow> (nat \<times> nat \<times> nat \<times> nat) list" where
  "branch_class_stats ws top_n =
     (let ps = map hi16 ws; distinct_ps = rev (remdups (rev ps)) in
      map (\<lambda>p. (p, count_list ps p, length ws,
                length (filter (\<lambda>w. hi16 w = p \<and> 48 + lo16 w < length ws) ws)))
        (take top_n (sort_key (\<lambda>p. - int (count_list ps p)) distinct_ps)))"

definition slot_ref :: "dslot \<Rightarrow> (nat \<times> string) option" where
  "slot_ref d =
     (case d_target d of
        Some t \<Rightarrow> if d_populated d then Some (t, ''dispatch slot '' @ nat_str (d_slot d)) else None
      | None \<Rightarrow> None)"

definition word_ref :: "nat \<Rightarrow> nat \<times> u32 \<Rightarrow> (nat \<times> string) option" where
  "word_ref n = (\<lambda>(i, w).
     if hi16 w AND 0xFF00 = 0xB700 \<and> 48 + lo16 w < n
     then Some (48 + lo16 w, ''0x'' @ hex_fmt 4 (hi16 w) @ '' @ w'' @ nat_str i) else None)"

record entry =
  e_word :: nat
  e_byte :: nat
  e_refs :: "string list"

definition harvest_entries :: "u32 list \<Rightarrow> entry list res" where
  "harvest_entries ws =
     bindE (dispatch_table ws) (\<lambda>slots.
       let refs = List.map_filter slot_ref slots @ List.map_filter (word_ref (length ws)) (enumerate 0 ws) in
       Inr (map (\<lambda>w. \<lparr> e_word = w, e_byte = w * 4,
                       e_refs = sort (remdups (map snd (filter (\<lambda>(t, _). t = w) refs))) \<rparr>)
              (sort (remdups (map fst refs)))))"

text \<open>The same loop as \<^verbatim>\<open>cfg-map.py\<close>'s, with the run at the end of the code emitted.\<close>

definition data_runs :: "u32 list \<Rightarrow> (nat \<times> nat \<times> nat) list" where
  "data_runs ws =
     map (\<lambda>(s, e). (s, e, e + 1 - s)) (with_tail 4 (length ws) (fold (pad_step 4) (enumerate 0 ws) ([], None)))"

section \<open>Alignment\<close>

text \<open>How far the 4-word seed at word \<open>i\<close> of \<open>a\<close> and byte \<open>pos\<close> of \<open>b\<close> extends.\<close>

function extend_match :: "byte list \<Rightarrow> byte list \<Rightarrow> nat \<Rightarrow> nat \<Rightarrow> nat \<Rightarrow> nat \<Rightarrow> nat" where
  "extend_match a b n i pos l =
     (if i + l < n \<and> pos + l * 4 + 4 \<le> length b \<and>
         slice ((i + l) * 4) ((i + l) * 4 + 4) a = slice (pos + l * 4) (pos + l * 4 + 4) b
      then extend_match a b n i pos (l + 1) else l)"
  by auto
termination by (relation "measure (\<lambda>(a, b, n, i, pos, l). n - (i + l))") auto

declare extend_match.simps [simp del]

definition match_at :: "byte list \<Rightarrow> byte list \<Rightarrow> nat \<Rightarrow> nat \<Rightarrow> nat" where
  "match_at a b n i =
     (let needle = slice (i * 4) (i * 4 + 16) a in
      if length needle < 16 then 0
      else case find_from needle 0 b of None \<Rightarrow> 0 | Some pos \<Rightarrow> extend_match a b n i pos 4)"

text \<open>The loop stops at the first short needle; every later needle is short too.\<close>

definition align :: "u32 list \<Rightarrow> u32 list \<Rightarrow> nat list" where
  "align target other =
     (let a = concat (map pack_be32 target); b = concat (map pack_be32 other)
      in map (match_at a b (length target)) [0..<length target])"

section \<open>Shared and unique runs\<close>

record cover =
  k_shared :: "(nat \<times> nat) list"
  k_unique :: "(nat \<times> nat) list"
  k_start :: nat
  k_state :: "bool option"

definition cover_step :: "nat \<Rightarrow> nat \<times> nat \<Rightarrow> cover \<Rightarrow> cover" where
  "cover_step m = (\<lambda>(i, l) c.
     let s = (m \<le> l) in
     case k_state c of
       None \<Rightarrow> c \<lparr> k_state := Some s, k_start := i \<rparr>
     | Some st \<Rightarrow>
         if s \<noteq> st then
           (if st then c \<lparr> k_shared := k_shared c @ [(k_start c, i - 1)], k_state := Some s, k_start := i \<rparr>
            else c \<lparr> k_unique := k_unique c @ [(k_start c, i - 1)], k_state := Some s, k_start := i \<rparr>)
         else c)"

definition covered_runs :: "nat \<Rightarrow> nat list \<Rightarrow> (nat \<times> nat) list \<times> (nat \<times> nat) list" where
  "covered_runs m ml =
     (let c = fold (cover_step m) (enumerate 0 (ml @ [0]))
                \<lparr> k_shared = [], k_unique = [], k_start = 0, k_state = None \<rparr>
      in (k_shared c, k_unique c))"

definition covered_words :: "(nat \<times> nat) list \<Rightarrow> nat" where
  "covered_words shared = sum_list (map (\<lambda>(s, e). e + 1 - s) shared)"

section \<open>Proofs\<close>

lemma data_runs_set:
  "(\<lambda>(s, e, _). (s, e)) ` set (data_runs ws) = {r. maximal_run (\<lambda>i. ws ! i = 0xFFFFFFFF) 4 (length ws) r}"
proof -
  have "(\<lambda>(s, e, _). (s, e)) ` set (data_runs ws)
      = set (with_tail 4 (length ws) (fold (pad_step 4) (enumerate 0 ws) ([], None)))"
    by (auto simp: data_runs_def image_image case_prod_beta)
  then show ?thesis using pad_scan.scan_with_tail [of ws] by (simp only: with_tail_set scan_upto_all)
qed

definition cover0 :: cover where
  "cover0 = \<lparr> k_shared = [], k_unique = [], k_start = 0, k_state = None \<rparr>"

abbreviation cover_upto :: "nat list \<Rightarrow> nat \<Rightarrow> cover" where
  "cover_upto ls \<equiv> scan_upto (cover_step 4) ls cover0"

lemma cover_state:
  "k \<le> length ls \<Longrightarrow> k_state (cover_upto ls k) = (if k = 0 then None else Some (4 \<le> ls ! (k - 1))) \<and>
     (0 < k \<longrightarrow> k_start (cover_upto ls k) < k)"
proof (induction k)
  case (Suc k)
  then show ?case by (cases "k = 0") (auto simp: scan_upto_0 scan_upto_Suc cover_step_def cover0_def Let_def)
qed (simp add: scan_upto_0 cover0_def)

definition side :: "bool \<Rightarrow> cover \<Rightarrow> scan_state" where
  "side b c = (if b then k_shared c else k_unique c, if k_state c = Some b then Some (k_start c) else None)"

text \<open>One loop scans for the shared runs and for the unique runs at once.\<close>

interpretation shared_scan: run_loop "\<lambda>i. 4 \<le> ls ! i" 1 "length ls" "\<lambda>k. side True (cover_upto ls k)"
  for ls :: "nat list"
proof unfold_locales
  fix k assume "k < length ls"
  with cover_state [of k ls]
  show "4 \<le> ls ! k \<Longrightarrow> side True (cover_upto ls (Suc k)) = (fst (side True (cover_upto ls k)),
      Some (case snd (side True (cover_upto ls k)) of None \<Rightarrow> k | Some s \<Rightarrow> s))"
    and "\<not> 4 \<le> ls ! k \<Longrightarrow> side True (cover_upto ls (Suc k)) = (fst (side True (cover_upto ls k)) @
      (case snd (side True (cover_upto ls k)) of Some s \<Rightarrow> if 1 \<le> k - s then [(s, k - 1)] else [] | None \<Rightarrow> []), None)"
    by (auto simp: side_def scan_upto_Suc cover_step_def Let_def split: if_splits)
qed (simp_all add: side_def scan_upto_0 cover0_def)

interpretation unique_scan: run_loop "\<lambda>i. \<not> 4 \<le> ls ! i" 1 "length ls" "\<lambda>k. side False (cover_upto ls k)"
  for ls :: "nat list"
proof unfold_locales
  fix k assume "k < length ls"
  with cover_state [of k ls]
  show "\<not> 4 \<le> ls ! k \<Longrightarrow> side False (cover_upto ls (Suc k)) = (fst (side False (cover_upto ls k)),
      Some (case snd (side False (cover_upto ls k)) of None \<Rightarrow> k | Some s \<Rightarrow> s))"
    and "\<not> \<not> 4 \<le> ls ! k \<Longrightarrow> side False (cover_upto ls (Suc k)) = (fst (side False (cover_upto ls k)) @
      (case snd (side False (cover_upto ls k)) of Some s \<Rightarrow> if 1 \<le> k - s then [(s, k - 1)] else [] | None \<Rightarrow> []), None)"
    by (auto simp: side_def scan_upto_Suc cover_step_def Let_def split: if_splits)
qed (simp_all add: side_def scan_upto_0 cover0_def)

lemma closed_shared:
  "closed_run (\<lambda>i. 4 \<le> (ml @ [0 :: nat]) ! i) 1 (length (ml @ [0])) r \<longleftrightarrow>
     maximal_run (\<lambda>i. 4 \<le> ml ! i) 1 (length ml) r"
  using closed_run_sentinel_miss [of "\<lambda>i. 4 \<le> (ml @ [0]) ! i" "length ml"]
    maximal_run_cong [of "length ml" "\<lambda>i. 4 \<le> (ml @ [0]) ! i" "\<lambda>i. 4 \<le> ml ! i"]
  by (simp add: nth_append)

lemma closed_unique:
  "closed_run (\<lambda>i. \<not> 4 \<le> (ml @ [0 :: nat]) ! i) 1 (length (ml @ [0])) r \<longleftrightarrow>
     closed_run (\<lambda>i. \<not> 4 \<le> ml ! i) 1 (length ml) r"
  using closed_run_sentinel_hit [of "\<lambda>i. \<not> 4 \<le> (ml @ [0]) ! i" "length ml"]
    closed_run_cong [of "length ml" "\<lambda>i. \<not> 4 \<le> (ml @ [0]) ! i" "\<lambda>i. \<not> 4 \<le> ml ! i"]
  by (simp add: nth_append)

lemma covered_runs_sets:
  "set (fst (covered_runs 4 ml)) = {r. maximal_run (\<lambda>i. 4 \<le> ml ! i) 1 (length ml) r}"
  "set (snd (covered_runs 4 ml)) = {r. closed_run (\<lambda>i. \<not> 4 \<le> ml ! i) 1 (length ml) r}"
proof -
  have c: "covered_runs 4 ml = (k_shared (cover_upto (ml @ [0]) (length (ml @ [0]))),
      k_unique (cover_upto (ml @ [0]) (length (ml @ [0]))))"
    unfolding scan_upto_all by (simp add: covered_runs_def cover0_def Let_def)
  show "set (fst (covered_runs 4 ml)) = {r. maximal_run (\<lambda>i. 4 \<le> ml ! i) 1 (length ml) r}"
    using shared_scan.scan_runs [OF order_refl, of "ml @ [0]"] unfolding closed_shared by (simp add: c side_def)
  show "set (snd (covered_runs 4 ml)) = {r. closed_run (\<lambda>i. \<not> 4 \<le> ml ! i) 1 (length ml) r}"
    using unique_scan.scan_runs [OF order_refl, of "ml @ [0]"] unfolding closed_unique by (simp add: c side_def)
qed

lemma extend_sound:
  "slice (i * 4) ((i + l) * 4) a = slice pos (pos + l * 4) b \<Longrightarrow> i + l \<le> n \<Longrightarrow>
   l \<le> extend_match a b n i pos l \<and> i + extend_match a b n i pos l \<le> n \<and>
   slice (i * 4) ((i + extend_match a b n i pos l) * 4) a = slice pos (pos + extend_match a b n i pos l * 4) b"
proof (induction a b n i pos l rule: extend_match.induct)
  case (1 a b n i pos l)
  show ?case
  proof (cases "i + l < n \<and> pos + l * 4 + 4 \<le> length b \<and>
         slice ((i + l) * 4) ((i + l) * 4 + 4) a = slice (pos + l * 4) (pos + l * 4 + 4) b")
    case True
    have "slice (i * 4) ((i + (l + 1)) * 4) a = slice (i * 4) ((i + l) * 4) a @ slice ((i + l) * 4) ((i + l) * 4 + 4) a"
      by (subst slice_append) (simp_all add: algebra_simps)
    also have "\<dots> = slice pos (pos + (l + 1) * 4) b"
      unfolding "1.prems"(1) True [THEN conjunct2, THEN conjunct2]
      by (subst slice_append) (simp_all add: algebra_simps)
    finally show ?thesis using "1.IH" [OF True] True by (simp add: extend_match.simps [of a b n i pos l])
  next
    case False
    then have "extend_match a b n i pos l = l" by (subst extend_match.simps) (simp only: if_False)
    then show ?thesis using "1.prems" by simp
  qed
qed

lemma align_nth:
  "i < length target \<Longrightarrow> align target other ! i
     = match_at (concat (map pack_be32 target)) (concat (map pack_be32 other)) (length target) i"
  by (simp add: align_def)

lemma match_at_sound:
  assumes "i < n" "length a = 4 * n" "match_at a b n i = l" "0 < l"
  shows "4 \<le> l \<and> i + l \<le> n \<and> (\<exists>pos. slice (i * 4) ((i + l) * 4) a = slice pos (pos + l * 4) b)"
proof -
  from assms(3,4) obtain pos where len: "length (slice (i * 4) (i * 4 + 16) a) = 16"
    and f: "find_from (slice (i * 4) (i * 4 + 16) a) 0 b = Some pos" and l: "l = extend_match a b n i pos 4"
    by (auto simp: match_at_def Let_def length_slice split: if_splits option.splits)
  have "slice (i * 4) ((i + 4) * 4) a = slice pos (pos + 4 * 4) b"
    using find_from_Some(2) [OF f] len by (simp add: occurs_at_def)
  moreover have "i + 4 \<le> n" using len assms(2) by (simp add: length_slice)
  ultimately show ?thesis using extend_sound [of i 4 a pos b n] l by blast
qed

lemma align_core:
  assumes "i < length target" "0 < align target other ! i"
  shows "4 \<le> align target other ! i \<and> i + align target other ! i \<le> length target \<and>
    (\<exists>pos. slice (i * 4) ((i + align target other ! i) * 4) (concat (map pack_be32 target))
         = slice pos (pos + align target other ! i * 4) (concat (map pack_be32 other)))"
  using match_at_sound [OF assms(1) _ align_nth [OF assms(1), of other, symmetric] assms(2)] by simp

section \<open>Properties\<close>

text \<open>The partition of an alignment: the shared runs are exactly the maximal runs of words
  with a match of at least 4 words, and the unique runs exactly the maximal runs of the other
  words that are followed by a shared word; a unique run at the end of the blob is dropped.  The
  data runs are the maximal runs of at least 4 pad words, the last one included.\<close>

lemma alignment_partition:
  "set (fst (covered_runs 4 ml)) = {r. maximal_run (\<lambda>i. 4 \<le> ml ! i) 1 (length ml) r} \<and>
   set (snd (covered_runs 4 ml)) = {r. closed_run (\<lambda>i. \<not> 4 \<le> ml ! i) 1 (length ml) r} \<and>
   (\<lambda>(s, e, _). (s, e)) ` set (data_runs ws) = {r. maximal_run (\<lambda>i. ws ! i = 0xFFFFFFFF) 4 (length ws) r}"
  by (simp add: covered_runs_sets data_runs_set)

text \<open>A match length reported by the alignment is real: it is at least 4 words, stays inside
  the target, and the bytes of that many words occur in the other blob.\<close>

lemma align_matches:
  assumes "i < length target" "0 < align target other ! i"
  shows "4 \<le> align target other ! i \<and> i + align target other ! i \<le> length target \<and>
    (\<exists>pos. slice (i * 4) ((i + align target other ! i) * 4) (concat (map pack_be32 target))
         = slice pos (pos + align target other ! i * 4) (concat (map pack_be32 other)))"
  by (rule align_core [OF assms])

lemma align_matches_witness:
  "\<exists>pos. slice 0 16 (concat (map pack_be32 [1, 1, 1, 1, 2])) = slice pos (pos + 16) (concat (map pack_be32 [1, 1, 1, 1, 3]))"
proof -
  have "align [1, 1, 1, 1, 2] [1, 1, 1, 1, 3] ! 0 = 4" by code_simp
  then show ?thesis using align_matches [of 0 "[1, 1, 1, 1, 2]" "[1, 1, 1, 1, 3]"] by simp
qed

text \<open>The seed's first occurrence decides: a longer match further on is not found, although the
  docstring promises the longest match anywhere.\<close>

lemma align_not_longest:
  "align [1, 1, 1, 1, 2] [1, 1, 1, 1, 3, 1, 1, 1, 1, 2] ! 0 = 4 \<and>
   slice 20 40 (concat (map pack_be32 [1, 1, 1, 1, 3, 1, 1, 1, 1, 2])) = concat (map pack_be32 [1, 1, 1, 1, 2])"
  by code_simp

end
