(* ===== verification/Disasm.thy ===== *)
theory Disasm
  imports CfgMap "HOL-Library.AList"
begin

text \<open>
  The disassemblers \<^verbatim>\<open>decomp/tools/fman-disasm.py\<close> and
  \<^verbatim>\<open>decomp/tools/fman-full-disasm.py\<close>: word loading, instruction selection, field
  extraction, operand formatting and the control-flow graph.  The instruction table, which the
  second tool scrapes from an HTML page with regular expressions, is a parameter (a list of
  entries).
\<close>

section \<open>fman-disasm.py\<close>

text \<open>The exit of \<^verbatim>\<open>load_words\<close> on another magic; the code starts at byte 244.\<close>

definition fd_load_words :: "byte list \<Rightarrow> u32 list res" where
  "fd_load_words raw =
     (if slice 4 7 raw \<noteq> [0x51, 0x45, 0x46] then Inl (SysExit ''not a QEF blob'')
      else bindE (unpack_be32 (slice 0 4 raw)) (\<lambda>len.
        let blob = take (unat len) raw in
        seqE (map (\<lambda>i. unpack_be32 (slice (244 + i * 4) (244 + i * 4 + 4) blob))
                [0..<(length blob - 4 - 244) div 4])))"

definition sx16 :: "nat \<Rightarrow> int" where
  "sx16 v = (if v AND 0x8000 \<noteq> 0 then int v - 0x10000 else int v)"

definition fd_rn :: "nat \<Rightarrow> string" where
  "fd_rn r = (if r = 26 then ''r26/*IC*/'' else if r = 28 then ''r28/*FRAME*/''
              else if r = 31 then ''r31/*COND*/'' else ''r'' @ nat_str r)"

definition branch16 :: "(nat \<times> string) list" where
  "branch16 =
     [(0xb7ff, ''br''), (0xa3ff, ''jmp''), (0xb3ff, ''brc''), (0xb43f, ''brc''), (0xbc3f, ''brc''),
      (0xb03f, ''brc''), (0xb83f, ''brc''), (0xb41f, ''brc''), (0xbc1f, ''brc''), (0xb81f, ''brc''),
      (0xb01f, ''brc''), (0xb45f, ''brc''), (0xb17f, ''brc''), (0xa7ff, ''brc''), (0x2e3f, ''brc''),
      (0x2e5f, ''brc''), (0x2e1f, ''brc'')]"

definition prefix8 :: "(nat \<times> string) list" where
  "prefix8 =
     [(0x04, ''ld''), (0x14, ''st''), (0x10, ''ldb''), (0xeb, ''op_eb''), (0xf0, ''op_f0''),
      (0xd8, ''op_d8''), (0xdb, ''op_db''), (0xdc, ''tst_dc''), (0x73, ''tst_73''), (0xe1, ''op_e1''),
      (0xef, ''op_ef''), (0xd9, ''op_d9''), (0x77, ''m_77''), (0x78, ''m_78''), (0xf1, ''m_f1''), (0xf4, ''m_f4'')]"

text \<open>A decoded word; the printed mnemonic is a rendering of it.\<close>

datatype insn =
    Branch string nat int
  | Park
  | TableBranch nat
  | Nop
  | MemOp string nat nat nat
  | ImmOp string nat nat nat
  | Unknown nat nat

definition mem_names :: "string list" where
  "mem_names = [''ld'', ''st'', ''ldb'', ''op_f0'', ''m_77'', ''m_78'', ''m_f1'', ''m_f4'']"

definition fd_decode :: "u32 \<Rightarrow> int \<Rightarrow> insn \<times> int option" where
  "fd_decode w idx =
     (let p16 = hi16 w; p8 = unat (drop_bit 24 w); reg = hi16 w AND 0x1f; op8 = hi16 w AND 0xff;
          imm = lo16 w; s = sx16 imm in
      case map_of branch16 p16 of
        Some name \<Rightarrow> (Branch name imm (idx + s), Some (idx + s))
      | None \<Rightarrow>
          if p16 = 0xb7df then (Park, Some idx)
          else if p16 = 0x2c3f then (TableBranch imm, None)
          else if p16 = 0xffff then (Nop, None)
          else (case map_of prefix8 p8 of
                  Some name \<Rightarrow> (if name \<in> set mem_names then MemOp name reg imm op8 else ImmOp name reg imm op8, None)
                | None \<Rightarrow> (Unknown p16 imm, None)))"

text \<open>The range of \<^verbatim>\<open>main\<close>: a negative start indexes from the end, as Python does.\<close>

definition fd_main :: "u32 list \<Rightarrow> int \<Rightarrow> int \<Rightarrow> (int \<times> u32 \<times> insn) list \<times> py_error option" where
  "fd_main ws a b =
     emit_all (\<lambda>i. bindE (py_nth ws i) (\<lambda>w. Inr (i, w, fst (fd_decode w i)))) [a..min (b + 1) (int (length ws)) - 1]"

section \<open>fman-full-disasm.py\<close>

definition qef3 :: "byte list" where "qef3 = [0x51, 0x45, 0x46]"

text \<open>A blob, a dump with a blob inside, or raw code; at most 12851 words.\<close>

definition ff_load_words :: "byte list \<Rightarrow> u32 list res" where
  "ff_load_words raw =
     bindE (if 8 \<le> length raw \<and> slice 4 7 raw = qef3
            then bindE (unpack_be32 (slice 0 4 raw)) (\<lambda>len. Inr (take (unat len) raw, 244))
            else (case find_from qef3 0 raw of
                    Some k \<Rightarrow> if 4 \<le> k
                      then bindE (unpack_be32 (slice (k - 4) k raw)) (\<lambda>len. Inr (slice (k - 4) (k - 4 + unat len) raw, 244))
                      else Inr (raw, 0)
                  | None \<Rightarrow> Inr (raw, 0)))
       (\<lambda>(blob, code_off).
         let num = (if 0 < code_off then (length blob - 4 - code_off) div 4 else length blob div 4) in
         seqE (map (\<lambda>i. unpack_be32 (slice (code_off + i * 4) (code_off + i * 4 + 4) blob)) [0..<min num 12851]))"

fun popcount_aux :: "nat \<Rightarrow> u32 \<Rightarrow> nat" where
  "popcount_aux 0 x = 0"
| "popcount_aux (Suc n) x = (if bit x n then 1 else 0) + popcount_aux n x"

definition popcount :: "u32 \<Rightarrow> nat" where "popcount x = popcount_aux 32 x"

text \<open>\<^verbatim>\<open>bitrange\<close>: Python refuses a negative shift count.\<close>

definition bitrange :: "u32 \<Rightarrow> int \<Rightarrow> int \<Rightarrow> nat res" where
  "bitrange w hi lo =
     (if lo < 0 \<or> hi - lo + 1 < 0 then Inl (ValueError ''negative shift count'')
      else Inr ((unat w div 2 ^ nat lo) mod 2 ^ nat (hi - lo + 1)))"

definition sx :: "nat \<Rightarrow> nat \<Rightarrow> int" where
  "sx val bits = (let sign_bit = 2 ^ (bits - 1) in int (val AND (sign_bit - 1)) - int (val AND sign_bit))"

record field =
  f_bits :: string
  f_kind :: string
  f_label :: string

text \<open>\<^verbatim>\<open>s.split("..")\<close>.\<close>

fun split_dots :: "string \<Rightarrow> string \<Rightarrow> string list" where
  "split_dots acc [] = [rev acc]"
| "split_dots acc [c] = [rev (c # acc)]"
| "split_dots acc (c # d # cs) =
     (if c = CHR ''.'' \<and> d = CHR ''.'' then rev acc # split_dots [] cs else split_dots (c # acc) (d # cs))"

definition field_name :: "field \<Rightarrow> string" where
  "field_name f = strip (hd (split_on CHR '':'' (f_label f)))"

definition field_bits :: "field \<Rightarrow> (int \<times> int) res" where
  "field_bits f =
     (if contains ''..'' (f_bits f)
      then bindE (seqE (map (py_int 10) (split_dots [] (f_bits f)))) (\<lambda>xs.
             case xs of [hi, lo] \<Rightarrow> Inr (hi, lo) | _ \<Rightarrow> Inl (ValueError ''unpack''))
      else bindE (py_int 10 (f_bits f)) (\<lambda>x. Inr (x, x)))"

text \<open>Storing a key again keeps its position in the dictionary.\<close>

definition extract_field :: "u32 \<Rightarrow> field \<Rightarrow> (string \<times> nat) list \<Rightarrow> (string \<times> nat) list res" where
  "extract_field w f out =
     (if f_kind f = ''fixed'' then Inr out
      else bindE (field_bits f) (\<lambda>(hi, lo). bindE (bitrange w hi lo) (\<lambda>v.
        Inr (AList.update (field_name f) v out))))"

definition extract_fields :: "u32 \<Rightarrow> field list \<Rightarrow> (string \<times> nat) list res" where
  "extract_fields w fs = foldE (extract_field w) fs []"

definition format_register :: "nat \<Rightarrow> string" where
  "format_register r = (if r = 26 then ''r26/*IC*/'' else if r = 28 then ''r28/*FRAME*/''
     else if r = 30 then ''r30/*LR*/'' else if r = 31 then ''r31/*COND*/'' else ''r'' @ nat_str r)"

definition ic_map :: "(nat \<times> string) list" where
  "ic_map =
     [(0x00, ''FD_STATUS''), (0x04, ''FD_LENGTH''), (0x08, ''AD_BASE''), (0x0C, ''FLOW_HASH''),
      (0x10, ''ICAD_OP_MODE''), (0x14, ''ICAD_STATUS''), (0x18, ''CCBASE''), (0x1C, ''KS_HPNIA''),
      (0x20, ''PR_LPID_SHIMR''), (0x22, ''PR_L2R''), (0x24, ''PR_L3R''), (0x26, ''PR_L4R''),
      (0x28, ''PR_CPLAN_NXTHDR''), (0x2A, ''PR_CKSUM''), (0x2C, ''PR_FLAGS_FRAG_OFF''),
      (0x2E, ''PR_ROUTE_TYPE''), (0x30, ''PR_SHIM_OFF''), (0x32, ''PR_IP_PID_OFF''),
      (0x33, ''PR_ETH_OFF''), (0x34, ''PR_LLC_SNAP_OFF''), (0x35, ''PR_VLAN_OFF''),
      (0x37, ''PR_ETYPE_OFF''), (0x38, ''PR_PPPOE_OFF''), (0x39, ''PR_MPLS_OFF''), (0x3B, ''PR_IP_OFF''),
      (0x3D, ''PR_GRE_OFF''), (0x3E, ''PR_L4_OFF''), (0x3F, ''PR_NXTHDR_OFF''), (0x40, ''TIMESTAMP_HI''),
      (0x44, ''TIMESTAMP_LO''), (0x48, ''KG_HASH_HI''), (0x4C, ''KG_HASH_LO''), (0x50, ''KG_KEY_START''),
      (0x90, ''DEBUG_WORKSPACE''), (0xB8, ''MGMT_INDEX''), (0xC0, ''TASK_FLAGS''), (0xC4, ''CURRENT_NIA''),
      (0xD4, ''ENQ_DESCRIPTOR_SCRATCH'')]"

definition resolve_symbol :: "nat \<Rightarrow> nat option \<Rightarrow> string" where
  "resolve_symbol addr base =
     (if base = Some 26 \<or> (0xD000 \<le> addr \<and> addr \<le> 0xD0FF) then
        (let off = addr AND 0xFF in
         case map_of ic_map off of
           Some nm \<Rightarrow> ''IC.'' @ nm @ ''[0x'' @ hex_fmt 2 off @ '']''
         | None \<Rightarrow> ''IC+0x'' @ hex_fmt 2 off)
      else if 0x0300 \<le> addr \<and> addr \<le> 0x4B00 then
        ''MURAM[tnum'' @ nat_str ((addr - 0x0300) div 0x0800) @ ''+0x'' @ hex_fmt 3 ((addr - 0x0300) mod 0x0800) @ '']''
      else if 0xF800 \<le> addr \<and> addr \<le> 0xFC00 then ''FM_CTL_REG[0x'' @ hex_fmt 4 addr @ '']''
      else if addr \<in> {0x8000, 0x8040, 0x8050} then ''AD_BASE_WIN[0x'' @ hex_fmt 4 addr @ '']''
      else ''0x'' @ hex_fmt 4 addr)"

text \<open>An entry of the instruction table (the fields of \<^verbatim>\<open>load_table\<close>'s dictionaries).\<close>

record inst =
  i_mn :: string
  i_val :: u32
  i_mask :: u32
  i_fields :: "field list"
  i_delay :: bool

datatype target_type = Relative | Vector

record dword =
  w_idx :: nat
  w_word :: u32
  w_fields :: "(string \<times> nat) list"
  w_mn :: string
  w_delay :: bool
  w_target :: "nat option"
  w_ttype :: "target_type option"
  w_ops :: string
  w_notes :: "string list"

text \<open>One field of \<^verbatim>\<open>_process_operands\<close>: the operand text, and the target it sets.\<close>

definition branch_target :: "nat \<Rightarrow> nat \<Rightarrow> nat" where
  "branch_target idx v = nat ((int idx + (if 0x3FFF < v then sx v 16 else sx v 14)) mod 0x4000)"

definition operand :: "nat \<Rightarrow> string \<times> nat \<Rightarrow> string \<times> nat option" where
  "operand idx = (\<lambda>(k, v).
     if contains ''target'' k then
       (''w'' @ nat_str (branch_target idx v) @ '' (disp='' @
          signed_str (if 0x3FFF < v then sx v 16 else sx v 14) @ '')'', Some (branch_target idx v))
     else if contains ''register'' k \<or> contains ''operand_20_16'' k \<or> contains ''destination'' k \<or>
             contains ''source'' k \<or> contains ''lhs'' k then (format_register v, None)
     else if contains ''address_operand'' k \<or> contains ''muram'' k \<or> contains ''offset'' k
       then (k @ ''='' @ resolve_symbol v None, None)
     else if contains ''immediate'' k then (''0x'' @ hex_str v, None)
     else (k @ ''=0x'' @ hex_str v, None))"

definition last_target :: "(string \<times> nat option) list \<Rightarrow> nat option" where
  "last_target ops = fold (\<lambda>(_, t) acc. case t of Some x \<Rightarrow> Some x | None \<Rightarrow> acc) ops None"

definition process_operands :: "dword \<Rightarrow> dword" where
  "process_operands d =
     (let d' = (if w_idx d < 48 \<and> w_mn d = ''xfer14'' then
                  (let off = lo16 (w_word d) in
                   d \<lparr> w_target := Some (48 + off), w_ttype := Some Vector,
                       w_ops := ''w'' @ nat_str (48 + off) @ '' (vector=48+'' @ nat_str off @ '')'' \<rparr>)
                else
                  (let ops = map (operand (w_idx d)) (w_fields d); t = last_target ops in
                   d \<lparr> w_target := t, w_ttype := map_option (\<lambda>_. Relative) t, w_ops := join '', '' (map fst ops) \<rparr>))
      in if w_delay d' then d' \<lparr> w_notes := w_notes d' @ [''[DELAY_SLOT]''] \<rparr> else d')"

definition mk_dword :: "nat \<Rightarrow> u32 \<Rightarrow> inst option \<Rightarrow> (string \<times> nat) list \<Rightarrow> dword" where
  "mk_dword idx w entry fs =
     (let d = \<lparr> w_idx = idx, w_word = w, w_fields = fs,
                w_mn = (case entry of Some e \<Rightarrow> i_mn e | None \<Rightarrow> ''-- no match --''),
                w_delay = (case entry of Some e \<Rightarrow> i_delay e | None \<Rightarrow> False),
                w_target = None, w_ttype = None, w_ops = [], w_notes = [] \<rparr>
      in if entry = None then d else process_operands d)"

text \<open>The first entry of largest mask weight among those that match: the sort is stable.\<close>

definition matches :: "u32 \<Rightarrow> inst list \<Rightarrow> inst list" where
  "matches w tbl = sort_key (\<lambda>e. - int (popcount (i_mask e))) (filter (\<lambda>e. w AND i_mask e = i_val e) tbl)"

definition disassemble_word :: "inst list \<Rightarrow> nat \<times> u32 \<Rightarrow> dword res" where
  "disassemble_word tbl = (\<lambda>(i, w).
     case matches w tbl of
       e # _ \<Rightarrow> bindE (extract_fields w (i_fields e)) (\<lambda>fv. Inr (mk_dword i w (Some e) fv))
     | [] \<Rightarrow> Inr (let d = mk_dword i w None [] in
                  if i = 1 \<and> w = 0x00D20A01 then d \<lparr> w_mn := ''DATA_VERSION'', w_ops := ''v210.10.1'' \<rparr> else d))"

definition disassemble_all :: "u32 list \<Rightarrow> inst list \<Rightarrow> dword list res" where
  "disassemble_all ws tbl = seqE (map (disassemble_word tbl) (enumerate 0 ws))"

section \<open>The control-flow graph\<close>

definition slot_words :: "nat list" where
  "slot_words = [0, 2, 4, 6, 8, 10, 12, 14, 16, 18, 22, 24, 26, 30, 32, 34, 36, 38, 40, 42, 44]"

definition word_leaders :: "nat \<Rightarrow> dword \<Rightarrow> nat list" where
  "word_leaders n d =
     (case w_target d of Some t \<Rightarrow> if t < n then [t] else [] | None \<Rightarrow> []) @
     (if w_delay d then [w_idx d + 2]
      else if contains ''xfer'' (w_mn d) \<or> contains ''ret'' (w_mn d) \<or> contains ''jmp'' (w_mn d)
      then [w_idx d + 1] else [])"

definition leaders :: "dword list \<Rightarrow> nat list" where
  "leaders ds = sort (remdups (0 # slot_words @ concat (map (word_leaders (length ds)) ds)))"

record bblock =
  g_id :: nat
  g_start :: nat
  g_end :: nat
  g_succ :: "nat list"

definition nth_block :: "nat \<Rightarrow> nat list \<Rightarrow> nat \<Rightarrow> bblock" where
  "nth_block n ls k =
     \<lparr> g_id = k, g_start = ls ! k,
       g_end = min (if k + 1 < length ls then ls ! (k + 1) - 1 else n - 1) (n - 1), g_succ = [] \<rparr>"

definition raw_block :: "nat \<Rightarrow> nat list \<Rightarrow> nat \<Rightarrow> bblock list" where
  "raw_block n ls k = (if n \<le> ls ! k then [] else [nth_block n ls k])"

definition raw_blocks :: "nat \<Rightarrow> nat list \<Rightarrow> bblock list" where
  "raw_blocks n ls = concat (map (raw_block n ls) [0..<length ls])"

definition block_of :: "bblock list \<Rightarrow> nat \<Rightarrow> nat option" where
  "block_of bs w = fold (\<lambda>b acc. if g_start b \<le> w \<and> w \<le> g_end b then Some (g_id b) else acc) bs None"

definition ends_with :: "string \<Rightarrow> string \<Rightarrow> bool" where
  "ends_with s p = starts_with (rev p) (rev s)"

definition successors :: "dword list \<Rightarrow> bblock list \<Rightarrow> bblock \<Rightarrow> nat list" where
  "successors ds bs b =
     (let d = ds ! g_end b;
          s1 = (case w_target d of Some t \<Rightarrow> (case block_of bs t of Some k \<Rightarrow> [k] | None \<Rightarrow> []) | None \<Rightarrow> []);
          falls = (\<not> (contains ''ret'' (w_mn d) \<or>
                      (startswith (w_mn d) ''xfer'' \<and> \<not> ends_with (w_mn d) ''.comp'')))
      in if falls then (case block_of bs (g_end b + 1) of
           Some k \<Rightarrow> if k \<in> set s1 then s1 else s1 @ [k] | None \<Rightarrow> s1) else s1)"

definition build_cfg :: "dword list \<Rightarrow> bblock list" where
  "build_cfg ds =
     (let bs = raw_blocks (length ds) (leaders ds)
      in map (\<lambda>b. b \<lparr> g_succ := successors ds bs b \<rparr>) bs)"

section \<open>Sign extension and branch targets\<close>

lemma and_power2_nat: "(v :: nat) AND 2 ^ n = (if bit v n then 2 ^ n else 0)"
  by (auto intro!: bit_eqI simp: bit_and_iff bit_exp_iff)

lemma sx_signed: "0 < bits \<Longrightarrow> sx val bits = signed_take_bit (bits - 1) (int val)"
proof -
  assume "0 < bits"
  then obtain n where n: "bits = Suc n" by (cases bits) auto
  have "val AND (2 ^ n - 1) = take_bit n val" by (simp add: take_bit_eq_mask mask_eq_exp_minus_1)
  then have "sx val bits = take_bit n (int val) - (if bit (int val) n then 2 ^ n else 0)"
    by (simp add: sx_def n Let_def and_power2_nat of_nat_take_bit bit_of_nat_iff)
  also have "\<dots> = signed_take_bit n (int val)"
    by (simp add: signed_take_bit_eq_take_bit_minus take_bit_Suc_from_most)
  finally show ?thesis by (simp add: n)
qed

lemma sx_bounds: "0 < bits \<Longrightarrow> - (2 ^ (bits - 1)) \<le> sx val bits \<and> sx val bits < 2 ^ (bits - 1)"
  by (simp add: sx_signed signed_take_bit_int_greater_eq_minus_exp signed_take_bit_int_less_exp)

lemma sx_cong: "0 < bits \<Longrightarrow> sx val bits mod 2 ^ bits = int val mod 2 ^ bits"
proof -
  assume b: "0 < bits"
  then have "take_bit bits (signed_take_bit (bits - 1) (int val)) = take_bit bits (int val)"
    by (simp add: take_bit_signed_take_bit)
  with b show ?thesis by (simp add: sx_signed take_bit_eq_mod)
qed

lemma lo16_bound: "lo16 w < 0x10000"
proof -
  have "w AND 0xFFFF = take_bit 16 w" by (simp add: take_bit_eq_mask mask_eq_exp_minus_1)
  then show ?thesis using take_bit_nat_less_exp [of 16 "unat w"]
    by (simp add: lo16_def unsigned_take_bit_eq)
qed

lemma bit15_nat: "v < 0x10000 \<Longrightarrow> bit (v :: nat) 15 \<longleftrightarrow> 0x8000 \<le> v"
proof (cases "v < 0x8000")
  case True
  then show ?thesis by (simp add: bit_iff_odd)
next
  case False
  assume "v < 0x10000"
  with False have "v div 0x8000 = 1" by (intro div_nat_eqI) auto
  with False show ?thesis by (simp add: bit_iff_odd)
qed

lemma sx16_sext: "sx16 (lo16 w) = sext16 (int (lo16 w))"
  using and_power2_nat [of "lo16 w" 15] bit15_nat [OF lo16_bound [of w]] by (simp add: sx16_def sext16_def)

lemma branch_target_bound: "branch_target idx v < 0x4000"
  by (simp add: branch_target_def nat_less_iff)

section \<open>Selecting the instruction\<close>

lemma matches_best:
  assumes "matches w tbl = e # rest"
  shows "e \<in> set tbl \<and> w AND i_mask e = i_val e \<and>
    (\<forall>e' \<in> set tbl. w AND i_mask e' = i_val e' \<longrightarrow> popcount (i_mask e') \<le> popcount (i_mask e))"
proof -
  let ?k = "\<lambda>e. - int (popcount (i_mask e))"
  have s: "sorted (map ?k (matches w tbl))" by (simp add: matches_def)
  have m: "set (matches w tbl) = {e \<in> set tbl. w AND i_mask e = i_val e}" by (simp add: matches_def)
  have "?k e \<le> ?k e'" if "e' \<in> set (matches w tbl)" for e' using s that unfolding assms by auto
  then show ?thesis using m assms by fastforce
qed

lemma matches_none: "matches w tbl = [] \<longleftrightarrow> (\<forall>e \<in> set tbl. w AND i_mask e \<noteq> i_val e)"
proof -
  have "set (matches w tbl) = {e \<in> set tbl. w AND i_mask e = i_val e}" by (simp add: matches_def)
  then show ?thesis by (cases "matches w tbl") auto
qed

section \<open>The blocks of the graph\<close>

lemma raw_blocks_mem:
  "b \<in> set (raw_blocks n ls) \<longleftrightarrow> (\<exists>k < length ls. ls ! k < n \<and> b = nth_block n ls k)"
  by (auto simp: raw_blocks_def raw_block_def split: if_splits)

lemma nth_block_sel [simp]:
  "g_id (nth_block n ls k) = k" "g_start (nth_block n ls k) = ls ! k"
  "g_end (nth_block n ls k) = min (if k + 1 < length ls then ls ! (k + 1) - 1 else n - 1) (n - 1)"
  by (simp_all add: nth_block_def)

lemma strict_nth: "sorted ls \<Longrightarrow> distinct ls \<Longrightarrow> i < j \<Longrightarrow> j < length ls \<Longrightarrow> ls ! i < ls ! (j :: nat)"
  using sorted_nth_mono [of ls i j] nth_eq_iff_index_eq [of ls i j] by (simp add: le_neq_implies_less)

lemma leader_starts_block:
  assumes "sorted ls" "distinct ls" "s \<in> set ls" "b \<in> set (raw_blocks n ls)" "g_start b \<le> s" "s \<le> g_end b"
  shows "s = g_start b"
proof -
  from assms(4) obtain k where k: "k < length ls" "ls ! k < n"
    "g_start b = ls ! k" "g_end b = min (if k + 1 < length ls then ls ! (k + 1) - 1 else n - 1) (n - 1)"
    by (auto simp: raw_blocks_mem)
  from assms(3) obtain j where j: "j < length ls" "s = ls ! j" by (auto simp: in_set_conv_nth)
  have "\<not> k < j"
  proof
    assume "k < j"
    then have "k + 1 < length ls" and "ls ! (k + 1) \<le> s"
      using j assms(1) by (auto intro: sorted_nth_mono)
    moreover have "ls ! k < ls ! (k + 1)" using strict_nth [OF assms(1,2)] calculation(1) by simp
    ultimately show False using assms(6) k(4) by auto
  qed
  then have "s \<le> ls ! k" using j k(1) assms(1) by (auto intro: sorted_nth_mono)
  with assms(5) k(3) show ?thesis by simp
qed

lemma raw_blocks_cover:
  assumes "sorted ls" "distinct ls" "0 \<in> set ls" "w < n"
  shows "\<exists>!b. b \<in> set (raw_blocks n ls) \<and> g_start b \<le> w \<and> w \<le> g_end b"
proof (rule ex_ex1I)
  define K where "K = {k. k < length ls \<and> ls ! k \<le> w}"
  from assms(3) obtain k0 where "k0 < length ls" "ls ! k0 = 0" by (auto simp: in_set_conv_nth)
  then have "K \<noteq> {}" and fin: "finite K" by (auto simp: K_def)
  then have "Max K \<in> K" by simp
  then have k: "Max K < length ls" "ls ! Max K \<le> w" by (auto simp: K_def)
  have "w \<le> ls ! (Max K + 1) - 1" if "Max K + 1 < length ls"
  proof (rule ccontr)
    assume "\<not> w \<le> ls ! (Max K + 1) - 1"
    then have "Max K + 1 \<in> K" using that by (auto simp: K_def)
    with fin have "Max K + 1 \<le> Max K" by (rule Max_ge)
    then show False by simp
  qed
  then show "\<exists>b. b \<in> set (raw_blocks n ls) \<and> g_start b \<le> w \<and> w \<le> g_end b"
    using k assms(4)
    by (intro exI [of _ "nth_block n ls (Max K)"]) (auto simp: raw_blocks_mem simp del: One_nat_def)
next
  fix a b
  assume a: "a \<in> set (raw_blocks n ls) \<and> g_start a \<le> w \<and> w \<le> g_end a"
    and b: "b \<in> set (raw_blocks n ls) \<and> g_start b \<le> w \<and> w \<le> g_end b"
  have start: "g_start c \<in> set ls" if "c \<in> set (raw_blocks n ls)" for c
    using that by (auto simp: raw_blocks_mem)
  have "g_start a = g_start b"
  proof (cases "g_start a \<le> g_start b")
    case True
    then show ?thesis
      using leader_starts_block [OF assms(1,2), of "g_start b" a n] start [of b] a b by linarith
  next
    case False
    then show ?thesis
      using leader_starts_block [OF assms(1,2), of "g_start a" b n] start [of a] a b by linarith
  qed
  moreover obtain i j where "i < length ls" "a = nth_block n ls i" "j < length ls" "b = nth_block n ls j"
    using a b by (auto simp: raw_blocks_mem)
  ultimately show "a = b" using assms(2) by (simp add: nth_eq_iff_index_eq)
qed

lemma block_of_sound: "block_of bs w = Some k \<Longrightarrow> \<exists>b \<in> set bs. g_start b \<le> w \<and> w \<le> g_end b \<and> g_id b = k"
  unfolding block_of_def
  by (induction bs rule: rev_induct) (auto split: if_splits)

lemma leaders_facts:
  "sorted (leaders ds)" "distinct (leaders ds)" "0 \<in> set (leaders ds)"
  "d \<in> set ds \<Longrightarrow> w_target d = Some t \<Longrightarrow> t < length ds \<Longrightarrow> t \<in> set (leaders ds)"
  by (force simp: leaders_def word_leaders_def)+

lemma successors_cases:
  assumes "k \<in> set (successors ds bs b)"
  shows "(\<exists>t. w_target (ds ! g_end b) = Some t \<and> block_of bs t = Some k) \<or> block_of bs (g_end b + 1) = Some k"
proof -
  define s1 where "s1 = (case w_target (ds ! g_end b) of
      Some t \<Rightarrow> (case block_of bs t of Some k \<Rightarrow> [k] | None \<Rightarrow> []) | None \<Rightarrow> [])"
  have "k \<in> set s1 \<or> block_of bs (g_end b + 1) = Some k"
    using assms unfolding successors_def Let_def s1_def [symmetric]
    by (cases "block_of bs (g_end b + 1)") (auto simp only: option.case split: if_split_asm, auto)
  then show ?thesis
    by (cases "w_target (ds ! g_end b)") (auto simp: s1_def split: option.splits)
qed

lemma successors_sound:
  assumes "b \<in> set (raw_blocks (length ds) (leaders ds))"
    and "k \<in> set (successors ds (raw_blocks (length ds) (leaders ds)) b)"
  shows "\<exists>b' \<in> set (raw_blocks (length ds) (leaders ds)). g_id b' = k \<and>
    (g_start b' = g_end b + 1 \<or> w_target (ds ! g_end b) = Some (g_start b'))"
proof -
  let ?bs = "raw_blocks (length ds) (leaders ds)"
  have last: "g_end c < length ds" if "c \<in> set ?bs" for c
    using that by (auto simp: raw_blocks_mem)
  note L = leaders_facts [where ds = ds]
  from assms(2) consider (target) t where "w_target (ds ! g_end b) = Some t" "block_of ?bs t = Some k"
    | (fall) "block_of ?bs (g_end b + 1) = Some k"
    using successors_cases by blast
  then show ?thesis
  proof cases
    case target
    from block_of_sound [OF target(2)] obtain b' where
      b': "b' \<in> set ?bs" "g_start b' \<le> t" "t \<le> g_end b'" "g_id b' = k" by blast
    have "t < length ds" using last [OF b'(1)] b'(3) by simp
    then have "t \<in> set (leaders ds)" using L(4) target(1) last [OF assms(1)] nth_mem by blast
    then have "t = g_start b'" using leader_starts_block [OF L(1,2) _ b'(1-3)] by simp
    with b' target(1) show ?thesis by auto
  next
    case fall
    from block_of_sound [OF fall] obtain b' where
      b': "b' \<in> set ?bs" "g_start b' \<le> g_end b + 1" "g_end b + 1 \<le> g_end b'" "g_id b' = k" by blast
    have "g_end b + 1 < length ds" using last [OF b'(1)] b'(3) by simp
    moreover from assms(1) obtain j where j: "j < length (leaders ds)" "b = nth_block (length ds) (leaders ds) j"
      by (auto simp: raw_blocks_mem)
    ultimately have "j + 1 < length (leaders ds)" by (auto split: if_splits)
    moreover from this have "leaders ds ! j < leaders ds ! (j + 1)" by (intro strict_nth [OF L(1,2)]) auto
    ultimately have "g_end b + 1 = leaders ds ! (j + 1)" using j \<open>g_end b + 1 < length ds\<close> by auto
    then have "g_end b + 1 \<in> set (leaders ds)" using \<open>j + 1 < length (leaders ds)\<close> by simp
    then have "g_end b + 1 = g_start b'" using leader_starts_block [OF L(1,2) _ b'(1-3)] by simp
    with b' show ?thesis by auto
  qed
qed

section \<open>Properties\<close>

text \<open>The control-flow graph of the full disassembler covers every word of the code by exactly
  one block, and each successor of a block is the block that starts right after it or at the
  target of its last instruction.\<close>

lemma cfg_covers_code:
  assumes "bs = build_cfg ds"
  shows "(\<forall>w < length ds. \<exists>!b. b \<in> set (raw_blocks (length ds) (leaders ds)) \<and> g_start b \<le> w \<and> w \<le> g_end b) \<and>
    map g_start bs = map g_start (raw_blocks (length ds) (leaders ds)) \<and>
    map g_end bs = map g_end (raw_blocks (length ds) (leaders ds)) \<and>
    (\<forall>b \<in> set bs. \<forall>k \<in> set (g_succ b). \<exists>b' \<in> set bs. g_id b' = k \<and>
       (g_start b' = g_end b + 1 \<or> w_target (ds ! g_end b) = Some (g_start b')))"
proof -
  let ?rs = "raw_blocks (length ds) (leaders ds)"
  have bs: "bs = map (\<lambda>b. b \<lparr> g_succ := successors ds ?rs b \<rparr>) ?rs"
    by (simp add: assms build_cfg_def Let_def)
  have "\<exists>b' \<in> set bs. g_id b' = k \<and> (g_start b' = g_end b + 1 \<or> w_target (ds ! g_end b) = Some (g_start b'))"
    if "b \<in> set bs" "k \<in> set (g_succ b)" for b k
  proof -
    from that(1) obtain r where r: "r \<in> set ?rs" "b = r \<lparr> g_succ := successors ds ?rs r \<rparr>" by (auto simp: bs)
    with that(2) have "k \<in> set (successors ds ?rs r)" by simp
    from successors_sound [OF r(1) this] show ?thesis by (auto simp: bs r(2))
  qed
  moreover have "map g_start bs = map g_start ?rs" "map g_end bs = map g_end ?rs" by (simp_all add: bs)
  ultimately show ?thesis using raw_blocks_cover [OF leaders_facts(1-3) [of ds]] by blast
qed

lemma cfg_covers_code_witness:
  "\<exists>!b. b \<in> set (raw_blocks 1 (leaders [mk_dword 0 7 None []])) \<and> g_start b \<le> 0 \<and> 0 \<le> g_end b"
  using cfg_covers_code [OF refl, of "[mk_dword 0 7 None []]"] by simp

text \<open>Each word is disassembled with a table entry that matches it and has the largest mask
  among the entries that match, and is left unmatched exactly when no entry matches; a
  displacement field is sign-extended into the range of its width without changing its value
  modulo that width; and a relative target stays below 0x4000.\<close>

lemma disassembly_sound:
  "(case matches w tbl of
      [] \<Rightarrow> (\<forall>e \<in> set tbl. w AND i_mask e \<noteq> i_val e)
    | e # _ \<Rightarrow> e \<in> set tbl \<and> w AND i_mask e = i_val e \<and>
        (\<forall>e' \<in> set tbl. w AND i_mask e' = i_val e' \<longrightarrow> popcount (i_mask e') \<le> popcount (i_mask e))) \<and>
   sx v (Suc n) mod 2 ^ Suc n = int v mod 2 ^ Suc n \<and> - (2 ^ n) \<le> sx v (Suc n) \<and> sx v (Suc n) < 2 ^ n \<and>
   branch_target idx v < 0x4000"
  using matches_none [of w tbl] matches_best [of w tbl] sx_cong [of "Suc n" v] sx_bounds [of "Suc n" v]
    branch_target_bound
  by (auto split: list.split)

lemma disassembly_sound_witness:
  "i_mn (hd (matches 0xB7FF0001 [\<lparr> i_mn = ''a'', i_val = 0xB7000000, i_mask = 0xFF000000, i_fields = [], i_delay = False \<rparr>,
     \<lparr> i_mn = ''b'', i_val = 0xB7FF0000, i_mask = 0xFFFF0000, i_fields = [], i_delay = False \<rparr>])) = ''b''"
proof -
  define A where "A = \<lparr> i_mn = ''a'', i_val = 0xB7000000, i_mask = 0xFF000000, i_fields = [], i_delay = False \<rparr>"
  define B where "B = \<lparr> i_mn = ''b'', i_val = 0xB7FF0000, i_mask = 0xFFFF0000, i_fields = [], i_delay = False \<rparr>"
  have p: "popcount 0xFF000000 = 8" "popcount 0xFFFF0000 = 16" by code_simp+
  have m: "0xB7FF0001 AND i_mask B = i_val B" by (simp add: B_def)
  have "matches 0xB7FF0001 [A, B] \<noteq> []" using m by (auto simp: matches_none)
  then obtain e r where e: "matches 0xB7FF0001 [A, B] = e # r" by (cases "matches 0xB7FF0001 [A, B]") auto
  have "e \<in> {A, B}" "popcount (i_mask B) \<le> popcount (i_mask e)"
    using disassembly_sound [where w = "0xB7FF0001" and tbl = "[A, B]"] m by (auto simp: e)
  then have "e = B" using p by (auto simp: A_def B_def)
  then show ?thesis using e by (simp add: A_def B_def)
qed

text \<open>The two decoders of the relative branches agree: for the prefixes of cfg-map.py,
  fman-disasm.py computes the same target, which cfg-map.py reports exactly when it lies in the
  code.  For the absolute prefix 0xb7ff they do not: fman-disasm.py adds the displacement to the
  word's own index where cfg-map.py counts it from word 48.\<close>

lemma branch_models_compared:
  "(hi16 w \<in> set rel_prefixes \<longrightarrow>
     (\<exists>t. snd (fd_decode w (int i)) = Some t \<and>
          branch_at n i w = Some (BRel, if 0 \<le> t \<and> t < int n then Some (nat t) else None))) \<and>
   (hi16 w = 0xB7FF \<longrightarrow>
     snd (fd_decode w (int i)) = Some (int i + sext16 (int (lo16 w))) \<and>
     branch_at n i w = Some (BAbs, if 48 + lo16 w < n then Some (48 + lo16 w) else None))"
proof -
  have "map_of branch16 p \<noteq> None" if "p \<in> set rel_prefixes" for p
    using that by (auto simp: rel_prefixes_def branch16_def)
  moreover have br: "snd (fd_decode w (int i)) = Some (int i + sext16 (int (lo16 w)))"
    if "map_of branch16 (hi16 w) = Some nm" for nm
    using that by (simp add: fd_decode_def sx16_sext Let_def)
  ultimately have "snd (fd_decode w (int i)) = Some (int i + sext16 (int (lo16 w)))" if "hi16 w \<in> set rel_prefixes"
    using that by blast
  moreover have "hi16 w \<in> set rel_prefixes \<Longrightarrow> hi16 w \<notin> set abs_prefixes"
    by (auto simp: rel_prefixes_def abs_prefixes_def)
  moreover have "map_of branch16 0xB7FF = Some ''br''" by (simp add: branch16_def)
  ultimately show ?thesis
    using br by (auto simp: branch_at_def Let_def abs_prefixes_def)
qed

lemma branch_models_compared_witness:
  "snd (fd_decode 0xB7FF0010 100) = Some 116 \<and> branch_at 200 100 0xB7FF0010 = Some (BAbs, Some 64)"
proof -
  have "hi16 0xB7FF0010 = 0xB7FF" "lo16 0xB7FF0010 = 16" by (simp_all add: hi16_def lo16_def)
  then show ?thesis using branch_models_compared [of "0xB7FF0010" 100 200] by (simp add: sext16_def)
qed

end
