(* ===== verification/Corpus.thy ===== *)
theory Corpus
  imports Disasm QefParse
begin

text \<open>
  The analysis part of \<^verbatim>\<open>decomp/tools/fman-corpus-diff.py\<close>: reading a blob, selecting
  instructions, the dispatch targets, and the islands of the 210 blob that the sequence matcher
  of the standard library (a parameter: its matching blocks) does not find in the 108 blob.  The
  Markdown report is left out.
\<close>

record corpus_blob =
  cb_path :: string
  cb_length :: nat
  cb_id :: "nat list"
  cb_version :: "byte list"
  cb_soc :: u16
  cb_wcount :: nat
  cb_code_off :: nat
  cb_trailer :: u32
  cb_words :: "u32 list"

text \<open>Fewer than three version bytes would fail in the version string.\<close>

definition cd_parse_blob :: "string \<Rightarrow> byte list \<Rightarrow> corpus_blob res" where
  "cd_parse_blob path raw =
     bindE (unpack_be32 (slice 0 4 raw)) (\<lambda>lenw.
       let len = unat lenw; blob = take len raw; d = slice 124 244 blob in
       bindE (unpack_words 3 (slice 100 112 d)) (\<lambda>f.
         let wcount = unat (f ! 1); code_off = unat (f ! 2); ver = slice 112 115 d in
         bindE (unpack_be16 (slice 72 74 blob)) (\<lambda>soc.
         bindE (unpack_be32 (slice (len - 4) len blob)) (\<lambda>trailer.
           let code = slice code_off (code_off + wcount * 4) blob in
           bindE (seqE (map (\<lambda>i. unpack_be32 (slice (i * 4) (i * 4 + 4) code)) [0..<wcount])) (\<lambda>words.
             if length ver < 3 then Inl IndexError
             else Inr \<lparr> cb_path = path, cb_length = len,
                        cb_id = ascii_replace (takeWhile (\<lambda>b. b \<noteq> 0) (slice 8 70 blob)),
                        cb_version = ver, cb_soc = soc, cb_wcount = wcount, cb_code_off = code_off,
                        cb_trailer = trailer, cb_words = words \<rparr>)))))"

definition disassemble_words :: "u32 list \<Rightarrow> inst list \<Rightarrow> (u32 \<times> string \<times> inst option) list" where
  "disassemble_words ws tbl =
     map (\<lambda>w. case matches w tbl of e # _ \<Rightarrow> (w, i_mn e, Some e) | [] \<Rightarrow> (w, ''unk'', None)) ws"

definition decode_slot :: "u32 list \<Rightarrow> nat \<Rightarrow> nat option res" where
  "decode_slot ws s =
     bindE (py_nth ws (int (s * 2))) (\<lambda>w. Inr (if hi16 w = 0xB7FF then Some (48 + lo16 w) else None))"

definition decode_dispatch :: "u32 list \<Rightarrow> nat option list res" where
  "decode_dispatch ws = seqE (map (decode_slot ws) [0..<24])"

text \<open>A matching block is (position in 108, position in 210, sz); short ones do not count.\<close>

definition mark_block :: "nat \<times> nat \<times> nat \<Rightarrow> bool list \<Rightarrow> bool list" where
  "mark_block = (\<lambda>(_, b, sz) ms.
     if 8 \<le> sz then fold (\<lambda>i ms. ms[i := True]) [b..<b + sz] ms else ms)"

definition matched_words :: "nat \<Rightarrow> (nat \<times> nat \<times> nat) list \<Rightarrow> bool list" where
  "matched_words n blocks = fold mark_block blocks (replicate n False)"

record island_state =
  is_islands :: "(nat \<times> nat) list"
  is_in :: bool
  is_start :: nat

definition island_step :: "nat \<times> bool \<Rightarrow> island_state \<Rightarrow> island_state" where
  "island_step = (\<lambda>(i, m) s.
     if \<not> m \<and> \<not> is_in s then s \<lparr> is_in := True, is_start := i \<rparr>
     else if m \<and> is_in s then
       (let s' = s \<lparr> is_in := False \<rparr> in
        if i - is_start s \<ge> 16 then s' \<lparr> is_islands := is_islands s @ [(is_start s, i - 1)] \<rparr> else s')
     else s)"

definition islands0 :: island_state where "islands0 = \<lparr> is_islands = [], is_in = False, is_start = 0 \<rparr>"

definition island_view :: "island_state \<Rightarrow> scan_state" where
  "island_view s = (is_islands s, if is_in s then Some (is_start s) else None)"

definition find_islands :: "bool list \<Rightarrow> (nat \<times> nat \<times> nat) list" where
  "find_islands ms =
     map (\<lambda>(s, e). (s, e, e + 1 - s))
       (with_tail 16 (length ms) (island_view (fold island_step (enumerate 0 ms) islands0)))"

definition analyze_islands :: "nat \<Rightarrow> (nat \<times> nat \<times> nat) list \<Rightarrow> (nat \<times> nat \<times> nat) list" where
  "analyze_islands n blocks = find_islands (matched_words n blocks)"

section \<open>The islands\<close>

interpretation island_scan: run_loop "\<lambda>i. \<not> ms ! i" 16 "length ms"
  "\<lambda>k. island_view (scan_upto island_step ms islands0 k)" for ms :: "bool list"
  by unfold_locales
     (auto simp: island_view_def islands0_def scan_upto_0 scan_upto_Suc island_step_def Let_def)

lemma mark_range_nth:
  "i < length ms \<Longrightarrow> fold (\<lambda>i ms. ms[i := True]) [b..<b + sz] ms ! i = (ms ! i \<or> (b \<le> i \<and> i < b + sz))"
proof (induction sz)
  case (Suc sz)
  have "length (fold (\<lambda>i ms. ms[i := True]) is ms) = length ms" for "is" and ms :: "bool list"
    by (induction "is" arbitrary: ms) auto
  with Suc show ?case by (cases "i = b + sz") (auto simp: less_Suc_eq)
qed auto

lemma mark_block_length [simp]: "length (mark_block b ms) = length ms"
proof -
  have "length (fold (\<lambda>i ms. ms[i := True]) is ms) = length ms" for "is" and ms :: "bool list"
    by (induction "is" arbitrary: ms) auto
  then show ?thesis by (cases b) (simp add: mark_block_def)
qed

lemma mark_block_nth:
  "i < length ms \<Longrightarrow> mark_block (a, b, sz) ms ! i = (ms ! i \<or> (8 \<le> sz \<and> b \<le> i \<and> i < b + sz))"
  by (auto simp: mark_block_def mark_range_nth)

lemma fold_mark_nth:
  "i < length ms \<Longrightarrow> fold mark_block blocks ms ! i
     = (ms ! i \<or> (\<exists>(a, b, sz) \<in> set blocks. 8 \<le> sz \<and> b \<le> i \<and> i < b + sz))"
proof (induction blocks arbitrary: ms)
  case (Cons blk blocks)
  obtain a b sz where blk: "blk = (a, b, sz)" by (metis prod_cases3)
  show ?case using Cons.IH [of "mark_block blk ms"] Cons.prems by (auto simp: blk mark_block_nth)
qed simp

lemma matched_words_facts:
  "length (matched_words n blocks) = n"
  "i < n \<Longrightarrow> matched_words n blocks ! i \<longleftrightarrow> (\<exists>(a, b, sz) \<in> set blocks. 8 \<le> sz \<and> b \<le> i \<and> i < b + sz)"
proof -
  have "length (fold mark_block bs ms) = length ms" for bs ms
    by (induction bs arbitrary: ms) auto
  then show "length (matched_words n blocks) = n" by (simp add: matched_words_def)
qed (simp add: matched_words_def fold_mark_nth)

lemma islands_set:
  "(\<lambda>(s, e, _). (s, e)) ` set (find_islands ms) = {r. maximal_run (\<lambda>i. \<not> ms ! i) 16 (length ms) r}"
proof -
  have "(\<lambda>(s, e, _). (s, e)) ` set (find_islands ms)
      = set (with_tail 16 (length ms) (island_view (fold island_step (enumerate 0 ms) islands0)))"
    by (auto simp: find_islands_def image_image case_prod_beta)
  then show ?thesis using island_scan.scan_with_tail [of ms] by (simp only: with_tail_set scan_upto_all)
qed

section \<open>Properties\<close>

text \<open>The islands reported for the 210 blob are exactly the maximal stretches of at least 16
  words that no matching block of at least 8 words covers.\<close>

lemma islands_exact:
  "(\<lambda>(s, e, _). (s, e)) ` set (analyze_islands n blocks) =
     {r. maximal_run (\<lambda>i. \<not> (\<exists>(a, b, sz) \<in> set blocks. 8 \<le> sz \<and> b \<le> i \<and> i < b + sz)) 16 n r}"
proof -
  have "maximal_run (\<lambda>i. \<not> matched_words n blocks ! i) 16 n r
      = maximal_run (\<lambda>i. \<not> (\<exists>(a, b, sz) \<in> set blocks. 8 \<le> sz \<and> b \<le> i \<and> i < b + sz)) 16 n r" for r
    by (rule maximal_run_cong) (simp add: matched_words_facts)
  then show ?thesis
    unfolding analyze_islands_def islands_set matched_words_facts(1) by (intro Collect_cong)
qed

end
