(* ===== verification/Walker.thy ===== *)
theory Walker
  imports Prelude
begin

text \<open>
  \<^verbatim>\<open>decomp/tools/trace-island1-walker.py\<close>: the emulator of the classifier's table walk
  (words 1609 to 1650 of the microcode).  The three memories are byte lists and keep Python's
  slice semantics, so an assignment of a shorter slice shrinks the memory.  The trace log is left
  out.
\<close>

section \<open>The emulator\<close>

record emu =
  e_regs :: "nat list"
  e_ic :: "byte list"
  e_ws :: "byte list"
  e_muram :: "byte list"

definition new_emu :: emu where
  "new_emu = \<lparr> e_regs = (replicate 32 0)[26 := 0xd000], e_ic = replicate 0x100 0,
               e_ws = replicate 0x1000 0, e_muram = replicate 0x10000 0 \<rparr>"

definition set_reg :: "nat \<Rightarrow> nat \<Rightarrow> emu \<Rightarrow> emu" where
  "set_reg r v e = e \<lparr> e_regs := (e_regs e)[r := v] \<rparr>"

definition read_ic_b :: "nat \<Rightarrow> emu \<Rightarrow> byte res" where
  "read_ic_b off e = py_nth (e_ic e) (int off)"

definition write_ic_b :: "nat \<Rightarrow> nat \<Rightarrow> emu \<Rightarrow> emu res" where
  "write_ic_b off v e =
     (if off < length (e_ic e) then Inr (e \<lparr> e_ic := (e_ic e)[off := of_nat v] \<rparr>) else Inl IndexError)"

definition read_ic_w :: "nat \<Rightarrow> emu \<Rightarrow> u32 res" where
  "read_ic_w off e = unpack_be32 (slice off (off + 4) (e_ic e))"

definition write_ic_w :: "nat \<Rightarrow> nat \<Rightarrow> emu \<Rightarrow> emu" where
  "write_ic_w off v e = e \<lparr> e_ic := slice_assign off (off + 4) (pack_be32 (of_nat v)) (e_ic e) \<rparr>"

definition load_packet_key :: "byte list \<Rightarrow> nat \<Rightarrow> emu \<Rightarrow> emu res" where
  "load_packet_key key ks e =
     (if \<not> length key \<le> 56 then Inl (RuntimeError ''AssertionError'')
      else bindE (write_ic_b 0x1c ks e) (\<lambda>e.
        Inr (e \<lparr> e_ic := slice_assign 0x50 (0x50 + length key) key (e_ic e) \<rparr>)))"

definition table_page :: "u32 \<Rightarrow> byte list \<Rightarrow> byte list \<Rightarrow> byte list" where
  "table_page w0 key rmask =
     slice_assign 24 40 rmask (slice_assign 8 24 key (slice_assign 4 8 (pack_be32 0)
       (slice_assign 0 4 (pack_be32 w0) (replicate 256 0))))"

definition load_muram_table :: "nat \<Rightarrow> u32 \<Rightarrow> byte list \<Rightarrow> byte list \<Rightarrow> emu \<Rightarrow> emu res" where
  "load_muram_table addr w0 key rmask e =
     (if length key \<noteq> 16 \<or> length rmask \<noteq> 16 then Inl (RuntimeError ''AssertionError'')
      else Inr (write_ic_w 0x18 addr
             (e \<lparr> e_muram := slice_assign addr (addr + 256) (table_page w0 key rmask) (e_muram e) \<rparr>)))"

datatype walk =
    NullTable
  | TerminalAd
  | NotContLookup
  | Compared bool nat nat "(nat \<times> byte \<times> byte \<times> byte) list" nat nat

text \<open>One position of the compare loop: the mismatches found there.\<close>

definition cmp_byte :: "byte list \<Rightarrow> byte list \<Rightarrow> byte list \<Rightarrow> nat \<Rightarrow> (nat \<times> byte \<times> byte \<times> byte) list res" where
  "cmp_byte pkt row msk i =
     bindE (py_nth pkt (int i)) (\<lambda>p. bindE (py_nth msk (int i)) (\<lambda>m. bindE (py_nth row (int i)) (\<lambda>r.
       Inr (if p AND m \<noteq> r AND m then [(i, p, r, m)] else []))))"

text \<open>The bitfield instruction in the descriptor model: the low byte enters the high byte.\<close>

definition descriptor :: "nat \<Rightarrow> nat \<Rightarrow> nat" where
  "descriptor len addr = push_bit 24 (len AND 0xff) OR (addr AND 0x00ffffff)"

definition run_compare :: "byte list \<Rightarrow> byte list \<Rightarrow> byte list \<Rightarrow> nat \<Rightarrow> (nat \<times> byte \<times> byte \<times> byte) list res" where
  "run_compare pkt row msk n = bindE (seqE (map (cmp_byte pkt row msk) [0..<n])) (\<lambda>mm. Inr (concat mm))"

text \<open>\<^verbatim>\<open>(ks - 1) & 0xffff\<close>.\<close>

definition key_last :: "byte \<Rightarrow> nat" where
  "key_last ks = unat (of_int (int (unat ks) - 1) :: u16)"

definition keycmp :: "bool \<Rightarrow> nat \<Rightarrow> emu \<Rightarrow> (emu \<times> walk) res" where
  "keycmp desc staging e =
     bindE (read_ic_b 0x1c e) (\<lambda>ks.
       let r16 = 0xd000 + 0x50;
           r16' = (if desc then descriptor (key_last ks) r16 else r16);
           r18 = staging + 8;
           r18' = (if desc then descriptor 1 r18 else r18);
           effective_len = key_last ks + 1;
           pkt = slice 0x50 (0x50 + 16) (e_ic e);
           row = slice (staging + 8) (staging + 24) (e_ws e);
           msk = slice (staging + 24) (staging + 40) (e_ws e) in
       bindE (run_compare pkt row msk (min 16 effective_len)) (\<lambda>mismatch.
         let r0 = (if mismatch \<noteq> [] then 0x10 else 0);
             hit = (r0 AND 0x10 = (0 :: nat)) in
         Inr (set_reg 0 r0 (set_reg 18 r18' (set_reg 17 1 (set_reg 16 r16' e))),
              Compared hit (unat ks) effective_len mismatch r16' r18')))"

definition step_w1609_w1650 :: "nat \<Rightarrow> bool \<Rightarrow> emu \<Rightarrow> (emu \<times> walk) res" where
  "step_w1609_w1650 tnum desc e0 =
     (let staging = 0x0300 + push_bit 8 tnum;
          e1 = write_ic_w 0x98 staging (set_reg 20 staging (set_reg 4 (tnum AND 0xff) e0)) in
      bindE (read_ic_w 0x18 e1) (\<lambda>cc_base.
        let e2 = write_ic_w 0x90 (unat cc_base) e1 in
        bindE (read_ic_w 0x90 e2) (\<lambda>table.
          let e3 = set_reg 19 0 (set_reg 18 (unat table) e2) in
          if table = 0 then Inr (e3, NullTable)
          else bindE (read_ic_w 0x98 e3) (\<lambda>r8.
            let e4 = set_reg 8 (unat r8) e3;
                page = slice (unat table) (unat table + 256) (e_muram e4);
                e5 = e4 \<lparr> e_ws := slice_assign staging (staging + 256) page (e_ws e4) \<rparr> in
            bindE (write_ic_b 0x9c 0 e5) (\<lambda>e6.
              let e7 = set_reg 8 staging e6 in
              bindE (unpack_be32 (slice staging (staging + 4) (e_ws e7))) (\<lambda>w0.
              bindE (py_nth (e_ws e7) (int staging)) (\<lambda>b0.
                let e8 = set_reg 9 (unat b0) e7 in
                if w0 AND 0x80000000 \<noteq> 0 then Inr (e8, TerminalAd)
                else if w0 AND 0x40000000 \<noteq> 0 then Inr (e8, NotContLookup)
                else keycmp desc staging (set_reg 16 (0xd000 + 0x50) e8))))))))"

section \<open>The memories keep their sizes\<close>

definition emu_ok :: "emu \<Rightarrow> bool" where
  "emu_ok e = (length (e_regs e) = 32 \<and> length (e_ic e) = 0x100 \<and> length (e_ws e) = 0x1000 \<and> length (e_muram e) = 0x10000)"

named_theorems emu_simps

lemma emu_ok_new: "emu_ok new_emu"
  by (simp add: emu_ok_def new_emu_def)

lemma set_reg_sel [emu_simps]:
  "e_ic (set_reg r v e) = e_ic e" "e_ws (set_reg r v e) = e_ws e" "e_muram (set_reg r v e) = e_muram e"
  "length (e_regs (set_reg r v e)) = length (e_regs e)"
  by (simp_all add: set_reg_def)

lemma write_ic_w_sel [emu_simps]:
  "e_ws (write_ic_w off v e) = e_ws e" "e_muram (write_ic_w off v e) = e_muram e"
  "e_regs (write_ic_w off v e) = e_regs e"
  by (simp_all add: write_ic_w_def)

lemma emu_ok_set_reg [simp]: "emu_ok (set_reg r v e) = emu_ok e"
  by (simp add: emu_ok_def emu_simps)

lemma emu_ok_write_ic_w: "emu_ok e \<Longrightarrow> off \<le> 0xfc \<Longrightarrow> emu_ok (write_ic_w off v e)"
  by (simp add: emu_ok_def write_ic_w_def length_slice_assign)

lemma read_write_ic_w: "emu_ok e \<Longrightarrow> off \<le> 0xfc \<Longrightarrow> read_ic_w off (write_ic_w off v e) = Inr (of_nat v)"
  by (simp add: emu_ok_def read_ic_w_def write_ic_w_def slice_slice_assign_same)

lemma slice_write_ic_w:
  "emu_ok e \<Longrightarrow> off \<le> 0xfc \<Longrightarrow> b \<le> off \<or> off + 4 \<le> a \<Longrightarrow>
   slice a b (e_ic (write_ic_w off v e)) = slice a b (e_ic e)"
  by (simp add: emu_ok_def write_ic_w_def slice_slice_assign_disjoint)

lemma nth_write_ic_w:
  "emu_ok e \<Longrightarrow> off \<le> 0xfc \<Longrightarrow> k < off \<or> off + 4 \<le> k \<Longrightarrow> k < 0x100 \<Longrightarrow>
   e_ic (write_ic_w off v e) ! k = e_ic e ! k"
  by (simp add: emu_ok_def write_ic_w_def nth_slice_assign_outside)

section \<open>The loaded table\<close>

lemma table_page_parts:
  assumes "length key = 16" "length rmask = 16"
  shows "length (table_page w0 key rmask) = 256" "slice 0 4 (table_page w0 key rmask) = pack_be32 w0"
    "slice 8 24 (table_page w0 key rmask) = key" "slice 24 40 (table_page w0 key rmask) = rmask"
  using assms
  by (simp_all add: table_page_def length_slice_assign slice_slice_assign_same slice_slice_assign_disjoint)

lemma cmp_bytes:
  assumes "length pkt = 16" "length row = 16" "length msk = 16" "n \<le> 16"
  shows "seqE (map (cmp_byte pkt row msk) [0..<n])
    = Inr (map (\<lambda>i. if pkt ! i AND msk ! i \<noteq> row ! i AND msk ! i then [(i, pkt ! i, row ! i, msk ! i)] else []) [0..<n])"
proof -
  have "cmp_byte pkt row msk i
      = Inr (if pkt ! i AND msk ! i \<noteq> row ! i AND msk ! i then [(i, pkt ! i, row ! i, msk ! i)] else [])"
    if "i \<in> set [0..<n]" for i
    using that assms by (simp add: cmp_byte_def py_nth_nat)
  then have "map (cmp_byte pkt row msk) [0..<n]
      = map (\<lambda>i. Inr (if pkt ! i AND msk ! i \<noteq> row ! i AND msk ! i then [(i, pkt ! i, row ! i, msk ! i)] else [])) [0..<n]"
    by (rule map_cong [OF refl])
  then show ?thesis by (simp only: seqE_map_Inr)
qed

text \<open>The number of bytes the comparator is told to compare: a key size of 0 wraps.\<close>

definition window :: "byte \<Rightarrow> nat" where
  "window ks = (if ks = 0 then 0x10000 else unat ks)"

lemma key_last_window: "Suc (key_last ks) = window ks"
proof (cases "ks = 0")
  case False
  have b: "unat ks < 256" using unsigned_less [of ks] by simp
  from False have p: "0 < unat ks" by (simp add: unat_gt_0)
  then have "of_int (int (unat ks) - 1) = (of_nat (unat ks - 1) :: u16)" by (simp add: of_nat_diff)
  moreover have "unat (of_nat (unat ks - 1) :: u16) = unat ks - 1"
    using b by (simp add: unsigned_of_nat take_bit_nat_eq_self)
  ultimately show ?thesis using p False by (simp only: key_last_def window_def) simp
next
  case True
  have "unat (- 1 :: u16) = 0xFFFF" by (simp add: unsigned_minus_1_eq_mask mask_eq_exp_minus_1)
  with True show ?thesis by (simp add: window_def key_last_def)
qed

definition bytes_agree :: "nat \<Rightarrow> byte list \<Rightarrow> byte list \<Rightarrow> byte list \<Rightarrow> bool" where
  "bytes_agree n pkt row msk = (\<forall>i < n. pkt ! i AND msk ! i = row ! i AND msk ! i)"

lemma concat_if_Nil:
  "concat (map (\<lambda>i. if P i then [f i] else []) [0..<n]) = [] \<longleftrightarrow> (\<forall>i < n. \<not> P i)"
  by (induction n) (auto simp: less_Suc_eq)

lemma run_compare_ok:
  assumes "length pkt = 16" "length row = 16" "length msk = 16" "n \<le> 16"
  shows "\<exists>mm. run_compare pkt row msk n = Inr mm \<and> (mm = [] \<longleftrightarrow> bytes_agree n pkt row msk)"
  unfolding run_compare_def cmp_bytes [OF assms] bindE_Inr bytes_agree_def
  by (simp only: concat_if_Nil sum.inject ex_simps simp_thms)

lemma keycmp_result:
  assumes "emu_ok e" "length row = 16" "length msk = 16"
    and "slice (staging + 8) (staging + 24) (e_ws e) = row" "slice (staging + 24) (staging + 40) (e_ws e) = msk"
  shows "\<exists>e' mm r16 r18. keycmp desc staging e = Inr (e',
    Compared (bytes_agree (min 16 (window (e_ic e ! 0x1c))) (slice 0x50 0x60 (e_ic e)) row msk)
      (unat (e_ic e ! 0x1c)) (window (e_ic e ! 0x1c)) mm r16 r18)"
proof -
  have len: "length (slice 0x50 0x60 (e_ic e)) = 16" using assms(1) by (simp add: emu_ok_def length_slice)
  have ks: "read_ic_b 0x1c e = Inr (e_ic e ! 0x1c)"
    using assms(1) py_nth_nat [of "e_ic e" "0x1c"] by (simp add: read_ic_b_def emu_ok_def)
  obtain mm where mm: "run_compare (slice 0x50 0x60 (e_ic e)) row msk (min 16 (window (e_ic e ! 0x1c))) = Inr mm"
    "mm = [] \<longleftrightarrow> bytes_agree (min 16 (window (e_ic e ! 0x1c))) (slice 0x50 0x60 (e_ic e)) row msk"
    using run_compare_ok [OF len assms(2,3)] by (metis min.cobounded1)
  have "(16 :: nat) AND 16 = 16" "(0 :: nat) AND 16 = 0" by simp_all
  then show ?thesis
    using mm(2) by (cases "mm = []") (simp_all add: keycmp_def ks Let_def assms(4,5) key_last_window mm(1))
qed

definition walk_spec :: "u32 \<Rightarrow> byte list \<Rightarrow> byte list \<Rightarrow> byte list \<Rightarrow> byte \<Rightarrow> walk \<Rightarrow> bool" where
  "walk_spec w0 pkt key rmask ks r =
     (if bit w0 31 then r = TerminalAd
      else if bit w0 30 then r = NotContLookup
      else \<exists>mm r16 r18. r = Compared (bytes_agree (min 16 (window ks)) pkt key rmask) (unat ks) (window ks) mm r16 r18)"

lemma and_bit_word: "(w :: u32) AND 0x80000000 \<noteq> 0 \<longleftrightarrow> bit w 31" "w AND 0x40000000 \<noteq> 0 \<longleftrightarrow> bit w 30"
proof -
  have "(0x80000000 :: u32) = push_bit 31 1" "(0x40000000 :: u32) = push_bit 30 1" by simp_all
  then show "w AND 0x80000000 \<noteq> 0 \<longleftrightarrow> bit w 31" "w AND 0x40000000 \<noteq> 0 \<longleftrightarrow> bit w 30"
    by (metis bit_iff_and_push_bit_not_eq_0)+
qed

lemma walk_loaded:
  assumes ok: "emu_ok e" and t: "tnum \<le> 12" and kl: "length key = 16" and ml: "length rmask = 16"
    and addr: "0 < addr" "addr + 256 \<le> 0x10000"
    and load: "load_muram_table addr w0 key rmask e = Inr e'"
  shows "\<exists>e'' r. step_w1609_w1650 tnum desc e' = Inr (e'', r) \<and>
    walk_spec w0 (slice 0x50 0x60 (e_ic e)) key rmask (e_ic e ! 0x1c) r"
proof -
  define P where "P = table_page w0 key rmask"
  note T = table_page_parts [OF kl ml, of w0, folded P_def]
  define em where "em = e \<lparr> e_muram := slice_assign addr (addr + 256) P (e_muram e) \<rparr>"
  have okm: "emu_ok em" using ok addr T(1) by (simp add: em_def emu_ok_def length_slice_assign)
  have e': "e' = write_ic_w 0x18 addr em" using load kl ml by (simp add: load_muram_table_def em_def P_def)
  have ok': "emu_ok e'" using okm by (simp add: e' emu_ok_write_ic_w)
  define st where "st = 0x0300 + push_bit 8 tnum"
  have st: "st + 256 \<le> 0x1000" using t by (simp add: st_def push_bit_eq_mult)
  define e1 where "e1 = write_ic_w 0x98 st (set_reg 20 st (set_reg 4 (tnum AND 0xff) e'))"
  have ok1: "emu_ok e1" using ok' by (simp add: e1_def emu_ok_write_ic_w)
  have "slice 0x18 (0x18 + 4) (e_ic e1) = slice 0x18 (0x18 + 4) (e_ic e')"
    using slice_write_ic_w [of "set_reg 20 st (set_reg 4 (tnum AND 0xff) e')" "0x98" "0x1c" "0x18" st] ok'
    by (simp add: e1_def emu_simps)
  then have r18: "read_ic_w 0x18 e1 = Inr (of_nat addr)"
    using read_write_ic_w [OF okm, of "0x18" addr] by (simp add: read_ic_w_def e')
  have ua: "unat (of_nat addr :: u32) = addr"
    using addr by (simp add: unsigned_of_nat take_bit_nat_eq_self)
  define e2 where "e2 = write_ic_w 0x90 addr e1"
  have ok2: "emu_ok e2" using ok1 by (simp add: e2_def emu_ok_write_ic_w)
  have r90: "read_ic_w 0x90 e2 = Inr (of_nat addr)"
    using read_write_ic_w [OF ok1] by (simp add: e2_def)
  have nz: "(of_nat addr :: u32) \<noteq> 0" using ua addr by auto
  define e3 where "e3 = set_reg 19 0 (set_reg 18 addr e2)"
  have ok3: "emu_ok e3" using ok2 by (simp add: e3_def)
  have r98: "read_ic_w 0x98 e3 = Inr (of_nat st)"
    using slice_write_ic_w [OF ok1, of "0x90" "0x9c" "0x98" addr]
      read_write_ic_w [of "set_reg 20 st (set_reg 4 (tnum AND 0xff) e')" "0x98" st] ok'
    by (simp add: read_ic_w_def e3_def e2_def emu_simps) (simp add: e1_def)
  define e4 where "e4 = set_reg 8 (unat (of_nat st :: u32)) e3"
  have mur: "e_muram e4 = slice_assign addr (addr + 256) P (e_muram e)"
    by (simp add: e4_def e3_def e2_def e1_def e' em_def emu_simps)
  have page: "slice addr (addr + 256) (e_muram e4) = P"
    using ok addr T(1) by (simp add: mur slice_slice_assign_same emu_ok_def)
  define e5 where "e5 = e4 \<lparr> e_ws := slice_assign st (st + 256) P (e_ws e4) \<rparr>"
  have lw: "length (e_ws e4) = 0x1000" using ok3 by (simp add: e4_def emu_ok_def emu_simps)
  have ok5: "emu_ok e5" using ok3 lw st T(1)
    by (simp add: e5_def e4_def emu_ok_def emu_simps length_slice_assign)
  define e6 where "e6 = e5 \<lparr> e_ic := (e_ic e5)[0x9c := of_nat 0] \<rparr>"
  have w9c: "write_ic_b 0x9c 0 e5 = Inr e6" using ok5 by (simp add: write_ic_b_def e6_def emu_ok_def)
  have ok6: "emu_ok e6" using ok5 by (simp add: e6_def emu_ok_def)
  have ws: "e_ws (set_reg 8 st e6) = slice_assign st (st + 256) P (e_ws e4)"
    by (simp add: e6_def e5_def emu_simps)
  have part: "slice (st + a) (st + b) (slice_assign st (st + 256) P (e_ws e4)) = slice a b P" if "b \<le> 256" for a b
    using slice_inside_assign [of st "st + 256" "e_ws e4" P b a] that lw st T(1) by simp
  have w0: "unpack_be32 (slice st (st + 4) (e_ws (set_reg 8 st e6))) = Inr w0"
    using part [of 4 0] by (simp add: ws T)
  have lw8: "length (e_ws (set_reg 8 st e6)) = 0x1000" using ok6 by (simp add: emu_simps emu_ok_def)
  then obtain b0 where b0: "py_nth (e_ws (set_reg 8 st e6)) (int st) = Inr b0"
    using st by (simp add: py_nth_nat)
  define e8 where "e8 = set_reg 9 (unat b0) (set_reg 8 st e6)"
  define e9 where "e9 = set_reg 16 (0xd000 + 0x50) e8"
  have ok9: "emu_ok e9" using ok6 by (simp add: e9_def e8_def)
  have ic9: "e_ic e9 = (e_ic e2)[0x9c := 0]"
    by (simp add: e9_def e8_def e6_def e5_def e4_def e3_def emu_simps)
  have ks: "e_ic e9 ! 0x1c = e_ic e ! 0x1c"
    using ok' ok1 okm by (simp add: ic9 e2_def nth_write_ic_w e1_def emu_simps e') (simp add: em_def)
  have "slice 0x50 0x60 (xs[0x9c := x]) = slice 0x50 0x60 xs" for xs and x :: byte
    by (simp add: slice_def drop_update_swap)
  then have pk: "slice 0x50 0x60 (e_ic e9) = slice 0x50 0x60 (e_ic e)"
    using ok' ok1 okm by (simp add: ic9 e2_def slice_write_ic_w e1_def emu_simps e') (simp add: em_def)
  have rows: "slice (st + 8) (st + 24) (e_ws e9) = key" "slice (st + 24) (st + 40) (e_ws e9) = rmask"
    using part [of 24 8] part [of 40 24] by (simp_all add: e9_def e8_def emu_simps ws [simplified emu_simps] T)
  from keycmp_result [OF ok9 kl ml rows] obtain ez mm r16 r18 where
    kc: "keycmp desc st e9 = Inr (ez, Compared (bytes_agree (min 16 (window (e_ic e ! 0x1c))) (slice 0x50 0x60 (e_ic e)) key rmask)
       (unat (e_ic e ! 0x1c)) (window (e_ic e ! 0x1c)) mm r16 r18)"
    unfolding ks pk by blast
  have "step_w1609_w1650 tnum desc e' =
      (if bit w0 31 then Inr (e8, TerminalAd) else if bit w0 30 then Inr (e8, NotContLookup) else keycmp desc st e9)"
    unfolding step_w1609_w1650_def Let_def st_def [symmetric] e1_def [symmetric]
    by (simp only: r18 bindE_Inr ua e2_def [symmetric] r90 e3_def [symmetric] nz if_False r98
        e4_def [symmetric] page e5_def [symmetric] w9c w0 b0 e8_def [symmetric] e9_def [symmetric] and_bit_word)
  then show ?thesis using kc by (auto simp: walk_spec_def)
qed

lemma load_packet_key_ok:
  assumes "emu_ok e" "16 \<le> length pkt" "length pkt \<le> 56"
  shows "\<exists>e'. load_packet_key pkt ks e = Inr e' \<and> emu_ok e' \<and>
    slice 0x50 0x60 (e_ic e') = take 16 pkt \<and> e_ic e' ! 0x1c = of_nat ks"
proof -
  let ?ic = "(e_ic e)[0x1c := of_nat ks]"
  have len: "length ?ic = 0x100" "0x50 + length pkt \<le> length ?ic" using assms by (simp_all add: emu_ok_def)
  have "slice (0x50 + 0) (0x50 + 16) (slice_assign 0x50 (0x50 + length pkt) pkt ?ic) = slice 0 16 pkt"
    using len(2) assms(2) by (intro slice_inside_assign) auto
  moreover have "slice_assign 0x50 (0x50 + length pkt) pkt ?ic ! 0x1c = of_nat ks"
    using len by (subst nth_slice_assign_outside) auto
  ultimately show ?thesis
    using assms len by (simp add: load_packet_key_def write_ic_b_def emu_ok_def length_slice_assign slice_def)
qed

section \<open>Properties\<close>

text \<open>C38. The table walk decides as the microcode's comments say.  With a key of 16 to 56 bytes and a
  key size deposited, a table at a non-zero MURAM address and a task number whose staging buffer
  fits the workspace, the walk ends in the terminal dispatch exactly when bit 31 of the action
  descriptor is set, in the other-type dispatch when only bit 30 is, and otherwise compares the
  first min(16, key size) bytes under the row's mask and hits exactly when they agree; a key size
  of 0 makes it compare all 16.\<close>

theorem walk_decides:
  assumes "emu_ok e" "16 \<le> length pkt" "length pkt \<le> 56" "tnum \<le> 12"
    and "length key = 16" "length rmask = 16" "0 < addr" "addr + 256 \<le> 0x10000"
  shows "\<exists>e1 e2 e3 r. load_packet_key pkt ks e = Inr e1 \<and> load_muram_table addr w0 key rmask e1 = Inr e2 \<and>
    step_w1609_w1650 tnum desc e2 = Inr (e3, r) \<and> walk_spec w0 (take 16 pkt) key rmask (of_nat ks) r"
proof -
  obtain e1 where e1: "load_packet_key pkt ks e = Inr e1" "emu_ok e1"
    "slice 0x50 0x60 (e_ic e1) = take 16 pkt" "e_ic e1 ! 0x1c = of_nat ks"
    using load_packet_key_ok [OF assms(1-3)] by blast
  obtain e2 where e2: "load_muram_table addr w0 key rmask e1 = Inr e2"
    using assms(5,6) by (simp add: load_muram_table_def)
  show ?thesis using walk_loaded [OF e1(2) assms(4-8) e2, of desc] e1 e2 by auto
qed

lemma walk_decides_witness:
  "\<exists>e1 e2 e3 mm r16 r18. load_packet_key (replicate 16 7) 2 new_emu = Inr e1 \<and>
     load_muram_table 0x1000 0 (7 # 7 # replicate 14 9) (replicate 16 0xFF) e1 = Inr e2 \<and>
     step_w1609_w1650 2 True e2 = Inr (e3, Compared True 2 2 mm r16 r18)"
proof -
  have "bytes_agree 2 (take 16 (replicate 16 7)) (7 # 7 # replicate 14 9) (replicate 16 0xFF)"
    by (auto simp: bytes_agree_def less_2_cases_iff)
  then show ?thesis
    using walk_decides [OF emu_ok_new, of "replicate 16 7" 2 "7 # 7 # replicate 14 9" "replicate 16 0xFF" "0x1000" 2 0 True]
    by (auto simp: walk_spec_def window_def)
qed

end
