(* ===== verification/Hw.thy ===== *)
theory Hw
  imports Prelude
begin

text \<open>
  Memory-mapped hardware as a parameter.  The tools under \<^verbatim>\<open>bin/\<close> map pages of
  \<^verbatim>\<open>/dev/mem\<close>; what a read returns and what a write does is the device's business, so a
  bus is a pair of functions on an unknown state, and a program is a function from that state to
  a result (an exception or a value) and the state it leaves.  The writes of a program are
  observed by running it on a bus that records them.
\<close>

section \<open>Programs\<close>

type_synonym ('h, 'a) io = "'h \<Rightarrow> 'a res \<times> 'h"

record 'h bus =
  bus_read :: "nat \<Rightarrow> 'h \<Rightarrow> u32 \<times> 'h"
  bus_write :: "nat \<Rightarrow> u32 \<Rightarrow> 'h \<Rightarrow> 'h"

definition retIO :: "'a \<Rightarrow> ('h, 'a) io" where "retIO x h = (Inr x, h)"

definition raiseIO :: "py_error \<Rightarrow> ('h, 'a) io" where "raiseIO e h = (Inl e, h)"

definition bindIO :: "('h, 'a) io \<Rightarrow> ('a \<Rightarrow> ('h, 'b) io) \<Rightarrow> ('h, 'b) io" where
  "bindIO m f h = (case m h of (Inl e, h') \<Rightarrow> (Inl e, h') | (Inr x, h') \<Rightarrow> f x h')"

definition liftIO :: "'a res \<Rightarrow> ('h, 'a) io" where "liftIO r h = (r, h)"

fun mapIO :: "('a \<Rightarrow> ('h, 'b) io) \<Rightarrow> 'a list \<Rightarrow> ('h, 'b list) io" where
  "mapIO f [] = retIO []"
| "mapIO f (x # xs) = bindIO (f x) (\<lambda>y. bindIO (mapIO f xs) (\<lambda>ys. retIO (y # ys)))"

definition rd :: "'h bus \<Rightarrow> nat \<Rightarrow> ('h, u32) io" where
  "rd b a h = (let (v, h') = bus_read b a h in (Inr v, h'))"

text \<open>\<^verbatim>\<open>struct.pack(">I", v)\<close> refuses a value outside 32 bits before anything is written.\<close>

definition wr :: "'h bus \<Rightarrow> nat \<Rightarrow> int \<Rightarrow> ('h, unit) io" where
  "wr b a v h =
     (if 0 \<le> v \<and> v < 2 ^ 32 then (Inr (), bus_write b a (word_of_int v) h) else (Inl StructError, h))"

text \<open>\<^verbatim>\<open>try/except\<close> and \<^verbatim>\<open>try/finally\<close>: an exception of the clean-up replaces the result.\<close>

definition handleIO :: "('h, 'a) io \<Rightarrow> (py_error \<Rightarrow> ('h, 'a) io) \<Rightarrow> ('h, 'a) io" where
  "handleIO m f h = (case m h of (Inl e, h') \<Rightarrow> f e h' | (Inr x, h') \<Rightarrow> (Inr x, h'))"

definition finallyIO :: "('h, 'a) io \<Rightarrow> ('h, unit) io \<Rightarrow> ('h, 'a) io" where
  "finallyIO m c h = (case m h of (r, h') \<Rightarrow> (case c h' of (Inl e, h'') \<Rightarrow> (Inl e, h'') | (Inr _, h'') \<Rightarrow> (r, h'')))"

fun eachIO :: "('a \<Rightarrow> ('h, unit) io) \<Rightarrow> 'a list \<Rightarrow> ('h, unit) io" where
  "eachIO f [] = retIO ()"
| "eachIO f (x # xs) = bindIO (f x) (\<lambda>_. eachIO f xs)"

lemmas io_defs = bindIO_def retIO_def raiseIO_def liftIO_def handleIO_def finallyIO_def

section \<open>Recording the writes\<close>

type_synonym wlog = "(nat \<times> int) list"

definition logged :: "'h bus \<Rightarrow> ('h \<times> wlog) bus" where
  "logged b =
     \<lparr> bus_read = (\<lambda>a (h, l). let (v, h') = bus_read b a h in (v, (h', l))),
       bus_write = (\<lambda>a v (h, l). (bus_write b a v h, l @ [(a, uint v)])) \<rparr>"

text \<open>
  \<open>emits m S\<close>: started on any device, the program's writes are a prefix of a trace of \<open>S\<close>, and
  the whole trace when it returns without an exception.
\<close>

definition emits :: "('h \<times> wlog, 'a) io \<Rightarrow> wlog set \<Rightarrow> bool" where
  "emits m S = (\<forall>h l. \<exists>t \<in> S. \<exists>w. snd (snd (m (h, l))) = l @ w \<and> prefix w t \<and>
     (\<forall>x. fst (m (h, l)) = Inr x \<longrightarrow> w = t))"

definition cat :: "wlog set \<Rightarrow> wlog set \<Rightarrow> wlog set" where
  "cat S T = {s @ t | s t. s \<in> S \<and> t \<in> T}"

lemma cat_single [simp]: "cat {s} {t} = {s @ t}"
  by (auto simp: cat_def)

lemma emits_ret: "emits (retIO x) {[]}"
  by (simp add: emits_def retIO_def)

lemma emits_raise: "S \<noteq> {} \<Longrightarrow> emits (raiseIO e) S"
  by (auto simp: emits_def raiseIO_def)

lemma emits_lift: "emits (liftIO r) {[]}"
  by (simp add: emits_def liftIO_def)

lemma emits_rd: "emits (rd (logged b) a) {[]}"
  by (auto simp: emits_def rd_def logged_def split: prod.splits)

lemma emits_wr: "emits (wr (logged b) a v) {[(a, v)]}"
  by (auto simp: emits_def wr_def logged_def uint_word_of_int_eq take_bit_int_eq_self)

lemma emits_bind:
  assumes "emits m S" "\<And>x. emits (f x) T" "T \<noteq> {}"
  shows "emits (bindIO m f) (cat S T)"
  unfolding emits_def
proof (intro allI)
  fix h l
  from assms(1) obtain s w where s: "s \<in> S" "snd (snd (m (h, l))) = l @ w" "prefix w s"
    "\<forall>x. fst (m (h, l)) = Inr x \<longrightarrow> w = s" unfolding emits_def by blast
  obtain r h' l' where m: "m (h, l) = (r, (h', l'))" by (metis surj_pair)
  show "\<exists>t \<in> cat S T. \<exists>w. snd (snd (bindIO m f (h, l))) = l @ w \<and> prefix w t \<and>
      (\<forall>x. fst (bindIO m f (h, l)) = Inr x \<longrightarrow> w = t)"
  proof (cases r)
    case (Inl e)
    from assms(3) obtain t where "t \<in> T" by blast
    then have "s @ t \<in> cat S T" using s(1) by (auto simp: cat_def)
    then show ?thesis using s m Inl by (auto simp: bindIO_def intro!: bexI [of _ "s @ t"])
  next
    case (Inr x)
    then have w: "w = s" "l' = l @ s" using s m by auto
    from assms(2) [of x] obtain t v where t: "t \<in> T" "snd (snd (f x (h', l'))) = l' @ v" "prefix v t"
      "\<forall>y. fst (f x (h', l')) = Inr y \<longrightarrow> v = t" unfolding emits_def by blast
    have "s @ t \<in> cat S T" using s(1) t(1) by (auto simp: cat_def)
    then show ?thesis using t m Inr w
      by (intro bexI [of _ "s @ t"] exI [of _ "s @ v"]) (auto simp: bindIO_def)
  qed
qed

lemma emits_bind_silent:
  assumes "emits m {[]}" "\<And>x. emits (f x) T" "T \<noteq> {}"
  shows "emits (bindIO m f) T"
proof -
  have "cat {[]} T = T" by (auto simp: cat_def)
  with emits_bind [OF assms] show ?thesis by simp
qed

lemma emits_bind1: "emits m {s} \<Longrightarrow> (\<And>x. emits (f x) {t}) \<Longrightarrow> emits (bindIO m f) {s @ t}"
  using emits_bind [of m "{s}" f "{t}"] by simp

lemma emits_mono: "emits m S \<Longrightarrow> S \<subseteq> T \<Longrightarrow> emits m T"
  unfolding emits_def by blast

lemma emits_bind_last: "emits m {s} \<Longrightarrow> (\<And>x. emits (f x) {[]}) \<Longrightarrow> emits (bindIO m f) {s}"
  using emits_bind1 [of m s f "[]"] by simp

lemma emits_mapIO:
  assumes "\<And>x. x \<in> set xs \<Longrightarrow> emits (f x) {g x}"
  shows "emits (mapIO f xs) {concat (map g xs)}"
  using assms
proof (induction xs)
  case (Cons x xs)
  have "emits (bindIO (mapIO f xs) (\<lambda>ys. retIO (y # ys))) {concat (map g xs)}" for y
    using Cons by (intro emits_bind_last emits_ret) auto
  moreover have "emits (f x) {g x}" using Cons.prems by simp
  ultimately have "emits (bindIO (f x) (\<lambda>y. bindIO (mapIO f xs) (\<lambda>ys. retIO (y # ys)))) {g x @ concat (map g xs)}"
    by (rule emits_bind1 [rotated])
  then show ?case by simp
qed (simp add: emits_ret)

lemma emits_silent_mapIO: "(\<And>x. emits (f x) {[]}) \<Longrightarrow> emits (mapIO f xs) {[]}"
proof -
  assume "\<And>x. emits (f x) {[]}"
  then have "emits (mapIO f xs) {concat (map (\<lambda>_. []) xs)}" by (intro emits_mapIO)
  moreover have "concat (map (\<lambda>_. [] :: wlog) xs) = []" by (induction xs) auto
  ultimately show ?thesis by (simp only:)
qed

lemma emits_if: "(c \<Longrightarrow> emits m S) \<Longrightarrow> (\<not> c \<Longrightarrow> emits m' S) \<Longrightarrow> emits (if c then m else m') S"
  by simp

lemma emits_mapIO_wr:
  "emits (mapIO (\<lambda>(i, v). wr (logged b) (f i) v) xs) {map (\<lambda>(i, v). (f i, v)) xs}"
proof -
  have "emits (mapIO (\<lambda>(i, v). wr (logged b) (f i) v) xs) {concat (map (\<lambda>x. [(f (fst x), snd x)]) xs)}"
    by (rule emits_mapIO) (simp add: case_prod_beta emits_wr)
  moreover have "concat (map (\<lambda>x. [(f (fst x), snd x)]) xs) = map (\<lambda>(i, v). (f i, v)) xs"
    by (induction xs) auto
  ultimately show ?thesis by (simp only:)
qed

section \<open>Programs whose writes are all of one kind\<close>

definition writes_only :: "(nat \<times> int \<Rightarrow> bool) \<Rightarrow> ('h \<times> wlog, 'a) io \<Rightarrow> bool" where
  "writes_only P m = (\<forall>h l. \<exists>w. snd (snd (m (h, l))) = l @ w \<and> (\<forall>x \<in> set w. P x))"

named_theorems writes_intros

lemma writes_ret [writes_intros]: "writes_only P (retIO x)"
  by (simp add: writes_only_def retIO_def)

lemma writes_raise [writes_intros]: "writes_only P (raiseIO e)"
  by (simp add: writes_only_def raiseIO_def)

lemma writes_lift [writes_intros]: "writes_only P (liftIO r)"
  by (simp add: writes_only_def liftIO_def)

lemma writes_rd [writes_intros]: "writes_only P (rd (logged b) a)"
  by (auto simp: writes_only_def rd_def logged_def split: prod.splits)

lemma writes_wr [writes_intros]: "P (a, v) \<Longrightarrow> writes_only P (wr (logged b) a v)"
  by (auto simp: writes_only_def wr_def logged_def uint_word_of_int_eq take_bit_int_eq_self)

lemma writes_bind [writes_intros]:
  assumes "writes_only P m" "\<And>x. writes_only P (f x)"
  shows "writes_only P (bindIO m f)"
  unfolding writes_only_def
proof (intro allI)
  fix h l
  from assms(1) obtain w where w: "snd (snd (m (h, l))) = l @ w" "\<forall>x \<in> set w. P x"
    unfolding writes_only_def by blast
  obtain r h' l' where m: "m (h, l) = (r, (h', l'))" by (metis surj_pair)
  show "\<exists>w. snd (snd (bindIO m f (h, l))) = l @ w \<and> (\<forall>x \<in> set w. P x)"
  proof (cases r)
    case (Inl e)
    then show ?thesis using w m by (auto simp: bindIO_def)
  next
    case (Inr x)
    from assms(2) [of x] obtain v where "snd (snd (f x (h', l'))) = l' @ v" "\<forall>x \<in> set v. P x"
      unfolding writes_only_def by blast
    then show ?thesis using w m Inr by (intro exI [of _ "w @ v"]) (auto simp: bindIO_def)
  qed
qed

lemma writes_mapIO [writes_intros]: "(\<And>x. writes_only P (f x)) \<Longrightarrow> writes_only P (mapIO f xs)"
  by (induction xs) (auto intro!: writes_intros)

lemma writes_if [writes_intros]: "writes_only P m \<Longrightarrow> writes_only P m' \<Longrightarrow> writes_only P (if c then m else m')"
  by simp

lemma writes_prod [writes_intros]: "(\<And>a b. writes_only P (f a b)) \<Longrightarrow> writes_only P (case p of (a, b) \<Rightarrow> f a b)"
  by (cases p) simp

lemma writes_option [writes_intros]:
  "writes_only P m \<Longrightarrow> (\<And>x. writes_only P (f x)) \<Longrightarrow> writes_only P (case v of None \<Rightarrow> m | Some x \<Rightarrow> f x)"
  by (cases v) simp_all

end
