(* ===== verification/KeyGen.thy ===== *)
theory KeyGen
  imports Hw
begin

text \<open>
  The KeyGen tools: \<^verbatim>\<open>bin/kg-lcv-probe.py\<close> (parser line-up vectors, whole-scheme reads
  and writes, the snapshot / apply / restore experiment), \<^verbatim>\<open>bin/kg-scheme-read.py\<close>,
  \<^verbatim>\<open>bin/ask-pcd-regdump.py\<close> and \<^verbatim>\<open>bin/fman-full-capture.py\<close>.  The device
  is the bus parameter; a deadline on the monotonic clock is the number of polls it allows.
  Printed text is left out; what is printed is the result.
\<close>

section \<open>kg-lcv-probe.py: registers\<close>

definition KG_BASE :: nat where "KG_BASE = 0x01AC1000"
definition AR_OFF :: nat where "AR_OFF = 0x1FC"
definition SHADOW :: nat where "SHADOW = 0x100"
definition GO :: int where "GO = 0x80000000"
definition READ :: int where "READ = 0x40000000"
definition ERR :: int where "ERR = 0x20000000"
definition SEL_PORT :: int where "SEL_PORT = 0x02000000"
definition WSEL_SP :: int where "WSEL_SP = 0x00008000"
definition UPD_CNT :: int where "UPD_CNT = 0x00008000"
definition SCHEME_WORDS :: nat where "SCHEME_WORDS = 23"
definition MV_IDX :: nat where "MV_IDX = 20"
definition MODE_IDX :: nat where "MODE_IDX = 0"
definition SPC_IDX :: nat where "SPC_IDX = 16"

lemmas kg_consts = KG_BASE_def AR_OFF_def SHADOW_def GO_def READ_def ERR_def SEL_PORT_def WSEL_SP_def
  UPD_CNT_def SCHEME_WORDS_def MV_IDX_def MODE_IDX_def SPC_IDX_def

definition ar_addr :: nat where "ar_addr = KG_BASE + AR_OFF"

definition shadow_addr :: "nat \<Rightarrow> nat" where "shadow_addr i = KG_BASE + SHADOW + i * 4"

text \<open>Only the two sacrificial ports have an entry.\<close>

definition hwp_base :: "string \<Rightarrow> nat res" where
  "hwp_base dev =
     (if dev = ''eth1'' then Inr 0x01A8D800 else if dev = ''eth2'' then Inr 0x01A89800 else Inl (KeyError dev))"

text \<open>\<open>pmda[i].lcv\<close>.\<close>

definition lcv_addr :: "nat \<Rightarrow> nat \<Rightarrow> nat" where "lcv_addr base i = base + i * 8 + 4"

definition hwp_dump :: "'h bus \<Rightarrow> string \<Rightarrow> ('h, (u32 \<times> u32) list) io" where
  "hwp_dump b dev =
     bindIO (liftIO (hwp_base dev)) (\<lambda>base.
       mapIO (\<lambda>i. bindIO (rd b (base + i * 8)) (\<lambda>ssa. bindIO (rd b (lcv_addr base i)) (\<lambda>lcv. retIO (ssa, lcv))))
         [0..<16])"

definition hwp_set_lcv :: "'h bus \<Rightarrow> string \<Rightarrow> int \<Rightarrow> int \<Rightarrow> ('h, bool) io" where
  "hwp_set_lcv b dev v4 v6 =
     bindIO (liftIO (hwp_base dev)) (\<lambda>base.
     bindIO (rd b (lcv_addr base 5)) (\<lambda>old4.
     bindIO (rd b (lcv_addr base 6)) (\<lambda>old6.
     bindIO (wr b (lcv_addr base 5) v4) (\<lambda>_.
     bindIO (wr b (lcv_addr base 6) v6) (\<lambda>_.
     bindIO (rd b (lcv_addr base 5)) (\<lambda>new4.
     bindIO (rd b (lcv_addr base 6)) (\<lambda>new6.
       retIO (uint new4 = v4 \<and> uint new6 = v6))))))))"

definition hwp_read_all_lcv :: "'h bus \<Rightarrow> string \<Rightarrow> ('h, int list) io" where
  "hwp_read_all_lcv b dev =
     bindIO (liftIO (hwp_base dev)) (\<lambda>base.
       mapIO (\<lambda>i. bindIO (rd b (lcv_addr base i)) (\<lambda>v. retIO (uint v))) [0..<16])"

definition hwp_write_all_lcv :: "'h bus \<Rightarrow> string \<Rightarrow> int list \<Rightarrow> ('h, unit) io" where
  "hwp_write_all_lcv b dev lcv =
     bindIO (liftIO (hwp_base dev)) (\<lambda>base.
       bindIO (mapIO (\<lambda>(i, v). wr b (lcv_addr base i) v) (enumerate 0 lcv)) (\<lambda>_. retIO ()))"

section \<open>The indirect protocol\<close>

definition has_bit :: "u32 \<Rightarrow> int \<Rightarrow> bool" where
  "has_bit w m = (uint w AND m \<noteq> 0)"

text \<open>The loop stops when GO is clear; \<open>n\<close> more polls fit before the deadline.\<close>

fun ar_poll :: "'h bus \<Rightarrow> nat \<Rightarrow> ('h, u32) io" where
  "ar_poll b 0 = bindIO (rd b ar_addr) (\<lambda>cur. if has_bit cur GO then raiseIO TimeoutError else retIO cur)"
| "ar_poll b (Suc n) = bindIO (rd b ar_addr) (\<lambda>cur. if has_bit cur GO then ar_poll b n else retIO cur)"

definition ar_wait :: "'h bus \<Rightarrow> nat \<Rightarrow> ('h, unit) io" where
  "ar_wait b n = bindIO (ar_poll b n) (\<lambda>cur. if has_bit cur ERR then raiseIO (RuntimeError ''AR ERR'') else retIO ())"

definition scheme_fields :: "(string \<times> nat) list" where
  "scheme_fields = [(''kgse_mode'', 0x00), (''kgse_ekfc'', 0x04), (''kgse_spc'', 0x40), (''kgse_dv0'', 0x44),
     (''kgse_dv1'', 0x48), (''kgse_ccbs'', 0x4C), (''kgse_mv'', 0x50)]"

definition kg_read_fields :: "(string \<times> nat) list \<Rightarrow> 'h bus \<Rightarrow> nat \<Rightarrow> int \<Rightarrow> ('h, (string \<times> u32) list) io" where
  "kg_read_fields fs b n sid =
     bindIO (wr b ar_addr (GO OR READ OR push_bit 16 sid)) (\<lambda>_.
     bindIO (ar_wait b n) (\<lambda>_.
       mapIO (\<lambda>(nm, off). bindIO (rd b (KG_BASE + SHADOW + off)) (\<lambda>v. retIO (nm, v))) fs))"

definition kg_read_scheme :: "'h bus \<Rightarrow> nat \<Rightarrow> int \<Rightarrow> ('h, (string \<times> u32) list) io" where
  "kg_read_scheme b n sid = kg_read_fields scheme_fields b n sid"

definition kg_spc :: "'h bus \<Rightarrow> nat \<Rightarrow> int list \<Rightarrow> ('h, (int \<times> u32 option) list) io" where
  "kg_spc b n sids = mapIO (\<lambda>s. bindIO (kg_read_scheme b n s) (\<lambda>r. retIO (s, map_of r ''kgse_spc''))) sids"

definition scheme_read_full :: "'h bus \<Rightarrow> nat \<Rightarrow> int \<Rightarrow> ('h, int list) io" where
  "scheme_read_full b n sid =
     bindIO (wr b ar_addr (GO OR READ OR push_bit 16 sid)) (\<lambda>_.
     bindIO (ar_wait b n) (\<lambda>_.
       mapIO (\<lambda>i. bindIO (rd b (shadow_addr i)) (\<lambda>v. retIO (uint v))) [0..<SCHEME_WORDS]))"

definition scheme_write_full :: "'h bus \<Rightarrow> nat \<Rightarrow> int \<Rightarrow> int list \<Rightarrow> bool \<Rightarrow> ('h, unit) io" where
  "scheme_write_full b n sid ws upd =
     (if length ws \<noteq> SCHEME_WORDS then raiseIO (RuntimeError ''AssertionError'')
      else bindIO (mapIO (\<lambda>(i, w). wr b (shadow_addr i) w) (enumerate 0 ws)) (\<lambda>_.
        bindIO (wr b ar_addr (GO OR push_bit 16 sid OR (if upd then UPD_CNT else 0))) (\<lambda>_. ar_wait b n)))"

definition port_sp_read :: "'h bus \<Rightarrow> nat \<Rightarrow> int \<Rightarrow> ('h, int) io" where
  "port_sp_read b n pid =
     bindIO (wr b ar_addr (GO OR READ OR SEL_PORT OR WSEL_SP OR pid)) (\<lambda>_.
     bindIO (ar_wait b n) (\<lambda>_.
     bindIO (rd b (KG_BASE + SHADOW)) (\<lambda>v. retIO (uint v))))"

definition port_sp_write :: "'h bus \<Rightarrow> nat \<Rightarrow> int \<Rightarrow> int \<Rightarrow> ('h, unit) io" where
  "port_sp_write b n pid sp =
     bindIO (wr b (KG_BASE + SHADOW) sp) (\<lambda>_.
     bindIO (wr b ar_addr (GO OR SEL_PORT OR WSEL_SP OR pid)) (\<lambda>_. ar_wait b n))"

section \<open>The experiment\<close>

record snap =
  s_dev :: string
  s_port :: int
  s_v4 :: int
  s_v6 :: int
  s_lcv :: "int list"
  s_sp :: int
  s_w4 :: "int list"
  s_w6 :: "int list"

definition exp_snapshot :: "'h bus \<Rightarrow> nat \<Rightarrow> string \<Rightarrow> int \<Rightarrow> int \<Rightarrow> int \<Rightarrow> ('h, snap) io" where
  "exp_snapshot b n dev pid v4 v6 =
     bindIO (hwp_read_all_lcv b dev) (\<lambda>lcv.
     bindIO (port_sp_read b n pid) (\<lambda>sp.
     bindIO (scheme_read_full b n v4) (\<lambda>w4.
     bindIO (scheme_read_full b n v6) (\<lambda>w6.
       retIO \<lparr> s_dev = dev, s_port = pid, s_v4 = v4, s_v6 = v6, s_lcv = lcv, s_sp = sp, s_w4 = w4, s_w6 = w6 \<rparr>))))"

text \<open>\<^verbatim>\<open>xs[i] = v\<close> on a list.\<close>

definition list_set :: "nat \<Rightarrow> int \<Rightarrow> int list \<Rightarrow> int list res" where
  "list_set i v xs = (if i < length xs then Inr (xs[i := v]) else Inl IndexError)"

definition sp_bit :: "int \<Rightarrow> int res" where
  "sp_bit s = (if 31 < s then Inl (ValueError ''negative shift count'') else Inr (push_bit (nat (31 - s)) 1))"

definition exp_lcv :: "int \<Rightarrow> int \<Rightarrow> int list" where
  "exp_lcv v4 v6 = ((replicate 16 0)[5 := v4])[6 := v6]"

text \<open>\<open>None\<close>: the dry run.  The readback verdict is the result otherwise.\<close>

definition exp_apply :: "'h bus \<Rightarrow> nat \<Rightarrow> bool \<Rightarrow> snap \<Rightarrow> int \<Rightarrow> int \<Rightarrow> ('h, bool option) io" where
  "exp_apply b n write s v4 v6 =
     (if \<not> write then retIO None else
      bindIO (liftIO (list_set MV_IDX v4 (s_w4 s))) (\<lambda>w4.
      bindIO (scheme_write_full b n (s_v4 s) w4 False) (\<lambda>_.
      bindIO (liftIO (bindE (list_set MV_IDX v6 (s_w4 s)) (list_set SPC_IDX 0))) (\<lambda>w6.
      bindIO (scheme_write_full b n (s_v6 s) w6 True) (\<lambda>_.
      bindIO (hwp_write_all_lcv b (s_dev s) (exp_lcv v4 v6)) (\<lambda>_.
      bindIO (port_sp_read b n (s_port s)) (\<lambda>sp.
      bindIO (liftIO (sp_bit (s_v6 s))) (\<lambda>m.
      bindIO (port_sp_write b n (s_port s) (sp OR m)) (\<lambda>_.
      bindIO (scheme_read_full b n (s_v4 s)) (\<lambda>r4.
      bindIO (scheme_read_full b n (s_v6 s)) (\<lambda>r6.
      bindIO (hwp_read_all_lcv b (s_dev s)) (\<lambda>rlcv.
      bindIO (port_sp_read b n (s_port s)) (\<lambda>rsp.
        retIO (Some (r4 ! MV_IDX = v4 \<and> r6 ! MV_IDX = v6 \<and> r6 ! MODE_IDX AND 0x80000000 \<noteq> 0 \<and>
                     rlcv ! 5 = v4 \<and> rlcv ! 6 = v6 \<and> rsp = sp OR m)))))))))))))))"

definition exp_restore :: "'h bus \<Rightarrow> nat \<Rightarrow> bool \<Rightarrow> snap \<Rightarrow> ('h, bool option) io" where
  "exp_restore b n write s =
     (if \<not> write then retIO None else
      bindIO (port_sp_write b n (s_port s) (s_sp s)) (\<lambda>_.
      bindIO (scheme_write_full b n (s_v4 s) (s_w4 s) False) (\<lambda>_.
      bindIO (scheme_write_full b n (s_v6 s) (s_w6 s) True) (\<lambda>_.
      bindIO (hwp_write_all_lcv b (s_dev s) (s_lcv s)) (\<lambda>_.
      bindIO (port_sp_read b n (s_port s)) (\<lambda>rsp.
      bindIO (hwp_read_all_lcv b (s_dev s)) (\<lambda>rlcv.
        retIO (Some (rsp = s_sp s \<and> rlcv = s_lcv s)))))))))"

text \<open>The four words of \<open>exp_ccobase\<close>'s node.\<close>

definition node_words :: "int \<Rightarrow> int \<Rightarrow> int \<Rightarrow> int \<Rightarrow> int \<Rightarrow> int \<Rightarrow> int list" where
  "node_words tb keysize hash_shift int_buf mask_bits miss =
     [push_bit 30 2 OR push_bit 24 (keysize AND 0x3f) OR push_bit 20 4 OR push_bit 16 (hash_shift AND 0x7) OR
        (drop_bit 32 tb AND 0xff),
      tb AND 0xffffffff,
      push_bit 16 (drop_bit 8 int_buf AND 0xffff) OR push_bit 4 0x80 OR (mask_bits AND 0xf),
      miss]"

definition exp_ccobase :: "'h bus \<Rightarrow> nat \<Rightarrow> bool \<Rightarrow> nat \<Rightarrow> int \<Rightarrow> int list \<Rightarrow> ('h, bool option) io" where
  "exp_ccobase b n write pid s6 node =
     bindIO (rd b (0x01A00000 + 0x80000 + pid * 0x1000 + 0x34)) (\<lambda>rccb.
       if \<not> write then retIO None else
       let phys = 0x01A00000 + (unat rccb + 16) in
       bindIO (mapIO (\<lambda>(i, w). wr b (phys + i * 4) w) (enumerate 0 node)) (\<lambda>_.
       bindIO (mapIO (\<lambda>i. bindIO (rd b (phys + i * 4)) (\<lambda>v. retIO (uint v))) [0..<4]) (\<lambda>rb.
       bindIO (scheme_read_full b n s6) (\<lambda>ws.
       bindIO (scheme_write_full b n s6 (ws[MODE_IDX := (ws ! MODE_IDX AND NOT (push_bit 24 0x7f)) OR push_bit 24 1]) False) (\<lambda>_.
       bindIO (scheme_read_full b n s6) (\<lambda>r.
         retIO (Some (rb = node \<and> drop_bit 24 (r ! MODE_IDX) AND 0x7f = 1))))))))"

text \<open>The bound schemes as \<^verbatim>\<open>port-sp\<close> prints them.\<close>

definition bound_schemes :: "int \<Rightarrow> nat list" where
  "bound_schemes sp = filter (\<lambda>i. sp AND push_bit (31 - i) 1 \<noteq> 0) [0..<32]"

section \<open>kg-scheme-read.py\<close>

definition ksr_fields :: "(string \<times> nat) list" where
  "ksr_fields =
     [(''kgse_mode'', 0x00), (''kgse_ekfc'', 0x04), (''kgse_ekdv'', 0x08), (''kgse_bmch'', 0x0C),
      (''kgse_bmcl'', 0x10), (''kgse_fqb'', 0x14), (''kgse_hc'', 0x18), (''kgse_ppc'', 0x1C),
      (''kgse_spc'', 0x40), (''kgse_dv0'', 0x44), (''kgse_dv1'', 0x48), (''kgse_ccbs'', 0x4C),
      (''kgse_mv'', 0x50), (''kgse_om'', 0x54), (''kgse_vsp'', 0x58)]"

definition read_scheme :: "'h bus \<Rightarrow> nat \<Rightarrow> int \<Rightarrow> ('h, (string \<times> u32) list) io" where
  "read_scheme b n sid = kg_read_fields ksr_fields b n sid"

text \<open>The scan catches a timeout or the error bit and goes on with the next scheme.\<close>

definition catch_ar :: "('h, 'a) io \<Rightarrow> ('h, py_error + 'a) io" where
  "catch_ar m h = (case m h of
      (Inr x, h') \<Rightarrow> (Inr (Inr x), h')
    | (Inl TimeoutError, h') \<Rightarrow> (Inr (Inl TimeoutError), h')
    | (Inl (RuntimeError t), h') \<Rightarrow> (Inr (Inl (RuntimeError t)), h')
    | (Inl e, h') \<Rightarrow> (Inl e, h'))"

definition ksr_main :: "'h bus \<Rightarrow> nat \<Rightarrow> ('h, (py_error + (string \<times> u32) list) list) io" where
  "ksr_main b n = mapIO (\<lambda>i. catch_ar (read_scheme b n (int i))) [0..<32]"

section \<open>ask-pcd-regdump.py and fman-full-capture.py\<close>

definition fman_reg :: "nat \<Rightarrow> nat" where "fman_reg off = 0x01a00000 + off"
definition kg_reg :: "nat \<Rightarrow> nat" where "kg_reg off = fman_reg (0xC1000 + off)"

text \<open>
  The loop polls while the deadline has not passed (\<open>n\<close> times) and reads once more after it; the
  verdict is that GO cleared without the error bit.
\<close>

fun kg_indirect_poll :: "'h bus \<Rightarrow> nat \<Rightarrow> ('h, bool \<times> u32) io" where
  "kg_indirect_poll b 0 = bindIO (rd b (kg_reg 0x1FC)) (\<lambda>ar. retIO (False, ar))"
| "kg_indirect_poll b (Suc n) =
     bindIO (rd b (kg_reg 0x1FC)) (\<lambda>ar.
       if \<not> has_bit ar GO then retIO (\<not> has_bit ar ERR, ar) else kg_indirect_poll b n)"

definition kg_indirect_op :: "'h bus \<Rightarrow> nat \<Rightarrow> int \<Rightarrow> ('h, bool \<times> u32) io" where
  "kg_indirect_op b n ar = bindIO (wr b (kg_reg 0x1FC) ar) (\<lambda>_. kg_indirect_poll b n)"

definition rd_scheme_fields :: "(string \<times> nat) list" where
  "rd_scheme_fields =
     [(''kgse_mode'', 0x000), (''kgse_ekfc'', 0x004), (''kgse_ekdv'', 0x008), (''kgse_bmch'', 0x00C),
      (''kgse_bmcl'', 0x010), (''kgse_fqb'', 0x014), (''kgse_hc'', 0x018), (''kgse_ppc'', 0x01C),
      (''kgse_gec[0]'', 0x020), (''kgse_gec[1]'', 0x024), (''kgse_gec[2]'', 0x028), (''kgse_gec[3]'', 0x02C),
      (''kgse_gec[4]'', 0x030), (''kgse_gec[5]'', 0x034), (''kgse_gec[6]'', 0x038), (''kgse_gec[7]'', 0x03C),
      (''kgse_spc'', 0x040), (''kgse_dv0'', 0x044), (''kgse_dv1'', 0x048), (''kgse_ccbs'', 0x04C),
      (''kgse_mv'', 0x050), (''kgse_om'', 0x054), (''kgse_vsp'', 0x058)]"

definition rd_fields :: "(string \<times> nat) list \<Rightarrow> nat \<Rightarrow> 'h bus \<Rightarrow> ('h, (string \<times> u32) list) io" where
  "rd_fields fs base b = mapIO (\<lambda>(nm, off). bindIO (rd b (base + off)) (\<lambda>v. retIO (nm, v))) fs"

definition rd_kg_read_scheme :: "'h bus \<Rightarrow> nat \<Rightarrow> int \<Rightarrow> ('h, (string \<times> u32) list option \<times> u32) io" where
  "rd_kg_read_scheme b n s =
     bindIO (kg_indirect_op b n (GO OR READ OR 0 OR push_bit 16 s)) (\<lambda>(ok, ar).
       if \<not> ok then retIO (None, ar)
       else bindIO (rd_fields rd_scheme_fields (kg_reg 0x100) b) (\<lambda>r. retIO (Some r, ar)))"

definition rd_kg_read_port_sp :: "'h bus \<Rightarrow> nat \<Rightarrow> int \<Rightarrow> ('h, u32 option \<times> u32) io" where
  "rd_kg_read_port_sp b n pid =
     bindIO (kg_indirect_op b n (GO OR READ OR SEL_PORT OR pid OR WSEL_SP)) (\<lambda>(ok, ar).
       if \<not> ok then retIO (None, ar) else bindIO (rd b (kg_reg 0x100)) (\<lambda>sp. retIO (Some sp, ar)))"

definition decode_sp_mask :: "int \<Rightarrow> nat list" where
  "decode_sp_mask sp = filter (\<lambda>i. sp AND push_bit i 1 \<noteq> 0) [0..<32]"

text \<open>The engine and action of a next-invoked-action word.\<close>

definition nia_eng :: "(nat \<times> string) list" where
  "nia_eng = [(0x0, ''DONE''), (0x1, ''RES1''), (0x2, ''PRS (Parser)''), (0x3, ''RES3''), (0x4, ''HWK (KG hash dispatch)''),
     (0x5, ''BMI''), (0x6, ''QMI_ENQ''), (0x7, ''QMI_DEQ''), (0x8, ''FM_CTL_A''), (0x9, ''FM_CTL_B''), (0xA, ''PLCR''),
     (0xB, ''FR (Frame Replicator)''), (0xC, ''CC (Coarse Classifier)'')]"

definition nia_decode :: "u32 \<Rightarrow> nat \<times> string \<times> nat" where
  "nia_decode nia =
     (let eng = unat (drop_bit 20 nia AND 0xf) in
      (eng, case map_of nia_eng eng of Some s \<Rightarrow> s | None \<Rightarrow> ''?'', unat (nia AND 0x000fffff)))"

text \<open>\<open>Some\<close> slot that the scan prints; an empty slot is skipped unless forced.\<close>

definition dump_kg_scheme :: "'h bus \<Rightarrow> nat \<Rightarrow> bool \<Rightarrow> nat \<Rightarrow> ('h, bool) io" where
  "dump_kg_scheme b n force s =
     bindIO (rd_kg_read_scheme b n (int s)) (\<lambda>(data, ar).
       case data of None \<Rightarrow> retIO False
       | Some d \<Rightarrow>
           (let en = (map_of d ''kgse_mode'' \<noteq> None \<and> bit (the (map_of d ''kgse_mode'')) 31) in
            retIO (force \<or> en \<or> map_of d ''kgse_mv'' \<noteq> Some 0 \<or> map_of d ''kgse_spc'' \<noteq> Some 0)))"

definition dump_all_kg_schemes :: "'h bus \<Rightarrow> nat \<Rightarrow> bool \<Rightarrow> ('h, nat) io" where
  "dump_all_kg_schemes b n force =
     bindIO (mapIO (dump_kg_scheme b n force) [0..<32]) (\<lambda>fs. retIO (length (filter id fs)))"

definition dump_port_sp :: "'h bus \<Rightarrow> nat \<Rightarrow> int \<Rightarrow> ('h, nat list option) io" where
  "dump_port_sp b n pid =
     bindIO (rd_kg_read_port_sp b n pid) (\<lambda>(sp, ar). retIO (map_option (\<lambda>v. decode_sp_mask (uint v)) sp))"

text \<open>The parameter page is dumped only when it lies inside the 384 KiB of MURAM.\<close>

definition dump_params_page :: "'h bus \<Rightarrow> u32 \<Rightarrow> ('h, u32 list option) io" where
  "dump_params_page b rgpr =
     (if rgpr = 0 \<or> unat rgpr + 64 * 4 > 0x60000 then retIO None
      else bindIO (mapIO (\<lambda>i. rd b (fman_reg (unat rgpr + i * 4))) [0..<64]) (\<lambda>ws. retIO (Some ws)))"

datatype scheme_capture = CapError u32 | CapFields "(string \<times> u32) list"

definition capture_scheme :: "'h bus \<Rightarrow> nat \<Rightarrow> nat \<Rightarrow> ('h, (nat \<times> scheme_capture) list) io" where
  "capture_scheme b n s =
     bindIO (kg_indirect_op b n (GO OR READ OR 0 OR push_bit 16 (int s))) (\<lambda>(ok, ar).
       if \<not> ok then retIO [(s, CapError ar)]
       else bindIO (rd_fields rd_scheme_fields (kg_reg 0x100) b) (\<lambda>d.
         retIO (if (map_of d ''kgse_mode'' \<noteq> None \<and> bit (the (map_of d ''kgse_mode'')) 31) \<or>
                   map_of d ''kgse_mv'' \<noteq> Some 0 \<or> map_of d ''kgse_spc'' \<noteq> Some 0
                then [(s, CapFields d)] else [])))"

definition capture_kg :: "'h bus \<Rightarrow> nat \<Rightarrow> ('h, u32 list \<times> (nat \<times> scheme_capture) list) io" where
  "capture_kg b n =
     bindIO (mapIO (\<lambda>off. rd b (kg_reg off)) [0x000, 0x024, 0x01C, 0x028]) (\<lambda>g.
     bindIO (mapIO (capture_scheme b n) [0..<32]) (\<lambda>ss. retIO (g, concat ss)))"

definition capture_port :: "'h bus \<Rightarrow> nat \<Rightarrow> int \<Rightarrow> ('h, (u32 + u32 \<times> nat list)) io" where
  "capture_port b n pid =
     bindIO (kg_indirect_op b n (GO OR READ OR SEL_PORT OR pid OR WSEL_SP)) (\<lambda>(ok, ar).
       if \<not> ok then retIO (Inl ar)
       else bindIO (rd b (kg_reg 0x100)) (\<lambda>sp. retIO (Inr (sp, decode_sp_mask (uint sp)))))"

definition capture_kg_port_partitions :: "'h bus \<Rightarrow> nat \<Rightarrow> int list \<Rightarrow> ('h, (int \<times> (u32 + u32 \<times> nat list)) list) io" where
  "capture_kg_port_partitions b n pids =
     mapIO (\<lambda>p. bindIO (capture_port b n p) (\<lambda>r. retIO (p, r))) pids"

definition capture_fpm_ports :: "'h bus \<Rightarrow> nat list \<Rightarrow> ('h, (nat \<times> u32 \<times> bool) list) io" where
  "capture_fpm_ports b pids =
     mapIO (\<lambda>p. bindIO (rd b (fman_reg (0xC3000 + 0x100 + p * 4))) (\<lambda>v. retIO (p, v, has_bit v 0x00800000))) pids"

section \<open>Reading never writes a scheme\<close>

definition ar_read :: "nat \<times> int \<Rightarrow> bool" where
  "ar_read = (\<lambda>(a, v). a = ar_addr \<and> v AND READ \<noteq> 0)"

lemma read_bit [simp]: "(GO OR READ OR x) AND READ \<noteq> 0"
proof
  assume "(GO OR READ OR x) AND READ = 0"
  then have "\<not> bit ((GO OR READ OR x) AND READ) 30" by simp
  moreover have "bit READ 30" by (simp add: READ_def bit_iff_odd)
  ultimately show False by (simp add: bit_and_iff bit_or_iff)
qed

lemma kg_reg_ar: "kg_reg 0x1FC = ar_addr"
  by (simp add: kg_reg_def fman_reg_def ar_addr_def kg_consts)

lemma writes_ar_poll [writes_intros]: "writes_only P (ar_poll (logged b) n)"
  by (induction n) (auto intro!: writes_intros)

lemma writes_ar_wait [writes_intros]: "writes_only P (ar_wait (logged b) n)"
  by (auto simp: ar_wait_def intro!: writes_intros)

lemma writes_indirect_poll [writes_intros]: "writes_only P (kg_indirect_poll (logged b) n)"
  by (induction n) (auto intro!: writes_intros)

lemma writes_catch [writes_intros]: "writes_only P m \<Longrightarrow> writes_only P (catch_ar m)"
  unfolding writes_only_def catch_ar_def
  by (auto split: prod.splits sum.splits py_error.splits) (metis snd_conv)+

lemma reads_kg_fields: "writes_only ar_read (kg_read_fields fs (logged b) n sid)"
  by (auto simp: kg_read_fields_def ar_read_def intro!: writes_intros)

lemma reads_scheme_full: "writes_only ar_read (scheme_read_full (logged b) n sid)"
  by (auto simp: scheme_read_full_def ar_read_def intro!: writes_intros)

lemma reads_port_sp: "writes_only ar_read (port_sp_read (logged b) n pid)"
  by (auto simp: port_sp_read_def ar_read_def intro!: writes_intros)

lemma reads_lcv: "writes_only ar_read (hwp_read_all_lcv (logged b) dev)"
  by (auto simp: hwp_read_all_lcv_def intro!: writes_intros)

lemma reads_indirect: "writes_only ar_read (kg_indirect_op (logged b) n (GO OR READ OR x))"
  by (auto simp: kg_indirect_op_def ar_read_def kg_reg_ar intro!: writes_intros)

lemma reads_rd_scheme: "writes_only ar_read (rd_kg_read_scheme (logged b) n s)"
  by (auto simp: rd_kg_read_scheme_def rd_fields_def intro!: writes_intros reads_indirect)

lemma reads_capture:
  "writes_only ar_read (capture_kg (logged b) n)"
  "writes_only ar_read (capture_kg_port_partitions (logged b) n pids)"
  "writes_only ar_read (dump_all_kg_schemes (logged b) n force)"
  "writes_only ar_read (dump_port_sp (logged b) n pid)"
  by (auto simp: capture_kg_def capture_scheme_def rd_fields_def capture_kg_port_partitions_def capture_port_def
      dump_all_kg_schemes_def dump_kg_scheme_def Let_def dump_port_sp_def rd_kg_read_port_sp_def
      intro!: writes_intros reads_indirect reads_rd_scheme)

section \<open>The trace of the experiment\<close>

definition write_trace :: "int \<Rightarrow> int list \<Rightarrow> bool \<Rightarrow> wlog" where
  "write_trace sid ws upd =
     map (\<lambda>(i, w). (shadow_addr i, w)) (enumerate 0 ws) @
     [(ar_addr, GO OR push_bit 16 sid OR (if upd then UPD_CNT else 0))]"

definition lcv_trace :: "nat \<Rightarrow> int list \<Rightarrow> wlog" where
  "lcv_trace base lcv = map (\<lambda>(i, v). (lcv_addr base i, v)) (enumerate 0 lcv)"

abbreviation scheme_read_cmd :: "int \<Rightarrow> nat \<times> int" where
  "scheme_read_cmd sid \<equiv> (ar_addr, GO OR READ OR push_bit 16 sid)"

abbreviation sp_read_cmd :: "int \<Rightarrow> nat \<times> int" where
  "sp_read_cmd pid \<equiv> (ar_addr, GO OR READ OR SEL_PORT OR WSEL_SP OR pid)"

definition sp_write_trace :: "int \<Rightarrow> int \<Rightarrow> wlog" where
  "sp_write_trace pid sp = [(KG_BASE + SHADOW, sp), (ar_addr, GO OR SEL_PORT OR WSEL_SP OR pid)]"

lemma emits_ar_poll: "emits (ar_poll (logged b) n) {[]}"
proof (induction n)
  case 0
  show ?case by (auto intro!: emits_bind_silent emits_rd emits_raise emits_ret)
next
  case (Suc n)
  then show ?case by (auto intro!: emits_bind_silent emits_rd emits_ret)
qed

lemma emits_ar_wait: "emits (ar_wait (logged b) n) {[]}"
  by (auto simp: ar_wait_def intro!: emits_bind_silent emits_ar_poll emits_raise emits_ret)

lemma emits_scheme_read: "emits (scheme_read_full (logged b) n sid) {[scheme_read_cmd sid]}"
  unfolding scheme_read_full_def
  by (intro emits_bind_last emits_wr emits_bind_silent emits_ar_wait emits_silent_mapIO emits_rd emits_ret) simp_all

lemma emits_sp_read: "emits (port_sp_read (logged b) n pid) {[sp_read_cmd pid]}"
  unfolding port_sp_read_def
  by (intro emits_bind_last emits_wr emits_bind_silent emits_ar_wait emits_rd emits_ret) simp_all

lemma emits_sp_write: "emits (port_sp_write (logged b) n pid sp) {sp_write_trace pid sp}"
proof -
  have "emits (port_sp_write (logged b) n pid sp) {[(KG_BASE + SHADOW, sp)] @ [(ar_addr, GO OR SEL_PORT OR WSEL_SP OR pid)]}"
    unfolding port_sp_write_def by (intro emits_bind1 emits_bind_last emits_wr emits_ar_wait)
  then show ?thesis by (simp add: sp_write_trace_def)
qed

lemma emits_scheme_write:
  "length ws = SCHEME_WORDS \<Longrightarrow> emits (scheme_write_full (logged b) n sid ws upd) {write_trace sid ws upd}"
proof -
  assume len: "length ws = SCHEME_WORDS"
  show ?thesis unfolding scheme_write_full_def write_trace_def
    using len by (simp only: simp_thms if_False) (intro emits_bind1 emits_mapIO_wr emits_bind_last emits_wr emits_ar_wait)
qed

lemma bind_lift_Inr: "bindIO (liftIO (Inr x)) f = f x"
  by (simp add: fun_eq_iff bindIO_def liftIO_def)

lemma emits_lcv_write:
  assumes "hwp_base dev = Inr base"
  shows "emits (hwp_write_all_lcv (logged b) dev lcv) {lcv_trace base lcv}"
  unfolding hwp_write_all_lcv_def assms bind_lift_Inr lcv_trace_def
  by (intro emits_bind_last emits_mapIO_wr emits_ret)

lemma emits_lcv_read: "emits (hwp_read_all_lcv (logged b) dev) {[]}"
  unfolding hwp_read_all_lcv_def
  by (intro emits_bind_silent emits_lift emits_silent_mapIO emits_rd emits_ret) simp_all

definition apply_trace :: "nat \<Rightarrow> snap \<Rightarrow> int \<Rightarrow> int \<Rightarrow> int \<Rightarrow> wlog" where
  "apply_trace base s v4 v6 sp =
     write_trace (s_v4 s) ((s_w4 s)[MV_IDX := v4]) False @
     write_trace (s_v6 s) (((s_w4 s)[MV_IDX := v6])[SPC_IDX := 0]) True @
     lcv_trace base (exp_lcv v4 v6) @
     [sp_read_cmd (s_port s)] @
     sp_write_trace (s_port s) (sp OR push_bit (nat (31 - s_v6 s)) 1) @
     [scheme_read_cmd (s_v4 s), scheme_read_cmd (s_v6 s), sp_read_cmd (s_port s)]"

definition restore_trace :: "nat \<Rightarrow> snap \<Rightarrow> wlog" where
  "restore_trace base s =
     sp_write_trace (s_port s) (s_sp s) @ write_trace (s_v4 s) (s_w4 s) False @
     write_trace (s_v6 s) (s_w6 s) True @ lcv_trace base (s_lcv s) @ [sp_read_cmd (s_port s)]"

lemma emits_sp_tail:
  fixes g :: "int \<Rightarrow> ('h \<times> wlog, 'a) io"
  assumes "\<And>sp. emits (g sp) {t sp}"
  shows "emits (bindIO (port_sp_read (logged b) n pid) g) {[sp_read_cmd pid] @ t sp |sp. True}"
proof -
  have "emits (g sp) {t sp |sp. True}" for sp
    by (rule emits_mono [OF assms]) auto
  then have "emits (bindIO (port_sp_read (logged b) n pid) g) (cat {[sp_read_cmd pid]} {t sp |sp. True})"
    by (intro emits_bind [OF emits_sp_read]) auto
  moreover have "cat {[sp_read_cmd pid]} {t sp |sp. True} = {[sp_read_cmd pid] @ t sp |sp. True}"
    by (auto simp: cat_def)
  ultimately show ?thesis by simp
qed

lemma emits_bind_tail:
  assumes "emits m {s}" "\<And>x. emits (f x) {t sp |sp. True}"
  shows "emits (bindIO m f) {s @ t sp |sp. True}"
proof -
  have "emits (bindIO m f) (cat {s} {t sp |sp. True})" by (intro emits_bind assms) auto
  moreover have "cat {s} {t sp |sp. True} = {s @ t sp |sp. True}" by (auto simp: cat_def)
  ultimately show ?thesis by simp
qed

lemma emits_apply:
  assumes "length (s_w4 s) = SCHEME_WORDS" "hwp_base (s_dev s) = Inr base" "s_v6 s \<le> 31"
  shows "emits (exp_apply (logged b) n True s v4 v6) {apply_trace base s v4 v6 sp |sp. True}"
proof -
  have set4: "list_set MV_IDX v4 (s_w4 s) = Inr ((s_w4 s)[MV_IDX := v4])"
    and set6: "bindE (list_set MV_IDX v6 (s_w4 s)) (list_set SPC_IDX 0) = Inr (((s_w4 s)[MV_IDX := v6])[SPC_IDX := 0])"
    using assms(1) by (simp_all add: list_set_def kg_consts)
  have sp: "sp_bit (s_v6 s) = Inr (push_bit (nat (31 - s_v6 s)) 1)" using assms(3) by (simp add: sp_bit_def)
  have readback: "emits (bindIO (scheme_read_full (logged b) n (s_v4 s)) (\<lambda>a.
      bindIO (scheme_read_full (logged b) n (s_v6 s)) (\<lambda>c. bindIO (hwp_read_all_lcv (logged b) (s_dev s)) (\<lambda>d.
        bindIO (port_sp_read (logged b) n (s_port s)) (\<lambda>e. retIO (g a c d e))))))
      {[scheme_read_cmd (s_v4 s)] @ [scheme_read_cmd (s_v6 s)] @ [sp_read_cmd (s_port s)]}" for g :: "_ \<Rightarrow> _ \<Rightarrow> _ \<Rightarrow> _ \<Rightarrow> 'b"
    by (intro emits_bind1 emits_scheme_read emits_bind_silent emits_lcv_read emits_bind_last emits_sp_read emits_ret) simp_all
  show ?thesis
    unfolding exp_apply_def apply_trace_def set4 set6 sp bind_lift_Inr not_True_eq_False if_False
    apply (rule emits_bind_tail [OF emits_scheme_write], simp add: assms)
    apply (rule emits_bind_tail [OF emits_scheme_write], simp add: assms)
    apply (rule emits_bind_tail [OF emits_lcv_write [OF assms(2)]])
    apply (rule emits_sp_tail)
    apply (rule emits_bind1 [OF emits_sp_write])
    using readback by simp
qed

lemma emits_restore:
  assumes "length (s_w4 s) = SCHEME_WORDS" "length (s_w6 s) = SCHEME_WORDS" "hwp_base (s_dev s) = Inr base"
  shows "emits (exp_restore (logged b) n True s) {restore_trace base s}"
  unfolding exp_restore_def restore_trace_def simp_thms if_False
  by (intro emits_bind1 emits_sp_write emits_scheme_write emits_lcv_write emits_bind_last emits_sp_read
      emits_bind_silent emits_lcv_read emits_ret assms) simp_all

lemma emits_dry: "emits (exp_apply (logged b) n False s v4 v6) {[]}" "emits (exp_restore (logged b) n False s) {[]}"
  by (simp_all add: exp_apply_def exp_restore_def emits_ret)

section \<open>A snapshot is enough to apply and restore\<close>

lemma bindIO_Inr: "bindIO m f h = (Inr y, h'') \<longleftrightarrow> (\<exists>x h'. m h = (Inr x, h') \<and> f x h' = (Inr y, h''))"
  by (auto simp: bindIO_def split: prod.splits sum.splits)

lemma mapIO_length: "mapIO f xs h = (Inr ys, h') \<Longrightarrow> length ys = length xs"
  by (induction xs arbitrary: ys h h') (auto simp: retIO_def bindIO_Inr)

lemma scheme_read_length: "scheme_read_full b n sid h = (Inr ws, h') \<Longrightarrow> length ws = SCHEME_WORDS"
  unfolding scheme_read_full_def by (auto simp: bindIO_Inr dest: mapIO_length)

lemma lcv_read_base: "hwp_read_all_lcv b dev h = (Inr lcv, h') \<Longrightarrow> \<exists>base. hwp_base dev = Inr base"
  unfolding hwp_read_all_lcv_def by (auto simp: bindIO_Inr liftIO_def)

lemma snapshot_complete:
  assumes "exp_snapshot b n dev pid v4 v6 h = (Inr s, h')"
  shows "length (s_w4 s) = SCHEME_WORDS" "length (s_w6 s) = SCHEME_WORDS" "\<exists>base. hwp_base (s_dev s) = Inr base"
    "s_dev s = dev" "s_port s = pid" "s_v4 s = v4" "s_v6 s = v6"
  using assms unfolding exp_snapshot_def
  by (auto simp: bindIO_Inr retIO_def dest: scheme_read_length lcv_read_base)

section \<open>What the tools guarantee\<close>

text \<open>The inspection commands never change a scheme or a parser vector: on every device, all they
  write is the action register, and each such command has the READ bit set.\<close>
lemma kg_readers_never_write:
  "writes_only ar_read (exp_snapshot (logged b) n dev pid v4 v6) \<and>
   writes_only ar_read (hwp_dump (logged b) dev) \<and>
   writes_only ar_read (kg_spc (logged b) n sids) \<and>
   writes_only ar_read (ksr_main (logged b) n) \<and>
   writes_only ar_read (dump_all_kg_schemes (logged b) n force) \<and>
   writes_only ar_read (dump_port_sp (logged b) n pid) \<and>
   writes_only ar_read (dump_params_page (logged b) rgpr) \<and>
   writes_only ar_read (capture_kg (logged b) n) \<and>
   writes_only ar_read (capture_kg_port_partitions (logged b) n pids)"
  by (auto simp: exp_snapshot_def hwp_dump_def kg_spc_def kg_read_scheme_def ksr_main_def read_scheme_def
      dump_params_page_def reads_capture intro!: writes_intros reads_lcv reads_port_sp reads_scheme_full reads_kg_fields)

text \<open>C13. Whatever the device answers, a snapshot that was taken is enough for the whole experiment:
  \<open>apply\<close> programs both schemes and the parser vectors before the port's scheme partition, the
  write that exposes them; \<open>restore\<close> withdraws the partition first and then puts every saved word
  back; a failure leaves a prefix of that trace, and without \<^verbatim>\<open>--write\<close> nothing is written at all.\<close>
theorem experiment_trace:
  assumes "exp_snapshot b0 n0 dev pid s4 s6 h = (Inr s, h')" "s6 \<le> 31"
  shows "\<exists>base. hwp_base dev = Inr base \<and>
    emits (exp_apply (logged b) n True s v4 v6) {apply_trace base s v4 v6 sp |sp. True} \<and>
    emits (exp_restore (logged b) n True s) {restore_trace base s} \<and>
    emits (exp_apply (logged b) n False s v4 v6) {[]} \<and> emits (exp_restore (logged b) n False s) {[]}"
proof -
  note s = snapshot_complete [OF assms(1)]
  then obtain base where base: "hwp_base (s_dev s) = Inr base" by blast
  with s assms(2) show ?thesis
    by (intro exI [of _ base] conjI emits_apply emits_restore emits_dry) simp_all
qed

definition idle_bus :: "unit bus" where
  "idle_bus = \<lparr> bus_read = (\<lambda>a h. (0, h)), bus_write = (\<lambda>a v h. h) \<rparr>"

lemma idle_read: "rd idle_bus a h = (Inr 0, h)"
  by (simp add: rd_def idle_bus_def)

lemma idle_mapIO: "mapIO (\<lambda>i. bindIO (rd idle_bus (f i)) (\<lambda>v. retIO (uint v))) xs h = (Inr (map (\<lambda>_. 0) xs), h)"
  by (induction xs) (simp_all add: retIO_def bindIO_def idle_read)

lemma idle_wait: "ar_wait idle_bus 0 h = (Inr (), h)"
  by (simp add: ar_wait_def bindIO_def idle_read retIO_def has_bit_def)

theorem experiment_trace_witness:
  "\<exists>s base. exp_snapshot idle_bus 0 ''eth1'' 9 3 5 () = (Inr s, ()) \<and> hwp_base ''eth1'' = Inr base \<and>
    emits (exp_apply (logged idle_bus) 0 True s 7 8) {apply_trace base s 7 8 sp |sp. True}"
proof -
  have ex: "\<exists>s. exp_snapshot idle_bus 0 ''eth1'' 9 3 5 () = (Inr s, ())"
    by (simp add: exp_snapshot_def hwp_read_all_lcv_def port_sp_read_def scheme_read_full_def hwp_base_def
        bindIO_def liftIO_def idle_mapIO idle_wait idle_read wr_def retIO_def kg_consts)
  then obtain s where "exp_snapshot idle_bus 0 ''eth1'' 9 3 5 () = (Inr s, ())" by blast
  from this experiment_trace [OF this] show ?thesis by (fastforce simp only: simp_thms)
qed

lemma in_bound_schemes: "i \<in> set (bound_schemes sp) \<longleftrightarrow> i < 32 \<and> bit sp (31 - i)"
  by (auto simp: bound_schemes_def push_bit_eq_mult and_exp_eq_0_iff_not_bit)

lemma in_decode_sp_mask: "i \<in> set (decode_sp_mask sp) \<longleftrightarrow> i < 32 \<and> bit sp i"
  by (auto simp: decode_sp_mask_def push_bit_eq_mult and_exp_eq_0_iff_not_bit)

text \<open>The two decoders of a scheme-partition word number the schemes from opposite ends, and it is
  \<^verbatim>\<open>kg-lcv-probe\<close>'s numbering that agrees with the bit its own \<open>apply\<close> sets: after it, exactly
  the sacrificial scheme is added to the bound ones.\<close>
lemma sp_numbering:
  assumes "i < 32" "0 \<le> s" "s < 32"
  shows "(i \<in> set (bound_schemes sp) \<longleftrightarrow> 31 - i \<in> set (decode_sp_mask sp)) \<and>
    (\<exists>m. sp_bit s = Inr m \<and> set (bound_schemes (sp OR m)) = insert (nat s) (set (bound_schemes sp)))"
proof
  show "i \<in> set (bound_schemes sp) \<longleftrightarrow> 31 - i \<in> set (decode_sp_mask sp)"
    using assms(1) by (auto simp: in_bound_schemes in_decode_sp_mask)
  have m: "sp_bit s = Inr (push_bit (31 - nat s) 1)"
    using assms by (simp add: sp_bit_def nat_diff_distrib)
  have "bit (sp OR push_bit (31 - nat s) 1) (31 - j) \<longleftrightarrow> bit sp (31 - j) \<or> j = nat s" if "j < 32" for j
    using that assms by (auto simp: bit_or_iff push_bit_eq_mult bit_exp_iff)
  then have "set (bound_schemes (sp OR push_bit (31 - nat s) 1)) = insert (nat s) (set (bound_schemes sp))"
    unfolding set_eq_iff insert_iff in_bound_schemes using assms(2,3) by auto
  with m show "\<exists>m. sp_bit s = Inr m \<and> set (bound_schemes (sp OR m)) = insert (nat s) (set (bound_schemes sp))" by blast
qed

lemma sp_numbering_witness:
  "((3::nat) \<in> set (bound_schemes 1) \<longleftrightarrow> 28 \<in> set (decode_sp_mask 1)) \<and>
   (\<exists>m. sp_bit 5 = Inr m \<and> set (bound_schemes (1 OR m)) = insert 5 (set (bound_schemes 1)))"
  using sp_numbering [of 3 5 1] by simp

section \<open>The polls end\<close>

text \<open>What the \<open>k\<close>-th read of a register returns when it is read over and over.\<close>

definition after_reads :: "'h bus \<Rightarrow> nat \<Rightarrow> nat \<Rightarrow> 'h \<Rightarrow> 'h" where
  "after_reads b a k = (\<lambda>h. snd (bus_read b a h)) ^^ k"

definition nth_read :: "'h bus \<Rightarrow> nat \<Rightarrow> 'h \<Rightarrow> nat \<Rightarrow> u32" where
  "nth_read b a h k = fst (bus_read b a (after_reads b a k h))"

text \<open>The first of the reads up to the \<open>n\<close>-th with a clear GO bit, if there is one.\<close>

definition first_clear :: "'h bus \<Rightarrow> nat \<Rightarrow> 'h \<Rightarrow> nat \<Rightarrow> nat option" where
  "first_clear b a h n = find (\<lambda>k. \<not> has_bit (nth_read b a h k) GO) [0..<n]"

lemma after_reads_Suc: "after_reads b a (Suc k) h = after_reads b a k (snd (bus_read b a h))"
  by (simp add: after_reads_def funpow_Suc_right del: funpow.simps)

lemma after_reads_0 [simp]: "after_reads b a 0 h = h" by (simp add: after_reads_def)

lemma nth_read_Suc: "nth_read b a h (Suc k) = nth_read b a (snd (bus_read b a h)) k"
  by (simp add: nth_read_def after_reads_Suc)

lemma nth_read_0: "nth_read b a h 0 = fst (bus_read b a h)" by (simp add: nth_read_def)

lemma first_clear_Suc:
  "first_clear b a h (Suc n) =
     (if \<not> has_bit (fst (bus_read b a h)) GO then Some 0 else map_option Suc (first_clear b a (snd (bus_read b a h)) n))"
proof -
  have "find P (map Suc xs) = map_option Suc (find (P \<circ> Suc) xs)" for P xs by (induction xs) auto
  then show ?thesis
    by (simp add: first_clear_def upt_conv_Cons nth_read_0 nth_read_Suc comp_def flip: map_Suc_upt del: upt_Suc)
qed

lemma first_clear_0 [simp]: "first_clear b a h 0 = None" by (simp add: first_clear_def)

lemma rd_split: "rd b a h = (Inr (fst (bus_read b a h)), snd (bus_read b a h))"
  by (simp add: rd_def Let_def split_beta)

lemma ar_poll_first:
  "ar_poll b n h = (case first_clear b ar_addr h (Suc n) of
     None \<Rightarrow> (Inl TimeoutError, after_reads b ar_addr (Suc n) h)
   | Some k \<Rightarrow> (Inr (nth_read b ar_addr h k), after_reads b ar_addr (Suc k) h))"
proof (induction n arbitrary: h)
  case 0
  show ?case by (simp add: first_clear_Suc io_defs rd_split after_reads_Suc nth_read_0)
next
  case (Suc n)
  show ?case
    by (subst first_clear_Suc)
      (simp add: io_defs rd_split Suc after_reads_Suc nth_read_0 nth_read_Suc split: option.splits)
qed

lemma kg_indirect_poll_first:
  "kg_indirect_poll b n h = (case first_clear b (kg_reg 0x1FC) h n of
     None \<Rightarrow> (Inr (False, nth_read b (kg_reg 0x1FC) h n), after_reads b (kg_reg 0x1FC) (Suc n) h)
   | Some k \<Rightarrow> (Inr (\<not> has_bit (nth_read b (kg_reg 0x1FC) h k) ERR, nth_read b (kg_reg 0x1FC) h k), after_reads b (kg_reg 0x1FC) (Suc k) h))"
proof (induction n arbitrary: h)
  case 0
  show ?case by (simp add: io_defs rd_split after_reads_Suc nth_read_0)
next
  case (Suc n)
  show ?case
    by (subst first_clear_Suc)
      (simp add: io_defs rd_split Suc after_reads_Suc nth_read_0 nth_read_Suc split: option.splits)
qed

lemma first_clear_iff: "first_clear b a h n = Some k \<longleftrightarrow>
    k < n \<and> \<not> has_bit (nth_read b a h k) GO \<and> (\<forall>j < k. has_bit (nth_read b a h j) GO)"
  by (auto simp: first_clear_def find_Some_iff)

text \<open>Both polls of the indirect access register end, whatever the device answers: with room for
  \<open>n\<close> polls they read it at most \<open>n + 1\<close> times, stop at the first read with GO clear and judge
  the command by that read's error bit.  If there is none among them, \<^verbatim>\<open>kg-lcv-probe\<close> raises; the
  register dump reports a failure, and does so even when its read after the deadline finds GO clear.\<close>
lemma polls_end:
  "(case first_clear b ar_addr h (Suc n) of
      Some k \<Rightarrow> k \<le> n \<and> ar_wait b n h =
        ((if has_bit (nth_read b ar_addr h k) ERR then Inl (RuntimeError ''AR ERR'') else Inr ()), after_reads b ar_addr (Suc k) h)
    | None \<Rightarrow> ar_wait b n h = (Inl TimeoutError, after_reads b ar_addr (Suc n) h)) \<and>
   (case first_clear b (kg_reg 0x1FC) h n of
      Some k \<Rightarrow> k < n \<and> kg_indirect_poll b n h =
        (Inr (\<not> has_bit (nth_read b (kg_reg 0x1FC) h k) ERR, nth_read b (kg_reg 0x1FC) h k), after_reads b (kg_reg 0x1FC) (Suc k) h)
    | None \<Rightarrow> kg_indirect_poll b n h =
        (Inr (False, nth_read b (kg_reg 0x1FC) h n), after_reads b (kg_reg 0x1FC) (Suc n) h))"
  by (cases "first_clear b ar_addr h (Suc n)"; cases "first_clear b (kg_reg 0x1FC) h n")
    (simp_all add: ar_wait_def ar_poll_first kg_indirect_poll_first io_defs, simp_all add: first_clear_iff)

end
