(* ===== verification/HexText.thy ===== *)
theory HexText
  imports PyText
begin

text \<open>
  Hexadecimal text: what \<^verbatim>\<open>%x\<close> prints, \<^verbatim>\<open>int(s, 16)\<close> reads back.
\<close>

lemma hex_digit_hex: "d < 16 \<Longrightarrow> is_hex (hex_digit d) \<and> hexv (hex_digit d) = d"
  by (auto simp: hex_digit_def is_hex_code hexv_def digit_val_def)

lemma hex_str_hex: "\<forall>c \<in> set (hex_str n). is_hex c"
  and hex_str_value: "foldl (\<lambda>a c. a * 16 + hexv c) 0 (hex_str n) = n"
  and length_hex_str: "n < 16 ^ k \<Longrightarrow> 0 < k \<Longrightarrow> length (hex_str n) \<le> k"
proof (induction n arbitrary: k rule: hex_str.induct)
  case (1 n)
  { case 1
    show ?case using "1.IH"(1) hex_digit_hex by (cases "n < 16") (auto simp: hex_str.simps [of n])
  next
    case 2
    show ?case using "1.IH"(2) hex_digit_hex by (cases "n < 16") (auto simp: hex_str.simps [of n])
  next
    case (3 k)
    show ?case
    proof (cases "n < 16")
      case False
      with 3 obtain j where k: "k = Suc j" "0 < j" by (cases k; cases "k - 1") auto
      with 3 have "n div 16 < 16 ^ j" by (simp add: less_mult_imp_div_less mult.commute)
      with "1.IH"(3) [OF False, of j] k False show ?thesis by (simp add: hex_str.simps [of n])
    qed (use 3 in \<open>simp add: hex_str.simps [of n]\<close>)
  }
qed

lemma digits_value:
  "\<forall>c \<in> set s. is_hex c \<Longrightarrow> s \<noteq> [] \<or> ok \<Longrightarrow> digits 16 ok acc s = Some (foldl (\<lambda>a c. a * 16 + hexv c) acc s)"
proof (induction s arbitrary: ok acc)
  case (Cons c s)
  then show ?case using is_hex_distinct [of c] digit_val_hex [of c] by simp
qed simp

lemma py_int_hex_value:
  assumes "s \<noteq> []" "\<forall>c \<in> set s. is_hex c"
  shows "py_int 16 s = Inr (int (foldl (\<lambda>a c. a * 16 + hexv c) 0 s))"
proof -
  have st: "strip s = s" using assms is_hex_distinct by (intro strip_id) auto
  obtain c r where s: "s = c # r" using assms(1) by (cases s) auto
  have "prefix_base s \<noteq> Some 16"
    using assms(2) is_hex_distinct by (fastforce simp: prefix_base_def s split: list.splits if_splits)
  then have "unsigned_int 16 s = Some (foldl (\<lambda>a c. a * 16 + hexv c) 0 s)"
    using digits_value [of s False 0] assms by (simp add: unsigned_int_def)
  moreover have "\<not> startswith s ''-''" "\<not> startswith s ''+''"
    using assms(2) is_hex_distinct [of c] by (auto simp: startswith_def s)
  ultimately show ?thesis unfolding py_int_def Let_def st by simp
qed

lemma hex_fmt_hex: "\<forall>c \<in> set (hex_fmt k n). is_hex c"
  using hex_str_hex [of n] by (auto simp: hex_fmt_def Let_def is_hex_code)

lemma hex_fmt_8: "n < 2 ^ 32 \<Longrightarrow> length (hex_fmt 8 n) = 8"
  using length_hex_str [of n 8] by (simp add: hex_fmt_def Let_def)

lemma hex_fmt_value: "foldl (\<lambda>a c. a * 16 + hexv c) 0 (hex_fmt k n) = n"
proof -
  have "foldl (\<lambda>a c. a * 16 + hexv c) 0 (replicate j (CHR ''0'')) = 0" for j
    by (induction j) (simp_all add: hexv_def digit_val_def)
  then show ?thesis by (simp add: hex_fmt_def Let_def hex_str_value)
qed

lemma after_prefix_hex: "s \<noteq> [] \<Longrightarrow> \<forall>c \<in> set s. is_hex c \<Longrightarrow>
  after_prefix 16 (''0x'' @ s) = Some (foldl (\<lambda>a c. a * 16 + hexv c) 0 s)"
  using is_hex_distinct [of "hd s"] digits_value [of s False 0]
  by (cases s) (auto simp: after_prefix_def startswith_def)

lemma py_int_0x_hex:
  assumes "s \<noteq> []" "\<forall>c \<in> set s. is_hex c"
  shows "py_int 16 (''0x'' @ s) = Inr (int (foldl (\<lambda>a c. a * 16 + hexv c) 0 s))"
proof -
  have "\<not> is_space c" if "c \<in> set (''0x'' @ s)" for c
  proof (cases "c \<in> set s")
    case False
    then show ?thesis using that by (auto simp: is_space_def)
  qed (use assms(2) is_hex_distinct in blast)
  then have "strip (''0x'' @ s) = ''0x'' @ s" by (intro strip_id) blast
  moreover have "unsigned_int 16 (''0x'' @ s) = Some (foldl (\<lambda>a c. a * 16 + hexv c) 0 s)"
    using after_prefix_hex [OF assms] by (simp add: unsigned_int_def prefix_base_def)
  ultimately show ?thesis by (simp add: py_int_def Let_def startswith_def)
qed

end
