(* ===== verification/PcdSnap.thy ===== *)
theory PcdSnap
  imports KeyGen PyText "HOL-Library.AList" "HOL-Library.List_Lexorder"
begin

text \<open>
  The reversibility gate \<^verbatim>\<open>board/scripts/pcd-snapshot\<close>: it captures the registers that a switch of the data
  path changes, and a later capture is compared with the first.  A capture runs on a bus whose answers are a
  parameter.  A snapshot is the record of the dictionary's entries, words as the texts the program stores; a
  scheme's key is its number.  The time stamp and the colours of a terminal are left out.
\<close>

section \<open>Registers\<close>

definition FMAN_BASE :: nat where "FMAN_BASE = 0x1A00000"
definition BMI_COMMON :: nat where "BMI_COMMON = 0x80000"
definition KG_OFF :: nat where "KG_OFF = 0xC1000"
definition KG_GLOBAL_GCR :: nat where "KG_GLOBAL_GCR = 0"
definition KG_GLOBAL_SEER :: nat where "KG_GLOBAL_SEER = 0x1C"
definition KG_GLOBAL_TPC :: nat where "KG_GLOBAL_TPC = 0x28"
definition KG_GLOBAL_SERC :: nat where "KG_GLOBAL_SERC = 0x2C"
definition KG_WINDOW :: nat where "KG_WINDOW = 0x100"
definition KG_AR :: nat where "KG_AR = 0x1FC"
definition KG_GO :: int where "KG_GO = 0x80000000"
definition KG_READ :: int where "KG_READ = 0x40000000"
definition KG_ERR :: int where "KG_ERR = 0x20000000"
definition KG_SEL_PORT :: int where "KG_SEL_PORT = 0x02000000"
definition KG_SCHEME_WORDS :: nat where "KG_SCHEME_WORDS = 24"
definition NUM_SCHEMES :: nat where "NUM_SCHEMES = 32"
definition BMI_CFG_WORDS :: nat where "BMI_CFG_WORDS = 32"
definition BMI_RFPNE :: nat where "BMI_RFPNE = 0x28"
definition BMI_RCCB :: nat where "BMI_RCCB = 0x34"
definition RX_PORT_IDS :: "nat list" where "RX_PORT_IDS = [0x08, 0x09, 0x0A, 0x0B, 0x0C, 0x0D, 0x10, 0x11]"
definition HWP_PORT_REGS_OFFSET :: nat where "HWP_PORT_REGS_OFFSET = 0x800"
definition HWP_HXS_COUNT :: nat where "HWP_HXS_COUNT = 16"
definition CC_REGION_OFF :: nat where "CC_REGION_OFF = 0x5AC00"
definition CC_REGION_WORDS :: nat where "CC_REGION_WORDS = 0x80"

definition NAMES_SCHEME :: "string list" where
  "NAMES_SCHEME = [''mode'', ''ekfc'', ''ekdv'', ''bmch'', ''bmcl'', ''fqb'', ''hc'', ''ppc'',
     ''gec0'', ''gec1'', ''gec2'', ''gec3'', ''gec4'', ''gec5'', ''gec6'', ''gec7'',
     ''spc'', ''dv0'', ''dv1'', ''ccbs'', ''mv'', ''om'', ''vsp'', ''r5c'']"

definition SCHEME_VOLATILE_IDX :: "nat set" where
  "SCHEME_VOLATILE_IDX = set (filter (\<lambda>i. NAMES_SCHEME ! i = ''spc'') [0..<length NAMES_SCHEME])"

lemma scheme_volatile: "SCHEME_VOLATILE_IDX = {16}"
  by code_simp

definition pcd_reg :: "nat \<Rightarrow> nat" where "pcd_reg off = FMAN_BASE + KG_OFF + off"

lemma pcd_reg_ar: "pcd_reg KG_AR = ar_addr"
  by (simp add: pcd_reg_def FMAN_BASE_def KG_OFF_def KG_AR_def ar_addr_def KG_BASE_def AR_OFF_def)

text \<open>\<^verbatim>\<open>ar_wait\<close> gives up after 2000 reads and returns the last value read.\<close>

fun ar_spin :: "'h bus \<Rightarrow> nat \<Rightarrow> u32 \<Rightarrow> ('h, u32) io" where
  "ar_spin b 0 a = retIO a"
| "ar_spin b (Suc n) a = bindIO (rd b (pcd_reg KG_AR)) (\<lambda>a. if has_bit a KG_GO then ar_spin b n a else retIO a)"

definition ar_drive :: "'h bus \<Rightarrow> int \<Rightarrow> ('h, u32) io" where
  "ar_drive b v = bindIO (wr b (pcd_reg KG_AR) v) (\<lambda>_. ar_spin b 2000 0)"

definition scheme_cmd :: "nat \<Rightarrow> int" where "scheme_cmd n = KG_GO OR KG_READ OR push_bit 16 (int n)"

definition port_cmd :: "nat \<Rightarrow> int" where
  "port_cmd pid = KG_GO OR KG_READ OR KG_SEL_PORT OR push_bit 16 (int pid) OR 0x8000"

definition pcd_scheme :: "'h bus \<Rightarrow> nat \<Rightarrow> ('h, bool \<times> u32 list) io" where
  "pcd_scheme b n =
     bindIO (ar_drive b (scheme_cmd n)) (\<lambda>ar.
     bindIO (mapIO (\<lambda>i. rd b (pcd_reg KG_WINDOW + 4 * i)) [0..<KG_SCHEME_WORDS]) (\<lambda>ws.
     retIO (has_bit ar KG_ERR, ws)))"

definition pcd_port_sp :: "'h bus \<Rightarrow> nat \<Rightarrow> ('h, u32) io" where
  "pcd_port_sp b pid = bindIO (ar_drive b (port_cmd pid)) (\<lambda>_. rd b (pcd_reg KG_WINDOW))"

definition hx :: "u32 \<Rightarrow> string" where "hx v = ''0x'' @ hex_fmt 8 (unat v)"

section \<open>The files\<close>

text \<open>The budget: the numbers found, or the raw text when there are none.\<close>

datatype budget = Numbers "(string \<times> int) list" | Raw string

fun budget_scan :: "string list \<Rightarrow> (string \<times> int) list \<Rightarrow> (string \<times> int) list" where
  "budget_scan [] out = out"
| "budget_scan (t # ts) out =
     (let key = rstrip_char (CHR '':'') (lower t) in
      budget_scan ts
        (if key \<in> {''reserved'', ''used'', ''high-water'', ''highwater'', ''high_water''}
         then case ts of
             [] \<Rightarrow> out
           | v # _ \<Rightarrow> (case py_int 0 v of Inr n \<Rightarrow> AList.update (change_char (CHR ''-'') (CHR ''_'') key) n out | Inl _ \<Rightarrow> out)
         else out))"

definition read_muram_budget :: "string option \<Rightarrow> budget option" where
  "read_muram_budget = map_option (\<lambda>txt.
     let out = budget_scan (words (change_char (CHR ''='') (CHR '' '') (change_char (CHR '','') (CHR '' '') txt))) [] in
     if out \<noteq> [] then Numbers out else Raw (strip txt))"

definition budget_get :: "budget option \<Rightarrow> string \<Rightarrow> int option" where
  "budget_get b k = (case b of Some (Numbers kvs) \<Rightarrow> map_of kvs k | _ \<Rightarrow> None)"

definition running_image :: "string option \<Rightarrow> string" where
  "running_image cmdline =
     (case cmdline of
        None \<Rightarrow> ''?''
      | Some t \<Rightarrow> (case find (\<lambda>tok. startswith tok ''vyos-union='') (words t) of
          None \<Rightarrow> ''?'' | Some tok \<Rightarrow> drop 11 tok))"

section \<open>Capture\<close>

record kg_part =
  kp_stable :: "(string \<times> string) list"
  kp_tpc :: string
  kp_ports :: "(string \<times> string) list"
  kp_schemes :: "(nat \<times> bool \<times> string list) list"

record pcd =
  pc_image :: string
  pc_kg :: "kg_part option"
  pc_bmi :: "(string \<times> string list) list"
  pc_lcv :: "(string \<times> string list) list"
  pc_cc_base :: string
  pc_cc :: "string list"
  pc_budget :: "budget option"

definition port_key :: "nat \<Rightarrow> string" where "port_key pid = ''0x'' @ hex_fmt 2 pid"

definition rdx :: "'h bus \<Rightarrow> nat \<Rightarrow> ('h, string) io" where "rdx b a = bindIO (rd b a) (\<lambda>v. retIO (hx v))"

definition port_page :: "nat \<Rightarrow> nat" where "port_page pid = FMAN_BASE + BMI_COMMON + pid * 0x1000"

definition capture_keygen :: "'h bus \<Rightarrow> ('h, kg_part) io" where
  "capture_keygen b =
     bindIO (rdx b (pcd_reg KG_GLOBAL_GCR)) (\<lambda>gcr.
     bindIO (rdx b (pcd_reg KG_GLOBAL_SEER)) (\<lambda>seer.
     bindIO (rdx b (pcd_reg KG_GLOBAL_SERC)) (\<lambda>serc.
     bindIO (rdx b (pcd_reg KG_GLOBAL_TPC)) (\<lambda>tpc.
     bindIO (mapIO (\<lambda>n. bindIO (pcd_scheme b n) (\<lambda>(err, ws). retIO (n, err, map hx ws))) [0..<NUM_SCHEMES]) (\<lambda>schemes.
     bindIO (mapIO (\<lambda>pid. bindIO (pcd_port_sp b pid) (\<lambda>v. retIO (port_key pid, hx v))) RX_PORT_IDS) (\<lambda>ports.
     retIO \<lparr>kp_stable = [(''gcr'', gcr), (''seer'', seer), (''serc'', serc)], kp_tpc = tpc, kp_ports = ports,
            kp_schemes = schemes\<rparr>))))))"

text \<open>Kernel command line and budget file are given; \<open>None\<close> when they cannot be read.\<close>

definition capture :: "'h bus \<Rightarrow> string option \<Rightarrow> string option \<Rightarrow> bool \<Rightarrow> ('h, pcd) io" where
  "capture b cmdline budget with_kg =
     bindIO (if with_kg then bindIO (capture_keygen b) (\<lambda>k. retIO (Some k)) else retIO None) (\<lambda>kg.
     bindIO (mapIO (\<lambda>pid. bindIO (mapIO (\<lambda>i. rdx b (port_page pid + 4 * i)) [0..<BMI_CFG_WORDS])
       (\<lambda>ws. retIO (port_key pid, ws))) RX_PORT_IDS) (\<lambda>bmi.
     bindIO (mapIO (\<lambda>pid. bindIO (mapIO (\<lambda>i. rdx b (port_page pid + HWP_PORT_REGS_OFFSET + i * 8 + 4)) [0..<HWP_HXS_COUNT])
       (\<lambda>ws. retIO (port_key pid, ws))) RX_PORT_IDS) (\<lambda>lcv.
     bindIO (mapIO (\<lambda>i. rdx b (FMAN_BASE + CC_REGION_OFF + 4 * i)) [0..<CC_REGION_WORDS]) (\<lambda>cc.
     retIO \<lparr>pc_image = running_image cmdline, pc_kg = kg, pc_bmi = bmi, pc_lcv = lcv,
            pc_cc_base = hx (word_of_nat CC_REGION_OFF), pc_cc = cc, pc_budget = read_muram_budget budget\<rparr>))))"

section \<open>Comparison\<close>

datatype severity = Fail | Note

type_synonym delta = "severity \<times> string"

definition opt_text :: "string option \<Rightarrow> string" where "opt_text t = (case t of None \<Rightarrow> ''None'' | Some s \<Rightarrow> s)"

definition arrow :: "string \<Rightarrow> string \<Rightarrow> string" where "arrow a b = a @ '' -> '' @ b"

definition scheme_tag :: "string \<Rightarrow> string res" where
  "scheme_tag modeword =
     bindE (py_int 16 modeword) (\<lambda>v.
       if v AND 0x80000000 = 0 then Inr ''DISABLED''
       else let nia = v AND 0xFF;
              plcr = (if v AND 0x40000000 \<noteq> 0 then '' PLCR'' else []);
              eng = (if nia = 6 then ''CC(AC_CC)'' else if nia = 0 then ''ENQ/RSS-hash'' else ''nia=0x'' @ hex_fmt 2 (nat nia)) in
         Inr (''EN '' @ eng @ plcr))"

text \<open>The positions at which two lists of words differ, as far as the shorter one goes.\<close>

definition changed_words :: "string list \<Rightarrow> string list \<Rightarrow> (nat \<times> string \<times> string) list" where
  "changed_words ow nw = filter (\<lambda>(i, a, b). a \<noteq> b) (enumerate 0 (zip ow nw))"

definition words_at :: "('k \<times> string list) list \<Rightarrow> 'k \<Rightarrow> string list" where
  "words_at d k = (case map_of d k of Some ws \<Rightarrow> ws | None \<Rightarrow> [])"

definition both_keys :: "('k :: linorder \<times> 'a) list \<Rightarrow> ('k \<times> 'b) list \<Rightarrow> 'k list" where
  "both_keys d e = sort (remdups (map fst d @ map fst e))"

definition scheme_words :: "kg_part \<Rightarrow> nat \<Rightarrow> string list" where
  "scheme_words k n = (case map_of (kp_schemes k) n of Some (_, ws) \<Rightarrow> ws | None \<Rightarrow> [])"

definition tag_of :: "string list \<Rightarrow> string res" where
  "tag_of ws = (case ws of [] \<Rightarrow> Inr ''absent'' | w # _ \<Rightarrow> scheme_tag w)"

definition scheme_changed :: "string list \<Rightarrow> string list \<Rightarrow> bool" where
  "scheme_changed ow nw =
     (length ow \<noteq> length nw \<or> list_ex (\<lambda>(i, a, b). i \<notin> SCHEME_VOLATILE_IDX) (changed_words ow nw))"

definition kgse_name :: "nat \<Rightarrow> string" where
  "kgse_name i = (if i < length NAMES_SCHEME then NAMES_SCHEME ! i else ''w'' @ nat_str i)"

definition pad_right :: "nat \<Rightarrow> string \<Rightarrow> string" where "pad_right n s = s @ replicate (n - length s) CHR '' ''"

definition scheme_deltas :: "kg_part \<Rightarrow> kg_part \<Rightarrow> nat \<Rightarrow> delta list res" where
  "scheme_deltas okg nkg sn =
     (let ow = scheme_words okg sn; nw = scheme_words nkg sn in
      if \<not> scheme_changed ow nw then Inr []
      else bindE (tag_of ow) (\<lambda>otag. bindE (tag_of nw) (\<lambda>ntag.
        Inr ((Fail, ''KG scheme['' @ nat_str sn @ '']: '' @ arrow otag ntag)
          # map (\<lambda>(i, a, b). (Note, ''    kgse_'' @ pad_right 5 (kgse_name i) @ '' '' @ arrow a b))
              (filter (\<lambda>(i, a, b). i \<notin> SCHEME_VOLATILE_IDX) (changed_words ow nw))))))"

definition kg_deltas :: "kg_part \<Rightarrow> kg_part \<Rightarrow> delta list res" where
  "kg_deltas okg nkg =
     (let glob = concat (map (\<lambda>k. let ov = map_of (kp_stable okg) k; nv = map_of (kp_stable nkg) k in
            if ov \<noteq> nv then [(Fail, ''KG global '' @ k @ '': '' @ arrow (opt_text ov) (opt_text nv))] else [])
            [''gcr'', ''seer'', ''serc'']);
          ports = concat (map (\<lambda>p. let ov = map_of (kp_ports okg) p; nv = map_of (kp_ports nkg) p in
            if ov \<noteq> nv then [(Fail, ''KG port['' @ p @ ''] scheme-bitmap: '' @ arrow (opt_text ov) (opt_text nv))] else [])
            (both_keys (kp_ports okg) (kp_ports nkg))) in
      bindE (seqE (map (scheme_deltas okg nkg) (both_keys (kp_schemes okg) (kp_schemes nkg)))) (\<lambda>ss.
        Inr (glob @ ports @ concat ss)))"

definition bmi_label :: "nat \<Rightarrow> string" where
  "bmi_label i =
     (if 4 * i = BMI_RFPNE then ''fmbm_rfpne(next-engine)'' else if 4 * i = BMI_RCCB then ''fmbm_rccb(cc-base)''
      else ''+0x'' @ hex_fmt 2 (4 * i))"

definition bmi_deltas :: "(string \<times> string list) list \<Rightarrow> (string \<times> string list) list \<Rightarrow> delta list" where
  "bmi_deltas ob nb = concat (map (\<lambda>p. map (\<lambda>(i, a, b). (Fail, ''BMI port['' @ p @ ''] '' @ bmi_label i @ '': '' @ arrow a b))
     (changed_words (words_at ob p) (words_at nb p))) (both_keys ob nb))"

definition lcv_slot :: "nat \<Rightarrow> string" where
  "lcv_slot i = (if i = 5 then ''(IPv4)'' else if i = 6 then ''(IPv6)'' else [])"

definition lcv_deltas :: "(string \<times> string list) list \<Rightarrow> (string \<times> string list) list \<Rightarrow> delta list" where
  "lcv_deltas ol nl = concat (map (\<lambda>p. map (\<lambda>(i, a, b).
       (Fail, ''parser LCV port['' @ p @ ''] pmda['' @ nat_str i @ '']'' @ lcv_slot i @ '': '' @ arrow a b))
     (changed_words (words_at ol p) (words_at nl p))) (both_keys ol nl))"

definition cc_deltas :: "pcd \<Rightarrow> pcd \<Rightarrow> delta list res" where
  "cc_deltas old new =
     (if pc_cc old = pc_cc new then Inr []
      else bindE (py_int 16 (pc_cc_base old)) (\<lambda>base.
        Inr (map (\<lambda>(i, a, b). (Fail, ''MURAM cc-region +0x'' @ hex_fmt 5 (nat base + 4 * i) @ '': '' @ arrow a b))
          (changed_words (pc_cc old) (pc_cc new)))))"

definition budget_deltas :: "budget option \<Rightarrow> budget option \<Rightarrow> delta list" where
  "budget_deltas ob nb =
     (case (budget_get ob ''used'', budget_get nb ''used'') of
        (Some ou, Some nu) \<Rightarrow>
          if ou \<noteq> nu then [(Fail, ''MURAM gen_pool used: '' @ arrow (int_str ou) (int_str nu) @ '' bytes (LEAK)'')] else []
      | _ \<Rightarrow> []) @
     (case (budget_get ob ''high_water'', budget_get nb ''high_water'') of
        (Some oh, Some nh) \<Rightarrow>
          if oh \<noteq> nh then [(Note, ''MURAM high-water: '' @ arrow (int_str oh) (int_str nh) @ '' (monotonic, ignored)'')] else []
      | _ \<Rightarrow> [])"

text \<open>A dictionary of captures is never empty, so a KeyGen part that is present counts as true.\<close>

definition pcd_diff :: "pcd \<Rightarrow> pcd \<Rightarrow> delta list res" where
  "pcd_diff old new =
     bindE (case (pc_kg old, pc_kg new) of
        (Some okg, Some nkg) \<Rightarrow> kg_deltas okg nkg
      | (None, None) \<Rightarrow> Inr []
      | _ \<Rightarrow> Inr [(Note, ''KG capture present in only one snapshot (--no-kg)'')]) (\<lambda>kg.
     bindE (cc_deltas old new) (\<lambda>cc.
     Inr (kg @ bmi_deltas (pc_bmi old) (pc_bmi new) @ lcv_deltas (pc_lcv old) (pc_lcv new) @ cc
            @ budget_deltas (pc_budget old) (pc_budget new))))"

section \<open>The decoded view\<close>

fun all_zero :: "string list \<Rightarrow> bool res" where
  "all_zero [] = Inr True"
| "all_zero (w # ws) = bindE (py_int 16 w) (\<lambda>v. if v = 0 then all_zero ws else Inr False)"

definition note_line :: "string \<Rightarrow> string" where "note_line s = replicate 9 CHR '' '' @ s"

definition show_scheme :: "nat \<times> bool \<times> string list \<Rightarrow> string list res" where
  "show_scheme = (\<lambda>(sn, err, w).
     bindE (nth_res w 0) (\<lambda>m. bindE (all_zero w) (\<lambda>z. if z then Inr [] else
     bindE (scheme_tag m) (\<lambda>tag. bindE (nth_res w 5) (\<lambda>fqb. bindE (nth_res w 19) (\<lambda>ccbs.
       Inr [''  scheme['' @ replicate (2 - length (nat_str sn)) CHR '' '' @ nat_str sn @ ''] '' @ tag @ ''  fqb='' @ fqb
         @ '' ccbs='' @ ccbs @ (if err then '' <AR-ERR>'' else [])]))))))"

definition show_kg :: "kg_part option \<Rightarrow> string list res" where
  "show_kg k = (case k of
     None \<Rightarrow> Inr [note_line ''(KG capture skipped)'']
   | Some kg \<Rightarrow> bindE (seqE (map show_scheme (sort_key fst (kp_schemes kg)))) (\<lambda>ls.
       let g = (\<lambda>n. opt_text (map_of (kp_stable kg) n)) in
       Inr ((if concat ls = [] then [note_line ''(no active schemes)''] else concat ls)
         @ [note_line (''KG gcr='' @ g ''gcr'' @ '' seer='' @ g ''seer'' @ '' serc='' @ g ''serc'' @ '' tpc='' @ kp_tpc kg)])))"

definition show_port :: "string \<times> string list \<Rightarrow> string res" where
  "show_port = (\<lambda>(p, w).
     bindE (nth_res w (BMI_RFPNE div 4)) (\<lambda>rfpne. bindE (nth_res w (BMI_RCCB div 4)) (\<lambda>rccb.
     bindE (py_int 16 rfpne) (\<lambda>v.
       Inr (''  port['' @ p @ ''] rfpne='' @ rfpne @ '' ('' @ (if v AND 0xFF = 6 then ''PRE_CC'' else ''KeyGen/RSS'')
         @ '') rccb='' @ rccb)))))"

text \<open>The text of the budget dictionary (\<^verbatim>\<open>json.dumps\<close>) is a parameter.\<close>

definition show_muram :: "(budget \<Rightarrow> string) \<Rightarrow> pcd \<Rightarrow> string list res" where
  "show_muram dumps s =
     bindE (seqE (map (py_int 16) (pc_cc s))) (\<lambda>vs.
       Inr [note_line (case pc_budget s of
              Some b \<Rightarrow> ''gen_pool budget: '' @ dumps b
            | None \<Rightarrow> ''gen_pool budget: /sys/kernel/debug/fman_pcd/0/muram_budget absent (board substrate older than M1)''),
            note_line (''cc-region @'' @ pc_cc_base s @ '': '' @ nat_str (length (filter (\<lambda>v. v \<noteq> 0) vs)) @ ''/''
              @ nat_str (length (pc_cc s)) @ '' non-zero words'')])"

definition show_pcd :: "(budget \<Rightarrow> string) \<Rightarrow> pcd \<Rightarrow> string list res" where
  "show_pcd dumps s =
     bindE (show_kg (pc_kg s)) (\<lambda>kg.
     bindE (seqE (map (\<lambda>(p, w). bindE (py_int 16 p) (\<lambda>v. Inr (v, p, w))) (pc_bmi s))) (\<lambda>ps.
     bindE (seqE (map (\<lambda>(v, q). show_port q) (sort_key fst ps))) (\<lambda>ports.
     bindE (show_muram dumps s) (\<lambda>mur.
       Inr ([[CHR 0x0A] @ ''KeyGen schemes (active)''] @ kg @ [[CHR 0x0A] @ ''BMI RX port next-engine bind''] @ ports
         @ [[CHR 0x0A] @ ''MURAM''] @ mur)))))"

section \<open>The program\<close>

datatype pcd_cmd = CaptureTo string bool | DiffWith string | ShowLive

text \<open>
  What the program finds: the board's compatible text, its user, the command line, the budget file, the
  reference (\<open>None\<close> when it cannot be opened).  The result: exit status, printed lines, the file written.  The
  line with the time stamps that precedes a comparison is left out.
\<close>

record pcd_env =
  pe_compat :: "string option"
  pe_root :: bool
  pe_cmdline :: "string option"
  pe_budget :: "string option"
  pe_ref :: "pcd option"
  pe_dumps :: "budget \<Rightarrow> string"

type_synonym pcd_outcome = "nat \<times> string list \<times> pcd option"

definition board_gate :: "pcd_env \<Rightarrow> bool" where
  "board_gate e = (case pe_compat e of None \<Rightarrow> False | Some t \<Rightarrow> contains ''fsl,ls1046a'' t)"

definition delta_line :: "delta \<Rightarrow> string" where
  "delta_line = (\<lambda>(sev, m). case sev of Fail \<Rightarrow> ''  [FAIL] '' @ m | Note \<Rightarrow> note_line m)"

definition fail_count :: "delta list \<Rightarrow> nat" where "fail_count ds = length (filter (\<lambda>d. fst d = Fail) ds)"

definition dash :: string where "dash = [CHR 0xE2, CHR 0x80, CHR 0x94]"

definition diff_report :: "pcd \<Rightarrow> pcd \<Rightarrow> delta list \<Rightarrow> pcd_outcome" where
  "diff_report ref live ds =
     (let warn = (if pc_image ref \<noteq> pc_image live
            then [''  [WARN] image changed: '' @ arrow (pc_image ref) (pc_image live) @ '' (snapshot baseline is for a different image)'']
            else []);
          out = warn @ map delta_line ds in
      if fail_count ds \<noteq> 0
      then (1, out @ [''  [FAIL] PCD state DRIFTED from baseline '' @ dash @ '' '' @ nat_str (fail_count ds) @ '' field(s) not restored''], None)
      else (0, out @ [''  [OK]   PCD state matches baseline '' @ dash @ '' S0<->S1 transition was fully reversible''], None))"

definition pcd_main :: "'h bus \<Rightarrow> pcd_env \<Rightarrow> pcd_cmd \<Rightarrow> bool \<Rightarrow> ('h, pcd_outcome) io" where
  "pcd_main b e cmd no_kg =
     (if \<not> board_gate e then retIO (2, [], None) else if \<not> pe_root e then retIO (2, [], None)
      else bindIO (capture b (pe_cmdline e) (pe_budget e) (\<not> no_kg)) (\<lambda>live.
        case cmd of
          CaptureTo out shown \<Rightarrow>
            let l = ''pcd-snapshot captured '' @ out @ ''  image='' @ pc_image live @ ''  schemes=''
                  @ nat_str (case pc_kg live of Some k \<Rightarrow> length (kp_schemes k) | None \<Rightarrow> 0) @ '' ports='' @ nat_str (length (pc_bmi live)) in
            bindIO (liftIO (if shown then show_pcd (pe_dumps e) live else Inr [])) (\<lambda>ls. retIO (0, l # ls, Some live))
        | ShowLive \<Rightarrow> bindIO (liftIO (show_pcd (pe_dumps e) live)) (\<lambda>ls.
            retIO (0, (''pcd-snapshot show '' @ dash @ '' image='' @ pc_image live) # ls, None))
        | DiffWith path \<Rightarrow> (case pe_ref e of
              None \<Rightarrow> retIO (2, [], None)
            | Some ref \<Rightarrow> bindIO (liftIO (pcd_diff ref live)) (\<lambda>ds. retIO (diff_report ref live ds)))))"

end
