(* ===== verification/PcdProps.thy ===== *)
theory PcdProps
  imports PcdSnap HexText
begin

text \<open>
  What \<^verbatim>\<open>pcd-snapshot\<close> writes and when its comparison passes.
\<close>

section \<open>Runs that cannot fail\<close>

text \<open>On every device the program returns, its writes are \<open>t\<close> and its result satisfies \<open>P\<close>.\<close>

definition runs :: "('h \<times> wlog, 'a) io \<Rightarrow> wlog \<Rightarrow> ('a \<Rightarrow> bool) \<Rightarrow> bool" where
  "runs m t P = (\<forall>h l. \<exists>x h'. m (h, l) = (Inr x, (h', l @ t)) \<and> P x)"

lemma runs_ret: "P x \<Longrightarrow> runs (retIO x) [] P"
  by (simp add: runs_def retIO_def)

lemma runs_rd: "runs (rd (logged b) a) [] (\<lambda>_. True)"
  by (auto simp: runs_def rd_def logged_def split: prod.splits)

lemma runs_wr: "0 \<le> v \<Longrightarrow> v < 2 ^ 32 \<Longrightarrow> runs (wr (logged b) a v) [(a, v)] (\<lambda>_. True)"
  by (auto simp: runs_def wr_def logged_def uint_word_of_int_eq take_bit_int_eq_self)

lemma runs_bind:
  assumes "runs m t P" "\<And>x. P x \<Longrightarrow> runs (f x) u Q"
  shows "runs (bindIO m f) (t @ u) Q"
  unfolding runs_def
proof (intro allI)
  fix h l
  from assms(1) obtain x h' where m: "m (h, l) = (Inr x, (h', l @ t))" "P x" unfolding runs_def by blast
  from assms(2) [OF this(2)] obtain y h'' where "f x (h', l @ t) = (Inr y, (h'', (l @ t) @ u))" "Q y"
    unfolding runs_def by blast
  with m(1) show "\<exists>x h'. bindIO m f (h, l) = (Inr x, (h', l @ t @ u)) \<and> Q x" by (simp add: bindIO_def)
qed

lemma runs_bind_silent: "runs m [] P \<Longrightarrow> (\<And>x. P x \<Longrightarrow> runs (f x) u Q) \<Longrightarrow> runs (bindIO m f) u Q"
  using runs_bind [of m "[]" P f u Q] by simp

lemma runs_then: "runs m t P \<Longrightarrow> (\<And>x. P x \<Longrightarrow> runs (f x) [] Q) \<Longrightarrow> runs (bindIO m f) t Q"
  using runs_bind [of m t P f "[]" Q] by simp

lemma runs_mapIO:
  assumes "\<And>x. x \<in> set xs \<Longrightarrow> runs (f x) (g x) (P x)"
  shows "runs (mapIO f xs) (concat (map g xs)) (list_all2 P xs)"
  using assms
proof (induction xs)
  case (Cons x xs)
  have k: "runs (bindIO (mapIO f xs) (\<lambda>ys. retIO (y # ys))) (concat (map g xs)) (list_all2 P (x # xs))" if "P x y" for y
    by (rule runs_then [OF Cons.IH], use Cons.prems in simp, rule runs_ret, simp add: that)
  have r: "runs (f x) (g x) (P x)" using Cons.prems by simp
  show ?case unfolding mapIO.simps list.map concat.simps by (rule runs_bind [OF r k])
qed (simp add: runs_ret)

lemma runs_silent:
  assumes "\<And>x. x \<in> set xs \<Longrightarrow> runs (f x) [] (P x)"
  shows "runs (mapIO f xs) [] (list_all2 P xs)"
proof -
  have "concat (map (\<lambda>_. []) xs) = ([] :: wlog)" by (induction xs) auto
  then show ?thesis using runs_mapIO [of xs f "\<lambda>_. []" P] assms by metis
qed

lemma runs_mapIO_single:
  assumes "\<And>x. x \<in> set xs \<Longrightarrow> runs (f x) [g x] (P x)"
  shows "runs (mapIO f xs) (map g xs) (list_all2 P xs)"
proof -
  have "concat (map (\<lambda>x. [g x]) xs) = map g xs" by (induction xs) auto
  then show ?thesis using runs_mapIO [of xs f "\<lambda>x. [g x]" P] assms by metis
qed

lemma runs_weaken: "runs m t P \<Longrightarrow> (\<And>x. P x \<Longrightarrow> Q x) \<Longrightarrow> runs m t Q"
  unfolding runs_def by blast

section \<open>The shape of a capture\<close>

definition all_words :: "nat \<Rightarrow> string list \<Rightarrow> bool" where
  "all_words n ws = (length ws = n \<and> (\<forall>w \<in> set ws. \<exists>v. w = hx v))"

definition port_table :: "nat \<Rightarrow> (string \<times> string list) list \<Rightarrow> bool" where
  "port_table n d = (map fst d = map port_key RX_PORT_IDS \<and> (\<forall>e \<in> set d. all_words n (snd e)))"

definition kg_shape :: "kg_part \<Rightarrow> bool" where
  "kg_shape k = (map fst (kp_stable k) = [''gcr'', ''seer'', ''serc''] \<and> map fst (kp_ports k) = map port_key RX_PORT_IDS \<and>
     map fst (kp_schemes k) = [0..<32] \<and> (\<forall>e \<in> set (kp_schemes k). all_words 24 (snd (snd e))))"

definition captured :: "bool \<Rightarrow> pcd \<Rightarrow> bool" where
  "captured kg s = ((case pc_kg s of Some k \<Rightarrow> kg \<and> kg_shape k | None \<Rightarrow> \<not> kg) \<and> port_table 32 (pc_bmi s) \<and>
     port_table 16 (pc_lcv s) \<and> all_words 128 (pc_cc s) \<and> pc_cc_base s = hx 0x5AC00)"

lemma list_all2_keys:
  "list_all2 (\<lambda>x y. fst y = f x \<and> Q (snd y)) xs ys \<Longrightarrow> map fst ys = map f xs \<and> (\<forall>y \<in> set ys. Q (snd y))"
  by (induction xs ys rule: list_all2_induct) auto

lemma runs_ar_spin: "runs (ar_spin (logged b) n a) [] (\<lambda>_. True)"
proof (induction n arbitrary: a)
  case (Suc n)
  show ?case unfolding ar_spin.simps
    by (rule runs_bind_silent [OF runs_rd]) (simp add: Suc.IH runs_ret)
qed (simp add: runs_ret)

lemma runs_rdx: "runs (rdx (logged b) a) [] (\<lambda>w. \<exists>v. w = hx v)"
  unfolding rdx_def by (rule runs_bind_silent [OF runs_rd]) (auto intro: runs_ret)

lemma runs_words: "runs (mapIO (\<lambda>i. rdx (logged b) (f i)) [0..<n]) [] (all_words n)"
proof (rule runs_weaken [OF runs_silent])
  fix ws
  assume "list_all2 (\<lambda>_ w. \<exists>v. w = hx v) [0..<n] ws"
  then show "all_words n ws" by (auto simp: all_words_def list_all2_conv_all_nth in_set_conv_nth)
qed (rule runs_rdx)

lemma cmd_range: "n \<in> set [0..<32] \<Longrightarrow> 0 \<le> scheme_cmd n \<and> scheme_cmd n < 2 ^ 32"
  "p \<in> set RX_PORT_IDS \<Longrightarrow> 0 \<le> port_cmd p \<and> port_cmd p < 2 ^ 32"
proof -
  have "list_all (\<lambda>n. 0 \<le> scheme_cmd n \<and> scheme_cmd n < 2 ^ 32) [0..<32]" by code_simp
  then show "n \<in> set [0..<32] \<Longrightarrow> 0 \<le> scheme_cmd n \<and> scheme_cmd n < 2 ^ 32" unfolding list_all_iff by blast
  have "list_all (\<lambda>p. 0 \<le> port_cmd p \<and> port_cmd p < 2 ^ 32) RX_PORT_IDS" by code_simp
  then show "p \<in> set RX_PORT_IDS \<Longrightarrow> 0 \<le> port_cmd p \<and> port_cmd p < 2 ^ 32" unfolding list_all_iff by blast
qed

lemma runs_ar_drive: "0 \<le> v \<Longrightarrow> v < 2 ^ 32 \<Longrightarrow> runs (ar_drive (logged b) v) [(pcd_reg KG_AR, v)] (\<lambda>_. True)"
  unfolding ar_drive_def by (rule runs_then [OF runs_wr runs_ar_spin])

lemma runs_pcd_scheme:
  assumes "n \<in> set [0..<32]"
  shows "runs (bindIO (pcd_scheme (logged b) n) (\<lambda>(err, ws). retIO (n, err, map hx ws))) [(pcd_reg KG_AR, scheme_cmd n)]
    (\<lambda>y. fst y = n \<and> all_words 24 (snd (snd y)))"
proof (rule runs_then)
  show "runs (pcd_scheme (logged b) n) [(pcd_reg KG_AR, scheme_cmd n)] (\<lambda>q. length (snd q) = 24)"
    unfolding pcd_scheme_def
  proof (rule runs_then [OF runs_ar_drive])
    fix ar :: u32
    have "runs (mapIO (\<lambda>i. rd (logged b) (pcd_reg KG_WINDOW + 4 * i)) [0..<KG_SCHEME_WORDS]) [] (\<lambda>ws. length ws = 24)"
      by (rule runs_weaken [OF runs_silent [OF runs_rd]]) (auto simp: KG_SCHEME_WORDS_def dest: list_all2_lengthD)
    then show "runs (bindIO (mapIO (\<lambda>i. rd (logged b) (pcd_reg KG_WINDOW + 4 * i)) [0..<KG_SCHEME_WORDS])
       (\<lambda>ws. retIO (has_bit ar KG_ERR, ws))) [] (\<lambda>q. length (snd q) = 24)"
      by (rule runs_bind_silent) (simp add: runs_ret)
  qed (use cmd_range(1) [OF assms] in auto)
next
  fix q :: "bool \<times> u32 list"
  assume "length (snd q) = 24"
  then show "runs (case q of (err, ws) \<Rightarrow> retIO (n, err, map hx ws)) [] (\<lambda>y. fst y = n \<and> all_words 24 (snd (snd y)))"
    by (cases q) (auto simp: all_words_def intro!: runs_ret)
qed

lemma runs_read_port:
  assumes "p \<in> set RX_PORT_IDS"
  shows "runs (bindIO (pcd_port_sp (logged b) p) (\<lambda>v. retIO (port_key p, hx v))) [(pcd_reg KG_AR, port_cmd p)]
    (\<lambda>y. fst y = port_key p \<and> True)"
proof (rule runs_then)
  show "runs (pcd_port_sp (logged b) p) [(pcd_reg KG_AR, port_cmd p)] (\<lambda>_. True)"
    unfolding pcd_port_sp_def by (rule runs_then [OF runs_ar_drive runs_rd]) (use cmd_range(2) [OF assms] in auto)
qed (simp add: runs_ret)

definition read_commands :: "wlog" where
  "read_commands = map (\<lambda>n. (pcd_reg KG_AR, scheme_cmd n)) [0..<32] @ map (\<lambda>p. (pcd_reg KG_AR, port_cmd p)) RX_PORT_IDS"

lemma runs_capture_keygen: "runs (capture_keygen (logged b)) read_commands kg_shape"
proof -
  let ?s = "\<lambda>n. bindIO (pcd_scheme (logged b) n) (\<lambda>(err, ws). retIO (n, err, map hx ws))"
  let ?p = "\<lambda>p. bindIO (pcd_port_sp (logged b) p) (\<lambda>v. retIO (port_key p, hx v))"
  have s: "runs (mapIO ?s [0..<NUM_SCHEMES]) (map (\<lambda>n. (pcd_reg KG_AR, scheme_cmd n)) [0..<32])
      (\<lambda>ss. map fst ss = [0..<32] \<and> (\<forall>e \<in> set ss. all_words 24 (snd (snd e))))"
    unfolding NUM_SCHEMES_def
  proof (rule runs_weaken [OF runs_mapIO_single [OF runs_pcd_scheme]])
    fix ss :: "(nat \<times> bool \<times> string list) list"
    assume "list_all2 (\<lambda>n y. fst y = n \<and> all_words 24 (snd (snd y))) [0..<32] ss"
    from list_all2_keys [of "\<lambda>n. n" "\<lambda>q. all_words 24 (snd q)", OF this]
    show "map fst ss = [0..<32] \<and> (\<forall>e \<in> set ss. all_words 24 (snd (snd e)))" by simp
  qed
  have p: "runs (mapIO ?p RX_PORT_IDS) (map (\<lambda>p. (pcd_reg KG_AR, port_cmd p)) RX_PORT_IDS)
      (\<lambda>ps. map fst ps = map port_key RX_PORT_IDS)"
  proof (rule runs_weaken [OF runs_mapIO_single [OF runs_read_port]])
    fix ps :: "(string \<times> string) list"
    assume "list_all2 (\<lambda>p y. fst y = port_key p \<and> True) RX_PORT_IDS ps"
    from list_all2_keys [OF this] show "map fst ps = map port_key RX_PORT_IDS" by simp
  qed
  show ?thesis
    unfolding capture_keygen_def read_commands_def
    by (intro runs_bind_silent [OF runs_rdx], rule runs_bind [OF s], rule runs_then [OF p], rule runs_ret)
      (simp add: kg_shape_def)
qed

lemma runs_table: "runs (mapIO (\<lambda>p. bindIO (mapIO (\<lambda>i. rdx (logged b) (f p i)) [0..<n]) (\<lambda>ws. retIO (port_key p, ws))) RX_PORT_IDS) []
    (port_table n)"
proof (rule runs_weaken [OF runs_silent])
  fix p
  show "runs (bindIO (mapIO (\<lambda>i. rdx (logged b) (f p i)) [0..<n]) (\<lambda>ws. retIO (port_key p, ws))) []
    (\<lambda>y. fst y = port_key p \<and> all_words n (snd y))"
    by (rule runs_bind_silent [OF runs_words]) (simp add: runs_ret)
next
  fix ys
  assume "list_all2 (\<lambda>p y. fst y = port_key p \<and> all_words n (snd y)) RX_PORT_IDS ys"
  from list_all2_keys [OF this] show "port_table n ys" by (simp add: port_table_def)
qed

lemma runs_capture: "runs (capture (logged b) cl bu kg) (if kg then read_commands else []) (captured kg)"
proof -
  have k: "runs (if kg then bindIO (capture_keygen (logged b)) (\<lambda>k. retIO (Some k)) else retIO None)
      (if kg then read_commands else []) (\<lambda>k. case k of Some k \<Rightarrow> kg \<and> kg_shape k | None \<Rightarrow> \<not> kg)"
    by (auto intro!: runs_then [OF runs_capture_keygen] runs_ret)
  show ?thesis
    unfolding capture_def BMI_CFG_WORDS_def HWP_HXS_COUNT_def CC_REGION_WORDS_def
    by (rule runs_then [OF k], rule runs_bind_silent [OF runs_table], rule runs_bind_silent [OF runs_table],
        rule runs_bind_silent [OF runs_words], rule runs_ret)
      (simp add: captured_def CC_REGION_OFF_def)
qed

section \<open>The comparison\<close>

text \<open>
  Two snapshots show the same configuration: every word captured in both is the same, except the packet
  counters of the schemes; the packet counter of the block and the high-water mark are not considered.  Where one
  snapshot has no KeyGen part, or its budget has no use count, that part is not considered either.
\<close>

definition same_keygen :: "kg_part \<Rightarrow> kg_part \<Rightarrow> bool" where
  "same_keygen k k' = (kp_stable k = kp_stable k' \<and> kp_ports k = kp_ports k' \<and>
     list_all (\<lambda>n. list_all (\<lambda>i. i = 16 \<or> scheme_words k n ! i = scheme_words k' n ! i) [0..<24]) [0..<32])"

definition same_state :: "pcd \<Rightarrow> pcd \<Rightarrow> bool" where
  "same_state o' n =
     ((case (pc_kg o', pc_kg n) of (Some k, Some k') \<Rightarrow> same_keygen k k' | _ \<Rightarrow> True) \<and>
      pc_bmi o' = pc_bmi n \<and> pc_lcv o' = pc_lcv n \<and> pc_cc o' = pc_cc n \<and>
      (case (budget_get (pc_budget o') ''used'', budget_get (pc_budget n) ''used'') of
         (Some a, Some b) \<Rightarrow> a = b | _ \<Rightarrow> True))"

definition failing :: "delta list \<Rightarrow> bool" where "failing ds = (\<exists>d \<in> set ds. fst d = Fail)"

lemma failing_simps [simp]:
  "\<not> failing []" "failing (a @ b) = (failing a \<or> failing b)"
  "failing ((sev, m) # ds) = (sev = Fail \<or> failing ds)" "failing (concat dss) = (\<exists>ds \<in> set dss. failing ds)"
  by (auto simp: failing_def)

lemma failing_map [simp]: "failing (map (\<lambda>(i, a, b). (Fail, f i a b)) xs) = (xs \<noteq> [])"
  by (cases xs) (auto simp: failing_def)

lemma not_failing_notes [simp]: "\<not> failing (map (\<lambda>(i, a, b). (Note, f i a b)) xs)"
  by (auto simp: failing_def)

lemma failing_diffs:
  "failing (concat (map (\<lambda>x. if f x \<noteq> f' x then [(Fail, g x)] else []) xs)) \<longleftrightarrow> \<not> (\<forall>x \<in> set xs. f x = f' x)"
  by (induction xs) simp_all

lemma fail_count_0: "fail_count ds = 0 \<longleftrightarrow> \<not> failing ds"
  by (auto simp: fail_count_def failing_def filter_empty_conv)

lemma changed_iff:
  "length ow = length nw \<Longrightarrow> (i, a, b) \<in> set (changed_words ow nw) \<longleftrightarrow> i < length ow \<and> a = ow ! i \<and> b = nw ! i \<and> a \<noteq> b"
  by (auto simp: changed_words_def in_set_enumerate_eq)

lemma changed_none: "length ow = length nw \<Longrightarrow> changed_words ow nw = [] \<longleftrightarrow> ow = nw"
proof
  assume l: "length ow = length nw" and c: "changed_words ow nw = []"
  show "ow = nw"
  proof (rule nth_equalityI [OF l])
    fix i
    assume "i < length ow"
    then show "ow ! i = nw ! i" using changed_iff [OF l, of i "ow ! i" "nw ! i"] by (auto simp: c)
  qed
next
  assume l: "length ow = length nw" and e: "ow = nw"
  show "changed_words ow nw = []"
  proof (rule ccontr)
    assume "changed_words ow nw \<noteq> []"
    then obtain i a b where "(i, a, b) \<in> set (changed_words ow nw)" by (metis list.set_intros(1) neq_Nil_conv prod_cases3)
    with changed_iff [OF l] have "a = ow ! i" "b = nw ! i" "a \<noteq> b" by blast+
    with e show False by simp
  qed
qed

lemma scheme_changed_iff:
  "length ow = 24 \<Longrightarrow> length nw = 24 \<Longrightarrow>
   scheme_changed ow nw \<longleftrightarrow> \<not> list_all (\<lambda>i. i = 16 \<or> ow ! i = nw ! i) [0..<24]"
proof -
  assume l: "length ow = 24" "length nw = 24"
  have "list_ex (\<lambda>(i, a, b). i \<notin> {16}) xs \<longleftrightarrow> (\<exists>i a b. (i, a, b) \<in> set xs \<and> i \<noteq> 16)"
    for xs :: "(nat \<times> string \<times> string) list"
    by (induction xs) auto
  then show ?thesis using l changed_iff [of ow nw]
    by (auto simp: scheme_changed_def scheme_volatile list_all_iff)
qed

lemma assoc_eq:
  assumes "map fst d = map fst e" "distinct (map fst d)"
  shows "d = e \<longleftrightarrow> (\<forall>k \<in> fst ` set d. map_of d k = map_of e k)"
proof
  assume "\<forall>k \<in> fst ` set d. map_of d k = map_of e k"
  then have "map_of d k = map_of e k" for k
    using assms(1) by (cases "k \<in> fst ` set d") (metis list.set_map map_of_eq_None_iff)+
  then have m: "map_of d = map_of e" by blast
  have norm: "x = map (\<lambda>k. (k, the (map_of x k))) (map fst x)" if "distinct (map fst x)" for x :: "('a \<times> 'b) list"
    using that by (simp add: o_def) (rule map_idI [symmetric], auto)
  show "d = e" using norm [of d] norm [of e] assms m by metis
qed auto

lemma key_set: "map fst d = ks \<Longrightarrow> fst ` set d = set ks"
  by (auto simp flip: list.set_map)

lemma both_keys_set: "set (both_keys d e) = fst ` set d \<union> fst ` set e"
  by (simp add: both_keys_def)

lemma port_keys_distinct: "distinct (map port_key RX_PORT_IDS)"
  by code_simp

lemma table_words:
  assumes "port_table n d" "k \<in> fst ` set d"
  shows "\<exists>ws. map_of d k = Some ws \<and> length ws = n"
proof -
  obtain ws where m: "map_of d k = Some ws" using assms(2) by (metis domIff dom_map_of_conv_image_fst option.exhaust)
  then have "(k, ws) \<in> set d" by (rule map_of_SomeD)
  with assms(1) have "length ws = n" by (force simp: port_table_def all_words_def)
  with m show ?thesis by blast
qed

lemma table_changed:
  assumes "port_table n d" "port_table n e"
  shows "(\<exists>p \<in> set (both_keys d e). changed_words (words_at d p) (words_at e p) \<noteq> []) \<longleftrightarrow> d \<noteq> e"
proof -
  have keys: "map fst d = map fst e" "distinct (map fst d)" "fst ` set e = fst ` set d"
    using assms port_keys_distinct key_set [of d] key_set [of e] unfolding port_table_def by metis+
  have "changed_words (words_at d p) (words_at e p) = [] \<longleftrightarrow> map_of d p = map_of e p" if "p \<in> fst ` set d" for p
  proof -
    from table_words [OF assms(1) that] obtain ws where "map_of d p = Some ws" "length ws = n" by blast
    moreover from table_words [OF assms(2), of p] that keys(3) obtain vs where "map_of e p = Some vs" "length vs = n" by blast
    ultimately show ?thesis by (simp add: words_at_def changed_none)
  qed
  then have "(\<exists>p \<in> set (both_keys d e). changed_words (words_at d p) (words_at e p) \<noteq> []) \<longleftrightarrow>
      \<not> (\<forall>k \<in> fst ` set d. map_of d k = map_of e k)"
    unfolding both_keys_set keys(3) Un_absorb by blast
  then show ?thesis unfolding assoc_eq [OF keys(1,2)] .
qed

lemma hx_value: "py_int 16 (hx v) = Inr (int (unat v))"
proof -
  have "hex_fmt 8 (unat v) \<noteq> []" using hex_fmt_8 [of "unat v"] unsigned_less [of v, where 'a = nat] by auto
  then show ?thesis using py_int_0x_hex [of "hex_fmt 8 (unat v)"] hex_fmt_hex by (simp add: hx_def hex_fmt_value)
qed

lemma seqE_values: "(\<And>x. x \<in> set xs \<Longrightarrow> f x = Inr (g x)) \<Longrightarrow> seqE (map f xs) = Inr (map g xs)"
  by (induction xs) auto

lemma tag_total: "(\<forall>w \<in> set ws. \<exists>v. w = hx v) \<Longrightarrow> \<exists>t. tag_of ws = Inr t"
  by (cases ws) (auto simp: tag_of_def scheme_tag_def hx_value Let_def)

lemma scheme_words_shape:
  assumes "kg_shape k" "n < 32"
  shows "all_words 24 (scheme_words k n)"
proof -
  have "n \<in> fst ` set (kp_schemes k)" using assms key_set [of "kp_schemes k" "[0..<32]"] by (simp add: kg_shape_def)
  then obtain e ws where m: "map_of (kp_schemes k) n = Some (e, ws)"
    by (metis domIff dom_map_of_conv_image_fst option.exhaust surj_pair)
  from map_of_SomeD [OF this] assms(1) have "all_words 24 ws" by (force simp: kg_shape_def)
  with m show ?thesis by (simp add: scheme_words_def)
qed

lemma scheme_deltas_spec:
  assumes "kg_shape k" "kg_shape k'" "n < 32"
  shows "\<exists>ds. scheme_deltas k k' n = Inr ds \<and>
    (failing ds \<longleftrightarrow> \<not> list_all (\<lambda>i. i = 16 \<or> scheme_words k n ! i = scheme_words k' n ! i) [0..<24])"
proof -
  let ?o = "scheme_words k n" and ?n = "scheme_words k' n"
  have w: "all_words 24 ?o" "all_words 24 ?n" using scheme_words_shape assms by blast+
  then obtain t t' where t: "tag_of ?o = Inr t" "tag_of ?n = Inr t'" using tag_total unfolding all_words_def by metis
  have c: "scheme_changed ?o ?n \<longleftrightarrow> \<not> list_all (\<lambda>i. i = 16 \<or> ?o ! i = ?n ! i) [0..<24]"
    using scheme_changed_iff w unfolding all_words_def by blast
  show ?thesis
  proof (cases "scheme_changed ?o ?n")
    case True
    then show ?thesis using c t by (auto simp: scheme_deltas_def Let_def)
  next
    case False
    then show ?thesis using c by (simp add: scheme_deltas_def)
  qed
qed

lemma kg_deltas_spec:
  assumes "kg_shape k" "kg_shape k'"
  shows "\<exists>ds. kg_deltas k k' = Inr ds \<and> (failing ds \<longleftrightarrow> \<not> same_keygen k k')"
proof -
  let ?keys = "both_keys (kp_schemes k) (kp_schemes k')"
  have sh: "map fst (kp_schemes k) = [0..<32]" "map fst (kp_schemes k') = [0..<32]"
    "map fst (kp_stable k) = [''gcr'', ''seer'', ''serc'']" "map fst (kp_stable k') = [''gcr'', ''seer'', ''serc'']"
    "map fst (kp_ports k) = map port_key RX_PORT_IDS" "map fst (kp_ports k') = map port_key RX_PORT_IDS"
    using assms by (simp_all add: kg_shape_def)
  have keys: "set ?keys = {..<32}" by (simp only: both_keys_set key_set [OF sh(1)] key_set [OF sh(2)] set_upt Un_absorb) auto
  obtain g where g: "\<And>n. n < 32 \<Longrightarrow> scheme_deltas k k' n = Inr (g n) \<and>
      (failing (g n) \<longleftrightarrow> \<not> list_all (\<lambda>i. i = 16 \<or> scheme_words k n ! i = scheme_words k' n ! i) [0..<24])"
    using scheme_deltas_spec [OF assms] by metis
  have s: "seqE (map (scheme_deltas k k') ?keys) = Inr (map g ?keys)"
    by (rule seqE_values) (use g keys in auto)
  have stable: "kp_stable k = kp_stable k' \<longleftrightarrow>
      (\<forall>n \<in> set [''gcr'', ''seer'', ''serc'']. map_of (kp_stable k) n = map_of (kp_stable k') n)"
    using assoc_eq [of "kp_stable k" "kp_stable k'"] unfolding key_set [OF sh(3)] sh(3,4) by simp
  have ports: "kp_ports k = kp_ports k' \<longleftrightarrow>
      (\<forall>p \<in> set (both_keys (kp_ports k) (kp_ports k')). map_of (kp_ports k) p = map_of (kp_ports k') p)"
    using assoc_eq [of "kp_ports k" "kp_ports k'"] port_keys_distinct
    unfolding both_keys_set key_set [OF sh(5)] key_set [OF sh(6)] sh(5,6) Un_absorb by blast
  have sch: "failing (concat (map g ?keys)) \<longleftrightarrow>
      \<not> list_all (\<lambda>n. list_all (\<lambda>i. i = 16 \<or> scheme_words k n ! i = scheme_words k' n ! i) [0..<24]) [0..<32]"
    using g keys by (auto simp: list_all_iff)
  show ?thesis
    unfolding kg_deltas_def s Let_def bindE_Inr
    by (intro exI conjI, rule refl, unfold same_keygen_def stable ports failing_simps(2) sch failing_diffs) blast
qed

lemma budget_deltas_spec:
  "failing (budget_deltas a b) \<longleftrightarrow>
   \<not> (case (budget_get a ''used'', budget_get b ''used'') of (Some x, Some y) \<Rightarrow> x = y | _ \<Rightarrow> True)"
  by (auto simp: budget_deltas_def split: option.splits)

lemma cc_deltas_spec:
  assumes "captured kg s" "captured kg' t"
  shows "\<exists>ds. cc_deltas s t = Inr ds \<and> (failing ds \<longleftrightarrow> pc_cc s \<noteq> pc_cc t)"
  using assms by (auto simp: cc_deltas_def captured_def all_words_def hx_value changed_none)

lemma diff_spec:
  assumes "captured kg s" "captured kg' t"
  shows "\<exists>ds. pcd_diff s t = Inr ds \<and> (failing ds \<longleftrightarrow> \<not> same_state s t)"
proof -
  let ?k = "case (pc_kg s, pc_kg t) of
        (Some okg, Some nkg) \<Rightarrow> kg_deltas okg nkg
      | (None, None) \<Rightarrow> Inr []
      | _ \<Rightarrow> Inr [(Note, ''KG capture present in only one snapshot (--no-kg)'')]"
  have "\<exists>ds. ?k = Inr ds \<and> (failing ds \<longleftrightarrow>
      \<not> (case (pc_kg s, pc_kg t) of (Some k, Some k') \<Rightarrow> same_keygen k k' | _ \<Rightarrow> True))"
    using assms kg_deltas_spec by (auto simp: captured_def split: option.splits)
  then obtain kd where kd: "?k = Inr kd" "failing kd \<longleftrightarrow>
      \<not> (case (pc_kg s, pc_kg t) of (Some k, Some k') \<Rightarrow> same_keygen k k' | _ \<Rightarrow> True)" by blast
  obtain cd where cd: "cc_deltas s t = Inr cd" "failing cd \<longleftrightarrow> pc_cc s \<noteq> pc_cc t" using cc_deltas_spec [OF assms] by blast
  have t: "port_table 32 (pc_bmi s)" "port_table 32 (pc_bmi t)" "port_table 16 (pc_lcv s)" "port_table 16 (pc_lcv t)"
    using assms by (auto simp: captured_def)
  have bmi: "failing (bmi_deltas (pc_bmi s) (pc_bmi t)) \<longleftrightarrow> pc_bmi s \<noteq> pc_bmi t"
    using table_changed [OF t(1,2)] by (simp add: bmi_deltas_def)
  have lcv: "failing (lcv_deltas (pc_lcv s) (pc_lcv t)) \<longleftrightarrow> pc_lcv s \<noteq> pc_lcv t"
    using table_changed [OF t(3,4)] by (simp add: lcv_deltas_def)
  show ?thesis unfolding pcd_diff_def kd(1) cd(1) bindE_Inr
    by (intro exI conjI, rule refl, unfold same_state_def failing_simps(2) kd(2) bmi lcv cd(2) budget_deltas_spec) blast
qed

section \<open>Theorems\<close>

lemma read_commands_read: "list_all (\<lambda>(a, c). a = pcd_reg KG_AR \<and> c AND KG_READ = KG_READ) read_commands"
proof -
  have "list_all (\<lambda>n. scheme_cmd n AND KG_READ = KG_READ) [0..<32]" "list_all (\<lambda>p. port_cmd p AND KG_READ = KG_READ) RX_PORT_IDS"
    by code_simp+
  then show ?thesis by (auto simp: read_commands_def list_all_iff)
qed

text \<open>C14. Capturing only reads (safety).  On every device, whatever it answers and even if the indirect
  register never becomes ready, a capture returns; all it writes are commands to the action register, in
  a fixed order and each with the read bit set: one for each of the 32 schemes and the eight receive ports.
  Without the KeyGen part it writes nothing.  The snapshot has every word: 24 per scheme, 32 and 16 per port, 128 of the
  coarse classification region.\<close>
theorem capture_only_reads:
  "\<exists>s h'. capture (logged b) cl bu kg (h, l) = (Inr s, (h', l @ (if kg then read_commands else []))) \<and>
     captured kg s \<and> list_all (\<lambda>(a, c). a = pcd_reg KG_AR \<and> c AND KG_READ = KG_READ) read_commands \<and>
     length read_commands = 40"
proof -
  obtain s h' where "capture (logged b) cl bu kg (h, l) = (Inr s, (h', l @ (if kg then read_commands else [])))"
    "captured kg s" using runs_capture [of b cl bu kg] unfolding runs_def by blast
  moreover have "length read_commands = 40" by (simp add: read_commands_def RX_PORT_IDS_def)
  ultimately show ?thesis using read_commands_read by blast
qed

lemma main_live:
  assumes "board_gate e" "pe_root e"
  shows "\<exists>live h'. capture (logged b) (pe_cmdline e) (pe_budget e) (\<not> no_kg) h = (Inr live, h') \<and> captured (\<not> no_kg) live"
  using runs_capture [of b "pe_cmdline e" "pe_budget e" "\<not> no_kg"] unfolding runs_def by (cases h) metis

lemma main_capture:
  assumes "pcd_main (logged b) e (CaptureTo out shown) no_kg h = (Inr (st, ls, Some s), h')"
  shows "captured (\<not> no_kg) s"
proof -
  have "board_gate e" "pe_root e" using assms by (auto simp: pcd_main_def retIO_def split: if_splits)
  from main_live [OF this, of b no_kg h] obtain live h'' where
    "capture (logged b) (pe_cmdline e) (pe_budget e) (\<not> no_kg) h = (Inr live, h'')" "captured (\<not> no_kg) live" by blast
  then show ?thesis using assms
    by (auto simp: pcd_main_def bindIO_def liftIO_def retIO_def Let_def split: if_splits sum.splits prod.splits)
qed

text \<open>C12. The gate decides reversibility (equivalence).  Take a baseline with one run and compare with a later
  one, each on any device.  The comparison captures once more and ends with status 0 exactly when the two snapshots
  show the same configuration: all words are equal but the packet counters of the schemes, and the use of the memory
  pool is equal if both know it.  Otherwise the status is 1, and it never fails.  The KeyGen words count only when both
  runs captured them.\<close>
theorem diff_decides:
  assumes "pcd_main (logged b) e (CaptureTo out shown) no_kg h = (Inr (st, ls, Some baseline), h')"
    and "board_gate e'" "pe_root e'" "pe_ref e' = Some baseline"
  shows "\<exists>live h2 lines. capture (logged b') (pe_cmdline e') (pe_budget e') (\<not> no_kg') h1 = (Inr live, h2) \<and>
    pcd_main (logged b') e' (DiffWith path) no_kg' h1 = (Inr (if same_state baseline live then 0 else 1, lines, None), h2)"
proof -
  obtain live h2 where l: "capture (logged b') (pe_cmdline e') (pe_budget e') (\<not> no_kg') h1 = (Inr live, h2)"
    "captured (\<not> no_kg') live" using main_live [OF assms(2,3), of b' no_kg' h1] by blast
  obtain ds where "pcd_diff baseline live = Inr ds" "failing ds \<longleftrightarrow> \<not> same_state baseline live"
    using diff_spec [OF main_capture [OF assms(1)] l(2)] by blast
  then show ?thesis using assms(2-4) l(1)
    by (auto simp: pcd_main_def bindIO_def liftIO_def retIO_def diff_report_def Let_def fail_count_0)
qed

lemma same_state_refl: "same_state s s"
  by (auto simp: same_state_def same_keygen_def list_all_iff split: option.splits)

text \<open>A device whose registers all read the same, and the program on it without the KeyGen part.\<close>

definition const_bus :: "u32 \<Rightarrow> unit bus" where
  "const_bus c = \<lparr>bus_read = (\<lambda>a h. (c, h)), bus_write = (\<lambda>a v h. h)\<rparr>"

definition plain_env :: pcd_env where
  "plain_env = \<lparr>pe_compat = Some ''fsl,ls1046a'', pe_root = True, pe_cmdline = None, pe_budget = None, pe_ref = None,
     pe_dumps = (\<lambda>_. [])\<rparr>"

definition plain_pcd :: "u32 \<Rightarrow> pcd" where
  "plain_pcd c = \<lparr>pc_image = ''?'', pc_kg = None, pc_bmi = map (\<lambda>p. (port_key p, replicate 32 (hx c))) RX_PORT_IDS,
     pc_lcv = map (\<lambda>p. (port_key p, replicate 16 (hx c))) RX_PORT_IDS, pc_cc_base = hx 0x5AC00,
     pc_cc = replicate 128 (hx c), pc_budget = None\<rparr>"

lemma mapIO_const: "(\<And>x. f x h = (Inr (g x), h)) \<Longrightarrow> mapIO f xs h = (Inr (map g xs), h)"
  by (induction xs) (auto simp: bindIO_def retIO_def)

lemma const_words: "mapIO (\<lambda>i. rdx (logged (const_bus c)) (f i)) [0..<n] h = (Inr (replicate n (hx c)), h)"
proof -
  have "mapIO (\<lambda>i. rdx (logged (const_bus c)) (f i)) [0..<n] h = (Inr (map (\<lambda>_. hx c) [0..<n]), h)"
    by (rule mapIO_const) (auto simp: rdx_def bindIO_def retIO_def rd_def logged_def const_bus_def split: prod.splits)
  then show ?thesis by (simp add: map_replicate_const)
qed

lemma const_capture: "capture (logged (const_bus c)) None None False h = (Inr (plain_pcd c), h)"
proof -
  have t: "mapIO (\<lambda>p. bindIO (mapIO (\<lambda>i. rdx (logged (const_bus c)) (f p i)) [0..<n]) (\<lambda>ws. retIO (port_key p, ws))) xs h
      = (Inr (map (\<lambda>p. (port_key p, replicate n (hx c))) xs), h)" for f n xs
    by (rule mapIO_const) (simp add: bindIO_def const_words retIO_def)
  show ?thesis unfolding capture_def
    by (simp add: bindIO_def t const_words retIO_def plain_pcd_def running_image_def read_muram_budget_def
        BMI_CFG_WORDS_def HWP_HXS_COUNT_def CC_REGION_WORDS_def CC_REGION_OFF_def)
qed

lemma hx_inj: "hx a = hx b \<Longrightarrow> a = b"
  using hx_value [of a] hx_value [of b] by (simp add: word_uint_eq_iff)

theorem diff_decides_witness:
  "fst (pcd_main (logged (const_bus 0)) (plain_env\<lparr>pe_ref := Some (plain_pcd 0)\<rparr>) (DiffWith ''r'') True ((), [])) \<in>
     {Inr (0, ls, None) | ls. True} \<and>
   fst (pcd_main (logged (const_bus 1)) (plain_env\<lparr>pe_ref := Some (plain_pcd 0)\<rparr>) (DiffWith ''r'') True ((), [])) \<in>
     {Inr (1, ls, None) | ls. True}"
proof -
  have "board_gate plain_env" by code_simp
  then have e: "board_gate (plain_env\<lparr>pe_ref := r\<rparr>)" "pe_root (plain_env\<lparr>pe_ref := r\<rparr>)" for r
    by (simp_all add: board_gate_def plain_env_def)
  have c: "\<exists>st ls. pcd_main (logged (const_bus 0)) (plain_env\<lparr>pe_ref := None\<rparr>) (CaptureTo ''r'' False) True ((), []) =
      (Inr (st, ls, Some (plain_pcd 0)), ((), []))"
    using e [of None] by (simp add: pcd_main_def bindIO_def plain_env_def const_capture liftIO_def retIO_def Let_def)
  have ne: "hx 0 \<noteq> hx 1" using hx_inj [of 0 1] by auto
  then have "\<not> same_state (plain_pcd 0) (plain_pcd 1)" by (simp add: same_state_def plain_pcd_def)
  then show ?thesis
    using c diff_decides [of "const_bus 0" "plain_env\<lparr>pe_ref := None\<rparr>" "''r''" False True "((), [])" _ _ "plain_pcd 0" "((), [])"
        "plain_env\<lparr>pe_ref := Some (plain_pcd 0)\<rparr>" "const_bus 0" True "((), [])" "''r''"]
      diff_decides [of "const_bus 0" "plain_env\<lparr>pe_ref := None\<rparr>" "''r''" False True "((), [])" _ _ "plain_pcd 0" "((), [])"
        "plain_env\<lparr>pe_ref := Some (plain_pcd 0)\<rparr>" "const_bus 1" True "((), [])" "''r''"]
      e same_state_refl
    by (fastforce simp: plain_env_def const_capture)
qed

text \<open>A comparison without the KeyGen part of either run passes whatever the schemes hold.\<close>

lemma keygen_not_compared:
  assumes "captured True s" "captured False t"
  shows "same_state s t \<longleftrightarrow> same_state (s\<lparr>pc_kg := None\<rparr>) t"
  using assms by (auto simp: same_state_def captured_def split: option.splits)

text \<open>The command for a port has the port number where \<^verbatim>\<open>kg-lcv-probe.py\<close> has none, and no port in the field
  where that tool puts it.\<close>

lemma port_command_disagrees:
  "list_all (\<lambda>p. port_cmd p AND 0xFF = 0 \<and> port_cmd p \<noteq> GO OR READ OR SEL_PORT OR WSEL_SP OR int p) RX_PORT_IDS"
  by code_simp

end
