(* ===== verification/Bpf.thy ===== *)
theory Bpf
  imports Hw PyText
begin

text \<open>
  The raw BPF and netlink plumbing that \<^verbatim>\<open>bin/dpaa1-xsk-bind-probe.py\<close> and
  \<^verbatim>\<open>bin/dpaa1-xdp-rxcap.py\<close> share: instruction encoding, the three XDP programs, the
  RTM_SETLINK message and the attach fallback.  Native order is little endian (arm64).  The
  kernel is a parameter: it answers a netlink message with bytes, and the effect of an
  instruction is a hypothesis that states the documented behaviour of its opcode.
\<close>

section \<open>struct.pack with native order\<close>

fun pack_le :: "nat \<Rightarrow> int \<Rightarrow> byte list" where
  "pack_le 0 v = []"
| "pack_le (Suc n) v = word_of_int v # pack_le n (v div 256)"

fun unpack_le :: "byte list \<Rightarrow> int" where
  "unpack_le [] = 0"
| "unpack_le (b # bs) = uint b + 256 * unpack_le bs"

definition signed_le :: "byte list \<Rightarrow> int" where
  "signed_le bs =
     (let v = unpack_le bs in if v < 2 ^ (8 * length bs - 1) then v else v - 2 ^ (8 * length bs))"

definition pack_u :: "nat \<Rightarrow> int \<Rightarrow> byte list res" where
  "pack_u n v = (if 0 \<le> v \<and> v < 2 ^ (8 * n) then Inr (pack_le n v) else Inl StructError)"

definition pack_s :: "nat \<Rightarrow> int \<Rightarrow> byte list res" where
  "pack_s n v =
     (if - (2 ^ (8 * n - 1)) \<le> v \<and> v < 2 ^ (8 * n - 1) then Inr (pack_le n v) else Inl StructError)"

definition catE :: "byte list res list \<Rightarrow> byte list res" where
  "catE ps = bindE (seqE ps) (\<lambda>bs. Inr (concat bs))"

lemma length_pack_le [simp]: "length (pack_le n v) = n"
  by (induction n arbitrary: v) auto

lemma unpack_pack_le: "unpack_le (pack_le n v) = v mod 2 ^ (8 * n)"
proof (induction n arbitrary: v)
  case (Suc n)
  have "v mod (256 * 2 ^ (8 * n)) = 256 * (v div 256 mod 2 ^ (8 * n)) + v mod 256"
    by (simp add: zmod_zmult2_eq)
  moreover have "(2 :: int) ^ (8 * Suc n) = 256 * 2 ^ (8 * n)" by (simp add: power_add)
  ultimately show ?case using Suc by (simp add: uint_word_of_int)
qed simp

lemma pack_u_unpack: "pack_u n v = Inr bs \<Longrightarrow> unpack_le bs = v \<and> length bs = n"
  by (auto simp: pack_u_def unpack_pack_le split: if_splits)

lemma pack_s_unpack: "pack_s n v = Inr bs \<Longrightarrow> 0 < n \<Longrightarrow> signed_le bs = v \<and> length bs = n"
proof -
  assume a: "pack_s n v = Inr bs" "0 < n"
  define h :: int where "h = 2 ^ (8 * n - 1)"
  have two: "(2 :: int) ^ (8 * n) = 2 * h"
    using a(2) by (simp add: h_def power_Suc [symmetric] del: power_Suc)
  have r: "- h \<le> v" "v < h" "bs = pack_le n v" using a by (auto simp: pack_s_def h_def split: if_splits)
  have m: "v mod (2 * h) = (if 0 \<le> v then v else v + 2 * h)"
  proof (cases "0 \<le> v")
    case False
    have "v mod (2 * h) = (v + 2 * h) mod (2 * h)" by simp
    also have "\<dots> = v + 2 * h" using r False by (intro mod_pos_pos_trivial) simp_all
    finally show ?thesis using False by simp
  qed (use r in simp)
  have s: "signed_le bs = (if v mod (2 * h) < h then v mod (2 * h) else v mod (2 * h) - 2 * h)"
    unfolding signed_le_def r(3) unpack_pack_le length_pack_le two h_def Let_def ..
  show ?thesis unfolding s m using r by auto
qed

section \<open>Instructions\<close>

text \<open>\<^verbatim>\<open>struct.pack("=BBhi", opc, (src << 4) | dst, off, imm)\<close>.\<close>

definition insn_bytes :: "int \<Rightarrow> int \<Rightarrow> int \<Rightarrow> int \<Rightarrow> int \<Rightarrow> byte list res" where
  "insn_bytes opc dst src off imm =
     catE [pack_u 1 opc, pack_u 1 (push_bit 4 src OR dst), pack_s 2 off, pack_s 4 imm]"

record bpf_insn =
  i_opc :: int
  i_dst :: int
  i_src :: int
  i_off :: int
  i_imm :: int

text \<open>The fields of \<^verbatim>\<open>struct bpf_insn\<close>, as the comment above \<open>_insn\<close> lays them out.\<close>

definition decode_insn :: "byte list \<Rightarrow> bpf_insn" where
  "decode_insn bs =
     \<lparr> i_opc = unpack_le (slice 0 1 bs), i_dst = unpack_le (slice 1 2 bs) AND 15,
       i_src = drop_bit 4 (unpack_le (slice 1 2 bs)), i_off = signed_le (slice 2 4 bs),
       i_imm = signed_le (slice 4 8 bs) \<rparr>"

fun decode_prog :: "byte list \<Rightarrow> bpf_insn list" where
  "decode_prog [] = []"
| "decode_prog (b # bs) = decode_insn (take 8 (b # bs)) # decode_prog (drop 7 bs)"

definition BPF_ALU64_MOV_K :: int where "BPF_ALU64_MOV_K = 0xb7"
definition BPF_JMP_CALL :: int where "BPF_JMP_CALL = 0x85"
definition BPF_JMP_EXIT :: int where "BPF_JMP_EXIT = 0x95"
definition BPF_LD_IMM64_DW :: int where "BPF_LD_IMM64_DW = 0x18"
definition BPF_LDX_MEM_W :: int where "BPF_LDX_MEM_W = 0x61"
definition BPF_LDX_MEM_H :: int where "BPF_LDX_MEM_H = 0x69"
definition BPF_LDX_MEM_B :: int where "BPF_LDX_MEM_B = 0x71"
definition BPF_ALU64_MOV_X :: int where "BPF_ALU64_MOV_X = 0xbf"
definition BPF_ALU64_ADD_K :: int where "BPF_ALU64_ADD_K = 0x07"
definition BPF_JMP_JGT_X :: int where "BPF_JMP_JGT_X = 0x2d"
definition BPF_JMP_JNE_K :: int where "BPF_JMP_JNE_K = 0x55"
definition XDP_DROP :: int where "XDP_DROP = 1"
definition XDP_PASS :: int where "XDP_PASS = 2"

lemmas bpf_codes = BPF_ALU64_MOV_K_def BPF_JMP_CALL_def BPF_JMP_EXIT_def BPF_LD_IMM64_DW_def BPF_LDX_MEM_W_def
  BPF_LDX_MEM_H_def BPF_LDX_MEM_B_def BPF_ALU64_MOV_X_def BPF_ALU64_ADD_K_def BPF_JMP_JGT_X_def BPF_JMP_JNE_K_def
  XDP_DROP_def XDP_PASS_def

definition build_xdp_drop_prog :: "byte list res" where
  "build_xdp_drop_prog = catE [insn_bytes BPF_ALU64_MOV_K 0 0 0 XDP_DROP, insn_bytes BPF_JMP_EXIT 0 0 0 0]"

definition build_xdp_drop_udp_prog :: "byte list res" where
  "build_xdp_drop_udp_prog = catE
     [insn_bytes BPF_LDX_MEM_W 2 1 0 0,
      insn_bytes BPF_LDX_MEM_W 3 1 4 0,
      insn_bytes BPF_ALU64_MOV_X 4 2 0 0,
      insn_bytes BPF_ALU64_ADD_K 4 0 0 24,
      insn_bytes BPF_JMP_JGT_X 4 3 (11 - 5) 0,
      insn_bytes BPF_LDX_MEM_H 5 2 12 0,
      insn_bytes BPF_JMP_JNE_K 5 0 (11 - 7) 0x0008,
      insn_bytes BPF_LDX_MEM_B 6 2 23 0,
      insn_bytes BPF_JMP_JNE_K 6 0 (11 - 9) 17,
      insn_bytes BPF_ALU64_MOV_K 0 0 0 XDP_DROP,
      insn_bytes BPF_JMP_EXIT 0 0 0 0,
      insn_bytes BPF_ALU64_MOV_K 0 0 0 XDP_PASS,
      insn_bytes BPF_JMP_EXIT 0 0 0 0]"

definition build_xdp_redirect_prog :: "int \<Rightarrow> byte list res" where
  "build_xdp_redirect_prog fd = catE
     [insn_bytes BPF_ALU64_MOV_K 2 0 0 0,
      insn_bytes BPF_LD_IMM64_DW 1 1 0 fd,
      insn_bytes 0 0 0 0 0,
      insn_bytes BPF_ALU64_MOV_K 3 0 0 XDP_PASS,
      insn_bytes BPF_JMP_CALL 0 0 0 51,
      insn_bytes BPF_JMP_EXIT 0 0 0 0]"

definition n_insns :: "byte list \<Rightarrow> nat" where "n_insns bs = length bs div 8"

section \<open>The route socket\<close>

text \<open>\<^verbatim>\<open>ifinfomsg\<close>, the nested \<^verbatim>\<open>IFLA_XDP\<close> attribute and the message header.\<close>

definition setlink_nested :: "int \<Rightarrow> int \<Rightarrow> byte list res" where
  "setlink_nested prog_fd flags =
     bindE (catE [pack_u 2 8, pack_u 2 1, pack_s 4 prog_fd]) (\<lambda>fd_attr.
     bindE (catE [pack_u 2 8, pack_u 2 3, pack_u 4 flags]) (\<lambda>fl_attr.
     bindE (catE [pack_u 2 (int (4 + length (fd_attr @ fl_attr))), pack_u 2 43]) (\<lambda>h.
       Inr (h @ fd_attr @ fl_attr))))"

definition build_setlink :: "int \<Rightarrow> int \<Rightarrow> int \<Rightarrow> byte list res" where
  "build_setlink ifindex prog_fd flags =
     bindE (catE [pack_u 1 0, pack_u 1 0, pack_u 2 0, pack_s 4 ifindex, pack_u 4 0, pack_u 4 0]) (\<lambda>ifi.
     bindE (setlink_nested prog_fd flags) (\<lambda>nested.
     bindE (catE [pack_u 4 (int (16 + length (ifi @ nested))), pack_u 2 19, pack_u 2 (0x01 OR 0x04), pack_u 4 1,
                  pack_u 4 0]) (\<lambda>hdr. Inr (hdr @ ifi @ nested))))"

text \<open>The error field of an \<^verbatim>\<open>NLMSG_ERROR\<close> reply.\<close>

definition nl_error :: "byte list \<Rightarrow> int option" where
  "nl_error reply =
     (if 20 \<le> length reply \<and> unpack_le (slice 4 6 reply) = 2 then Some (signed_le (slice 16 20 reply)) else None)"

definition XDP_DRV :: int where "XDP_DRV = 4"
definition XDP_SKB :: int where "XDP_SKB = 2"

text \<open>
  The probe: an acknowledged mode is returned, a reply that is not an error reply counts as
  attached and is marked, a refusal goes on; \<open>ask\<close> sends the message and receives the reply.
\<close>

definition attach_errno :: "int option \<Rightarrow> py_error" where
  "attach_errno prev = OSError (case prev of Some e \<Rightarrow> int_str (if e \<noteq> 0 then - e else 5) | None \<Rightarrow> int_str 5)"

fun attach_modes :: "(byte list \<Rightarrow> ('h, byte list) io) \<Rightarrow> int \<Rightarrow> int \<Rightarrow> int option \<Rightarrow> (string \<times> int) list \<Rightarrow> ('h, string) io" where
  "attach_modes ask ifindex fd prev [] = raiseIO (attach_errno prev)"
| "attach_modes ask ifindex fd prev ((nm, flags) # ms) =
     bindIO (liftIO (build_setlink ifindex fd flags)) (\<lambda>msg.
     bindIO (ask msg) (\<lambda>reply.
       case nl_error reply of
         Some e \<Rightarrow> if e = 0 then retIO nm else attach_modes ask ifindex fd (Some e) ms
       | None \<Rightarrow> retIO (nm @ ''?'')))"

definition probe_attach :: "(byte list \<Rightarrow> ('h, byte list) io) \<Rightarrow> bool \<Rightarrow> int \<Rightarrow> int \<Rightarrow> ('h, string) io" where
  "probe_attach ask drv_first ifindex fd =
     attach_modes ask ifindex fd None ((if drv_first then [(''DRV'', XDP_DRV)] else []) @ [(''SKB'', XDP_SKB)])"

text \<open>The capacity tool: any other reply is success, one socket per message.\<close>

definition xdp_setlink :: "(byte list \<Rightarrow> ('h, byte list) io) \<Rightarrow> int \<Rightarrow> int \<Rightarrow> int \<Rightarrow> ('h, int) io" where
  "xdp_setlink ask ifindex fd flags =
     bindIO (liftIO (build_setlink ifindex fd flags)) (\<lambda>msg.
     bindIO (ask msg) (\<lambda>reply. retIO (case nl_error reply of Some e \<Rightarrow> e | None \<Rightarrow> 0)))"

fun rxcap_modes :: "(byte list \<Rightarrow> ('h, byte list) io) \<Rightarrow> int \<Rightarrow> int \<Rightarrow> int option \<Rightarrow> (string \<times> int) list \<Rightarrow> ('h, string) io" where
  "rxcap_modes ask ifindex fd prev [] = raiseIO (attach_errno prev)"
| "rxcap_modes ask ifindex fd prev ((nm, flags) # ms) =
     bindIO (xdp_setlink ask ifindex fd flags) (\<lambda>err.
       if err = 0 then retIO nm else rxcap_modes ask ifindex fd (Some err) ms)"

definition rxcap_attach :: "(byte list \<Rightarrow> ('h, byte list) io) \<Rightarrow> int \<Rightarrow> int \<Rightarrow> ('h, string) io" where
  "rxcap_attach ask ifindex fd = rxcap_modes ask ifindex fd None [(''DRV'', XDP_DRV), (''SKB'', XDP_SKB)]"

fun detach_modes :: "(byte list \<Rightarrow> ('h, byte list) io) \<Rightarrow> int \<Rightarrow> int list \<Rightarrow> ('h, bool) io" where
  "detach_modes ask ifindex [] = retIO False"
| "detach_modes ask ifindex (f # fs) =
     bindIO (xdp_setlink ask ifindex (-1) f) (\<lambda>err. if err = 0 then retIO True else detach_modes ask ifindex fs)"

definition detach_xdp_prog :: "(byte list \<Rightarrow> ('h, byte list) io) \<Rightarrow> int \<Rightarrow> ('h, bool) io" where
  "detach_xdp_prog ask ifindex = detach_modes ask ifindex [XDP_DRV, XDP_SKB, 0]"

section \<open>Messages and instructions decode to what was asked\<close>

lemma catE_Inr: "catE ps = Inr bs \<longleftrightarrow> (\<exists>xs. ps = map Inr xs \<and> bs = concat xs)"
  unfolding catE_def bindE_eq_Inr by (auto simp: seqE_eq_Inr)

lemma pack_u_ok: "0 \<le> v \<Longrightarrow> v < 2 ^ (8 * n) \<Longrightarrow> pack_u n v = Inr (pack_le n v)"
  by (simp add: pack_u_def)

lemma pack_s_ok: "- (2 ^ (8 * n - 1)) \<le> v \<Longrightarrow> v < 2 ^ (8 * n - 1) \<Longrightarrow> pack_s n v = Inr (pack_le n v)"
  by (simp add: pack_s_def)

lemma signed_pack_le:
  "- (2 ^ (8 * n - 1)) \<le> v \<Longrightarrow> v < 2 ^ (8 * n - 1) \<Longrightarrow> 0 < n \<Longrightarrow> signed_le (pack_le n v) = v"
  using pack_s_unpack [OF pack_s_ok] by blast

lemma nibbles:
  fixes d s :: int
  assumes "0 \<le> d" "d < 16" "0 \<le> s" "s < 16"
  shows "0 \<le> push_bit 4 s OR d" "push_bit 4 s OR d < 256" "(push_bit 4 s OR d) AND 15 = d" "drop_bit 4 (push_bit 4 s OR d) = s"
proof -
  have d: "take_bit 4 d = d" using assms by (simp add: take_bit_int_eq_self)
  have "bit d n \<Longrightarrow> n < 4" for n by (metis bit_take_bit_iff d)
  then have "push_bit 4 s + d = push_bit 4 s OR d"
    by (intro disjunctive_add) (auto simp: bit_push_bit_iff not_le)
  then have *: "push_bit 4 s OR d = s * 16 + d" by (simp add: push_bit_eq_mult)
  show "0 \<le> push_bit 4 s OR d" "push_bit 4 s OR d < 256" using assms by (simp_all add: *)
  have "(push_bit 4 s OR d) AND mask 4 = d" using assms by (simp add: * take_bit_eq_mask [symmetric] take_bit_eq_mod)
  then show "(push_bit 4 s OR d) AND 15 = d" by (simp add: mask_eq_exp_minus_1)
  show "drop_bit 4 (push_bit 4 s OR d) = s" using assms by (simp add: * drop_bit_eq_div)
qed

lemma insn_roundtrip_core:
  assumes "0 \<le> opc" "opc < 256" "0 \<le> dst" "dst < 16" "0 \<le> src" "src < 16" "- 32768 \<le> off" "off < 32768"
    "- 2147483648 \<le> imm" "imm < 2147483648"
  shows "\<exists>bs. insn_bytes opc dst src off imm = Inr bs \<and> length bs = 8 \<and>
    decode_insn bs = \<lparr> i_opc = opc, i_dst = dst, i_src = src, i_off = off, i_imm = imm \<rparr>"
proof -
  note n = nibbles [OF assms(3-6)]
  let ?bs = "pack_le 1 opc @ pack_le 1 (push_bit 4 src OR dst) @ pack_le 2 off @ pack_le 4 imm"
  have "insn_bytes opc dst src off imm = Inr ?bs"
    using assms n by (simp add: insn_bytes_def catE_def pack_u_ok pack_s_ok)
  moreover have "decode_insn ?bs = \<lparr> i_opc = opc, i_dst = dst, i_src = src, i_off = off, i_imm = imm \<rparr>"
    using assms n by (simp add: decode_insn_def slice_def unpack_pack_le signed_pack_le del: pack_le.simps)
  ultimately show ?thesis by simp
qed

lemma insn_range:
  "insn_bytes opc dst src off imm = Inr bs \<Longrightarrow>
     0 \<le> opc \<and> opc < 256 \<and> - 32768 \<le> off \<and> off < 32768 \<and> - 2147483648 \<le> imm \<and> imm < 2147483648"
  by (auto simp: insn_bytes_def catE_Inr pack_u_def pack_s_def map_eq_Cons_conv split: if_splits)

lemma decode_prog_append:
  "length bs = 8 \<Longrightarrow> decode_prog (bs @ rest) = decode_insn bs # decode_prog rest"
  by (cases bs) auto

definition insn_ok :: "bpf_insn \<Rightarrow> bool" where
  "insn_ok i = (0 \<le> i_opc i \<and> i_opc i < 256 \<and> 0 \<le> i_dst i \<and> i_dst i < 16 \<and> 0 \<le> i_src i \<and> i_src i < 16 \<and>
     - 32768 \<le> i_off i \<and> i_off i < 32768 \<and> - 2147483648 \<le> i_imm i \<and> i_imm i < 2147483648)"

definition encode :: "bpf_insn \<Rightarrow> byte list res" where
  "encode i = insn_bytes (i_opc i) (i_dst i) (i_src i) (i_off i) (i_imm i)"

lemma encode_insn: "encode \<lparr> i_opc = a, i_dst = d, i_src = s, i_off = f, i_imm = m \<rparr> = insn_bytes a d s f m"
  by (simp add: encode_def)

lemma catE_Cons: "catE (Inr b # ps) = bindE (catE ps) (\<lambda>bs. Inr (b @ bs))"
  by (cases "seqE ps") (simp_all add: catE_def)

lemma prog_roundtrip:
  "\<forall>i \<in> set is. insn_ok i \<Longrightarrow>
   \<exists>bs. catE (map encode is) = Inr bs \<and> length bs = 8 * length is \<and> decode_prog bs = is"
proof (induction "is")
  case (Cons i "is")
  then obtain bs where bs: "catE (map encode is) = Inr bs" "length bs = 8 * length is" "decode_prog bs = is" by auto
  from Cons.prems have "insn_ok i" by simp
  then obtain b where b: "encode i = Inr b" "length b = 8" "decode_insn b = i"
    unfolding insn_ok_def encode_def
    using insn_roundtrip_core [of "i_opc i" "i_dst i" "i_src i" "i_off i" "i_imm i"] by auto
  show ?case
    using bs b by (intro exI [of _ "b @ bs"]) (simp add: catE_Cons decode_prog_append)
qed (simp add: catE_def)

section \<open>What the drop program does\<close>

record bpf_st =
  b_pc :: int
  b_reg :: "int \<Rightarrow> int"
  b_ret :: "int option"

text \<open>The documented effect of the opcodes used; \<open>mem n a\<close> is the little-endian value of \<open>n\<close> bytes at \<open>a\<close>.\<close>

definition bpf_laws :: "(nat \<Rightarrow> int \<Rightarrow> int) \<Rightarrow> (bpf_insn \<Rightarrow> bpf_st \<Rightarrow> bpf_st) \<Rightarrow> bool" where
  "bpf_laws mem step = (\<forall>i s.
     (let d = i_dst i; r = b_reg s; next = s\<lparr>b_pc := b_pc s + 1\<rparr>; jump = s\<lparr>b_pc := b_pc s + 1 + i_off i\<rparr>;
          set = (\<lambda>v. next\<lparr>b_reg := r(d := v)\<rparr>)
      in (i_opc i = BPF_ALU64_MOV_K \<longrightarrow> step i s = set (i_imm i mod 2 ^ 64)) \<and>
         (i_opc i = BPF_ALU64_MOV_X \<longrightarrow> step i s = set (r (i_src i))) \<and>
         (i_opc i = BPF_ALU64_ADD_K \<longrightarrow> step i s = set ((r d + i_imm i) mod 2 ^ 64)) \<and>
         (i_opc i = BPF_LDX_MEM_W \<longrightarrow> step i s = set (mem 4 (r (i_src i) + i_off i))) \<and>
         (i_opc i = BPF_LDX_MEM_H \<longrightarrow> step i s = set (mem 2 (r (i_src i) + i_off i))) \<and>
         (i_opc i = BPF_LDX_MEM_B \<longrightarrow> step i s = set (mem 1 (r (i_src i) + i_off i))) \<and>
         (i_opc i = BPF_JMP_JGT_X \<longrightarrow> step i s = (if r d > r (i_src i) then jump else next)) \<and>
         (i_opc i = BPF_JMP_JNE_K \<longrightarrow> step i s = (if r d \<noteq> i_imm i mod 2 ^ 64 then jump else next)) \<and>
         (i_opc i = BPF_JMP_EXIT \<longrightarrow> step i s = s\<lparr>b_ret := Some (r 0)\<rparr>)))"

fun bpf_run :: "(bpf_insn \<Rightarrow> bpf_st \<Rightarrow> bpf_st) \<Rightarrow> bpf_insn list \<Rightarrow> nat \<Rightarrow> bpf_st \<Rightarrow> bpf_st" where
  "bpf_run step prog 0 s = s"
| "bpf_run step prog (Suc n) s =
     (if b_ret s \<noteq> None then s else bpf_run step prog n (step (prog ! nat (b_pc s)) s))"

definition bpf_start :: "int \<Rightarrow> bpf_st" where
  "bpf_start ctx = \<lparr> b_pc = 0, b_reg = (\<lambda>_. 0)(1 := ctx), b_ret = None \<rparr>"

definition udp_insns :: "bpf_insn list" where
  "udp_insns = map (\<lambda>(a, d, s, f, m). \<lparr> i_opc = a, i_dst = d, i_src = s, i_off = f, i_imm = m \<rparr>)
     [(0x61, 2, 1, 0, 0), (0x61, 3, 1, 4, 0), (0xbf, 4, 2, 0, 0), (0x07, 4, 0, 0, 24), (0x2d, 4, 3, 6, 0),
      (0x69, 5, 2, 12, 0), (0x55, 5, 0, 4, 8), (0x71, 6, 2, 23, 0), (0x55, 6, 0, 2, 17), (0xb7, 0, 0, 0, 1),
      (0x95, 0, 0, 0, 0), (0xb7, 0, 0, 0, 2), (0x95, 0, 0, 0, 0)]"

lemma udp_prog: "build_xdp_drop_udp_prog = catE (map encode udp_insns)"
  by (simp add: build_xdp_drop_udp_prog_def udp_insns_def encode_insn bpf_codes)

text \<open>C8. The selective program drops exactly the IPv4/UDP frames: under the documented effect of its
  opcodes it returns \<open>XDP_DROP\<close> when 24 bytes are present, the EtherType is 0x0800 and the protocol
  byte is 17, and \<open>XDP_PASS\<close> for every other frame, within 13 instructions.\<close>
theorem drop_udp_exact:
  assumes "bpf_laws mem step" "data = mem 4 ctx" "0 \<le> data" "data < 2 ^ 32"
  shows "\<exists>bs. build_xdp_drop_udp_prog = Inr bs \<and> n_insns bs = 13 \<and>
    b_ret (bpf_run step (decode_prog bs) 13 (bpf_start ctx)) =
      Some (if data + 24 \<le> mem 4 (ctx + 4) \<and> mem 2 (data + 12) = 8 \<and> mem 1 (data + 23) = 17
            then XDP_DROP else XDP_PASS)"
proof -
  have "\<forall>i \<in> set udp_insns. insn_ok i" by (simp add: udp_insns_def insn_ok_def)
  from prog_roundtrip [OF this] obtain bs where bs: "build_xdp_drop_udp_prog = Inr bs" "length bs = 8 * 13"
    "decode_prog bs = udp_insns" unfolding udp_prog by (auto simp: udp_insns_def)
  note law = assms(1) [unfolded bpf_laws_def Let_def bpf_codes, rule_format]
  have "b_ret (bpf_run step udp_insns 13 (bpf_start ctx)) =
      Some (if data + 24 \<le> mem 4 (ctx + 4) \<and> mem 2 (data + 12) = 8 \<and> mem 1 (data + 23) = 17
            then XDP_DROP else XDP_PASS)"
    using assms(2-4) by (simp add: udp_insns_def bpf_start_def numeral_eq_Suc law bpf_codes)
  with bs show ?thesis by (intro exI [of _ bs]) (simp add: n_insns_def)
qed

definition model_step :: "(nat \<Rightarrow> int \<Rightarrow> int) \<Rightarrow> bpf_insn \<Rightarrow> bpf_st \<Rightarrow> bpf_st" where
  "model_step mem i s =
     (let d = i_dst i; r = b_reg s; next = s\<lparr>b_pc := b_pc s + 1\<rparr>; jump = s\<lparr>b_pc := b_pc s + 1 + i_off i\<rparr>;
          set = (\<lambda>v. next\<lparr>b_reg := r(d := v)\<rparr>)
      in if i_opc i = BPF_ALU64_MOV_K then set (i_imm i mod 2 ^ 64)
         else if i_opc i = BPF_ALU64_MOV_X then set (r (i_src i))
         else if i_opc i = BPF_ALU64_ADD_K then set ((r d + i_imm i) mod 2 ^ 64)
         else if i_opc i = BPF_LDX_MEM_W then set (mem 4 (r (i_src i) + i_off i))
         else if i_opc i = BPF_LDX_MEM_H then set (mem 2 (r (i_src i) + i_off i))
         else if i_opc i = BPF_LDX_MEM_B then set (mem 1 (r (i_src i) + i_off i))
         else if i_opc i = BPF_JMP_JGT_X then (if r d > r (i_src i) then jump else next)
         else if i_opc i = BPF_JMP_JNE_K then (if r d \<noteq> i_imm i mod 2 ^ 64 then jump else next)
         else if i_opc i = BPF_JMP_EXIT then s\<lparr>b_ret := Some (r 0)\<rparr> else s)"

lemma model_step_laws: "bpf_laws mem (model_step mem)"
  by (simp add: bpf_laws_def model_step_def Let_def bpf_codes)

definition sample_mem :: "nat \<Rightarrow> int \<Rightarrow> int" where
  "sample_mem n a = (if n = 4 then (if a = 64 then 1000 else 1060) else if n = 2 then 8 else 17)"

theorem drop_udp_exact_witness:
  "\<exists>bs. build_xdp_drop_udp_prog = Inr bs \<and> n_insns bs = 13 \<and>
    b_ret (bpf_run (model_step sample_mem) (decode_prog bs) 13 (bpf_start 64)) = Some XDP_DROP"
  using drop_udp_exact [OF model_step_laws [of sample_mem] refl, of 64] by (simp add: sample_mem_def)

section \<open>The messages\<close>

text \<open>The RTM_SETLINK message is well formed: its declared length and that of the nested attribute
  are the bytes that follow, and interface, program and flags are read back at their offsets; an
  interface index outside 32 bits is refused.\<close>
lemma setlink_message:
  assumes "- 2147483648 \<le> fd" "fd < 2147483648" "0 \<le> flags" "flags < 4294967296"
  shows "case build_setlink ifindex fd flags of
      Inl e \<Rightarrow> e = StructError \<and> \<not> (- 2147483648 \<le> ifindex \<and> ifindex < 2147483648)
    | Inr m \<Rightarrow> length m = 52 \<and> unpack_le (slice 0 4 m) = int (length m) \<and> unpack_le (slice 4 6 m) = 19 \<and>
        unpack_le (slice 6 8 m) = 5 \<and> signed_le (slice 20 24 m) = ifindex \<and>
        unpack_le (slice 32 34 m) = int (length m) - 32 \<and> unpack_le (slice 34 36 m) = 43 \<and>
        signed_le (slice 40 44 m) = fd \<and> unpack_le (slice 48 52 m) = flags"
proof (cases "- 2147483648 \<le> ifindex \<and> ifindex < 2147483648")
  case False
  then have "pack_s 4 ifindex = Inl StructError" by (auto simp: pack_s_def)
  moreover have "pack_u 4 0 = Inr (pack_le 4 0)" "pack_u 2 0 = Inr (pack_le 2 0)" "pack_u 1 0 = Inr (pack_le 1 0)"
    by (simp_all add: pack_u_ok)
  ultimately show ?thesis using False by (simp add: build_setlink_def catE_def)
next
  case True
  have "build_setlink ifindex fd flags = Inr (
      (pack_le 4 52 @ pack_le 2 19 @ pack_le 2 5 @ pack_le 4 1 @ pack_le 4 0) @
      (pack_le 1 0 @ pack_le 1 0 @ pack_le 2 0 @ pack_le 4 ifindex @ pack_le 4 0 @ pack_le 4 0) @
      (pack_le 2 20 @ pack_le 2 43) @ (pack_le 2 8 @ pack_le 2 1 @ pack_le 4 fd) @ pack_le 2 8 @ pack_le 2 3 @ pack_le 4 flags)"
    using True assms by (simp add: build_setlink_def setlink_nested_def catE_def pack_u_ok pack_s_ok del: pack_le.simps)
  then show ?thesis
    using True assms by (simp add: slice_def unpack_pack_le signed_pack_le del: pack_le.simps)
qed

lemma setlink_message_witness:
  "case build_setlink 3 7 4 of Inl e \<Rightarrow> e = StructError \<and> \<not> (- 2147483648 \<le> (3 :: int) \<and> (3 :: int) < 2147483648)
    | Inr m \<Rightarrow> length m = 52 \<and> unpack_le (slice 0 4 m) = int (length m) \<and> unpack_le (slice 4 6 m) = 19 \<and>
        unpack_le (slice 6 8 m) = 5 \<and> signed_le (slice 20 24 m) = 3 \<and>
        unpack_le (slice 32 34 m) = int (length m) - 32 \<and> unpack_le (slice 34 36 m) = 43 \<and>
        signed_le (slice 40 44 m) = 7 \<and> unpack_le (slice 48 52 m) = 4"
  by (rule setlink_message) simp_all

section \<open>Attaching\<close>

lemma attach_modes_agree:
  assumes "\<And>m h r h'. ask m h = (Inr r, h') \<Longrightarrow> nl_error r \<noteq> None"
  shows "attach_modes ask ifindex fd prev ms h = rxcap_modes ask ifindex fd prev ms h"
proof (induction ms arbitrary: prev h)
  case (Cons m ms)
  obtain nm flags where m: "m = (nm, flags)" by force
  show ?case
  proof (cases "build_setlink ifindex fd flags")
    case (Inr msg)
    obtain r h' where r: "ask msg h = (r, h')" by force
    show ?thesis
    proof (cases r)
      case (Inr reply)
      with r assms obtain e where "nl_error reply = Some e" by blast
      then show ?thesis using \<open>build_setlink ifindex fd flags = Inr msg\<close> Inr r m Cons
        by (simp add: bindIO_def liftIO_def xdp_setlink_def retIO_def)
    qed (use Inr r m in \<open>simp add: bindIO_def liftIO_def xdp_setlink_def\<close>)
  qed (simp add: m bindIO_def liftIO_def xdp_setlink_def)
qed simp

text \<open>Both tools attach the same way on a kernel that answers with an acknowledgement or an error:
  same mode, same exception, same messages (the device state is the kernel's).  On another reply both
  stop at the first mode, and only the probe marks the result as unacknowledged.\<close>
lemma attach_agree:
  assumes "\<forall>m h r h'. ask m h = (Inr r, h') \<longrightarrow> nl_error r \<noteq> None"
    "build_setlink ifindex fd XDP_DRV = Inr m0" "odd_ask m0 h0 = (Inr r0, h1)" "nl_error r0 = None"
  shows "probe_attach ask True ifindex fd = rxcap_attach ask ifindex fd \<and>
    probe_attach odd_ask True ifindex fd h0 = (Inr ''DRV?'', h1) \<and>
    rxcap_attach odd_ask ifindex fd h0 = (Inr ''DRV'', h1)"
proof (intro conjI ext)
  fix h
  show "probe_attach ask True ifindex fd h = rxcap_attach ask ifindex fd h"
    unfolding probe_attach_def rxcap_attach_def
    using attach_modes_agree [of ask] assms(1)
    by (simp del: attach_modes.simps rxcap_modes.simps)
qed (use assms(2-4) in \<open>simp_all add: probe_attach_def rxcap_attach_def bindIO_def liftIO_def xdp_setlink_def retIO_def\<close>)

lemma attach_agree_witness:
  "\<exists>m0. build_setlink 3 7 XDP_DRV = Inr m0 \<and>
    probe_attach (\<lambda>m h. (Inr (pack_le 4 20 @ pack_le 2 2 @ replicate 14 0), h)) True 3 7 () =
      rxcap_attach (\<lambda>m h. (Inr (pack_le 4 20 @ pack_le 2 2 @ replicate 14 0), h)) 3 7 () \<and>
    probe_attach (\<lambda>m h. (Inr [], h)) True 3 7 () = (Inr ''DRV?'', ())"
proof -
  have ack: "nl_error (pack_le 4 20 @ pack_le 2 2 @ replicate 14 0) \<noteq> None"
    by (simp add: nl_error_def slice_def unpack_pack_le del: pack_le.simps)
  obtain m0 where m0: "build_setlink 3 7 XDP_DRV = Inr m0"
    by (simp add: build_setlink_def setlink_nested_def catE_def pack_u_ok pack_s_ok XDP_DRV_def del: pack_le.simps)
  show ?thesis
    using attach_agree [of "\<lambda>m (h :: unit). (Inr (pack_le 4 20 @ pack_le 2 2 @ replicate 14 0), h)" 3 7 m0
        "\<lambda>m (h :: unit). (Inr [], h)" "()" "[]" "()"] ack m0
    by (auto simp: nl_error_def)
qed

end
