(* ===== verification/Xsk.thy ===== *)
theory Xsk
  imports Bpf
begin

text \<open>
  The AF_XDP probe (\<^verbatim>\<open>bin/dpaa1-xsk-bind-probe.py\<close>): arguments, the sequence of set-up
  steps, and the RX drain loop with FILL recycling; and the verdict of the capacity tool
  (\<^verbatim>\<open>bin/dpaa1-xdp-rxcap.py\<close>).  The rings are shared with the kernel: the producer and
  consumer words it writes are arguments, read where the code reads them.
\<close>

section \<open>Arguments\<close>

fun index_of :: "'a \<Rightarrow> 'a list \<Rightarrow> nat option" where
  "index_of x [] = None"
| "index_of x (y # ys) = (if x = y then Some 0 else map_option Suc (index_of x ys))"

lemma index_of_Some: "index_of x ys = Some i \<Longrightarrow> i < length ys \<and> ys ! i = x"
  by (induction ys arbitrary: i) (auto split: if_splits)

lemma index_of_None [simp]: "index_of x ys = None \<longleftrightarrow> x \<notin> set ys"
  by (induction ys) auto

text \<open>\<^verbatim>\<open>del args[i:i + 2]\<close>, for every \<^verbatim>\<open>--hold\<close>; the last value counts.\<close>

function take_hold :: "string list \<Rightarrow> int \<Rightarrow> (string list \<times> int) res" where
  "take_hold args hold =
     (case index_of ''--hold'' args of
        None \<Rightarrow> Inr (args, hold)
      | Some i \<Rightarrow>
          if length args \<le> i + 1 then Inl IndexError
          else (case py_int 10 (args ! (i + 1)) of
                  Inl e \<Rightarrow> Inl e
                | Inr v \<Rightarrow> take_hold (take i args @ drop (i + 2) args) v))"
  by pat_completeness auto
termination
  by (relation "measure (\<lambda>(args, _). length args)") (auto dest: index_of_Some)

declare take_hold.simps [simp del]

record probe_args =
  pa_ifname :: string
  pa_queue :: int
  pa_chunk :: int
  pa_hold :: int
  pa_xskmap :: bool

definition int_arg :: "string list \<Rightarrow> nat \<Rightarrow> int \<Rightarrow> int res" where
  "int_arg args i d = (if i < length args then py_int 10 (args ! i) else Inr d)"

definition probe_parse_args :: "string list \<Rightarrow> probe_args res" where
  "probe_parse_args args =
     bindE (take_hold args 0) (\<lambda>(args, hold).
       let xskmap = ''--xskmap'' \<in> set args; args = remove1 ''--xskmap'' args in
       if args = [] then Inl (SystemExit 2)
       else bindE (int_arg args 1 0) (\<lambda>q. bindE (int_arg args 2 4096) (\<lambda>c.
         Inr \<lparr> pa_ifname = hd args, pa_queue = q, pa_chunk = c, pa_hold = hold, pa_xskmap = xskmap \<rparr>)))"

section \<open>Setting up\<close>

datatype probe_step =
    MapCreate | ProgLoad | Attach | Socket | MmapUmem | UmemReg | SizeRing string | Bind | MapUpdate
  | MmapOffsets | MmapRx | MmapFill | SeedFill | Wakeup nat | Drain

text \<open>The steps up to and including the drain, in the order of \<open>main\<close>.\<close>

definition setup_steps :: "bool \<Rightarrow> probe_step list" where
  "setup_steps xskmap =
     (if xskmap then [MapCreate, ProgLoad, Attach] else []) @
     [Socket, MmapUmem, UmemReg, SizeRing ''FILL'', SizeRing ''COMP'', SizeRing ''RX'', SizeRing ''TX'', Bind] @
     (if xskmap then [MapUpdate] else [])"

definition hold_steps :: "probe_step list" where
  "hold_steps = [MmapOffsets, MmapRx, MmapFill, SeedFill, Wakeup 1, Wakeup 2, Wakeup 3, Drain]"

definition may_fail :: "probe_step \<Rightarrow> bool" where
  "may_fail s = (case s of SeedFill \<Rightarrow> False | Wakeup _ \<Rightarrow> False | Drain \<Rightarrow> False | _ \<Rightarrow> True)"

text \<open>A failing call prints its diagnosis and exits with 1; a failing wake-up is only a warning.\<close>

fun run_steps :: "(probe_step \<Rightarrow> bool) \<Rightarrow> probe_step list \<Rightarrow> probe_step list \<times> int" where
  "run_steps ok [] = ([], 0)"
| "run_steps ok (s # ss) =
     (if may_fail s \<and> \<not> ok s then ([s], 1) else let (t, rc) = run_steps ok ss in (s # t, rc))"

definition probe_main :: "(probe_step \<Rightarrow> bool) \<Rightarrow> probe_args \<Rightarrow> probe_step list \<times> int" where
  "probe_main ok a =
     run_steps ok (setup_steps (pa_xskmap a) @ (if pa_hold a = 0 then [] else hold_steps))"

text \<open>The printed diagnosis of a refused bind.\<close>

definition bind_diag :: "string \<Rightarrow> string option" where
  "bind_diag e =
     (if e = ''ENODEV'' then Some ''rxp==NULL or mac_dev==NULL''
      else if e = ''EINVAL'' then Some ''queue_id, frame_size, headroom or mtu''
      else if e = ''ENOMEM'' then Some ''xsk_pool_dma_map() or bman_new_pool() failed''
      else if e = ''EOPNOTSUPP'' then Some ''xsk_pool_attach op not wired'' else None)"

text \<open>\<^verbatim>\<open>struct.pack\<close> of the UMEM registration and of the socket address.\<close>

definition N_FRAMES :: int where "N_FRAMES = 8192"

definition umem_reg :: "int \<Rightarrow> int \<Rightarrow> byte list res" where
  "umem_reg addr chunk = catE [pack_u 8 addr, pack_u 8 (chunk * N_FRAMES), pack_u 4 chunk, pack_u 4 0, pack_u 4 0, pack_u 4 0]"

definition sockaddr_xdp :: "int \<Rightarrow> int \<Rightarrow> int \<Rightarrow> byte list res" where
  "sockaddr_xdp flags ifindex queue = catE [pack_u 2 44, pack_u 2 flags, pack_u 4 ifindex, pack_u 4 queue, pack_u 4 0]"

text \<open>The four rings' offsets and the sizes mapped.\<close>

definition ring_off :: "byte list \<Rightarrow> nat \<Rightarrow> int list" where
  "ring_off buf k = map (\<lambda>j. unpack_le (slice (k + 8 * j) (k + 8 * j + 8) buf)) [0..<4]"

definition rx_map_size :: "byte list \<Rightarrow> int" where "rx_map_size buf = ring_off buf 0 ! 2 + N_FRAMES * 16"
definition fill_map_size :: "byte list \<Rightarrow> int" where "fill_map_size buf = ring_off buf 64 ! 2 + N_FRAMES * 8"

definition seed_fill :: "int \<Rightarrow> (int \<times> int) list" where
  "seed_fill chunk = map (\<lambda>i. (int i, int i * chunk)) [0..<nat N_FRAMES]"

section \<open>Draining\<close>

text \<open>
  \<open>d_cons\<close> and \<open>d_fp\<close> are Python integers that start from 32-bit words and are masked only
  when they are written back; \<open>d_writes\<close> are the FILL slots written, newest last.
\<close>

record drain =
  d_cons :: int
  d_batch :: nat
  d_pkts :: int
  d_bytes :: int
  d_skip :: int
  d_fp :: int
  d_recycled :: nat
  d_writes :: "(int \<times> int) list"

definition MAX_BATCH :: nat where "MAX_BATCH = 64"
definition U32 :: int where "U32 = 0xFFFFFFFF"

definition in_flight :: "int \<Rightarrow> int \<Rightarrow> int" where "in_flight fp fc = (fp - fc) AND U32"

text \<open>One descriptor: \<open>fc\<close> is the FILL consumer word as it is read now.\<close>

definition drain_step :: "int \<Rightarrow> (int \<Rightarrow> int \<times> int) \<Rightarrow> int \<Rightarrow> drain \<Rightarrow> drain" where
  "drain_step chunk desc fc s =
     (let (addr, len) = desc (d_cons s AND (N_FRAMES - 1));
          s = s\<lparr>d_pkts := d_pkts s + 1, d_bytes := d_bytes s + len, d_cons := d_cons s + 1, d_batch := d_batch s + 1\<rparr>
      in if in_flight (d_fp s) fc \<ge> N_FRAMES then s\<lparr>d_skip := d_skip s + 1\<rparr>
         else s\<lparr>d_writes := d_writes s @ [(d_fp s AND (N_FRAMES - 1), addr AND NOT (chunk - 1))],
                d_fp := d_fp s + 1, d_recycled := d_recycled s + 1\<rparr>)"

function drain_loop :: "int \<Rightarrow> (int \<Rightarrow> int \<times> int) \<Rightarrow> (nat \<Rightarrow> int) \<Rightarrow> int \<Rightarrow> drain \<Rightarrow> drain" where
  "drain_loop chunk desc fcs prd s =
     (if d_cons s \<noteq> prd \<and> d_batch s < MAX_BATCH
      then drain_loop chunk desc fcs prd (drain_step chunk desc (fcs (d_batch s)) s) else s)"
  by pat_completeness auto
termination
  by (relation "measure (\<lambda>(_, _, _, _, s). MAX_BATCH - d_batch s)")
    (auto simp: drain_step_def Let_def split: prod.splits)

declare drain_loop.simps [simp del]

text \<open>
  One turn of the outer loop: the words of the rings are read, a batch is drained, and the consumer
  word and (when something was recycled) the FILL producer word are written back.
\<close>

record probe =
  p_cons_word :: int
  p_fill_word :: int
  p_fp :: int
  p_pkts :: int
  p_bytes :: int
  p_skip :: int
  p_fill :: "(int \<times> int) list"

record round_env =
  e_prod :: int
  e_desc :: "int \<Rightarrow> int \<times> int"
  e_fcs :: "nat \<Rightarrow> int"

definition start_drain :: "probe \<Rightarrow> drain" where
  "start_drain p = \<lparr> d_cons = p_cons_word p, d_batch = 0, d_pkts = p_pkts p, d_bytes = p_bytes p, d_skip = p_skip p,
     d_fp = p_fp p, d_recycled = 0, d_writes = [] \<rparr>"

definition probe_round :: "int \<Rightarrow> round_env \<Rightarrow> probe \<Rightarrow> probe" where
  "probe_round chunk e p =
     (let s = drain_loop chunk (e_desc e) (e_fcs e) (e_prod e) (start_drain p) in
      \<lparr> p_cons_word = d_cons s AND U32,
        p_fill_word = (if d_recycled s > 0 then d_fp s AND U32 else p_fill_word p),
        p_fp = d_fp s, p_pkts = d_pkts s, p_bytes = d_bytes s, p_skip = d_skip s, p_fill = p_fill p @ d_writes s \<rparr>)"

definition probe_start :: "int \<Rightarrow> probe" where
  "probe_start chunk = \<lparr> p_cons_word = 0, p_fill_word = N_FRAMES, p_fp = N_FRAMES, p_pkts = 0, p_bytes = 0, p_skip = 0,
     p_fill = seed_fill chunk \<rparr>"

definition probe_rounds :: "int \<Rightarrow> round_env list \<Rightarrow> probe \<Rightarrow> probe" where
  "probe_rounds chunk es p = foldl (\<lambda>p e. probe_round chunk e p) p es"

section \<open>What a batch does\<close>

lemma and_mask: "x AND (2 ^ n - 1) = (x :: int) mod 2 ^ n"
  by (simp only: mask_eq_exp_minus_1 [symmetric] take_bit_eq_mask [symmetric] take_bit_eq_mod)

lemma and_U32: "x AND U32 = x mod 2 ^ 32"
  using and_mask [of x 32] by (simp add: U32_def)

lemma and_frames: "x AND (N_FRAMES - 1) = x mod N_FRAMES"
  using and_mask [of x 13] by (simp add: N_FRAMES_def)

lemma chunk_base: "x AND NOT (2 ^ n - 1) = (x :: int) div 2 ^ n * 2 ^ n"
proof -
  have "x AND NOT (mask n) = push_bit n (drop_bit n x)"
    by (rule bit_eqI) (auto simp: bit_and_iff bit_not_iff bit_mask_iff bit_push_bit_iff bit_drop_bit_eq)
  then show ?thesis by (simp add: mask_eq_exp_minus_1 push_bit_eq_mult drop_bit_eq_div)
qed

text \<open>\<open>run_batch n\<close>: \<open>n\<close> descriptors in a row.\<close>

fun run_batch :: "int \<Rightarrow> (int \<Rightarrow> int \<times> int) \<Rightarrow> (nat \<Rightarrow> int) \<Rightarrow> nat \<Rightarrow> drain \<Rightarrow> drain" where
  "run_batch chunk desc fcs 0 s = s"
| "run_batch chunk desc fcs (Suc n) s =
     (let r = run_batch chunk desc fcs n s in drain_step chunk desc (fcs (d_batch r)) r)"

lemma drain_step_counts [simp]:
  "d_cons (drain_step chunk desc fc s) = d_cons s + 1"
  "d_batch (drain_step chunk desc fc s) = d_batch s + 1"
  "d_pkts (drain_step chunk desc fc s) = d_pkts s + 1"
  "d_bytes (drain_step chunk desc fc s) = d_bytes s + snd (desc (d_cons s mod N_FRAMES))"
  by (auto simp: drain_step_def Let_def and_frames split: prod.splits)

lemma drain_step_balance:
  "d_fp (drain_step chunk desc fc s) + d_skip (drain_step chunk desc fc s) = d_fp s + d_skip s + 1"
  "d_fp (drain_step chunk desc fc s) - int (d_recycled (drain_step chunk desc fc s)) = d_fp s - int (d_recycled s)"
  by (auto simp: drain_step_def Let_def split: prod.splits)

lemma run_batch_counts:
  "d_cons (run_batch chunk desc fcs n s) = d_cons s + int n"
  "d_batch (run_batch chunk desc fcs n s) = d_batch s + n"
  "d_pkts (run_batch chunk desc fcs n s) = d_pkts s + int n"
  "d_bytes (run_batch chunk desc fcs n s) = d_bytes s + (\<Sum>j<n. snd (desc ((d_cons s + int j) mod N_FRAMES)))"
  "d_fp (run_batch chunk desc fcs n s) + d_skip (run_batch chunk desc fcs n s) = d_fp s + d_skip s + int n"
  "d_fp (run_batch chunk desc fcs n s) - int (d_recycled (run_batch chunk desc fcs n s)) = d_fp s - int (d_recycled s)"
  by (induction n) (simp_all add: Let_def drain_step_balance)

lemma run_batch_Suc:
  "run_batch chunk desc fcs n (drain_step chunk desc (fcs (d_batch s)) s) = run_batch chunk desc fcs (Suc n) s"
  by (induction n) (simp_all add: Let_def)

lemma loop_run_batch:
  assumes "\<forall>j<n. d_cons s + int j \<noteq> prd \<and> d_batch s + j < MAX_BATCH" "d_cons s + int n = prd \<or> d_batch s + n = MAX_BATCH"
  shows "drain_loop chunk desc fcs prd s = run_batch chunk desc fcs n s"
  using assms
proof (induction n arbitrary: s)
  case 0
  then show ?case by (subst drain_loop.simps) auto
next
  case (Suc n)
  let ?t = "drain_step chunk desc (fcs (d_batch s)) s"
  have go: "d_cons s \<noteq> prd \<and> d_batch s < MAX_BATCH" using Suc.prems(1) [rule_format, of 0] by simp
  have "d_cons ?t + int j \<noteq> prd \<and> d_batch ?t + j < MAX_BATCH" if "j < n" for j
    using Suc.prems(1) [rule_format, of "Suc j"] that by (simp add: algebra_simps)
  moreover have "d_cons ?t + int n = prd \<or> d_batch ?t + n = MAX_BATCH" using Suc.prems(2) by (auto simp: algebra_simps)
  ultimately have "drain_loop chunk desc fcs prd ?t = run_batch chunk desc fcs n ?t" by (intro Suc.IH) blast+
  then show ?case using go run_batch_Suc by (subst drain_loop.simps) simp
qed

text \<open>How many descriptors one batch takes.\<close>

definition batch_size :: "int \<Rightarrow> int \<Rightarrow> nat" where
  "batch_size cons_word prd = (if cons_word \<le> prd then min MAX_BATCH (nat (prd - cons_word)) else MAX_BATCH)"

lemma loop_batch_size:
  "drain_loop chunk desc fcs prd (start_drain p) =
     run_batch chunk desc fcs (batch_size (p_cons_word p) prd) (start_drain p)"
  by (rule loop_run_batch) (auto simp: batch_size_def start_drain_def min_def split: if_splits)

text \<open>One turn of the drain loop consumes exactly \<open>min 64 (prod - cons)\<close> descriptors while the
  producer word has not wrapped past the consumer word: packets and bytes count each of them once, in
  ring order, and every chunk is either handed back or counted as skipped.\<close>
lemma drain_exact:
  assumes "0 \<le> p_cons_word p" "p_cons_word p \<le> e_prod e" "e_prod e < 2 ^ 32"
  shows "let n = min MAX_BATCH (nat (e_prod e - p_cons_word p)); q = probe_round chunk e p in
    p_cons_word q = p_cons_word p + int n \<and> p_pkts q = p_pkts p + int n \<and>
    p_bytes q = p_bytes p + (\<Sum>j<n. snd (e_desc e ((p_cons_word p + int j) mod N_FRAMES))) \<and>
    (p_fp q - p_fp p) + (p_skip q - p_skip p) = int n"
proof -
  define n where "n = min MAX_BATCH (nat (e_prod e - p_cons_word p))"
  have b: "batch_size (p_cons_word p) (e_prod e) = n" using assms by (simp add: batch_size_def n_def)
  have "p_cons_word p + int n < 2 ^ 32" using assms by (simp add: n_def)
  then have "(p_cons_word p + int n) mod 2 ^ 32 = p_cons_word p + int n" using assms by simp
  moreover define r where "r = run_batch chunk (e_desc e) (e_fcs e) n (start_drain p)"
  moreover have "d_fp r + d_skip r = p_fp p + p_skip p + int n"
    by (simp add: r_def run_batch_counts start_drain_def)
  moreover have "d_cons r = p_cons_word p + int n" "d_pkts r = p_pkts p + int n"
    "d_bytes r = p_bytes p + (\<Sum>j<n. snd (e_desc e ((p_cons_word p + int j) mod N_FRAMES)))"
    by (simp_all add: r_def run_batch_counts start_drain_def)
  ultimately show ?thesis
    unfolding Let_def n_def [symmetric] probe_round_def loop_batch_size b r_def [symmetric]
    by (simp add: and_U32)
qed

definition sample_env :: round_env where
  "sample_env = \<lparr> e_prod = 5, e_desc = (\<lambda>i. (4096 * i, 60)), e_fcs = (\<lambda>_. 3) \<rparr>"

lemma drain_exact_witness:
  "let q = probe_round 4096 sample_env (probe_start 4096) in
    p_cons_word q = 5 \<and> p_pkts q = 5 \<and> p_bytes q = 300 \<and> p_fp q - N_FRAMES + p_skip q = 5"
  using drain_exact [of "probe_start 4096" sample_env 4096]
  by (simp add: probe_start_def sample_env_def MAX_BATCH_def Let_def)

text \<open>When the producer word has wrapped past 2^32 and the consumer word has not, the loop does not
  stop at the producer: it always takes 64 descriptors, and when fewer were there it leaves the consumer
  word beyond the producer word, having counted and recycled stale descriptors.\<close>
lemma drain_wrap_overrun:
  assumes "0 \<le> e_prod e" "e_prod e < p_cons_word p" "p_cons_word p < 2 ^ 32"
  shows "let q = probe_round chunk e p; avail = (e_prod e - p_cons_word p) mod 2 ^ 32 in
    p_pkts q = p_pkts p + 64 \<and> p_cons_word q = (p_cons_word p + 64) mod 2 ^ 32 \<and>
    (avail < 64 \<longrightarrow> p_cons_word q = e_prod e + (64 - avail))"
proof -
  have b: "batch_size (p_cons_word p) (e_prod e) = 64" using assms by (simp add: batch_size_def MAX_BATCH_def)
  have "(e_prod e - p_cons_word p) mod 2 ^ 32 = (e_prod e - p_cons_word p + 2 ^ 32) mod 2 ^ 32"
    by (metis mod_add_self2)
  also have "\<dots> = e_prod e - p_cons_word p + 2 ^ 32" using assms by (intro mod_pos_pos_trivial) auto
  finally have av: "(e_prod e - p_cons_word p) mod 2 ^ 32 = e_prod e - p_cons_word p + 2 ^ 32" .
  have w: "(p_cons_word p + 64) mod 2 ^ 32 = p_cons_word p + 64 - 2 ^ 32" if "e_prod e - p_cons_word p + 2 ^ 32 < 64"
  proof -
    have "(p_cons_word p + 64) mod 2 ^ 32 = (p_cons_word p + 64 - 2 ^ 32) mod 2 ^ 32" by (metis minus_mod_self2)
    also have "\<dots> = p_cons_word p + 64 - 2 ^ 32" using assms that by (intro mod_pos_pos_trivial) auto
    finally show ?thesis .
  qed
  show ?thesis
    unfolding Let_def probe_round_def loop_batch_size b av
    using w by (auto simp: run_batch_counts and_U32 start_drain_def)
qed

lemma drain_wrap_overrun_witness:
  "let p = (probe_start 4096)\<lparr>p_cons_word := 4294967294\<rparr>; q = probe_round 4096 (sample_env\<lparr>e_prod := 3\<rparr>) p in
    p_pkts q = 64 \<and> p_cons_word q = 62"
  using drain_wrap_overrun [of "sample_env\<lparr>e_prod := 3\<rparr>" "(probe_start 4096)\<lparr>p_cons_word := 4294967294\<rparr>" 4096]
  by (simp add: probe_start_def sample_env_def Let_def)

section \<open>The FILL ring is never overrun\<close>

text \<open>
  \<open>c j\<close> is the kernel's true (unwrapped) FILL consumer count at iteration \<open>j\<close>; the probe reads
  its low 32 bits.  Entry number \<open>m\<close> sits in slot \<open>m mod N_FRAMES\<close>, where entry
  \<open>m - N_FRAMES\<close> was before.
\<close>

lemma in_flight_exact:
  assumes "0 \<le> fp - c" "fp - c \<le> N_FRAMES"
  shows "in_flight fp (c mod 2 ^ 32) = fp - c"
proof -
  have "in_flight fp (c mod 2 ^ 32) = (fp - c) mod 2 ^ 32" unfolding in_flight_def and_U32 by (simp add: mod_diff_right_eq)
  also have "\<dots> = fp - c" using assms by (intro mod_pos_pos_trivial) (auto simp: N_FRAMES_def)
  finally show ?thesis .
qed

lemma fill_invariant:
  fixes c :: "nat \<Rightarrow> int"
  assumes mono: "mono c" and hi: "\<And>j. c j \<le> fp" and lo: "fp - N_FRAMES \<le> c 0"
    and s: "d_fp s = fp" "d_batch s = 0" "d_writes s = []"
  shows "let r = run_batch chunk desc (\<lambda>j. c j mod 2 ^ 32) n s in
    fp \<le> d_fp r \<and> d_fp r - N_FRAMES \<le> c (n - 1) \<and> length (d_writes r) = nat (d_fp r - fp) \<and>
    (\<forall>k < length (d_writes r). fst (d_writes r ! k) = (fp + int k) mod N_FRAMES \<and> (\<exists>j<n. fp + int k - N_FRAMES < c j))"
proof (induction n)
  case 0
  then show ?case using lo s by simp
next
  case (Suc n)
  define r where "r = run_batch chunk desc (\<lambda>j. c j mod 2 ^ 32) n s"
  have IH: "fp \<le> d_fp r" "d_fp r - N_FRAMES \<le> c (n - 1)" "length (d_writes r) = nat (d_fp r - fp)"
    "\<And>k. k < length (d_writes r) \<Longrightarrow> fst (d_writes r ! k) = (fp + int k) mod N_FRAMES \<and> (\<exists>j<n. fp + int k - N_FRAMES < c j)"
    using Suc unfolding Let_def r_def by auto
  have b: "d_batch r = n" using s by (simp add: r_def run_batch_counts)
  have "c (n - 1) \<le> c n" using mono by (simp add: monoD)
  then have fl: "in_flight (d_fp r) (c n mod 2 ^ 32) = d_fp r - c n"
    using IH(1,2) hi [of n] by (intro in_flight_exact) auto
  have step: "run_batch chunk desc (\<lambda>j. c j mod 2 ^ 32) (Suc n) s = drain_step chunk desc (c n mod 2 ^ 32) r"
    using b by (simp add: Let_def r_def)
  show ?case
  proof (cases "d_fp r - c n \<ge> N_FRAMES")
    case True
    then show ?thesis unfolding Let_def step
      using IH \<open>c (n - 1) \<le> c n\<close> fl by (auto simp: drain_step_def Let_def less_Suc_eq split: prod.splits)
  next
    case False
    have "\<exists>j<Suc n. d_fp r - N_FRAMES < c j" using False by (intro exI [of _ n]) auto
    then show ?thesis unfolding Let_def step
      using IH False fl
      by (auto simp: drain_step_def Let_def nth_append and_frames less_Suc_eq split: prod.splits)
  qed
qed

lemma writes_aligned:
  "\<forall>x \<in> set (d_writes s). snd x mod 2 ^ m = 0 \<Longrightarrow>
   \<forall>x \<in> set (d_writes (run_batch (2 ^ m) desc fcs n s)). snd x mod 2 ^ m = 0"
  by (induction n) (auto simp: Let_def drain_step_def chunk_base split: prod.splits)

text \<open>C10. Recycling never overruns the FILL ring: if at most \<open>N_FRAMES\<close> entries are outstanding when a
  batch starts and the kernel only moves forward within what was published, then every new entry goes to
  the slot of an entry the kernel has already consumed, in order and chunk aligned; the published
  producer word keeps tracking the count, and at most \<open>N_FRAMES\<close> entries are outstanding at the end.\<close>
theorem fill_never_overrun:
  assumes "mono c" "\<forall>j. c j \<le> p_fp p" "p_fp p - N_FRAMES \<le> c 0" "e_fcs e = (\<lambda>j. c j mod 2 ^ 32)"
    "p_fill_word p = p_fp p mod 2 ^ 32"
  shows "let q = probe_round (2 ^ m) e p; w = drop (length (p_fill p)) (p_fill q) in
    p_fill q = p_fill p @ w \<and> p_fp q = p_fp p + int (length w) \<and> p_fill_word q = p_fp q mod 2 ^ 32 \<and>
    (\<forall>k<length w. fst (w ! k) = (p_fp p + int k) mod N_FRAMES \<and> snd (w ! k) mod 2 ^ m = 0 \<and>
       (\<exists>j<MAX_BATCH. p_fp p + int k - N_FRAMES < c j)) \<and>
    p_fp q - N_FRAMES \<le> c (MAX_BATCH - 1)"
proof -
  define n where "n = batch_size (p_cons_word p) (e_prod e)"
  define r where "r = run_batch (2 ^ m) (e_desc e) (e_fcs e) n (start_drain p)"
  have n: "n \<le> MAX_BATCH" by (simp add: n_def batch_size_def)
  have st: "d_fp (start_drain p) = p_fp p" "d_batch (start_drain p) = 0" "d_writes (start_drain p) = []"
    "d_recycled (start_drain p) = 0" by (simp_all add: start_drain_def)
  have "\<And>j. c j \<le> p_fp p" using assms(2) by blast
  from fill_invariant [OF assms(1) this assms(3) st(1-3), of "2 ^ m" "e_desc e" n]
  have inv: "p_fp p \<le> d_fp r" "d_fp r - N_FRAMES \<le> c (n - 1)" "length (d_writes r) = nat (d_fp r - p_fp p)"
    "\<And>k. k < length (d_writes r) \<Longrightarrow>
       fst (d_writes r ! k) = (p_fp p + int k) mod N_FRAMES \<and> (\<exists>j<n. p_fp p + int k - N_FRAMES < c j)"
    unfolding Let_def r_def assms(4) by blast+
  have al: "snd (d_writes r ! k) mod 2 ^ m = 0" if "k < length (d_writes r)" for k
    using writes_aligned [of "start_drain p" m "e_desc e" "e_fcs e" n] st that by (auto simp: r_def)
  have rec: "d_fp r - int (d_recycled r) = p_fp p" using st by (simp add: r_def run_batch_counts)
  have "c (n - 1) \<le> c (MAX_BATCH - 1)" using assms(1) n by (simp add: monoD)
  moreover have "\<exists>j<MAX_BATCH. x < c j" if "\<exists>j<n. x < c j" for x using that n by (meson order.strict_trans2)
  ultimately show ?thesis
    unfolding Let_def probe_round_def loop_batch_size n_def [symmetric] r_def [symmetric]
    using inv al rec assms(5) by (auto simp: and_U32)
qed

theorem fill_never_overrun_witness:
  "let q = probe_round (2 ^ 12) (sample_env\<lparr>e_fcs := (\<lambda>j. (\<lambda>_. 3) j mod 2 ^ 32)\<rparr>) (probe_start 4096) in
    p_fill_word q = p_fp q mod 2 ^ 32 \<and> p_fp q - N_FRAMES \<le> 3"
  using fill_never_overrun [of "\<lambda>_. 3" "probe_start 4096" "sample_env\<lparr>e_fcs := (\<lambda>j. (\<lambda>_. 3) j mod 2 ^ 32)\<rparr>" 12]
  by (simp add: probe_start_def N_FRAMES_def mono_def Let_def)

section \<open>The capacity tool's counters and verdict\<close>

definition rx_keys :: "string list" where
  "rx_keys = [''rx_packets'', ''rx_bytes'', ''rx error [TOTAL]'', ''rx dropped [TOTAL]'', ''rx dma error'',
     ''rx frame physical error'', ''rx fifo error'', ''qman cg_tdrop'', ''qman fq tdrop'', ''qman fq retired'']"

text \<open>A dict with the last value of a key: later entries win.\<close>

definition ethtool_line :: "string \<Rightarrow> (string \<Rightarrow> int option) \<Rightarrow> (string \<Rightarrow> int option)" where
  "ethtool_line ln out =
     (case split1 CHR '':'' ln of
        [k, v] \<Rightarrow> (if strip k \<in> set rx_keys then (case py_int 10 (strip v) of Inr n \<Rightarrow> out(strip k \<mapsto> n) | Inl _ \<Rightarrow> out) else out)
      | _ \<Rightarrow> out)"

definition sysfs_stat :: "(string \<Rightarrow> string option) \<Rightarrow> string \<times> string \<Rightarrow> (string \<Rightarrow> int option) \<Rightarrow> (string \<Rightarrow> int option)" where
  "sysfs_stat sysfs = (\<lambda>(k, mapk) out.
     case sysfs k of None \<Rightarrow> out | Some t \<Rightarrow> (case py_int 10 (strip t) of Inr n \<Rightarrow> out(mapk \<mapsto> n) | Inl _ \<Rightarrow> out))"

definition read_ethtool_stats :: "string list \<Rightarrow> (string \<Rightarrow> string option) \<Rightarrow> (string \<Rightarrow> int option)" where
  "read_ethtool_stats lns sysfs =
     fold (sysfs_stat sysfs)
       [(''rx_packets'', ''sys_rx_packets''), (''rx_bytes'', ''sys_rx_bytes''), (''rx_dropped'', ''sys_rx_dropped'')]
       (fold ethtool_line lns (\<lambda>_. None))"

definition get0 :: "(string \<Rightarrow> int option) \<Rightarrow> string \<Rightarrow> int" where
  "get0 m k = (case m k of Some v \<Rightarrow> v | None \<Rightarrow> 0)"

definition fault_keys :: "string list" where
  "fault_keys = [''rx dma error'', ''rx frame physical error'', ''rx fifo error'', ''qman cg_tdrop'', ''qman fq tdrop'']"

definition bad_frames :: "(string \<Rightarrow> int option) \<Rightarrow> (string \<Rightarrow> int option) \<Rightarrow> int" where
  "bad_frames base final =
     sum_list (map (\<lambda>k. get0 final k - get0 base k)
       (filter (\<lambda>k. (base k \<noteq> None \<or> final k \<noteq> None) \<and> get0 final k - get0 base k > 0) fault_keys))"

definition rx_packets_delta :: "(string \<Rightarrow> int option) \<Rightarrow> (string \<Rightarrow> int option) \<Rightarrow> int" where
  "rx_packets_delta base final = get0 final ''sys_rx_packets'' - get0 base ''sys_rx_packets''"

text \<open>The exit status and the warning printed before it.\<close>

definition rxcap_verdict :: "(string \<Rightarrow> int option) \<Rightarrow> (string \<Rightarrow> int option) \<Rightarrow> int \<times> bool" where
  "rxcap_verdict base final =
     (if rx_packets_delta base final \<le> 0 then (1, False) else (0, bad_frames base final > 0))"

text \<open>The \<open>finally\<close> clause: detached unless \<open>--keep\<close>.\<close>

definition rxcap_hold ::
  "(byte list \<Rightarrow> ('h, byte list) io) \<Rightarrow> ('h, (string \<Rightarrow> int option)) io \<Rightarrow> ('h, unit) io \<Rightarrow> bool \<Rightarrow> int \<Rightarrow> ('h, int) io" where
  "rxcap_hold ask sample wait keep ifindex h =
     (let (r, h') = bindIO sample (\<lambda>base. bindIO wait (\<lambda>_. bindIO sample (\<lambda>final.
            retIO (fst (rxcap_verdict base final))))) h
      in if keep then (r, h')
         else (case detach_xdp_prog ask ifindex h' of (Inl e, h'') \<Rightarrow> (Inl e, h'') | (Inr _, h'') \<Rightarrow> (r, h'')))"

definition rxcap_main ::
  "(byte list \<Rightarrow> ('h, byte list) io) \<Rightarrow> (byte list \<Rightarrow> ('h, int) io) \<Rightarrow> ('h, (string \<Rightarrow> int option)) io \<Rightarrow> ('h, unit) io \<Rightarrow>
   bool \<Rightarrow> bool \<Rightarrow> bool \<Rightarrow> int option \<Rightarrow> ('h, int) io" where
  "rxcap_main ask load sample wait root drop_udp keep iface =
     (if \<not> root then retIO 2 else case iface of None \<Rightarrow> retIO 2 | Some ifindex \<Rightarrow>
        bindIO (liftIO (if drop_udp then build_xdp_drop_udp_prog else build_xdp_drop_prog)) (\<lambda>prog.
        bindIO (load prog) (\<lambda>fd.
        bindIO (rxcap_attach ask ifindex fd) (\<lambda>_. rxcap_hold ask sample wait keep ifindex))))"

text \<open>The capacity tool's exit status is 0 exactly when the packet counter advanced: frames lost to
  QMan tail drops or DMA errors only change what is printed.\<close>
lemma rxcap_status:
  "fst (rxcap_verdict base final) = (if rx_packets_delta base final > 0 then 0 else 1) \<and>
   (\<exists>b f. bad_frames b f > 0 \<and> rxcap_verdict b f = (0, True))"
proof
  define b :: "string \<Rightarrow> int option" where "b = (\<lambda>_. Some 0)"
  define f :: "string \<Rightarrow> int option" where "f = (\<lambda>_. Some 1)"
  have "bad_frames b f > 0" by (simp add: bad_frames_def fault_keys_def get0_def b_def f_def)
  moreover have "rx_packets_delta b f > 0" by (simp add: rx_packets_delta_def get0_def b_def f_def)
  ultimately have "bad_frames b f > 0 \<and> rxcap_verdict b f = (0, True)" by (simp add: rxcap_verdict_def)
  then show "\<exists>b f. bad_frames b f > 0 \<and> rxcap_verdict b f = (0, True)" by blast
qed (simp add: rxcap_verdict_def)

end
