(* ===== verification/Led.thy ===== *)
theory Led
  imports Hw PyText
begin

text \<open>
  The status LED command (\<^verbatim>\<open>board/scripts/led.py\<close>): sysfs access, the fade engine, the
  colour tokens, the palette walks and the dispatcher.  The sysfs directory is the state: which
  channel directories exist, what their attributes read as and which of them can be written.
  The fade divides 50 ms into 5 frames; since 5 is odd an interpolated value is never halfway
  between two integers, so rounding the exact fraction is what the floating-point code computes.
\<close>

section \<open>sysfs\<close>

datatype channel = Red | Green | Blue | White

datatype attr = Trigger | Brightness

record sysfs =
  sy_dir :: "channel \<Rightarrow> bool"
  sy_file :: "channel \<times> attr \<Rightarrow> string option"
  sy_writable :: "channel \<times> attr \<Rightarrow> bool"

type_synonym 'a led = "(sysfs, 'a) io"

definition channels :: "channel list" where "channels = [Red, Green, Blue, White]"

definition die :: "int \<Rightarrow> 'a led" where "die code = raiseIO (SystemExit code)"

definition getIO :: "(sysfs \<Rightarrow> 'a) \<Rightarrow> 'a led" where "getIO f h = (Inr (f h), h)"

definition write_text :: "channel \<times> attr \<Rightarrow> string \<Rightarrow> unit led" where
  "write_text p t h = (if sy_writable h p then (Inr (), h\<lparr>sy_file := (sy_file h)(p \<mapsto> t)\<rparr>) else (Inl (OSError ''write''), h))"

definition or_die :: "'a led \<Rightarrow> int \<Rightarrow> 'a led" where
  "or_die m code h = (case m h of (Inl (OSError e), h') \<Rightarrow> (Inl (SystemExit code), h') | r \<Rightarrow> r)"

definition verify_driver :: "unit led" where
  "verify_driver = eachIO (\<lambda>c. bindIO (getIO (\<lambda>h. sy_dir h c)) (\<lambda>ok. if ok then retIO () else die 1)) channels"

definition ensure_trigger_none :: "channel \<Rightarrow> unit led" where
  "ensure_trigger_none c =
     bindIO (getIO (\<lambda>h. sy_file h (c, Trigger))) (\<lambda>cur. case cur of
       None \<Rightarrow> retIO ()
     | Some t \<Rightarrow> if contains ''[none]'' t then retIO () else or_die (write_text (c, Trigger) ''none'') 3)"

definition claim_triggers :: "unit led" where "claim_triggers = eachIO ensure_trigger_none channels"

definition write_brightness :: "channel \<Rightarrow> int \<Rightarrow> unit led" where
  "write_brightness c v = or_die (write_text (c, Brightness) (int_str v)) 3"

definition read_brightness :: "channel \<Rightarrow> int led" where
  "read_brightness c =
     bindIO (getIO (\<lambda>h. sy_file h (c, Brightness))) (\<lambda>t. case t of None \<Rightarrow> retIO 0 | Some s \<Rightarrow> liftIO (py_int 10 (strip s)))"

type_synonym rgbw = "int \<times> int \<times> int \<times> int"

definition write_rgbw_now :: "rgbw \<Rightarrow> unit led" where
  "write_rgbw_now = (\<lambda>(r, g, b, w).
     bindIO (write_brightness Red r) (\<lambda>_. bindIO (write_brightness Green g) (\<lambda>_.
     bindIO (write_brightness Blue b) (\<lambda>_. write_brightness White w))))"

definition read_rgbw :: "rgbw led" where
  "read_rgbw =
     bindIO (read_brightness Red) (\<lambda>r. bindIO (read_brightness Green) (\<lambda>g.
     bindIO (read_brightness Blue) (\<lambda>b. bindIO (read_brightness White) (\<lambda>w. retIO (r, g, b, w)))))"

section \<open>The fade\<close>

definition FADE_MS :: int where "FADE_MS = 50"
definition FADE_FPS :: int where "FADE_FPS = 100"
definition MIN_FRAME_MS :: int where "MIN_FRAME_MS = 5"

definition frame_ms :: int where "frame_ms = max MIN_FRAME_MS (1000 div FADE_FPS)"
definition frames :: int where "frames = max 1 (FADE_MS div frame_ms)"

text \<open>\<^verbatim>\<open>round(x0 + (x1 - x0) * (i / frames))\<close>.\<close>

definition lerp :: "int \<Rightarrow> int \<Rightarrow> int \<Rightarrow> int" where
  "lerp x0 x1 i = (2 * (x0 * frames + (x1 - x0) * i) + frames) div (2 * frames)"

definition frame :: "rgbw \<Rightarrow> rgbw \<Rightarrow> int \<Rightarrow> rgbw" where
  "frame = (\<lambda>(r0, g0, b0, w0) (r1, g1, b1, w1) i. (lerp r0 r1 i, lerp g0 g1 i, lerp b0 b1 i, lerp w0 w1 i))"

definition fade_to :: "rgbw \<Rightarrow> unit led" where
  "fade_to t =
     bindIO read_rgbw (\<lambda>c. if c = t then retIO () else eachIO (\<lambda>i. write_rgbw_now (frame c t i)) [1..frames])"

definition in_range :: "rgbw \<Rightarrow> bool" where
  "in_range = (\<lambda>(r, g, b, w). \<forall>v \<in> set [r, g, b, w]. 0 \<le> v \<and> v \<le> 255)"

definition set_rgbw :: "rgbw \<Rightarrow> unit led" where
  "set_rgbw t = (if \<not> in_range t then die 2 else bindIO verify_driver (\<lambda>_. bindIO claim_triggers (\<lambda>_. fade_to t)))"

section \<open>Colour tokens\<close>

definition hex8 :: "string \<Rightarrow> bool" where "hex8 s = (length s = 8 \<and> (\<forall>c \<in> set s. is_hex c))"
definition hex6 :: "string \<Rightarrow> bool" where "hex6 s = (length s = 6 \<and> (\<forall>c \<in> set s. is_hex c))"
definition int_only :: "string \<Rightarrow> bool" where "int_only s = (s \<noteq> [] \<and> (\<forall>c \<in> set s. is_digit c))"

definition strip_hash :: "string \<Rightarrow> string" where
  "strip_hash s = (if startswith s ''#'' then tl s else s)"

definition parse_hex8 :: "string \<Rightarrow> rgbw res" where
  "parse_hex8 s =
     bindE (py_int 16 (slice 0 2 s)) (\<lambda>r. bindE (py_int 16 (slice 2 4 s)) (\<lambda>g.
     bindE (py_int 16 (slice 4 6 s)) (\<lambda>b. bindE (py_int 16 (slice 6 8 s)) (\<lambda>w. Inr (r, g, b, w)))))"

definition parse_hex6 :: "string \<Rightarrow> rgbw res" where
  "parse_hex6 s =
     bindE (py_int 16 (slice 0 2 s)) (\<lambda>r. bindE (py_int 16 (slice 2 4 s)) (\<lambda>g.
     bindE (py_int 16 (slice 4 6 s)) (\<lambda>b. Inr (r, g, b, 0))))"

definition PALETTE :: "string list" where
  "PALETTE =
     [''00020000'', ''00080000'', ''00100000'', ''00200000'', ''08200000'', ''10200000'', ''20180000'', ''30100000'',
      ''40080000'', ''50000000'', ''60080000'', ''80100000'', ''a0080000'', ''a0100000'', ''a0100200'', ''a0100800'',
      ''80101000'', ''60101000'', ''60101804'', ''40081808'', ''20081010'', ''08000820'', ''00000040'', ''00002040'',
      ''00004040'', ''00006020'', ''00007010'', ''00009008'', ''0000a000'', ''0000c000'', ''0000e000'', ''0000ff00'']"

definition apply_palette_index :: "int \<Rightarrow> unit led" where
  "apply_palette_index idx =
     (if \<not> (0 \<le> idx \<and> idx < int (length PALETTE)) then die 2
      else bindIO (liftIO (parse_hex8 (PALETTE ! nat idx))) set_rgbw)"

text \<open>\<^verbatim>\<open>cmd_get\<close>: the four values and their hexadecimal form.\<close>

definition hex_upper :: "int \<Rightarrow> string" where
  "hex_upper v = map (\<lambda>c. if CHR ''a'' \<le> c \<and> c \<le> CHR ''f'' then char_of (of_char c - 32 :: nat) else c) (hex_fmt 2 (nat v))"

definition rgbw_hex :: "rgbw \<Rightarrow> string" where
  "rgbw_hex = (\<lambda>(r, g, b, w). ''#'' @ hex_upper r @ hex_upper g @ hex_upper b @ hex_upper w)"

definition cmd_get :: "(rgbw \<times> string) led" where
  "cmd_get = bindIO verify_driver (\<lambda>_. bindIO read_rgbw (\<lambda>c. retIO (c, rgbw_hex c)))"

section \<open>The demos\<close>

text \<open>The triangle walk: index and direction after the step.\<close>

definition steps_next :: "int \<times> int \<Rightarrow> int \<times> int" where
  "steps_next = (\<lambda>(idx, dir).
     let d = (if idx = int (length PALETTE) - 1 then -1 else if idx = 0 then 1 else dir) in (idx + d, d))"

definition show_index :: "int \<Rightarrow> unit led" where
  "show_index idx = bindIO (liftIO (bindE (py_nth PALETTE idx) parse_hex8)) fade_to"

definition cleanup :: "'a led" where
  "cleanup h = (case write_rgbw_now (0, 0, 0, 0) h of (_, h') \<Rightarrow> (Inl (SystemExit 0), h'))"

text \<open>\<open>k\<close> turns of the endless loop, then the interrupt.\<close>

fun cmd_steps :: "nat \<Rightarrow> int \<times> int \<Rightarrow> unit led" where
  "cmd_steps 0 s = cleanup"
| "cmd_steps (Suc k) s = bindIO (show_index (fst s)) (\<lambda>_. cmd_steps k (steps_next s))"

definition steps_start :: "nat \<Rightarrow> unit led" where
  "steps_start k = bindIO verify_driver (\<lambda>_. bindIO claim_triggers (\<lambda>_. cmd_steps k (0, 1)))"

text \<open>The random draws are an argument; a repeated index is not faded again.\<close>

fun simulate_loop :: "nat list \<Rightarrow> int \<Rightarrow> unit led" where
  "simulate_loop [] lst = cleanup"
| "simulate_loop (i # is) lst =
     (if int i \<noteq> lst then bindIO (show_index (int i)) (\<lambda>_. simulate_loop is (int i)) else simulate_loop is lst)"

definition cmd_simulate :: "nat list \<Rightarrow> unit led" where
  "cmd_simulate draws = bindIO verify_driver (\<lambda>_. bindIO claim_triggers (\<lambda>_. simulate_loop draws (-1)))"

section \<open>The dispatcher\<close>

datatype command =
    Help | Get | Simulate "string list" | Steps "string list" | Palette int | SetColour rgbw | Die int

definition token_command :: "string \<Rightarrow> command res" where
  "token_command arg =
     (let tok = strip arg; bare = strip_hash tok in
      if lower tok = ''off'' then Inr (SetColour (0, 0, 0, 0))
      else if hex8 bare then bindE (parse_hex8 bare) (\<lambda>c. Inr (SetColour c))
      else if hex6 bare \<and> (startswith tok ''#'' \<or> \<not> int_only tok) then bindE (parse_hex6 bare) (\<lambda>c. Inr (SetColour c))
      else if int_only tok then bindE (py_int 10 tok) (\<lambda>i. Inr (Palette i))
      else Inr (Die 2))"

definition decimals :: "string list \<Rightarrow> int list option" where
  "decimals args = (case seqE (map (py_int 10) args) of Inr vs \<Rightarrow> Some vs | Inl _ \<Rightarrow> None)"

definition led_command :: "string list \<Rightarrow> command res" where
  "led_command argv =
     (case argv of
        [] \<Rightarrow> Inr Get
      | a # rest \<Rightarrow>
          if a \<in> {''-h'', ''--help'', ''help''} then Inr Help
          else if lower a = ''simulate'' then Inr (Simulate rest)
          else if lower a = ''steps'' then Inr (Steps rest)
          else if rest = [] then token_command a
          else if length argv = 3 then
            Inr (case decimals argv of Some [r, g, b] \<Rightarrow> SetColour (r, g, b, 0) | _ \<Rightarrow> Die 2)
          else if length argv = 4 then
            Inr (case decimals argv of Some [r, g, b, w] \<Rightarrow> SetColour (r, g, b, w) | _ \<Rightarrow> Die 2)
          else Inr (Die 2))"

definition led_main :: "(string list \<Rightarrow> unit led) \<Rightarrow> (string list \<Rightarrow> unit led) \<Rightarrow> string list \<Rightarrow> unit led" where
  "led_main simulate steps argv =
     bindIO (liftIO (led_command argv)) (\<lambda>c. case c of
       Help \<Rightarrow> retIO () | Get \<Rightarrow> bindIO cmd_get (\<lambda>_. retIO ()) | Simulate a \<Rightarrow> simulate a | Steps a \<Rightarrow> steps a
     | Palette i \<Rightarrow> apply_palette_index i | SetColour t \<Rightarrow> set_rgbw t | Die code \<Rightarrow> die code)"

section \<open>Tokens always parse\<close>

lemma prefix_base_hex: "\<forall>c \<in> set s. is_hex c \<Longrightarrow> prefix_base s \<noteq> Some 16"
proof (cases s rule: remdups_adj.cases)
  case (3 c d r)
  assume "\<forall>c \<in> set s. is_hex c"
  with 3 have "d \<notin> {CHR ''x'', CHR ''X''}" using is_hex_distinct [of d] by simp
  then show ?thesis by (simp only: 3 prefix_base_def list.case if_False) (simp split: if_split)
qed (simp_all add: prefix_base_def)

lemma py_int_hex2:
  assumes "is_hex a" "is_hex b"
  shows "py_int 16 [a, b] = Inr (int (16 * hexv a + hexv b))"
proof -
  have st: "strip [a, b] = [a, b]" using assms is_hex_distinct by (intro strip_id) auto
  have pre: "prefix_base [a, b] \<noteq> Some 16" using assms by (intro prefix_base_hex) auto
  have "unsigned_int 16 [a, b] = Some (16 * hexv a + hexv b)"
    using pre assms is_hex_distinct digit_val_hex by (simp add: unsigned_int_def)
  moreover have "\<not> startswith [a, b] ''-''" "\<not> startswith [a, b] ''+''"
    using is_hex_distinct [OF assms(1)] by (auto simp: startswith_def)
  ultimately show ?thesis unfolding py_int_def Let_def st by simp
qed

lemma list_of_length: "length s = Suc n \<longleftrightarrow> (\<exists>c r. s = c # r \<and> length r = n)"
  by (rule length_Suc_conv)

lemma parse_hex8_ok:
  assumes "hex8 s"
  obtains a b c d e f g h where "s = [a, b, c, d, e, f, g, h]"
    "parse_hex8 s = Inr (int (16 * hexv a + hexv b), int (16 * hexv c + hexv d), int (16 * hexv e + hexv f), int (16 * hexv g + hexv h))"
proof -
  from assms obtain a b c d e f g h where s: "s = [a, b, c, d, e, f, g, h]"
    by (auto simp: hex8_def numeral_eq_Suc length_Suc_conv)
  then have "\<forall>x \<in> set s. is_hex x" using assms by (simp add: hex8_def)
  then have "parse_hex8 s = Inr (int (16 * hexv a + hexv b), int (16 * hexv c + hexv d), int (16 * hexv e + hexv f), int (16 * hexv g + hexv h))"
    by (simp add: s parse_hex8_def slice_def py_int_hex2 del: of_nat_add of_nat_mult)
  with s that show ?thesis by blast
qed

lemma parse_hex6_ok:
  assumes "hex6 s"
  shows "\<exists>t. parse_hex6 s = Inr t"
proof -
  from assms obtain a b c d e f where s: "s = [a, b, c, d, e, f]"
    by (auto simp: hex6_def numeral_eq_Suc length_Suc_conv)
  then have "\<forall>x \<in> set s. is_hex x" using assms by (simp add: hex6_def)
  then show ?thesis by (simp add: s parse_hex6_def slice_def py_int_hex2)
qed

lemma digits_int_only: "\<forall>c \<in> set s. is_digit c \<Longrightarrow> ok \<or> s \<noteq> [] \<Longrightarrow> \<exists>n. digits 10 ok acc s = Some n"
proof (induction s arbitrary: ok acc)
  case (Cons c s)
  have "c \<noteq> CHR ''_''" "\<exists>d. digit_val c = Some d \<and> d < 10"
    using Cons.prems(1) is_digit_distinct by (auto simp: is_digit_def digit_val_def Let_def)
  then show ?case using Cons.IH Cons.prems(1) by auto
qed simp

lemma int_only_parses: "int_only s \<Longrightarrow> \<exists>i. py_int 10 s = Inr i"
proof -
  assume a: "int_only s"
  then have st: "strip s = s" using is_digit_distinct by (intro strip_id) (auto simp: int_only_def)
  obtain c r where s: "s = c # r" "is_digit c" using a by (cases s) (auto simp: int_only_def)
  from a obtain n where "digits 10 False 0 s = Some n" using digits_int_only [of s False 0] by (auto simp: int_only_def)
  then have "unsigned_int 10 s = Some n" using a by (simp add: unsigned_int_def int_only_def prefix_base_digits)
  then show ?thesis unfolding py_int_def Let_def st using s is_digit_distinct [of c] by (auto simp: startswith_def)
qed

lemma token_command_total: "\<exists>c. token_command arg = Inr c"
  unfolding token_command_def Let_def
  by (auto dest: parse_hex6_ok int_only_parses elim: parse_hex8_ok)

lemma led_command_total: "\<exists>c. led_command argv = Inr c"
  unfolding led_command_def using token_command_total by (auto split: list.split)

text \<open>Every command line is understood or refused with status 2 and nothing else: no input makes the
  dispatcher raise, and an out-of-range colour, a bad palette index or an unknown token leaves the
  device untouched.\<close>
lemma led_rejects_cleanly:
  "\<exists>c. led_command argv = Inr c \<and>
    ((c = Die 2 \<or> (\<exists>t. c = SetColour t \<and> \<not> in_range t) \<or> (\<exists>i. c = Palette i \<and> \<not> (0 \<le> i \<and> i < 32))) \<longrightarrow>
      led_main sim st argv h = (Inl (SystemExit 2), h))"
proof -
  obtain c where c: "led_command argv = Inr c" using led_command_total by blast
  have len: "length PALETTE = 32" by (simp add: PALETTE_def)
  have "led_main sim st argv h = (Inl (SystemExit 2), h)"
    if "c = Die 2 \<or> (\<exists>t. c = SetColour t \<and> \<not> in_range t) \<or> (\<exists>i. c = Palette i \<and> \<not> (0 \<le> i \<and> i < 32))"
    using that c
    by (auto simp: led_main_def bindIO_def liftIO_def die_def raiseIO_def set_rgbw_def apply_palette_index_def len)
  with c show ?thesis by blast
qed

lemma led_rejects_cleanly_witness:
  "led_command [''300'', ''0'', ''0''] = Inr (SetColour (300, 0, 0, 0)) \<and>
   (\<forall>h. led_main (\<lambda>_. retIO ()) (\<lambda>_. retIO ()) [''300'', ''0'', ''0''] h = (Inl (SystemExit 2), h))"
proof -
  have e: "led_command [''300'', ''0'', ''0''] = Inr (SetColour (300, 0, 0, 0))"
    by (simp add: led_command_def lower_def lower_char_def decimals_def text_eval)
  show ?thesis using led_rejects_cleanly [of "[''300'', ''0'', ''0'']" "\<lambda>_. retIO ()" "\<lambda>_. retIO ()"]
    by (simp add: e in_range_def)
qed

section \<open>The printed colour is a valid argument\<close>

lemma char_zero: "char_of (48 :: nat) = CHR ''0''"
  by code_simp

lemma hex_fmt2: "n < 256 \<Longrightarrow> hex_fmt 2 n = [hex_digit (n div 16), hex_digit (n mod 16)]"
  by (cases "n < 16") (auto simp: hex_fmt_def hex_str.simps [of n] hex_str.simps [of "n div 16"] hex_digit_def char_zero Let_def)

lemma hex_upper2: "0 \<le> v \<Longrightarrow> v \<le> 255 \<Longrightarrow> hex_upper v = [hexu (nat v div 16), hexu (nat v mod 16)]"
  by (auto simp: hex_upper_def hex_fmt2 hexu_def hex_digit_def less_eq_char_def)

text \<open>What \<open>led\<close> prints can be given back to it: for every channel state the printed
  \<^verbatim>\<open>#RRGGBBWW\<close> token sets that same state.\<close>
lemma led_print_parse:
  assumes "in_range c"
  shows "led_command [rgbw_hex c] = Inr (SetColour c)"
proof -
  obtain r g b w where c: "c = (r, g, b, w)" by (metis surj_pair)
  with assms have bounds: "0 \<le> r" "r \<le> 255" "0 \<le> g" "g \<le> 255" "0 \<le> b" "b \<le> 255" "0 \<le> w" "w \<le> 255"
    by (auto simp: in_range_def)
  let ?d = "\<lambda>v. [hexu (nat v div 16), hexu (nat v mod 16)]"
  let ?s = "?d r @ ?d g @ ?d b @ ?d w"
  have tok: "rgbw_hex c = CHR ''#'' # ?s" using bounds by (simp add: rgbw_hex_def c hex_upper2)
  have hx: "\<forall>x \<in> set ?s. is_hex x" using bounds hexu_hex by (auto simp: less_mult_imp_div_less)
  then have st: "strip (rgbw_hex c) = rgbw_hex c" using is_hex_distinct by (intro strip_id) (auto simp: tok is_space_def)
  have val: "int (16 * hexv (hexu (nat v div 16)) + hexv (hexu (nat v mod 16))) = v" if "0 \<le> v" "v \<le> 255" for v
    using that hexu_hex [of "nat v div 16"] hexu_hex [of "nat v mod 16"] by simp
  have "hex8 ?s" using hx by (simp add: hex8_def)
  moreover have "parse_hex8 ?s = Inr c"
    using hx by (simp add: parse_hex8_def slice_def py_int_hex2 c del: of_nat_add of_nat_mult) (use bounds val in simp)
  moreover have "strip_hash (rgbw_hex c) = ?s" by (simp add: tok strip_hash_def startswith_def)
  ultimately have "token_command (rgbw_hex c) = Inr (SetColour c)"
    unfolding token_command_def Let_def st by (simp add: tok lower_def del: One_nat_def)
  then show ?thesis unfolding led_command_def by (simp add: tok lower_def)
qed

lemma led_print_parse_witness: "led_command [rgbw_hex (160, 16, 2, 0)] = Inr (SetColour (160, 16, 2, 0))"
  by (rule led_print_parse) (simp add: in_range_def)

section \<open>The walk over the palette\<close>

definition triangle :: "nat \<Rightarrow> int" where
  "triangle k = (let m = int k mod 62 in if m \<le> 31 then m else 62 - m)"

lemma walk_state:
  "\<exists>d. (steps_next ^^ k) (0, 1) = (triangle k, d) \<and>
     (0 < int k mod 62 \<and> int k mod 62 < 31 \<longrightarrow> d = 1) \<and> (31 < int k mod 62 \<longrightarrow> d = - 1)"
proof (induction k)
  case 0
  show ?case by (simp add: triangle_def)
next
  case (Suc k)
  then obtain d where d: "(steps_next ^^ k) (0, 1) = (triangle k, d)"
    "0 < int k mod 62 \<and> int k mod 62 < 31 \<longrightarrow> d = 1" "31 < int k mod 62 \<longrightarrow> d = - 1" by blast
  define m where "m = int k mod 62"
  have m: "0 \<le> m" "m < 62" by (simp_all add: m_def)
  have sm: "int (Suc k) mod 62 = (if m = 61 then 0 else m + 1)"
  proof -
    have "int (Suc k) mod 62 = (m + 1) mod 62" unfolding m_def mod_add_left_eq by (simp add: add.commute)
    then show ?thesis using m by (cases "m = 61") simp_all
  qed
  have len: "int (length PALETTE) - 1 = 31" by (simp add: PALETTE_def)
  show ?case using d m unfolding triangle_def sm m_def [symmetric] Let_def
    by (auto simp: steps_next_def len Let_def)
qed

text \<open>The \<open>steps\<close> demo is a triangle wave over the whole palette: after \<open>k\<close> turns it shows entry
  \<open>k mod 62\<close> on the way up and \<open>62 - k mod 62\<close> on the way down, never repeating an end and never
  leaving the palette.\<close>
lemma steps_triangle:
  "fst ((steps_next ^^ k) (0, 1)) = triangle k \<and> 0 \<le> triangle k \<and> triangle k < int (length PALETTE)"
proof -
  have "0 \<le> int k mod 62" "int k mod 62 < 62" by simp_all
  then have "0 \<le> triangle k" "triangle k < 32" by (auto simp: triangle_def Let_def)
  then show ?thesis using walk_state [of k] by (auto simp: PALETTE_def)
qed

section \<open>Setting a colour\<close>

definition put :: "channel \<Rightarrow> int \<Rightarrow> sysfs \<Rightarrow> sysfs" where
  "put c v h = h\<lparr>sy_file := (sy_file h)((c, Brightness) \<mapsto> int_str v)\<rparr>"

definition put4 :: "rgbw \<Rightarrow> sysfs \<Rightarrow> sysfs" where
  "put4 = (\<lambda>(r, g, b, w) h. put White w (put Blue b (put Green g (put Red r h))))"

definition healthy :: "sysfs \<Rightarrow> bool" where
  "healthy h = (\<forall>c. sy_dir h c \<and> (\<forall>a. sy_writable h (c, a)) \<and>
     (case sy_file h (c, Brightness) of None \<Rightarrow> True | Some s \<Rightarrow> \<exists>v. py_int 10 (strip s) = Inr v))"

lemma int_str_strip: "py_int 10 (strip (int_str v)) = Inr v"
proof -
  have "\<forall>c \<in> set (int_str v). \<not> is_space c"
    using nat_str_digits is_digit_distinct by (auto simp: int_str_def is_space_def)
  then show ?thesis by (simp add: strip_id py_int_int_str)
qed

lemma healthy_put [intro]: "healthy h \<Longrightarrow> healthy (put c v h)"
  by (auto simp: healthy_def put_def int_str_strip)

lemma healthy_put4 [intro]: "healthy h \<Longrightarrow> healthy (put4 t h)"
  by (auto simp: put4_def split: prod.split)

lemma write_brightness_ok: "healthy h \<Longrightarrow> write_brightness c v h = (Inr (), put c v h)"
  by (simp add: write_brightness_def or_die_def write_text_def healthy_def put_def)

lemma write_rgbw_ok: "healthy h \<Longrightarrow> write_rgbw_now t h = (Inr (), put4 t h)"
  by (cases t) (simp add: write_rgbw_now_def bindIO_def write_brightness_ok healthy_put put4_def)

lemma read_brightness_ok: "healthy h \<Longrightarrow> \<exists>v. read_brightness c h = (Inr v, h)"
  by (auto simp: read_brightness_def bindIO_def getIO_def liftIO_def retIO_def healthy_def split: option.splits)

lemma read_rgbw_ok: "healthy h \<Longrightarrow> \<exists>t. read_rgbw h = (Inr t, h)"
proof -
  assume "healthy h"
  then have "\<exists>v. read_brightness c h = (Inr v, h)" for c by (rule read_brightness_ok)
  then obtain f where "\<And>c. read_brightness c h = (Inr (f c), h)" by metis
  then show ?thesis by (simp add: read_rgbw_def bindIO_def retIO_def)
qed

lemma read_put4: "read_rgbw (put4 t h) = (Inr t, put4 t h)"
  by (cases t) (simp add: read_rgbw_def read_brightness_def bindIO_def getIO_def liftIO_def retIO_def put4_def put_def int_str_strip)

lemma put4_put4 [simp]: "put4 t (put4 u h) = put4 t h"
  by (cases t; cases u) (simp add: put4_def put_def fun_upd_twist fun_eq_iff)

lemma each_frames:
  "healthy h \<Longrightarrow> is \<noteq> [] \<Longrightarrow> eachIO (\<lambda>i. write_rgbw_now (f i)) is h = (Inr (), put4 (f (last is)) h)"
proof (induction "is" arbitrary: h)
  case (Cons i "is")
  then show ?case by (cases "is = []") (auto simp: bindIO_def write_rgbw_ok retIO_def healthy_put4)
qed simp

lemma frames5: "frames = 5" "[1..frames] = [1, 2, 3, 4, 5]"
  by (simp_all add: frames_def frame_ms_def FADE_MS_def FADE_FPS_def MIN_FRAME_MS_def upto.simps)

lemma lerp_end: "lerp x0 x1 frames = x1"
  by (simp add: lerp_def frames5)

lemma lerp_between:
  assumes "0 \<le> i" "i \<le> frames"
  shows "min x0 x1 \<le> lerp x0 x1 i" "lerp x0 x1 i \<le> max x0 x1"
proof -
  have "i \<in> {0, 1, 2, 3, 4, 5}" using assms by (auto simp: frames5)
  then show "min x0 x1 \<le> lerp x0 x1 i" "lerp x0 x1 i \<le> max x0 x1"
    unfolding lerp_def frames5 by (auto simp: min_def max_def)
qed

lemma fade_ok:
  assumes "healthy h"
  shows "\<exists>h'. fade_to t h = (Inr (), h') \<and> healthy h' \<and> read_rgbw h' = (Inr t, h')"
proof -
  obtain c where c: "read_rgbw h = (Inr c, h)" using read_rgbw_ok [OF assms] by blast
  have fr: "frame c t 5 = t"
    using lerp_end by (simp add: frame_def frames5 split: prod.split)
  show ?thesis
  proof (cases "c = t")
    case True
    then show ?thesis using c assms by (auto simp: fade_to_def bindIO_def retIO_def)
  next
    case False
    have "fade_to t h = eachIO (\<lambda>i. write_rgbw_now (frame c t i)) [1..frames] h"
      using c False by (simp add: fade_to_def bindIO_def)
    also have "\<dots> = (Inr (), put4 t h)"
      using each_frames [OF assms, of "[1..frames]" "frame c t"] fr unfolding frames5(2) by simp
    finally show ?thesis using healthy_put4 [OF assms] read_put4 by blast
  qed
qed

lemma verify_ok: "healthy h \<Longrightarrow> verify_driver h = (Inr (), h)"
  by (simp add: verify_driver_def channels_def bindIO_def getIO_def retIO_def healthy_def)

lemma ensure_trigger_ok: "healthy h \<Longrightarrow> \<exists>h'. ensure_trigger_none c h = (Inr (), h') \<and> healthy h'"
  by (auto simp: ensure_trigger_none_def bindIO_def getIO_def retIO_def or_die_def write_text_def healthy_def
      split: option.splits)

lemma each_ok:
  "(\<And>x h. healthy h \<Longrightarrow> \<exists>h'. f x h = (Inr (), h') \<and> healthy h') \<Longrightarrow> healthy h \<Longrightarrow>
   \<exists>h'. eachIO f xs h = (Inr (), h') \<and> healthy h'"
proof (induction xs arbitrary: h)
  case (Cons x xs)
  from Cons.prems obtain h1 where "f x h = (Inr (), h1)" "healthy h1" by blast
  with Cons show ?case by (simp add: bindIO_def)
qed (simp add: retIO_def)

lemma claim_ok: "healthy h \<Longrightarrow> \<exists>h'. claim_triggers h = (Inr (), h') \<and> healthy h'"
  unfolding claim_triggers_def by (intro each_ok ensure_trigger_ok)

text \<open>C15. On a working device a colour always arrives: the command succeeds, the channels then read
  exactly the requested values, and every intermediate frame lies between the old and the new value of
  its channel (so it stays within 0..255).\<close>
theorem set_lands:
  assumes "healthy h" "in_range t"
  shows "(\<exists>h'. set_rgbw t h = (Inr (), h') \<and> read_rgbw h' = (Inr t, h')) \<and>
    (\<forall>c i. in_range c \<and> 1 \<le> i \<and> i \<le> frames \<longrightarrow> in_range (frame c t i))"
proof
  obtain h1 where "claim_triggers h = (Inr (), h1)" "healthy h1" using claim_ok [OF assms(1)] by blast
  then show "\<exists>h'. set_rgbw t h = (Inr (), h') \<and> read_rgbw h' = (Inr t, h')"
    using fade_ok [of h1 t] assms by (auto simp: set_rgbw_def bindIO_def verify_ok)
  have "0 \<le> lerp a b i \<and> lerp a b i \<le> 255"
    if "0 \<le> a" "a \<le> 255" "0 \<le> b" "b \<le> 255" "1 \<le> i" "i \<le> frames" for a b i
    using lerp_between [of i a b] that by (auto simp: min_def max_def split: if_splits)
  then show "\<forall>c i. in_range c \<and> 1 \<le> i \<and> i \<le> frames \<longrightarrow> in_range (frame c t i)"
    using assms(2) by (auto simp: in_range_def frame_def)
qed

definition sample_fs :: sysfs where
  "sample_fs = \<lparr> sy_dir = (\<lambda>_. True), sy_file = (\<lambda>p. if snd p = Trigger then Some ''none [timer]'' else Some ''0''),
     sy_writable = (\<lambda>_. True) \<rparr>"

lemma sample_healthy: "healthy sample_fs"
  by (simp add: healthy_def sample_fs_def text_eval)

theorem set_lands_witness:
  "\<exists>h'. set_rgbw (160, 16, 2, 0) sample_fs = (Inr (), h') \<and> read_rgbw h' = (Inr (160, 16, 2, 0), h')"
  using set_lands [OF sample_healthy, of "(160, 16, 2, 0)"] by (simp add: in_range_def)

section \<open>The demos always end dark\<close>

lemma palette_hex: "\<forall>s \<in> set PALETTE. hex8 s"
  by (simp add: PALETTE_def hex8_def is_hex_code Let_def)

lemma show_index_ok: "healthy h \<Longrightarrow> 0 \<le> i \<Longrightarrow> i < 32 \<Longrightarrow> \<exists>h'. show_index i h = (Inr (), h') \<and> healthy h'"
proof -
  assume h: "healthy h" and i: "0 \<le> i" "i < 32"
  have "nat i < length PALETTE" using i by (simp add: PALETTE_def)
  then have "PALETTE ! nat i \<in> set PALETTE" by simp
  then have "hex8 (PALETTE ! nat i)" using palette_hex by blast
  then obtain t where t: "parse_hex8 (PALETTE ! nat i) = Inr t" by (auto elim: parse_hex8_ok)
  have "py_nth PALETTE i = Inr (PALETTE ! nat i)"
    using i \<open>nat i < length PALETTE\<close> by (simp add: py_nth_def nth_res_nth)
  then show ?thesis using fade_ok [OF h, of t] t by (auto simp: show_index_def bindIO_def liftIO_def)
qed

lemma cleanup_dark: "healthy h \<Longrightarrow> cleanup h = (Inl (SystemExit 0), put4 (0, 0, 0, 0) h)"
  by (simp add: cleanup_def write_rgbw_ok)

lemma steps_dark:
  "healthy h \<Longrightarrow> \<exists>h'. cmd_steps k ((steps_next ^^ j) (0, 1)) h = (Inl (SystemExit 0), h') \<and> read_rgbw h' = (Inr (0, 0, 0, 0), h')"
proof (induction k arbitrary: j h)
  case 0
  then show ?case by (simp add: cleanup_dark read_put4)
next
  case (Suc k)
  have "0 \<le> int j mod 62" "int j mod 62 < 62" by simp_all
  then have "0 \<le> triangle j" "triangle j < 32" by (auto simp: triangle_def Let_def)
  then obtain h1 where "show_index (fst ((steps_next ^^ j) (0, 1))) h = (Inr (), h1)" "healthy h1"
    using show_index_ok [OF Suc.prems, of "triangle j"] walk_state [of j] by auto
  then show ?case using Suc.IH [of h1 "Suc j"] by (simp add: bindIO_def)
qed

lemma simulate_dark:
  "healthy h \<Longrightarrow> \<forall>i \<in> set is. i < 32 \<Longrightarrow>
   \<exists>h'. simulate_loop is lst h = (Inl (SystemExit 0), h') \<and> read_rgbw h' = (Inr (0, 0, 0, 0), h')"
proof (induction "is" arbitrary: lst h)
  case Nil
  then show ?case by (simp add: cleanup_dark read_put4)
next
  case (Cons i "is")
  obtain h1 where "show_index (int i) h = (Inr (), h1)" "healthy h1"
    using show_index_ok [OF Cons.prems(1), of "int i"] Cons.prems(2) by auto
  then show ?case using Cons by (auto simp: bindIO_def)
qed

text \<open>However long a demo ran and whatever it drew, an interrupt between two frames leaves the LED
  dark and ends with status 0.\<close>
lemma demo_ends_dark:
  assumes "healthy h" "\<forall>i \<in> set draws. i < 32"
  shows "(\<exists>h'. steps_start k h = (Inl (SystemExit 0), h') \<and> read_rgbw h' = (Inr (0, 0, 0, 0), h')) \<and>
    (\<exists>h'. cmd_simulate draws h = (Inl (SystemExit 0), h') \<and> read_rgbw h' = (Inr (0, 0, 0, 0), h'))"
proof -
  obtain h1 where "claim_triggers h = (Inr (), h1)" "healthy h1" using claim_ok [OF assms(1)] by blast
  then show ?thesis
    using steps_dark [of h1 k 0] simulate_dark [of h1 draws "-1"] assms
    by (simp add: steps_start_def cmd_simulate_def bindIO_def verify_ok)
qed

lemma demo_ends_dark_witness:
  "\<exists>h'. steps_start 100 sample_fs = (Inl (SystemExit 0), h') \<and> read_rgbw h' = (Inr (0, 0, 0, 0), h')"
  using demo_ends_dark [OF sample_healthy, of "[3, 3, 31]"] by simp

end
