(* ===== verification/TextOut.thy ===== *)
theory TextOut
  imports PyText
begin

text \<open>
  What the operational commands print: lines of text, and tables as the cells that are handed to the table
  printer with their headers.
\<close>

datatype cell = Txt string | Num int
datatype shown_item = Say string | Grid "cell list list" "string list"

end
