(* ===== verification/Json.thy ===== *)
theory Json
  imports PyText "HOL-Library.List_Lexorder"
begin

text \<open>
  Python's nested dictionaries, lists and scalars as one datatype: what \<^verbatim>\<open>json.load\<close>
  returns and \<^verbatim>\<open>json.dumps\<close> takes.  A dictionary is the list of its items in insertion order.
\<close>

datatype json =
    JNull
  | JBool bool
  | JInt int
  | JStr string
  | JList "json list"
  | JObj "(string \<times> json) list"

text \<open>\<^verbatim>\<open>d.get(k, default)\<close>; only a dictionary has it.\<close>

definition jget :: "json \<Rightarrow> string \<Rightarrow> json \<Rightarrow> json res" where
  "jget d k dflt = (case d of JObj kvs \<Rightarrow> Inr (case map_of kvs k of Some v \<Rightarrow> v | None \<Rightarrow> dflt) | _ \<Rightarrow> Inl AttributeError)"

fun truthy :: "json \<Rightarrow> bool" where
  "truthy JNull = False"
| "truthy (JBool b) = b"
| "truthy (JInt i) = (i \<noteq> 0)"
| "truthy (JStr s) = (s \<noteq> [])"
| "truthy (JList xs) = (xs \<noteq> [])"
| "truthy (JObj kvs) = (kvs \<noteq> [])"

text \<open>\<^verbatim>\<open>k in d\<close>.\<close>

definition has_key :: "json \<Rightarrow> string \<Rightarrow> bool res" where
  "has_key d k = (case d of
     JObj kvs \<Rightarrow> Inr (k \<in> fst ` set kvs)
   | JList xs \<Rightarrow> Inr (JStr k \<in> set xs)
   | JStr s \<Rightarrow> Inr (contains k s)
   | _ \<Rightarrow> Inl TypeError)"

definition is_obj :: "json \<Rightarrow> bool" where "is_obj d = (case d of JObj _ \<Rightarrow> True | _ \<Rightarrow> False)"

definition jkeys :: "json \<Rightarrow> string list" where
  "jkeys d = (case d of JObj kvs \<Rightarrow> map fst kvs | _ \<Rightarrow> [])"

text \<open>\<^verbatim>\<open>d[k] = v\<close>: the position of an existing key is kept.\<close>

fun jset :: "string \<Rightarrow> json \<Rightarrow> (string \<times> json) list \<Rightarrow> (string \<times> json) list" where
  "jset k v [] = [(k, v)]"
| "jset k v ((a, b) # kvs) = (if a = k then (a, v) # kvs else (a, b) # jset k v kvs)"

lemma map_of_jset: "map_of (jset k v kvs) = (map_of kvs)(k \<mapsto> v)"
  by (induction kvs) (auto simp: fun_eq_iff)

lemma jget_obj [simp]: "jget (JObj kvs) k d = Inr (case map_of kvs k of Some v \<Rightarrow> v | None \<Rightarrow> d)"
  by (simp add: jget_def)

lemma map_of_size: "map_of kvs k = Some v \<Longrightarrow> size v < size (JObj kvs)"
proof -
  assume "map_of kvs k = Some v"
  then have "(k, v) \<in> set kvs" by (rule map_of_SomeD)
  then have "size v < size_list (size_prod (\<lambda>_. 0) size) kvs + 1"
    by (induction kvs) auto
  then show ?thesis by simp
qed

end
