(* ===== verification/McpTools.thy ===== *)
theory McpTools
  imports Hw PyText
begin

text \<open>
  The tools of the MCP endpoint (\<^verbatim>\<open>data/vyos-1x-files/src/services/api/mcp/tools.py\<close> and
  \<^verbatim>\<open>server.py\<close>).  The configuration session, the operational command wrapper and the
  configuration tree belong to VyOS and are parameters; what the tools rely on of the session is
  stated as \<open>session_laws\<close>.
\<close>

section \<open>The VyOS side\<close>

record 'h session =
  ss_set :: "string list \<Rightarrow> string \<Rightarrow> ('h, unit) io"
  ss_delete :: "string list \<Rightarrow> string option \<Rightarrow> ('h, unit) io"
  ss_discard :: "('h, unit) io"
  ss_commit :: "('h, string) io"
  ss_commit_confirm :: "int \<Rightarrow> ('h, string) io"
  ss_install_image :: "string \<Rightarrow> ('h, string) io"
  ss_remove_image :: "string \<Rightarrow> ('h, string) io"
  ss_set_default_image :: "string \<Rightarrow> ('h, string) io"
  ss_reboot :: "string list \<Rightarrow> ('h, string) io"
  ss_poweroff :: "string list \<Rightarrow> ('h, string) io"
  ss_save :: "string \<Rightarrow> ('h, string) io"
  ss_show :: "string list \<Rightarrow> ('h, string) io"

text \<open>A configuration tree and its renderings; \<open>t_strip\<close> is \<^verbatim>\<open>strip_mcp_secrets\<close>.\<close>

record ('h, 't) vyos =
  v_session :: "'h session option"
  v_tree :: "('h, 't) io"
  v_wrapper :: "string list \<Rightarrow> ('h, string \<times> int) io"
  v_op_valid :: "string list \<Rightarrow> bool"
  v_config_valid :: "string list \<Rightarrow> bool"
  t_strip :: "'t \<Rightarrow> 't"
  t_commands :: "'t \<Rightarrow> string"
  t_json :: "'t \<Rightarrow> string"
  t_string :: "'t \<Rightarrow> string"
  t_exists :: "'t \<Rightarrow> string list \<Rightarrow> bool"
  t_subtree :: "'t \<Rightarrow> string list \<Rightarrow> 't"

text \<open>The process-wide configuration lock beside the system's state: \<open>True\<close> while held.\<close>

type_synonym ('h, 'a) locked = "('h \<times> bool, 'a) io"

definition on_world :: "('h, 'a) io \<Rightarrow> ('h, 'a) locked" where
  "on_world m s = (case m (fst s) of (r, h) \<Rightarrow> (r, (h, snd s)))"

definition lock_acquire :: "('h, unit) locked" where "lock_acquire s = (Inr (), (fst s, True))"
definition lock_release :: "('h, unit) locked" where "lock_release s = (Inr (), (fst s, False))"

section \<open>modify_configuration\<close>

record op_spec =
  o_op :: "string option"
  o_path :: "string list"
  o_value :: "string option"

definition value_error :: "string \<Rightarrow> ('h, 'a) io" where "value_error t = raiseIO (ValueError t)"

definition stage_op :: "'h session \<Rightarrow> (string list \<Rightarrow> bool) \<Rightarrow> op_spec \<Rightarrow> ('h, unit) io" where
  "stage_op ss valid o' =
     (if \<not> valid (o_path o') then bindIO (ss_discard ss) (\<lambda>_. value_error ''Invalid config path'')
      else if o_op o' = Some ''set'' then ss_set ss (o_path o') (case o_value o' of Some v \<Rightarrow> v | None \<Rightarrow> [])
      else if o_op o' = Some ''delete'' then ss_delete ss (o_path o') (o_value o')
      else bindIO (ss_discard ss) (\<lambda>_. value_error ''Unknown operation''))"

definition finish :: "'h session \<Rightarrow> int option \<Rightarrow> ('h, string) io" where
  "finish ss minutes =
     (case minutes of
        Some m \<Rightarrow> if m \<noteq> 0 then ss_commit_confirm ss m else ss_commit ss
      | None \<Rightarrow> ss_commit ss)"

definition stage_and_commit :: "'h session \<Rightarrow> (string list \<Rightarrow> bool) \<Rightarrow> op_spec list \<Rightarrow> int option \<Rightarrow> ('h, string) io" where
  "stage_and_commit ss valid ops minutes =
     bindIO (eachIO (stage_op ss valid) ops) (\<lambda>_.
     bindIO (finish ss minutes) (\<lambda>out. retIO (if out = [] then ''Configuration committed successfully.'' else out)))"

text \<open>A session error becomes a \<open>ValueError\<close>, any other exception is raised again; both discard.\<close>

definition undo :: "'h session \<Rightarrow> py_error \<Rightarrow> ('h, 'a) io" where
  "undo ss e = bindIO (ss_discard ss) (\<lambda>_. raiseIO (case e of ConfigSessionError t \<Rightarrow> ValueError t | _ \<Rightarrow> e))"

definition modify_configuration ::
  "'h session option \<Rightarrow> (string list \<Rightarrow> bool) \<Rightarrow> op_spec list \<Rightarrow> int option \<Rightarrow> ('h, string) locked" where
  "modify_configuration ss valid ops minutes =
     (if ops = [] then value_error ''operations is required''
      else case ss of None \<Rightarrow> value_error ''Config session is not initialized''
      | Some ss \<Rightarrow> bindIO lock_acquire (\<lambda>_.
          finallyIO (on_world (handleIO (stage_and_commit ss valid ops minutes) (undo ss))) lock_release))"

section \<open>The other tools\<close>

definition session_error :: "('h, 'a) io \<Rightarrow> ('h, 'a) io" where
  "session_error m = handleIO m (\<lambda>e. raiseIO (case e of ConfigSessionError t \<Rightarrow> ValueError t | _ \<Rightarrow> e))"

definition with_session :: "'h session option \<Rightarrow> ('h session \<Rightarrow> ('h, 'a) io) \<Rightarrow> ('h, 'a) io" where
  "with_session ss f = (case ss of None \<Rightarrow> value_error ''Config session is not initialized'' | Some s \<Rightarrow> session_error (f s))"

definition manage_system_image :: "'h session option \<Rightarrow> string option \<Rightarrow> string \<Rightarrow> string \<Rightarrow> ('h, string) io" where
  "manage_system_image ss action url name = with_session ss (\<lambda>s.
     if action = Some ''add'' then (if url = [] then value_error ''url is required for add action'' else ss_install_image s url)
     else if action = Some ''delete'' then (if name = [] then value_error ''name is required for delete action'' else ss_remove_image s name)
     else if action = Some ''set'' then (if name = [] then value_error ''name is required for set action'' else ss_set_default_image s name)
     else value_error ''Unknown image action'')"

definition reboot_system :: "'h session option \<Rightarrow> string list option \<Rightarrow> ('h, string) io" where
  "reboot_system ss path = with_session ss (\<lambda>s. ss_reboot s (case path of Some p \<Rightarrow> p | None \<Rightarrow> [''now'']))"

definition poweroff_system :: "'h session option \<Rightarrow> string list option \<Rightarrow> ('h, string) io" where
  "poweroff_system ss path = with_session ss (\<lambda>s. ss_poweroff s (case path of Some p \<Rightarrow> p | None \<Rightarrow> [''now'']))"

definition save_configuration :: "'h session option \<Rightarrow> string option \<Rightarrow> ('h, string) io" where
  "save_configuration ss file = with_session ss (\<lambda>s.
     ss_save s (case file of Some f \<Rightarrow> if f = [] then ''/config/config.boot'' else f | None \<Rightarrow> ''/config/config.boot''))"

text \<open>The redacted rendering of \<^verbatim>\<open>show configuration\<close>.\<close>

definition render_config :: "('h, 't) vyos \<Rightarrow> 't \<Rightarrow> string list \<Rightarrow> string" where
  "render_config v ct remainder =
     (case remainder of
        [] \<Rightarrow> t_string v ct
      | fmt # _ \<Rightarrow>
          if fmt = ''commands'' then t_commands v ct
          else if fmt = ''json'' then t_json v ct
          else if fmt = ''all'' then t_string v ct
          else if t_exists v ct remainder then t_string v (t_subtree v ct remainder) else [])"

definition redacted_show_configuration :: "('h, 't) vyos \<Rightarrow> string list \<Rightarrow> ('h, string) io" where
  "redacted_show_configuration v remainder =
     bindIO (v_tree v) (\<lambda>ct. retIO (render_config v (t_strip v ct) remainder))"

definition execute_operational_command :: "('h, 't) vyos \<Rightarrow> string list \<Rightarrow> ('h, string) io" where
  "execute_operational_command v path =
     (if path = [] then value_error ''path is required''
      else if \<not> v_op_valid v path then value_error ''Invalid operational command path''
      else if 2 \<le> length path \<and> path ! 0 = ''show'' \<and> path ! 1 = ''configuration''
        then redacted_show_configuration v (drop 2 path)
      else bindIO (v_wrapper v path) (\<lambda>(out, rc).
        if rc \<noteq> 0 then
          (let t = strip out in value_error (if t = [] then ''Operational command failed with exit status '' @ int_str rc else t))
        else retIO out))"

section \<open>Exposure and dispatch\<close>

definition read_only_op_verbs :: "string list" where
  "read_only_op_verbs = [''show'', ''monitor'', ''ping'', ''traceroute'']"

definition TOOL_EXECUTE_OP :: string where "TOOL_EXECUTE_OP = ''execute_operational_command''"
definition TOOL_MODIFY_CONFIG :: string where "TOOL_MODIFY_CONFIG = ''modify_configuration''"
definition TOOL_MANAGE_IMAGE :: string where "TOOL_MANAGE_IMAGE = ''manage_system_image''"
definition TOOL_REBOOT :: string where "TOOL_REBOOT = ''reboot_system''"
definition TOOL_POWEROFF :: string where "TOOL_POWEROFF = ''poweroff_system''"
definition TOOL_SAVE_CONFIG :: string where "TOOL_SAVE_CONFIG = ''save_configuration''"

lemmas tool_names = TOOL_EXECUTE_OP_def TOOL_MODIFY_CONFIG_def TOOL_MANAGE_IMAGE_def TOOL_REBOOT_def
  TOOL_POWEROFF_def TOOL_SAVE_CONFIG_def

text \<open>Tool name and required arguments.\<close>

definition read_only_tools :: "(string \<times> string list) list" where
  "read_only_tools = [(TOOL_EXECUTE_OP, [''path''])]"

definition write_tools :: "(string \<times> string list) list" where
  "write_tools = [(TOOL_MODIFY_CONFIG, [''operations'']), (TOOL_MANAGE_IMAGE, [''action'']), (TOOL_REBOOT, []),
     (TOOL_POWEROFF, []), (TOOL_SAVE_CONFIG, [])]"

definition exposed_tools :: "bool \<Rightarrow> string list" where
  "exposed_tools read_only = map fst (read_only_tools @ (if read_only then [] else write_tools))"

record tool_args =
  a_path :: "string list option"
  a_operations :: "op_spec list"
  a_minutes :: "int option"
  a_action :: "string option"
  a_url :: string
  a_name :: string
  a_file :: "string option"

definition handler :: "('h, 't) vyos \<Rightarrow> string \<Rightarrow> (tool_args \<Rightarrow> ('h, string) locked) option" where
  "handler v name =
     map_of [
       (TOOL_EXECUTE_OP, \<lambda>a. on_world (execute_operational_command v (case a_path a of Some p \<Rightarrow> p | None \<Rightarrow> []))),
       (TOOL_MODIFY_CONFIG, \<lambda>a. modify_configuration (v_session v) (v_config_valid v) (a_operations a) (a_minutes a)),
       (TOOL_MANAGE_IMAGE, \<lambda>a. on_world (manage_system_image (v_session v) (a_action a) (a_url a) (a_name a))),
       (TOOL_REBOOT, \<lambda>a. on_world (reboot_system (v_session v) (a_path a))),
       (TOOL_POWEROFF, \<lambda>a. on_world (poweroff_system (v_session v) (a_path a))),
       (TOOL_SAVE_CONFIG, \<lambda>a. on_world (save_configuration (v_session v) (a_file a)))] name"

text \<open>The verb of the command; \<^verbatim>\<open>None\<close> when the path is missing or empty.\<close>

definition op_verb :: "tool_args \<Rightarrow> string option" where
  "op_verb a = (case a_path a of Some (x # _) \<Rightarrow> Some x | _ \<Rightarrow> None)"

definition call_tool :: "('h, 't) vyos \<Rightarrow> bool \<Rightarrow> string \<Rightarrow> tool_args \<Rightarrow> ('h, string) locked" where
  "call_tool v read_only name a =
     (case handler v name of
        None \<Rightarrow> value_error ''Unknown tool''
      | Some f \<Rightarrow>
          if name \<notin> set (exposed_tools read_only) then value_error ''Unknown tool''
          else if read_only \<and> name = TOOL_EXECUTE_OP \<and> op_verb a \<notin> Some ` set read_only_op_verbs
            then value_error ''Operational verb not allowed in read-only mode''
          else f a)"

text \<open>\<^verbatim>\<open>create_mcp_server\<close>: anything but the exact mode \<^verbatim>\<open>read-write\<close> is read only.\<close>

record mcp_server =
  m_read_only :: bool
  m_introspection :: bool

definition create_mcp_server :: "string \<Rightarrow> bool \<Rightarrow> mcp_server" where
  "create_mcp_server mode introspection = \<lparr> m_read_only = (mode \<noteq> ''read-write''), m_introspection = introspection \<rparr>"

section \<open>Atomicity\<close>

text \<open>
  What the tool relies on of the session: staging never touches the running configuration and
  edits the candidate; \<open>discard\<close> succeeds and resets the candidate; a commit that returns installs
  the candidate, one that raises leaves the running configuration as it was.
\<close>

definition commit_law :: "('h \<Rightarrow> 'c) \<Rightarrow> ('h \<Rightarrow> 'c) \<Rightarrow> ('h, string) io \<Rightarrow> bool" where
  "commit_law running cand m = (\<forall>h. case m h of
     (Inr _, h') \<Rightarrow> running h' = cand h \<and> cand h' = cand h | (Inl _, h') \<Rightarrow> running h' = running h)"

definition stage_law :: "('h \<Rightarrow> 'c) \<Rightarrow> ('h \<Rightarrow> 'c) \<Rightarrow> ('c \<Rightarrow> 'c) \<Rightarrow> ('h, unit) io \<Rightarrow> bool" where
  "stage_law running cand f m = (\<forall>h. case m h of
     (Inr _, h') \<Rightarrow> running h' = running h \<and> cand h' = f (cand h) | (Inl _, h') \<Rightarrow> running h' = running h)"

definition session_laws ::
  "'h session \<Rightarrow> ('h \<Rightarrow> 'c) \<Rightarrow> ('h \<Rightarrow> 'c) \<Rightarrow> (string list \<Rightarrow> string \<Rightarrow> 'c \<Rightarrow> 'c) \<Rightarrow> (string list \<Rightarrow> string option \<Rightarrow> 'c \<Rightarrow> 'c) \<Rightarrow> bool" where
  "session_laws ss running cand cset cdel =
     ((\<forall>p v. stage_law running cand (cset p v) (ss_set ss p v)) \<and>
      (\<forall>p v. stage_law running cand (cdel p v) (ss_delete ss p v)) \<and>
      (\<forall>h. \<exists>h'. ss_discard ss h = (Inr (), h') \<and> running h' = running h \<and> cand h' = running h) \<and>
      commit_law running cand (ss_commit ss) \<and> (\<forall>m. commit_law running cand (ss_commit_confirm ss m)))"

text \<open>The specification: the operations, in order, on a configuration.\<close>

definition op_effect ::
  "(string list \<Rightarrow> string \<Rightarrow> 'c \<Rightarrow> 'c) \<Rightarrow> (string list \<Rightarrow> string option \<Rightarrow> 'c \<Rightarrow> 'c) \<Rightarrow> op_spec \<Rightarrow> 'c \<Rightarrow> 'c" where
  "op_effect cset cdel o' =
     (if o_op o' = Some ''set'' then cset (o_path o') (case o_value o' of Some v \<Rightarrow> v | None \<Rightarrow> [])
      else cdel (o_path o') (o_value o'))"

lemma discard_ok:
  assumes "session_laws ss running cand cset cdel"
  obtains h' where "ss_discard ss h = (Inr (), h')" "running h' = running h" "cand h' = running h"
  using assms unfolding session_laws_def by blast

lemma stage_op_law:
  assumes "session_laws ss running cand cset cdel"
  shows "stage_law running cand (op_effect cset cdel o') (stage_op ss valid o')"
proof -
  note l = assms [unfolded session_laws_def]
  have bad: "stage_law running cand f (bindIO (ss_discard ss) (\<lambda>_. value_error t))" for f t
    unfolding stage_law_def
  proof
    fix h
    obtain h' where "ss_discard ss h = (Inr (), h')" "running h' = running h" using assms by (rule discard_ok)
    then show "case bindIO (ss_discard ss) (\<lambda>_. value_error t) h of
        (Inl _, h') \<Rightarrow> running h' = running h | (Inr _, h') \<Rightarrow> running h' = running h \<and> cand h' = f (cand h)"
      by (simp add: io_defs value_error_def)
  qed
  show ?thesis using l bad by (auto simp: stage_op_def op_effect_def)
qed

lemma stage_all_law:
  assumes "session_laws ss running cand cset cdel"
  shows "stage_law running cand (fold (op_effect cset cdel) ops) (eachIO (stage_op ss valid) ops)"
proof (induction ops)
  case Nil
  show ?case by (simp add: stage_law_def retIO_def)
next
  case (Cons x ops)
  show ?case unfolding stage_law_def
  proof
    fix h
    obtain r h1 where r: "stage_op ss valid x h = (r, h1)" by force
    obtain r2 h2 where r2: "eachIO (stage_op ss valid) ops h1 = (r2, h2)" by force
    show "case eachIO (stage_op ss valid) (x # ops) h of (Inl _, h') \<Rightarrow> running h' = running h
        | (Inr _, h') \<Rightarrow> running h' = running h \<and> cand h' = fold (op_effect cset cdel) (x # ops) (cand h)"
      using stage_op_law [OF assms, of x valid, unfolded stage_law_def, rule_format, of h]
        Cons.IH [unfolded stage_law_def, rule_format, of h1] r r2
      by (cases r; cases r2) (simp_all add: bindIO_def)
  qed
qed

lemma finish_law: "session_laws ss running cand cset cdel \<Longrightarrow> commit_law running cand (finish ss minutes)"
  by (auto simp: finish_def session_laws_def split: option.split)

text \<open>C1. \<open>modify_configuration\<close> refines "apply all operations or none": when it returns, the running
  configuration is the candidate with every operation applied in order; whatever goes wrong (an invalid
  path, an unknown operation, a refused set, delete or commit, any other exception) the running
  configuration is unchanged, nothing stays staged, and in every case the lock is free again.\<close>
theorem modify_atomic:
  assumes "session_laws ss running cand cset cdel" "ops \<noteq> []"
  shows "case modify_configuration (Some ss) valid ops minutes (h, b) of (r, (h', held)) \<Rightarrow> \<not> held \<and>
    (case r of Inr _ \<Rightarrow> running h' = fold (op_effect cset cdel) ops (cand h) \<and> cand h' = running h'
     | Inl _ \<Rightarrow> running h' = running h \<and> cand h' = running h)"
proof -
  obtain r h1 where r: "stage_and_commit ss valid ops minutes h = (r, h1)" by force
  have m: "modify_configuration (Some ss) valid ops minutes (h, b) =
      (case r of Inr x \<Rightarrow> (Inr x, (h1, False)) | Inl e \<Rightarrow> (case undo ss e h1 of (q, h2) \<Rightarrow> (q, (h2, False))))"
    using assms(2) r
    by (cases r) (simp_all add: modify_configuration_def bindIO_def lock_acquire_def finallyIO_def lock_release_def
        on_world_def handleIO_def split: prod.split)
  obtain q h2 where q: "eachIO (stage_op ss valid) ops h = (q, h2)" by force
  obtain c h3 where c: "finish ss minutes h2 = (c, h3)" by force
  note st = stage_all_law [OF assms(1), of ops valid, unfolded stage_law_def, rule_format, of h]
  note fi = finish_law [OF assms(1), of minutes, unfolded commit_law_def, rule_format, of h2]
  have kept: "case r of Inr _ \<Rightarrow> running h1 = fold (op_effect cset cdel) ops (cand h) \<and> cand h1 = running h1
      | Inl _ \<Rightarrow> running h1 = running h"
    using r st fi q c by (cases q; cases c) (auto simp: stage_and_commit_def bindIO_def retIO_def)
  show ?thesis
  proof (cases r)
    case (Inl e)
    obtain h4 where "ss_discard ss h1 = (Inr (), h4)" "running h4 = running h1" "cand h4 = running h1"
      using assms(1) by (rule discard_ok)
    then show ?thesis using m kept Inl by (simp add: undo_def bindIO_def raiseIO_def)
  qed (use m kept in simp)
qed

text \<open>A small session that keeps the staged paths; \<^verbatim>\<open>bad\<close> is refused.\<close>

definition list_session :: "(string list list \<times> string list list) session" where
  "list_session = \<lparr>
     ss_set = (\<lambda>p v (r, c). if p = [''bad''] then (Inl (ConfigSessionError ''bad''), (r, c)) else (Inr (), (r, c @ [p]))),
     ss_delete = (\<lambda>p v (r, c). (Inr (), (r, filter (\<lambda>q. q \<noteq> p) c))),
     ss_discard = (\<lambda>(r, c). (Inr (), (r, r))),
     ss_commit = (\<lambda>(r, c). (Inr [], (c, c))), ss_commit_confirm = (\<lambda>m (r, c). (Inr [], (c, c))),
     ss_install_image = (\<lambda>_. retIO []), ss_remove_image = (\<lambda>_. retIO []), ss_set_default_image = (\<lambda>_. retIO []),
     ss_reboot = (\<lambda>_. retIO []), ss_poweroff = (\<lambda>_. retIO []), ss_save = (\<lambda>_. retIO []), ss_show = (\<lambda>_. retIO []) \<rparr>"

lemma list_session_laws: "session_laws list_session fst snd (\<lambda>p v c. c @ [p]) (\<lambda>p v c. filter (\<lambda>q. q \<noteq> p) c)"
  by (auto simp: session_laws_def stage_law_def commit_law_def list_session_def)

theorem modify_atomic_witness:
  "case modify_configuration (Some list_session) (\<lambda>_. True)
      [\<lparr>o_op = Some ''set'', o_path = [''a''], o_value = None\<rparr>, \<lparr>o_op = Some ''set'', o_path = [''bad''], o_value = None\<rparr>]
      None (([[''x'']], [[''x'']]), False) of (r, (h', held)) \<Rightarrow> \<not> held \<and> fst h' = [[''x'']] \<and> snd h' = [[''x'']]"
  using modify_atomic [OF list_session_laws, where valid = "\<lambda>_. True" and minutes = None and h = "([[''x'']], [[''x'']])" and
      b = False and ops = "[\<lparr>o_op = Some ''set'', o_path = [''a''], o_value = None\<rparr>, \<lparr>o_op = Some ''set'', o_path = [''bad''], o_value = None\<rparr>]"]
  by (simp add: modify_configuration_def stage_and_commit_def stage_op_def list_session_def io_defs on_world_def
      lock_acquire_def lock_release_def undo_def)

section \<open>Read-only sessions\<close>

text \<open>What one session is asked, and the state it leaves; results go back to the client.\<close>

fun run_calls :: "('h, 't) vyos \<Rightarrow> bool \<Rightarrow> (string \<times> tool_args) list \<Rightarrow> 'h \<times> bool \<Rightarrow> 'h \<times> bool" where
  "run_calls v read_only [] s = s"
| "run_calls v read_only ((name, a) # cs) s = run_calls v read_only cs (snd (call_tool v read_only name a s))"

text \<open>The verbs of the allow-list observe the system but do not change what \<open>obs\<close> sees.\<close>

definition observers :: "('h, 't) vyos \<Rightarrow> ('h \<Rightarrow> 'o) \<Rightarrow> bool" where
  "observers v obs =
     ((\<forall>p h. p \<noteq> [] \<and> hd p \<in> set read_only_op_verbs \<longrightarrow> obs (snd (v_wrapper v p h)) = obs h) \<and>
      (\<forall>h. obs (snd (v_tree v h)) = obs h))"

lemma bind_obs:
  assumes "\<And>h. obs (snd (m h)) = obs h" "\<And>x h. obs (snd (f x h)) = obs h"
  shows "obs (snd (bindIO m f h)) = obs h"
  using assms(1) [of h] assms(2) by (auto simp: bindIO_def split: prod.splits sum.splits)

lemma execute_observes:
  assumes "observers v obs" "hd p \<in> set read_only_op_verbs"
  shows "obs (snd (execute_operational_command v p h)) = obs h"
proof (cases "p = [] \<or> \<not> v_op_valid v p")
  case False
  have "obs (snd (redacted_show_configuration v q h)) = obs h" for q h
    unfolding redacted_show_configuration_def
    using assms(1) by (intro bind_obs) (auto simp: observers_def retIO_def)
  moreover have "obs (snd (bindIO (v_wrapper v p) (\<lambda>(out, rc). if rc \<noteq> 0 then value_error (t out rc) else retIO out) h)) = obs h" for t h
    using assms False by (intro bind_obs) (auto simp: observers_def retIO_def value_error_def raiseIO_def split: prod.split)
  ultimately show ?thesis using False unfolding execute_operational_command_def Let_def by simp
qed (auto simp: execute_operational_command_def value_error_def raiseIO_def)

lemma call_observes:
  assumes "observers v obs"
  shows "obs (fst (snd (call_tool v True name a s))) = obs (fst s)"
proof (cases "name = TOOL_EXECUTE_OP \<and> op_verb a \<in> Some ` set read_only_op_verbs")
  case True
  then obtain x r where p: "a_path a = Some (x # r)" "x \<in> set read_only_op_verbs"
    by (auto simp: op_verb_def split: option.splits list.splits)
  have "call_tool v True name a s = on_world (execute_operational_command v (x # r)) s"
    using True p by (simp add: call_tool_def handler_def exposed_tools_def read_only_tools_def tool_names)
  then show ?thesis using execute_observes [OF assms, of "x # r" "fst s"] p by (auto simp: on_world_def split: prod.splits)
next
  case False
  then have "\<exists>t. call_tool v True name a s = value_error t s"
    by (auto simp: call_tool_def exposed_tools_def read_only_tools_def split: option.split)
  then show ?thesis by (auto simp: value_error_def raiseIO_def)
qed

text \<open>C5. Unless the configured mode is exactly \<^verbatim>\<open>read-write\<close>, no sequence of tool calls changes
  anything: whatever names and arguments the client sends, the observed state (configuration,
  candidate, images, power) stays as it was and the configuration lock is never taken, provided the
  four allowed verbs only observe.\<close>
theorem read_only_changes_nothing:
  assumes "observers v obs" "mode \<noteq> ''read-write''"
  shows "obs (fst (run_calls v (m_read_only (create_mcp_server mode intro)) cs s)) = obs (fst s) \<and>
    snd (run_calls v (m_read_only (create_mcp_server mode intro)) cs s) = snd s"
proof (induction cs arbitrary: s)
  case (Cons c cs)
  obtain name a where c: "c = (name, a)" by force
  have ro: "m_read_only (create_mcp_server mode intro)" using assms(2) by (simp add: create_mcp_server_def)
  have lock: "snd (snd (call_tool v True name a s)) = snd s"
    by (auto simp: call_tool_def exposed_tools_def read_only_tools_def handler_def tool_names value_error_def raiseIO_def
        on_world_def split: option.split prod.split)
  show ?case using Cons [of "snd (call_tool v True name a s)"] call_observes [OF assms(1), of name a s] lock ro
    by (simp add: c)
qed simp

definition quiet_vyos :: "(string list list \<times> string list list, string) vyos" where
  "quiet_vyos = \<lparr> v_session = Some list_session, v_tree = retIO ''tree'', v_wrapper = (\<lambda>p. retIO (''up'', 0)),
     v_op_valid = (\<lambda>_. True), v_config_valid = (\<lambda>_. True), t_strip = (\<lambda>t. t), t_commands = id, t_json = id, t_string = id,
     t_exists = (\<lambda>t p. False), t_subtree = (\<lambda>t p. t) \<rparr>"

definition set_call :: tool_args where
  "set_call = \<lparr> a_path = Some [''reboot''], a_operations = [\<lparr>o_op = Some ''set'', o_path = [''a''], o_value = None\<rparr>],
     a_minutes = None, a_action = None, a_url = [], a_name = [], a_file = None \<rparr>"

theorem read_only_changes_nothing_witness:
  "run_calls quiet_vyos (m_read_only (create_mcp_server ''read-only'' True))
     [(TOOL_MODIFY_CONFIG, set_call), (TOOL_EXECUTE_OP, set_call)] (([], []), False) = (([], []), False) \<and>
   run_calls quiet_vyos (m_read_only (create_mcp_server ''read-write'' True))
     [(TOOL_MODIFY_CONFIG, set_call)] (([], []), False) = (([[''a'']], [[''a'']]), False)"
proof
  have "observers quiet_vyos id" by (auto simp: observers_def quiet_vyos_def retIO_def)
  from read_only_changes_nothing [OF this, of "''read-only''" True
      "[(TOOL_MODIFY_CONFIG, set_call), (TOOL_EXECUTE_OP, set_call)]" "(([], []), False)"]
  show "run_calls quiet_vyos (m_read_only (create_mcp_server ''read-only'' True))
     [(TOOL_MODIFY_CONFIG, set_call), (TOOL_EXECUTE_OP, set_call)] (([], []), False) = (([], []), False)"
    by (simp add: prod_eq_iff)
  show "run_calls quiet_vyos (m_read_only (create_mcp_server ''read-write'' True))
     [(TOOL_MODIFY_CONFIG, set_call)] (([], []), False) = (([[''a'']], [[''a'']]), False)"
    by (simp add: create_mcp_server_def call_tool_def handler_def tool_names exposed_tools_def write_tools_def read_only_tools_def
        quiet_vyos_def set_call_def modify_configuration_def list_session_def stage_and_commit_def stage_op_def finish_def
        io_defs on_world_def lock_acquire_def lock_release_def)
qed

end
