(* ===== verification/McpSchema.thy ===== *)
theory McpSchema
  imports Json
begin

text \<open>
  The schema projections and path checks of the MCP endpoint
  (\<^verbatim>\<open>services/api/mcp/schema.py\<close>).  The two reference trees come from VyOS's XML cache and
  are arguments; an attribute access on something that is not a dictionary raises, as in the code.
\<close>

section \<open>Nodes of the configuration reference\<close>

definition node_data :: "json \<Rightarrow> string \<Rightarrow> json \<Rightarrow> json res" where
  "node_data d k dflt = bindE (jget d ''node_data'' (JObj [])) (\<lambda>nd. jget nd k dflt)"

definition is_tag :: "json \<Rightarrow> bool res" where
  "is_tag d = bindE (node_data d ''node_type'' JNull) (\<lambda>t. Inr (t = JStr ''tag''))"

definition is_leaf_node :: "json \<Rightarrow> bool res" where
  "is_leaf_node d = bindE (node_data d ''node_type'' JNull) (\<lambda>t. Inr (t = JStr ''leaf''))"

definition is_multi_node :: "json \<Rightarrow> bool res" where
  "is_multi_node d = bindE (node_data d ''multi'' (JBool False)) (\<lambda>t. Inr (truthy t))"

definition is_valueless_node :: "json \<Rightarrow> bool res" where
  "is_valueless_node d = bindE (node_data d ''valueless'' (JBool False)) (\<lambda>t. Inr (truthy t))"

definition get_default_value :: "json \<Rightarrow> json res" where
  "get_default_value d = node_data d ''default_value'' JNull"

definition conf_children :: "json \<Rightarrow> string list" where
  "conf_children d =
     (if ''node_data'' \<in> set (jkeys d) then sort (filter (\<lambda>k. k \<notin> {''node_data'', ''component_version''}) (jkeys d)) else [])"

definition op_children :: "json \<Rightarrow> string list" where
  "op_children d =
     (if ''__node_data'' \<in> set (jkeys d) then sort (filter (\<lambda>k. k \<noteq> ''__node_data'') (jkeys d)) else [])"

text \<open>Descending along a path; below a tag node the next element is its value.\<close>

fun resolve_conf :: "json \<Rightarrow> string list \<Rightarrow> json res" where
  "resolve_conf d [] = Inr d"
| "resolve_conf d (k # ks) =
     (if \<not> truthy d then Inr d
      else bindE (jget d k (JObj [])) (\<lambda>d'. bindE (is_tag d') (\<lambda>t.
        case ks of [] \<Rightarrow> resolve_conf d' [] | _ # r \<Rightarrow> if t then resolve_conf d' r else resolve_conf d' ks)))"

fun resolve_op :: "json \<Rightarrow> string list \<Rightarrow> json res" where
  "resolve_op d [] = Inr d"
| "resolve_op d (k # ks) = (if \<not> is_obj d then Inr (JObj []) else bindE (jget d k (JObj [])) (\<lambda>d'. resolve_op d' ks))"

section \<open>Projection\<close>

definition leaf_schema :: "json \<Rightarrow> json res" where
  "leaf_schema d =
     bindE (is_valueless_node d) (\<lambda>vl. bindE (if vl then Inr False else is_multi_node d) (\<lambda>mu.
     bindE (get_default_value d) (\<lambda>dv.
       let s = (if vl then [(''type'', JStr ''boolean'')]
                else if mu then [(''type'', JStr ''array''), (''items'', JObj [(''type'', JStr ''string'')])]
                else [(''type'', JStr ''string'')])
       in Inr (JObj (if dv \<noteq> JNull then jset ''default'' dv s else s)))))"

definition object_schema :: "(string \<times> json) list \<Rightarrow> json" where
  "object_schema ps = JObj [(''type'', JStr ''object''), (''properties'', JObj ps)]"

definition x_children :: "string list \<Rightarrow> json" where
  "x_children cs = JObj [(''type'', JStr ''object''), (''x-children'', JList (map JStr cs))]"

function project_config_node :: "json \<Rightarrow> int \<Rightarrow> json res" where
  "project_config_node d depth =
     bindE (is_leaf_node d) (\<lambda>leaf. if leaf then leaf_schema d
     else bindE (is_tag d) (\<lambda>tag.
       let kids = (\<lambda>k. seqE (map (\<lambda>c. case map_of (case d of JObj kvs \<Rightarrow> kvs | _ \<Rightarrow> []) c of
               None \<Rightarrow> Inl (KeyError c) | Some v \<Rightarrow> bindE (project_config_node v k) (\<lambda>s. Inr (c, s))) (conf_children d)))
       in if tag then bindE (kids (if depth > 0 then depth - 1 else 0)) (\<lambda>ps.
            Inr (JObj [(''type'', JStr ''object''), (''additionalProperties'', object_schema ps)]))
          else if depth \<le> 0 then Inr (x_children (conf_children d))
          else bindE (kids (depth - 1)) (\<lambda>ps. Inr (object_schema ps))))"
  by pat_completeness auto
termination
  by (relation "measure (\<lambda>(d, _). size d)") (auto dest: map_of_size split: json.splits)

declare project_config_node.simps [simp del]

definition project_config_schema :: "json \<Rightarrow> string list \<Rightarrow> int \<Rightarrow> json res" where
  "project_config_schema ref path depth =
     (if path = [] then project_config_node ref depth
      else bindE (resolve_conf ref path) (\<lambda>d. bindE (has_key d ''node_data'') (\<lambda>ok.
        if ok then project_config_node d depth else Inr (JObj []))))"

section \<open>Operational nodes\<close>

text \<open>The first \<^verbatim>\<open>--range\<close> with whitespace, digits, a hyphen and digits.\<close>

definition range_here :: "string \<Rightarrow> (int \<times> int) option" where
  "range_here s =
     (if \<not> starts_with ''--range'' s then None
      else let r = drop 7 s; t = dropWhile is_space r;
               a = takeWhile is_digit t; u = drop (length a) t; b = takeWhile is_digit (drop 1 u)
           in if t = r \<or> a = [] \<or> take 1 u \<noteq> ''-'' \<or> b = [] then None
              else (case (py_int 10 a, py_int 10 b) of (Inr x, Inr y) \<Rightarrow> Some (x, y) | _ \<Rightarrow> None))"

fun range_search :: "string \<Rightarrow> (int \<times> int) option" where
  "range_search [] = None"
| "range_search (c # cs) = (case range_here (c # cs) of Some r \<Rightarrow> Some r | None \<Rightarrow> range_search cs)"

definition apply_validator :: "json \<Rightarrow> (string \<times> json) list \<Rightarrow> (string \<times> json) list res" where
  "apply_validator v s =
     bindE (jget v ''name'' (JStr [])) (\<lambda>name. bindE (jget v ''argument'' (JStr [])) (\<lambda>arg.
       if name \<noteq> JStr ''numeric'' then Inr s
       else if \<not> truthy arg then Inr s
       else (case arg of
          JStr a \<Rightarrow> (case range_search a of
              Some (x, y) \<Rightarrow> Inr (jset ''maximum'' (JInt y) (jset ''minimum'' (JInt x) s)) | None \<Rightarrow> Inr s)
        | _ \<Rightarrow> Inl TypeError)))"

definition as_list :: "json \<Rightarrow> json list res" where
  "as_list j = (case j of JList xs \<Rightarrow> Inr xs | JObj kvs \<Rightarrow> Inr (map (JStr \<circ> fst) kvs)
     | JStr s \<Rightarrow> Inr (map (\<lambda>c. JStr [c]) s) | _ \<Rightarrow> Inl TypeError)"

definition apply_constraints :: "json \<Rightarrow> (string \<times> json) list \<Rightarrow> (string \<times> json) list res" where
  "apply_constraints c s =
     (if \<not> truthy c then Inr s
      else bindE (jget c ''regexes'' (JList [])) (\<lambda>re.
        bindE (if \<not> truthy re then Inr s
               else bindE (as_list re) (\<lambda>xs. case xs of
                   [x] \<Rightarrow> if is_obj re then Inl (KeyError ''0'') else Inr (jset ''pattern'' x s) | _ \<Rightarrow> Inr (jset ''x-regexes'' re s)))
          (\<lambda>s. bindE (jget c ''validators'' (JList [])) (\<lambda>vs. bindE (as_list vs) (\<lambda>vs. foldE apply_validator vs s)))))"

definition build_op_leaf_schema :: "json \<Rightarrow> json res" where
  "build_op_leaf_schema nd =
     bindE (jget nd ''help_text'' (JStr [])) (\<lambda>help.
       let s = (if truthy help then [(''type'', JStr ''string''), (''description'', help)] else [(''type'', JStr ''string'')]) in
     bindE (jget nd ''constraints'' JNull) (\<lambda>c. bindE (apply_constraints c s) (\<lambda>s.
     bindE (jget nd ''comp_help'' (JObj [])) (\<lambda>ch. bindE (jget ch ''list'' (JList [])) (\<lambda>en.
       Inr (JObj (if truthy en then jset ''enum'' en s else s)))))))"

function project_op_node :: "json \<Rightarrow> int \<Rightarrow> json res" where
  "project_op_node d depth =
     (if \<not> is_obj d \<or> ''__node_data'' \<notin> set (jkeys d) then Inr (JObj [(''type'', JStr ''string'')])
      else bindE (jget d ''__node_data'' (JObj [])) (\<lambda>nd.
        if op_children d = [] then
          (if depth > 0 then build_op_leaf_schema nd
           else Inr (JObj [(''type'', JStr ''string''), (''x-has-dynamic-children'', JBool True)]))
        else if depth \<le> 0 then Inr (x_children (op_children d))
        else bindE (seqE (map (\<lambda>c. case map_of (case d of JObj kvs \<Rightarrow> kvs | _ \<Rightarrow> []) c of
               None \<Rightarrow> Inl (KeyError c) | Some v \<Rightarrow> bindE (project_op_node v (depth - 1)) (\<lambda>s. Inr (c, s))) (op_children d))) (\<lambda>ps.
          bindE (jget nd ''help_text'' (JStr [])) (\<lambda>help. bindE (jget nd ''command'' (JStr [])) (\<lambda>cmd.
            let s = [(''type'', JStr ''object''), (''properties'', JObj ps)];
                s = (if truthy help then jset ''description'' help s else s)
            in Inr (JObj (if truthy cmd then jset ''x-command'' cmd s else s)))))))"
  by pat_completeness auto
termination
  by (relation "measure (\<lambda>(d, _). size d)") (auto dest: map_of_size split: json.splits)

declare project_op_node.simps [simp del]

definition project_op_schema :: "json \<Rightarrow> string list \<Rightarrow> int \<Rightarrow> json res" where
  "project_op_schema ref path depth =
     bindE (resolve_op ref path) (\<lambda>d. if truthy d then project_op_node d depth else Inr (JObj []))"

section \<open>Path checks\<close>

text \<open>\<^verbatim>\<open>d.get(key)\<close> that is missing or \<^verbatim>\<open>None\<close> accepts the rest of the path.\<close>

fun conf_valid :: "json \<Rightarrow> string list \<Rightarrow> bool res" where
  "conf_valid d [] = Inr True"
| "conf_valid d (k # ks) =
     (if \<not> is_obj d \<or> ''node_data'' \<notin> set (jkeys d) then Inr False
      else bindE (is_tag d) (\<lambda>t.
        case ks of
          _ # r \<Rightarrow> if t then conf_valid d r
                   else bindE (jget d k JNull) (\<lambda>d'. if d' = JNull then Inr True else conf_valid d' ks)
        | [] \<Rightarrow> bindE (jget d k JNull) (\<lambda>d'. Inr True)))"

definition config_path_valid :: "json \<Rightarrow> string list \<Rightarrow> bool res" where
  "config_path_valid ref path = conf_valid ref path"

fun op_valid :: "json \<Rightarrow> string list \<Rightarrow> bool res" where
  "op_valid d [] = Inr True"
| "op_valid d (k # ks) =
     (if \<not> is_obj d then Inr False
      else bindE (jget d k JNull) (\<lambda>d'.
        if d' = JNull then Inr True
        else bindE (has_key d' ''__node_data'') (\<lambda>ok. if ok then op_valid d' ks else Inr False)))"

definition op_path_valid :: "json \<Rightarrow> string list \<Rightarrow> bool res" where
  "op_path_valid ref path = op_valid ref path"

section \<open>Well-formed reference trees\<close>

text \<open>Every node is a dictionary with its \<^verbatim>\<open>node_data\<close>, as VyOS's XML cache builds them.\<close>

definition conf_meta :: "string list" where "conf_meta = [''node_data'', ''component_version'']"

function wf_conf :: "json \<Rightarrow> bool" where
  "wf_conf (JObj kvs) =
     ((case map_of kvs ''node_data'' of Some (JObj _) \<Rightarrow> True | _ \<Rightarrow> False) \<and>
      (\<forall>k \<in> set (map fst kvs). k \<notin> set conf_meta \<longrightarrow> (case map_of kvs k of Some v \<Rightarrow> wf_conf v | None \<Rightarrow> True)))"
| "wf_conf JNull = False" | "wf_conf (JBool b) = False" | "wf_conf (JInt i) = False" | "wf_conf (JStr s) = False"
| "wf_conf (JList xs) = False"
  by pat_completeness auto
termination
  by (relation "measure size") (use map_of_size in \<open>force+\<close>)

definition plain :: "string list \<Rightarrow> bool" where "plain path = list_all (\<lambda>k. k \<notin> set conf_meta) path"

lemma wf_confE:
  assumes "wf_conf d"
  obtains kvs nd where "d = JObj kvs" "map_of kvs ''node_data'' = Some (JObj nd)"
    "\<And>k v. k \<notin> set conf_meta \<Longrightarrow> map_of kvs k = Some v \<Longrightarrow> wf_conf v"
proof (cases d)
  case (JObj kvs)
  with assms obtain nd where "map_of kvs ''node_data'' = Some (JObj nd)" by (auto split: option.splits json.splits)
  moreover have "wf_conf v" if "k \<notin> set conf_meta" "map_of kvs k = Some v" for k v
  proof -
    have "k \<in> set (map fst kvs)" using map_of_SomeD [OF that(2)] by (force simp: image_iff)
    then show ?thesis using assms JObj that by force
  qed
  ultimately show thesis using JObj that by blast
qed (use assms in auto)

lemma wf_not_null: "wf_conf d \<Longrightarrow> d \<noteq> JNull \<and> is_obj d \<and> ''node_data'' \<in> set (jkeys d)"
  by (elim wf_confE) (auto simp: is_obj_def jkeys_def dest: map_of_SomeD intro: rev_image_eqI)

lemma wf_node_data: "wf_conf d \<Longrightarrow> \<exists>v. node_data d k dflt = Inr v"
  by (elim wf_confE) (simp add: node_data_def)

lemma wf_queries:
  assumes "wf_conf d"
  shows "\<exists>b. is_tag d = Inr b" "\<exists>b. is_leaf_node d = Inr b" "\<exists>b. is_multi_node d = Inr b"
    "\<exists>b. is_valueless_node d = Inr b" "\<exists>v. get_default_value d = Inr v"
  using wf_node_data [OF assms]
  by (auto simp: is_tag_def is_leaf_node_def is_multi_node_def is_valueless_node_def get_default_value_def) (metis bindE_Inr)+

lemma wf_child: "wf_conf d \<Longrightarrow> k \<notin> set conf_meta \<Longrightarrow> \<exists>d'. jget d k dflt = Inr d' \<and> (d' = dflt \<or> wf_conf d')"
  by (elim wf_confE) (auto split: option.split)

lemma conf_valid_wf: "wf_conf d \<Longrightarrow> plain path \<Longrightarrow> conf_valid d path = Inr True"
proof (induction "length path" arbitrary: d path rule: less_induct)
  case less
  show ?case
  proof (cases path)
    case (Cons k ks)
    obtain t where t: "is_tag d = Inr t" using wf_queries(1) [OF less.prems(1)] by blast
    have pl: "k \<notin> set conf_meta" "plain ks" using less.prems(2) Cons by (simp_all add: plain_def)
    then obtain d' where d': "jget d k JNull = Inr d'" "d' = JNull \<or> wf_conf d'"
      using wf_child [OF less.prems(1), of k JNull] by blast
    have sub: "conf_valid e p = Inr True" if "length p < length path" "wf_conf e" "plain p" for e p
      using less.hyps that by blast
    note top = wf_not_null [OF less.prems(1)]
    show ?thesis
    proof (cases ks)
      case Nil
      then show ?thesis using Cons t d' top by simp
    next
      case (Cons a r)
      have "conf_valid d' (a # r) = Inr True" if "d' \<noteq> JNull"
        using sub [of "a # r" d'] d'(2) pl(2) that Cons \<open>path = k # ks\<close> by simp
      moreover have "conf_valid d r = Inr True"
        using sub [of r d] less.prems(1) pl(2) Cons \<open>path = k # ks\<close> by (simp add: plain_def)
      ultimately show ?thesis using t d'(1) top Cons \<open>path = k # ks\<close> by (subst \<open>path = k # ks\<close>, subst conf_valid.simps) simp
    qed
  qed simp
qed

lemma sorted_children: "set (conf_children (JObj kvs)) \<subseteq> set (map fst kvs) - set conf_meta"
  by (auto simp: conf_children_def jkeys_def conf_meta_def)

lemma seqE_total: "(\<And>x. x \<in> set xs \<Longrightarrow> \<exists>y. f x = Inr y) \<Longrightarrow> \<exists>ys. seqE (map f xs) = Inr ys"
  by (induction xs) force+

lemma leaf_schema_total: "wf_conf d \<Longrightarrow> \<exists>kvs. leaf_schema d = Inr (JObj kvs) \<and> map_of kvs ''type'' \<noteq> None"
  using wf_queries(3-5) [of d] by (auto simp: leaf_schema_def Let_def map_of_jset)

lemma project_total:
  "wf_conf d \<Longrightarrow> \<exists>kvs. project_config_node d depth = Inr (JObj kvs) \<and> map_of kvs ''type'' \<noteq> None"
proof (induction "size d" arbitrary: d depth rule: less_induct)
  case less
  obtain leaf where leaf: "is_leaf_node d = Inr leaf" using wf_queries(2) [OF less.prems] by blast
  obtain tag where tag: "is_tag d = Inr tag" using wf_queries(1) [OF less.prems] by blast
  obtain kvs nd where d: "d = JObj kvs" "map_of kvs ''node_data'' = Some (JObj nd)" "\<And>k v. k \<notin> set conf_meta \<Longrightarrow> map_of kvs k = Some v \<Longrightarrow> wf_conf v"
    using less.prems by (rule wf_confE) blast
  let ?kid = "\<lambda>k c. case map_of kvs c of None \<Rightarrow> Inl (KeyError c)
    | Some v \<Rightarrow> bindE (project_config_node v k) (\<lambda>s. Inr (c, s))"
  have kid: "\<exists>y. ?kid k c = Inr y" if "c \<in> set (conf_children d)" for c k
  proof -
    have c: "c \<in> set (map fst kvs)" "c \<notin> set conf_meta" using that sorted_children d by blast+
    then obtain v where v: "map_of kvs c = Some v" by (cases "map_of kvs c") (auto simp: map_of_eq_None_iff)
    then obtain ps where "project_config_node v k = Inr (JObj ps)"
      using less.hyps [of v k] d(3) c(2) map_of_size [OF v] d(1) by auto
    with v show ?thesis by simp
  qed
  have kids: "\<exists>ps. seqE (map (?kid k) (conf_children d)) = Inr ps" for k
    by (rule seqE_total) (rule kid)
  obtain ls where "leaf_schema d = Inr (JObj ls)" "map_of ls ''type'' \<noteq> None" using leaf_schema_total [OF less.prems] by blast
  moreover obtain p1 where "seqE (map (?kid (if depth > 0 then depth - 1 else 0)) (conf_children d)) = Inr p1" using kids by blast
  moreover obtain p2 where "seqE (map (?kid (depth - 1)) (conf_children d)) = Inr p2" using kids by blast
  ultimately show ?case using leaf tag d(1)
    by (subst project_config_node.simps) (simp add: Let_def object_schema_def x_children_def)
qed

lemma resolve_wf:
  "wf_conf d \<Longrightarrow> plain path \<Longrightarrow> \<exists>d'. resolve_conf d path = Inr d' \<and> (d' = JObj [] \<or> wf_conf d')"
proof (induction "length path" arbitrary: d path rule: less_induct)
  case less
  show ?case
  proof (cases path)
    case (Cons k ks)
    have pl: "k \<notin> set conf_meta" "plain ks" using less.prems(2) Cons by (simp_all add: plain_def)
    then obtain d' where d': "jget d k (JObj []) = Inr d'" "d' = JObj [] \<or> wf_conf d'"
      using wf_child [OF less.prems(1), of k "JObj []"] by blast
    have empty: "resolve_conf (JObj []) p = Inr (JObj [])" for p by (cases p) simp_all
    have tag: "\<exists>t. is_tag d' = Inr t" using d'(2) wf_queries(1) by (auto simp: is_tag_def node_data_def)
    have sub: "\<exists>e. resolve_conf d' p = Inr e \<and> (e = JObj [] \<or> wf_conf e)" if "length p < length path" "plain p" for p
      using less.hyps [OF that(1)] d'(2) that(2) empty by blast
    have "plain r" if "ks = a # r" for a r using pl(2) that by (simp add: plain_def)
    then show ?thesis
      using less.prems(1) Cons d'(1) tag sub [of ks] sub [of "tl ks"] pl(2) sub [of "[]"]
      by (cases ks) (auto simp: plain_def split: if_splits)
  qed (use less.prems in simp)
qed

text \<open>On a well-formed reference the path checks never refuse anything: the configuration check
  accepts every path of ordinary names, existing or not, so \<open>modify_configuration\<close>'s "Invalid config
  path" is unreachable.\<close>
lemma config_path_never_refused:
  assumes "wf_conf ref" "plain path"
  shows "config_path_valid ref path = Inr True"
  using conf_valid_wf [OF assms] by (simp add: config_path_valid_def)

definition sample_ref :: json where
  "sample_ref = JObj [(''node_data'', JObj []),
     (''system'', JObj [(''node_data'', JObj [(''node_type'', JStr ''node'')]),
       (''host-name'', JObj [(''node_data'', JObj [(''node_type'', JStr ''leaf''), (''default_value'', JStr ''vyos'')])]),
       (''login'', JObj [(''node_data'', JObj [(''node_type'', JStr ''tag'')])])])]"

lemma sample_wf: "wf_conf sample_ref"
  by (simp add: sample_ref_def conf_meta_def)

lemma config_path_never_refused_witness:
  "config_path_valid sample_ref [''no'', ''such'', ''node''] = Inr True \<and>
   resolve_conf sample_ref [''no'', ''such'', ''node''] = Inr (JObj [])"
  using config_path_never_refused [OF sample_wf, of "[''no'', ''such'', ''node'']"]
  by (simp add: plain_def conf_meta_def sample_ref_def is_tag_def node_data_def)



end
