(* ===== verification/McpResources.thy ===== *)
theory McpResources
  imports McpTools McpSchema
begin

text \<open>
  The resources of the MCP endpoint (\<^verbatim>\<open>services/api/mcp/resources.py\<close>): the path
  sanitiser, percent-decoding, the five readers and the dispatch.  Text is a list of bytes, so a
  percent escape above 127 stays a byte of the UTF-8 encoding.
\<close>

section \<open>Paths\<close>

definition illegal_chars :: string where
  "illegal_chars = '';&|`$(){}[]<>'' @ [char_of (92 :: nat), char_of (39 :: nat), char_of (34 :: nat)]"

definition illegal_path :: "string \<Rightarrow> bool" where
  "illegal_path s = (contains ''..'' s \<or> (\<exists>c \<in> set s. c \<in> set illegal_chars))"

definition sanitize_path :: "string \<Rightarrow> string res" where
  "sanitize_path s = (if illegal_path s then Inl (ValueError ''Illegal characters in resource path'') else Inr s)"

text \<open>\<^verbatim>\<open>urllib.parse.unquote\<close>; strings are their UTF-8 bytes, and a sequence that is not UTF-8 (which the
  library replaces by a marker) is kept as it is.\<close>

fun unquote :: "string \<Rightarrow> string" where
  "unquote (c # a # b # r) =
     (if c = CHR ''%'' \<and> is_hex a \<and> is_hex b then char_of (16 * hexv a + hexv b) # unquote r else c # unquote (a # b # r))"
| "unquote s = s"

definition strip_slashes :: "string \<Rightarrow> string" where
  "strip_slashes s = rev (dropWhile (\<lambda>c. c = CHR ''/'') (rev (dropWhile (\<lambda>c. c = CHR ''/'') s)))"

definition split_path :: "string \<Rightarrow> string list" where
  "split_path s = (if s = [] then [] else map unquote (filter (\<lambda>x. x \<noteq> []) (split_on CHR ''/'' (strip_slashes s))))"

record uri =
  u_scheme :: string
  u_host :: string
  u_path :: string

definition parse_uri :: "uri \<Rightarrow> (string \<times> string \<times> string list) res" where
  "parse_uri u = bindE (sanitize_path (u_path u)) (\<lambda>p. Inr (u_scheme u, u_host u, split_path p))"

section \<open>Readers\<close>

datatype content = Text string | JsonOf json

definition need_session :: "('h, 't) vyos \<Rightarrow> ('h session \<Rightarrow> ('h, 'a) io) \<Rightarrow> ('h, 'a) io" where
  "need_session v f = (case v_session v of None \<Rightarrow> raiseIO AttributeError | Some s \<Rightarrow> f s)"

definition read_config_running :: "('h, 't) vyos \<Rightarrow> string \<Rightarrow> ('h, content) io" where
  "read_config_running v path_str = need_session v (\<lambda>_.
     bindIO (v_tree v) (\<lambda>ct.
       let ct = t_strip v ct; path = split_path path_str in
       retIO (Text (if path = [] then t_json v ct
                    else if \<not> t_exists v ct path then ''{}'' else t_json v (t_subtree v ct path)))))"

definition read_config_effective :: "('h, 't) vyos \<Rightarrow> (string list \<Rightarrow> ('h, bool) io) \<Rightarrow> string \<Rightarrow> ('h, content) io" where
  "read_config_effective v effective path_str = need_session v (\<lambda>_.
     bindIO (effective (split_path path_str)) (\<lambda>b. retIO (JsonOf (JObj [(''effective'', JBool b)]))))"

definition read_schema_config :: "json \<Rightarrow> string \<Rightarrow> ('h, content) io" where
  "read_schema_config ref path_str = bindIO (liftIO (project_config_schema ref (split_path path_str) 1)) (\<lambda>j. retIO (JsonOf j))"

definition read_schema_op :: "json \<Rightarrow> string \<Rightarrow> ('h, content) io" where
  "read_schema_op ref path_str = bindIO (liftIO (project_op_schema ref (split_path path_str) 1)) (\<lambda>j. retIO (JsonOf j))"

definition read_state_operational :: "('h, 't) vyos \<Rightarrow> string \<Rightarrow> ('h, content) io" where
  "read_state_operational v path_str =
     (let path = split_path path_str in
      if path = [] then value_error ''operational state requires a command path''
      else need_session v (\<lambda>s. bindIO (session_error (ss_show s path)) (\<lambda>r. retIO (Text r))))"

section \<open>Listing and dispatch\<close>

definition templates :: "string list" where
  "templates = [''vyos-config://running/{path}'', ''vyos-config://effective/{path}'', ''vyos-schema://config/{path}'',
     ''vyos-schema://op/{path}'', ''vyos-state://operational/{path}'']"

definition filter_templates :: "bool \<Rightarrow> string list" where
  "filter_templates introspection =
     (if introspection then templates else filter (\<lambda>t. \<not> startswith t ''vyos-schema://'') templates)"

record ('h, 't) env =
  n_vyos :: "('h, 't) vyos"
  n_effective :: "string list \<Rightarrow> ('h, bool) io"
  n_conf_ref :: json
  n_op_ref :: json

definition resource_handlers :: "('h, 't) env \<Rightarrow> (string \<times> (string \<times> (string \<Rightarrow> ('h, content) io)) list) list" where
  "resource_handlers n =
     [(''vyos-config'', [(''running'', read_config_running (n_vyos n)),
                         (''effective'', read_config_effective (n_vyos n) (n_effective n))]),
      (''vyos-schema'', [(''config'', read_schema_config (n_conf_ref n)), (''op'', read_schema_op (n_op_ref n))]),
      (''vyos-state'', [(''operational'', read_state_operational (n_vyos n))])]"

definition handle_read_resource :: "('h, 't) env \<Rightarrow> bool \<Rightarrow> uri \<Rightarrow> ('h, content) io" where
  "handle_read_resource n introspection u =
     bindIO (liftIO (parse_uri u)) (\<lambda>(scheme, section, path).
       if scheme = ''vyos-schema'' \<and> \<not> introspection then value_error ''Schema introspection is disabled on this session''
       else case map_of (resource_handlers n) scheme of
         None \<Rightarrow> value_error ''Unknown resource scheme''
       | Some hs \<Rightarrow> (case map_of hs section of
           None \<Rightarrow> value_error ''Unknown resource section''
         | Some f \<Rightarrow> f (join ''/'' path)))"

section \<open>The sanitiser looks at the encoded text\<close>

definition quote_char :: "char \<Rightarrow> string" where
  "quote_char c = [CHR ''%'', hexu (of_char c div 16), hexu (of_char c mod 16)]"

definition quote_all :: "string \<Rightarrow> string" where "quote_all s = concat (map quote_char s)"

lemma char_bound: "(of_char c :: nat) < 256"
  by (simp add: of_char_def)

lemma quote_hex:
  "is_hex (hexu (of_char c div 16))" "is_hex (hexu (of_char c mod 16))"
  "hexv (hexu (of_char c div 16)) = of_char c div 16" "hexv (hexu (of_char c mod 16)) = of_char c mod 16"
  using hexu_hex [of "of_char c div 16"] hexu_hex [of "of_char c mod 16"] char_bound [of c]
  by (simp_all add: less_mult_imp_div_less)

lemma unquote_quote: "unquote (quote_char c @ r) = c # unquote r"
  by (simp add: quote_char_def quote_hex)

lemma unquote_quote_all: "unquote (quote_all s) = s"
  by (induction s) (simp_all add: quote_all_def unquote_quote)

lemma quote_chars: "c \<in> set (quote_all s) \<Longrightarrow> c = CHR ''%'' \<or> is_hex c"
  by (induction s) (auto simp: quote_all_def quote_char_def quote_hex)

lemma quote_safe: "c \<in> set (quote_all s) \<Longrightarrow> c \<noteq> CHR ''/'' \<and> c \<noteq> CHR ''.'' \<and> c \<notin> set illegal_chars"
proof -
  assume "c \<in> set (quote_all s)"
  then have "c = CHR ''%'' \<or> is_hex c" by (rule quote_chars)
  moreover have "\<not> is_hex d" if "d \<in> set illegal_chars \<or> d = CHR ''/'' \<or> d = CHR ''.''" for d
    using that by (auto simp: illegal_chars_def is_hex_code Let_def)
  moreover have "CHR ''%'' \<notin> set illegal_chars" by (simp add: illegal_chars_def) code_simp
  ultimately show ?thesis by auto
qed

lemma strip_slashes_id: "CHR ''/'' \<notin> set s \<Longrightarrow> strip_slashes s = s"
proof -
  assume a: "CHR ''/'' \<notin> set s"
  then have "dropWhile (\<lambda>c. c = CHR ''/'') t = t" if "set t = set s" for t using that by (cases t) auto
  then show ?thesis by (simp add: strip_slashes_def)
qed

lemma split_quoted: "s \<noteq> [] \<Longrightarrow> split_path (quote_all s) = [s]"
proof -
  assume s: "s \<noteq> []"
  then have "quote_all s \<noteq> []" by (cases s) (auto simp: quote_all_def quote_char_def)
  moreover have "CHR ''/'' \<notin> set (quote_all s)" using quote_safe by blast
  ultimately show ?thesis by (simp add: split_path_def strip_slashes_id split_on_none unquote_quote_all)
qed

lemma contains_sub: "contains p s \<Longrightarrow> set p \<subseteq> set s"
proof -
  assume "contains p s"
  then obtain j where "find_aux p s 0 = Some j" by (auto simp: contains_def find_from_def)
  then have "take (length p) (drop j s) = p" using find_aux_Some by (fastforce simp: starts_with_iff)
  then show ?thesis by (metis in_set_dropD in_set_takeD subsetI)
qed

lemma strip_slashes_lead: "strip_slashes (CHR ''/'' # s) = strip_slashes s"
  by (simp add: strip_slashes_def)

lemma quote_legal_lead: "sanitize_path (CHR ''/'' # quote_all s) = Inr (CHR ''/'' # quote_all s)"
proof -
  have "\<not> contains ''..'' (CHR ''/'' # quote_all s)"
    using contains_sub [of "''..''" "CHR ''/'' # quote_all s"] quote_safe [of "CHR ''.''" s] by auto
  moreover have "CHR ''/'' \<notin> set illegal_chars" by (simp add: illegal_chars_def) code_simp
  ultimately show ?thesis using quote_safe by (auto simp: sanitize_path_def illegal_path_def)
qed

text \<open>The path sanitiser restricts nothing, because it looks at the text before percent-decoding and
  the readers decode a second time: for every non-empty name, whatever ASCII characters it holds, there is
  an accepted URI path that makes each reader look that name up.\<close>
lemma sanitizer_bypassed:
  assumes "s \<noteq> []" "\<forall>c \<in> set s. of_char c < (128 :: nat)"
  shows "\<exists>p. parse_uri \<lparr> u_scheme = a, u_host = b, u_path = CHR ''/'' # p \<rparr> = Inr (a, b, [quote_all s]) \<and>
    split_path (join ''/'' [quote_all s]) = [s] \<and>
    handle_read_resource n True \<lparr> u_scheme = ''vyos-config'', u_host = ''running'', u_path = CHR ''/'' # p \<rparr> h =
      read_config_running (n_vyos n) (quote_all s) h"
proof -
  have q: "quote_all s \<noteq> []" using assms by (cases s) (auto simp: quote_all_def quote_char_def)
  have l: "split_path (CHR ''/'' # quote_all (quote_all s)) = [quote_all s]"
    using split_quoted [OF q] by (auto simp: split_path_def strip_slashes_lead split: if_splits)
  have p: "parse_uri \<lparr> u_scheme = x, u_host = y, u_path = CHR ''/'' # quote_all (quote_all s) \<rparr> = Inr (x, y, [quote_all s])" for x y
    by (simp add: parse_uri_def quote_legal_lead l)
  show ?thesis
    by (intro exI [of _ "quote_all (quote_all s)"])
      (simp add: p split_quoted assms join_def handle_read_resource_def resource_handlers_def bindIO_def liftIO_def)
qed

definition sample_env :: "(string list list \<times> string list list, string) env" where
  "sample_env = \<lparr> n_vyos = quiet_vyos, n_effective = (\<lambda>_. retIO True), n_conf_ref = sample_ref, n_op_ref = JObj [] \<rparr>"

lemma sanitizer_bypassed_witness:
  "\<exists>p. parse_uri \<lparr> u_scheme = ''vyos-config'', u_host = ''running'', u_path = CHR ''/'' # p \<rparr> =
      Inr (''vyos-config'', ''running'', [quote_all ''../;x'']) \<and> split_path (join ''/'' [quote_all ''../;x'']) = [''../;x''] \<and>
    illegal_path ''../;x''"
  using sanitizer_bypassed [of "''../;x''" "''vyos-config''" "''running''" sample_env "([], [])"]
  by (auto simp: illegal_path_def illegal_chars_def)

section \<open>Secrets\<close>

lemma render_tree [simp]: "render_config (v\<lparr>v_tree := m\<rparr>) = render_config v"
  by (simp add: fun_eq_iff render_config_def split: list.split)


definition masked_vyos :: "(string list list \<times> string list list, string) vyos" where
  "masked_vyos = quiet_vyos\<lparr>t_strip := (\<lambda>_. ''<REDACTED>''),
     v_session := Some (list_session\<lparr>ss_show := (\<lambda>_. retIO ''secret'')\<rparr>)\<rparr>"


end
