(* ===== verification/McpAuth.thy ===== *)
theory McpAuth
  imports McpTools Json
begin

text \<open>
  Who reaches the MCP endpoint and what it may show: authentication
  (\<^verbatim>\<open>services/api/mcp/auth.py\<close>), the mount and its session manager
  (\<^verbatim>\<open>routers.py\<close>), the redaction policy (\<^verbatim>\<open>redaction.py\<close>) and the local
  entry point (\<^verbatim>\<open>board/scripts/mcp-stdio-endpoint.py\<close>).  Token verification, the web
  framework and VyOS's own redactor are parameters.
\<close>

section \<open>Credentials\<close>

record api_key =
  k_id :: string
  k_key :: string

record request =
  q_authorization :: "string option"
  q_apikey_header :: "string option"
  q_apikey_query :: "string option"
  q_session :: "string option"

datatype identity = User string | Key string

fun check_auth :: "api_key list \<Rightarrow> string \<Rightarrow> string option" where
  "check_auth [] key = None"
| "check_auth (k # ks) key = (if k_key k = key then Some (k_id k) else check_auth ks key)"

definition set_text :: "string option \<Rightarrow> bool" where "set_text t = (t \<noteq> None \<and> t \<noteq> Some [])"

definition bearer :: "request \<Rightarrow> bool" where
  "bearer q = (case q_authorization q of Some h \<Rightarrow> startswith (lower h) ''bearer '' | None \<Rightarrow> False)"

definition api_key_of :: "request \<Rightarrow> string option" where
  "api_key_of q = (if set_text (q_apikey_header q) then q_apikey_header q else q_apikey_query q)"

definition invalid_credentials :: py_error where
  "invalid_credentials = HTTPException 401 ''Invalid or missing authentication credentials''"

definition key_auth :: "api_key list \<Rightarrow> request \<Rightarrow> identity res" where
  "key_auth keys q =
     (case api_key_of q of
        None \<Rightarrow> Inl invalid_credentials
      | Some k \<Rightarrow>
          if k = [] then Inl invalid_credentials
          else case check_auth keys k of
            Some i \<Rightarrow> if i \<noteq> [] then Inr (Key i) else Inl invalid_credentials
          | None \<Rightarrow> Inl invalid_credentials)"

text \<open>
  \<open>verify\<close> is \<^verbatim>\<open>get_user_context\<close>: user and error.  The 401 raised for an error is
  itself caught by \<^verbatim>\<open>except Exception\<close> and raised again with its text.
\<close>

definition mcp_auth :: "(request \<Rightarrow> (string option \<times> string option) res) \<Rightarrow> (py_error \<Rightarrow> string) \<Rightarrow> api_key list \<Rightarrow> request \<Rightarrow> identity res" where
  "mcp_auth verify exc_text keys q =
     (if bearer q then
        (case verify q of
           Inl e \<Rightarrow> Inl (HTTPException 401 (exc_text e))
         | Inr (user, err) \<Rightarrow>
             if set_text err then Inl (HTTPException 401 (exc_text (HTTPException 401 (the err))))
             else if set_text user then Inr (User (the user)) else key_auth keys q)
      else key_auth keys q)"

section \<open>The mount\<close>

datatype outcome = Forwarded | Refused int string | Crashed

definition auth_check :: "(request \<Rightarrow> identity res) \<Rightarrow> string list option \<Rightarrow> request \<Rightarrow> (int \<times> string) option res" where
  "auth_check auth instances q =
     (if set_text (q_session q) \<and> (case instances of Some ids \<Rightarrow> the (q_session q) \<in> set ids | None \<Rightarrow> False) then Inr None
      else case auth q of
        Inr _ \<Rightarrow> Inr None
      | Inl (HTTPException code d) \<Rightarrow> Inr (Some (code, d))
      | Inl e \<Rightarrow> Inl e)"

text \<open>\<open>instances\<close>: the session ids of the manager, \<^verbatim>\<open>None\<close> when there is no manager; then forwarding
  fails, as it does when the authentication ends with an exception that is not an HTTP status.\<close>

definition mcp_entry :: "(request \<Rightarrow> identity res) \<Rightarrow> string list option \<Rightarrow> string \<Rightarrow> request \<Rightarrow> outcome" where
  "mcp_entry auth instances scope_type q =
     (let forward = (if instances = None then Crashed else Forwarded) in
      if scope_type \<noteq> ''http'' then forward
      else case auth_check auth instances q of
        Inr None \<Rightarrow> forward | Inr (Some (code, d)) \<Rightarrow> Refused code d | Inl _ \<Rightarrow> Crashed)"

lemma check_auth_Some: "check_auth keys key = Some i \<Longrightarrow> \<exists>k \<in> set keys. k_key k = key \<and> k_id k = i"
  by (induction keys) (auto split: if_splits)

lemma key_auth_cases: "key_auth keys q = Inl invalid_credentials \<or> (\<exists>i. key_auth keys q = Inr (Key i) \<and> i \<noteq> [] \<and>
    (\<exists>k \<in> set keys. k_id k = i \<and> k_key k \<noteq> [] \<and> api_key_of q = Some (k_key k)))"
  by (auto simp: key_auth_def dest: check_auth_Some split: option.split)

lemma mcp_auth_cases:
  "case mcp_auth verify exc_text keys q of
     Inr (User u) \<Rightarrow> bearer q \<and> u \<noteq> [] \<and> (\<exists>err. verify q = Inr (Some u, err) \<and> \<not> set_text err)
   | Inr (Key i) \<Rightarrow> (\<exists>k \<in> set keys. k_id k = i \<and> k_key k \<noteq> [] \<and> api_key_of q = Some (k_key k))
   | Inl e \<Rightarrow> (\<exists>d. e = HTTPException 401 d)"
  using key_auth_cases [of keys q]
  by (auto simp: mcp_auth_def set_text_def invalid_credentials_def split: sum.splits option.splits)

text \<open>C6. Nobody gets through without credentials: an HTTP request is forwarded only with the id of a
  live session, with a bearer token whose verification returned a user and no error, or with a
  non-empty API key of the configuration; every other one is answered 401.\<close>
theorem entry_authenticated:
  "case mcp_entry (mcp_auth verify exc_text keys) (Some ids) ''http'' q of
     Forwarded \<Rightarrow> (\<exists>sid \<in> set ids. q_session q = Some sid \<and> sid \<noteq> []) \<or>
       (bearer q \<and> (\<exists>u err. u \<noteq> [] \<and> verify q = Inr (Some u, err) \<and> \<not> set_text err)) \<or>
       (\<exists>k \<in> set keys. k_key k \<noteq> [] \<and> api_key_of q = Some (k_key k))
   | Refused code d \<Rightarrow> code = 401
   | Crashed \<Rightarrow> False"
  using mcp_auth_cases [where verify = verify and exc_text = exc_text and keys = keys and q = q]
  by (auto simp: mcp_entry_def auth_check_def set_text_def Let_def split: sum.splits identity.splits)

section \<open>The session manager's life\<close>

record router =
  rt_routes :: "string list"
  rt_manager :: "nat option"
  rt_registered :: bool
  rt_startup :: nat
  rt_running :: "nat list"
  rt_up :: bool
  rt_next :: nat

definition router0 :: router where
  "router0 = \<lparr> rt_routes = [], rt_manager = None, rt_registered = False, rt_startup = 0, rt_running = [], rt_up = False, rt_next = 0 \<rparr>"

text \<open>\<open>norm\<close> is what the framework keeps as a mount's path.\<close>

definition mcp_init :: "(string \<Rightarrow> string) \<Rightarrow> router \<Rightarrow> router" where
  "mcp_init norm s =
     (if ''/mcp/'' \<in> set (rt_routes s) then s
      else s\<lparr> rt_manager := Some (rt_next s), rt_next := rt_next s + 1,
              rt_startup := (if rt_registered s then rt_startup s else rt_startup s + 1), rt_registered := True,
              rt_routes := rt_routes s @ [norm ''/mcp/''] \<rparr>)"

definition mcp_clear :: "router \<Rightarrow> router" where
  "mcp_clear s = s\<lparr> rt_routes := filter (\<lambda>r. \<not> startswith r ''/mcp'') (rt_routes s), rt_manager := None \<rparr>"

definition start_session_manager :: "router \<Rightarrow> router" where
  "start_session_manager s = (case rt_manager s of None \<Rightarrow> s | Some i \<Rightarrow> s\<lparr> rt_running := rt_running s @ [i] \<rparr>)"

definition stop_session_manager :: "router \<Rightarrow> router" where "stop_session_manager s = s\<lparr> rt_manager := None \<rparr>"

inductive router_step :: "(string \<Rightarrow> string) \<Rightarrow> router \<Rightarrow> router \<Rightarrow> bool" for norm where
  init: "router_step norm s (mcp_init norm s)"
| clear: "router_step norm s (mcp_clear s)"
| startup: "\<not> rt_up s \<Longrightarrow> router_step norm s ((start_session_manager ^^ rt_startup s) (s\<lparr> rt_up := True \<rparr>))"
| shutdown: "rt_up s \<Longrightarrow> router_step norm s ((stop_session_manager ^^ rt_startup s) (s\<lparr> rt_up := False \<rparr>))"

inductive router_reachable :: "(string \<Rightarrow> string) \<Rightarrow> router \<Rightarrow> bool" for norm where
  start: "router_reachable norm router0"
| step: "router_reachable norm s \<Longrightarrow> router_step norm s t \<Longrightarrow> router_reachable norm t"

inductive_cases router_stepE: "router_step norm s t"

definition router_inv :: "router \<Rightarrow> bool" where
  "router_inv s =
     (rt_startup s = (if rt_registered s then 1 else 0) \<and>
      (rt_manager s \<noteq> None \<longrightarrow> rt_registered s \<and> (\<exists>r \<in> set (rt_routes s). startswith r ''/mcp'')) \<and>
      (\<forall>i. rt_manager s = Some i \<longrightarrow> i < rt_next s))"

lemma router_step_inv:
  assumes "router_step norm s t" "router_inv s" "startswith (norm ''/mcp/'') ''/mcp''"
  shows "router_inv t"
  using assms(1)
proof cases
  case init
  then show ?thesis using assms(2,3) by (auto simp: mcp_init_def router_inv_def)
next
  case clear
  then show ?thesis using assms(2) by (auto simp: mcp_clear_def router_inv_def)
next
  case startup
  then show ?thesis using assms(2) by (auto simp: start_session_manager_def router_inv_def split: option.splits)
next
  case shutdown
  then show ?thesis using assms(2) by (auto simp: stop_session_manager_def router_inv_def)
qed

lemma router_reachable_inv:
  assumes "router_reachable norm s" "startswith (norm ''/mcp/'') ''/mcp''"
  shows "router_inv s"
  using assms(1)
proof induction
  case start
  show ?case by (simp add: router0_def router_inv_def)
next
  case (step s t)
  then show ?case using router_step_inv assms(2) by blast
qed

text \<open>In every reachable state at most one start-up handler is registered and a manager exists only
  behind a mount, so no request finds a mounted endpoint without one through \<open>mcp_init\<close> alone.  But
  an endpoint initialised after the application's start-up has a manager that was never started, and
  when the framework stores the mount as \<^verbatim>\<open>/mcp\<close> (so that the guard's \<^verbatim>\<open>/mcp/\<close> is
  never found) a second \<open>mcp_init\<close> mounts it twice and replaces the running manager.\<close>
lemma router_lifecycle:
  assumes "router_reachable norm s" "startswith (norm ''/mcp/'') ''/mcp''"
  shows "(rt_startup s \<le> 1 \<and> (rt_manager s \<noteq> None \<longrightarrow> (\<exists>r \<in> set (rt_routes s). startswith r ''/mcp''))) \<and>
    (\<exists>t i. router_reachable norm t \<and> rt_up t \<and> rt_manager t = Some i \<and> i \<notin> set (rt_running t)) \<and>
    (norm ''/mcp/'' = ''/mcp'' \<longrightarrow> (\<exists>t. router_reachable norm t \<and> rt_routes t = [''/mcp'', ''/mcp''] \<and>
       rt_running t = [0] \<and> rt_manager t = Some 1))"
proof (intro conjI impI)
  have "router_inv s" using assms by (rule router_reachable_inv)
  then show "rt_startup s \<le> 1" by (auto simp: router_inv_def)
  show "\<exists>r \<in> set (rt_routes s). startswith r ''/mcp''" if "rt_manager s \<noteq> None"
    using that \<open>router_inv s\<close> by (auto simp: router_inv_def)
  let ?up = "\<lambda>s. (start_session_manager ^^ rt_startup s) (s\<lparr> rt_up := True \<rparr>)"
  note step = router_reachable.step [OF _ router_step.init, of norm] router_reachable.step [OF _ router_step.startup, of norm]
  have r1: "router_reachable norm (mcp_init norm (?up router0))"
    by (intro step router_reachable.start) (simp add: router0_def)
  show "\<exists>t i. router_reachable norm t \<and> rt_up t \<and> rt_manager t = Some i \<and> i \<notin> set (rt_running t)"
    using r1 by (intro exI [of _ "mcp_init norm (?up router0)"] exI [of _ 0]) (simp add: mcp_init_def router0_def)
  assume n: "norm ''/mcp/'' = ''/mcp''"
  have "router_reachable norm (mcp_init norm (?up (mcp_init norm router0)))"
    by (intro step router_reachable.start) (simp add: router0_def mcp_init_def)
  then show "\<exists>t. router_reachable norm t \<and> rt_routes t = [''/mcp'', ''/mcp''] \<and> rt_running t = [0] \<and> rt_manager t = Some 1"
    using n by (intro exI [of _ "mcp_init norm (?up (mcp_init norm router0))"])
      (simp add: mcp_init_def router0_def start_session_manager_def)
qed

lemma router_lifecycle_witness:
  "\<exists>t. router_reachable (\<lambda>_. ''/mcp'') t \<and> rt_routes t = [''/mcp'', ''/mcp''] \<and> rt_running t = [0] \<and> rt_manager t = Some 1"
  using router_lifecycle [OF router_reachable.start, of "\<lambda>_. ''/mcp''"] by (simp add: startswith_def)

section \<open>Redaction\<close>

record secret_path =
  sp_base :: "string list option"
  sp_secret :: "string list option"
  sp_path :: "string list option"
  sp_func :: nat

definition public_signatures :: "string list list" where
  "public_signatures = [[''pki'', ''ca'', ''certificate''], [''pki'', ''ca'', ''crl''], [''pki'', ''certificate'', ''certificate''],
     [''pki'', ''key-pair'', ''public'', ''key''], [''pki'', ''openssh'', ''public'', ''key'']]"

definition or_empty :: "string list option \<Rightarrow> string list" where "or_empty v = (case v of Some x \<Rightarrow> x | None \<Rightarrow> [])"

definition signature :: "secret_path \<Rightarrow> string list" where
  "signature sp = (case sp_base sp of Some b \<Rightarrow> b @ or_empty (sp_secret sp) | None \<Rightarrow> or_empty (sp_path sp))"

definition is_public :: "secret_path \<Rightarrow> bool" where
  "is_public sp =
     (signature sp \<in> set public_signatures \<or>
      (case sp_base sp of
         Some b \<Rightarrow> sp_secret sp = Some [''key''] \<and> drop (length b - 2) b = [''authentication'', ''public-keys'']
       | None \<Rightarrow> False))"

text \<open>VyOS's redactor: its internals when they have the expected names, and the full pass.\<close>

record 't internals =
  in_prepare :: "'t \<Rightarrow> secret_path list res"
  in_strip :: "'t \<Rightarrow> secret_path list \<Rightarrow> 't \<times> py_error option"
  in_password :: nat

definition neutral :: nat where "neutral = 0"

definition mask_password :: "nat \<Rightarrow> secret_path \<Rightarrow> secret_path" where
  "mask_password pw sp = (if sp_func sp = pw then sp\<lparr>sp_func := neutral\<rparr> else sp)"

definition strip_mcp_secrets :: "'t internals option \<Rightarrow> ('t \<Rightarrow> 't) \<Rightarrow> 't \<Rightarrow> 't" where
  "strip_mcp_secrets ints full t =
     (case ints of
        None \<Rightarrow> full t
      | Some i \<Rightarrow>
          (case in_prepare i t of
             Inl _ \<Rightarrow> full t
           | Inr paths \<Rightarrow>
               (case in_strip i t (map (mask_password (in_password i)) (filter (\<lambda>sp. \<not> is_public sp) paths)) of
                  (t', None) \<Rightarrow> t' | (t', Some _) \<Rightarrow> full t')))"

text \<open>C16. Redaction fails closed: whichever branch runs, every secret that VyOS knows of for the tree and
  that is not public material is masked, provided VyOS's passes mask what they are given.\<close>
theorem redaction_fails_closed:
  assumes "\<forall>i ps t'. ints = Some i \<and> in_strip i t ps = (t', None) \<longrightarrow> (\<forall>sp \<in> set ps. masked t' (signature sp))"
    "\<forall>u. \<forall>sp \<in> set secrets. masked (full u) (signature sp)"
    "\<forall>i ps. ints = Some i \<and> in_prepare i t = Inr ps \<longrightarrow> set secrets \<subseteq> set ps" "sp \<in> set secrets" "\<not> is_public sp"
  shows "masked (strip_mcp_secrets ints full t) (signature sp)"
proof -
  have sig: "signature (mask_password pw x) = signature x" for pw x
    by (cases "sp_base x") (simp_all add: mask_password_def signature_def)
  have "masked t' (signature sp)"
    if "ints = Some i" "in_prepare i t = Inr ps"
      "in_strip i t (map (mask_password (in_password i)) (filter (\<lambda>sp. \<not> is_public sp) ps)) = (t', None)" for i ps t'
  proof -
    have "sp \<in> set ps" using assms(3,4) that by blast
    then have "mask_password (in_password i) sp \<in> set (map (mask_password (in_password i)) (filter (\<lambda>sp. \<not> is_public sp) ps))"
      using assms(5) by auto
    with assms(1) that show ?thesis using sig by metis
  qed
  then show ?thesis using assms(2,4)
    by (auto simp: strip_mcp_secrets_def split: option.split sum.split prod.split)
qed

definition sample_secret :: secret_path where
  "sample_secret = \<lparr> sp_base = Some [''system'', ''login''], sp_secret = Some [''encrypted-password''], sp_path = None, sp_func = 7 \<rparr>"

definition sample_internals :: "string list list internals" where
  "sample_internals = \<lparr> in_prepare = (\<lambda>_. Inr [sample_secret]), in_strip = (\<lambda>t ps. (map signature ps @ t, None)), in_password = 7 \<rparr>"

theorem redaction_fails_closed_witness:
  "signature sample_secret \<in> set (strip_mcp_secrets (Some sample_internals) (\<lambda>u. signature sample_secret # u) [])"
  using redaction_fails_closed
    [where ints = "Some sample_internals" and t = "[]" and masked = "\<lambda>t g. g \<in> set t"
      and secrets = "[sample_secret]" and full = "\<lambda>u. signature sample_secret # u" and sp = sample_secret]
  by (simp add: sample_internals_def is_public_def public_signatures_def sample_secret_def signature_def or_empty_def)

section \<open>The local entry point\<close>

record process =
  pr_root :: bool
  pr_gid :: nat
  pr_groups :: "nat list"
  pr_umask :: nat

text \<open>\<open>gid\<close>: the id of \<^verbatim>\<open>vyattacfg\<close>, if that group exists.\<close>

definition prepare_config_access :: "nat option \<Rightarrow> process \<Rightarrow> process res" where
  "prepare_config_access gid p =
     (case gid of
        None \<Rightarrow> Inl (RuntimeError ''missing required group: vyattacfg'')
      | Some g \<Rightarrow>
          if pr_root p then Inr (p\<lparr>pr_gid := g, pr_umask := 2\<rparr>)
          else if g \<noteq> pr_gid p \<and> g \<notin> set (pr_groups p) then Inl (PermissionError ''user must belong to vyattacfg'')
          else Inr (p\<lparr>pr_umask := 2\<rparr>))"

text \<open>\<open>file\<close>: reading and parsing the state file, or the exception.\<close>

definition load_server_config :: "json res \<Rightarrow> json option res" where
  "load_server_config file =
     (case file of
        Inl FileNotFoundError \<Rightarrow> Inr None | Inl (OSError _) \<Rightarrow> Inr None | Inl (ValueError _) \<Rightarrow> Inr None
      | Inl (PermissionError _) \<Rightarrow> Inr None | Inl e \<Rightarrow> Inl e
      | Inr c \<Rightarrow> bindE (has_key c ''mcp'') (\<lambda>ok. Inr (if ok then Some c else None)))"

record session_state =
  st_keys :: "(string \<times> json) list"
  st_mode :: json
  st_introspection :: bool

definition items :: "json \<Rightarrow> (string \<times> json) list res" where
  "items d = (case d of JObj kvs \<Rightarrow> Inr kvs | _ \<Rightarrow> Inl AttributeError)"

definition getitem :: "json \<Rightarrow> string \<Rightarrow> json res" where
  "getitem d k = (case d of JObj kvs \<Rightarrow> (case map_of kvs k of Some v \<Rightarrow> Inr v | None \<Rightarrow> Inl (KeyError k)) | _ \<Rightarrow> Inl TypeError)"

definition prime_session_state :: "json \<Rightarrow> session_state res" where
  "prime_session_state c =
     bindE (jget c ''keys'' (JObj [])) (\<lambda>ks. bindE (jget ks ''id'' (JObj [])) (\<lambda>ids. bindE (items ids) (\<lambda>kvs.
     bindE (seqE (map (\<lambda>(i, kc). bindE (jget kc ''key'' (JStr [])) (\<lambda>k. Inr (i, k))) kvs)) (\<lambda>pairs.
     bindE (getitem c ''mcp'') (\<lambda>m. bindE (jget m ''mode'' (JStr ''read-only'')) (\<lambda>mode.
     bindE (has_key m ''introspection'') (\<lambda>intro.
       Inr \<lparr> st_keys = filter (\<lambda>(i, k). truthy k) pairs, st_mode = mode, st_introspection = intro \<rparr>)))))))"

text \<open>The exit status and the state served; a failed check ends with 1 before anything is primed.\<close>

definition stdio_main :: "nat option \<Rightarrow> process \<Rightarrow> json res \<Rightarrow> (int \<times> session_state option) res" where
  "stdio_main gid p file =
     (case prepare_config_access gid p of
        Inl _ \<Rightarrow> Inr (1, None)
      | Inr _ \<Rightarrow> bindE (load_server_config file) (\<lambda>c. case c of
          None \<Rightarrow> Inr (1, None)
        | Some c \<Rightarrow> bindE (prime_session_state c) (\<lambda>s. Inr (0, Some s))))"

lemma prime_read_only:
  "prime_session_state c = Inr s \<Longrightarrow> map_of kvs ''mcp'' = Some (JObj m) \<Longrightarrow> c = JObj kvs \<Longrightarrow> map_of m ''mode'' = None \<Longrightarrow>
   st_mode s = JStr ''read-only'' \<and> (\<forall>(i, k) \<in> set (st_keys s). truthy k)"
  by (auto simp: prime_session_state_def getitem_def bindE_eq_Inr split: option.splits)

end
