(* ===== verification/Replace.thy ===== *)
theory Replace
  imports PyText
begin

text \<open>
  Python's \<^verbatim>\<open>str.count\<close> and \<^verbatim>\<open>str.replace\<close>, as several components use them: occurrences are taken
  from left to right without overlap, and an empty pattern occurs between any two characters and
  at both ends.  The central fact is that a text is its pieces joined by the pattern, and that
  replacing joins the same pieces by the new text.
\<close>

fun count_in :: "'a list \<Rightarrow> 'a list \<Rightarrow> nat" where
  "count_in p [] = 0"
| "count_in p (x # xs) =
     (if starts_with p (x # xs) then Suc (count_in p (drop (length p - 1) xs)) else count_in p xs)"

fun replace_in :: "'a list \<Rightarrow> 'a list \<Rightarrow> 'a list \<Rightarrow> 'a list" where
  "replace_in p q [] = []"
| "replace_in p q (x # xs) =
     (if starts_with p (x # xs) then q @ replace_in p q (drop (length p - 1) xs) else x # replace_in p q xs)"

definition py_count :: "'a list \<Rightarrow> 'a list \<Rightarrow> nat" where
  "py_count p s = (if p = [] then length s + 1 else count_in p s)"

definition py_replace :: "'a list \<Rightarrow> 'a list \<Rightarrow> 'a list \<Rightarrow> 'a list" where
  "py_replace p q s = (if p = [] then q @ concat (map (\<lambda>c. c # q) s) else replace_in p q s)"

text \<open>\<^verbatim>\<open>s.replace(p, q, 1)\<close>: the first occurrence only.\<close>

definition py_replace1 :: "'a list \<Rightarrow> 'a list \<Rightarrow> 'a list \<Rightarrow> 'a list" where
  "py_replace1 p q s = (case find_from p 0 s of None \<Rightarrow> s | Some i \<Rightarrow> take i s @ q @ drop (i + length p) s)"

lemma join_Cons: "ps \<noteq> [] \<Longrightarrow> join sep (x # ps) = x @ sep @ join sep ps"
  by (cases ps) (simp_all add: join_def)

lemma join_single [simp]: "join sep [x] = x"
  by (simp add: join_def)

lemma join_head: "join sep ((c # x) # ps) = c # join sep (x # ps)"
  by (simp add: join_def)

lemma contains_Cons: "contains p (x # xs) \<longleftrightarrow> starts_with p (x # xs) \<or> contains p xs"
proof -
  have "contains p (x # xs) \<longleftrightarrow> (\<exists>u v. x # xs = u @ p @ v)"
    by (auto simp: contains_iff occurs_at_split)
  also have "\<dots> \<longleftrightarrow> (\<exists>v. x # xs = p @ v) \<or> (\<exists>u v. xs = u @ p @ v)"
    by (metis append_Cons append_Nil neq_Nil_conv list.inject)
  also have "(\<exists>v. x # xs = p @ v) \<longleftrightarrow> starts_with p (x # xs)"
    unfolding starts_with_iff by (metis append_eq_conv_conj append_take_drop_id)
  also have "(\<exists>u v. xs = u @ p @ v) \<longleftrightarrow> contains p xs"
    by (auto simp: contains_iff occurs_at_split)
  finally show ?thesis .
qed

lemma contains_append: "contains p s \<Longrightarrow> contains p (u @ s @ v)"
  unfolding contains_iff occurs_at_split by (metis append.assoc)

lemma contains_trans: "contains m p \<Longrightarrow> contains p s \<Longrightarrow> contains m s"
  unfolding contains_iff occurs_at_split by (metis append.assoc)

lemma contains_refl [simp]: "contains p p"
  unfolding contains_iff occurs_at_split by (metis append_Nil append_Nil2)

lemma contains_Nil: "p \<noteq> [] \<Longrightarrow> \<not> contains p []"
  by (auto simp: contains_iff occurs_at_split)

fun has :: "'a list \<Rightarrow> 'a list \<Rightarrow> bool" where
  "has p [] = (p = [])"
| "has p (x # xs) = (starts_with p (x # xs) \<or> has p xs)"

lemma contains_has [code]: "contains p s = has p s"
proof (induction s)
  case Nil
  show ?case by (simp add: contains_def find_from_def)
next
  case (Cons x s)
  then show ?case by (simp add: contains_Cons)
qed

lemma count_in_0: "p \<noteq> [] \<Longrightarrow> count_in p s = 0 \<longleftrightarrow> \<not> contains p s"
  by (induction p s rule: count_in.induct) (auto simp: contains_Cons contains_Nil)

lemma starts_with_split: "starts_with p s \<Longrightarrow> s = p @ drop (length p) s"
  unfolding starts_with_iff by (metis append_take_drop_id)

lemma find_aux_Suc: "find_aux p s (Suc i) = map_option Suc (find_aux p s i)"
  by (induction s arbitrary: i) auto

lemma replace1_Cons:
  "py_replace1 p q (x # xs) =
     (if starts_with p (x # xs) then q @ drop (length p) (x # xs) else x # py_replace1 p q xs)"
  by (simp add: py_replace1_def find_from_def find_aux_Suc split: option.split)

text \<open>The pieces between the occurrences.\<close>

definition cut :: "'a list \<Rightarrow> 'a list \<Rightarrow> 'a list list \<Rightarrow> bool" where
  "cut p s ps = (length ps = Suc (py_count p s) \<and> join p ps = s \<and> (\<forall>q. py_replace p q s = join q ps) \<and>
     (\<forall>q. 0 < py_count p s \<longrightarrow> py_replace1 p q s = hd ps @ q @ join p (tl ps)))"

lemma cut_hit:
  assumes "p \<noteq> []" "starts_with p (x # xs)" "cut p (drop (length p - 1) xs) ps"
  shows "cut p (x # xs) ([] # ps)"
proof -
  have ne: "ps \<noteq> []" using assms(3) by (auto simp: cut_def)
  have d: "drop (length p) (x # xs) = drop (length p - 1) xs" using assms(1) by (cases p) auto
  then have "join p ([] # ps) = x # xs"
    using starts_with_split [OF assms(2)] assms(3) ne by (simp add: join_Cons cut_def)
  then show ?thesis using assms ne d by (simp add: cut_def py_count_def py_replace_def join_Cons replace1_Cons)
qed

lemma cut_miss:
  assumes "p \<noteq> []" "\<not> starts_with p (x # xs)" "cut p xs (y # ps)"
  shows "cut p (x # xs) ((x # y) # ps)"
  using assms by (simp add: cut_def py_count_def py_replace_def join_head replace1_Cons)

lemma cut_exists_in: "p \<noteq> [] \<Longrightarrow> \<exists>ps. cut p s ps"
proof (induction p s rule: count_in.induct)
  case (1 p)
  show ?case by (intro exI [of _ "[[]]"]) (use "1.prems" in \<open>simp add: cut_def py_count_def py_replace_def\<close>)
next
  case (2 p x xs)
  show ?case
  proof (cases "starts_with p (x # xs)")
    case True
    then show ?thesis using "2.IH"(1) [OF True "2.prems"] cut_hit [OF "2.prems"] by blast
  next
    case False
    then obtain ps where ps: "cut p xs ps" using "2.IH"(2) "2.prems" by blast
    then obtain y r where "ps = y # r" by (cases ps) (auto simp: cut_def)
    with ps show ?thesis using cut_miss [OF "2.prems" False] by blast
  qed
qed

lemma join_chars: "join q (x # map (\<lambda>c. [c]) s @ [[]]) = x @ q @ concat (map (\<lambda>c. c # q) s)"
proof (induction s arbitrary: x)
  case (Cons c s)
  show ?case using Cons.IH [of "[c]"] by (simp add: join_Cons)
qed (simp add: join_def)

lemma join_nil: "join [] ps = concat ps"
proof -
  have "map ((@) []) xs = xs" for xs :: "'a list list" by (induction xs) auto
  then show ?thesis by (cases ps) (simp_all add: join_def)
qed

lemma cut_exists: "\<exists>ps. cut p s ps"
proof (cases "p = []")
  case True
  have "concat (map (\<lambda>c. [c]) s) = s" by (induction s) auto
  moreover have "py_replace1 [] q s = q @ s" for q by (cases s) (simp_all add: py_replace1_def find_from_def)
  ultimately have "cut [] s ([] # map (\<lambda>c. [c]) s @ [[]])"
    unfolding cut_def join_chars by (simp add: py_count_def py_replace_def join_nil)
  with True show ?thesis by blast
qed (use cut_exists_in in blast)

lemma cutE:
  obtains ps where "length ps = Suc (py_count p s)" "join p ps = s" "\<And>q. py_replace p q s = join q ps"
    "\<And>q. 0 < py_count p s \<Longrightarrow> py_replace1 p q s = hd ps @ q @ join p (tl ps)"
  using cut_exists [of p s] unfolding cut_def by blast

lemma py_count_0: "p \<noteq> [] \<Longrightarrow> py_count p s = 0 \<longleftrightarrow> \<not> contains p s"
  by (simp add: py_count_def count_in_0)

lemma py_replace_absent: "py_count p s = 0 \<Longrightarrow> py_replace p q s = s"
proof -
  assume n: "py_count p s = 0"
  obtain ps where "length ps = Suc (py_count p s)" "join p ps = s" "py_replace p q s = join q ps" by (rule cutE) blast
  with n show ?thesis by (cases ps) auto
qed

lemma py_replace_contains: "0 < py_count p s \<Longrightarrow> contains q (py_replace p q s)"
proof -
  assume n: "0 < py_count p s"
  obtain ps where ps: "length ps = Suc (py_count p s)" "py_replace p q s = join q ps" by (rule cutE) blast
  then obtain x y r where "ps = x # y # r" using n by (cases ps; cases "tl ps") auto
  then have "py_replace p q s = x @ q @ join q (y # r)" using ps by (simp add: join_Cons)
  then show ?thesis using contains_append [OF contains_refl] by simp
qed

end
