(* ===== verification/Fixups.thy ===== *)
theory Fixups
  imports Replace Hw
begin

text \<open>
  The kernel source fixups: the count-gated replacement tool \<^verbatim>\<open>bin/kernel-fixups/mutate.py\<close> the
  contract of the numbered scripts \<^verbatim>\<open>F_*.py\<close>, and twelve of them with their texts (\<^verbatim>\<open>FixupTexts\<close> has the others).  The source tree is a map from paths to
  contents; a run returns normally or with an exit status, and the tree it leaves.
\<close>

type_synonym tree = "string \<rightharpoonup> string"

section \<open>mutate.py\<close>

definition mutate_file :: "bool \<Rightarrow> bool \<Rightarrow> string \<Rightarrow> string \<Rightarrow> string \<Rightarrow> int \<Rightarrow> (tree, unit) io" where
  "mutate_file dry once path old new expected fs =
     (case fs path of
        None \<Rightarrow> (Inl (SystemExit 2), fs)
      | Some src \<Rightarrow>
          let n = py_count old src in
          if expected < 0 \<and> n = 0 then (Inr (), fs)
          else if \<not> expected < 0 \<and> int n \<noteq> expected then (Inl (SystemExit 1), fs)
          else if dry then (Inr (), fs)
          else (Inr (), fs(path \<mapsto> (if once \<and> 1 < n then py_replace1 old new src else py_replace old new src))))"

definition mutate_main :: "string list \<Rightarrow> (tree, unit) io" where
  "mutate_main argv =
     (let dry = ''--check'' \<in> set argv; args = remove1 ''--check'' argv in
      if length args < 5 then raiseIO (SystemExit 3)
      else bindIO (liftIO (py_int 10 (args ! 3))) (\<lambda>expected.
        mutate_file dry (5 < length args \<and> args ! 5 = ''once'') (args ! 0) (args ! 1) (args ! 2) expected))"

section \<open>The numbered scripts\<close>

type_synonym edit = "string \<times> string \<times> string \<times> nat"

text \<open>
  A script's constants: its mark; its edits, each with path, anchor, replacement and expected count;
  how it ends when a file is missing (some scripts with status 0, kept apart from a return); the texts it
  insists on finding; whether all counts are taken before the first replacement; and whether
  a tree with the mark in some of the files only is refused.
\<close>

record fixup =
  fx_mark :: string
  fx_edits :: "edit list"
  fx_missing :: py_error
  fx_needs :: "string list"
  fx_precheck :: bool
  fx_partial :: bool

definition fx_paths :: "fixup \<Rightarrow> string list" where
  "fx_paths fx = remdups (map fst (fx_edits fx))"

definition text_of :: "tree \<Rightarrow> string \<Rightarrow> string" where
  "text_of fs p = (case fs p of Some s \<Rightarrow> s | None \<Rightarrow> [])"

definition anchor_ok :: "tree \<Rightarrow> edit \<Rightarrow> bool" where
  "anchor_ok fs = (\<lambda>(p, old, new, want). py_count old (text_of fs p) = want)"

definition edit_text :: "edit \<Rightarrow> tree \<Rightarrow> tree" where
  "edit_text = (\<lambda>(p, old, new, want) fs. fs(p \<mapsto> py_replace old new (text_of fs p)))"

fun edit_each :: "edit list \<Rightarrow> tree \<Rightarrow> tree res" where
  "edit_each [] fs = Inr fs"
| "edit_each (e # es) fs = (if anchor_ok fs e then edit_each es (edit_text e fs) else Inl (SystemExit 1))"

definition edit_checked :: "edit list \<Rightarrow> tree \<Rightarrow> tree res" where
  "edit_checked es fs = (if list_all (anchor_ok fs) es then Inr (fold edit_text es fs) else Inl (SystemExit 1))"

text \<open>Nothing is written before every edit has succeeded.\<close>

definition run_fixup :: "fixup \<Rightarrow> (tree, unit) io" where
  "run_fixup fx fs =
     (if \<exists>p \<in> set (fx_paths fx). fs p = None then (Inl (fx_missing fx), fs)
      else if \<forall>p \<in> set (fx_paths fx). contains (fx_mark fx) (text_of fs p) then (Inr (), fs)
      else if fx_partial fx \<and> (\<exists>p \<in> set (fx_paths fx). contains (fx_mark fx) (text_of fs p)) then (Inl (SystemExit 1), fs)
      else if \<exists>m \<in> set (fx_needs fx). \<exists>p \<in> set (fx_paths fx). \<not> contains m (text_of fs p)
        then (Inl (SystemExit 1), fs)
      else case (if fx_precheck fx then edit_checked (fx_edits fx) fs else edit_each (fx_edits fx) fs) of
        Inl e \<Rightarrow> (Inl e, fs) | Inr fs' \<Rightarrow> (Inr (), fs'))"

text \<open>Program text by lines: the number of leading tabs and the rest.\<close>

definition tabs :: "nat \<Rightarrow> string \<Rightarrow> string" where "tabs n s = replicate n (CHR 0x09) @ s"

definition code_text :: "(nat \<times> string) list \<Rightarrow> string" where
  "code_text ls = concat (map (\<lambda>(n, s). tabs n s @ [CHR 0x0A]) ls)"

definition code_line :: "(nat \<times> string) list \<Rightarrow> string" where "code_line ls = butlast (code_text ls)"

section \<open>The gate of a numbered script\<close>

lemma contains_edit:
  "contains m (text_of fs q) \<Longrightarrow> contains m new \<Longrightarrow> contains m (text_of (edit_text (p, old, new, w) fs) q)"
  by (cases "py_count old (text_of fs p) = 0")
    (auto simp: edit_text_def text_of_def py_replace_absent intro: contains_trans [OF _ py_replace_contains])

lemma contains_edited:
  "py_count old (text_of fs p) = w \<Longrightarrow> 0 < w \<Longrightarrow> contains m new \<Longrightarrow>
   contains m (text_of (edit_text (p, old, new, w) fs) p)"
  by (auto simp: edit_text_def text_of_def intro: contains_trans [OF _ py_replace_contains])

text \<open>An anchor that cannot overlap the mark: neither end of it is a character of the mark, and it does not hold it.\<close>

definition clear_of :: "string \<Rightarrow> string \<Rightarrow> bool" where
  "clear_of m old = (old \<noteq> [] \<and> hd old \<notin> set m \<and> last old \<notin> set m \<and> \<not> contains m old)"

lemma clear_split:
  assumes "clear_of m old" "contains m (x @ old @ y)"
  shows "contains m x \<or> contains m y"
proof -
  let ?s = "x @ old @ y"
  obtain u v where s: "?s = u @ m @ v" using assms(2) by (auto simp: contains_iff occurs_at_split)
  have old: "old \<noteq> []" "hd old \<notin> set m" "last old \<notin> set m" "\<not> contains m old" using assms(1) by (auto simp: clear_of_def)
  have out: "k < length u \<or> length u + length m \<le> k" if "k < length ?s" "?s ! k \<notin> set m" for k
  proof (rule ccontr)
    assume "\<not> ?thesis"
    then have "?s ! k = m ! (k - length u)" "k - length u < length m" unfolding s by (auto simp: nth_append)
    then show False using that(2) by simp
  qed
  have "length x + length old - 1 = length x + (length old - 1)" using old(1) by (cases old) auto
  then have "?s ! length x = hd old" "?s ! (length x + length old - 1) = last old"
    using old(1) by (simp_all add: nth_append hd_conv_nth last_conv_nth)
  moreover have "length x < length ?s" "length x + length old - 1 < length ?s" using old(1) by (cases old; simp)+
  ultimately have ends: "length x < length u \<or> length u + length m \<le> length x"
    "length x + length old - 1 < length u \<or> length u + length m \<le> length x + length old - 1"
    using out old(2,3) by metis+
  show ?thesis
  proof (cases "length u + length m \<le> length x")
    case True
    have "take (length x) ?s = take (length x) (u @ m @ v)" by (simp only: s)
    then have "x = u @ m @ take (length x - length u - length m) v" using True by simp
    then show ?thesis by (metis contains_append contains_refl)
  next
    case False
    then have lt: "length x < length u" using ends(1) by simp
    show ?thesis
    proof (cases "length x + length old - 1 < length u")
      case True
      have "drop (length x + length old) ?s = drop (length x + length old) (u @ m @ v)" by (simp only: s)
      then have "y = drop (length x + length old) u @ m @ v" using True old(1) by simp
      then show ?thesis by (metis contains_append contains_refl)
    next
      case False
      then have "length u + length m \<le> length x + length old" using ends(2) by linarith
      moreover have "take (length old) (drop (length x) ?s) = take (length old) (drop (length x) (u @ m @ v))" by (simp only: s)
      ultimately have "old = drop (length x) u @ m @ take (length old - (length u - length x) - length m) v"
        using lt by simp
      then show ?thesis using old(4) by (metis contains_append contains_refl)
    qed
  qed
qed

lemma clear_join: "clear_of m old \<Longrightarrow> contains m (join old ps) \<Longrightarrow> ps \<noteq> [] \<Longrightarrow> \<exists>p \<in> set ps. contains m p"
proof (induction ps)
  case (Cons p ps)
  then show ?case by (cases "ps = []") (use clear_split [OF Cons.prems(1)] in \<open>auto simp: join_Cons\<close>)
qed simp

lemma contains_join: "p \<in> set ps \<Longrightarrow> contains m p \<Longrightarrow> contains m (join new ps)"
proof (induction ps)
  case (Cons q ps)
  show ?case
  proof (cases "ps = []")
    case False
    have "contains m (q @ new @ join new ps)"
    proof (cases "p = q")
      case True
      then show ?thesis using contains_append [OF Cons.prems(2), of "[]"] by simp
    next
      case False
      then have "contains m (join new ps)" using Cons by simp
      from contains_append [OF this, of "q @ new" "[]"] show ?thesis by simp
    qed
    then show ?thesis using False by (simp add: join_Cons)
  qed (use Cons.prems in simp)
qed simp

lemma contains_clear:
  assumes "clear_of m old" "contains m (text_of fs q)"
  shows "contains m (text_of (edit_text (p, old, new, w) fs) q)"
proof (cases "q = p")
  case True
  obtain ps where ps: "length ps = Suc (py_count old (text_of fs p))" "join old ps = text_of fs p"
    "\<And>q. py_replace old q (text_of fs p) = join q ps" by (rule cutE [of old "text_of fs p"]) blast
  moreover have "ps \<noteq> []" using ps(1) by auto
  ultimately have "\<exists>p \<in> set ps. contains m p" using clear_join [OF assms(1), of ps] assms(2) True by simp
  then show ?thesis using ps(3) [of new] contains_join True by (auto simp: edit_text_def text_of_def)
next
  case False
  then show ?thesis using assms(2) by (simp add: edit_text_def text_of_def)
qed

definition marks :: "string \<Rightarrow> edit \<Rightarrow> bool" where "marks m = (\<lambda>(p, old, new, w). 0 < w \<and> contains m new)"

text \<open>
  The contract of the scripts' constants: there is something to do, every file gets the mark, and an edit that does
  not bring it cannot destroy it; where the counts are taken beforehand, every edit brings it.
\<close>

locale marked_fixup =
  fixes fx :: fixup
  assumes some_edit: "fx_edits fx \<noteq> []"
    and path_marked: "e \<in> set (fx_edits fx) \<Longrightarrow> \<exists>e' \<in> set (fx_edits fx). fst e' = fst e \<and> marks (fx_mark fx) e'"
    and keeps_mark: "(p, old, new, w) \<in> set (fx_edits fx) \<Longrightarrow>
      marks (fx_mark fx) (p, old, new, w) \<or> \<not> fx_precheck fx \<and> clear_of (fx_mark fx) old"
begin

abbreviation mark_in :: "tree \<Rightarrow> string \<Rightarrow> bool" where
  "mark_in fs p \<equiv> contains (fx_mark fx) (text_of fs p)"

definition spread :: "string set \<Rightarrow> string set \<Rightarrow> tree \<Rightarrow> tree \<Rightarrow> bool" where
  "spread M P fs fs' = ((\<forall>q. mark_in fs q \<longrightarrow> mark_in fs' q) \<and> (\<forall>q \<in> M. mark_in fs' q) \<and>
     (\<forall>q. q \<notin> P \<longrightarrow> fs' q = fs q) \<and> dom fs' = P \<union> dom fs)"

lemma spread_refl: "spread {} {} fs fs"
  by (simp add: spread_def)

lemma spread_trans: "spread M P fs fs' \<Longrightarrow> spread N Q fs' fs'' \<Longrightarrow> spread (M \<union> N) (P \<union> Q) fs fs''"
  by (auto simp: spread_def)

lemma spread_edit:
  assumes "e \<in> set (fx_edits fx)" "mark_in fs (fst e) \<or> anchor_ok fs e"
  shows "spread (if marks (fx_mark fx) e then {fst e} else {}) {fst e} fs (edit_text e fs)"
proof -
  obtain p old new w where e: "e = (p, old, new, w)" by (cases e)
  have keep: "mark_in (edit_text e fs) q" if "mark_in fs q" for q
    using keeps_mark [of p old new w] assms(1) contains_edit [OF that, of new p old w] contains_clear [OF _ that, of old p new w]
    unfolding e marks_def by auto
  moreover have "mark_in (edit_text e fs) p" if "marks (fx_mark fx) e"
    using that assms(2) keep contains_edited by (auto simp: e anchor_ok_def marks_def)
  ultimately show ?thesis by (auto simp: spread_def e edit_text_def)
qed

lemma spread_each:
  "edit_each es fs = Inr fs' \<Longrightarrow> set es \<subseteq> set (fx_edits fx) \<Longrightarrow>
   spread (fst ` {e \<in> set es. marks (fx_mark fx) e}) (fst ` set es) fs fs'"
proof (induction es arbitrary: fs)
  case (Cons e es)
  have ok: "anchor_ok fs e" "edit_each es (edit_text e fs) = Inr fs'" using Cons.prems(1) by (auto split: if_splits)
  have "fst ` {x \<in> set (e # es). marks (fx_mark fx) x} =
    (if marks (fx_mark fx) e then {fst e} else {}) \<union> fst ` {x \<in> set es. marks (fx_mark fx) x}" by auto
  then show ?case using spread_trans [OF spread_edit Cons.IH [OF ok(2)]] ok(1) Cons.prems(2) by simp
qed (simp add: spread_refl)

lemma spread_fold:
  "\<forall>e \<in> set es. mark_in fs (fst e) \<or> anchor_ok fs e \<Longrightarrow> set es \<subseteq> set (fx_edits fx) \<Longrightarrow> \<forall>e \<in> set es. marks (fx_mark fx) e \<Longrightarrow>
   spread (fst ` set es) (fst ` set es) fs (fold edit_text es fs)"
proof (induction es arbitrary: fs)
  case (Cons e es)
  let ?t = "edit_text e fs"
  have s: "spread {fst e} {fst e} fs ?t" using Cons.prems spread_edit [of e fs] by simp
  have "mark_in ?t (fst x) \<or> anchor_ok ?t x" if "x \<in> set es" for x
  proof (cases "fst x = fst e")
    case False
    then have "text_of ?t (fst x) = text_of fs (fst x)" using s by (simp add: spread_def text_of_def)
    then show ?thesis using Cons.prems(1) that by (cases x) (auto simp: anchor_ok_def)
  qed (use s in \<open>auto simp: spread_def\<close>)
  then show ?case using spread_trans [OF s Cons.IH] Cons.prems(2,3) by simp
qed (simp add: spread_refl)

lemma paths_set: "set (fx_paths fx) = fst ` set (fx_edits fx)"
  by (simp add: fx_paths_def)

lemma paths_marked: "fst ` {e \<in> set (fx_edits fx). marks (fx_mark fx) e} = set (fx_paths fx)"
proof
  show "set (fx_paths fx) \<subseteq> fst ` {e \<in> set (fx_edits fx). marks (fx_mark fx) e}"
    unfolding paths_set using path_marked by (metis (mono_tags, lifting) image_eqI image_subsetI mem_Collect_eq)
qed (auto simp: paths_set)

text \<open>What a run that returns has done.\<close>

lemma run_Inr:
  assumes "run_fixup fx fs = (Inr (), fs')"
  shows "spread (set (fx_paths fx)) (set (fx_paths fx)) fs fs'"
proof -
  have "spread (set (fx_paths fx)) (set (fx_paths fx)) fs fs'"
    if "(if fx_precheck fx then edit_checked (fx_edits fx) fs else edit_each (fx_edits fx) fs) = Inr fs'"
  proof (cases "fx_precheck fx")
    case True
    then have "\<forall>e \<in> set (fx_edits fx). marks (fx_mark fx) e" using keeps_mark by auto
    then show ?thesis using that True spread_fold [of "fx_edits fx" fs]
      by (auto simp: edit_checked_def list_all_iff paths_set split: if_splits)
  next
    case False
    then show ?thesis using that spread_each [of "fx_edits fx" fs fs'] by (simp add: paths_marked paths_set [symmetric])
  qed
  then show ?thesis using assms
    by (auto simp: run_fixup_def spread_def split: if_splits sum.splits)
qed

lemma run_marked: "\<forall>p \<in> set (fx_paths fx). fs p \<noteq> None \<and> mark_in fs p \<Longrightarrow> run_fixup fx fs = (Inr (), fs)"
  by (auto simp: run_fixup_def)

lemma run_paths_exist: "run_fixup fx fs = (Inr (), fs') \<Longrightarrow> p \<in> set (fx_paths fx) \<Longrightarrow> fs p \<noteq> None"
  by (auto simp: run_fixup_def split: if_splits)

lemma gate:
  shows "run_fixup fx fs = (Inr (), fs') \<Longrightarrow>
      run_fixup fx fs' = (Inr (), fs') \<and> (\<forall>p \<in> set (fx_paths fx). mark_in fs' p) \<and>
      (\<forall>q. q \<notin> set (fx_paths fx) \<longrightarrow> fs' q = fs q)"
    and "run_fixup fx fs = (Inl e, fs') \<Longrightarrow> fs' = fs"
proof -
  assume r: "run_fixup fx fs = (Inr (), fs')"
  have s: "spread (set (fx_paths fx)) (set (fx_paths fx)) fs fs'" using r by (rule run_Inr)
  then have "\<forall>p \<in> set (fx_paths fx). fs' p \<noteq> None \<and> mark_in fs' p"
    using run_paths_exist [OF r] by (auto simp: spread_def)
  then show "run_fixup fx fs' = (Inr (), fs') \<and> (\<forall>p \<in> set (fx_paths fx). mark_in fs' p) \<and>
      (\<forall>q. q \<notin> set (fx_paths fx) \<longrightarrow> fs' q = fs q)"
    using run_marked s by (auto simp: spread_def)
next
  show "run_fixup fx fs = (Inl e, fs') \<Longrightarrow> fs' = fs"
    by (auto simp: run_fixup_def split: if_splits sum.splits option.splits)
qed

end

text \<open>A script whose anchors hold another script's text refuses to run before it.\<close>

lemma refuses_early:
  assumes "fx_edits fx = (p, old, new, w) # es" "0 < w" "contains m old" "old \<noteq> []"
    "\<not> contains m (text_of fs p)" "\<not> contains (fx_mark fx) (text_of fs p)" "\<forall>p \<in> set (fx_paths fx). fs p \<noteq> None"
  shows "run_fixup fx fs = (Inl (SystemExit 1), fs)"
proof -
  have "\<not> contains old (text_of fs p)" using assms(3,5) contains_trans by blast
  then have "\<not> anchor_ok fs (p, old, new, w)" using assms(2,4) py_count_0 [of old "text_of fs p"] by (simp add: anchor_ok_def)
  moreover have "p \<in> set (fx_paths fx)" by (simp add: fx_paths_def assms(1))
  ultimately show ?thesis using assms(1,6,7) by (auto simp: run_fixup_def edit_checked_def split: option.split)
qed

section \<open>The scripts\<close>

definition fman_pcd_c :: string where "fman_pcd_c = ''drivers/net/ethernet/freescale/fman/fman_pcd.c''"
definition fman_c :: string where "fman_c = ''drivers/net/ethernet/freescale/fman/fman.c''"
definition dpaa_eth_c :: string where "dpaa_eth_c = ''drivers/net/ethernet/freescale/dpaa/dpaa_eth.c''"
definition fman_pcd_h :: string where "fman_pcd_h = ''include/linux/fsl/fman_pcd.h''"
definition fman_keygen_c :: string where "fman_keygen_c = ''drivers/net/ethernet/freescale/fman/fman_keygen.c''"
definition dpaa_ethtool_c :: string where "dpaa_ethtool_c = ''drivers/net/ethernet/freescale/dpaa/dpaa_ethtool.c''"

definition F_256_edits :: "edit list" where \<open>
  F_256_edits = [
    (fman_c,
      code_text [(1, ''dev_dbg(fman->dev, "%s: FMan[%d] bus error: port_id[%d]'' @ [CHR 0x5C] @ ''n",''),
         (2, ''__func__, fman->state->fm_id, port_id);'')],
      code_text [(1, ''/* F-256: was dev_dbg -- a DMA bus error wedges the issuing task and''),
         (1, '' * was silent in production (churn stall #3). */''),
         (1, ''dev_err_ratelimited(fman->dev,''),
         (3, ''    "FMan[%d] DMA bus error: addr 0x%010llx port_id %u tnum %u liodn %u (F-256)'' @ [CHR 0x5C] @ ''n",''),
         (3, ''    fman->state->fm_id, (unsigned long long)addr,''),
         (3, ''    port_id, tnum, liodn);'')], 1),
    (fman_pcd_c,
      code_text [(3, ''if (f254_extc & f254_inv0)''),
         (4, ''pr_warn_ratelimited("fman_pcd: F-254 ehash delete SYNC timed out (fmfp_extc=0x%08x)'' @ [CHR 0x5C] @ ''n",''),
         (6, ''    f254_extc);''),
         (2, ''}''),
         (1, ''}''),
         (0, []),
         (1, ''/* record is dma_alloc_coherent (0130) '' @ [CHR 0xE2] @ [CHR 0x80] @ [CHR 0x94] @ '' free it the same way''),
         (1, '' * fman_pcd_ehash_flow_drain() does, NOT kfree (which trips''),
         (1, '' * free_large_kmalloc and corrupts the coherent allocator). */''),
         (1, ''dma_free_coherent(t->dev, FMAN_EHASH_FLOW_REC_SIZE,''),
         (3, ''  x->record, x->record_dma);''),
         (1, ''kfree(x);''),
         (1, ''return 0;'')],
      code_text [(3, ''if (f254_extc & f254_inv0) {''),
         (4, ''const u8 *f256_r = x->record;''),
         (0, []),
         (4, ''/* F-256: a stuck task may still reference this''),
         (4, '' * record -- keep it (leak; the FMan is wedged''),
         (4, '' * and needs a cold boot) and log what it held. */''),
         (4, ''pr_warn("fman_pcd: F-256 delete SYNC timed out (fmfp_extc=0x%08x): record %pad kept, not freed'' @ [CHR 0x5C] @ ''n",''),
         (5, ''f254_extc, &x->record_dma);''),
         (4, ''pr_warn("fman_pcd: F-256 record %pad hdr+key %64phN'' @ [CHR 0x5C] @ ''n",''),
         (5, ''&x->record_dma, f256_r);''),
         (4, ''pr_warn("fman_pcd: F-256 record %pad stats@256 %24phN'' @ [CHR 0x5C] @ ''n",''),
         (5, ''&x->record_dma, f256_r + 256);''),
         (4, ''kfree(x);''),
         (4, ''return 0;''),
         (3, ''}''),
         (2, ''}''),
         (1, ''}''),
         (0, []),
         (1, ''/* record is dma_alloc_coherent (0130) '' @ [CHR 0xE2] @ [CHR 0x80] @ [CHR 0x94] @ '' free it the same way''),
         (1, '' * fman_pcd_ehash_flow_drain() does, NOT kfree (which trips''),
         (1, '' * free_large_kmalloc and corrupts the coherent allocator). */''),
         (1, ''dma_free_coherent(t->dev, FMAN_EHASH_FLOW_REC_SIZE,''),
         (3, ''  x->record, x->record_dma);''),
         (1, ''kfree(x);''),
         (1, ''return 0;'')], 1)]\<close>

definition F_256 :: fixup where
  "F_256 = \<lparr> fx_mark = ''F-256'', fx_edits = F_256_edits, fx_missing = FileNotFoundError, fx_needs = [], fx_precheck = False, fx_partial = False \<rparr>"

definition F_257_edits :: "edit list" where \<open>
  F_257_edits = [
    (fman_pcd_c,
      code_text [(1, ''dma_free_coherent(t->dev, FMAN_EHASH_FLOW_REC_SIZE,''),
         (3, ''  x->record, x->record_dma);''),
         (1, ''kfree(x);''),
         (1, ''return 0;'')],
      code_text [(1, ''dma_free_coherent(t->dev, FMAN_EHASH_FLOW_REC_SIZE,''),
         (3, ''  x->record, x->record_dma);''),
         (1, ''/* F-257: the F-175 context goes with the record, after the SYNC.''),
         (1, '' * (The F-256 timeout path returned above and keeps both.) */''),
         (1, ''if (x->ctx)''),
         (2, ''dma_free_coherent(t->dev, FMAN_FE_CTX_SIZE, x->ctx,''),
         (4, ''  x->ctx_dma);''),
         (1, ''kfree(x);''),
         (1, ''return 0;'')], 1)]\<close>

definition F_257 :: fixup where
  "F_257 = \<lparr> fx_mark = ''F-257'', fx_edits = F_257_edits, fx_missing = FileNotFoundError, fx_needs = [], fx_precheck = False, fx_partial = False \<rparr>"

definition F_258_edits :: "edit list" where \<open>
  F_258_edits = [
    (dpaa_eth_c,
      code_text [(2, ''if (vaddr && !strcmp(net_dev->name, "eth1") &&''),
         (2, ''    hash_offset >= 0x28) {'')],
      code_text [(2, ''/* F-258: also any port'' @ [CHR 0x27] @ ''s contiguous PPPoE session frame''),
         (2, '' * (T-M6-SP4 hard-parser probe). */''),
         (2, ''if (vaddr && hash_offset >= 0x28 &&''),
         (2, ''    (!strcmp(net_dev->name, "eth1") ||''),
         (2, ''     (fd_format == qm_fd_contig &&''),
         (2, ''      qm_fd_get_length(fd) >= ETH_HLEN &&''),
         (2, ''      *(__be16 *)(vaddr + qm_fd_get_offset(fd) + 12) ==''),
         (2, ''      htons(ETH_P_PPP_SES)))) {'')], 1)]\<close>

definition F_258 :: fixup where
  "F_258 = \<lparr> fx_mark = ''F-258'', fx_edits = F_258_edits, fx_missing = FileNotFoundError, fx_needs = [], fx_precheck = False, fx_partial = False \<rparr>"

definition F_259_edits :: "edit list" where \<open>
  F_259_edits = [
    (fman_pcd_h,
      code_text [(0, ''#define FMAN_FE_FLOW_KEY_MAX   56   /* fits 256B DDR record minus header */'')],
      code_text [(0, ''#define FMAN_FE_FLOW_KEY_MAX   56   /* fits 256B DDR record minus header */''),
         (0, ''/* F-259: routed FE key = 46-byte dual-lane 5-tuple (F-224) + outer VID (2)''),
         (0, '' * + PPPoE session ID (2). The single size for routed tables and keys. */''),
         (0, ''#define FMAN_PCD_FE_ROUTED_KEY_SIZE 50'')], 1),
    (fman_keygen_c,
      code_text [(3, ''scheme_regs.kgse_gec[5] = 0x83FF7E00;''),
         (2, ''}'')],
      code_text [(3, ''scheme_regs.kgse_gec[5] = 0x83FF7E00;''),
         (3, ''/* F-259: ingress L2 context for the routed ehash key:''),
         (3, '' * [46..47] outer VID (VLAN1 TCI & 0x0FFF), [48..49] PPPoE''),
         (3, '' * session ID. Validated codes: 0 when the header is absent. */''),
         (3, ''if (scheme->next_engine == 3) {''),
         (4, ''scheme_regs.kgse_gec[6] = 0x81FF0500;''),
         (4, ''scheme_regs.kgse_gec[7] = 0x81FF0802;''),
         (3, ''}''),
         (2, ''}'')], 1),
    (fman_pcd_c,
      code_text [(1, ''[FMAN_PCD_FE_PROFILE_ROUTED] = { 0x801C0006, false, 46 },'')],
      code_text [(1, ''[FMAN_PCD_FE_PROFILE_ROUTED] = { 0x801C0006, false,''),
         (5, '' FMAN_PCD_FE_ROUTED_KEY_SIZE }, /* F-259 */'')], 1),
    (fman_pcd_c,
      code_text [(1, ''const u8  ehash_key_sz  = 46;'' @ [CHR 0x09] @ ''/* F-225(key-sz-46): dual-lane GEC key */'')],
      code_text [(1, ''const u8  ehash_key_sz  = FMAN_PCD_FE_ROUTED_KEY_SIZE; /* F-259 */'')], 1),
    (dpaa_ethtool_c,
      code_text [(0, ''#define DPAA_CLS_KEY_MAX 46'' @ [CHR 0x09] @ ''/* dual-lane family format (ask.ko) */'')],
      code_text [(0, ''#define DPAA_CLS_KEY_MAX FMAN_PCD_FE_ROUTED_KEY_SIZE'' @ [CHR 0x09] @ ''/* F-259; L2 ctx 0 */'')], 1),
    (dpaa_eth_c,
      code_text [(1, ''u8 key[46];'' @ [CHR 0x09] @ ''/* the dual-lane family key (the table size variant) */'')],
      code_text [(1, ''u8 key[FMAN_PCD_FE_ROUTED_KEY_SIZE];'' @ [CHR 0x09] @ ''/* F-259 routed key */'')], 1),
    (dpaa_eth_c,
      code_text [(0, ''#define DPAA_CLS_FLOWER_KEY_MAX'' @ [CHR 0x09] @ ''46'')],
      code_text [(0, ''#define DPAA_CLS_FLOWER_KEY_MAX'' @ [CHR 0x09] @ ''FMAN_PCD_FE_ROUTED_KEY_SIZE /* F-259 */'')], 1)]\<close>

definition F_259 :: fixup where
  "F_259 = \<lparr> fx_mark = ''F-259'', fx_edits = F_259_edits, fx_missing = SystemExit 1, fx_needs = [], fx_precheck = False, fx_partial = False \<rparr>"

definition F_260_edits :: "edit list" where \<open>
  F_260_edits = [
    (fman_pcd_h,
      code_text [(0, ''#define FMAN_PCD_VLANF_PUSH'' @ [CHR 0x09] @ ''(1u << 1)'')],
      code_text [(0, ''#define FMAN_PCD_VLANF_PUSH'' @ [CHR 0x09] @ ''(1u << 1)''),
         (0, ''/* F-260: strip an ingress PPPoE session header (STRIP_PPPoE_HDR 0x14). */''),
         (0, ''#define FMAN_PCD_VLANF_PPPOE_STRIP'' @ [CHR 0x09] @ ''(1u << 2)'')], 1),
    (fman_pcd_c,
      code_text [(3, ''if (vlan && (vlan->flags &''),
         (4, ''     (FMAN_PCD_VLANF_POP | FMAN_PCD_VLANF_PUSH))) {'')],
      code_text [(3, ''if (vlan && (vlan->flags &''),
         (4, ''     (FMAN_PCD_VLANF_POP | FMAN_PCD_VLANF_PUSH |''),
         (4, ''      FMAN_PCD_VLANF_PPPOE_STRIP))) { /* F-260 */'')], 2),
    (fman_pcd_c,
      code_text [(3, ''vlan_oi = oi;'' @ [CHR 0x09] @ ''/* VLAN prefix opcodes (04 11 12), 0 if none */'')],
      code_text [(3, ''/* F-260: vendor STRIP_PPPoE_HDR after STRIP_ALL_VLAN, param''),
         (3, '' * en_ehash_strip_pppoe_hdr { be32 stats_ptr } -> the owned''),
         (3, '' * scratch block (never 0, see 0216). */''),
         (3, ''if (vlan && (vlan->flags & FMAN_PCD_VLANF_PPPOE_STRIP)) {''),
         (4, ''r[opc_off + oi++] = 0x14;'' @ [CHR 0x09] @ ''/* STRIP_PPPoE_HDR */''),
         (4, ''*(__be32 *)(r + ttl_param_off) =''),
         (5, ''cpu_to_be32(t->pcd->fe_stats_off & 0x00ffffff);''),
         (4, ''ttl_param_off += 4;''),
         (3, ''}''),
         (3, ''vlan_oi = oi;'' @ [CHR 0x09] @ ''/* prefix opcodes (04 11 12 [14]), 0 if none */'')], 1)]\<close>

definition F_260 :: fixup where
  "F_260 = \<lparr> fx_mark = ''F-260'', fx_edits = F_260_edits, fx_missing = SystemExit 1, fx_needs = [], fx_precheck = False, fx_partial = False \<rparr>"

definition F_261_edits :: "edit list" where \<open>
  F_261_edits = [
    (fman_pcd_h,
      code_text [(0, ''#define FMAN_PCD_VLANF_PPPOE_STRIP'' @ [CHR 0x09] @ ''(1u << 2)'')],
      code_text [(0, ''#define FMAN_PCD_VLANF_PPPOE_STRIP'' @ [CHR 0x09] @ ''(1u << 2)''),
         (0, ''/* F-261: insert an egress PPPoE session header (INSERT_PPPoE_HDR 0x43). */''),
         (0, ''#define FMAN_PCD_VLANF_PPPOE_INSERT'' @ [CHR 0x09] @ ''(1u << 3)'')], 1),
    (fman_pcd_h,
      code_text [(1, ''u16 push_tpid;''),
         (0, ''};'')],
      code_text [(1, ''u16 push_tpid;''),
         (1, ''u16 pppoe_sid;'' @ [CHR 0x09] @ [CHR 0x09] @ ''/* F-261: INSERT_PPPoE_HDR session, host order */''),
         (0, ''};'')], 1),
    (fman_pcd_h,
      code_text [(1, ''u16  vlan_push_tpid;'' @ [CHR 0x09] @ ''/* host order; outer EtherType, e.g. 0x8100 */'')],
      code_text [(1, ''u16  vlan_push_tpid;'' @ [CHR 0x09] @ ''/* host order; outer EtherType, e.g. 0x8100 */''),
         (1, ''u16  pppoe_sid;'' @ [CHR 0x09] @ [CHR 0x09] @ ''/* F-261: egress PPPoE session, host order */'')], 1),
    (fman_pcd_c,
      code_text [(4, ''      FMAN_PCD_VLANF_PPPOE_STRIP))) { /* F-260 */'')],
      code_text [(4, ''      FMAN_PCD_VLANF_PPPOE_STRIP |''),
         (4, ''      FMAN_PCD_VLANF_PPPOE_INSERT))) { /* F-260/F-261 */'')], 2),
    (fman_pcd_c,
      code_text [(3, ''if (vlan && (vlan->flags & FMAN_PCD_VLANF_PUSH)) {'')],
      code_text [(3, ''/* F-261: vendor create_pppoe_ins_hm(): INSERT_PPPoE_HDR after''),
         (3, '' * TTL/NAT, before any VLAN insert and the L2 rebuild, which then''),
         (3, '' * carries EtherType 0x8864. Param: be32 stats_ptr (owned''),
         (3, '' * scratch, never 0), be32 ver 1 | type 1 | code 0 | session. */''),
         (3, ''if (vlan && (vlan->flags & FMAN_PCD_VLANF_PPPOE_INSERT)) {''),
         (4, ''r[opc_off + oi++] = 0x43;'' @ [CHR 0x09] @ ''/* INSERT_PPPoE_HDR */''),
         (4, ''*(__be32 *)(r + l2poff + 0) =''),
         (5, ''cpu_to_be32(t->pcd->fe_stats_off & 0x00ffffff);''),
         (4, ''*(__be32 *)(r + l2poff + 4) =''),
         (5, ''cpu_to_be32((1u << 28) | (1u << 24) |''),
         (6, ''    vlan->pppoe_sid);''),
         (4, ''l2poff += 8;''),
         (4, ''l2_eth_type = 0x8864;'' @ [CHR 0x09] @ ''/* ETH_P_PPP_SES */''),
         (3, ''}''),
         (3, ''if (vlan && (vlan->flags & FMAN_PCD_VLANF_PUSH)) {'')], 1),
    (fman_pcd_c,
      code_text [(2, ''*(__be16 *)(r + enqueue_off + 0) = cpu_to_be16(1500);'')],
      code_text [(2, ''/* F-261: a PPPoE insert grows the frame by 8; with no frag pool''),
         (2, '' * (bpid 0) disable fragmentation (EN_EHASH_DISABLE_FRAG). */''),
         (2, ''*(__be16 *)(r + enqueue_off + 0) =''),
         (3, ''cpu_to_be16(vlan && (vlan->flags & FMAN_PCD_VLANF_PPPOE_INSERT) ?''),
         (4, ''    0xffff : 1500);'')], 1),
    (fman_pcd_c,
      code_text [(3, ''.push_tpid = action->vlan_push_tpid,'')],
      code_text [(3, ''.push_tpid = action->vlan_push_tpid,''),
         (3, ''.pppoe_sid = action->pppoe_sid,'' @ [CHR 0x09] @ ''/* F-261 */'')], 1)]\<close>

definition F_261 :: fixup where
  "F_261 = \<lparr> fx_mark = ''F-261'', fx_edits = F_261_edits, fx_missing = SystemExit 1, fx_needs = [], fx_precheck = False, fx_partial = False \<rparr>"

definition F_263_edits :: "edit list" where \<open>
  F_263_edits = [
    (fman_pcd_c,
      code_text [(1, ''/* F-143: Write en_exthash_node descriptor to first 16 bytes of DDR allocation.''),
         (1, '' * The FE-VM reads this to get hash_bytes_offset, key_size, hash_mask_bits, etc.''),
         (1, '' */''),
         (1, ''memcpy(t->table_base, t->ad, FMAN_EHASH_NODE_SIZE);''),
         (0, [])],
      code_text [(1, ''/* F-263: the node template lives only in t->ad. The walker reads the''),
         (1, '' * node from MURAM (IC.CCBASE); the DDR allocation is the bucket array,''),
         (1, '' * and copying the template here (old F-143) made bucket 0 a wild''),
         (1, '' * record pointer (FMan DMA bus error, A6 churn stall). */''),
         (0, [])], 1)]\<close>

definition F_263 :: fixup where
  "F_263 = \<lparr> fx_mark = ''F-263'', fx_edits = F_263_edits, fx_missing = SystemExit 1, fx_needs = [], fx_precheck = False, fx_partial = False \<rparr>"

definition F_264_edits :: "edit list" where \<open>
  F_264_edits = [
    (fman_pcd_c,
      code_line [(1, ''struct list_head flows;'' @ [CHR 0x09] @ [CHR 0x09] @ ''/* sec.5 inserted flow records (DDR) */''),
         (0, ''};'')],
      code_line [(1, ''struct list_head flows;'' @ [CHR 0x09] @ [CHR 0x09] @ ''/* sec.5 inserted flow records (DDR) */''),
         (1, ''struct hlist_head *bidx;'' @ [CHR 0x09] @ ''/* F-264: flows by bucket index, mask + 1 heads */''),
         (0, ''};'')], 1),
    (fman_pcd_c,
      code_text [(0, ''struct fman_pcd_ehash_flow {''),
         (1, ''struct list_head node;'')],
      code_text [(0, ''struct fman_pcd_ehash_flow {''),
         (1, ''struct list_head node;''),
         (1, ''struct hlist_node bnode;'' @ [CHR 0x09] @ ''/* F-264: link in t->bidx[index] */'')], 1),
    (fman_pcd_c,
      code_line [(1, ''t = kzalloc(sizeof(*t), GFP_KERNEL);''),
         (1, ''if (!t)''),
         (2, ''return -ENOMEM;''),
         (0, []),
         (1, ''err = fman_pcd_ehash_int_buf_get(pcd);'')],
      code_line [(1, ''t = kzalloc(sizeof(*t), GFP_KERNEL);''),
         (1, ''if (!t)''),
         (2, ''return -ENOMEM;''),
         (1, ''/* F-264: per-bucket flow index (zeroed heads are empty lists). */''),
         (1, ''t->bidx = kvcalloc((size_t)mask + 1, sizeof(*t->bidx), GFP_KERNEL);''),
         (1, ''if (!t->bidx) {''),
         (2, ''kfree(t);''),
         (2, ''return -ENOMEM;''),
         (1, ''}''),
         (0, []),
         (1, ''err = fman_pcd_ehash_int_buf_get(pcd);'')], 1),
    (fman_pcd_c,
      code_line [(0, ''err_free_t:''),
         (1, ''kfree(t);''),
         (1, ''return err;'')],
      code_line [(0, ''err_free_t:''),
         (1, ''kvfree(t->bidx);'' @ [CHR 0x09] @ ''/* F-264 */''),
         (1, ''kfree(t);''),
         (1, ''return err;'')], 1),
    (fman_pcd_c,
      code_line [(1, ''fman_pcd_ehash_flow_drain(t);''),
         (1, ''dma_free_coherent(t->dev, t->table_size, t->table_base, t->table_dma);''),
         (1, ''kfree(t);'')],
      code_line [(1, ''fman_pcd_ehash_flow_drain(t);''),
         (1, ''dma_free_coherent(t->dev, t->table_size, t->table_base, t->table_dma);''),
         (1, ''kvfree(t->bidx);'' @ [CHR 0x09] @ ''/* F-264 */''),
         (1, ''kfree(t);'')], 1),
    (fman_pcd_c,
      code_line [(1, ''list_add(&flow->node, &t->flows);'' @ [CHR 0x09] @ ''/* head-add => LIFO drain */''),
         (1, ''return 0;'')],
      code_line [(1, ''list_add(&flow->node, &t->flows);'' @ [CHR 0x09] @ ''/* head-add => LIFO drain */''),
         (1, ''hlist_add_head(&flow->bnode, &t->bidx[index]);'' @ [CHR 0x09] @ ''/* F-264 */''),
         (1, ''return 0;'')], 1),
    (fman_pcd_c,
      code_text [(2, ''*flow->bucket_h = flow->prev_head;''),
         (2, ''list_del(&flow->node);'')],
      code_text [(2, ''*flow->bucket_h = flow->prev_head;''),
         (2, ''list_del(&flow->node);''),
         (2, ''hlist_del(&flow->bnode);'' @ [CHR 0x09] @ ''/* F-264 */'')], 1),
    (fman_pcd_c,
      code_line [(1, ''list_del(&x->node);''),
         (0, []),
         (1, ''/* F-254:'')],
      code_line [(1, ''list_del(&x->node);''),
         (1, ''hlist_del(&x->bnode);'' @ [CHR 0x09] @ ''/* F-264 */''),
         (0, []),
         (1, ''/* F-254:'')], 1),
    (fman_pcd_c,
      '' * collision chain AND the prev_head LIFO-drain invariant intact. O(n).'',
      code_line [(0, '' * collision chain AND the prev_head LIFO-drain invariant intact. O(chain)''),
         (0, '' * since F-264 (bucket index).'')], 1),
    (fman_pcd_c,
      code_text [(1, ''list_for_each_entry(f, &t->flows, node) {''),
         (2, ''if (f->key_size == key_size &&''),
         (2, ''    !memcmp((u8 *)f->record + FMAN_EHASH_FLOW_KEY_OFF,''),
         (3, ''    key, key_size)) {''),
         (3, ''x = f;''),
         (3, ''break;''),
         (2, ''}''),
         (1, ''}''),
         (1, ''if (!x)''),
         (2, ''return -ENOENT;'')],
      code_text [(1, ''/* F-264: only the key'' @ [CHR 0x27] @ ''s own bucket can hold it. */''),
         (1, ''hlist_for_each_entry(f, &t->bidx[fman_pcd_ehash_bucket_index(key, key_size,''),
         (6, ''t->hash_shift, t->hash_mask)], bnode) {''),
         (2, ''if (f->key_size == key_size &&''),
         (2, ''    !memcmp((u8 *)f->record + FMAN_EHASH_FLOW_KEY_OFF,''),
         (3, ''    key, key_size)) {''),
         (3, ''x = f;''),
         (3, ''break;''),
         (2, ''}''),
         (1, ''}''),
         (1, ''if (!x)''),
         (2, ''return -ENOENT;'')], 1),
    (fman_pcd_c,
      code_text [(2, ''list_for_each_entry(y, &t->flows, node) {''),
         (3, ''u64 y_next;'')],
      code_text [(2, ''hlist_for_each_entry(y, &t->bidx[x->index], bnode) {'' @ [CHR 0x09] @ ''/* F-264 */''),
         (3, ''u64 y_next;'')], 1),
    (fman_pcd_c,
      code_text [(1, ''list_for_each_entry(f, &t->flows, node) {''),
         (2, ''if (f->key_size == key_size &&''),
         (2, ''    !memcmp((u8 *)f->record + FMAN_EHASH_FLOW_KEY_OFF,''),
         (3, ''    key, key_size)) {''),
         (3, ''hit = f;''),
         (3, ''break;''),
         (2, ''}''),
         (1, ''}'')],
      code_text [(1, ''/* F-264: walk the key'' @ [CHR 0x27] @ ''s bucket only; nf_flowtable polls every hardware''),
         (1, '' * flow each gc pass, so a whole-table scan here was O(N^2) per pass. */''),
         (1, ''if (key_size == t->key_size)''),
         (2, ''hlist_for_each_entry(f, &t->bidx[fman_pcd_ehash_bucket_index(key,''),
         (5, ''key_size, t->hash_shift, t->hash_mask)], bnode) {''),
         (3, ''if (f->key_size == key_size &&''),
         (3, ''    !memcmp((u8 *)f->record + FMAN_EHASH_FLOW_KEY_OFF,''),
         (4, ''    key, key_size)) {''),
         (4, ''hit = f;''),
         (4, ''break;''),
         (3, ''}''),
         (2, ''}'')], 1)]\<close>

definition F_264 :: fixup where
  "F_264 = \<lparr> fx_mark = ''F-264'', fx_edits = F_264_edits, fx_missing = SystemExit 1, fx_needs = [''F-263''], fx_precheck = True, fx_partial = False \<rparr>"

definition F_265_edits :: "edit list" where \<open>
  F_265_edits = [
    (fman_pcd_c,
      code_line [(4, ''dev_info(fman_get_dev(pcd->fman),''),
         (5, '' "fe_flow: F-177 FMFP_EXTC SYNC cleared after %u poll(s)'' @ [CHR 0x5C] @ ''n",'')],
      code_line [(4, ''dev_dbg(fman_get_dev(pcd->fman),'' @ [CHR 0x09] @ ''/* F-265 */''),
         (5, '' "fe_flow: F-177 FMFP_EXTC SYNC cleared after %u poll(s)'' @ [CHR 0x5C] @ ''n",'')], 2),
    (fman_pcd_c,
      (''pr_warn("fman_pcd: F-148 CC match table full (1 key max -- scaffold not sized for more)'' @ [CHR 0x5C] @ ''n");''),
      (''pr_warn_once("fman_pcd: F-148 CC match table full (1 key max -- scaffold not sized for more)'' @ [CHR 0x5C] @ ''n");'' @ [CHR 0x09] @ ''/* F-265 */''), 1)]\<close>

definition F_265 :: fixup where
  "F_265 = \<lparr> fx_mark = ''F-265'', fx_edits = F_265_edits, fx_missing = SystemExit 1, fx_needs = [], fx_precheck = True, fx_partial = False \<rparr>"

definition F_270_edits :: "edit list" where \<open>
  F_270_edits = [
    (fman_pcd_c,
      code_text [(2, ''*(__be16 *)(r + enqueue_off + 0) =''),
         (3, ''cpu_to_be16(vlan && (vlan->flags &''),
         (5, ''    (FMAN_PCD_VLANF_PPPOE_INSERT |''),
         (5, ''     FMAN_PCD_VLANF_BRIDGE)) ?''),
         (4, ''    0xffff : 1500);'' @ [CHR 0x09] @ ''/* F-268: bridge */'')],
      code_text [(2, ''/* F-270: EN_EHASH_DISABLE_FRAG. No frag pool/info exists unless''),
         (2, '' * F-262 seals a real MTU check below; 1500 here wedged the port''),
         (2, '' * on the first IP packet above it. */''),
         (2, ''*(__be16 *)(r + enqueue_off + 0) = cpu_to_be16(0xffff);'')], 1)]\<close>

definition F_270 :: fixup where
  "F_270 = \<lparr> fx_mark = ''F-270'', fx_edits = F_270_edits, fx_missing = SystemExit 1, fx_needs = [], fx_precheck = False, fx_partial = False \<rparr>"

definition F_271_edits :: "edit list" where \<open>
  F_271_edits = [
    (fman_pcd_c,
      code_text [(0, ''/*''),
         (0, '' * F-254 SYNC (RM S5.12.14.1): FMFP_EXTC[INV0] waits out lookups that may''),
         (0, '' * still hold a pointer the CPU just unlinked. -ETIMEDOUT (F-256) means a''),
         (0, '' * stuck task may still reference it: the caller keeps it.''),
         (0, '' */''),
         (0, ''static int fman_pcd_ehash_sync(struct fman_pcd_ehash_table *t, u32 *extc)''),
         (0, ''{''),
         (1, ''struct fman *fman = t->pcd ? fman_pcd_get_fman(t->pcd) : NULL;''),
         (1, ''const u32 inv0 = 0x80000000U;''),
         (1, ''unsigned int i;''),
         (1, ''u32 v = 0;''),
         (0, []),
         (1, ''*extc = 0;''),
         (1, ''dma_wmb();''),
         (1, ''if (!fman)''),
         (2, ''return 0;''),
         (1, ''fman_set_fpm_extc(fman, inv0);''),
         (1, ''for (i = 0; i < 100000U; i++) {''),
         (2, ''v = fman_get_fpm_extc(fman);''),
         (2, ''if (!(v & inv0))''),
         (3, ''break;''),
         (2, ''udelay(1);''),
         (1, ''}''),
         (1, ''*extc = v;''),
         (1, ''return (v & inv0) ? -ETIMEDOUT : 0;''),
         (0, ''}'')],
      code_text [(0, ''/*''),
         (0, '' * F-254 SYNC (RM S5.12.14.1): FMFP_EXTC[INV0] waits out lookups that may''),
         (0, '' * still hold a pointer the CPU just unlinked. -ETIMEDOUT (F-256) means a''),
         (0, '' * stuck task may still reference it: the caller keeps it.''),
         (0, '' *''),
         (0, '' * F-271 (R7 step 1): a timed-out SYNC is re-armed up to FMAN_EHASH_SYNC_TRIES''),
         (0, '' * times before the FMan is declared wedged. Counters (called under fe_lock)''),
         (0, '' * are read-only module parameters: ehash_sync_timeouts (attempts that timed''),
         (0, '' * out), ehash_sync_recovered (SYNCs that succeeded on a retry),''),
         (0, '' * ehash_sync_wedged (SYNCs that exhausted every attempt).''),
         (0, '' */''),
         (0, ''#define FMAN_EHASH_SYNC_TRIES 3''),
         (0, ''static unsigned int ehash_sync_timeouts;''),
         (0, ''static unsigned int ehash_sync_recovered;''),
         (0, ''static unsigned int ehash_sync_wedged;''),
         (0, ''module_param_named(ehash_sync_timeouts, ehash_sync_timeouts, uint, 0444);''),
         (0, ''module_param_named(ehash_sync_recovered, ehash_sync_recovered, uint, 0444);''),
         (0, ''module_param_named(ehash_sync_wedged, ehash_sync_wedged, uint, 0444);''),
         (0, []),
         (0, ''static int fman_pcd_ehash_sync(struct fman_pcd_ehash_table *t, u32 *extc)''),
         (0, ''{''),
         (1, ''struct fman *fman = t->pcd ? fman_pcd_get_fman(t->pcd) : NULL;''),
         (1, ''const u32 inv0 = 0x80000000U;''),
         (1, ''unsigned int i, attempt;''),
         (1, ''u32 v = 0;''),
         (0, []),
         (1, ''*extc = 0;''),
         (1, ''if (!fman) {''),
         (2, ''dma_wmb();''),
         (2, ''return 0;''),
         (1, ''}''),
         (1, ''for (attempt = 0; attempt < FMAN_EHASH_SYNC_TRIES; attempt++) {''),
         (2, ''dma_wmb();''),
         (2, ''fman_set_fpm_extc(fman, inv0);''),
         (2, ''for (i = 0; i < 100000U; i++) {''),
         (3, ''v = fman_get_fpm_extc(fman);''),
         (3, ''if (!(v & inv0))''),
         (4, ''break;''),
         (3, ''udelay(1);''),
         (2, ''}''),
         (2, ''*extc = v;''),
         (2, ''if (!(v & inv0)) {''),
         (3, ''if (attempt)''),
         (4, ''ehash_sync_recovered++;''),
         (3, ''return 0;''),
         (2, ''}''),
         (2, ''ehash_sync_timeouts++;''),
         (1, ''}''),
         (1, ''ehash_sync_wedged++;''),
         (1, ''return -ETIMEDOUT;''),
         (0, ''}'')], 1)]\<close>

definition F_271 :: fixup where
  "F_271 = \<lparr> fx_mark = ''F-271'', fx_edits = F_271_edits, fx_missing = SystemExit 1, fx_needs = [], fx_precheck = False, fx_partial = False \<rparr>"

definition F_272_edits :: "edit list" where \<open>
  F_272_edits = [
    (fman_pcd_c,
      code_text [(5, ''cpu_to_be32(((u32)vlan->push_tci << 16) |''),
         (6, ''    eth_type);'')],
      code_text [(5, ''cpu_to_be32(((u32)vlan->push_tci << 16) |''),
         (6, ''    l2_eth_type); /* F-272: 0x8864 after 0x43 */'')], 1)]\<close>

definition F_272 :: fixup where
  "F_272 = \<lparr> fx_mark = ''F-272'', fx_edits = F_272_edits, fx_missing = SystemExit 1, fx_needs = [], fx_precheck = False, fx_partial = False \<rparr>"

lemma code_text_Cons: "code_text ((n, s) # ls) = replicate n (CHR 0x09) @ s @ [CHR 0x0A] @ code_text ls"
  by (simp add: code_text_def tabs_def)

lemma code_line_Cons: "code_line ((n, s) # ls) = replicate n (CHR 0x09) @ s @ (if ls = [] then [] else [CHR 0x0A] @ code_line ls)"
  by (cases ls) (auto simp: code_line_def code_text_Cons butlast_append, simp add: code_text_def)

lemma contains_tail: "contains m s \<Longrightarrow> contains m (u @ s)"
  using contains_append [of m s u "[]"] by simp

lemma contains_front: "contains m s \<Longrightarrow> contains m (s @ v)"
  using contains_append [of m s "[]" v] by simp

lemma carries_text: "list_ex (\<lambda>(n, s). contains m s) ls \<Longrightarrow> contains m (code_text ls)"
proof (induction ls)
  case (Cons l ls)
  obtain n s where l: "l = (n, s)" by (cases l)
  from Cons.prems have "contains m s \<or> contains m (code_text ls)" using Cons.IH by (auto simp: l)
  then have "contains m (s @ [CHR 0x0A] @ code_text ls)" using contains_front contains_tail by metis
  then show ?case unfolding l code_text_Cons by (rule contains_tail)
qed simp

lemma carries_line: "list_ex (\<lambda>(n, s). contains m s) ls \<Longrightarrow> contains m (code_line ls)"
proof (induction ls)
  case (Cons l ls)
  obtain n s where l: "l = (n, s)" by (cases l)
  from Cons.prems have "contains m s \<or> ls \<noteq> [] \<and> contains m (code_line ls)" using Cons.IH by (cases ls) (auto simp: l)
  then have "contains m (s @ (if ls = [] then [] else [CHR 0x0A] @ code_line ls))"
    using contains_front contains_tail by metis
  then show ?case unfolding l code_line_Cons by (rule contains_tail)
qed simp

lemma carries_later: "contains m (code_line (l # ls)) \<Longrightarrow> contains m (code_line (k # l # ls))"
  by (cases k) (auto simp: code_line_Cons intro!: contains_tail simp del: append_Cons)

lemma carries_single: "contains m (tabs n s) \<Longrightarrow> contains m (code_line [(n, s)])"
  by (simp add: code_line_Cons tabs_def)

lemma longer: "n \<le> length (code_line (l # ls)) \<Longrightarrow> n < length (code_line (k # l # ls))"
  by (cases k) (simp add: code_line_Cons)

lemma longer_single: "length (tabs n s) \<le> length (code_line [(n, s)])"
  by (simp add: code_line_Cons tabs_def)

lemma carries_tabs: "contains m s \<Longrightarrow> contains m (tabs n s)"
  using contains_append [of m s "replicate n (CHR 0x09)" "[]"] by (simp add: tabs_def)

lemmas carries = conjI carries_text carries_line carries_tabs list.distinct(2) TrueI

lemma marked_fixupI:
  "fx_edits fx \<noteq> [] \<Longrightarrow> list_all (\<lambda>(p, old, new, w). 0 < w \<and> contains (fx_mark fx) new) (fx_edits fx) \<Longrightarrow> marked_fixup fx"
  by unfold_locales (auto simp: list_all_iff marks_def)

text \<open>
  The contract as a test: \<open>bs\<close> tells which edits bring the mark; the others are clear of it, and their files, among \<open>ps\<close>,
  get it from an edit that does.
\<close>

definition edit_case :: "string \<Rightarrow> bool \<Rightarrow> string list \<Rightarrow> bool \<Rightarrow> edit \<Rightarrow> bool" where
  "edit_case m pre ps b = (\<lambda>(p, old, new, w). if b then 0 < w \<and> contains m new else \<not> pre \<and> p \<in> set ps \<and> clear_of m old)"

lemma edit_caseI:
  "0 < w \<Longrightarrow> contains m new \<Longrightarrow> edit_case m pre ps True (p, old, new, w)"
  "\<not> pre \<Longrightarrow> p \<in> set ps \<Longrightarrow> clear_of m old \<Longrightarrow> edit_case m pre ps False (p, old, new, w)"
  by (simp_all add: edit_case_def)

lemma fixup_listI:
  assumes "list_all2 (edit_case (fx_mark fx) (fx_precheck fx) ps) bs (fx_edits fx)" "bs \<noteq> []"
    "set ps \<subseteq> set (map (\<lambda>(b, e). fst e) (filter fst (zip bs (fx_edits fx))))"
  shows "marked_fixup fx"
proof
  let ?es = "fx_edits fx" and ?m = "marks (fx_mark fx)"
  have each: "\<exists>b. (b, e) \<in> set (zip bs ?es) \<and> edit_case (fx_mark fx) (fx_precheck fx) ps b e" if "e \<in> set ?es" for e
    using assms(1) that by (fastforce simp: list_all2_conv_all_nth in_set_conv_nth set_zip)
  have good: "e \<in> set ?es \<and> ?m e" if "(True, e) \<in> set (zip bs ?es)" for e
    using assms(1) that by (cases e) (auto simp: list_all2_iff edit_case_def marks_def dest: set_zip_rightD)
  show "?es \<noteq> []" using assms(1,2) by (cases ?es) auto
  show "?m (p, old, new, w) \<or> \<not> fx_precheck fx \<and> clear_of (fx_mark fx) old" if "(p, old, new, w) \<in> set ?es" for p old new w
    using each [OF that] by (auto simp: edit_case_def marks_def split: if_splits)
  show "\<exists>e' \<in> set ?es. fst e' = fst e \<and> ?m e'" if "e \<in> set ?es" for e
  proof -
    obtain p old new w where e: "e = (p, old, new, w)" by (cases e)
    from each [OF that] consider "(True, e) \<in> set (zip bs ?es)" | "p \<in> set ps"
      by (auto simp: e edit_case_def split: if_splits)
    then show ?thesis
    proof cases
      case 2
      then obtain e' where "(True, e') \<in> set (zip bs ?es)" "fst e' = p" using assms(3) by fastforce
      then show ?thesis using good [of e'] by (auto simp: e)
    qed (use good [of e] in auto)
  qed
qed

interpretation f256: marked_fixup F_256
  by (rule marked_fixupI; unfold F_256_def F_256_edits_def fixup.select_convs list.pred_inject prod.case; (intro carries)?; code_simp)

interpretation f257: marked_fixup F_257
  by (rule marked_fixupI; unfold F_257_def F_257_edits_def fixup.select_convs list.pred_inject prod.case; (intro carries)?; code_simp)

interpretation f258: marked_fixup F_258
  by (rule marked_fixupI; unfold F_258_def F_258_edits_def fixup.select_convs list.pred_inject prod.case; (intro carries)?; code_simp)

interpretation f259: marked_fixup F_259
  by (rule marked_fixupI; unfold F_259_def F_259_edits_def fixup.select_convs list.pred_inject prod.case; (intro carries)?; code_simp)

interpretation f260: marked_fixup F_260
  by (rule marked_fixupI; unfold F_260_def F_260_edits_def fixup.select_convs list.pred_inject prod.case; (intro carries)?; code_simp)

interpretation f261: marked_fixup F_261
  by (rule marked_fixupI; unfold F_261_def F_261_edits_def fixup.select_convs list.pred_inject prod.case; (intro carries)?; code_simp)

interpretation f263: marked_fixup F_263
  by (rule marked_fixupI; unfold F_263_def F_263_edits_def fixup.select_convs list.pred_inject prod.case; (intro carries)?; code_simp)

interpretation f264: marked_fixup F_264
  by (rule marked_fixupI; unfold F_264_def F_264_edits_def fixup.select_convs list.pred_inject prod.case; (intro carries)?; code_simp)

interpretation f265: marked_fixup F_265
  by (rule marked_fixupI; unfold F_265_def F_265_edits_def fixup.select_convs list.pred_inject prod.case; (intro carries)?; code_simp)

interpretation f270: marked_fixup F_270
  by (rule marked_fixupI; unfold F_270_def F_270_edits_def fixup.select_convs list.pred_inject prod.case; (intro carries)?; code_simp)

interpretation f271: marked_fixup F_271
  by (rule marked_fixupI; unfold F_271_def F_271_edits_def fixup.select_convs list.pred_inject prod.case; (intro carries)?; code_simp)

interpretation f272: marked_fixup F_272
  by (rule marked_fixupI; unfold F_272_def F_272_edits_def fixup.select_convs list.pred_inject prod.case; (intro carries)?; code_simp)

definition F_056_marker :: string where \<open>
  F_056_marker = tabs 1 (''pr_info("fman_pcd fe_arm: port 0x%02x ENGAGED FE_ENTER=0x%lx (AC_CC)'' @ [CHR 0x5C] @ ''n",'')\<close>

definition F_056_new :: string where \<open>
  F_056_new = code_line [(1, ''/* F-055: MUX/Transition AD writes.  The 0146 context_build call''),
      (1, '' * failed to apply (F-047 context drift).  Write the MUX chain''),
      (1, '' * destination and Transition AD word 1 directly. */''),
      (1, ''{''),
      (2, ''struct muram_info *muram = fman_get_muram(pcd->fman);''),
      (2, ''if (muram) {''),
      (3, ''struct fman_pcd_fe_obj *enq;''),
      (3, ''enq = list_first_entry_or_null(&pcd->fe_enq,''),
      (4, ''struct fman_pcd_fe_obj, node);''),
      (3, ''if (enq && pcd->fe_mux_off) {''),
      (4, ''void __iomem *mux =''),
      (5, ''fman_muram_offset_to_vbase(muram,''),
      (6, ''pcd->fe_mux_off);''),
      (4, ''iowrite32be((u32)enq->muram_off,''),
      (5, ''mux);''),
      (3, ''}''),
      (3, ''if (pcd->fe_transition_off && pcd->fe_exit_off) {''),
      (4, ''void __iomem *trans =''),
      (5, ''fman_muram_offset_to_vbase(muram,''),
      (6, ''pcd->fe_transition_off);''),
      (4, ''iowrite32be((u32)pcd->fe_exit_off,''),
      (5, ''(u32 __iomem *)trans + 1);''),
      (3, ''}''),
      (2, ''}''),
      (1, ''}''),
      (0, []),
      (1, ''pr_info("fman_pcd fe_arm: port 0x%02x ENGAGED FE_ENTER=0x%lx (AC_CC)'' @ [CHR 0x5C] @ ''n",'')]\<close>

text \<open>\<^verbatim>\<open>F_056.py\<close> has no such gate: it looks for its anchor, and its replacement ends with the anchor.\<close>

definition F_056 :: "(tree, unit) io" where
  "F_056 fs =
     (case fs fman_pcd_c of
        None \<Rightarrow> (Inl FileNotFoundError, fs)
      | Some src \<Rightarrow> (Inr (), fs(fman_pcd_c \<mapsto>
          (if contains F_056_marker src then py_replace1 F_056_marker F_056_new src else src))))"

lemma F_056_texts: "contains F_056_marker F_056_new" "length F_056_marker < length F_056_new" "F_056_marker \<noteq> []"
proof -
  show "contains F_056_marker F_056_new"
    unfolding F_056_marker_def F_056_new_def by (intro carries_later carries_single contains_refl)
  show "length F_056_marker < length F_056_new"
    unfolding F_056_marker_def F_056_new_def
    by (rule longer, intro longer [THEN less_imp_le] longer_single)
  show "F_056_marker \<noteq> []" by (simp add: F_056_marker_def tabs_def)
qed

lemma F_056_repeats:
  assumes "fs fman_pcd_c = Some src" "contains F_056_marker src"
  shows "\<exists>out. F_056 fs = (Inr (), fs(fman_pcd_c \<mapsto> out)) \<and> contains F_056_marker out \<and> length src < length out"
proof -
  obtain ps where ps: "join F_056_marker ps = src" "length ps = Suc (py_count F_056_marker src)"
    "\<And>q. 0 < py_count F_056_marker src \<Longrightarrow> py_replace1 F_056_marker q src = hd ps @ q @ join F_056_marker (tl ps)"
    by (rule cutE [of F_056_marker src]) blast
  have n: "0 < py_count F_056_marker src" using assms(2) F_056_texts(3) py_count_0 by blast
  then obtain x y r where r: "ps = x # y # r" using ps(2) by (cases ps; cases "tl ps") auto
  have "src = x @ F_056_marker @ join F_056_marker (y # r)" using ps(1) r by (simp add: join_Cons)
  moreover have out: "py_replace1 F_056_marker F_056_new src = x @ F_056_new @ join F_056_marker (y # r)"
    using ps(3) [OF n] r by simp
  ultimately have "length src < length (py_replace1 F_056_marker F_056_new src)"
    using F_056_texts(2) by (metis add_less_cancel_left add_less_cancel_right length_append)
  moreover have "contains F_056_marker (py_replace1 F_056_marker F_056_new src)"
    unfolding out by (intro contains_append F_056_texts)
  ultimately show ?thesis using assms
    by (intro exI [of _ "py_replace1 F_056_marker F_056_new src"]) (simp add: F_056_def)
qed

section \<open>The replacement tool\<close>

lemma mutate_file_pieces:
  assumes "fs path = Some src" "mutate_file False once path old new k fs = (Inr (), fs')"
  shows "\<exists>ps. join old ps = src \<and> (if k < 0 then ps \<noteq> [] else int (length ps) = k + 1) \<and>
    fs' = fs(path \<mapsto> (if once \<and> 2 < length ps then hd ps @ new @ join old (tl ps) else join new ps))"
proof -
  obtain ps where ps: "length ps = Suc (py_count old src)" "join old ps = src" "\<And>q. py_replace old q src = join q ps"
    "\<And>q. 0 < py_count old src \<Longrightarrow> py_replace1 old q src = hd ps @ q @ join old (tl ps)"
    by (rule cutE [of old src]) blast
  have "ps \<noteq> []" using ps(1) by auto
  moreover have "if k < 0 then ps \<noteq> [] else int (length ps) = k + 1"
    using assms ps(1) by (auto simp: mutate_file_def Let_def split: if_splits)
  moreover have "fs' = fs(path \<mapsto> (if once \<and> 2 < length ps then hd ps @ new @ join old (tl ps) else join new ps))"
  proof (cases "k < 0 \<and> py_count old src = 0")
    case True
    then have "join new ps = src" using ps(3) [of new] py_replace_absent [of old src new] by simp
    then show ?thesis using assms True ps(1) by (auto simp: mutate_file_def fun_eq_iff)
  next
    case False
    then show ?thesis using assms ps by (auto simp: mutate_file_def Let_def split: if_splits)
  qed
  ultimately show ?thesis using ps(2) by blast
qed

lemma mutate_file_fails: "mutate_file dry once path old new k fs = (Inl e, fs') \<Longrightarrow> fs' = fs"
  by (auto simp: mutate_file_def Let_def split: if_splits option.splits)

lemma mutate_file_exists: "mutate_file dry once path old new k fs = (Inr (), fs') \<Longrightarrow> \<exists>src. fs path = Some src"
  by (auto simp: mutate_file_def split: option.splits)

lemma mutate_main_file:
  assumes "''--check'' \<notin> set argv" "5 \<le> length argv"
  shows "mutate_main argv fs = (case py_int 10 (argv ! 3) of Inl e \<Rightarrow> (Inl e, fs) | Inr k \<Rightarrow>
      mutate_file False (5 < length argv \<and> argv ! 5 = ''once'') (argv ! 0) (argv ! 1) (argv ! 2) k fs)"
    and "mutate_main (''--check'' # argv) fs = (fst (mutate_main argv fs), fs)"
  using assms
  by (simp_all add: mutate_main_def remove1_idem mutate_file_def bindIO_def liftIO_def Let_def split: sum.split option.split)

text \<open>The replacement tool is count-gated: a dry run has the same exit status and never writes; a failed
  run never writes; a run that returns has cut the file at the expected number of occurrences of the
  old text (any number, when the expectation is negative) and joined the pieces by the new text, or
  replaced only the first occurrence when asked to.\<close>
lemma mutate_count_gated:
  assumes "''--check'' \<notin> set argv" "5 \<le> length argv"
  shows "mutate_main (''--check'' # argv) fs = (fst (mutate_main argv fs), fs) \<and>
    (case mutate_main argv fs of
       (Inl e, fs') \<Rightarrow> fs' = fs
     | (Inr _, fs') \<Rightarrow> \<exists>src k ps. fs (argv ! 0) = Some src \<and> py_int 10 (argv ! 3) = Inr k \<and> join (argv ! 1) ps = src \<and>
         (if k < 0 then ps \<noteq> [] else int (length ps) = k + 1) \<and>
         fs' = fs(argv ! 0 \<mapsto> (if (5 < length argv \<and> argv ! 5 = ''once'') \<and> 2 < length ps
                  then hd ps @ argv ! 2 @ join (argv ! 1) (tl ps) else join (argv ! 2) ps)))"
proof (cases "py_int 10 (argv ! 3)")
  case (Inl e)
  then show ?thesis using mutate_main_file [OF assms, of fs] by simp
next
  case (Inr k)
  let ?once = "5 < length argv \<and> argv ! 5 = ''once''"
  obtain r fs' where m: "mutate_file False ?once (argv ! 0) (argv ! 1) (argv ! 2) k fs = (r, fs')" by fastforce
  have main: "mutate_main argv fs = (r, fs')" using mutate_main_file(1) [OF assms, of fs] Inr m by simp
  show ?thesis
  proof (cases r)
    case (Inl e)
    then show ?thesis using main mutate_file_fails m mutate_main_file(2) [OF assms, of fs] by simp
  next
    case (Inr u)
    then obtain src where src: "fs (argv ! 0) = Some src" using mutate_file_exists m by (cases u) fastforce
    from mutate_file_pieces [where fs = fs and path = "argv ! 0" and old = "argv ! 1" and new = "argv ! 2" and once = ?once
      and k = k and fs' = fs', OF this] m Inr
    show ?thesis using main mutate_main_file(2) [OF assms, of fs] src \<open>py_int 10 (argv ! 3) = Inr k\<close> by (cases u) simp
  qed
qed

lemma mutate_count_gated_witness:
  "mutate_main [''--check'', ''a.c'', ''x'', ''yy'', ''2'', ''l''] [''a.c'' \<mapsto> ''axbxc''] = (Inr (), [''a.c'' \<mapsto> ''axbxc'']) \<and>
   map_option id (snd (mutate_main [''a.c'', ''x'', ''yy'', ''2'', ''l''] [''a.c'' \<mapsto> ''axbxc'']) ''a.c'') = Some ''ayybyyc''"
proof -
  have "mutate_main [''a.c'', ''x'', ''yy'', ''2'', ''l''] [''a.c'' \<mapsto> ''axbxc''] = (Inr (), [''a.c'' \<mapsto> ''ayybyyc''])"
    by (simp add: mutate_main_def mutate_file_def bindIO_def liftIO_def text_eval py_count_def py_replace_def fun_eq_iff)
  then show ?thesis
    using mutate_count_gated [of "[''a.c'', ''x'', ''yy'', ''2'', ''l'']" "[''a.c'' \<mapsto> ''axbxc'']"] by simp
qed

end
