(* ===== verification/FixupTexts.thy ===== *)
theory FixupTexts
  imports Fixups
begin

text \<open>
  Nineteen more of the numbered kernel source scripts, with their texts, as constants of the script that
  \<^verbatim>\<open>Fixups\<close> runs.  A character outside ASCII is the bytes of its UTF-8 code.
\<close>

section \<open>The texts\<close>

definition fman_pcd_cc_test_c :: string where "fman_pcd_cc_test_c = ''drivers/net/ethernet/freescale/fman/fman_pcd_cc_test.c''"
definition fman_pcd_cc_c :: string where "fman_pcd_cc_c = ''drivers/net/ethernet/freescale/fman/fman_pcd_cc.c''"
definition fman_pcd_internal_h :: string where "fman_pcd_internal_h = ''drivers/net/ethernet/freescale/fman/fman_pcd_internal.h''"
definition fman_keygen_internal_h :: string where "fman_keygen_internal_h = ''drivers/net/ethernet/freescale/fman/fman_keygen_internal.h''"
definition fman_pcd_kg_c :: string where "fman_pcd_kg_c = ''drivers/net/ethernet/freescale/fman/fman_pcd_kg.c''"
definition fman_port_c :: string where "fman_port_c = ''drivers/net/ethernet/freescale/fman/fman_port.c''"
definition fman_port_h :: string where "fman_port_h = ''drivers/net/ethernet/freescale/fman/fman_port.h''"

definition F_201_old :: string where \<open>
  F_201_old =
    code_text [(1, ''/* F-051: force-clear RSS mask/hash config for exact-match ehash */''),
         (1, ''scheme_regs.kgse_bmch = 0;''),
         (1, ''scheme_regs.kgse_bmcl = 0;''),
         (1, ''scheme_regs.kgse_hc   = 0;''),
         (1, ''scheme_regs.kgse_ekdv = 0;'')]\<close>

definition F_201_new :: string where \<open>
  F_201_new =
    code_text [(1, ''/* F-051: force-clear RSS mask/hash config for exact-match ehash */''),
         (1, ''scheme_regs.kgse_bmch = 0;''),
         (1, ''scheme_regs.kgse_bmcl = 0;''),
         (1, ''/* F-201: only clear the hash-distribution word for CC/FE exact-match''),
         (1, '' * schemes (next_engine 2/3). RSS/direct-enqueue (next_engine 0) and''),
         (1, '' * policer (1) keep their computed kgse_hc so the CRC-64 hash spreads''),
         (1, '' * across all 128 RX PCD FQs / 4 portals; F-051'' @ [CHR 0x27] @ ''s unconditional clear''),
         (1, '' * collapsed every RSS scheme to a single FQ (CPU0), capping software''),
         (1, '' * forwarding at ~2.5 Gbps. eth3/eth4 keep a persistent EKFC override''),
         (1, '' * after ASK disengage, so scheme->ekfc is NOT a valid discriminator --''),
         (1, '' * the engine role is. The ehash terminal ignores FQID distribution. */''),
         (1, ''if (enable && (scheme->next_engine == 2 || scheme->next_engine == 3))''),
         (2, ''scheme_regs.kgse_hc   = 0;''),
         (1, ''scheme_regs.kgse_ekdv = 0;'')]\<close>

definition F_201 :: fixup where
  "F_201 = \<lparr> fx_mark = ''F-201'', fx_edits = [(fman_keygen_c, F_201_old, F_201_new, 1)],
     fx_missing = FileNotFoundError, fx_needs = [], fx_precheck = False, fx_partial = False \<rparr>"

definition F_209_old :: string where \<open>
  F_209_old =
    code_text [(3, ''tmp_reg |= NIA_ENG_FM_CTL | NIA_FM_CTL_AC_CC;'')]\<close>

definition F_209_new :: string where \<open>
  F_209_new =
    code_text [(3, ''tmp_reg |= NIA_ENG_FM_CTL | NIA_FM_CTL_AC_CC;''),
         (3, ''/* F-209: carry the per-scheme CCOBASE row index so an''),
         (3, '' * AC_CC scheme can select its own ehash node at''),
         (3, '' * FMBM_RCCB + CCOBASE*16 (silicon-proven 2026-08-19).''),
         (3, '' * v4 ASK arms cc_base_offset=0 -> byte-identical''),
         (3, '' * 0x80000006; the IPv6 scheme uses 1 -> 0x81000006.''),
         (3, '' * Touch ONLY bits [30:24]; never the NIA engine bits''),
         (3, '' * (the F-062c-R1 BMI-engine stall, 2026-07-14). */''),
         (3, ''tmp_reg |= (scheme->cc_base_offset <<''),
         (4, ''    KG_SCH_MODE_CCOBASE_SHIFT);'')]\<close>

definition F_209 :: fixup where
  "F_209 = \<lparr> fx_mark = ''F-209'', fx_edits = [(fman_keygen_c, F_209_old, F_209_new, 1)],
     fx_missing = SystemExit 1, fx_needs = [], fx_precheck = False, fx_partial = False \<rparr>"

definition F_222_old :: string where \<open>
  F_222_old =
    code_text [(0, ''#define DPAA_BP_ORDER 1'')]\<close>

definition F_222_new :: string where \<open>
  F_222_new =
    code_text [(0, ''/* F-222(order0-revert): order-1 (8 KiB) RX buffers wedge the port under''),
         (0, '' * sustained load via dev_alloc_pages() failure on a fragmented Normal zone''),
         (0, '' * (board .185 2026-08-21, ~800 Mbit/s routed transit, MemFree ~6.8 GB).''),
         (0, '' * Revert to the mainline-proven order-0 single-4 KiB-page RX buffer. All''),
         (0, '' * F-203 sites derive from this define, so this one line reverts them all;''),
         (0, '' * DPAA_BP_RAW_SIZE becomes 4096 and the ASK MTU clamp is lowered to ~3600''),
         (0, '' * (vyos-1x-036/037). ASK FE offload at standard MTU is unaffected (E25/E26''),
         (0, '' * HITs and F-220/F-221 per-port tables ran on order-0). */''),
         (0, ''#define DPAA_BP_ORDER 0'')]\<close>

definition F_222 :: fixup where
  "F_222 = \<lparr> fx_mark = ''F-222(order0-revert)'', fx_edits = [(dpaa_eth_c, F_222_old, F_222_new, 1)],
     fx_missing = SystemExit 0, fx_needs = [], fx_precheck = False, fx_partial = False \<rparr>"

definition F_224_old :: string where \<open>
  F_224_old =
    code_text [(1, ''if (scheme->ekfc) {''),
         (2, ''scheme_regs.kgse_ekfc = scheme->ekfc;'')]\<close>

definition F_224_new :: string where \<open>
  F_224_new =
    code_text [(1, ''if (scheme->ekfc) {''),
         (2, ''scheme_regs.kgse_ekfc = scheme->ekfc;''),
         (0, []),
         (2, ''/* F-224(dual-lane-gec): on the AC_CC FE scheme (next_engine==3)''),
         (2, '' * replace the EKFC key with the silicon-proven 46-byte all-GEC''),
         (2, '' * dual-lane key so ONE match-all scheme carries IPv4 AND IPv6 in''),
         (2, '' * one per-port table (no parser LCV split). EKFC=0 => no known''),
         (2, '' * fields, key is purely the concatenated GEC outputs. VALIDATED''),
         (2, '' * IPv4(0x0b)/IPv6(0x1b) address codes zero-fill the absent family'' @ [CHR 0x27] @ ''s''),
         (2, '' * lane from the (zeroed) default register. gec: [0]=family L3 byte 0''),
         (2, '' * (0x7b msk 0xF0: 0x40 v4 / 0x60 v6), [1]=v4 src+dst@+12, [2]=v6 src@+8,''),
         (2, '' * [3]=v6 dst@+24, [4]=proto, [5]=L4 ports. RSS/policer/CCBS schemes''),
         (2, '' * are untouched. */''),
         (2, ''if (scheme->next_engine == 3) {''),
         (3, ''scheme_regs.kgse_ekfc = 0;''),
         (3, ''scheme_regs.kgse_gec[0] = 0x80F07B00;''),
         (3, ''scheme_regs.kgse_gec[1] = 0x87FF0B0C;''),
         (3, ''scheme_regs.kgse_gec[2] = 0x8FFF1B08;''),
         (3, ''scheme_regs.kgse_gec[3] = 0x8FFF1B18;''),
         (3, ''scheme_regs.kgse_gec[4] = 0x80FF7200;''),
         (3, ''scheme_regs.kgse_gec[5] = 0x83FF7E00;''),
         (2, ''}'')]\<close>

definition F_224 :: fixup where
  "F_224 = \<lparr> fx_mark = ''F-224(dual-lane-gec)'', fx_edits = [(fman_keygen_c, F_224_old, F_224_new, 1)],
     fx_missing = SystemExit 0, fx_needs = [], fx_precheck = False, fx_partial = False \<rparr>"

definition F_227_old :: string where \<open>
  F_227_old =
    code_text [(1, ''swbp = (struct dpaa_eth_swbp *)vaddr;''),
         (1, ''skb = swbp->skb;''),
         (0, []),
         (1, ''/* No skb backpointer is set when running XDP. An xdp_frame''),
         (1, '' * backpointer is saved instead.''),
         (1, '' */''),
         (1, ''if (!skb) {''),
         (2, ''xdp_return_frame(swbp->xdpf);''),
         (2, ''return NULL;''),
         (1, ''}'')]\<close>

definition F_227_new :: string where \<open>
  F_227_new =
    code_text [(1, ''/* F-227 (2026-08-21): reject FMan-forwarded HIT FDs before touching''),
         (1, '' * swbp. Kernel skb/XDP TX confirms always carry FSL_DPAA_BPID_INV''),
         (1, '' * (set in skb_to_contig_fd/skb_to_sg_fd/dpaa_xdp_xmit_frame). A HIT''),
         (1, '' * frame that landed a confirm FD on a confirmed egress FQ carries a''),
         (1, '' * live RX BMan pool id and has NO dpaa_eth_swbp; its buffer was''),
         (1, '' * already deallocated by FMan (EBD=1). Dereferencing swbp->xdpf here''),
         (1, '' * panics (NULL/garbage), and dpaa_fd_release() would double-free.''),
         (1, '' * Ignore the confirm: nothing to free on the host side. This guard''),
         (1, '' * should never fire in a correct config (ask.ko fails closed to SW''),
         (1, '' * unless it has a no-confirm FQ); a firing means a HIT reached a''),
         (1, '' * confirmed FQ, so log it ratelimited for diagnosis. */''),
         (1, ''if (unlikely(fd->bpid != FSL_DPAA_BPID_INV)) {''),
         (2, ''net_warn_ratelimited("%s: F-227 dropped confirm for FMan HIT FD bpid=%u (HIT on confirmed FQ)'' @ [CHR 0x5C] @ ''n",''),
         (4, ''     priv->net_dev->name, fd->bpid);''),
         (2, ''return NULL;''),
         (1, ''}''),
         (0, []),
         (1, ''swbp = (struct dpaa_eth_swbp *)vaddr;''),
         (1, ''skb = swbp->skb;''),
         (0, []),
         (1, ''/* No skb backpointer is set when running XDP. An xdp_frame''),
         (1, '' * backpointer is saved instead.''),
         (1, '' */''),
         (1, ''if (!skb) {''),
         (2, ''xdp_return_frame(swbp->xdpf);''),
         (2, ''return NULL;''),
         (1, ''}'')]\<close>

definition F_227 :: fixup where
  "F_227 = \<lparr> fx_mark = ''F-227'', fx_edits = [(dpaa_eth_c, F_227_old, F_227_new, 1)],
     fx_missing = FileNotFoundError, fx_needs = [], fx_precheck = False, fx_partial = False \<rparr>"

definition F_229_old :: string where \<open>
  F_229_old =
    code_text [(1, ''err = phylink_of_phy_connect(mac_dev->phylink,''),
         (4, ''     mac_dev->dev->of_node, 0);''),
         (1, ''if (err)''),
         (2, ''goto phy_init_failed;''),
         (0, []),
         (1, ''for (i = 0; i < ARRAY_SIZE(mac_dev->port); i++) {'')]\<close>

definition F_229_new :: string where \<open>
  F_229_new =
    code_text [(1, ''err = phylink_of_phy_connect(mac_dev->phylink,''),
         (4, ''     mac_dev->dev->of_node, 0);''),
         (1, ''if (err)''),
         (2, ''goto phy_init_failed;''),
         (0, []),
         (1, ''/* F-229(force-sgmii-pause): issue #45 -- the GPY115C 1G RJ45''),
         (1, '' * links resolved with flow control off and lost carrier under sustained''),
         (1, '' * ingress forwarding load. Select manual symmetric 802.3x pause after''),
         (1, '' * PHY attach, before enabling traffic. The 10G XGMII ports are untouched.''),
         (1, '' */''),
         (1, ''if (mac_dev->phy_if == PHY_INTERFACE_MODE_SGMII) {''),
         (2, ''struct ethtool_pauseparam pause = {''),
         (3, ''.autoneg = 0,''),
         (3, ''.rx_pause = 1,''),
         (3, ''.tx_pause = 1,''),
         (2, ''};''),
         (0, []),
         (2, ''err = phylink_ethtool_set_pauseparam(mac_dev->phylink, &pause);''),
         (2, ''if (err) {''),
         (3, ''netif_err(priv, ifup, net_dev,''),
         (4, ''  "failed to enable symmetric pause: %d'' @ [CHR 0x5C] @ ''n", err);''),
         (3, ''phylink_disconnect_phy(mac_dev->phylink);''),
         (3, ''goto phy_init_failed;''),
         (2, ''}''),
         (1, ''}''),
         (0, []),
         (1, ''for (i = 0; i < ARRAY_SIZE(mac_dev->port); i++) {'')]\<close>

definition F_229 :: fixup where
  "F_229 = \<lparr> fx_mark = ''F-229(force-sgmii-pause)'', fx_edits = [(dpaa_eth_c, F_229_old, F_229_new, 1)],
     fx_missing = SystemExit 0, fx_needs = [], fx_precheck = False, fx_partial = False \<rparr>"

definition F_242_old :: string where \<open>
  F_242_old =
    code_text [(1, ''scheme_regs.kgse_bmcl = 0;'')]\<close>

definition F_242_new :: string where \<open>
  F_242_new =
    code_text [(1, ''/* F-242(bmcl-noop-mask): RM 5.10.3.12.5 BM0-3=0xFF is a no-op AND-mask on''),
         (1, '' * the 4 mask commands F-183'' @ [CHR 0x27] @ ''s kgse_bmch write arms incidentally --''),
         (1, '' * BMCL=0 was forcing their incidentally-selected target bytes (e.g.''),
         (1, '' * dual-lane key byte 42) to zero. See the F-183 comment below. */''),
         (1, ''scheme_regs.kgse_bmcl = 0xFFFFFFFF;'')]\<close>

definition F_242 :: fixup where
  "F_242 = \<lparr> fx_mark = ''F-242(bmcl-noop-mask)'', fx_edits = [(fman_keygen_c, F_242_old, F_242_new, 2)],
     fx_missing = SystemExit 0, fx_needs = [], fx_precheck = False, fx_partial = False \<rparr>"

definition F_244_old_array :: string where \<open>
  F_244_old_array =
    code_text [(0, ''/* Minimal LCV-injection PoC, ground-truth-verified against the real FMC''),
         (0, '' * Soft Parser Assembler source (see file header comment): OR_IV_LCV''),
         (0, '' * 0x80000000 (opcode 0x0003, imm low16, imm high16), then JMP HXS''),
         (0, '' * RETURN_HXS (0x1800 | 0x0400 | 0x3fe = 0x1FFE) to resume normal''),
         (0, '' * hard-parse flow. Packed as 2 32-bit big-endian words (each covering''),
         (0, '' * a pair of consecutive 16-bit instruction words -- (a<<16)|b is''),
         (0, '' * byte-identical to two sequential 16-bit BE writes of a then b). */''),
         (0, ''static const u32 cc_test_sp_poc_code32[2] = {''),
         (1, ''0x00030000U, /* OR_IV_LCV (0x0003), imm low16 (0x0000) */''),
         (1, ''0x80001FFEU, /* imm high16 (0x8000), JMP HXS RETURN_HXS (0x1FFE) */''),
         (0, ''};'')]\<close>

definition F_244_new_array :: string where \<open>
  F_244_new_array =
    code_text [(0, ''/* F-244(sp-magic-byte): magic-byte PoC, replacing F-243'' @ [CHR 0x27] @ ''s LCV-based sequence''),
         (0, '' * (see this file'' @ [CHR 0x27] @ ''s own F-243 header for why that verification was''),
         (0, '' * unusable). STORE_IV_TO_RA writes an unambiguous literal (0xC3)''),
         (0, '' * straight into Parse Result byte 14 (struct fman_prs_result'' @ [CHR 0x27] @ ''s''),
         (0, '' * route_type -- IPv6-only, absent-by-default, never rewritten by a''),
         (0, '' * later hard-parse stage), then JMP HXS RETURN_HXS resumes normal''),
         (0, '' * parsing. Ground-truth-verified against''),
         (0, '' * /tmp/kilo/fmc/source/spa/fm_sp_assembler.tab.c''),
         (0, '' * (_fmsp_store_iv_to_ra_action(): hw_words[0] = 0x0800 |''),
         (0, '' * ((num_bytes-1)<<7) | range_end, hw_words[1] = imm & 0xffff). */''),
         (0, ''static const u32 cc_test_sp_poc_code32[2] = {''),
         (1, ''0x080E00C3U, /* STORE_IV_TO_RA (0x0800|0<<7|14=0x080E), imm 0x00C3 */''),
         (1, ''0x1FFE0000U, /* JMP HXS RETURN_HXS (0x1FFE), pad */''),
         (0, ''};'')]\<close>

definition F_244 :: fixup where
  "F_244 = \<lparr> fx_mark = ''F-244(sp-magic-byte)'', fx_edits = [(fman_pcd_cc_test_c, F_244_old_array, F_244_new_array, 1)],
     fx_missing = SystemExit 0, fx_needs = [], fx_precheck = False, fx_partial = False \<rparr>"

definition F_246_anchor1 :: string where \<open>
  F_246_anchor1 =
    code_text [(1, ''iounmap(base);''),
         (1, ''pr_info("fman_pcd cc_test: sp_load OK, %zu-byte LCV-injection PoC at code offset 0x%03x'' @ [CHR 0x5C] @ ''n",''),
         (2, ''sizeof(cc_test_sp_poc_code32), SP_USER_CODE_BYTE_OFF);''),
         (1, ''return 0;''),
         (0, ''}''),
         (0, [])]\<close>

definition F_246_global_fns :: string where \<open>
  F_246_global_fns =
    code_text [(0, ''/* F-246(sp-global-enable): FMPR_RPIMAC (FM_MM_PRS+PRS_REGS_OFFSET+0x04, i.e.''),
         (0, '' * SP_CODE_PHYS_BASE+0x844 -- fm_prs.c:112 baseAddr+PRS_REGS_OFFSET''),
         (0, '' * (fm_prs.h:308, =0x840) locates struct fman_prs_regs, whose 2nd''),
         (0, '' * word is fmpr_rpimac, fsl_fman_prs.h:50-52) bit 0 -- the global,''),
         (0, '' * whole-parser-block soft-parser EXECUTION UNIT enable. Distinct''),
         (0, '' * from pmda[]'' @ [CHR 0x27] @ ''s per-port shadow RAM (no stop_port_hwp bracket needed''),
         (0, '' * -- matches the vendor'' @ [CHR 0x27] @ ''s own PrsEnable()/PrsDisable(), fman_prs.c,''),
         (0, '' * which write this register directly with no port bracket either).''),
         (0, '' * CORRECTION 2026-09-04: original cut of this fixup used +0x04''),
         (0, '' * (missing the +0x840 register-block offset), landing inside the''),
         (0, '' * soft-parser code RAM'' @ [CHR 0x27] @ ''s empty header instead of the real register''),
         (0, '' * -- board test never actually exercised FMPR_RPIMAC. Retest''),
         (0, '' * needed with the corrected offset before drawing conclusions. */''),
         (0, ''#define SP_RPIMAC_BYTE_OFF 0x844U''),
         (0, ''#define SP_RPIMAC_EN 0x00000001U''),
         (0, []),
         (0, ''static int cc_test_sp_global_set(bool enable)''),
         (0, ''{''),
         (1, ''void __iomem *base;''),
         (1, ''u32 val, rb;''),
         (0, []),
         (1, ''base = ioremap(SP_CODE_PHYS_BASE, SP_CODE_REGION_SIZE);''),
         (1, ''if (!base)''),
         (2, ''return -ENOMEM;''),
         (0, []),
         (1, ''val = ioread32be(base + SP_RPIMAC_BYTE_OFF);''),
         (1, ''if (enable)''),
         (2, ''val |= SP_RPIMAC_EN;''),
         (1, ''else''),
         (2, ''val &= ~SP_RPIMAC_EN;''),
         (1, ''iowrite32be(val, base + SP_RPIMAC_BYTE_OFF);''),
         (0, []),
         (1, ''rb = ioread32be(base + SP_RPIMAC_BYTE_OFF);''),
         (1, ''iounmap(base);''),
         (1, ''if (rb != val) {''),
         (2, ''pr_err("fman_pcd cc_test: sp_global_%s readback mismatch (wrote 0x%08x, read 0x%08x)'' @ [CHR 0x5C] @ ''n",''),
         (2, ''       enable ? "enable" : "disable", val, rb);''),
         (2, ''return -EIO;''),
         (1, ''}''),
         (1, ''pr_info("fman_pcd cc_test: soft-parser execution unit %s (FMPR_RPIMAC=0x%08x)'' @ [CHR 0x5C] @ ''n",''),
         (2, ''enable ? "globally enabled" : "globally disabled", rb);''),
         (1, ''return 0;''),
         (0, ''}''),
         (0, [])]\<close>

definition F_246_anchor2 :: string where \<open>
  F_246_anchor2 =
    code_text [(1, ''} else if (strncmp(kbuf, "sp_load", 7) == 0) {'')]\<close>

definition F_246_new2 :: string where \<open>
  F_246_new2 =
    code_text [(1, ''} else if (strncmp(kbuf, "sp_global_enable", 16) == 0) {''),
         (2, ''/* F-246(sp-global-enable): turn the soft-parser execution unit ON, globally''),
         (2, '' * (all ports). Inert unless some port'' @ [CHR 0x27] @ ''s pmda[].ssa also points''),
         (2, '' * at loaded code (sp_arm). */''),
         (2, ''ret = cc_test_sp_global_set(true);''),
         (2, ''if (ret == 0)''),
         (3, ''ret = count;''),
         (1, ''} else if (strncmp(kbuf, "sp_global_disable", 18) == 0) {''),
         (2, ''/* F-246(sp-global-enable): turn it back off (mainline default state). */''),
         (2, ''ret = cc_test_sp_global_set(false);''),
         (2, ''if (ret == 0)''),
         (3, ''ret = count;''),
         (1, ''} else if (strncmp(kbuf, "sp_load", 7) == 0) {'')]\<close>

definition F_246 :: fixup where
  "F_246 = \<lparr> fx_mark = ''F-246(sp-global-enable)'', fx_edits = [(fman_pcd_cc_test_c, F_246_anchor1, F_246_anchor1 @ F_246_global_fns, 1), (fman_pcd_cc_test_c, F_246_anchor2, F_246_new2, 1)],
     fx_missing = SystemExit 0, fx_needs = [], fx_precheck = False, fx_partial = False \<rparr>"

definition F_248_anchor1 :: string where \<open>
  F_248_anchor1 =
    code_text [(1, ''pr_info("fman_pcd cc_test: IPv6 dual-lane+PID (hybrid EKFC+GEC) port 0x%02x CC base 0x%x -> fqid 0x%x %pI6c:%u -> %pI6c:%u proto %u'' @ [CHR 0x5C] @ ''n",''),
         (2, ''port_id, cc_base, fqid, src6, sport, dst6, dport, proto);''),
         (1, ''return 0;''),
         (0, []),
         (0, ''out_destroy_cc:''),
         (1, ''(void)fman_pcd_kg_port_detach_cc(pcd, port_id);''),
         (1, ''fman_pcd_cc_static_destroy(pcd, port_id);''),
         (1, ''return err;''),
         (0, ''}'')]\<close>

definition F_248_new_fn :: string where \<open>
  F_248_new_fn =
    code_text [(0, []),
         (0, ''/* F-248(cc-test-install-l2): install_l2 <port> <dst_mac> <target-fqid-hex>''),
         (0, '' *''),
         (0, '' * T-M6-2 B2 (plans/ASK2-BRIDGE-OFFLOAD-PLAN.md): install ONE CC leaf''),
         (0, '' * matching only the bridge FDB L2 composite'' @ [CHR 0x27] @ ''s destination-MAC field''),
         (0, '' * (FMAN_PCD_CC_HW_F_MAC_DST, cc_pack_key_l2()/CC_KEY_SIZE_L2=15 --''),
         (0, '' * patch 0205/0206), arm the port'' @ [CHR 0x27] @ ''s KeyGen scheme for the L2 extraction''),
         (0, '' * (fman_pcd_kg_port_attach_cc_l2(), EKFC 0xe4000000 -- patch 0207), and''),
         (0, '' * point the port'' @ [CHR 0x27] @ ''s FMBM_RCCB at the tree, exactly like every other''),
         (0, '' * install_* variant above (fman_pcd_cc_static_get_base ->''),
         (0, '' * fman_pcd_port_ensure_params_page -> fman_port_set_cc_base ->''),
         (0, '' * kg_port_attach_cc_*). miss_fe_off is left 0 (miss stays on the''),
         (0, '' * existing RSS/SW path) -- the coexistence proof'' @ [CHR 0x27] @ ''s non-zero-miss case''),
         (0, '' * is a separate, later install once the read-only oracle question this''),
         (0, '' * command exists to answer (plan '' @ [CHR 0xC2] @ [CHR 0xA7] @ ''8.1, probe3 mode 2 -- F-247) is''),
         (0, '' * settled; this is deliberately the simplest possible arm.''),
         (0, '' *''),
         (0, '' * spec is heap-allocated (kzalloc/kfree), not stack: struct''),
         (0, '' * fman_pcd_cc_hw_spec carries a 64-entry key array and does not belong''),
         (0, '' * on a kernel stack frame, matching every other install_* variant in''),
         (0, '' * this file.''),
         (0, '' */''),
         (0, ''static int cc_test_install_l2(struct fman_pcd *pcd, const char *args)''),
         (0, ''{''),
         (1, ''struct fman_pcd_cc_hw_spec *spec = NULL;''),
         (1, ''struct fman_port *rxport;''),
         (1, ''struct fman *fm;''),
         (1, ''char mac_str[32];''),
         (1, ''u8 dst_mac[ETH_ALEN];''),
         (1, ''u32 fqid, cc_base;''),
         (1, ''u8 port_id;''),
         (1, ''int n, err;''),
         (0, []),
         (1, ''n = sscanf(args, "install_l2 %hhi %31s %x", &port_id, mac_str, &fqid);''),
         (1, ''if (n != 3 || port_id >= ARRAY_SIZE(cc_test_vlan_hm))''),
         (2, ''return -EINVAL;''),
         (1, ''if (!mac_pton(mac_str, dst_mac))''),
         (2, ''return -EINVAL;''),
         (0, []),
         (1, ''fm = fman_pcd_get_fman(pcd);''),
         (1, ''if (!fm)''),
         (2, ''return -ENODEV;''),
         (0, []),
         (1, ''spec = kzalloc(sizeof(*spec), GFP_KERNEL);''),
         (1, ''if (!spec)''),
         (2, ''return -ENOMEM;''),
         (1, ''spec->bridge_l2 = true;''),
         (1, ''spec->num_keys = 1;''),
         (1, ''spec->miss_qband = 0;''),
         (1, ''spec->miss_fqid = 0;'' @ [CHR 0x09] @ ''/* miss stays on the existing RSS/SW path */''),
         (1, ''spec->keys[0].present = FMAN_PCD_CC_HW_F_MAC_DST;''),
         (1, ''ether_addr_copy(spec->keys[0].dst_mac, dst_mac);''),
         (1, ''spec->keys[0].target_qband = 0;''),
         (1, ''spec->keys[0].target_fqid = fqid;''),
         (0, []),
         (1, ''err = fman_pcd_cc_static_install(pcd, port_id, spec);''),
         (1, ''kfree(spec);''),
         (1, ''if (err)''),
         (2, ''return err;''),
         (0, []),
         (1, ''err = fman_pcd_cc_static_get_base(pcd, port_id, &cc_base);''),
         (1, ''if (err)''),
         (2, ''goto out_destroy_cc;''),
         (1, ''rxport = fman_port_lookup_rx(fm, port_id);''),
         (1, ''if (!rxport) {''),
         (2, ''err = -ENODEV;''),
         (2, ''goto out_destroy_cc;''),
         (1, ''}''),
         (1, ''err = fman_pcd_port_ensure_params_page(pcd, rxport);''),
         (1, ''if (err)''),
         (2, ''goto out_destroy_cc;''),
         (1, ''err = fman_port_set_cc_base(rxport, cc_base);''),
         (1, ''if (err)''),
         (2, ''goto out_destroy_cc;''),
         (1, ''err = fman_pcd_kg_port_attach_cc_l2(pcd, port_id, cc_base);''),
         (1, ''if (err) {''),
         (2, ''(void)fman_port_set_cc_base(rxport, 0);''),
         (2, ''goto out_destroy_cc;''),
         (1, ''}''),
         (0, []),
         (1, ''pr_info("fman_pcd cc_test: bridge L2 DA-match port 0x%02x CC base 0x%x -> fqid 0x%x DA %pM'' @ [CHR 0x5C] @ ''n",''),
         (2, ''port_id, cc_base, fqid, dst_mac);''),
         (1, ''return 0;''),
         (0, []),
         (0, ''out_destroy_cc:''),
         (1, ''(void)fman_pcd_kg_port_detach_cc(pcd, port_id);''),
         (1, ''fman_pcd_cc_static_destroy(pcd, port_id);''),
         (1, ''return err;''),
         (0, ''}'')]\<close>

definition F_248_anchor2 :: string where \<open>
  F_248_anchor2 =
    code_text [(1, ''} else if (strncmp(kbuf, "install ", 8) == 0) {'')]\<close>

definition F_248_new2 :: string where \<open>
  F_248_new2 =
    code_text [(1, ''} else if (strncmp(kbuf, "install_l2 ", 11) == 0) {''),
         (2, ''ret = cc_test_install_l2(pcd, kbuf);''),
         (2, ''if (ret == 0)''),
         (3, ''ret = count;''),
         (1, ''} else if (strncmp(kbuf, "install ", 8) == 0) {'')]\<close>

definition F_248 :: fixup where
  "F_248 = \<lparr> fx_mark = ''F-248(cc-test-install-l2)'', fx_edits = [(fman_pcd_cc_test_c, F_248_anchor1, F_248_anchor1 @ F_248_new_fn, 1), (fman_pcd_cc_test_c, F_248_anchor2, F_248_new2, 1)],
     fx_missing = SystemExit 0, fx_needs = [''cc_test_install_v6pid''], fx_precheck = False, fx_partial = False \<rparr>"

definition F_247_anchor1 :: string where \<open>
  F_247_anchor1 =
    code_text [(1, ''n = sscanf(kbuf, "probe3 %d %159[^'' @ [CHR 0x5C] @ ''n]", &mode, tail);''),
         (1, ''if (n != 2 || (mode != 0 && mode != 1))''),
         (2, ''return -EINVAL;'')]\<close>

definition F_247_new1 :: string where \<open>
  F_247_new1 =
    code_text [(1, ''n = sscanf(kbuf, "probe3 %d %159[^'' @ [CHR 0x5C] @ ''n]", &mode, tail);''),
         (1, ''/* F-247(probe3-l2): mode 2 added alongside the existing 0/1. */''),
         (1, ''if (n != 2 || (mode != 0 && mode != 1 && mode != 2))''),
         (2, ''return -EINVAL;'')]\<close>

definition F_247_anchor2 :: string where \<open>
  F_247_anchor2 =
    code_text [(1, ''if (mode == 1)''),
         (2, ''n = snprintf(reprefixed, sizeof(reprefixed), "install_v6pid %s", tail);''),
         (1, ''else''),
         (2, ''n = snprintf(reprefixed, sizeof(reprefixed), "install_v6 %s", tail);'')]\<close>

definition F_247_new2 :: string where \<open>
  F_247_new2 =
    code_text [(1, ''/* F-247(probe3-l2): mode 2 = bridge FDB L2 composite. */''),
         (1, ''if (mode == 2)''),
         (2, ''n = snprintf(reprefixed, sizeof(reprefixed), "install_l2 %s", tail);''),
         (1, ''else if (mode == 1)''),
         (2, ''n = snprintf(reprefixed, sizeof(reprefixed), "install_v6pid %s", tail);''),
         (1, ''else''),
         (2, ''n = snprintf(reprefixed, sizeof(reprefixed), "install_v6 %s", tail);'')]\<close>

definition F_247_anchor3 :: string where \<open>
  F_247_anchor3 =
    code_text [(1, ''err = (mode == 1) ? cc_test_install_v6pid(pcd, reprefixed)''),
         (3, ''   : cc_test_install_v6(pcd, reprefixed);'')]\<close>

definition F_247_new3 :: string where \<open>
  F_247_new3 =
    code_text [(1, ''/* F-247(probe3-l2): mode 2 dispatch. */''),
         (1, ''if (mode == 2)''),
         (2, ''err = cc_test_install_l2(pcd, reprefixed);''),
         (1, ''else''),
         (2, ''err = (mode == 1) ? cc_test_install_v6pid(pcd, reprefixed)''),
         (4, ''   : cc_test_install_v6(pcd, reprefixed);'')]\<close>

definition F_247 :: fixup where
  "F_247 = \<lparr> fx_mark = ''F-247(probe3-l2)'', fx_edits = [(fman_pcd_cc_test_c, F_247_anchor1, F_247_new1, 1), (fman_pcd_cc_test_c, F_247_anchor2, F_247_new2, 1), (fman_pcd_cc_test_c, F_247_anchor3, F_247_new3, 1)],
     fx_missing = SystemExit 0, fx_needs = [''cc_test_probe3'', ''cc_test_install_l2'', ''cc_test_saved_ricp''], fx_precheck = False, fx_partial = False \<rparr>"

definition F_249_anchor :: string where \<open>
  F_249_anchor =
    code_text [(1, ''spec->miss_fqid = 0;'' @ [CHR 0x09] @ ''/* miss stays on the existing RSS/SW path */''),
         (1, ''spec->keys[0].present = FMAN_PCD_CC_HW_F_MAC_DST;'')]\<close>

definition F_249_new :: string where \<open>
  F_249_new =
    code_text [(1, ''spec->miss_fqid = 0;'' @ [CHR 0x09] @ ''/* miss stays on the existing RSS/SW path */''),
         (1, ''/* F-249(install-l2-fe-coexist): plan '' @ [CHR 0xC2] @ [CHR 0xA7] @ ''8.2 coexistence -- if ASK ehash is already''),
         (1, '' * engaged anywhere (shared FE_ENTER root), CC miss continues into''),
         (1, '' * it instead of falling through to plain RSS. 0 (no-op, same as''),
         (1, '' * before) if nothing has ehash engaged yet.''),
         (1, '' */''),
         (1, ''spec->miss_fe_off = fman_pcd_fe_root_get_offset(fm);''),
         (1, ''spec->keys[0].present = FMAN_PCD_CC_HW_F_MAC_DST;'')]\<close>

definition F_249 :: fixup where
  "F_249 = \<lparr> fx_mark = ''F-249(install-l2-fe-coexist)'', fx_edits = [(fman_pcd_cc_test_c, F_249_anchor, F_249_new, 1)],
     fx_missing = SystemExit 0, fx_needs = [''cc_test_install_l2''], fx_precheck = False, fx_partial = False \<rparr>"

definition F_250_anchor1 :: string where \<open>
  F_250_anchor1 =
    code_text [(1, ''pr_info("fman_pcd cc_test: bridge L2 DA-match port 0x%02x CC base 0x%x -> fqid 0x%x DA %pM'' @ [CHR 0x5C] @ ''n",''),
         (2, ''port_id, cc_base, fqid, dst_mac);''),
         (1, ''return 0;''),
         (0, []),
         (0, ''out_destroy_cc:''),
         (1, ''(void)fman_pcd_kg_port_detach_cc(pcd, port_id);''),
         (1, ''fman_pcd_cc_static_destroy(pcd, port_id);''),
         (1, ''return err;''),
         (0, ''}'')]\<close>

definition F_250_new_fn :: string where \<open>
  F_250_new_fn =
    code_text [(0, []),
         (0, ''/* F-250(cc-test-install-l2fwd): install_l2fwd <port> <dst_mac> <target-fqid-hex>''),
         (0, '' *''),
         (0, '' * Plan '' @ [CHR 0xC2] @ [CHR 0xA7] @ ''8.2b hypothesis test (see this fixup'' @ [CHR 0x27] @ ''s own module docstring''),
         (0, '' * for the full reasoning): identical to install_l2 except the CC''),
         (0, '' * leaf'' @ [CHR 0x27] @ ''s AD chains via NADEN through a minimal single-op''),
         (0, '' * IPV4_FORWARD HMTD instead of a bare fqid-only enqueue. Semantically''),
         (0, '' * valid for real IPv4/UDP frames (dec_ttl+l4_csum, exactly like the''),
         (0, '' * routed-forward op install_vlan'' @ [CHR 0x27] @ ''s own "pop" path already uses) --''),
         (0, '' * a successfully-forwarded frame'' @ [CHR 0x27] @ ''s TTL reads one less than sent,''),
         (0, '' * independently confirming it walked the HMTD. NOT the final bridge''),
         (0, '' * design (plan '' @ [CHR 0xC2] @ [CHR 0xA7] @ ''1: untagged bridging should need no header edit) --''),
         (0, '' * purely to test whether bare (non-NADEN) cross-port enqueue is the''),
         (0, '' * gap, or whether the problem lies elsewhere.''),
         (0, '' */''),
         (0, ''static int cc_test_install_l2fwd(struct fman_pcd *pcd, const char *args)''),
         (0, ''{''),
         (1, ''struct fman_pcd_cc_hw_spec *spec = NULL;''),
         (1, ''struct fman_pcd_hm_hw_spec hm;''),
         (1, ''struct fman_port *rxport;''),
         (1, ''struct fman *fm;''),
         (1, ''char mac_str[32];''),
         (1, ''u8 dst_mac[ETH_ALEN];''),
         (1, ''u32 fqid, cc_base, hm_handle = 0;''),
         (1, ''u8 port_id;''),
         (1, ''int n, err;''),
         (0, []),
         (1, ''n = sscanf(args, "install_l2fwd %hhi %31s %x", &port_id, mac_str, &fqid);''),
         (1, ''if (n != 3 || port_id >= ARRAY_SIZE(cc_test_vlan_hm))''),
         (2, ''return -EINVAL;''),
         (1, ''if (!mac_pton(mac_str, dst_mac))''),
         (2, ''return -EINVAL;''),
         (0, []),
         (1, ''fm = fman_pcd_get_fman(pcd);''),
         (1, ''if (!fm)''),
         (2, ''return -ENODEV;''),
         (1, ''if (cc_test_vlan_hm[port_id])''),
         (2, ''return -EBUSY;''),
         (0, []),
         (1, ''memset(&hm, 0, sizeof(hm));''),
         (1, ''hm.num_ops = 1;''),
         (1, ''hm.ops[0].type = FMAN_PCD_HM_HW_OP_IPV4_FORWARD;''),
         (1, ''hm.ops[0].ipv4_forward.dec_ttl = 1;''),
         (1, ''hm.ops[0].ipv4_forward.l4_csum = 1;''),
         (1, ''err = fman_pcd_hm_install(pcd, port_id, &hm, &hm_handle);''),
         (1, ''if (err)''),
         (2, ''return err;''),
         (0, []),
         (1, ''spec = kzalloc(sizeof(*spec), GFP_KERNEL);''),
         (1, ''if (!spec) {''),
         (2, ''err = -ENOMEM;''),
         (2, ''goto out_put_hm;''),
         (1, ''}''),
         (1, ''spec->bridge_l2 = true;''),
         (1, ''spec->num_keys = 1;''),
         (1, ''spec->miss_qband = 0;''),
         (1, ''spec->miss_fqid = 0;''),
         (1, ''spec->miss_fe_off = fman_pcd_fe_root_get_offset(fm);''),
         (1, ''spec->keys[0].present = FMAN_PCD_CC_HW_F_MAC_DST;''),
         (1, ''ether_addr_copy(spec->keys[0].dst_mac, dst_mac);''),
         (1, ''spec->keys[0].target_qband = 0;''),
         (1, ''spec->keys[0].target_fqid = fqid;''),
         (1, ''spec->keys[0].hm_handle = hm_handle;''),
         (0, []),
         (1, ''err = fman_pcd_cc_static_install(pcd, port_id, spec);''),
         (1, ''kfree(spec);''),
         (1, ''spec = NULL;''),
         (1, ''if (err)''),
         (2, ''goto out_put_hm;''),
         (0, []),
         (1, ''err = fman_pcd_cc_static_get_base(pcd, port_id, &cc_base);''),
         (1, ''if (err)''),
         (2, ''goto out_destroy_cc;''),
         (1, ''rxport = fman_port_lookup_rx(fm, port_id);''),
         (1, ''if (!rxport) {''),
         (2, ''err = -ENODEV;''),
         (2, ''goto out_destroy_cc;''),
         (1, ''}''),
         (1, ''err = fman_pcd_port_ensure_params_page(pcd, rxport);''),
         (1, ''if (err)''),
         (2, ''goto out_destroy_cc;''),
         (1, ''err = fman_port_set_cc_base(rxport, cc_base);''),
         (1, ''if (err)''),
         (2, ''goto out_destroy_cc;''),
         (1, ''err = fman_pcd_kg_port_attach_cc_l2(pcd, port_id, cc_base);''),
         (1, ''if (err) {''),
         (2, ''(void)fman_port_set_cc_base(rxport, 0);''),
         (2, ''goto out_destroy_cc;''),
         (1, ''}''),
         (0, []),
         (1, ''cc_test_vlan_hm[port_id] = hm_handle;''),
         (1, ''pr_info("fman_pcd cc_test: bridge L2+HMTD DA-match port 0x%02x CC base 0x%x HMTD 0x%x -> fqid 0x%x DA %pM'' @ [CHR 0x5C] @ ''n",''),
         (2, ''port_id, cc_base, hm_handle, fqid, dst_mac);''),
         (1, ''return 0;''),
         (0, []),
         (0, ''out_destroy_cc:''),
         (1, ''(void)fman_pcd_kg_port_detach_cc(pcd, port_id);''),
         (1, ''fman_pcd_cc_static_destroy(pcd, port_id);''),
         (0, ''out_put_hm:''),
         (1, ''(void)fman_pcd_hm_destroy(pcd, port_id, hm_handle);''),
         (1, ''return err;''),
         (0, ''}'')]\<close>

definition F_250_anchor2 :: string where \<open>
  F_250_anchor2 =
    code_text [(1, ''} else if (strncmp(kbuf, "install_l2 ", 11) == 0) {'')]\<close>

definition F_250_new2 :: string where \<open>
  F_250_new2 =
    code_text [(1, ''} else if (strncmp(kbuf, "install_l2fwd ", 14) == 0) {''),
         (2, ''ret = cc_test_install_l2fwd(pcd, kbuf);''),
         (2, ''if (ret == 0)''),
         (3, ''ret = count;''),
         (1, ''} else if (strncmp(kbuf, "install_l2 ", 11) == 0) {'')]\<close>

definition F_250 :: fixup where
  "F_250 = \<lparr> fx_mark = ''F-250(cc-test-install-l2fwd)'', fx_edits = [(fman_pcd_cc_test_c, F_250_anchor1, F_250_anchor1 @ F_250_new_fn, 1), (fman_pcd_cc_test_c, F_250_anchor2, F_250_new2, 1)],
     fx_missing = SystemExit 0, fx_needs = [''cc_test_install_l2'', ''cc_test_vlan_hm'', ''FMAN_PCD_HM_HW_OP_IPV4_FORWARD''], fx_precheck = False, fx_partial = False \<rparr>"

definition F_251_anchor1 :: string where \<open>
  F_251_anchor1 =
    code_text [(4, ''unsigned int i, len = (unsigned int)t->num_keys * 32;'')]\<close>

definition F_251_new1 :: string where \<open>
  F_251_new1 =
    code_text [(4, ''/* F-251(cc-seq-dump-ad-table): was hardcoded * 32 (assumes the default 16B''),
         (4, '' * key+mask pair); a bridge_l2 tree'' @ [CHR 0x27] @ ''s real row is 2*15=30B,''),
         (4, '' * dual_lane'' @ [CHR 0x27] @ ''s is 2*46=92B, etc. -- use the tree'' @ [CHR 0x27] @ ''s own''),
         (4, '' * key_size, same fix class as cc_write_group0()'' @ [CHR 0x27] @ ''s own''),
         (4, '' * comment already flags. */''),
         (4, ''unsigned int i, len = (unsigned int)t->num_keys * 2 * t->key_size;'')]\<close>

definition F_251_anchor2 :: string where \<open>
  F_251_anchor2 =
    code_text [(5, ''seq_printf(m, " %02x",''),
         (6, ''   ioread8((u8 __iomem *)mt + i));''),
         (4, ''}''),
         (4, ''seq_puts(m, "'' @ [CHR 0x5C] @ ''n");''),
         (3, ''}''),
         (2, ''}''),
         (1, ''}''),
         (1, ''mutex_unlock(fman_pcd_get_lock(pcd));''),
         (0, ''}'')]\<close>

definition F_251_new2 :: string where \<open>
  F_251_new2 =
    code_text [(5, ''seq_printf(m, " %02x",''),
         (6, ''   ioread8((u8 __iomem *)mt + i));''),
         (4, ''}''),
         (4, ''seq_puts(m, "'' @ [CHR 0x5C] @ ''n");''),
         (3, ''}''),
         (3, ''/* F-251(cc-seq-dump-ad-table): AD table -- the missing oracle for '' @ [CHR 0xC2] @ [CHR 0xA7] @ ''8.2b.''),
         (3, '' * (num_keys+1) rows (the trailing row is the miss AD),''),
         (3, '' * CC_AD_ENTRY_SIZE=16B each: word0|word1|word2|word3 in''),
         (3, '' * that byte order, matching cc_write_leaf_ad()'' @ [CHR 0x27] @ ''s own''),
         (3, '' * iowrite32be() layout -- fqid (or RES_DATA_FLOW for a''),
         (3, '' * soft fall-through), hm>>4 (0 if no HMTD), the NIA word''),
         (3, '' * (CC_NIA_FMCTL_PRE_BMI_ENQ, optionally |NADEN|EXTENDED),''),
         (3, '' * 0. Lets a live install be checked against what the''),
         (3, '' * software believes it wrote, not just trusted. */''),
         (3, ''if (muram && t->ad_off) {''),
         (4, ''void __iomem *adt = (void __iomem *)''),
         (5, ''fman_muram_offset_to_vbase(muram, t->ad_off);''),
         (4, ''unsigned int j, ad_len = ((unsigned int)t->num_keys + 1) *''),
         (5, ''CC_AD_ENTRY_SIZE;''),
         (0, []),
         (4, ''seq_puts(m, "  AD table (row = 16B: w0 w1 w2 w3):");''),
         (4, ''for (j = 0; j < ad_len; j++) {''),
         (5, ''if (j % 16 == 0)''),
         (6, ''seq_printf(m, "'' @ [CHR 0x5C] @ ''n    %04x:", j);''),
         (5, ''seq_printf(m, " %02x",''),
         (6, ''   ioread8((u8 __iomem *)adt + j));''),
         (4, ''}''),
         (4, ''seq_puts(m, "'' @ [CHR 0x5C] @ ''n");''),
         (3, ''}''),
         (2, ''}''),
         (1, ''}''),
         (1, ''mutex_unlock(fman_pcd_get_lock(pcd));''),
         (0, ''}'')]\<close>

definition F_251 :: fixup where
  "F_251 = \<lparr> fx_mark = ''F-251(cc-seq-dump-ad-table)'', fx_edits = [(fman_pcd_cc_c, F_251_anchor1, F_251_new1, 1), (fman_pcd_cc_c, F_251_anchor2, F_251_new2, 1)],
     fx_missing = SystemExit 0, fx_needs = [''fman_pcd_cc_seq_dump'', ''CC_AD_ENTRY_SIZE''], fx_precheck = False, fx_partial = False \<rparr>"

definition F_254_old_mid :: string where \<open>
  F_254_old_mid =
    code_line [(3, ''/* y now chains to x'' @ [CHR 0x27] @ ''s next; keep the drain invariant. */''),
         (3, ''*(__be16 *)((u8 *)y->record + 2) =''),
         (4, ''cpu_to_be16((u16)((x_next >> 32) & 0xffff));''),
         (3, ''*(__be32 *)((u8 *)y->record + 4) =''),
         (4, ''cpu_to_be32((u32)(x_next & 0xffffffff));''),
         (3, ''y->prev_head = x->prev_head;'')]\<close>

definition F_254_new_mid :: string where \<open>
  F_254_new_mid =
    code_line [(3, ''/* y now chains to x'' @ [CHR 0x27] @ ''s next; keep the drain invariant.''),
         (3, '' * F-254: one 64-bit store (y'' @ [CHR 0x27] @ ''s flags kept, next replaced)''),
         (3, '' * so a concurrent FMan walk never sees a torn pointer.''),
         (3, '' */''),
         (3, ''{''),
         (4, ''u64 y_word = be64_to_cpu(READ_ONCE(*(__be64 *)y->record));''),
         (0, []),
         (4, ''y_word = (y_word & 0xffff000000000000ULL) |''),
         (5, '' (x_next & 0x0000ffffffffffffULL);''),
         (4, ''WRITE_ONCE(*(__be64 *)y->record, cpu_to_be64(y_word));''),
         (3, ''}''),
         (3, ''y->prev_head = x->prev_head;'')]\<close>

definition F_254_old_free :: string where \<open>
  F_254_old_free =
    code_line [(1, ''list_del(&x->node);''),
         (1, ''/* record is dma_alloc_coherent (0130) '' @ [CHR 0xE2] @ [CHR 0x80] @ [CHR 0x94] @ '' free it the same way''),
         (1, '' * fman_pcd_ehash_flow_drain() does, NOT kfree (which trips''),
         (1, '' * free_large_kmalloc and corrupts the coherent allocator). */''),
         (1, ''dma_free_coherent(t->dev, FMAN_EHASH_FLOW_REC_SIZE,''),
         (3, ''  x->record, x->record_dma);'')]\<close>

definition F_254_new_free :: string where \<open>
  F_254_new_free =
    code_line [(1, ''list_del(&x->node);''),
         (0, []),
         (1, ''/* F-254: RM S5.12.14.1 -- after unlinking from a live,''),
         (1, '' * controller-walked structure, SYNC (FMFP_EXTC[INV0]) before the old''),
         (1, '' * record may be freed: a lookup that read the old pointer may still be''),
         (1, '' * in flight. Same primitive as F-177 on insert.''),
         (1, '' */''),
         (1, ''dma_wmb();''),
         (1, ''{''),
         (2, ''struct fman *f254_fman = t->pcd ? fman_pcd_get_fman(t->pcd) : NULL;''),
         (0, []),
         (2, ''if (f254_fman) {''),
         (3, ''const u32 f254_inv0 = 0x80000000U;''),
         (3, ''const unsigned int f254_poll_max = 100000U;''),
         (3, ''unsigned int f254_i;''),
         (3, ''u32 f254_extc = 0;''),
         (0, []),
         (3, ''fman_set_fpm_extc(f254_fman, f254_inv0);''),
         (3, ''for (f254_i = 0; f254_i < f254_poll_max; f254_i++) {''),
         (4, ''f254_extc = fman_get_fpm_extc(f254_fman);''),
         (4, ''if (!(f254_extc & f254_inv0))''),
         (5, ''break;''),
         (4, ''udelay(1);''),
         (3, ''}''),
         (3, ''if (f254_extc & f254_inv0)''),
         (4, ''pr_warn_ratelimited("fman_pcd: F-254 ehash delete SYNC timed out (fmfp_extc=0x%08x)'' @ [CHR 0x5C] @ ''n",''),
         (6, ''    f254_extc);''),
         (2, ''}''),
         (1, ''}''),
         (0, []),
         (1, ''/* record is dma_alloc_coherent (0130) '' @ [CHR 0xE2] @ [CHR 0x80] @ [CHR 0x94] @ '' free it the same way''),
         (1, '' * fman_pcd_ehash_flow_drain() does, NOT kfree (which trips''),
         (1, '' * free_large_kmalloc and corrupts the coherent allocator). */''),
         (1, ''dma_free_coherent(t->dev, FMAN_EHASH_FLOW_REC_SIZE,''),
         (3, ''  x->record, x->record_dma);'')]\<close>

definition F_254 :: fixup where
  "F_254 = \<lparr> fx_mark = ''F-254'', fx_edits = [(fman_pcd_c, F_254_old_mid, F_254_new_mid, 1), (fman_pcd_c, F_254_old_free, F_254_new_free, 1)],
     fx_missing = FileNotFoundError, fx_needs = [], fx_precheck = True, fx_partial = False \<rparr>"

definition F_255_edits_1 :: "edit list" where \<open>
  F_255_edits_1 = [
    (fman_pcd_h,
      code_text [(0, ''int fman_pcd_fe_engage(struct fman *fm, u8 hw_port_id,''),
         (3, '' u32 enq_fqid);'')],
      code_text [(0, ''int fman_pcd_fe_engage(struct fman *fm, u8 hw_port_id,''),
         (3, '' u32 enq_fqid);''),
         (0, []),
         (0, ''/* F-255 (T-M6-2 B1): per-port FE key profile. A port has one KeyGen scheme,''),
         (0, '' * hence one key format and one per-port ehash table; the profile selects''),
         (0, '' * it. fman_pcd_fe_engage() == ROUTED. Re-engaging an armed port with a''),
         (0, '' * different profile returns -EBUSY (disengage first). */''),
         (0, ''enum fman_pcd_fe_profile {''),
         (1, ''FMAN_PCD_FE_PROFILE_ROUTED = 0,'' @ [CHR 0x09] @ ''/* 46B dual-lane IPv4/IPv6 5-tuple */''),
         (1, ''FMAN_PCD_FE_PROFILE_L2_DA  = 1,'' @ [CHR 0x09] @ ''/* 16B DA + SA + TCI + EtherType (bridge flows) */''),
         (1, ''FMAN_PCD_FE_PROFILE_NR''),
         (0, ''};''),
         (0, ''#define FMAN_PCD_FE_L2_DA_KEY_SIZE'' @ [CHR 0x09] @ ''16'' @ [CHR 0x09] @ ''/* DA(6)+SA(6)+TCI(2)+EtherType(2), plan '' @ [CHR 0xC2] @ [CHR 0xA7] @ ''13.32 */''),
         (0, ''int fman_pcd_fe_engage_profile(struct fman *fm, u8 hw_port_id,''),
         (3, ''       u32 enq_fqid, enum fman_pcd_fe_profile profile);'')], 1),
    (fman_pcd_internal_h,
      code_text [(0, ''struct mutex *fman_pcd_get_lock(struct fman_pcd *pcd);'')],
      code_text [(0, ''struct mutex *fman_pcd_get_lock(struct fman_pcd *pcd);''),
         (0, ''/* F-255: true when @hw_port_id'' @ [CHR 0x27] @ ''s FE profile keys on EKFC alone (no F-224''),
         (0, '' * dual-lane GEC override). */''),
         (0, ''bool fman_pcd_fe_port_ekfc_only(struct fman_pcd *pcd, u8 hw_port_id);'')], 1),
    (fman_keygen_internal_h,
      tabs 1 (''bool gec_dual_lane;''),
      code_line [(1, ''bool ekfc_only;'' @ [CHR 0x09] @ [CHR 0x09] @ ''/* F-255: AC_CC FE scheme keys on EKFC alone;''),
         (4, '' * keygen_scheme_setup() skips the F-224''),
         (4, '' * dual-lane GEC override. Set on every''),
         (4, '' * kg_port_arm_fe() from the port'' @ [CHR 0x27] @ ''s profile. */''),
         (1, ''bool gec_dual_lane;'')], 1),
    (fman_pcd_kg_c,
      code_text [(1, ''if (ekfc)''),
         (2, ''slot->ekfc = ekfc;''),
         (1, ''*saved_engine = slot->next_engine;'')],
      code_text [(1, ''if (ekfc)''),
         (2, ''slot->ekfc = ekfc;''),
         (1, ''slot->ekfc_only = fman_pcd_fe_port_ekfc_only(pcd, hw_port_id); /* F-255 */''),
         (1, ''*saved_engine = slot->next_engine;'')], 1),
    (fman_keygen_c,
      code_line [(2, ''if (scheme->next_engine == 3 ||''),
         (2, ''    (scheme->next_engine == 2 && scheme->gec_dual_lane)) {'')],
      code_line [(2, ''/* F-255: a non-routed FE profile (e.g. L2_DA) keys on its''),
         (2, '' * EKFC alone -- no dual-lane GEC override. */''),
         (2, ''if ((scheme->next_engine == 3 && !scheme->ekfc_only) ||''),
         (2, ''    (scheme->next_engine == 2 && scheme->gec_dual_lane)) {'')], 1),
    (fman_pcd_c,
      code_text [(0, ''struct fman_pcd {''),
         (1, ''struct fman *fman;'')],
      code_text [(0, ''struct fman_pcd {''),
         (1, ''struct fman *fman;''),
         (0, []),
         (1, ''/* F-255: per-RX-port FE key profile (enum fman_pcd_fe_profile),''),
         (1, '' * indexed by hw_port_id (< 0x28). 0 = ROUTED. */''),
         (1, ''u8 fe_port_profile[0x28];'')], 1),
    (fman_pcd_c,
      code_text [(0, ''static int fman_pcd_fe_verify_internal(struct fman_pcd *pcd, u8 hw_port_id);''),
         (0, []),
         (0, ''static int __fman_pcd_fe_arm_engage(struct fman_pcd *pcd,'')],
      code_text [(0, ''static int fman_pcd_fe_verify_internal(struct fman_pcd *pcd, u8 hw_port_id);''),
         (0, []),
         (0, ''/* F-255: FE key profiles. ekfc is what kg_port_arm_fe() programs; for''),
         (0, '' * ROUTED it is only the non-zero trigger, F-224 then replaces it with the''),
         (0, '' * dual-lane GECs (ekfc_only false). */''),
         (0, ''static const struct {''),
         (1, ''u32  ekfc;''),
         (1, ''bool ekfc_only;''),
         (1, ''u8   key_size;''),
         (0, ''} fman_pcd_fe_profiles[FMAN_PCD_FE_PROFILE_NR] = {''),
         (1, ''[FMAN_PCD_FE_PROFILE_ROUTED] = { 0x801C0006, false, 46 },''),
         (1, ''[FMAN_PCD_FE_PROFILE_L2_DA]  = { 0x74000000 /* KG_SCH_KN_MACDST|MACSRC|TCI1|ETYPE */,''),
         (5, '' true, FMAN_PCD_FE_L2_DA_KEY_SIZE },''),
         (0, ''};''),
         (0, []),
         (0, ''static u8 fman_pcd_fe_port_profile(struct fman_pcd *pcd, u8 hw_port_id)''),
         (0, ''{''),
         (1, ''return (pcd && hw_port_id < ARRAY_SIZE(pcd->fe_port_profile)) ?''),
         (2, ''pcd->fe_port_profile[hw_port_id] : FMAN_PCD_FE_PROFILE_ROUTED;''),
         (0, ''}''),
         (0, []),
         (0, ''bool fman_pcd_fe_port_ekfc_only(struct fman_pcd *pcd, u8 hw_port_id)''),
         (0, ''{''),
         (1, ''return fman_pcd_fe_profiles[fman_pcd_fe_port_profile(pcd, hw_port_id)].ekfc_only;''),
         (0, ''}''),
         (0, []),
         (0, ''static int __fman_pcd_fe_arm_engage(struct fman_pcd *pcd,'')], 1),
    (fman_pcd_c,
      tabs 5 (''    fman_pcd_ehash_table_set(pcd, 0x7FFF, 46, 0) == 0) { /* F-225(perport-46) */''),
      code_line [(5, ''    fman_pcd_ehash_table_set(pcd, 0x7FFF,''),
         (6, ''fman_pcd_fe_profiles[fman_pcd_fe_port_profile(pcd, (u8)port_id)].key_size,''),
         (6, ''0) == 0) { /* F-225(perport-46), F-255 per-profile size */'')], 1)]\<close>

definition F_255_edits_2 :: "edit list" where \<open>
  F_255_edits_2 = [
    (fman_pcd_c,
      code_text [(0, ''int fman_pcd_fe_engage(struct fman *fm, u8 hw_port_id,''),
         (3, '' u32 enq_fqid)''),
         (0, ''{''),
         (1, ''struct fman_pcd *pcd;''),
         (1, ''struct fman_port *rxport;''),
         (1, ''unsigned int miss_fqid;''),
         (1, ''int err;''),
         (0, []),
         (1, ''if (!fm || hw_port_id < 0x08 || hw_port_id >= 0x28)''),
         (2, ''return -EINVAL;''),
         (1, ''pcd = fman_get_pcd(fm);''),
         (1, ''if (!pcd)''),
         (2, ''return -ENXIO;''),
         (0, []),
         (1, ''rxport = fman_port_lookup_rx(fm, hw_port_id);''),
         (1, ''if (!rxport)''),
         (2, ''return -ENODEV;''),
         (0, []),
         (1, ''/* F-107/F-122: idempotent engage '' @ [CHR 0xE2] @ [CHR 0x80] @ [CHR 0x94] @ '' return success if already armed. */''),
         (1, ''if (test_bit(hw_port_id, pcd->fe_port_armed)) {''),
         (2, ''pr_info("fman_pcd: FE engage port 0x%02x already armed (idempotent)'' @ [CHR 0x5C] @ ''n",''),
         (3, ''hw_port_id);''),
         (2, ''return 0;''),
         (1, ''}'')],
      code_text [(0, ''int fman_pcd_fe_engage(struct fman *fm, u8 hw_port_id,''),
         (3, '' u32 enq_fqid)''),
         (0, ''{''),
         (1, ''return fman_pcd_fe_engage_profile(fm, hw_port_id, enq_fqid,''),
         (5, ''  FMAN_PCD_FE_PROFILE_ROUTED);''),
         (0, ''}''),
         (0, ''EXPORT_SYMBOL_GPL(fman_pcd_fe_engage);''),
         (0, []),
         (0, ''int fman_pcd_fe_engage_profile(struct fman *fm, u8 hw_port_id,''),
         (3, ''       u32 enq_fqid, enum fman_pcd_fe_profile profile)''),
         (0, ''{''),
         (1, ''struct fman_pcd *pcd;''),
         (1, ''struct fman_port *rxport;''),
         (1, ''unsigned int miss_fqid;''),
         (1, ''int err;''),
         (0, []),
         (1, ''if (!fm || hw_port_id < 0x08 || hw_port_id >= 0x28 ||''),
         (1, ''    profile >= FMAN_PCD_FE_PROFILE_NR)''),
         (2, ''return -EINVAL;''),
         (1, ''pcd = fman_get_pcd(fm);''),
         (1, ''if (!pcd)''),
         (2, ''return -ENXIO;''),
         (0, []),
         (1, ''rxport = fman_port_lookup_rx(fm, hw_port_id);''),
         (1, ''if (!rxport)''),
         (2, ''return -ENODEV;''),
         (0, []),
         (1, ''/* F-107/F-122: idempotent engage '' @ [CHR 0xE2] @ [CHR 0x80] @ [CHR 0x94] @ '' return success if already armed.''),
         (1, '' * F-255: only for the same profile; a different one needs a''),
         (1, '' * disengage first (the scheme and per-port table are profile-shaped). */''),
         (1, ''if (test_bit(hw_port_id, pcd->fe_port_armed)) {''),
         (2, ''if (pcd->fe_port_profile[hw_port_id] != profile) {''),
         (3, ''pr_warn("fman_pcd: FE engage port 0x%02x profile %u refused: armed with profile %u'' @ [CHR 0x5C] @ ''n",''),
         (4, ''hw_port_id, profile, pcd->fe_port_profile[hw_port_id]);''),
         (3, ''return -EBUSY;''),
         (2, ''}''),
         (2, ''pr_info("fman_pcd: FE engage port 0x%02x already armed (idempotent)'' @ [CHR 0x5C] @ ''n",''),
         (3, ''hw_port_id);''),
         (2, ''return 0;''),
         (1, ''}''),
         (1, ''pcd->fe_port_profile[hw_port_id] = profile;'' @ [CHR 0x09] @ ''/* read by arm_engage/arm_fe */'')], 1),
    (fman_pcd_c,
      code_text [(2, ''err = __fman_pcd_fe_arm_engage(pcd, hw_port_id, 0, miss_fqid, 0x801C0006);''),
         (1, ''if (err)''),
         (2, ''return err;''),
         (0, []),
         (1, ''err = fman_pcd_fe_port_set(pcd, hw_port_id);''),
         (1, ''if (err) {''),
         (2, ''__fman_pcd_fe_arm_disengage(pcd, hw_port_id);''),
         (2, ''return err;''),
         (1, ''}''),
         (0, []),
         (1, ''pr_info("fman_pcd: FE engage port 0x%02x FQ=0x%x (AC_CC)'' @ [CHR 0x5C] @ ''n",''),
         (2, ''hw_port_id, miss_fqid);''),
         (1, ''return 0;''),
         (0, ''}''),
         (0, ''EXPORT_SYMBOL_GPL(fman_pcd_fe_engage);'')],
      code_text [(2, ''err = __fman_pcd_fe_arm_engage(pcd, hw_port_id, 0, miss_fqid,''),
         (5, ''       fman_pcd_fe_profiles[profile].ekfc); /* F-255 */''),
         (1, ''if (err) {''),
         (2, ''pcd->fe_port_profile[hw_port_id] = FMAN_PCD_FE_PROFILE_ROUTED;''),
         (2, ''return err;''),
         (1, ''}''),
         (0, []),
         (1, ''err = fman_pcd_fe_port_set(pcd, hw_port_id);''),
         (1, ''if (err) {''),
         (2, ''__fman_pcd_fe_arm_disengage(pcd, hw_port_id);''),
         (2, ''pcd->fe_port_profile[hw_port_id] = FMAN_PCD_FE_PROFILE_ROUTED;''),
         (2, ''return err;''),
         (1, ''}''),
         (0, []),
         (1, ''pr_info("fman_pcd: FE engage port 0x%02x FQ=0x%x (AC_CC) profile %u key %uB'' @ [CHR 0x5C] @ ''n",''),
         (2, ''hw_port_id, miss_fqid, profile,''),
         (2, ''fman_pcd_fe_profiles[profile].key_size);''),
         (1, ''return 0;''),
         (0, ''}''),
         (0, ''EXPORT_SYMBOL_GPL(fman_pcd_fe_engage_profile);'')], 1)]\<close>

definition F_255_edits_3 :: "edit list" where \<open>
  F_255_edits_3 = [
    (fman_pcd_c,
      code_text [(5, ''if (pcd->fe_arming_v4_table)''),
         (6, ''et = pcd->fe_arming_v4_table;'')],
      code_text [(5, ''if (pcd->fe_arming_v4_table)''),
         (6, ''et = pcd->fe_arming_v4_table;''),
         (5, ''else if (fman_pcd_fe_port_profile(pcd, (u8)port_id) !=''),
         (6, '' FMAN_PCD_FE_PROFILE_ROUTED) {'' @ [CHR 0x09] @ ''/* F-255 G6 */''),
         (6, ''fman_pcd_muram_free(pcd, gro, 256);''),
         (6, ''fman_pcd_muram_free(pcd, mto, 64);''),
         (6, ''fman_pcd_muram_free(pcd, ato, 32);''),
         (6, ''pr_warn("fman_pcd fe_arm: port 0x%02x per-port table alloc failed; profile %u has no fallback'' @ [CHR 0x5C] @ ''n",''),
         (7, ''port_id,''),
         (7, ''fman_pcd_fe_port_profile(pcd, (u8)port_id));''),
         (6, ''return -ENOMEM;''),
         (5, ''}'')], 1),
    (fman_pcd_c,
      code_line [(1, ''__fman_pcd_fe_arm_disengage(pcd, hw_port_id);''),
         (1, ''/* F-129: Tear down shared FE-VM chain on last port disengage.'')],
      code_line [(1, ''__fman_pcd_fe_arm_disengage(pcd, hw_port_id);''),
         (1, ''if (hw_port_id < ARRAY_SIZE(pcd->fe_port_profile))'' @ [CHR 0x09] @ ''/* F-255 */''),
         (2, ''pcd->fe_port_profile[hw_port_id] = FMAN_PCD_FE_PROFILE_ROUTED;''),
         (1, ''/* F-129: Tear down shared FE-VM chain on last port disengage.'')], 1)]\<close>

definition F_255 :: fixup where
  "F_255 = \<lparr> fx_mark = ''F-255'', fx_edits = F_255_edits_1 @ F_255_edits_2 @ F_255_edits_3,
     fx_missing = FileNotFoundError, fx_needs = [], fx_precheck = False, fx_partial = False \<rparr>"

definition F_262_port_adv :: string where \<open>
  F_262_port_adv =
    code_text [(0, []),
         (0, ''/*''),
         (0, '' * F-262: vendor advanced-offload RX-port settings (ASK SDK FM_PORT_SetPCD,''),
         (0, '' * fm_port.c:4843-4880 and 5115-5118): params-page misc |= OFFLOAD_SUPPORT_EN,''),
         (0, '' * FMBM_RCMNE = 0x0e, FMBM_RFENE = 0x22, written in that order; live vendor''),
         (0, '' * ports read 0x40000100 / 0x0e / 0x22 against our 0x100 / 0 / 0x00d40000.''),
         (0, '' * The 210.10.1 IP fragmenter needs them: without, it emits one fragment per''),
         (0, '' * frame and the port RX dies after 11 fragmented frames (silicon,''),
         (0, '' * 2026-10-09). The pre-engage values are saved and restored in reverse on''),
         (0, '' * disengage, so the mainline state returns exactly.''),
         (0, '' */''),
         (0, ''#define FMAN_PP_OFFLOAD_SUPPORT_EN'' @ [CHR 0x09] @ ''0x40000000''),
         (0, ''#define FMAN_ADV_RCMNE'' @ [CHR 0x09] @ [CHR 0x09] @ [CHR 0x09] @ ''0x0000000e''),
         (0, ''#define FMAN_ADV_RFENE'' @ [CHR 0x09] @ [CHR 0x09] @ [CHR 0x09] @ ''0x00000022''),
         (0, []),
         (0, ''static void fman_port_adv_write(struct fman_port *port, u32 __iomem *misc,''),
         (4, ''u32 m, u32 c, u32 e, bool on)''),
         (0, ''{''),
         (1, ''if (on) {''),
         (2, ''iowrite32be(m, misc);''),
         (2, ''iowrite32be(c, &port->bmi_regs->rx.fmbm_rcmne);''),
         (2, ''iowrite32be(e, &port->bmi_regs->rx.fmbm_rfene);''),
         (1, ''} else {''),
         (2, ''iowrite32be(e, &port->bmi_regs->rx.fmbm_rfene);''),
         (2, ''iowrite32be(c, &port->bmi_regs->rx.fmbm_rcmne);''),
         (2, ''iowrite32be(m, misc);''),
         (1, ''}''),
         (0, ''}''),
         (0, []),
         (0, ''int fman_port_adv_offload(struct fman_port *port, void __iomem *page, bool on)''),
         (0, ''{''),
         (1, ''u32 __iomem *misc;''),
         (1, ''u32 m, c, e;''),
         (1, ''bool ok;''),
         (0, []),
         (1, ''if (!port || !page || port->port_type != FMAN_PORT_TYPE_RX)''),
         (2, ''return -EINVAL;''),
         (1, ''if (on == port->adv_offload)''),
         (2, ''return 0;''),
         (0, []),
         (1, ''misc = (u32 __iomem *)((u8 __iomem *)page + FMAN_PP_MISC_OFF);''),
         (1, ''if (on) {''),
         (2, ''port->adv_saved[0] = ioread32be(misc);''),
         (2, ''port->adv_saved[1] = ioread32be(&port->bmi_regs->rx.fmbm_rcmne);''),
         (2, ''port->adv_saved[2] = ioread32be(&port->bmi_regs->rx.fmbm_rfene);''),
         (2, ''m = port->adv_saved[0] | FMAN_PP_OFFLOAD_SUPPORT_EN;''),
         (2, ''c = FMAN_ADV_RCMNE;''),
         (2, ''e = FMAN_ADV_RFENE;''),
         (1, ''} else {''),
         (2, ''m = port->adv_saved[0];''),
         (2, ''c = port->adv_saved[1];''),
         (2, ''e = port->adv_saved[2];''),
         (1, ''}''),
         (1, ''fman_port_adv_write(port, misc, m, c, e, on);''),
         (0, []),
         (1, ''/* Silicon writes do not report errors: read back and compare. */''),
         (1, ''ok = ioread32be(misc) == m &&''),
         (1, ''     ioread32be(&port->bmi_regs->rx.fmbm_rcmne) == c &&''),
         (1, ''     ioread32be(&port->bmi_regs->rx.fmbm_rfene) == e;''),
         (1, ''if (!ok) {''),
         (2, ''dev_err(port->dev,''),
         (3, ''"fman_port: advanced offload %s readback mismatch (misc 0x%08x/0x%08x rcmne 0x%08x/0x%08x rfene 0x%08x/0x%08x)'' @ [CHR 0x5C] @ ''n",''),
         (3, ''on ? "on" : "off", ioread32be(misc), m,''),
         (3, ''ioread32be(&port->bmi_regs->rx.fmbm_rcmne), c,''),
         (3, ''ioread32be(&port->bmi_regs->rx.fmbm_rfene), e);''),
         (2, ''if (on)''),
         (3, ''fman_port_adv_write(port, misc, port->adv_saved[0],''),
         (5, ''    port->adv_saved[1],''),
         (5, ''    port->adv_saved[2], false);''),
         (2, ''return -EIO;''),
         (1, ''}''),
         (1, ''port->adv_offload = on;''),
         (1, ''dev_info(port->dev,''),
         (2, '' "fman_port: advanced offload %s (misc 0x%08x rcmne 0x%08x rfene 0x%08x)'' @ [CHR 0x5C] @ ''n",''),
         (2, '' on ? "on" : "off", m, c, e);''),
         (1, ''return 0;''),
         (0, ''}''),
         (0, ''EXPORT_SYMBOL_GPL(fman_port_adv_offload);'')]\<close>

definition F_262_pcd_adv :: string where \<open>
  F_262_pcd_adv =
    code_text [(0, ''/* F-262: vendor advanced-offload RX-port triple for an engaged port (see''),
         (0, '' * fman_port_adv_offload()); the microcode IP fragmenter needs it. Applied''),
         (0, '' * on engage, restored on disengage. */''),
         (0, ''static int fman_pcd_fe_adv_offload(struct fman_pcd *pcd, u8 hw_port_id,''),
         (4, ''   bool on)''),
         (0, ''{''),
         (1, ''struct muram_info *muram = fman_get_muram(pcd->fman);''),
         (1, ''struct fman_port *port = fman_port_lookup_rx(pcd->fman, hw_port_id);''),
         (1, ''u32 off = port ? fman_port_get_params_page(port) : 0;''),
         (0, []),
         (1, ''if (!muram || !off)''),
         (2, ''return -ENODEV;''),
         (1, ''return fman_port_adv_offload(port, (void __iomem *)(void *)''),
         (4, ''     fman_muram_offset_to_vbase(muram, off),''),
         (4, ''     on);''),
         (0, ''}''),
         (0, [])]\<close>

definition F_262_frag_pool :: string where \<open>
  F_262_frag_pool =
    code_text [(0, []),
         (0, ''/* F-262: the IP fragmentation buffer pool named by ENQUEUE_PKT'' @ [CHR 0x27] @ ''s bpid''),
         (0, '' * (vendor cdx_create_fragment_bufpool(): a dedicated BMan pool the''),
         (0, '' * microcode takes fragment header buffers from; the TX port releases them''),
         (0, '' * back). Created on the first record that needs an MTU check and kept for''),
         (0, '' * the life of the system: hardware may hold its buffers at any time, so it''),
         (0, '' * is never drained or freed. Returns the BPID or a negative errno. */''),
         (0, ''#define FMAN_FRAG_BUF_SIZE'' @ [CHR 0x09] @ ''2048''),
         (0, ''#define FMAN_FRAG_BUF_COUNT'' @ [CHR 0x09] @ ''2048''),
         (0, []),
         (0, ''static int fman_pcd_frag_pool_bpid(struct fman_pcd *pcd)''),
         (0, ''{''),
         (1, ''static DEFINE_MUTEX(frag_lock);''),
         (1, ''static struct bman_pool *frag_pool;''),
         (1, ''struct device *dev = fman_get_dev(pcd->fman);''),
         (1, ''struct bm_buffer bmb[8];''),
         (1, ''int i, j, n = 0, seeded = 0, err = 0;''),
         (0, []),
         (1, ''mutex_lock(&frag_lock);''),
         (1, ''if (frag_pool)''),
         (2, ''goto out;''),
         (1, ''frag_pool = bman_new_pool();''),
         (1, ''if (!frag_pool) {''),
         (2, ''err = -ENODEV;''),
         (2, ''goto out;''),
         (1, ''}''),
         (1, ''for (i = 0; !err &&''),
         (1, ''     i < FMAN_FRAG_BUF_COUNT * FMAN_FRAG_BUF_SIZE / PAGE_SIZE; i++) {''),
         (2, ''struct page *p = alloc_page(GFP_KERNEL);''),
         (2, ''dma_addr_t a;''),
         (0, []),
         (2, ''if (!p) {''),
         (3, ''err = -ENOMEM;''),
         (3, ''break;''),
         (2, ''}''),
         (2, ''a = dma_map_page(dev, p, 0, PAGE_SIZE, DMA_BIDIRECTIONAL);''),
         (2, ''if (dma_mapping_error(dev, a)) {''),
         (3, ''__free_page(p);''),
         (3, ''err = -ENOMEM;''),
         (3, ''break;''),
         (2, ''}''),
         (2, ''for (j = 0; !err && j < PAGE_SIZE / FMAN_FRAG_BUF_SIZE; j++) {''),
         (3, ''bm_buffer_set64(&bmb[n++], a + j * FMAN_FRAG_BUF_SIZE);''),
         (3, ''if (n == ARRAY_SIZE(bmb)) {''),
         (4, ''err = bman_release(frag_pool, bmb, n);''),
         (4, ''seeded += err ? 0 : n;''),
         (4, ''n = 0;''),
         (3, ''}''),
         (2, ''}''),
         (1, ''}''),
         (1, ''if (!err && n) {''),
         (2, ''err = bman_release(frag_pool, bmb, n);''),
         (2, ''seeded += err ? 0 : n;''),
         (1, ''}''),
         (1, ''if (!seeded) {''),
         (2, ''/* Nothing reached hardware: safe to give the BPID back. */''),
         (2, ''bman_free_pool(frag_pool);''),
         (2, ''frag_pool = NULL;''),
         (2, ''err = err ? err : -ENOMEM;''),
         (2, ''goto out;''),
         (1, ''}''),
         (1, ''if (err)''),
         (2, ''pr_warn("fman_pcd: F-262 frag pool short: %d of %d buffers (%d)'' @ [CHR 0x5C] @ ''n",''),
         (3, ''seeded, FMAN_FRAG_BUF_COUNT, err);''),
         (1, ''err = 0;''),
         (1, ''pr_info("fman_pcd: F-262 frag pool bpid %d, %d x %d B, frag info @MURAM 0x%lx'' @ [CHR 0x5C] @ ''n",''),
         (2, ''bman_get_bpid(frag_pool), seeded, FMAN_FRAG_BUF_SIZE,''),
         (2, ''pcd->fe_frag_off);''),
         (0, ''out:''),
         (1, ''if (!err)''),
         (2, ''err = bman_get_bpid(frag_pool);''),
         (1, ''mutex_unlock(&frag_lock);''),
         (1, ''return err;''),
         (0, ''}''),
         (0, [])]\<close>

definition F_262_edits_1 :: "edit list" where \<open>
  F_262_edits_1 = [
    (fman_port_c,
      code_text [(1, ''u32 ctrl_params_page;'' @ [CHR 0x09] @ ''/* FM_CTL params page MURAM off (0116) */'')],
      code_text [(1, ''u32 ctrl_params_page;'' @ [CHR 0x09] @ ''/* FM_CTL params page MURAM off (0116) */''),
         (1, ''bool adv_offload;'' @ [CHR 0x09] @ [CHR 0x09] @ ''/* F-262: vendor RX-port triple applied */''),
         (1, ''u32 adv_saved[3];'' @ [CHR 0x09] @ [CHR 0x09] @ ''/* F-262: misc, rcmne, rfene before it */'')], 1),
    (fman_port_c,
      code_text [(0, ''EXPORT_SYMBOL_GPL(fman_port_set_params_page);'')],
      code_text [(0, ''EXPORT_SYMBOL_GPL(fman_port_set_params_page);'')] @ F_262_port_adv, 1),
    (fman_port_h,
      code_text [(0, ''int fman_port_set_params_page(struct fman_port *port, u32 muram_off,''),
         (3, ''      void __iomem *page);'')],
      code_text [(0, ''int fman_port_set_params_page(struct fman_port *port, u32 muram_off,''),
         (3, ''      void __iomem *page);''),
         (0, ''/* F-262: vendor advanced-offload RX-port triple (misc, RCMNE, RFENE) */''),
         (0, ''int fman_port_adv_offload(struct fman_port *port, void __iomem *page,''),
         (3, ''  bool on);'')], 1),
    (fman_pcd_c,
      code_line [(0, ''static u8 fman_pcd_fe_port_profile(struct fman_pcd *pcd, u8 hw_port_id)''),
         (0, ''{'')],
      F_262_pcd_adv @ code_line [(0, ''static u8 fman_pcd_fe_port_profile(struct fman_pcd *pcd, u8 hw_port_id)''),
         (0, ''{'')], 1),
    (fman_pcd_c,
      tabs 1 (''pr_info("fman_pcd: FE engage port 0x%02x FQ=0x%x (AC_CC) profile %u key %uB'' @ [CHR 0x5C] @ ''n",''),
      code_line [(1, ''err = fman_pcd_fe_adv_offload(pcd, hw_port_id, true);'' @ [CHR 0x09] @ ''/* F-262 */''),
         (1, ''if (err) {''),
         (2, ''__fman_pcd_fe_arm_disengage(pcd, hw_port_id);''),
         (2, ''pcd->fe_port_profile[hw_port_id] = FMAN_PCD_FE_PROFILE_ROUTED;''),
         (2, ''return err;''),
         (1, ''}''),
         (1, ''pr_info("fman_pcd: FE engage port 0x%02x FQ=0x%x (AC_CC) profile %u key %uB'' @ [CHR 0x5C] @ ''n",'')], 1),
    (fman_pcd_c,
      code_text [(1, ''fsleep(5000);''),
         (1, ''fman_pcd_fe_port_del(pcd, (u8)port_id);'')],
      code_text [(1, ''fsleep(5000);''),
         (1, ''fman_pcd_fe_adv_offload(pcd, (u8)port_id, false);'' @ [CHR 0x09] @ ''/* F-262 */''),
         (1, ''fman_pcd_fe_port_del(pcd, (u8)port_id);'')], 1),
    (fman_pcd_h,
      code_text [(1, ''u16  pppoe_sid;'' @ [CHR 0x09] @ [CHR 0x09] @ ''/* F-261: egress PPPoE session, host order */''),
         (0, ''};'')],
      code_text [(1, ''u16  pppoe_sid;'' @ [CHR 0x09] @ [CHR 0x09] @ ''/* F-261: egress PPPoE session, host order */''),
         (1, ''/* F-262: egress IP MTU for the vendor PREEMPTIVE_CHECKS (05) +''),
         (1, '' * ENQUEUE fragmentation context; 0 = no check (byte-identical''),
         (1, '' * record). Only honoured on L2/TX records. */''),
         (1, ''u16  egress_mtu;''),
         (0, ''};'')], 1),
    (fman_pcd_h,
      code_text [(1, ''u16 pppoe_sid;'' @ [CHR 0x09] @ [CHR 0x09] @ ''/* F-261: INSERT_PPPoE_HDR session, host order */''),
         (0, ''};'')],
      code_text [(1, ''u16 pppoe_sid;'' @ [CHR 0x09] @ [CHR 0x09] @ ''/* F-261: INSERT_PPPoE_HDR session, host order */''),
         (1, ''u16 egress_mtu;'' @ [CHR 0x09] @ [CHR 0x09] @ ''/* F-262: 05 + ENQ mtu/bpid/word2; 0 = none */''),
         (0, ''};'')], 1),
    (fman_pcd_c,
      code_text [(0, ''#include <linux/fsl/fman_pcd.h>'')],
      code_text [(0, ''#include <linux/fsl/fman_pcd.h>''),
         (0, ''#include <soc/fsl/bman.h>'' @ [CHR 0x09] @ ''/* F-262: fragmentation buffer pool */'')], 1),
    (fman_pcd_c,
      tabs 1 (''unsigned long fe_stats_off;''),
      code_line [(1, ''unsigned long fe_frag_off;'' @ [CHR 0x09] @ ''  /* F-262: frag-info block, 0 if none */''),
         (1, ''unsigned long fe_stats_off;'')], 1),
    (fman_pcd_c,
      code_text [(0, ''#define FMAN_EHASH_STATS_SCRATCH_SIZE'' @ [CHR 0x09] @ ''256'')],
      code_text [(0, ''#define FMAN_EHASH_STATS_SCRATCH_SIZE'' @ [CHR 0x09] @ ''256''),
         (0, ''/* F-262: vendor cdx_ucode_frag_info_t (28 B) after the stats scratch:''),
         (0, '' * be16 frag_options, pad, be32 alloc_buff_failures, v4/v6 frame counters,''),
         (0, '' * v4/v6 fragment counters, v6_identification. */''),
         (0, ''#define FMAN_EHASH_FRAG_INFO_SIZE'' @ [CHR 0x09] @ ''32'')], 1),
    (fman_pcd_c,
      code_text [(1, ''raw_size = FMAN_EHASH_INT_BUF_TOTAL + FMAN_EHASH_STATS_SCRATCH_SIZE +'')],
      code_text [(1, ''raw_size = FMAN_EHASH_INT_BUF_TOTAL + FMAN_EHASH_STATS_SCRATCH_SIZE +''),
         (2, ''   FMAN_EHASH_FRAG_INFO_SIZE +'' @ [CHR 0x09] @ ''/* F-262 */'')], 1),
    (fman_pcd_c,
      code_text [(1, ''memset_io(v, 0, FMAN_EHASH_INT_BUF_TOTAL + FMAN_EHASH_STATS_SCRATCH_SIZE);'')],
      code_text [(1, ''memset_io(v, 0, FMAN_EHASH_INT_BUF_TOTAL + FMAN_EHASH_STATS_SCRATCH_SIZE +''),
         (2, ''  FMAN_EHASH_FRAG_INFO_SIZE);''),
         (1, ''/* F-262: vendor cdx_init_frag_module(): BPID_ENABLE | OPT_COUNTER_EN,''),
         (1, '' * DF action 0 (error), counters 0, v6_identification 1. */''),
         (1, ''iowrite16be(0x0008 | 0x0004, v + FMAN_EHASH_INT_BUF_TOTAL +''),
         (2, ''    FMAN_EHASH_STATS_SCRATCH_SIZE);''),
         (1, ''iowrite32be(1, v + FMAN_EHASH_INT_BUF_TOTAL +''),
         (2, ''    FMAN_EHASH_STATS_SCRATCH_SIZE + 24);'')], 1),
    (fman_pcd_c,
      code_text [(1, ''pcd->fe_stats_off = aligned_off + FMAN_EHASH_INT_BUF_TOTAL;'')],
      code_text [(1, ''pcd->fe_stats_off = aligned_off + FMAN_EHASH_INT_BUF_TOTAL;''),
         (1, ''pcd->fe_frag_off = pcd->fe_stats_off + FMAN_EHASH_STATS_SCRATCH_SIZE;'')], 1),
    (fman_pcd_c,
      code_text [(1, ''pcd->fe_stats_off = 0;'')],
      code_text [(1, ''pcd->fe_stats_off = 0;''),
         (1, ''pcd->fe_frag_off = 0;'' @ [CHR 0x09] @ ''/* F-262 */'')], 1),
    (fman_pcd_c,
      code_text [(0, ''static int fman_pcd_ehash_add_key(struct fman_pcd_ehash_table *t,''),
         (4, ''  const u8 *key, u8 key_size,''),
         (4, ''  u32 enq_off, u32 fqid, bool stats,''),
         (4, ''  const u8 *l2_dst, const u8 *l2_src,''),
         (4, ''  u16 eth_type,''),
         (4, ''  const struct fman_pcd_nat_params *nat,''),
         (4, ''  const struct fman_pcd_vlan_params *vlan)''),
         (0, ''{'')],
      F_262_frag_pool @ code_text [(0, ''static int fman_pcd_ehash_add_key(struct fman_pcd_ehash_table *t,''),
         (4, ''  const u8 *key, u8 key_size,''),
         (4, ''  u32 enq_off, u32 fqid, bool stats,''),
         (4, ''  const u8 *l2_dst, const u8 *l2_src,''),
         (4, ''  u16 eth_type,''),
         (4, ''  const struct fman_pcd_nat_params *nat,''),
         (4, ''  const struct fman_pcd_vlan_params *vlan)''),
         (0, ''{''),
         (1, ''int frag_bpid = 0;'' @ [CHR 0x09] @ ''/* F-262 */'')], 1)]\<close>

definition F_262_edits_2 :: "edit list" where \<open>
  F_262_edits_2 = [
    (fman_pcd_c,
      code_text [(1, ''if (key_size > FMAN_EHASH_FLOW_KEY_MAX)''),
         (2, ''return -EINVAL;'')],
      code_text [(1, ''if (key_size > FMAN_EHASH_FLOW_KEY_MAX)''),
         (2, ''return -EINVAL;''),
         (1, ''/* F-262: an MTU check needs the L2/TX terminal, the frag-info block''),
         (1, '' * and the frag pool; refuse rather than emit 05 without them. */''),
         (1, ''if (vlan && vlan->egress_mtu) {''),
         (2, ''if (!(l2_dst && l2_src && eth_type) || !t->pcd->fe_frag_off)''),
         (3, ''return -EOPNOTSUPP;''),
         (2, ''frag_bpid = fman_pcd_frag_pool_bpid(t->pcd);''),
         (2, ''if (frag_bpid < 0)''),
         (3, ''return frag_bpid;''),
         (1, ''}'')], 1),
    (fman_pcd_c,
      code_text [(2, ''size_t enqueue_off;'')],
      code_text [(2, ''size_t enqueue_off;''),
         (2, ''size_t pre_off = 0;'' @ [CHR 0x09] @ ''/* F-262: 05 param, 0 if no 05 */'')], 1),
    (fman_pcd_c,
      code_text [(3, ''bool vlan_pop = vlan && (vlan->flags & FMAN_PCD_VLANF_POP);'')],
      code_text [(3, ''bool vlan_pop = vlan && (vlan->flags & FMAN_PCD_VLANF_POP);''),
         (0, []),
         (3, ''/* F-262: vendor PREEMPTIVE_CHECKS_ON_PKT leads the record;''),
         (3, '' * its 8-byte en_ehash_preempt_op is sealed once the ENQUEUE''),
         (3, '' * param offset is known. vlan_oi counts it, so the NAT''),
         (3, '' * rebuild keeps it. */''),
         (3, ''if (vlan && vlan->egress_mtu) {''),
         (4, ''r[opc_off + oi++] = 0x05;'' @ [CHR 0x09] @ ''/* PREEMPTIVE_CHECKS */''),
         (4, ''pre_off = param_off;''),
         (4, ''param_off += 8;''),
         (4, ''ttl_param_off = param_off;''),
         (3, ''}'')], 1),
    (fman_pcd_c,
      code_text [(2, ''param_end = enqueue_off + 16;'')],
      code_text [(2, ''/* F-262: vendor seal_preemptive_checks_hm() + create_enque_hm():''),
         (2, '' * mtu_offset, TX_VALIDATE (| DFBIT_HONOR for IPv4); ENQ mtu =''),
         (2, '' * egress MTU, bpid = frag pool, word2 = frag-info block. */''),
         (2, ''if (pre_off) {''),
         (3, ''r[pre_off + 0] = (u8)(enqueue_off - pre_off);''),
         (3, ''r[pre_off + 1] = 0x01 | (eth_type == 0x0800 ? 0x02 : 0);''),
         (3, ''*(__be16 *)(r + enqueue_off + 0) =''),
         (4, ''cpu_to_be16(vlan->egress_mtu);''),
         (3, ''*(r + enqueue_off + 3) = (u8)frag_bpid;''),
         (3, ''*(__be32 *)(r + enqueue_off + 12) =''),
         (4, ''cpu_to_be32(t->pcd->fe_frag_off & 0x00ffffff);''),
         (2, ''}''),
         (2, ''param_end = enqueue_off + 16;'')], 1),
    (fman_pcd_c,
      code_text [(3, ''.pppoe_sid = action->pppoe_sid,'' @ [CHR 0x09] @ ''/* F-261 */'')],
      code_text [(3, ''.pppoe_sid = action->pppoe_sid,'' @ [CHR 0x09] @ ''/* F-261 */''),
         (3, ''.egress_mtu = action->egress_mtu,'' @ [CHR 0x09] @ ''/* F-262 */'')], 1),
    (fman_pcd_c,
      code_text [(6, '' action->vlan_flags ? &_vlan : NULL);'')],
      code_text [(6, '' (action->vlan_flags ||''),
         (6, ''  action->egress_mtu) ? &_vlan : NULL);'')], 1)]\<close>

definition F_262 :: fixup where
  "F_262 = \<lparr> fx_mark = ''F-262'', fx_edits = F_262_edits_1 @ F_262_edits_2,
     fx_missing = SystemExit 1, fx_needs = [], fx_precheck = False, fx_partial = False \<rparr>"

definition F_266_disarm_log_old :: string where \<open>
  F_266_disarm_log_old =
    code_text [(1, ''dev_info(port->dev, "fman_port: IPv6 HXS soft-sequence disarmed (0x%08x)'' @ [CHR 0x5C] @ ''n",''),
         (2, '' saved_ssa);'')]\<close>

definition F_266_disarm_log_new :: string where \<open>
  F_266_disarm_log_new =
    code_text [(1, ''dev_info(port->dev, "fman_port: HXS slot %u soft-sequence disarmed (0x%08x)'' @ [CHR 0x5C] @ ''n",''),
         (2, '' hxs_slot, saved_ssa);'' @ [CHR 0x09] @ ''/* F-266 */'')]\<close>

definition F_266_port_c_add :: string where \<open>
  F_266_port_c_add =
    code_text [(0, []),
         (0, ''/*''),
         (0, '' * F-266 (control punt): attach a resident soft-parser routine to one RX''),
         (0, '' * port'' @ [CHR 0x27] @ ''s HXS stage. Unlike fman_port_sp_arm(), which writes an absolute''),
         (0, '' * value, this changes only SW_PRS_EN and the halfword label and keeps the''),
         (0, '' * slot'' @ [CHR 0x27] @ ''s other bits (init_hwp() sets TCP/UDP short-pad removal). Undo with''),
         (0, '' * fman_port_sp_disarm(port, hxs_slot, *saved_ssa).''),
         (0, '' *''),
         (0, '' * Returns 0, -EINVAL on a bad port/slot/label, or -EIO on readback mismatch''),
         (0, '' * (the previous value is restored).''),
         (0, '' */''),
         (0, ''#define FMAN_PORT_SSA_SW_PRS_EN'' @ [CHR 0x09] @ ''0x00000400''),
         (0, ''#define FMAN_PORT_SSA_SW_LABEL'' @ [CHR 0x09] @ ''0x000003ff''),
         (0, []),
         (0, ''int fman_port_sp_attach(struct fman_port *port, u32 hxs_slot, u32 label,''),
         (3, ''u32 *saved_ssa)''),
         (0, ''{''),
         (1, ''struct fman_port_hwp_regs __iomem *regs;''),
         (1, ''u32 old, val;''),
         (0, []),
         (1, ''if (!port || port->port_type != FMAN_PORT_TYPE_RX || !port->hwp_regs ||''),
         (1, ''    !saved_ssa || hxs_slot >= HWP_HXS_COUNT ||''),
         (1, ''    (label & ~FMAN_PORT_SSA_SW_LABEL))''),
         (2, ''return -EINVAL;''),
         (1, ''regs = port->hwp_regs;''),
         (0, []),
         (1, ''stop_port_hwp(port);''),
         (1, ''old = ioread32be(&regs->pmda[hxs_slot].ssa);''),
         (1, ''val = (old & ~(FMAN_PORT_SSA_SW_PRS_EN | FMAN_PORT_SSA_SW_LABEL)) |''),
         (1, ''      FMAN_PORT_SSA_SW_PRS_EN | label;''),
         (1, ''iowrite32be(val, &regs->pmda[hxs_slot].ssa);''),
         (1, ''if (ioread32be(&regs->pmda[hxs_slot].ssa) != val) {''),
         (2, ''iowrite32be(old, &regs->pmda[hxs_slot].ssa);''),
         (2, ''start_port_hwp(port);''),
         (2, ''dev_err(port->dev,''),
         (3, ''"fman_port: F-266 HXS slot %u attach readback mismatch'' @ [CHR 0x5C] @ ''n",''),
         (3, ''hxs_slot);''),
         (2, ''return -EIO;''),
         (1, ''}''),
         (1, ''start_port_hwp(port);''),
         (1, ''*saved_ssa = old;''),
         (1, ''dev_info(port->dev,''),
         (2, '' "fman_port: F-266 HXS slot %u soft parser attached at label 0x%03x (ssa 0x%08x -> 0x%08x)'' @ [CHR 0x5C] @ ''n",''),
         (2, '' hxs_slot, label, old, val);''),
         (1, ''return 0;''),
         (0, ''}''),
         (0, ''EXPORT_SYMBOL_GPL(fman_port_sp_attach);'')]\<close>

definition F_266_port_h_anchor :: string where \<open>
  F_266_port_h_anchor =
    code_text [(0, ''int fman_port_sp_disarm(struct fman_port *port, u32 hxs_slot, u32 saved_ssa);'')]\<close>

definition F_266_port_h_add :: string where \<open>
  F_266_port_h_add =
    code_text [(0, ''/*''),
         (0, '' * F-266: read-modify-write attach of a resident soft-parser routine at''),
         (0, '' * @label (halfwords) to @hxs_slot; detach with fman_port_sp_disarm().''),
         (0, '' */''),
         (0, ''int fman_port_sp_attach(struct fman_port *port, u32 hxs_slot, u32 label,''),
         (3, ''u32 *saved_ssa);'')]\<close>

definition F_266_pcd_c_add_1 :: string where \<open>
  F_266_pcd_c_add_1 =
    code_text [(0, []),
         (0, ''/*''),
         (0, '' * F-266 control punt (ask.ko tcp_ctl_punt / ttl_punt): a soft-parser program''),
         (0, '' * that sends selected frames on an armed RX port to the port'' @ [CHR 0x27] @ ''s default FQ''),
         (0, '' * (the kernel) instead of KeyGen and the FE, as the vendor'' @ [CHR 0x27] @ ''s cdx_sp.xml does:''),
         (0, '' *''),
         (0, '' *  FMAN_PCD_PUNT_TCP_CTL  TCP with SYN, FIN or RST (tcp.flags & 7), so''),
         (0, '' *                         conntrack sees offloaded flows open and close.''),
         (0, '' *  FMAN_PCD_PUNT_TTL      IPv4 TTL <= 1 and IPv6 hop limit <= 1 (A14). The''),
         (0, '' *                         FE'' @ [CHR 0x27] @ ''s UPDATE_TTL drops these silently and''),
         (0, '' *                         UPDATE_HOPLIMIT wraps 1 -> 0 and 0 -> 255; the''),
         (0, '' *                         kernel sends ICMP time exceeded instead.''),
         (0, '' *''),
         (0, '' * A matching routine writes NIA and HPNIA = 0x500002 (BMI enqueue to the''),
         (0, '' * default FQ) and ends the parse. The parser hands the frame on by NIA (RM''),
         (0, '' * 5.9.4.4.4, result array bytes 93-95); the 2026-10-15 program wrote only''),
         (0, '' * HPNIA and never punted. Other frames return to the hard parser unchanged.''),
         (0, '' *''),
         (0, '' * The code is the vendor fmc --sp_only output for''),
         (0, '' * specs/reference/ask2-sp/ctl_punt.xml with -t 0x20 (labels in halfwords:''),
         (0, '' * TCP 0x20, IPv4 0x33, IPv6 0x47). It holds absolute jumps, so it must sit''),
         (0, '' * at parser byte 0x40. The first armed port loads it and the last disarm''),
         (0, '' * restores the previous words. Proven on silicon 2026-10-20 (.156, cold''),
         (0, '' * boot, live load of these words): FIN/RST close offloaded IPv4/IPv6 flows,''),
         (0, '' * TTL/hop limit 1 and 0 get ICMP time exceeded, bulk data stays in the FE.''),
         (0, '' */''),
         (0, ''#define FMAN_PCD_PRS_RPIMAC'' @ [CHR 0x09] @ [CHR 0x09] @ ''0x844'' @ [CHR 0x09] @ [CHR 0x09] @ ''/* FMPR_RPIMAC, parser block */''),
         (0, ''#define FMAN_PCD_PRS_RPIMAC_PEN'' @ [CHR 0x09] @ [CHR 0x09] @ ''0x00000001''),
         (0, ''#define FMAN_PCD_PRS_RPIMAC_PSTAT'' @ [CHR 0x09] @ ''0x00000100''),
         (0, ''#define FMAN_PCD_PRS_IDLE_POLLS'' @ [CHR 0x09] @ [CHR 0x09] @ ''1000'' @ [CHR 0x09] @ [CHR 0x09] @ ''/* x 1 us */''),
         (0, ''#define FMAN_PCD_PUNT_BASE_LABEL'' @ [CHR 0x09] @ ''0x020''),
         (0, ''#define FMAN_PCD_PUNT_OFF'' @ [CHR 0x09] @ [CHR 0x09] @ ''(FMAN_PCD_PUNT_BASE_LABEL * 2)''),
         (0, ''#define FMAN_PCD_PUNT_PORTS'' @ [CHR 0x09] @ [CHR 0x09] @ ''16''),
         (0, ''#define FMAN_PCD_PUNT_NHXS'' @ [CHR 0x09] @ [CHR 0x09] @ ''3''),
         (0, []),
         (0, ''static const u32 fman_pcd_punt_code[] = {''),
         (1, ''0x0000b78a, 0x00da0007, 0x00000000, 0x00004031,''),
         (1, ''0x0000095f, 0x00020050, 0x094f0002, 0x00500001,''),
         (1, ''0x1bff0001, 0x1bfe0000, 0xa38e403c, 0x00010000,''),
         (1, ''0xa38e403c, 0x00001843, 0x095f0002, 0x0050094f,''),
         (1, ''0x00020050, 0x1bff0001, 0x1bfe0001, 0x1bfe0000,''),
         (1, ''0x9f8e4050, 0x00010000, 0x9f8e4050, 0x00001857,''),
         (1, ''0x095f0002, 0x0050094f, 0x00020050, 0x1bff0001,''),
         (1, ''0x1bfe0001, 0x1bfe0000,''),
         (0, ''};''),
         (0, []),
         (0, ''/* HXS attachments; attached bit i of a port = entry i. */''),
         (0, ''static const struct {''),
         (1, ''u32 feature;''),
         (1, ''u8 hxs;''),
         (1, ''u16 label;''),
         (0, ''} fman_pcd_punt_hxs[FMAN_PCD_PUNT_NHXS] = {''),
         (1, ''{ FMAN_PCD_PUNT_TCP_CTL, 10, 0x020 },'' @ [CHR 0x09] @ ''/* TCP HXS, pmda+0x50 */''),
         (1, ''{ FMAN_PCD_PUNT_TTL, 5, 0x033 },'' @ [CHR 0x09] @ ''/* IPv4 HXS, pmda+0x28 */''),
         (1, ''{ FMAN_PCD_PUNT_TTL, 6, 0x047 },'' @ [CHR 0x09] @ ''/* IPv6 HXS, pmda+0x30 */''),
         (0, ''};''),
         (0, []),
         (0, ''struct fman_pcd_punt_port {''),
         (1, ''struct fman_port *port;'' @ [CHR 0x09] @ [CHR 0x09] @ ''/* set while any HXS is attached */''),
         (1, ''u8 hw_port_id;''),
         (1, ''u8 attached;''),
         (1, ''u32 saved_ssa[FMAN_PCD_PUNT_NHXS];''),
         (0, ''};''),
         (0, []),
         (0, ''static DEFINE_MUTEX(fman_pcd_punt_lock);''),
         (0, ''/* Owner while the code is loaded or its restore is pending. */''),
         (0, ''static struct fman *fman_pcd_punt_fm;''),
         (0, ''static unsigned int fman_pcd_punt_users;''),
         (0, ''/* _prev holds the words the code replaced; still to be put back. */''),
         (0, ''static bool fman_pcd_punt_loaded;''),
         (0, ''static u32 fman_pcd_punt_prev[ARRAY_SIZE(fman_pcd_punt_code)];''),
         (0, ''static struct fman_pcd_punt_port fman_pcd_punt_ports[FMAN_PCD_PUNT_PORTS];''),
         (0, []),
         (0, ''/*''),
         (0, '' * Write @n words at parser byte @off. RM (FMPR_RPIMAC): parser internal''),
         (0, '' * memory may be updated only with PEN cleared and written only while PSTAT''),
         (0, '' * is idle. Clearing PEN pauses parse dispatch on every port, so IRQs stay''),
         (0, '' * off and the pause lasts only the few microseconds of the write. PEN is put''),
         (0, '' * back to its previous value. On readback mismatch the words saved in @prev''),
         (0, '' * (if given) are restored inside the same window.''),
         (0, '' */''),
         (0, ''static int fman_pcd_prs_write(struct fman *fm, unsigned int off,''),
         (3, ''      const u32 *code, u32 *prev, unsigned int n)''),
         (0, ''{''),
         (1, ''void __iomem *prs = (void __iomem *)fm->hwp_regs;''),
         (1, ''void __iomem *rpimac = prs + FMAN_PCD_PRS_RPIMAC;''),
         (1, ''unsigned long flags;''),
         (1, ''unsigned int i, polls;''),
         (1, ''u32 saved, stopped, now;''),
         (1, ''int ret = 0;''),
         (0, []),
         (1, ''local_irq_save(flags);''),
         (1, ''saved = ioread32be(rpimac) & ~FMAN_PCD_PRS_RPIMAC_PSTAT;''),
         (1, ''iowrite32be(saved & ~FMAN_PCD_PRS_RPIMAC_PEN, rpimac);''),
         (1, ''for (polls = 0; polls < FMAN_PCD_PRS_IDLE_POLLS; polls++) {''),
         (2, ''stopped = ioread32be(rpimac);''),
         (2, ''if (!(stopped & FMAN_PCD_PRS_RPIMAC_PSTAT))''),
         (3, ''break;''),
         (2, ''udelay(1);''),
         (1, ''}'')]\<close>

definition F_266_pcd_c_add_2 :: string where \<open>
  F_266_pcd_c_add_2 =
    code_text [(1, ''if (polls == FMAN_PCD_PRS_IDLE_POLLS) {''),
         (2, ''ret = -ETIMEDOUT;''),
         (2, ''goto restore;''),
         (1, ''}''),
         (1, ''if (prev)''),
         (2, ''for (i = 0; i < n; i++)''),
         (3, ''prev[i] = ioread32be(prs + off + i * 4);''),
         (1, ''for (i = 0; i < n; i++)''),
         (2, ''iowrite32be(code[i], prs + off + i * 4);''),
         (1, ''for (i = 0; i < n; i++)''),
         (2, ''if (ioread32be(prs + off + i * 4) != code[i])''),
         (3, ''ret = -EIO;''),
         (1, ''if (ret && prev)''),
         (2, ''for (i = 0; i < n; i++)''),
         (3, ''iowrite32be(prev[i], prs + off + i * 4);''),
         (0, ''restore:''),
         (1, ''iowrite32be(saved, rpimac);''),
         (1, ''now = ioread32be(rpimac);''),
         (1, ''local_irq_restore(flags);''),
         (0, []),
         (1, ''if (ret == -ETIMEDOUT)''),
         (2, ''dev_err(fm->dev, "fman_pcd: F-266 parser did not go idle (FMPR_RPIMAC 0x%08x)'' @ [CHR 0x5C] @ ''n",''),
         (3, ''stopped);''),
         (1, ''else if (ret)''),
         (2, ''dev_err(fm->dev, "fman_pcd: F-266 parser code readback mismatch at 0x%03x'' @ [CHR 0x5C] @ ''n",''),
         (3, ''off);''),
         (1, ''if ((now ^ saved) & FMAN_PCD_PRS_RPIMAC_PEN) {''),
         (2, ''dev_err(fm->dev, "fman_pcd: F-266 FMPR_RPIMAC not restored (0x%08x, saved 0x%08x)'' @ [CHR 0x5C] @ ''n",''),
         (3, ''now, saved);''),
         (2, ''if (!ret)''),
         (3, ''ret = -EIO;''),
         (1, ''}''),
         (1, ''if (!(saved & FMAN_PCD_PRS_RPIMAC_PEN))''),
         (2, ''dev_warn(fm->dev, "fman_pcd: F-266 parser was disabled before the load (FMPR_RPIMAC 0x%08x)'' @ [CHR 0x5C] @ ''n",''),
         (3, '' saved);''),
         (1, ''else if (!ret)''),
         (2, ''dev_info(fm->dev, "fman_pcd: F-266 %u parser code word(s) written at 0x%03x (PEN 1->0->1, %u idle poll(s))'' @ [CHR 0x5C] @ ''n",''),
         (3, '' n, off, polls);''),
         (1, ''return ret;''),
         (0, ''}''),
         (0, []),
         (0, ''static bool fman_pcd_punt_resident(struct fman *fm)''),
         (0, ''{''),
         (1, ''void __iomem *prs = (void __iomem *)fm->hwp_regs;''),
         (1, ''unsigned int i;''),
         (0, []),
         (1, ''for (i = 0; i < ARRAY_SIZE(fman_pcd_punt_code); i++)''),
         (2, ''if (ioread32be(prs + FMAN_PCD_PUNT_OFF + i * 4) !=''),
         (2, ''    fman_pcd_punt_code[i])''),
         (3, ''return false;''),
         (1, ''return true;''),
         (0, ''}''),
         (0, []),
         (0, ''/*''),
         (0, '' * Put back the words the first arm replaced; lock held, no port attached.''),
         (0, '' * On failure the code stays (inert, nothing jumps to it) together with the''),
         (0, '' * saved words, and the next first arm and last disarm reuse them.''),
         (0, '' */''),
         (0, ''static void fman_pcd_punt_unload(struct fman *fm)''),
         (0, ''{''),
         (1, ''if (fman_pcd_prs_write(fm, FMAN_PCD_PUNT_OFF, fman_pcd_punt_prev, NULL,''),
         (3, ''       ARRAY_SIZE(fman_pcd_punt_prev))) {''),
         (2, ''dev_err(fm->dev, "fman_pcd: F-266 parser words at 0x%03x not restored; unused, retried after the next arm'' @ [CHR 0x5C] @ ''n",''),
         (3, ''FMAN_PCD_PUNT_OFF);''),
         (2, ''return;''),
         (1, ''}''),
         (1, ''fman_pcd_punt_loaded = false;''),
         (1, ''fman_pcd_punt_fm = NULL;''),
         (0, ''}''),
         (0, []),
         (0, ''/**''),
         (0, '' * fman_pcd_ctl_punt_set() - choose which frames one RX port punts''),
         (0, '' * @fm: FMan instance''),
         (0, '' * @hw_port_id: BMI hardware port id of an RX port''),
         (0, '' * @mask: FMAN_PCD_PUNT_* bits; 0 disarms the port''),
         (0, '' *''),
         (0, '' * Attaches and detaches the port'' @ [CHR 0x27] @ ''s TCP/IPv4/IPv6 HXS so that they match''),
         (0, '' * @mask. The first armed port loads the program; the last disarm restores''),
         (0, '' * the parser words it replaced. Each HXS is tracked on its own, so after an''),
         (0, '' * error the port keeps the HXS that did change and a later call with the''),
         (0, '' * same or another mask converges. Disarming an unarmed port is a no-op.''),
         (0, '' *''),
         (0, '' * Return: 0, -EINVAL, -ENODEV (no such RX port), -EBUSY (loaded on another''),
         (0, '' * FMan), -ENOSPC, -ETIMEDOUT (parser never idle), or -EIO (readback''),
         (0, '' * mismatch or the resident code was overwritten).''),
         (0, '' */''),
         (0, ''int fman_pcd_ctl_punt_set(struct fman *fm, u8 hw_port_id, u32 mask)''),
         (0, ''{''),
         (1, ''struct fman_pcd_punt_port *slot = NULL, *spare = NULL;''),
         (1, ''const unsigned int n = ARRAY_SIZE(fman_pcd_punt_code);''),
         (1, ''struct fman_port *port;''),
         (1, ''bool add = false;''),
         (1, ''unsigned int i;''),
         (1, ''u8 was;''),
         (1, ''int ret = 0;''),
         (0, []),
         (1, ''if (!fm || !fm->hwp_regs || (mask & ~FMAN_PCD_PUNT_ALL))''),
         (2, ''return -EINVAL;''),
         (0, []),
         (1, ''mutex_lock(&fman_pcd_punt_lock);'')]\<close>

definition F_266_pcd_c_add_3 :: string where \<open>
  F_266_pcd_c_add_3 =
    code_text [(1, ''if (fman_pcd_punt_fm && fman_pcd_punt_fm != fm) {''),
         (2, ''ret = mask ? -EBUSY : 0;''),
         (2, ''goto out;''),
         (1, ''}''),
         (1, ''for (i = 0; i < ARRAY_SIZE(fman_pcd_punt_ports); i++) {''),
         (2, ''struct fman_pcd_punt_port *pp = &fman_pcd_punt_ports[i];''),
         (0, []),
         (2, ''if (pp->port && pp->hw_port_id == hw_port_id) {''),
         (3, ''slot = pp;''),
         (3, ''break;''),
         (2, ''}''),
         (2, ''if (!spare && !pp->port)''),
         (3, ''spare = pp;''),
         (1, ''}''),
         (1, ''if (slot) {''),
         (2, ''port = slot->port;''),
         (1, ''} else {''),
         (2, ''if (!mask)''),
         (3, ''goto out;''),
         (2, ''port = fman_port_lookup_rx(fm, hw_port_id);''),
         (2, ''if (!port) {''),
         (3, ''ret = -ENODEV;''),
         (3, ''goto out;''),
         (2, ''}''),
         (2, ''if (!spare) {''),
         (3, ''ret = -ENOSPC;''),
         (3, ''goto out;''),
         (2, ''}''),
         (2, ''slot = spare;''),
         (2, ''slot->attached = 0;''),
         (1, ''}''),
         (1, ''was = slot->attached;''),
         (1, ''for (i = 0; i < FMAN_PCD_PUNT_NHXS; i++)''),
         (2, ''if ((mask & fman_pcd_punt_hxs[i].feature) && !(was & BIT(i)))''),
         (3, ''add = true;''),
         (0, []),
         (1, ''if (!fman_pcd_punt_users) {''),
         (2, ''/* After a failed restore, _prev already has the original words. */''),
         (2, ''ret = fman_pcd_prs_write(fm, FMAN_PCD_PUNT_OFF, fman_pcd_punt_code,''),
         (5, '' fman_pcd_punt_loaded ? NULL :''),
         (5, '' fman_pcd_punt_prev, n);''),
         (2, ''if (ret)''),
         (3, ''goto out;''),
         (2, ''fman_pcd_punt_loaded = true;''),
         (2, ''fman_pcd_punt_fm = fm;''),
         (1, ''} else if (add && !fman_pcd_punt_resident(fm)) {''),
         (2, ''dev_err(fm->dev, "fman_pcd: F-266 punt code at parser 0x%03x was overwritten'' @ [CHR 0x5C] @ ''n",''),
         (3, ''FMAN_PCD_PUNT_OFF);''),
         (2, ''ret = -EIO;''),
         (2, ''goto out;''),
         (1, ''}''),
         (0, []),
         (1, ''for (i = 0; i < FMAN_PCD_PUNT_NHXS; i++) {''),
         (2, ''bool want = mask & fman_pcd_punt_hxs[i].feature;''),
         (2, ''bool have = slot->attached & BIT(i);''),
         (2, ''int rc;''),
         (0, []),
         (2, ''if (want == have)''),
         (3, ''continue;''),
         (2, ''if (want)''),
         (3, ''rc = fman_port_sp_attach(port, fman_pcd_punt_hxs[i].hxs,''),
         (6, '' fman_pcd_punt_hxs[i].label,''),
         (6, '' &slot->saved_ssa[i]);''),
         (2, ''else''),
         (3, ''rc = fman_port_sp_disarm(port, fman_pcd_punt_hxs[i].hxs,''),
         (6, '' slot->saved_ssa[i]);''),
         (2, ''if (rc) {''),
         (3, ''if (!ret)''),
         (4, ''ret = rc;''),
         (3, ''continue;''),
         (2, ''}''),
         (2, ''slot->attached ^= BIT(i);''),
         (1, ''}''),
         (0, []),
         (1, ''if (!was && slot->attached) {''),
         (2, ''slot->port = port;''),
         (2, ''slot->hw_port_id = hw_port_id;''),
         (2, ''fman_pcd_punt_users++;''),
         (1, ''} else if (was && !slot->attached) {''),
         (2, ''slot->port = NULL;''),
         (2, ''fman_pcd_punt_users--;''),
         (1, ''}''),
         (1, ''if (!fman_pcd_punt_users)''),
         (2, ''fman_pcd_punt_unload(fm);''),
         (1, ''dev_info(fm->dev, "fman_pcd: F-266 control punt on port 0x%02x: HXS mask 0x%x -> 0x%x (%u port(s))'' @ [CHR 0x5C] @ ''n",''),
         (2, '' hw_port_id, was, slot->attached, fman_pcd_punt_users);''),
         (0, ''out:''),
         (1, ''mutex_unlock(&fman_pcd_punt_lock);''),
         (1, ''return ret;''),
         (0, ''}''),
         (0, ''EXPORT_SYMBOL_GPL(fman_pcd_ctl_punt_set);'')]\<close>

definition F_266_pcd_c_add :: string where "F_266_pcd_c_add = F_266_pcd_c_add_1 @ F_266_pcd_c_add_2 @ F_266_pcd_c_add_3"

definition F_266_pcd_h_add :: string where \<open>
  F_266_pcd_h_add =
    code_text [(0, []),
         (0, ''/*''),
         (0, '' * F-266: control punt (ask.ko tcp_ctl_punt, ttl_punt). A soft-parser program''),
         (0, '' * sends the selected frames of an armed RX port to its default FQ instead of''),
         (0, '' * KeyGen/FE. fman_pcd_ctl_punt_set() makes the port match @mask; 0 disarms''),
         (0, '' * it, and the last disarm restores the parser code words.''),
         (0, '' */''),
         (0, ''#define FMAN_PCD_PUNT_TCP_CTL'' @ [CHR 0x09] @ ''0x1'' @ [CHR 0x09] @ ''/* TCP SYN/FIN/RST */''),
         (0, ''#define FMAN_PCD_PUNT_TTL'' @ [CHR 0x09] @ ''0x2'' @ [CHR 0x09] @ ''/* IPv4 TTL / IPv6 hop limit <= 1 */''),
         (0, ''#define FMAN_PCD_PUNT_ALL'' @ [CHR 0x09] @ ''(FMAN_PCD_PUNT_TCP_CTL | FMAN_PCD_PUNT_TTL)''),
         (0, ''int fman_pcd_ctl_punt_set(struct fman *fm, u8 hw_port_id, u32 mask);'')]\<close>

definition F_266_edits :: "edit list" where \<open>
  F_266_edits = [
    (fman_port_c,
      F_266_disarm_log_old,
      F_266_disarm_log_new, 1),
    (fman_port_c,
      code_text [(0, ''EXPORT_SYMBOL_GPL(fman_port_sp_disarm);'')],
      code_text [(0, ''EXPORT_SYMBOL_GPL(fman_port_sp_disarm);'')] @ F_266_port_c_add, 1),
    (fman_port_h,
      F_266_port_h_anchor,
      F_266_port_h_anchor @ F_266_port_h_add, 1),
    (fman_pcd_c,
      code_text [(0, ''EXPORT_SYMBOL_GPL(fman_pcd_offload_disengage);'')],
      code_text [(0, ''EXPORT_SYMBOL_GPL(fman_pcd_offload_disengage);'')] @ F_266_pcd_c_add, 1),
    (fman_pcd_h,
      code_text [(0, ''unsigned long fman_pcd_fe_enq_get_offset(struct fman *fm);'')],
      code_text [(0, ''unsigned long fman_pcd_fe_enq_get_offset(struct fman *fm);'')] @ F_266_pcd_h_add, 1)]\<close>

definition F_266 :: fixup where
  "F_266 = \<lparr> fx_mark = ''F-266'', fx_edits = F_266_edits,
     fx_missing = SystemExit 1, fx_needs = [], fx_precheck = True, fx_partial = True \<rparr>"

definition F_268_edits :: "edit list" where \<open>
  F_268_edits = [
    (fman_pcd_h,
      code_text [(0, ''#define FMAN_PCD_VLANF_PPPOE_INSERT'' @ [CHR 0x09] @ ''(1u << 3)'')],
      code_text [(0, ''#define FMAN_PCD_VLANF_PPPOE_INSERT'' @ [CHR 0x09] @ ''(1u << 3)''),
         (0, ''/* F-268: bridge record (B7b): with POP or PUSH, no TTL/hop-limit''),
         (0, '' * decrement and ENQUEUE mtu 0xffff (vendor fill_bridge_actions). */''),
         (0, ''#define FMAN_PCD_VLANF_BRIDGE'' @ [CHR 0x09] @ ''(1u << 4)'')], 1),
    (fman_pcd_c,
      code_text [(1, ''/* F-262: an MTU check needs the L2/TX terminal, the frag-info block'')],
      code_text [(1, ''/* F-268: a bridge record is a VLAN pop or push on the L2/TX''),
         (1, '' * terminal and nothing else (no L3 edit, no MTU check). */''),
         (1, ''if (vlan && (vlan->flags & FMAN_PCD_VLANF_BRIDGE) &&''),
         (1, ''    (!(l2_dst && l2_src && eth_type) || (nat && nat->flags) ||''),
         (1, ''     vlan->egress_mtu ||''),
         (1, ''     !(vlan->flags & (FMAN_PCD_VLANF_POP | FMAN_PCD_VLANF_PUSH)) ||''),
         (1, ''     (vlan->flags & (FMAN_PCD_VLANF_PPPOE_STRIP |''),
         (3, ''     FMAN_PCD_VLANF_PPPOE_INSERT))))''),
         (2, ''return -EINVAL;''),
         (1, ''/* F-262: an MTU check needs the L2/TX terminal, the frag-info block'')], 1),
    (fman_pcd_c,
      code_text [(3, ''bool vlan_pop = vlan && (vlan->flags & FMAN_PCD_VLANF_POP);'')],
      code_text [(3, ''bool vlan_pop = vlan && (vlan->flags & FMAN_PCD_VLANF_POP);''),
         (3, ''bool bridge = vlan && (vlan->flags & FMAN_PCD_VLANF_BRIDGE);'')], 1),
    (fman_pcd_c,
      code_text [(3, ''if (eth_type == 0x0800) {''),
         (4, ''/* UPDATE_TTL opcode + 4B zero DSCP param first. */'')],
      code_text [(3, ''if (bridge) {''),
         (4, ''/* F-268: a bridge never touches TTL/hop limit. */''),
         (3, ''} else if (eth_type == 0x0800) {''),
         (4, ''/* UPDATE_TTL opcode + 4B zero DSCP param first. */'')], 1),
    (fman_pcd_c,
      code_text [(3, ''cpu_to_be16(vlan && (vlan->flags & FMAN_PCD_VLANF_PPPOE_INSERT) ?''),
         (4, ''    0xffff : 1500);'')],
      code_text [(3, ''cpu_to_be16(vlan && (vlan->flags &''),
         (5, ''    (FMAN_PCD_VLANF_PPPOE_INSERT |''),
         (5, ''     FMAN_PCD_VLANF_BRIDGE)) ?''),
         (4, ''    0xffff : 1500);'' @ [CHR 0x09] @ ''/* F-268: bridge */'')], 1)]\<close>

definition F_268 :: fixup where
  "F_268 = \<lparr> fx_mark = ''F-268'', fx_edits = F_268_edits,
     fx_missing = SystemExit 1, fx_needs = [], fx_precheck = False, fx_partial = False \<rparr>"

section \<open>The contracts\<close>

lemma F_201_new_mark: "contains ''F-201'' F_201_new"
  unfolding F_201_new_def by (rule carries_text, code_simp)

interpretation f201: marked_fixup F_201
  by (rule fixup_listI [where bs = "[True]" and ps = "[]"], unfold F_201_def fixup.select_convs append.simps,
      intro list.rel_intros edit_caseI F_201_new_mark F_201_new_mark [THEN contains_tail] F_201_new_mark [THEN contains_front] carries_text carries_line carries_tabs; (simp; fail)?; (code_simp; fail)?; simp)

lemma F_209_new_mark: "contains ''F-209'' F_209_new"
  unfolding F_209_new_def by (rule carries_text, code_simp)

interpretation f209: marked_fixup F_209
  by (rule fixup_listI [where bs = "[True]" and ps = "[]"], unfold F_209_def fixup.select_convs append.simps,
      intro list.rel_intros edit_caseI F_209_new_mark F_209_new_mark [THEN contains_tail] F_209_new_mark [THEN contains_front] carries_text carries_line carries_tabs; (simp; fail)?; (code_simp; fail)?; simp)

lemma F_222_new_mark: "contains ''F-222(order0-revert)'' F_222_new"
  unfolding F_222_new_def by (rule carries_text, code_simp)

interpretation f222: marked_fixup F_222
  by (rule fixup_listI [where bs = "[True]" and ps = "[]"], unfold F_222_def fixup.select_convs append.simps,
      intro list.rel_intros edit_caseI F_222_new_mark F_222_new_mark [THEN contains_tail] F_222_new_mark [THEN contains_front] carries_text carries_line carries_tabs; (simp; fail)?; (code_simp; fail)?; simp)

lemma F_224_new_mark: "contains ''F-224(dual-lane-gec)'' F_224_new"
  unfolding F_224_new_def by (rule carries_text, code_simp)

interpretation f224: marked_fixup F_224
  by (rule fixup_listI [where bs = "[True]" and ps = "[]"], unfold F_224_def fixup.select_convs append.simps,
      intro list.rel_intros edit_caseI F_224_new_mark F_224_new_mark [THEN contains_tail] F_224_new_mark [THEN contains_front] carries_text carries_line carries_tabs; (simp; fail)?; (code_simp; fail)?; simp)

lemma F_227_new_mark: "contains ''F-227'' F_227_new"
  unfolding F_227_new_def by (rule carries_text, code_simp)

interpretation f227: marked_fixup F_227
  by (rule fixup_listI [where bs = "[True]" and ps = "[]"], unfold F_227_def fixup.select_convs append.simps,
      intro list.rel_intros edit_caseI F_227_new_mark F_227_new_mark [THEN contains_tail] F_227_new_mark [THEN contains_front] carries_text carries_line carries_tabs; (simp; fail)?; (code_simp; fail)?; simp)

lemma F_229_new_mark: "contains ''F-229(force-sgmii-pause)'' F_229_new"
  unfolding F_229_new_def by (rule carries_text, code_simp)

interpretation f229: marked_fixup F_229
  by (rule fixup_listI [where bs = "[True]" and ps = "[]"], unfold F_229_def fixup.select_convs append.simps,
      intro list.rel_intros edit_caseI F_229_new_mark F_229_new_mark [THEN contains_tail] F_229_new_mark [THEN contains_front] carries_text carries_line carries_tabs; (simp; fail)?; (code_simp; fail)?; simp)

lemma F_242_new_mark: "contains ''F-242(bmcl-noop-mask)'' F_242_new"
  unfolding F_242_new_def by (rule carries_text, code_simp)

interpretation f242: marked_fixup F_242
  by (rule fixup_listI [where bs = "[True]" and ps = "[]"], unfold F_242_def fixup.select_convs append.simps,
      intro list.rel_intros edit_caseI F_242_new_mark F_242_new_mark [THEN contains_tail] F_242_new_mark [THEN contains_front] carries_text carries_line carries_tabs; (simp; fail)?; (code_simp; fail)?; simp)

lemma F_244_new_array_mark: "contains ''F-244(sp-magic-byte)'' F_244_new_array"
  unfolding F_244_new_array_def by (rule carries_text, code_simp)

interpretation f244: marked_fixup F_244
  by (rule fixup_listI [where bs = "[True]" and ps = "[]"], unfold F_244_def fixup.select_convs append.simps,
      intro list.rel_intros edit_caseI F_244_new_array_mark F_244_new_array_mark [THEN contains_tail] F_244_new_array_mark [THEN contains_front] carries_text carries_line carries_tabs; (simp; fail)?; (code_simp; fail)?; simp)

lemma F_246_global_fns_mark: "contains ''F-246(sp-global-enable)'' F_246_global_fns"
  unfolding F_246_global_fns_def by (rule carries_text, code_simp)

lemma F_246_new2_mark: "contains ''F-246(sp-global-enable)'' F_246_new2"
  unfolding F_246_new2_def by (rule carries_text, code_simp)

interpretation f246: marked_fixup F_246
  by (rule fixup_listI [where bs = "[True, True]" and ps = "[]"], unfold F_246_def fixup.select_convs append.simps,
      intro list.rel_intros edit_caseI F_246_global_fns_mark F_246_global_fns_mark [THEN contains_tail] F_246_global_fns_mark [THEN contains_front] F_246_new2_mark F_246_new2_mark [THEN contains_tail] F_246_new2_mark [THEN contains_front] carries_text carries_line carries_tabs; (simp; fail)?; (code_simp; fail)?; simp)

lemma F_248_new_fn_mark: "contains ''F-248(cc-test-install-l2)'' F_248_new_fn"
  unfolding F_248_new_fn_def by (rule carries_text, code_simp)

interpretation f248: marked_fixup F_248
  by (rule fixup_listI [where bs = "[True, False]" and ps = "[fman_pcd_cc_test_c]"], unfold F_248_def fixup.select_convs append.simps,
      intro list.rel_intros edit_caseI F_248_new_fn_mark F_248_new_fn_mark [THEN contains_tail] F_248_new_fn_mark [THEN contains_front] carries_text carries_line carries_tabs; (simp; fail)?; (code_simp; fail)?; simp)

lemma F_247_new1_mark: "contains ''F-247(probe3-l2)'' F_247_new1"
  unfolding F_247_new1_def by (rule carries_text, code_simp)

lemma F_247_new2_mark: "contains ''F-247(probe3-l2)'' F_247_new2"
  unfolding F_247_new2_def by (rule carries_text, code_simp)

lemma F_247_new3_mark: "contains ''F-247(probe3-l2)'' F_247_new3"
  unfolding F_247_new3_def by (rule carries_text, code_simp)

interpretation f247: marked_fixup F_247
  by (rule fixup_listI [where bs = "[True, True, True]" and ps = "[]"], unfold F_247_def fixup.select_convs append.simps,
      intro list.rel_intros edit_caseI F_247_new1_mark F_247_new1_mark [THEN contains_tail] F_247_new1_mark [THEN contains_front] F_247_new2_mark F_247_new2_mark [THEN contains_tail] F_247_new2_mark [THEN contains_front] F_247_new3_mark F_247_new3_mark [THEN contains_tail] F_247_new3_mark [THEN contains_front] carries_text carries_line carries_tabs; (simp; fail)?; (code_simp; fail)?; simp)

lemma F_249_new_mark: "contains ''F-249(install-l2-fe-coexist)'' F_249_new"
  unfolding F_249_new_def by (rule carries_text, code_simp)

interpretation f249: marked_fixup F_249
  by (rule fixup_listI [where bs = "[True]" and ps = "[]"], unfold F_249_def fixup.select_convs append.simps,
      intro list.rel_intros edit_caseI F_249_new_mark F_249_new_mark [THEN contains_tail] F_249_new_mark [THEN contains_front] carries_text carries_line carries_tabs; (simp; fail)?; (code_simp; fail)?; simp)

lemma F_250_new_fn_mark: "contains ''F-250(cc-test-install-l2fwd)'' F_250_new_fn"
  unfolding F_250_new_fn_def by (rule carries_text, code_simp)

interpretation f250: marked_fixup F_250
  by (rule fixup_listI [where bs = "[True, False]" and ps = "[fman_pcd_cc_test_c]"], unfold F_250_def fixup.select_convs append.simps,
      intro list.rel_intros edit_caseI F_250_new_fn_mark F_250_new_fn_mark [THEN contains_tail] F_250_new_fn_mark [THEN contains_front] carries_text carries_line carries_tabs; (simp; fail)?; (code_simp; fail)?; simp)

lemma F_251_new1_mark: "contains ''F-251(cc-seq-dump-ad-table)'' F_251_new1"
  unfolding F_251_new1_def by (rule carries_text, code_simp)

lemma F_251_new2_mark: "contains ''F-251(cc-seq-dump-ad-table)'' F_251_new2"
  unfolding F_251_new2_def by (rule carries_text, code_simp)

interpretation f251: marked_fixup F_251
  by (rule fixup_listI [where bs = "[True, True]" and ps = "[]"], unfold F_251_def fixup.select_convs append.simps,
      intro list.rel_intros edit_caseI F_251_new1_mark F_251_new1_mark [THEN contains_tail] F_251_new1_mark [THEN contains_front] F_251_new2_mark F_251_new2_mark [THEN contains_tail] F_251_new2_mark [THEN contains_front] carries_text carries_line carries_tabs; (simp; fail)?; (code_simp; fail)?; simp)

lemma F_254_new_mid_mark: "contains ''F-254'' F_254_new_mid"
  unfolding F_254_new_mid_def by (rule carries_line, code_simp)

lemma F_254_new_free_mark: "contains ''F-254'' F_254_new_free"
  unfolding F_254_new_free_def by (rule carries_line, code_simp)

interpretation f254: marked_fixup F_254
  by (rule fixup_listI [where bs = "[True, True]" and ps = "[]"], unfold F_254_def fixup.select_convs append.simps,
      intro list.rel_intros edit_caseI F_254_new_mid_mark F_254_new_mid_mark [THEN contains_tail] F_254_new_mid_mark [THEN contains_front] F_254_new_free_mark F_254_new_free_mark [THEN contains_tail] F_254_new_free_mark [THEN contains_front] carries_text carries_line carries_tabs; (simp; fail)?; (code_simp; fail)?; simp)

interpretation f255: marked_fixup F_255
  by (rule fixup_listI [where bs = "[True, True, True, True, True, True, True, True, True, True, True, True]" and ps = "[]"], unfold F_255_def F_255_edits_1_def F_255_edits_2_def F_255_edits_3_def fixup.select_convs append.simps,
      intro list.rel_intros edit_caseI  carries_text carries_line carries_tabs; (simp; fail)?; (code_simp; fail)?; simp)

lemma F_262_port_adv_mark: "contains ''F-262'' F_262_port_adv"
  unfolding F_262_port_adv_def by (rule carries_text, code_simp)

lemma F_262_pcd_adv_mark: "contains ''F-262'' F_262_pcd_adv"
  unfolding F_262_pcd_adv_def by (rule carries_text, code_simp)

lemma F_262_frag_pool_mark: "contains ''F-262'' F_262_frag_pool"
  unfolding F_262_frag_pool_def by (rule carries_text, code_simp)

interpretation f262: marked_fixup F_262
  by (rule fixup_listI [where bs = "[True, True, True, True, True, True, True, True, True, True, True, True, True, False, True, True, True, True, True, True, True, False]" and ps = "[fman_pcd_c]"], unfold F_262_def F_262_edits_1_def F_262_edits_2_def fixup.select_convs append.simps,
      intro list.rel_intros edit_caseI F_262_port_adv_mark F_262_port_adv_mark [THEN contains_tail] F_262_port_adv_mark [THEN contains_front] F_262_pcd_adv_mark F_262_pcd_adv_mark [THEN contains_tail] F_262_pcd_adv_mark [THEN contains_front] F_262_frag_pool_mark F_262_frag_pool_mark [THEN contains_tail] F_262_frag_pool_mark [THEN contains_front] carries_text carries_line carries_tabs; (simp; fail)?; (code_simp; fail)?; simp)

lemma F_266_disarm_log_new_mark: "contains ''F-266'' F_266_disarm_log_new"
  unfolding F_266_disarm_log_new_def by (rule carries_text, code_simp)

lemma F_266_port_c_add_mark: "contains ''F-266'' F_266_port_c_add"
  unfolding F_266_port_c_add_def by (rule carries_text, code_simp)

lemma F_266_port_h_add_mark: "contains ''F-266'' F_266_port_h_add"
  unfolding F_266_port_h_add_def by (rule carries_text, code_simp)

lemma F_266_pcd_c_add_1_mark: "contains ''F-266'' F_266_pcd_c_add_1"
  unfolding F_266_pcd_c_add_1_def by (rule carries_text, code_simp)

lemma F_266_pcd_c_add_2_mark: "contains ''F-266'' F_266_pcd_c_add_2"
  unfolding F_266_pcd_c_add_2_def by (rule carries_text, code_simp)

lemma F_266_pcd_c_add_3_mark: "contains ''F-266'' F_266_pcd_c_add_3"
  unfolding F_266_pcd_c_add_3_def by (rule carries_text, code_simp)

lemma F_266_pcd_c_add_mark: "contains ''F-266'' F_266_pcd_c_add"
  unfolding F_266_pcd_c_add_def by (rule contains_front, rule F_266_pcd_c_add_1_mark)

lemma F_266_pcd_h_add_mark: "contains ''F-266'' F_266_pcd_h_add"
  unfolding F_266_pcd_h_add_def by (rule carries_text, code_simp)

interpretation f266: marked_fixup F_266
  by (rule fixup_listI [where bs = "[True, True, True, True, True]" and ps = "[]"], unfold F_266_def F_266_edits_def fixup.select_convs append.simps,
      intro list.rel_intros edit_caseI F_266_disarm_log_new_mark F_266_disarm_log_new_mark [THEN contains_tail] F_266_disarm_log_new_mark [THEN contains_front] F_266_port_c_add_mark F_266_port_c_add_mark [THEN contains_tail] F_266_port_c_add_mark [THEN contains_front] F_266_port_h_add_mark F_266_port_h_add_mark [THEN contains_tail] F_266_port_h_add_mark [THEN contains_front] F_266_pcd_c_add_1_mark F_266_pcd_c_add_1_mark [THEN contains_tail] F_266_pcd_c_add_1_mark [THEN contains_front] F_266_pcd_c_add_2_mark F_266_pcd_c_add_2_mark [THEN contains_tail] F_266_pcd_c_add_2_mark [THEN contains_front] F_266_pcd_c_add_3_mark F_266_pcd_c_add_3_mark [THEN contains_tail] F_266_pcd_c_add_3_mark [THEN contains_front] F_266_pcd_c_add_mark F_266_pcd_c_add_mark [THEN contains_tail] F_266_pcd_c_add_mark [THEN contains_front] F_266_pcd_h_add_mark F_266_pcd_h_add_mark [THEN contains_tail] F_266_pcd_h_add_mark [THEN contains_front] carries_text carries_line carries_tabs; (simp; fail)?; (code_simp; fail)?; simp)

interpretation f268: marked_fixup F_268
  by (rule fixup_listI [where bs = "[True, True, False, True, True]" and ps = "[fman_pcd_c]"], unfold F_268_def F_268_edits_def fixup.select_convs append.simps,
      intro list.rel_intros edit_caseI  carries_text carries_line carries_tabs; (simp; fail)?; (code_simp; fail)?; simp)

end
