(* ===== verification/FixupRuns.thy ===== *)
theory FixupRuns
  imports FixupTexts
begin

text \<open>
  What the numbered kernel source scripts promise together: the thirty-one scripts of \<^verbatim>\<open>Fixups\<close> and
  \<^verbatim>\<open>FixupTexts\<close>, in the order in which \<^verbatim>\<open>bin/ci-setup-kernel.sh\<close> runs them, apply once; a script
  that builds on another refuses a tree the other has not edited.
\<close>

definition fixups :: "fixup list" where
  "fixups =
    [F_201, F_209, F_224, F_258, F_242, F_244, F_246, F_248, F_249, F_250,
     F_251, F_247, F_254, F_255, F_256, F_257, F_259, F_260, F_261, F_262,
     F_263, F_264, F_265, F_266, F_268, F_271, F_270, F_272, F_222, F_227,
     F_229]"

section \<open>A script that builds on another\<close>

lemma refuses_without:
  assumes "m \<in> set (fx_needs fx)" "p \<in> set (fx_paths fx)" "\<not> contains m (text_of fs p)"
    "\<not> contains (fx_mark fx) (text_of fs p)" "\<forall>p \<in> set (fx_paths fx). fs p \<noteq> None"
  shows "run_fixup fx fs = (Inl (SystemExit 1), fs)"
  using assms unfolding run_fixup_def by auto

lemma l2_verb_first:
  assumes "fx \<in> {F_247, F_249, F_250}" "fs fman_pcd_cc_test_c = Some s"
    "\<not> contains ''cc_test_install_l2'' s" "\<not> contains (fx_mark fx) s"
  shows "run_fixup fx fs = (Inl (SystemExit 1), fs)"
  using assms by (intro refuses_without [of "''cc_test_install_l2''" fx fman_pcd_cc_test_c])
    (auto simp: text_of_def fx_paths_def F_247_def F_249_def F_250_def)

text \<open>\<^verbatim>\<open>F_270.py\<close> edits text that \<^verbatim>\<open>F_268.py\<close> wrote.\<close>

lemma f270_after_f268:
  assumes "fs fman_pcd_c = Some s" "\<not> contains ''F-268'' s" "\<not> contains ''F-270'' s"
  shows "run_fixup F_270 fs = (Inl (SystemExit 1), fs)"
proof (rule refuses_early [where m = "''F-268''" and p = fman_pcd_c])
  show "fx_edits F_270 = (fman_pcd_c, fst (snd (hd F_270_edits)), fst (snd (snd (hd F_270_edits))), 1) # []"
    by (simp add: F_270_def F_270_edits_def)
  show "contains ''F-268'' (fst (snd (hd F_270_edits)))" unfolding F_270_edits_def list.sel fst_conv snd_conv
    by (rule carries_text, code_simp)
  show "fst (snd (hd F_270_edits)) \<noteq> []" by (simp add: F_270_edits_def code_text_def)
qed (use assms in \<open>auto simp: text_of_def F_270_def F_270_edits_def fx_paths_def\<close>)

section \<open>The scripts apply once\<close>

text \<open>C32. The numbered scripts are transactions on the source tree that apply once: a run that fails leaves
  the tree as it was; a run that returns has put its mark into every file it names and touched no
  other, and running the script again changes nothing.\<close>
theorem fixups_apply_once:
  assumes "fx \<in> set fixups"
  shows "case run_fixup fx fs of
      (Inl e, fs') \<Rightarrow> fs' = fs
    | (Inr _, fs') \<Rightarrow> run_fixup fx fs' = (Inr (), fs') \<and> (\<forall>q. q \<notin> set (fx_paths fx) \<longrightarrow> fs' q = fs q) \<and>
        (\<forall>p \<in> set (fx_paths fx). contains (fx_mark fx) (text_of fs' p))"
proof -
  note scripts =
    f201.marked_fixup_axioms f209.marked_fixup_axioms f224.marked_fixup_axioms f258.marked_fixup_axioms f242.marked_fixup_axioms
    f244.marked_fixup_axioms f246.marked_fixup_axioms f248.marked_fixup_axioms f249.marked_fixup_axioms f250.marked_fixup_axioms
    f251.marked_fixup_axioms f247.marked_fixup_axioms f254.marked_fixup_axioms f255.marked_fixup_axioms f256.marked_fixup_axioms
    f257.marked_fixup_axioms f259.marked_fixup_axioms f260.marked_fixup_axioms f261.marked_fixup_axioms f262.marked_fixup_axioms
    f263.marked_fixup_axioms f264.marked_fixup_axioms f265.marked_fixup_axioms f266.marked_fixup_axioms f268.marked_fixup_axioms
    f271.marked_fixup_axioms f270.marked_fixup_axioms f272.marked_fixup_axioms f222.marked_fixup_axioms f227.marked_fixup_axioms
    f229.marked_fixup_axioms
  have "list_all marked_fixup fixups" unfolding fixups_def by (simp only: list.pred_inject scripts simp_thms)
  then have "marked_fixup fx" using assms by (simp add: list_all_iff)
  from marked_fixup.gate [OF this, of fs] show ?thesis by (auto split: prod.split sum.split)
qed

theorem fixups_apply_once_witness:
  "run_fixup F_272 (snd (run_fixup F_272 [fman_pcd_c \<mapsto> fst (snd (hd F_272_edits))])) =
     (Inr (), snd (run_fixup F_272 [fman_pcd_c \<mapsto> fst (snd (hd F_272_edits))]))"
proof -
  have "fst (run_fixup F_272 [fman_pcd_c \<mapsto> fst (snd (hd F_272_edits))]) = Inr ()" by code_simp
  with fixups_apply_once [of F_272 "[fman_pcd_c \<mapsto> fst (snd (hd F_272_edits))]"] show ?thesis
    by (auto simp: fixups_def split: prod.splits)
qed

end
