(* ===== verification/IpAddr.thy ===== *)
theory IpAddr
  imports PyText
begin

text \<open>
  What the program uses of Python's \<^verbatim>\<open>ipaddress\<close> module: parsing of addresses and networks, and the text of
  an address.  An IPv4 address is its 32-bit number, an IPv6 address its eight groups.
\<close>

section \<open>IPv4\<close>

definition all_digits :: "string \<Rightarrow> bool" where "all_digits s = (s \<noteq> [] \<and> list_all is_digit s)"

definition dec_val :: "string \<Rightarrow> nat" where "dec_val s = foldl (\<lambda>n c. 10 * n + (of_char c - 48)) 0 s"

definition parse_octet :: "string \<Rightarrow> nat option" where
  "parse_octet s =
     (if \<not> all_digits s \<or> 3 < length s \<or> (s \<noteq> ''0'' \<and> hd s = CHR ''0'') \<or> 255 < dec_val s then None else Some (dec_val s))"

fun octets :: "string list \<Rightarrow> nat list option" where
  "octets [] = Some []"
| "octets (x # xs) = (case (parse_octet x, octets xs) of (Some n, Some ns) \<Rightarrow> Some (n # ns) | _ \<Rightarrow> None)"

definition parse_ip4 :: "string \<Rightarrow> nat option" where
  "parse_ip4 s =
     (let parts = split_on CHR ''.'' s in
      if length parts \<noteq> 4 then None
      else map_option (foldl (\<lambda>n b. 256 * n + b) 0) (octets parts))"

text \<open>A prefix length in digits, a netmask or a host mask.\<close>

definition is_netmask :: "nat \<Rightarrow> bool" where "is_netmask n = (\<exists>k \<le> 32. n = 2 ^ 32 - 2 ^ (32 - k))"
definition is_hostmask :: "nat \<Rightarrow> bool" where "is_hostmask n = (\<exists>k \<le> 32. n = 2 ^ k - 1)"

definition ip4_mask_ok :: "string \<Rightarrow> bool" where
  "ip4_mask_ok m =
     (if all_digits m \<and> dec_val m \<le> 32 then True
      else case parse_ip4 m of None \<Rightarrow> False | Some n \<Rightarrow> is_netmask n \<or> is_hostmask n)"

section \<open>IPv6\<close>

definition parse_group :: "string \<Rightarrow> nat option" where
  "parse_group s =
     (if s = [] \<or> 4 < length s \<or> \<not> list_all is_hex s then None else Some (foldl (\<lambda>n c. 16 * n + hexv c) 0 s))"

fun groups :: "string list \<Rightarrow> nat list option" where
  "groups [] = Some []"
| "groups (x # xs) = (case (parse_group x, groups xs) of (Some n, Some ns) \<Rightarrow> Some (n # ns) | _ \<Rightarrow> None)"

text \<open>A dotted last part stands for two groups.\<close>

definition expand_tail :: "string list \<Rightarrow> string list option" where
  "expand_tail parts =
     (if CHR ''.'' \<in> set (last parts) then
        (case parse_ip4 (last parts) of
           None \<Rightarrow> None | Some n \<Rightarrow> Some (butlast parts @ [hex_str (n div 65536), hex_str (n mod 65536)]))
      else Some parts)"

text \<open>The positions of empty parts other than the first and the last: at most one, the \<^verbatim>\<open>::\<close>.\<close>

definition gaps :: "string list \<Rightarrow> nat list" where
  "gaps parts = filter (\<lambda>i. parts ! i = []) [1..<length parts - 1]"

definition fill_gap :: "string list \<Rightarrow> nat list option" where
  "fill_gap parts =
     (case gaps parts of
        [] \<Rightarrow> if length parts = 8 then groups parts else None
      | [i] \<Rightarrow>
          (let hi = take i parts; lo = drop (Suc i) parts;
               hi' = (if hd parts = [] then tl hi else hi);
               lo' = (if last parts = [] then butlast lo else lo) in
           if hd parts = [] \<and> hi' \<noteq> [] \<or> last parts = [] \<and> lo' \<noteq> [] \<or> 8 \<le> length hi' + length lo' then None
           else case (groups hi', groups lo') of
             (Some a, Some b) \<Rightarrow> Some (a @ replicate (8 - (length a + length b)) 0 @ b) | _ \<Rightarrow> None)
      | _ \<Rightarrow> None)"

definition parse_ip6_plain :: "string \<Rightarrow> nat list option" where
  "parse_ip6_plain s =
     (let parts = split_on CHR '':'' s in
      if s = [] \<or> length parts < 3 then None
      else case expand_tail parts of None \<Rightarrow> None | Some ps \<Rightarrow> if 9 < length ps then None else fill_gap ps)"

text \<open>The part after \<^verbatim>\<open>%\<close> is a scope: any text without another \<^verbatim>\<open>%\<close>.\<close>

definition parse_ip6 :: "string \<Rightarrow> nat list option" where
  "parse_ip6 s =
     (if CHR ''/'' \<in> set s then None
      else case split1 CHR ''%'' s of
        [a] \<Rightarrow> parse_ip6_plain a
      | [a, scope] \<Rightarrow> if scope = [] \<or> CHR ''%'' \<in> set scope then None else parse_ip6_plain a
      | _ \<Rightarrow> None)"

section \<open>Either family\<close>

definition ip_address_ok :: "string \<Rightarrow> bool" where
  "ip_address_ok s = (parse_ip4 s \<noteq> None \<or> parse_ip6 s \<noteq> None)"

text \<open>\<^verbatim>\<open>ip_network(s, strict=False)\<close>.\<close>

definition ip_network_ok :: "string \<Rightarrow> bool" where
  "ip_network_ok s =
     (case split_on CHR ''/'' s of
        [a] \<Rightarrow> parse_ip4 a \<noteq> None \<or> parse_ip6 a \<noteq> None
      | [a, m] \<Rightarrow> (parse_ip4 a \<noteq> None \<and> ip4_mask_ok m) \<or> (parse_ip6 a \<noteq> None \<and> all_digits m \<and> dec_val m \<le> 128)
      | _ \<Rightarrow> False)"

section \<open>Text of an address\<close>

definition ip4_str :: "nat list \<Rightarrow> string" where "ip4_str bs = join ''.'' (map nat_str bs)"

text \<open>The first longest run of at least two zero groups becomes \<^verbatim>\<open>::\<close>.\<close>

definition zero_run :: "nat list \<Rightarrow> nat \<Rightarrow> nat" where
  "zero_run gs i = length (takeWhile (\<lambda>g. g = 0) (drop i gs))"

definition best_run :: "nat list \<Rightarrow> nat \<times> nat" where
  "best_run gs = fold (\<lambda>i (b, n). if n < zero_run gs i then (i, zero_run gs i) else (b, n)) [0..<length gs] (0, 0)"

definition ip6_str :: "nat list \<Rightarrow> string" where
  "ip6_str gs =
     (let (b, n) = best_run gs; hx = join '':'' \<circ> map hex_str in
      if n \<le> 1 then hx gs else hx (take b gs) @ ''::'' @ hx (drop (b + n) gs))"

end
