(* ===== verification/Prompts.thy ===== *)
theory Prompts
  imports Replace IpAddr "HOL-Library.AList" "HOL-Library.List_Lexorder"
begin

text \<open>
  The prompts of the MCP endpoint (\<^verbatim>\<open>services/api/mcp/prompts.py\<close>): loading user prompts from a
  directory, merging them with the built-in ones, filtering by session mode, validating arguments and
  filling templates.  Dictionaries are association lists in insertion order; file names are ASCII.
  The texts of the built-in prompts without arguments are parameters.
\<close>

section \<open>Prompts\<close>

datatype validator = VIp | VCidr | VName

datatype prompt_body =
    Builder "bool \<Rightarrow> bool \<Rightarrow> string"
  | Template string "(string \<times> string) list" "(string \<times> validator) list"
  | Messages "string list"

record prompt =
  p_write_only :: bool
  p_requires_introspection :: bool
  p_arguments :: "(string \<times> bool) list"
  p_body :: prompt_body

definition vpn_template :: string where \<open>
  vpn_template = concat (map (\<lambda>l. l @ [CHR 0x0A])
    [''You are provisioning a site-to-site IPsec VPN on VyOS.'',
     [],
     ''Parameters for this run:'',
     ''  - remote peer IP: {remote_ip}'',
     ''  - local subnet:   {local_subnet}'',
     ''  - remote subnet:  {remote_subnet}'',
     ''  - IKE/ESP group name: {group_name}'',
     [],
     ''1. Ask the user for the pre-shared key (do NOT guess or log it) and confirm the'',
     ''   IKE version (default: ikev2) and algorithms (default: aes256 / sha256 / dh-group 14).'',
     [],
     ''2. Validate the live schema for the vpn ipsec subtree before staging anything:'',
     ''   - Read vyos-schema://config/vpn/ipsec to confirm node names for THIS VyOS version'',
     ''     (the ipsec CLI has changed across releases '' @ [CHR 0xE2] @ [CHR 0x80] @ [CHR 0x94] @ '' do not assume node paths).'',
     [],
     ''3. Stage the IKE group:'',
     ''   - set vpn ipsec ike-group {group_name} proposal 1 encryption aes256'',
     ''   - set vpn ipsec ike-group {group_name} proposal 1 hash sha256'',
     ''   - set vpn ipsec ike-group {group_name} proposal 1 dh-group 14'',
     ''   - set vpn ipsec ike-group {group_name} key-exchange ikev2'',
     [],
     ''4. Stage the ESP group:'',
     ''   - set vpn ipsec esp-group {group_name} proposal 1 encryption aes256'',
     ''   - set vpn ipsec esp-group {group_name} proposal 1 hash sha256'',
     [],
     ''5. Stage the peer and tunnel (substitute the PSK the user provides):'',
     ''   - set vpn ipsec site-to-site peer {remote_ip} authentication pre-shared-secret <psk>'',
     ''   - set vpn ipsec site-to-site peer {remote_ip} ike-group {group_name}'',
     ''   - set vpn ipsec site-to-site peer {remote_ip} tunnel 0 esp-group {group_name}'',
     ''   - set vpn ipsec site-to-site peer {remote_ip} tunnel 0 local prefix {local_subnet}'',
     ''   - set vpn ipsec site-to-site peer {remote_ip} tunnel 0 remote prefix {remote_subnet}'',
     [],
     ''6. Commit all changes atomically via modify_configuration; use commit_confirm_minutes'',
     ''   so connectivity loss auto-rolls-back.'',
     [],
     ''7. Verify the tunnel: execute_operational_command with path ["show", "vpn", "ipsec", "sa"].''])\<close>

definition vpn_prompt :: prompt where
  "vpn_prompt = \<lparr> p_write_only = True, p_requires_introspection = True,
     p_arguments = [(''remote_ip'', True), (''local_subnet'', True), (''remote_subnet'', True), (''group_name'', False)],
     p_body = Template vpn_template [(''group_name'', ''SITE2SITE'')]
       [(''remote_ip'', VIp), (''local_subnet'', VCidr), (''remote_subnet'', VCidr), (''group_name'', VName)] \<rparr>"

definition text_prompt :: "(bool \<Rightarrow> bool \<Rightarrow> string) \<Rightarrow> prompt" where
  "text_prompt f = \<lparr> p_write_only = False, p_requires_introspection = False, p_arguments = [], p_body = Builder f \<rparr>"

text \<open>\<open>texts\<close>: the text builders by name.\<close>

definition builtin_prompts :: "(string \<Rightarrow> bool \<Rightarrow> bool \<Rightarrow> string) \<Rightarrow> (string \<times> prompt) list" where
  "builtin_prompts texts =
     map (\<lambda>n. (n, text_prompt (texts n)))
       [''vyos_capabilities_overview'', ''troubleshoot_internet_connectivity'', ''troubleshoot_asymmetric_routing'',
        ''analyze_security_posture''] @
     [(''provision_site_to_site_vpn'', vpn_prompt), (''audit_firewall_posture'', text_prompt (texts ''audit_firewall_posture''))]"

section \<open>User prompts\<close>

record dir_entry =
  e_name :: string
  e_real :: string
  e_isfile :: bool
  e_size :: "int res"
  e_text :: "string res"

definition MAX_CUSTOM_FILES :: nat where "MAX_CUSTOM_FILES = 32"
definition MAX_CUSTOM_FILE_SIZE :: int where "MAX_CUSTOM_FILE_SIZE = 65536"

text \<open>\<^verbatim>\<open>os.path.splitext(dir_entry)[0]\<close>: leading dots do not start an extension.\<close>

definition splitext_root :: "string \<Rightarrow> string" where
  "splitext_root s =
     (let lead = takeWhile (\<lambda>c. c = CHR ''.'') s; r = drop (length lead) s in
      if CHR ''.'' \<in> set r then lead @ rev (drop 1 (dropWhile (\<lambda>c. c \<noteq> CHR ''.'') (rev r))) else s)"

definition is_alpha :: "char \<Rightarrow> bool" where
  "is_alpha c = (let n = of_char c :: nat in 97 \<le> n \<and> n < 123 \<or> 65 \<le> n \<and> n < 91)"

definition is_name_char :: "char \<Rightarrow> bool" where "is_name_char c = (is_alpha c \<or> is_digit c \<or> c = CHR ''_'')"

definition entry_prompt :: "string \<Rightarrow> dir_entry \<Rightarrow> (string \<times> string) option" where
  "entry_prompt root e =
     (if \<not> startswith (e_real e) (root @ ''/'') then None
      else if \<not> e_isfile e then None
      else case e_size e of
        Inl _ \<Rightarrow> None
      | Inr n \<Rightarrow>
          if n > MAX_CUSTOM_FILE_SIZE then None
          else case e_text e of
            Inl _ \<Rightarrow> None
          | Inr t \<Rightarrow>
              let name = splitext_root (e_name e) in
              if name = [] \<or> \<not> is_alpha (hd name) then None
              else if filter is_name_char name \<noteq> name then None
              else Some (name, t))"

definition custom_prompt :: "string \<Rightarrow> prompt" where
  "custom_prompt t = \<lparr> p_write_only = False, p_requires_introspection = False, p_arguments = [], p_body = Messages [t] \<rparr>"

fun load_entries :: "string \<Rightarrow> nat \<Rightarrow> dir_entry list \<Rightarrow> (string \<times> prompt) list \<Rightarrow> (string \<times> prompt) list" where
  "load_entries root n [] acc = acc"
| "load_entries root n (e # es) acc =
     (if n \<ge> MAX_CUSTOM_FILES then acc
      else case entry_prompt root e of
        None \<Rightarrow> load_entries root n es acc
      | Some (name, t) \<Rightarrow> load_entries root (n + 1) es (AList.update name (custom_prompt t) acc))"

text \<open>\<open>listing\<close>: the directory's entries, \<^verbatim>\<open>None\<close> when it is not a directory.\<close>

definition load_custom_prompts :: "string \<Rightarrow> dir_entry list res option \<Rightarrow> (string \<times> prompt) list" where
  "load_custom_prompts root listing =
     (case listing of Some (Inr es) \<Rightarrow> load_entries root 0 (sort_key e_name es) [] | _ \<Rightarrow> [])"

definition build_prompts :: "(string \<times> prompt) list \<Rightarrow> (string \<times> prompt) list \<Rightarrow> (string \<times> prompt) list" where
  "build_prompts builtin custom =
     fold (\<lambda>(name, p) ps. if name \<in> fst ` set builtin then ps else AList.update name p ps) custom builtin"

section \<open>Rendering\<close>

definition valid_name :: "string \<Rightarrow> bool" where
  "valid_name s =
     (s \<noteq> [] \<and> is_alpha (hd s) \<and> length s \<le> 32 \<and> list_all (\<lambda>c. is_name_char c \<or> c = CHR ''-'') (tl s))"

definition validate_prompt_value :: "validator \<Rightarrow> string \<Rightarrow> string \<Rightarrow> unit res" where
  "validate_prompt_value v name value =
     (if (case v of VIp \<Rightarrow> ip_address_ok value | VCidr \<Rightarrow> ip_network_ok value | VName \<Rightarrow> valid_name value)
      then Inr () else Inl (ValueError (''Invalid argument '' @ name)))"

definition hole :: "string \<Rightarrow> string" where "hole k = ''{'' @ k @ ''}''"

definition collect_values ::
  "string list \<Rightarrow> (string \<times> validator) list \<Rightarrow> (string \<times> string) list \<Rightarrow> (string \<times> string) list \<Rightarrow> (string \<times> string) list res" where
  "collect_values declared validators =
     foldE (\<lambda>(k, v) values.
       if k \<notin> set declared then Inr values
       else bindE (case map_of validators k of None \<Rightarrow> Inr () | Some w \<Rightarrow> validate_prompt_value w k v)
         (\<lambda>_. Inr (AList.update k v values)))"

definition fill :: "(string \<times> string) list \<Rightarrow> string \<Rightarrow> string" where
  "fill values k = (case map_of values k of Some v \<Rightarrow> v | None \<Rightarrow> hole k)"

definition fill_template :: "string list \<Rightarrow> (string \<Rightarrow> string) \<Rightarrow> string \<Rightarrow> string" where
  "fill_template order f template = fold (\<lambda>k. py_replace (hole k) (f k)) order template"

text \<open>\<open>order\<close>: the order in which the set of declared names is iterated.\<close>

definition render_messages ::
  "prompt \<Rightarrow> bool \<Rightarrow> bool \<Rightarrow> string list \<Rightarrow> (string \<times> string) list \<Rightarrow> string list res" where
  "render_messages p read_only introspection order args =
     (case p_body p of
        Builder f \<Rightarrow> Inr [f read_only introspection]
      | Template t defaults validators \<Rightarrow>
          (let given = map fst (filter (\<lambda>(k, v). v \<noteq> []) args);
               missing = sort (filter (\<lambda>n. n \<notin> set given) (map fst (filter snd (p_arguments p)))) in
           if missing \<noteq> [] then Inl (ValueError (''Missing required argument(s): '' @ join '', '' missing))
           else bindE (collect_values (map fst (p_arguments p)) validators args defaults) (\<lambda>values.
             Inr [fill_template order (fill values) t]))
      | Messages ms \<Rightarrow> Inr ms)"

section \<open>Registration\<close>

definition shown :: "bool \<Rightarrow> bool \<Rightarrow> prompt \<Rightarrow> bool" where
  "shown read_only introspection p =
     (\<not> (read_only \<and> p_write_only p) \<and> \<not> (\<not> introspection \<and> p_requires_introspection p))"

definition list_prompts :: "(string \<times> prompt) list \<Rightarrow> bool \<Rightarrow> bool \<Rightarrow> string list" where
  "list_prompts ps read_only introspection = map fst (filter (\<lambda>(n, p). shown read_only introspection p) ps)"

definition get_prompt ::
  "(string \<times> prompt) list \<Rightarrow> bool \<Rightarrow> bool \<Rightarrow> string list \<Rightarrow> string \<Rightarrow> (string \<times> string) list \<Rightarrow> string list res" where
  "get_prompt ps read_only introspection order name args =
     (case map_of ps name of
        None \<Rightarrow> Inl (ValueError ''Unknown prompt'')
      | Some p \<Rightarrow>
          if name \<notin> set (list_prompts ps read_only introspection) then Inl (ValueError ''Unknown prompt'')
          else render_messages p read_only introspection order args)"

section \<open>What a session gets\<close>

lemma splitext_safe: "entry_prompt root e = Some (name, t) \<Longrightarrow>
    startswith (e_real e) (root @ ''/'') \<and> e_isfile e \<and> (\<exists>n. e_size e = Inr n \<and> n \<le> MAX_CUSTOM_FILE_SIZE) \<and>
    e_text e = Inr t \<and> name \<noteq> [] \<and> is_alpha (hd name) \<and> list_all is_name_char name"
  by (auto simp: entry_prompt_def Let_def list_all_iff filter_id_conv split: if_splits sum.splits)

definition from_file :: "string \<Rightarrow> dir_entry list \<Rightarrow> string \<times> prompt \<Rightarrow> bool" where
  "from_file root es = (\<lambda>(name, p). \<exists>e \<in> set es. \<exists>t. entry_prompt root e = Some (name, t) \<and> p = custom_prompt t)"

lemma update_in: "x \<in> set (AList.update k v ps) \<Longrightarrow> x \<in> set ps \<or> x = (k, v)"
  by (induction ps) (auto split: if_splits)

lemma update_length: "length (AList.update k v ps) \<le> Suc (length ps)"
  by (induction ps) auto

lemma load_entries_from:
  assumes "\<forall>x \<in> set acc. from_file root all x" "set es \<subseteq> set all" "length acc \<le> n" "n \<le> MAX_CUSTOM_FILES"
  shows "(\<forall>x \<in> set (load_entries root n es acc). from_file root all x) \<and>
    length (load_entries root n es acc) \<le> MAX_CUSTOM_FILES"
  using assms
proof (induction root n es acc rule: load_entries.induct)
  case (2 root n e es acc)
  show ?case
  proof (cases "n \<ge> MAX_CUSTOM_FILES")
    case False
    show ?thesis
    proof (cases "entry_prompt root e")
      case None
      then show ?thesis using "2.IH"(1) [OF False None] "2.prems" False by simp
    next
      case (Some nt)
      obtain name t where nt: "nt = (name, t)" by (cases nt)
      let ?acc = "AList.update name (custom_prompt t) acc"
      have "\<forall>x \<in> set ?acc. from_file root all x"
        using "2.prems"(1,2) Some nt update_in by (fastforce simp: from_file_def)
      moreover have "length ?acc \<le> n + 1" using update_length [of name "custom_prompt t" acc] "2.prems"(3) by simp
      ultimately show ?thesis using "2.IH"(2) [OF False Some nt [symmetric]] "2.prems" False Some nt by simp
    qed
  qed (use "2.prems" in simp)
qed simp

lemma load_custom_from:
  assumes "listing = Some (Inr es)"
  shows "(\<forall>x \<in> set (load_custom_prompts root listing). from_file root es x) \<and>
    length (load_custom_prompts root listing) \<le> MAX_CUSTOM_FILES"
  using load_entries_from [of "[]" root es "sort_key e_name es" 0] assms by (simp add: load_custom_prompts_def MAX_CUSTOM_FILES_def)

lemma build_fold:
  "(\<forall>name p. map_of (fold (\<lambda>(name, p) ps. if name \<in> D then ps else AList.update name p ps) custom ps) name = Some p \<longrightarrow>
      map_of ps name = Some p \<or> name \<notin> D \<and> (name, p) \<in> set custom) \<and>
   (\<forall>name \<in> D. map_of (fold (\<lambda>(name, p) ps. if name \<in> D then ps else AList.update name p ps) custom ps) name = map_of ps name) \<and>
   length (fold (\<lambda>(name, p) ps. if name \<in> D then ps else AList.update name p ps) custom ps) \<le> length ps + length custom"
proof (induction custom arbitrary: ps)
  case (Cons c custom)
  obtain n q where c: "c = (n, q)" by (cases c)
  show ?case
  proof (cases "n \<in> D")
    case True
    then show ?thesis using Cons.IH [of ps] by (auto simp: c)
  next
    case False
    have "map_of (AList.update n q ps) name = (if name = n then Some q else map_of ps name)" for name
      by (simp add: update_conv)
    then show ?thesis using False Cons.IH [of "AList.update n q ps"] update_length [of n q ps]
      by (auto simp: c split: if_splits)
  qed
qed simp

text \<open>C34. User prompts can only add: whatever the directory holds, every built-in prompt keeps its meaning, at
  most 32 prompts are added, and each of these carries the whole text of a regular file inside the
  directory of at most 64 KiB, under a name of letters, digits and underscores that starts with a letter.\<close>
theorem custom_prompts_add_only:
  assumes "listing = Some (Inr es)"
    "ps = build_prompts builtin (load_custom_prompts root listing)"
  shows "(\<forall>name \<in> fst ` set builtin. map_of ps name = map_of builtin name) \<and>
    length ps \<le> length builtin + 32 \<and>
    (\<forall>name p. name \<notin> fst ` set builtin \<and> map_of ps name = Some p \<longrightarrow>
       (\<exists>e \<in> set es. \<exists>t n. startswith (e_real e) (root @ ''/'') \<and> e_isfile e \<and> e_size e = Inr n \<and> n \<le> 65536 \<and>
          e_text e = Inr t \<and> p_body p = Messages [t] \<and> name \<noteq> [] \<and> is_alpha (hd name) \<and> list_all is_name_char name))"
proof -
  note b = build_fold [of "fst ` set builtin" "load_custom_prompts root listing" builtin, folded build_prompts_def, folded assms(2)]
  note l = load_custom_from [OF assms(1), of root]
  have "\<exists>e \<in> set es. \<exists>t n. startswith (e_real e) (root @ ''/'') \<and> e_isfile e \<and> e_size e = Inr n \<and> n \<le> 65536 \<and>
          e_text e = Inr t \<and> p_body p = Messages [t] \<and> name \<noteq> [] \<and> is_alpha (hd name) \<and> list_all is_name_char name"
    if "name \<notin> fst ` set builtin" "map_of ps name = Some p" for name p
  proof -
    have "map_of builtin name = None" using that(1) by (simp add: map_of_eq_None_iff)
    then have "from_file root es (name, p)" using b l that(2) by force
    then show ?thesis using splitext_safe by (fastforce simp: from_file_def custom_prompt_def MAX_CUSTOM_FILE_SIZE_def)
  qed
  then show ?thesis using b l by (auto simp: MAX_CUSTOM_FILES_def)
qed

definition sample_entry :: dir_entry where
  "sample_entry = \<lparr> e_name = ''note_1.txt'', e_real = ''/d/note_1.txt'', e_isfile = True, e_size = Inr 2, e_text = Inr ''hi'' \<rparr>"

theorem custom_prompts_add_only_witness:
  "\<exists>p. map_of (build_prompts [] (load_custom_prompts ''/d'' (Some (Inr [sample_entry])))) ''note_1'' = Some p \<and> p_body p = Messages [''hi'']"
proof -
  have "map_of (build_prompts [] (load_custom_prompts ''/d'' (Some (Inr [sample_entry])))) ''note_1'' = Some (custom_prompt ''hi'')"
    by (simp add: load_custom_prompts_def build_prompts_def sample_entry_def entry_prompt_def splitext_root_def
        startswith_def MAX_CUSTOM_FILE_SIZE_def MAX_CUSTOM_FILES_def is_alpha_def is_name_char_def is_digit_def less_eq_char_def)
  with custom_prompts_add_only [OF refl refl, of "[]" "''/d''" "[sample_entry]"] show ?thesis
    by (fastforce simp: sample_entry_def)
qed

section \<open>Template filling\<close>

text \<open>The specification: every placeholder of the template replaced at once.\<close>

function subst :: "string list \<Rightarrow> (string \<Rightarrow> string) \<Rightarrow> string \<Rightarrow> string" where
  "subst ks f [] = []"
| "subst ks f (c # cs) =
     (case find (\<lambda>k. starts_with (hole k) (c # cs)) ks of
        Some k \<Rightarrow> f k @ subst ks f (drop (length k + 1) cs) | None \<Rightarrow> c # subst ks f cs)"
  by pat_completeness auto
termination by (relation "measure (\<lambda>(_, _, s). length s)") auto

text \<open>Every opening brace starts a placeholder of \<open>ks\<close>.\<close>

function braces_ok :: "string list \<Rightarrow> string \<Rightarrow> bool" where
  "braces_ok ks [] = True"
| "braces_ok ks (c # cs) =
     (if c \<noteq> CHR ''{'' then braces_ok ks cs
      else case find (\<lambda>k. starts_with (hole k) (c # cs)) ks of
        Some k \<Rightarrow> braces_ok ks (drop (length k + 1) cs) | None \<Rightarrow> False)"
  by pat_completeness auto
termination by (relation "measure (\<lambda>(_, s). length s)") auto

definition plain_key :: "string \<Rightarrow> bool" where "plain_key k = (CHR ''{'' \<notin> set k \<and> CHR ''}'' \<notin> set k)"

lemma hole_unique: "plain_key a \<Longrightarrow> plain_key b \<Longrightarrow> starts_with (hole a) s \<Longrightarrow> starts_with (hole b) s \<Longrightarrow> a = b"
proof -
  assume p: "plain_key a" "plain_key b" and s: "starts_with (hole a) s" "starts_with (hole b) s"
  have "takeWhile (\<lambda>c. c \<noteq> CHR ''}'') (tl s) = k" if "plain_key k" "starts_with (hole k) s" for k
  proof -
    have "tl s = k @ CHR ''}'' # drop (length (hole k)) s" using starts_with_split [OF that(2)] by (simp add: hole_def)
      (metis append_Cons append_assoc list.sel(3) append_Nil)
    then show ?thesis using that(1) by (subst \<open>tl s = _\<close>, subst takeWhile_append2) (auto simp: plain_key_def)
  qed
  then show ?thesis using p s by metis
qed

lemma find_never [simp]: "find (\<lambda>_. False) ks = None"
  by (induction ks) auto

lemma subst_no_brace: "CHR ''{'' \<notin> set u \<Longrightarrow> subst ks f (u @ v) = u @ subst ks f v"
  by (induction u) (auto simp: hole_def)

lemma starts_with_append [simp]: "starts_with p (p @ s)"
  by (simp add: starts_with_iff)

lemma replace_hole: "replace_in (hole k) q (hole k @ s) = q @ replace_in (hole k) q s"
proof -
  have "hole k @ s = CHR ''{'' # (k @ ''}'' @ s)" by (simp add: hole_def)
  moreover have "starts_with (hole k) (hole k @ s)" by simp
  ultimately show ?thesis by (simp add: hole_def)
qed

lemma replace_no_brace: "CHR ''{'' \<notin> set u \<Longrightarrow> replace_in (hole k) q (u @ v) = u @ replace_in (hole k) q v"
  by (induction u) (auto simp: hole_def)

lemma starts_hole: "starts_with (hole k) (c # cs) \<longleftrightarrow> c = CHR ''{'' \<and> starts_with (k @ ''}'') cs"
  by (auto simp: hole_def)

lemma starts_hole_split: "starts_with (hole k) (c # cs) \<Longrightarrow> cs = k @ CHR ''}'' # drop (length k + 1) cs"
  using starts_with_split [of "k @ ''}''" cs] by (simp add: starts_hole)

lemma find_hole:
  assumes "\<forall>k \<in> set ks. plain_key k" "k \<in> set ks" "starts_with (hole k) s"
  shows "find (\<lambda>k. starts_with (hole k) s) ks = Some k"
proof (cases "find (\<lambda>k. starts_with (hole k) s) ks")
  case None
  then show ?thesis using assms by (auto simp: find_None_iff)
next
  case (Some a)
  then have "a \<in> set ks" "starts_with (hole a) s" by (auto simp: find_Some_iff)
  then show ?thesis using Some assms hole_unique by blast
qed

lemma find_hole_None:
  assumes "\<forall>k \<in> set ks. plain_key k" "k \<notin> set ks" "plain_key k" "starts_with (hole k) s"
  shows "find (\<lambda>k. starts_with (hole k) s) ks = None"
  using assms hole_unique by (auto simp: find_None_iff)

lemma replace_subst:
  assumes "braces_ok all t" "\<forall>k \<in> set all. plain_key k" "\<forall>k \<in> set all. CHR ''{'' \<notin> set (f k)"
    "set ks \<subseteq> set all" "k \<in> set all" "k \<notin> set ks"
  shows "replace_in (hole k) (f k) (subst ks f t) = subst (k # ks) f t"
  using assms
proof (induction all t rule: braces_ok.induct)
  case (2 all c cs)
  have plain: "plain_key x" "CHR ''{'' \<notin> set (f x)" if "x \<in> set all" for x using "2.prems" that by auto
  show ?case
  proof (cases "c = CHR ''{''")
    case False
    then show ?thesis using "2.IH"(1) "2.prems" by (simp add: starts_hole)
  next
    case True
    then obtain a where a: "find (\<lambda>k. starts_with (hole k) (c # cs)) all = Some a"
      using "2.prems"(1) by (auto split: option.splits)
    then have a': "a \<in> set all" "starts_with (hole a) (c # cs)" by (auto simp: find_Some_iff)
    let ?r = "drop (length a + 1) cs"
    have cs: "cs = (a @ ''}'') @ ?r" using starts_hole_split [OF a'(2)] by simp
    have nb: "CHR ''{'' \<notin> set (a @ ''}'')" using plain(1) [OF a'(1)] by (simp add: plain_key_def)
    have IH: "replace_in (hole k) (f k) (subst ks f ?r) = subst (k # ks) f ?r"
      using "2.IH"(2) [OF _ a] True "2.prems" a by simp
    have ps: "\<forall>x \<in> set ks. plain_key x" "\<forall>x \<in> set (k # ks). plain_key x" "plain_key k" using plain "2.prems" by auto
    note found = find_hole [OF ps(2) _ a'(2)] find_hole [OF ps(1) _ a'(2)]
    consider "a \<in> set ks" | "a = k" | "a \<notin> set ks" "a \<noteq> k" by blast
    then show ?thesis
    proof cases
      case 1
      then show ?thesis using found IH replace_no_brace [OF plain(2) [OF a'(1)]] by simp
    next
      case 2
      then have "subst ks f (c # cs) = CHR ''{'' # (a @ ''}'') @ subst ks f ?r"
        using find_hole_None [OF ps(1) _ plain(1) [OF a'(1)] a'(2)] "2.prems"(6) True subst_no_brace [OF nb, of ks f ?r] cs by simp
      then have "subst ks f (c # cs) = hole k @ subst ks f ?r" using 2 by (simp add: hole_def)
      then show ?thesis using found 2 IH by (simp add: replace_hole)
    next
      case 3
      then have s: "subst xs f (c # cs) = CHR ''{'' # (a @ ''}'') @ subst xs f ?r"
        if "a \<notin> set xs" "\<forall>x \<in> set xs. plain_key x" for xs
        using find_hole_None [OF that(2,1) plain(1) [OF a'(1)] a'(2)] True subst_no_brace [OF nb, of xs f ?r] cs by simp
      have "\<not> starts_with (hole k) (CHR ''{'' # (a @ ''}'') @ x)" for x
        using hole_unique [OF ps(3) plain(1) [OF a'(1)], of "hole a @ x"] 3(2) by (auto simp: hole_def starts_with_iff)
      then show ?thesis using s [of ks] s [of "k # ks"] 3 ps IH replace_no_brace [OF nb] by simp
    qed
  qed
qed simp

lemma subst_nil: "subst [] f t = t"
  by (induction t) auto

lemma fill_subst:
  assumes "braces_ok all t" "\<forall>k \<in> set all. plain_key k" "\<forall>k \<in> set all. CHR ''{'' \<notin> set (f k)"
    "distinct (ks @ order)" "set (ks @ order) \<subseteq> set all"
  shows "fill_template order f (subst ks f t) = subst (rev order @ ks) f t"
  using assms(4,5)
proof (induction order arbitrary: ks)
  case (Cons k order)
  have "py_replace (hole k) (f k) (subst ks f t) = subst (k # ks) f t"
    using replace_subst [OF assms(1-3), of ks k] Cons.prems by (simp add: py_replace_def hole_def)
  then show ?case using Cons.IH [of "k # ks"] Cons.prems by (simp add: fill_template_def)
qed (simp add: fill_template_def)

lemma subst_order: "set ks = set ks' \<Longrightarrow> \<forall>k \<in> set ks. plain_key k \<Longrightarrow> subst ks f t = subst ks' f t"
proof (induction ks f t rule: subst.induct)
  case (2 ks f c cs)
  have f: "find (\<lambda>k. starts_with (hole k) (c # cs)) ks' = find (\<lambda>k. starts_with (hole k) (c # cs)) ks"
  proof (cases "find (\<lambda>k. starts_with (hole k) (c # cs)) ks")
    case None
    then have "find (\<lambda>k. starts_with (hole k) (c # cs)) ks' = None" using "2.prems"(1) by (simp add: find_None_iff)
    with None show ?thesis by simp
  next
    case (Some a)
    then have "a \<in> set ks" "starts_with (hole a) (c # cs)" by (auto simp: find_Some_iff)
    then show ?thesis using Some find_hole [of ks' a] "2.prems" by simp
  qed
  then show ?case using "2.IH" "2.prems" by (auto split: option.split)
qed simp

lemma subst_cong: "(\<And>k. k \<in> set ks \<Longrightarrow> f k = g k) \<Longrightarrow> subst ks f t = subst ks g t"
proof (induction ks f t rule: subst.induct)
  case (2 ks f c cs)
  show ?case
  proof (cases "find (\<lambda>k. starts_with (hole k) (c # cs)) ks")
    case None
    then show ?thesis using "2.IH"(1) [OF None] "2.prems" by simp
  next
    case (Some k)
    then have "k \<in> set ks" by (auto simp: find_Some_iff)
    then show ?thesis using "2.IH"(2) [OF Some] "2.prems" Some by simp
  qed
qed simp

lemma braces_append: "braces_ok ks u \<Longrightarrow> braces_ok ks v \<Longrightarrow> \<forall>k \<in> set ks. plain_key k \<Longrightarrow> braces_ok ks (u @ v)"
proof (induction ks u rule: braces_ok.induct)
  case (2 ks c cs)
  show ?case
  proof (cases "c = CHR ''{''")
    case True
    then obtain a where a: "find (\<lambda>k. starts_with (hole k) (c # cs)) ks = Some a"
      using "2.prems"(1) by (auto split: option.splits)
    then have a': "a \<in> set ks" "starts_with (hole a) (c # cs)" by (auto simp: find_Some_iff)
    have cs: "cs = (a @ ''}'') @ drop (length a + 1) cs" using starts_hole_split [OF a'(2)] by simp
    then have "starts_with (hole a) (c # cs @ v)" using True by (metis append_assoc starts_hole starts_with_append)
    then have "find (\<lambda>k. starts_with (hole k) (c # cs @ v)) ks = Some a" using find_hole "2.prems"(3) a'(1) by blast
    moreover have "drop (length a + 1) (cs @ v) = drop (length a + 1) cs @ v"
      using arg_cong [OF cs, of length] by simp
    ultimately show ?thesis using True a "2.IH"(2) [OF _ a] "2.prems" by simp
  qed (use "2.IH"(1) "2.prems" in simp)
qed simp

definition vpn_keys :: "string list" where
  "vpn_keys = [''remote_ip'', ''local_subnet'', ''remote_subnet'', ''group_name'']"

lemma vpn_keys_plain: "\<forall>k \<in> set vpn_keys. plain_key k"
  by (simp add: vpn_keys_def plain_key_def)

lemma braces_lines: "list_all (braces_ok ks) ls \<Longrightarrow> \<forall>k \<in> set ks. plain_key k \<Longrightarrow> braces_ok ks (concat (map (\<lambda>l. l @ [CHR 0x0A]) ls))"
  by (induction ls) (simp_all add: braces_append)

lemma vpn_braces: "braces_ok vpn_keys vpn_template"
  unfolding vpn_template_def by (rule braces_lines [OF _ vpn_keys_plain]) code_simp

lemma collect_values_dom:
  "collect_values declared vs args vals = Inr vals' \<Longrightarrow> k \<in> set declared \<Longrightarrow>
   map_of vals k \<noteq> None \<or> k \<in> fst ` set args \<Longrightarrow> map_of vals' k \<noteq> None"
proof (induction args arbitrary: vals)
  case (Cons a args)
  obtain n v where a: "a = (n, v)" by (cases a)
  show ?case
  proof (cases "n \<in> set declared")
    case False
    then show ?thesis using Cons by (auto simp: collect_values_def a)
  next
    case True
    then have "collect_values declared vs args (AList.update n v vals) = Inr vals'"
      using Cons.prems(1) by (auto simp: collect_values_def a bindE_eq_Inr)
    moreover have "map_of (AList.update n v vals) k \<noteq> None \<or> k \<in> fst ` set args"
      using Cons.prems(3) by (auto simp: a update_conv)
    ultimately show ?thesis using Cons.IH Cons.prems(2) by blast
  qed
qed (simp add: collect_values_def)

definition value_ok :: "(string \<times> validator) list \<Rightarrow> string \<Rightarrow> string \<Rightarrow> bool" where
  "value_ok vs k v = (CHR ''{'' \<notin> set v \<and> (\<forall>w. map_of vs k = Some w \<longrightarrow> validate_prompt_value w k v = Inr ()))"

lemma collect_values_ok:
  assumes "collect_values declared vs args vals = Inr vals'" "\<forall>(k, v) \<in> set args. CHR ''{'' \<notin> set v"
    "\<forall>k v. map_of vals k = Some v \<longrightarrow> value_ok vs k v"
  shows "\<forall>k v. map_of vals' k = Some v \<longrightarrow> value_ok vs k v"
  using assms(1) [unfolded collect_values_def] assms(3)
proof (rule foldE_invariant)
  fix x s s'
  assume x: "x \<in> set args" "\<forall>k v. map_of s k = Some v \<longrightarrow> value_ok vs k v"
    "(case x of (k, v) \<Rightarrow> \<lambda>vals. if k \<notin> set declared then Inr vals
       else bindE (case map_of vs k of None \<Rightarrow> Inr () | Some w \<Rightarrow> validate_prompt_value w k v)
         (\<lambda>_. Inr (AList.update k v vals))) s = Inr s'"
  obtain n v where n: "x = (n, v)" by (cases x)
  have "value_ok vs n v \<and> s' = AList.update n v s \<or> s' = s"
    using x assms(2) by (fastforce simp: n value_ok_def bindE_eq_Inr split: if_splits option.splits)
  then show "\<forall>k v. map_of s' k = Some v \<longrightarrow> value_ok vs k v" using x(2) by (auto simp: update_conv split: if_splits)
qed

lemmas addr_eval = validate_prompt_value_def ip_address_ok_def ip_network_ok_def parse_ip4_def parse_ip6_def
  parse_ip6_plain_def expand_tail_def fill_gap_def gaps_def parse_group_def parse_octet_def all_digits_def dec_val_def
  is_digit_def is_hex_def hexv_def digit_val_def less_eq_char_def ip4_mask_ok_def Let_def

lemma scope_accepted: "validate_prompt_value VIp ''remote_ip'' ''fe80::1%{group_name}'' = Inr ()"
  by (simp add: addr_eval upt_rec)

lemma addresses_accepted:
  "validate_prompt_value VIp ''remote_ip'' ''203.0.113.1'' = Inr ()"
  "validate_prompt_value VCidr ''local_subnet'' ''10.0.1.0/24'' = Inr ()"
  "validate_prompt_value VCidr ''remote_subnet'' ''fd00::/8'' = Inr ()"
  by (simp_all add: addr_eval upt_rec)


definition vpn_args :: "(string \<times> string) list" where
  "vpn_args = [(''remote_ip'', ''203.0.113.1''), (''local_subnet'', ''10.0.1.0/24''), (''remote_subnet'', ''fd00::/8'')]"


text \<open>Iterating over the names in another order changes the text once a value holds a placeholder.\<close>

lemma fill_order_matters:
  "fill_template [''a'', ''b''] (\<lambda>k. if k = ''a'' then hole ''b'' else ''x'') (hole ''a'') = ''x''"
  "fill_template [''b'', ''a''] (\<lambda>k. if k = ''a'' then hole ''b'' else ''x'') (hole ''a'') = hole ''b''"
  by code_simp+

lemma visible_exactly:
  assumes "distinct (map fst ps)"
  shows "name \<in> set (list_prompts ps ro intro) \<longleftrightarrow> (\<exists>p. map_of ps name = Some p \<and> shown ro intro p)"
  using assms by (auto simp: list_prompts_def intro: rev_image_eqI dest: map_of_SomeD)

text \<open>What is listed is what can be had: a prompt that is not listed is refused as unknown, a read-only
  session is never given a provisioning workflow, and a session without introspection none that needs it.\<close>
lemma hidden_prompts_refused:
  assumes "distinct (map fst ps)"
  shows "(name \<notin> set (list_prompts ps ro intro) \<longrightarrow> get_prompt ps ro intro order name args = Inl (ValueError ''Unknown prompt'')) \<and>
    (\<forall>ms. get_prompt ps ro intro order name args = Inr ms \<longrightarrow>
      (\<exists>p. map_of ps name = Some p \<and> (ro \<longrightarrow> \<not> p_write_only p) \<and> (p_requires_introspection p \<longrightarrow> intro)))"
  using visible_exactly [OF assms, of name ro intro]
  by (auto simp: get_prompt_def shown_def split: option.splits if_splits)

lemma hidden_prompts_refused_witness:
  "get_prompt [(''vpn'', vpn_prompt)] True True vpn_keys ''vpn'' vpn_args = Inl (ValueError ''Unknown prompt'')"
  using hidden_prompts_refused [of "[(''vpn'', vpn_prompt)]" "''vpn''" True True vpn_keys vpn_args]
  by (simp add: list_prompts_def shown_def vpn_prompt_def)

end
