(* ===== verification/Ehash.thy ===== *)
theory Ehash
  imports Prelude "HOL-Library.Monad_Syntax"
begin

text \<open>
  The external hash table of the FMan flow offload: the kernel functions that the fixups F-264, F-269
  and F-271 write into \<^verbatim>\<open>fman_pcd.c\<close>, run on the memory, allocator and hardware model
  of \<^verbatim>\<open>bin/test-ehash-delete.py\<close>.  A bucket with one flow points at its record, a bucket with
  more at a chain of cumulative nodes; every change rebuilds the bucket in fresh nodes, switches its
  head with one store, waits for the hardware (SYNC) and only then frees what was replaced.

  \<open>None\<close> is the result of a computation in which an assertion of the harness fails or a walk does not
  end.  Blocks are named by their DMA address (the harness has them equal to the virtual ones), so
  equal flows are equal pointers.
\<close>

section \<open>Bytes\<close>

type_synonym u64 = "64 word"

definition put_be64 :: "u64 \<Rightarrow> byte list" where
  "put_be64 v = pack_be32 (ucast (drop_bit 32 v)) @ pack_be32 (ucast v)"

definition get_be64 :: "byte list \<Rightarrow> u64" where
  "get_be64 bs = or (push_bit 32 (ucast (word_at 0 bs))) (ucast (word_at 4 bs))"

definition swab64 :: "u64 \<Rightarrow> u64" where
  "swab64 v = get_be64 (rev (put_be64 v))"

definition splice :: "nat \<Rightarrow> 'a list \<Rightarrow> 'a list \<Rightarrow> 'a list" where
  "splice off bs xs = take off xs @ bs @ drop (off + length bs) xs"

section \<open>State\<close>

text \<open>
  A pool block: its pool, the last head store after which the walker could reach it (0: never), and
  its bytes.  A block that is not live is absent from the memory.
\<close>

record pool_block =
  b_node :: bool
  b_seen :: nat
  b_bytes :: "byte list"

type_synonym memory = "u64 \<Rightarrow> pool_block option"

record flow =
  f_record :: u64
  f_index :: nat
  f_key_size :: nat

text \<open>
  The table (\<open>t_cu\<close>: the nodes each bucket head points at; \<open>t_bidx\<close>: the software index; \<open>t_flows\<close>:
  the list drained), the harness's memory, counters and flags, and the state of the environment.
\<close>

record 'h ehash =
  t_key_size :: nat
  t_hash_mask :: nat
  t_has_fman :: bool
  t_heads :: "nat \<Rightarrow> u64"
  t_cu :: "nat \<Rightarrow> u64 list option"
  t_bidx :: "nat \<Rightarrow> flow list"
  t_flows :: "flow list"
  blocks :: memory
  head_writes :: nat
  sync_mark :: nat
  syncs :: nat
  reads :: nat
  warnings :: nat
  metadata_freed :: nat
  sync_timeouts :: nat
  sync_recovered :: nat
  sync_wedged :: nat
  wmb_pending :: bool
  barrier :: bool
  draining :: bool
  world :: 'h

text \<open>
  The environment: whether \<^verbatim>\<open>kzalloc\<close> succeeds, the block a pool hands out (given whether it is
  the node pool and which blocks are live), the SYNC register, and the hash of a key.
\<close>

record 'h hw_env =
  e_kzalloc :: "'h \<Rightarrow> bool \<times> 'h"
  e_zalloc :: "bool \<Rightarrow> (u64 \<Rightarrow> bool) \<Rightarrow> 'h \<Rightarrow> u64 option \<times> 'h"
  e_set_extc :: "u32 \<Rightarrow> 'h \<Rightarrow> 'h"
  e_get_extc :: "'h \<Rightarrow> u32 \<times> 'h"
  e_bucket :: "byte list \<Rightarrow> nat"

definition assert_opt :: "bool \<Rightarrow> unit option" where
  "assert_opt b = (if b then Some () else None)"

fun foldO :: "('a \<Rightarrow> 's \<Rightarrow> 's option) \<Rightarrow> 'a list \<Rightarrow> 's \<Rightarrow> 's option" where
  "foldO f [] s = Some s"
| "foldO f (x # xs) s = Option.bind (f x s) (foldO f xs)"

definition FMAN_EHASH_FLOW_KEY_OFF :: nat where "FMAN_EHASH_FLOW_KEY_OFF = 8"
definition FMAN_EHASH_FLOW_BLK_SIZE :: nat where "FMAN_EHASH_FLOW_BLK_SIZE = 512"
definition FMAN_EHASH_CU_SIZE :: nat where "FMAN_EHASH_CU_SIZE = 256"
definition FMAN_EHASH_CU_NODE :: byte where "FMAN_EHASH_CU_NODE = 0x80"
definition FMAN_EHASH_CU_NEXT :: byte where "FMAN_EHASH_CU_NEXT = 0x20"
definition FMAN_EHASH_CU_KEYS_OFF :: nat where "FMAN_EHASH_CU_KEYS_OFF = 12"
definition FMAN_EHASH_CU_PTR_SIZE :: nat where "FMAN_EHASH_CU_PTR_SIZE = 8"
definition FMAN_EHASH_SYNC_TRIES :: nat where "FMAN_EHASH_SYNC_TRIES = 3"
definition INV0 :: u32 where "INV0 = 0x80000000"
definition ENOENT :: int where "ENOENT = 2"
definition ENOMEM :: int where "ENOMEM = 12"
definition EINVAL :: int where "EINVAL = 22"

lemmas ehash_consts = FMAN_EHASH_FLOW_KEY_OFF_def FMAN_EHASH_FLOW_BLK_SIZE_def FMAN_EHASH_CU_SIZE_def
  FMAN_EHASH_CU_NODE_def FMAN_EHASH_CU_NEXT_def FMAN_EHASH_CU_KEYS_OFF_def FMAN_EHASH_CU_PTR_SIZE_def

section \<open>The microcode's lookup\<close>

definition aligned :: "u64 \<Rightarrow> bool" where "aligned p = (and p 0xff = 0)"

definition rec_key :: "nat \<Rightarrow> byte list \<Rightarrow> byte list" where
  "rec_key ks bs = slice FMAN_EHASH_FLOW_KEY_OFF (FMAN_EHASH_FLOW_KEY_OFF + ks) bs"

definition node_key :: "nat \<Rightarrow> byte list \<Rightarrow> nat \<Rightarrow> byte list" where
  "node_key ks bs i =
     (let off = FMAN_EHASH_CU_KEYS_OFF + i * unat (bs ! 2) in slice off (off + ks) bs)"

definition node_ptr :: "byte list \<Rightarrow> nat \<Rightarrow> u64" where
  "node_ptr bs i =
     (let off = unat (bs ! 3) + i * FMAN_EHASH_CU_PTR_SIZE in get_be64 (slice off (off + 8) bs))"

text \<open>One key of a node; \<open>hit\<close> and the blocks touched are the state of the walk.\<close>

definition walk_key ::
  "memory \<Rightarrow> nat \<Rightarrow> byte list option \<Rightarrow> byte list \<Rightarrow> nat \<Rightarrow> u64 option \<times> u64 list \<Rightarrow> (u64 option \<times> u64 list) option" where
  "walk_key m ks key bs i = (\<lambda>(hit, touched). do {
     let r = node_ptr bs i;
     rb \<leftarrow> m r;
     assert_opt (\<not> b_node rb \<and> aligned r);
     assert_opt (node_key ks bs i = rec_key ks (b_bytes rb));
     Some (if hit = None \<and> key = Some (node_key ks bs i) then Some r else hit, touched @ [r])
   })"

definition node_ok :: "nat \<Rightarrow> byte list \<Rightarrow> bool" where
  "node_ok ks bs =
     (and (bs ! 0) 0x40 = 0 \<and> unat (bs ! 1) \<ge> 1 \<and> unat (bs ! 2) \<ge> ks \<and>
      unat (bs ! 3) = FMAN_EHASH_CU_KEYS_OFF + 1 + unat (bs ! 1) * unat (bs ! 2) \<and>
      unat (bs ! 3) + unat (bs ! 1) * FMAN_EHASH_CU_PTR_SIZE \<le> FMAN_EHASH_CU_SIZE \<and>
      bs ! (FMAN_EHASH_CU_KEYS_OFF + unat (bs ! 1) * unat (bs ! 2)) = 0)"

partial_function (option) walk_from ::
  "memory \<Rightarrow> nat \<Rightarrow> byte list option \<Rightarrow> u64 \<Rightarrow> u64 option \<times> u64 list \<Rightarrow> (u64 option \<times> u64 list) option" where
  "walk_from m ks key p s = do {
     blk \<leftarrow> m p;
     assert_opt (aligned p);
     let bs = b_bytes blk;
     let s = (fst s, snd s @ [p]);
     if and (bs ! 0) FMAN_EHASH_CU_NODE = 0 then do {
       assert_opt (\<not> b_node blk);
       Some (if fst s = None \<and> key = Some (rec_key ks bs) then Some p else fst s, snd s)
     } else do {
       assert_opt (b_node blk \<and> node_ok ks bs);
       s \<leftarrow> foldO (walk_key m ks key bs) [0..<unat (bs ! 1)] s;
       if and (bs ! 0) FMAN_EHASH_CU_NEXT = 0 then Some s
       else walk_from m ks key (get_be64 (slice 4 12 bs)) s
     }
   }"

declare walk_from.simps [code]

definition walk_bucket :: "'h ehash \<Rightarrow> nat \<Rightarrow> byte list option \<Rightarrow> (u64 option \<times> u64 list) option" where
  "walk_bucket t b key =
     (if t_heads t b = 0 then Some (None, [])
      else walk_from (blocks t) (t_key_size t) key (swab64 (t_heads t b)) (None, []))"

definition stamp :: "nat \<Rightarrow> u64 list \<Rightarrow> memory \<Rightarrow> memory" where
  "stamp w touched m = (\<lambda>a. if a \<in> set touched then map_option (\<lambda>b. b\<lparr>b_seen := w\<rparr>) (m a) else m a)"

definition stamp_bucket :: "nat \<Rightarrow> 'h ehash \<Rightarrow> 'h ehash option" where
  "stamp_bucket b t = do {
     (_, touched) \<leftarrow> walk_bucket t b None;
     Some (t\<lparr>blocks := stamp (head_writes t) touched (blocks t)\<rparr>)
   }"

definition head_store :: "nat \<Rightarrow> u64 \<Rightarrow> 'h ehash \<Rightarrow> 'h ehash option" where
  "head_store b v t = do {
     assert_opt (v = 0 \<or> wmb_pending t);
     foldO stamp_bucket [0..<t_hash_mask t + 1]
       (t\<lparr>wmb_pending := False, t_heads := (t_heads t)(b := v), head_writes := head_writes t + 1\<rparr>)
   }"

section \<open>Allocation and SYNC\<close>

definition zalloc :: "'h hw_env \<Rightarrow> bool \<Rightarrow> 'h ehash \<Rightarrow> u64 option \<times> 'h ehash" where
  "zalloc e node t =
     (case e_zalloc e node (\<lambda>a. blocks t a \<noteq> None) (world t) of
        (None, h) \<Rightarrow> (None, t\<lparr>world := h\<rparr>)
      | (Some a, h) \<Rightarrow>
          (Some a, t\<lparr>world := h, blocks := (blocks t)(a \<mapsto>
             \<lparr>b_node = node, b_seen = 0, b_bytes = replicate (if node then FMAN_EHASH_CU_SIZE else FMAN_EHASH_FLOW_BLK_SIZE) 0\<rparr>)\<rparr>))"

definition dma_pool_free :: "bool \<Rightarrow> u64 \<Rightarrow> 'h ehash \<Rightarrow> 'h ehash option" where
  "dma_pool_free node a t = do {
     blk \<leftarrow> blocks t a;
     assert_opt (b_node blk = node);
     assert_opt (draining t \<or> b_seen blk = 0 \<or> sync_mark t > b_seen blk);
     Some (t\<lparr>blocks := (blocks t)(a := None)\<rparr>)
   }"

definition kfree :: "'h ehash \<Rightarrow> 'h ehash" where
  "kfree t = t\<lparr>metadata_freed := metadata_freed t + 1\<rparr>"

definition set_fpm_extc :: "'h hw_env \<Rightarrow> u32 \<Rightarrow> 'h ehash \<Rightarrow> 'h ehash option" where
  "set_fpm_extc e v t = do {
     assert_opt (barrier t \<and> v = INV0);
     Some (t\<lparr>barrier := False, syncs := syncs t + 1, world := e_set_extc e v (world t)\<rparr>)
   }"

text \<open>A read without INV0 is the hardware's word that every earlier lookup has ended.\<close>

definition get_fpm_extc :: "'h hw_env \<Rightarrow> 'h ehash \<Rightarrow> u32 \<times> 'h ehash" where
  "get_fpm_extc e t =
     (let (v, h) = e_get_extc e (world t); t = t\<lparr>reads := reads t + 1, world := h\<rparr> in
      (v, if and v INV0 = 0 then t\<lparr>sync_mark := head_writes t\<rparr> else t))"

fun sync_poll :: "'h hw_env \<Rightarrow> nat \<Rightarrow> u32 \<Rightarrow> 'h ehash \<Rightarrow> u32 \<times> 'h ehash" where
  "sync_poll e 0 v t = (v, t)"
| "sync_poll e (Suc n) _ t = (let (v, t) = get_fpm_extc e t in if and v INV0 = 0 then (v, t) else sync_poll e n v t)"

fun sync_tries :: "'h hw_env \<Rightarrow> nat \<Rightarrow> nat \<Rightarrow> u32 \<Rightarrow> 'h ehash \<Rightarrow> (bool \<times> 'h ehash) option" where
  "sync_tries e attempt 0 _ t = Some (False, t\<lparr>sync_wedged := sync_wedged t + 1\<rparr>)"
| "sync_tries e attempt (Suc n) v t = do {
     t \<leftarrow> set_fpm_extc e INV0 (t\<lparr>barrier := True\<rparr>);
     let (v, t) = sync_poll e 100000 v t;
     if and v INV0 = 0
     then Some (True, if attempt > 0 then t\<lparr>sync_recovered := sync_recovered t + 1\<rparr> else t)
     else sync_tries e (attempt + 1) n v (t\<lparr>sync_timeouts := sync_timeouts t + 1\<rparr>)
   }"

text \<open>\<open>True\<close>: the SYNC completed; \<open>False\<close>: \<^verbatim>\<open>-ETIMEDOUT\<close>.\<close>

definition ehash_sync :: "'h hw_env \<Rightarrow> 'h ehash \<Rightarrow> (bool \<times> 'h ehash) option" where
  "ehash_sync e t =
     (if \<not> t_has_fman t then Some (True, t\<lparr>barrier := True\<rparr>)
      else sync_tries e 0 FMAN_EHASH_SYNC_TRIES 0 t)"

section \<open>The kernel functions\<close>

definition cu_stride :: "nat \<Rightarrow> nat" where
  "cu_stride ks = (if ks \<le> 2 then ks else if ks \<le> 4 then 4 else and (ks + 7) 0x38)"

definition cu_free :: "u64 list option \<Rightarrow> 'h ehash \<Rightarrow> 'h ehash option" where
  "cu_free cu t =
     (case cu of None \<Rightarrow> Some t
      | Some as \<Rightarrow> Option.bind (foldO (dma_pool_free True) as t) (\<lambda>t. Some (kfree t)))"

text \<open>Allocating the nodes; \<open>Inl\<close> is the list allocated before a failure.\<close>

fun alloc_nodes :: "'h hw_env \<Rightarrow> nat \<Rightarrow> u64 list \<Rightarrow> 'h ehash \<Rightarrow> (u64 list + u64 list) \<times> 'h ehash" where
  "alloc_nodes e 0 as t = (Inr as, t)"
| "alloc_nodes e (Suc n) as t =
     (case zalloc e True t of (None, t) \<Rightarrow> (Inl as, t) | (Some a, t) \<Rightarrow> alloc_nodes e n (as @ [a]) t)"

definition poke :: "u64 \<Rightarrow> nat \<Rightarrow> byte list \<Rightarrow> memory \<Rightarrow> memory" where
  "poke a off bs m = m(a := map_option (\<lambda>b. b\<lparr>b_bytes := splice off bs (b_bytes b)\<rparr>) (m a))"

definition byte_at :: "memory \<Rightarrow> u64 \<Rightarrow> nat \<Rightarrow> byte" where
  "byte_at m a off = (case m a of Some b \<Rightarrow> b_bytes b ! off | None \<Rightarrow> 0)"

definition rec_bytes :: "memory \<Rightarrow> u64 \<Rightarrow> byte list" where
  "rec_bytes m a = (case m a of Some b \<Rightarrow> b_bytes b | None \<Rightarrow> [])"

definition node_header :: "nat \<Rightarrow> nat \<Rightarrow> u64 option \<Rightarrow> u64 \<Rightarrow> memory \<Rightarrow> memory" where
  "node_header stride cnt nxt a m =
     (let m = poke a 0 [FMAN_EHASH_CU_NODE, of_nat cnt, of_nat stride, of_nat (FMAN_EHASH_CU_KEYS_OFF + 1 + cnt * stride)] m in
      case nxt of None \<Rightarrow> m
      | Some b \<Rightarrow> poke a 4 (put_be64 b) (poke a 0 [or (byte_at m a 0) FMAN_EHASH_CU_NEXT] m))"

definition node_entry :: "nat \<Rightarrow> nat \<Rightarrow> u64 \<Rightarrow> nat \<Rightarrow> flow \<Rightarrow> memory \<Rightarrow> memory" where
  "node_entry ks stride a k f m =
     (let m = poke a (FMAN_EHASH_CU_KEYS_OFF + k * stride) (rec_key ks (rec_bytes m (f_record f))) m in
      poke a (unat (byte_at m a 3) + k * FMAN_EHASH_CU_PTR_SIZE) (put_be64 (f_record f)) m)"

text \<open>One turn of the loop that fills the nodes: the \<open>k\<close>-th entry of node \<open>i\<close>.\<close>

definition fill_step ::
  "nat \<Rightarrow> nat \<Rightarrow> nat \<Rightarrow> nat \<Rightarrow> u64 list \<Rightarrow> flow \<Rightarrow> nat \<times> nat \<times> memory \<Rightarrow> nat \<times> nat \<times> memory" where
  "fill_step ks stride per n nodes f = (\<lambda>(i, k, m).
     let cnt = min per (n - i * per);
         a = nodes ! i;
         m = (if k = 0 then node_header stride cnt (if i + 1 < length nodes then Some (nodes ! (i + 1)) else None) a m else m);
         m = node_entry ks stride a k f m
     in if k + 1 = cnt then (i + 1, 0, m) else (i, k + 1, m))"

text \<open>
  The bucket without \<open>skip\<close>.  The result is the error (0 or \<^verbatim>\<open>-ENOMEM\<close>) with the replaced nodes.
\<close>

definition bucket_publish ::
  "'h hw_env \<Rightarrow> nat \<Rightarrow> flow option \<Rightarrow> 'h ehash \<Rightarrow> ((int \<times> u64 list option) \<times> 'h ehash) option" where
  "bucket_publish e idx skip t =
     (let stride = cu_stride (t_key_size t);
          per = (FMAN_EHASH_CU_SIZE - FMAN_EHASH_CU_KEYS_OFF - 1) div (stride + FMAN_EHASH_CU_PTR_SIZE);
          fs = filter (\<lambda>f. Some f \<noteq> skip) (t_bidx t idx);
          n = length fs;
          switch = (\<lambda>h cu t. do {
            t \<leftarrow> head_store idx h (t\<lparr>wmb_pending := True\<rparr>);
            Some ((0, t_cu t idx), t\<lparr>t_cu := (t_cu t)(idx := cu)\<rparr>)
          })
      in
        if n = 1 then switch (swab64 (f_record (hd fs))) None t
        else if n > 1 then
          (let nodes = (n + per - 1) div per; (ok, h) = e_kzalloc e (world t); t = t\<lparr>world := h\<rparr> in
           if \<not> ok then Some ((- ENOMEM, None), t)
           else case alloc_nodes e nodes [] t of
             (Inl as, t) \<Rightarrow> do { t \<leftarrow> cu_free (Some as) t; Some ((- ENOMEM, None), t) }
           | (Inr as, t) \<Rightarrow>
               let m = snd (snd (fold (fill_step (t_key_size t) stride per n as) fs (0, 0, blocks t)))
               in switch (swab64 (hd as)) (Some as) (t\<lparr>blocks := m\<rparr>))
        else switch 0 None t)"

text \<open>The publish tail of \<^verbatim>\<open>add_key\<close>, with the record filled and its flow allocated.\<close>

definition add_tail :: "'h hw_env \<Rightarrow> flow \<Rightarrow> 'h ehash \<Rightarrow> (int \<times> 'h ehash) option" where
  "add_tail e f t0 = do {
     let idx = f_index f;
     ((err, old), t) \<leftarrow> bucket_publish e idx None (t0\<lparr>t_bidx := (t_bidx t0)(idx := f # t_bidx t0 idx)\<rparr>);
     if err \<noteq> 0 then do {
       t \<leftarrow> dma_pool_free False (f_record f) (t\<lparr>t_bidx := (t_bidx t)(idx := remove1 f (t_bidx t idx))\<rparr>);
       Some (err, kfree t)
     } else case old of
       None \<Rightarrow> Some (0, t)
     | Some as \<Rightarrow> do {
         (synced, t) \<leftarrow> ehash_sync e t;
         if synced then do { t \<leftarrow> cu_free old t; Some (0, t) }
         else Some (0, t\<lparr>warnings := warnings t + 1\<rparr>)
       }
   }"

text \<open>Insertion as the harness drives it: the record holds the key and nothing else.\<close>

definition ehash_add :: "'h hw_env \<Rightarrow> byte list \<Rightarrow> 'h ehash \<Rightarrow> (int \<times> 'h ehash) option" where
  "ehash_add e key t = do {
     let (r, t) = zalloc e False t;
     r \<leftarrow> r;
     let f = \<lparr>f_record = r, f_index = e_bucket e key, f_key_size = t_key_size t\<rparr>;
     let t = t\<lparr>blocks := poke r FMAN_EHASH_FLOW_KEY_OFF key (blocks t)\<rparr>;
     (err, t) \<leftarrow> add_tail e f t;
     Some (if err \<noteq> 0 then (err, t) else (0, t\<lparr>t_flows := f # t_flows t\<rparr>))
   }"

definition find_flow :: "'h ehash \<Rightarrow> byte list \<Rightarrow> nat \<Rightarrow> nat \<Rightarrow> flow option" where
  "find_flow t key ks idx =
     find (\<lambda>f. f_key_size f = ks \<and> rec_key ks (rec_bytes (blocks t) (f_record f)) = key) (t_bidx t idx)"

definition del_key :: "'h hw_env \<Rightarrow> byte list option \<Rightarrow> nat \<Rightarrow> 'h ehash \<Rightarrow> (int \<times> 'h ehash) option" where
  "del_key e key ks t =
     (case key of None \<Rightarrow> Some (- EINVAL, t)
      | Some key \<Rightarrow>
          if ks = 0 \<or> ks \<noteq> t_key_size t then Some (- EINVAL, t)
          else case find_flow t key ks (e_bucket e key) of
            None \<Rightarrow> Some (- ENOENT, t)
          | Some x \<Rightarrow> do {
              let idx = f_index x;
              ((err, old), t) \<leftarrow> bucket_publish e idx (Some x) t;
              (old, t) \<leftarrow>
                (if err \<noteq> 0 then do {
                   t \<leftarrow> head_store idx 0 t;
                   Some (t_cu t idx, t\<lparr>t_cu := (t_cu t)(idx := None), warnings := warnings t + 1\<rparr>)
                 } else Some (old, t));
              let t = t\<lparr>t_flows := remove1 x (t_flows t), t_bidx := (t_bidx t)(idx := remove1 x (t_bidx t idx))\<rparr>;
              (synced, t) \<leftarrow> ehash_sync e t;
              if \<not> synced
              then Some (0, kfree ((if old = None then id else kfree) (t\<lparr>warnings := warnings t + 3\<rparr>)))
              else do {
                t \<leftarrow> cu_free old t;
                t \<leftarrow> dma_pool_free False (f_record x) t;
                Some (0, kfree t)
              }
            })"

definition drain_flow :: "flow \<Rightarrow> 'h ehash \<Rightarrow> 'h ehash option" where
  "drain_flow f t = do {
     t \<leftarrow> head_store (f_index f) 0 t;
     t \<leftarrow> dma_pool_free False (f_record f)
       (t\<lparr>t_flows := remove1 f (t_flows t), t_bidx := (t_bidx t)(f_index f := remove1 f (t_bidx t (f_index f)))\<rparr>);
     Some (kfree t)
   }"

definition drain_bucket :: "nat \<Rightarrow> 'h ehash \<Rightarrow> 'h ehash option" where
  "drain_bucket i t = do {
     t \<leftarrow> cu_free (t_cu t i) t;
     Some (t\<lparr>t_cu := (t_cu t)(i := None)\<rparr>)
   }"

definition flow_drain :: "'h ehash \<Rightarrow> 'h ehash option" where
  "flow_drain t = Option.bind (foldO drain_flow (t_flows t) t) (foldO drain_bucket [0..<t_hash_mask t + 1])"

text \<open>The harness frees without a SYNC while it drains: the ports are detached.\<close>

definition ehash_drain :: "'h ehash \<Rightarrow> 'h ehash option" where
  "ehash_drain t = do { t \<leftarrow> flow_drain (t\<lparr>draining := True\<rparr>); Some (t\<lparr>draining := False\<rparr>) }"

text \<open>The table as the harness sets it up.\<close>

definition ehash_setup :: "nat \<Rightarrow> nat \<Rightarrow> 'h \<Rightarrow> 'h ehash" where
  "ehash_setup ks hm h = \<lparr>t_key_size = ks, t_hash_mask = hm, t_has_fman = True, t_heads = (\<lambda>_. 0), t_cu = (\<lambda>_. None),
     t_bidx = (\<lambda>_. []), t_flows = [], blocks = Map.empty, head_writes = 0, sync_mark = 0, syncs = 0, reads = 0, warnings = 0,
     metadata_freed = 0, sync_timeouts = 0, sync_recovered = 0, sync_wedged = 0, wmb_pending = False, barrier = False,
     draining = False, world = h\<rparr>"

section \<open>The harness's environment\<close>

text \<open>
  The stubs of the harness: \<open>fail_in\<close> counts down to one injected allocation failure, the SYNC register
  stays busy for \<open>polls\<close> reads, for ever with \<open>timeout\<close>, and for the next \<open>fail_n\<close> commands.  The C
  library's \<^verbatim>\<open>aligned_alloc\<close> is a counter; two buckets are selected by the second key byte.
\<close>

record harness =
  fm_timeout :: bool
  fm_polls :: nat
  fm_fail_n :: nat
  fm_pending_fail :: bool
  fail_in :: nat
  next_block :: u64

definition inject :: "harness \<Rightarrow> bool \<times> harness" where
  "inject h = (fail_in h = 1, h\<lparr>fail_in := fail_in h - 1\<rparr>)"

definition harness_zalloc :: "bool \<Rightarrow> (u64 \<Rightarrow> bool) \<Rightarrow> harness \<Rightarrow> u64 option \<times> harness" where
  "harness_zalloc node live h =
     (let (failed, h) = (if node then inject h else (False, h)); a = next_block h in
      if failed \<or> a = 0 \<or> live a \<or> \<not> aligned a then (None, h) else (Some a, h\<lparr>next_block := a + 512\<rparr>))"

definition harness_env :: "nat \<Rightarrow> harness hw_env" where
  "harness_env hm =
     \<lparr>e_kzalloc = (\<lambda>h. let (failed, h) = inject h in (\<not> failed, h)),
      e_zalloc = harness_zalloc,
      e_set_extc = (\<lambda>_ h. h\<lparr>fm_pending_fail := fm_fail_n h \<noteq> 0, fm_fail_n := fm_fail_n h - 1\<rparr>),
      e_get_extc = (\<lambda>h. if fm_timeout h \<or> fm_pending_fail h then (INV0, h)
        else if fm_polls h \<noteq> 0 then (INV0, h\<lparr>fm_polls := fm_polls h - 1\<rparr>) else (0, h)),
      e_bucket = (\<lambda>key. and (unat (key ! 1)) hm)\<rparr>"

definition harness0 :: harness where
  "harness0 = \<lparr>fm_timeout = False, fm_polls = 0, fm_fail_n = 0, fm_pending_fail = False, fail_in = 0, next_block = 0x1000\<rparr>"

definition make_key :: "nat \<Rightarrow> nat \<Rightarrow> nat \<Rightarrow> byte list" where
  "make_key ks i b = take ks ([of_nat i, of_nat b, 0xa5] @ replicate 53 0)"

end
