(* ===== verification/EhashNodes.thy ===== *)
theory EhashNodes
  imports Ehash
begin

text \<open>
  Layout of the cumulative nodes: what the loop of \<^verbatim>\<open>bucket_publish\<close> writes into fresh blocks is what
  the microcode's walk reads back.  The laws of the layout (a key fits its stride, a full node fits 256
  bytes) are a locale; \<open>cu_stride\<close> meets them for every key size the table accepts.
\<close>

section \<open>Bytes\<close>

lemma bit_ucast_be: "bit (ucast (w :: 'a::len word) :: 'b::len word) n \<longleftrightarrow> n < LENGTH('b) \<and> bit w n"
  by (auto simp: bit_ucast_iff dest: bit_imp_le_length)

lemma length_put_be64 [simp]: "length (put_be64 v) = 8"
  by (simp add: put_be64_def)

lemma word_at_put:
  "word_at 0 (pack_be32 a @ pack_be32 b) = a" "word_at 4 (pack_be32 a @ pack_be32 b) = b"
  by (simp_all add: word_at_def slice_def)

lemma get_put_be64 [simp]: "get_be64 (put_be64 v) = v"
  unfolding get_be64_def put_be64_def word_at_put
  by (rule bit_word_eqI) (auto simp: bit_or_iff bit_push_bit_iff bit_ucast_iff bit_drop_bit_eq)

lemma list_of_8: "length xs = 8 \<Longrightarrow> xs = [xs!0, xs!1, xs!2, xs!3, xs!4, xs!5, xs!6, xs!7]"
  by (rule nth_equalityI) (auto simp: less_Suc_eq numeral_eq_Suc)

lemma put_get_be64: "length bs = 8 \<Longrightarrow> put_be64 (get_be64 bs) = bs"
proof -
  assume l: "length bs = 8"
  obtain v w where "unpack_be32 (slice 0 4 bs) = Inr v" "unpack_be32 (slice 4 8 bs) = Inr w"
    using unpack_be32_total [of "slice 0 4 bs"] unpack_be32_total [of "slice 4 8 bs"] l by (auto simp: length_slice)
  then have p: "pack_be32 v = slice 0 4 bs" "pack_be32 w = slice 4 8 bs" "word_at 0 bs = v" "word_at 4 bs = w"
    using unpack_be32_length by (auto simp: word_at_def)
  have "bs = slice 0 4 bs @ slice 4 8 bs" using l by (simp add: slice_def)
  moreover have "ucast (drop_bit 32 (get_be64 bs)) = v" "ucast (get_be64 bs) = w"
    unfolding get_be64_def p
    by (rule bit_word_eqI; auto simp: bit_or_iff bit_push_bit_iff bit_ucast_iff bit_drop_bit_eq dest: bit_imp_le_length)+
  ultimately show ?thesis by (simp add: put_be64_def p)
qed

lemma swab64_swab64 [simp]: "swab64 (swab64 v) = v"
  by (simp add: swab64_def put_get_be64)

lemma put_be64_0: "put_be64 0 = replicate 8 0"
  by (simp add: put_be64_def pack_be32_def numeral_eq_Suc)

lemma swab64_0 [simp]: "swab64 v = 0 \<longleftrightarrow> v = 0"
proof -
  have "swab64 0 = 0" using get_put_be64 [of 0] by (simp add: swab64_def put_be64_0)
  then show ?thesis by (metis swab64_swab64)
qed

lemma length_splice [simp]: "off + length bs \<le> length xs \<Longrightarrow> length (splice off bs xs) = length xs"
  by (simp add: splice_def)

lemma nth_splice_other:
  "off + length bs \<le> length xs \<Longrightarrow> i < off \<or> off + length bs \<le> i \<Longrightarrow> i < length xs \<Longrightarrow> splice off bs xs ! i = xs ! i"
  by (auto simp: splice_def nth_append)

lemma slice_splice_same: "off + length bs \<le> length xs \<Longrightarrow> slice off (off + length bs) (splice off bs xs) = bs"
  by (simp add: splice_def slice_def)

lemma slice_splice_other:
  assumes "off + length bs \<le> length xs" "j \<le> off \<or> off + length bs \<le> i"
  shows "slice i j (splice off bs xs) = slice i j xs"
proof (rule nth_equalityI)
  show "length (slice i j (splice off bs xs)) = length (slice i j xs)" using assms by (simp add: length_slice)
  fix k assume "k < length (slice i j (splice off bs xs))"
  then show "slice i j (splice off bs xs) ! k = slice i j xs ! k"
    using assms by (auto simp: nth_slice length_slice intro!: nth_splice_other)
qed

section \<open>The layout\<close>

definition per_node :: "nat \<Rightarrow> nat" where
  "per_node ks = (FMAN_EHASH_CU_SIZE - FMAN_EHASH_CU_KEYS_OFF - 1) div (cu_stride ks + FMAN_EHASH_CU_PTR_SIZE)"

locale node_geometry =
  fixes ks stride per :: nat
  assumes key_fits: "0 < ks" "ks \<le> stride"
    and node_fits: "0 < per" "13 + per * stride + per * 8 \<le> 256"

lemma cu_stride_cases: "ks \<le> 56 \<Longrightarrow> cu_stride ks \<in> {ks, 4, 8, 16, 24, 32, 40, 48, 56} \<and> ks \<le> cu_stride ks \<and> cu_stride ks \<le> 56"
proof -
  have "\<forall>k \<in> set [0..<57]. cu_stride k \<in> {k, 4, 8, 16, 24, 32, 40, 48, 56} \<and> k \<le> cu_stride k \<and> cu_stride k \<le> 56"
    by code_simp
  then show "ks \<le> 56 \<Longrightarrow> ?thesis" by simp
qed

lemma geometry: "0 < ks \<Longrightarrow> ks \<le> 56 \<Longrightarrow> node_geometry ks (cu_stride ks) (per_node ks)"
proof
  assume k: "0 < ks" "ks \<le> 56"
  have s: "ks \<le> cu_stride ks" "cu_stride ks \<le> 56" using cu_stride_cases [OF k(2)] by auto
  show "ks \<le> cu_stride ks" by fact
  show "0 < per_node ks"
    using s by (simp add: per_node_def ehash_consts div_greater_zero_iff)
  have "per_node ks * (cu_stride ks + 8) \<le> 243"
    unfolding per_node_def ehash_consts by (simp add: div_times_less_eq_dividend)
  then show "13 + per_node ks * cu_stride ks + per_node ks * 8 \<le> 256" by (simp add: algebra_simps)
qed

interpretation routed_key: node_geometry 50 56 3 by unfold_locales auto
interpretation vlan_key: node_geometry 38 40 5 by unfold_locales auto

section \<open>Reading a chain\<close>

definition key_of :: "memory \<Rightarrow> nat \<Rightarrow> flow \<Rightarrow> byte list" where
  "key_of m ks f = rec_key ks (rec_bytes m (f_record f))"

definition rec_ok :: "memory \<Rightarrow> flow \<Rightarrow> bool" where
  "rec_ok m f = (\<exists>blk. m (f_record f) = Some blk \<and> \<not> b_node blk \<and> aligned (f_record f) \<and> f_record f \<noteq> 0 \<and>
     length (b_bytes blk) = 512 \<and> b_bytes blk ! 0 = 0)"

text \<open>A node's bytes hold the keys and pointers of \<open>fs\<close> and the link \<open>nxt\<close>.\<close>

definition node_bytes_ok :: "memory \<Rightarrow> nat \<Rightarrow> nat \<Rightarrow> flow list \<Rightarrow> u64 option \<Rightarrow> byte list \<Rightarrow> bool" where
  "node_bytes_ok m ks stride fs nxt bs =
     (length bs = 256 \<and> bs ! 0 = (if nxt = None then 0x80 else 0xA0) \<and> unat (bs ! 1) = length fs \<and>
      unat (bs ! 2) = stride \<and> unat (bs ! 3) = 13 + length fs * stride \<and> bs ! (12 + length fs * stride) = 0 \<and>
      (\<forall>b. nxt = Some b \<longrightarrow> get_be64 (slice 4 12 bs) = b) \<and>
      (\<forall>i < length fs. node_key ks bs i = key_of m ks (fs ! i) \<and> node_ptr bs i = f_record (fs ! i)))"

definition node_is :: "memory \<Rightarrow> nat \<Rightarrow> nat \<Rightarrow> u64 \<Rightarrow> flow list \<Rightarrow> u64 option \<Rightarrow> bool" where
  "node_is m ks stride a fs nxt = (\<exists>blk. m a = Some blk \<and> b_node blk \<and> node_bytes_ok m ks stride fs nxt (b_bytes blk))"

definition head_of :: "'a list \<Rightarrow> 'a option" where
  "head_of xs = (case xs of [] \<Rightarrow> None | x # _ \<Rightarrow> Some x)"

lemma head_of_simps [simp]: "head_of [] = None" "head_of (x # xs) = Some x"
  by (simp_all add: head_of_def)

fun chain :: "memory \<Rightarrow> nat \<Rightarrow> nat \<Rightarrow> nat \<Rightarrow> u64 list \<Rightarrow> flow list list \<Rightarrow> bool" where
  "chain m ks stride per [] [] = True"
| "chain m ks stride per (a # as) (c # cs) =
     (node_is m ks stride a c (head_of as) \<and> aligned a \<and> 0 < length c \<and> length c \<le> per \<and> chain m ks stride per as cs)"
| "chain m ks stride per _ _ = False"

definition first_match :: "memory \<Rightarrow> nat \<Rightarrow> byte list option \<Rightarrow> flow list \<Rightarrow> u64 option \<Rightarrow> u64 option" where
  "first_match m ks key fs hit =
     (if hit = None then map_option f_record (find (\<lambda>f. key = Some (key_of m ks f)) fs) else hit)"

fun visits :: "u64 list \<Rightarrow> flow list list \<Rightarrow> u64 list" where
  "visits (a # as) (c # cs) = a # map f_record c @ visits as cs"
| "visits _ _ = []"

lemma foldO_append: "foldO f (xs @ ys) s = Option.bind (foldO f xs s) (foldO f ys)"
proof (induction xs arbitrary: s)
  case (Cons x xs)
  then show ?case by (cases "f x s") simp_all
qed simp

lemma find_append: "find P (xs @ ys) = (case find P xs of None \<Rightarrow> find P ys | Some x \<Rightarrow> Some x)"
  by (induction xs) auto

lemma first_match_append: "first_match m ks key (xs @ ys) hit = first_match m ks key ys (first_match m ks key xs hit)"
  by (auto simp: first_match_def find_append split: option.splits)

lemma first_match_Nil [simp]: "first_match m ks key [] hit = hit"
  by (simp add: first_match_def)

lemma walk_keys:
  assumes "node_bytes_ok m ks stride fs nxt bs" "\<forall>f \<in> set fs. rec_ok m f" "j \<le> length fs"
  shows "foldO (walk_key m ks key bs) [0..<j] (hit, touched) =
    Some (first_match m ks key (take j fs) hit, touched @ map f_record (take j fs))"
  using assms(3)
proof (induction j)
  case (Suc j)
  then have j: "j < length fs" by simp
  then have f: "node_key ks bs j = key_of m ks (fs ! j)" "node_ptr bs j = f_record (fs ! j)" "rec_ok m (fs ! j)"
    using assms(1,2) by (auto simp: node_bytes_ok_def)
  from f(3) obtain blk where "m (f_record (fs ! j)) = Some blk" "\<not> b_node blk" "aligned (f_record (fs ! j))"
    unfolding rec_ok_def by blast
  with f Suc j show ?case
    by (simp add: foldO_append walk_key_def Let_def assert_opt_def take_Suc_conv_app_nth first_match_append)
      (auto simp: key_of_def rec_bytes_def first_match_def)
qed simp

context node_geometry begin

lemma room: "n \<le> per \<Longrightarrow> 13 + n * stride + n * 8 \<le> 256"
  using node_fits mult_le_mono1 [of n per stride] by linarith

lemma node_bytes_node_ok:
  assumes "node_bytes_ok m ks stride fs nxt bs" "0 < length fs" "length fs \<le> per"
  shows "node_ok ks bs \<and> and (bs ! 0) FMAN_EHASH_CU_NODE \<noteq> 0 \<and> (and (bs ! 0) FMAN_EHASH_CU_NEXT = 0 \<longleftrightarrow> nxt = None)"
  using assms(1,2) room [OF assms(3)] key_fits
  by (auto simp: node_bytes_ok_def node_ok_def ehash_consts Suc_le_eq)

lemma walk_chain:
  "chain m ks stride per (a # as) (c # cs) \<Longrightarrow> \<forall>f \<in> set (concat (c # cs)). rec_ok m f \<Longrightarrow>
   walk_from m ks key a (hit, touched) =
     Some (first_match m ks key (concat (c # cs)) hit, touched @ visits (a # as) (c # cs))"
proof (induction as arbitrary: a c cs hit touched)
  case Nil
  then obtain blk where n: "m a = Some blk" "b_node blk" "node_bytes_ok m ks stride c None (b_bytes blk)" "aligned a"
      "0 < length c" "length c \<le> per" "cs = []"
    by (cases cs) (auto simp: node_is_def)
  moreover have "unat (b_bytes blk ! 1) = length c" using n(3) by (simp add: node_bytes_ok_def)
  ultimately show ?case
    using node_bytes_node_ok [OF n(3,5,6)] walk_keys [OF n(3), of "length c" key hit "touched @ [a]"] Nil(2)
    by (subst walk_from.simps) (simp add: assert_opt_def)
next
  case (Cons b as)
  then obtain blk c' cs' where n: "m a = Some blk" "b_node blk" "node_bytes_ok m ks stride c (Some b) (b_bytes blk)" "aligned a"
      "0 < length c" "length c \<le> per" "cs = c' # cs'" "chain m ks stride per (b # as) (c' # cs')"
    by (cases cs) (auto simp: node_is_def)
  moreover have "unat (b_bytes blk ! 1) = length c" "get_be64 (slice 4 12 (b_bytes blk)) = b"
    using n(3) by (simp_all add: node_bytes_ok_def)
  ultimately show ?case
    using node_bytes_node_ok [OF n(3,5,6)] walk_keys [OF n(3), of "length c" key hit "touched @ [a]"] Cons(3)
      Cons.IH [OF n(8), of "first_match m ks key c hit" "touched @ a # map f_record c"]
    by (subst walk_from.simps) (simp add: assert_opt_def first_match_append)
qed

end

section \<open>Writing a chain\<close>

definition header_bytes :: "nat \<Rightarrow> nat \<Rightarrow> u64 option \<Rightarrow> byte list \<Rightarrow> byte list" where
  "header_bytes stride cnt nxt bs =
     (let bs = splice 0 [0x80, of_nat cnt, of_nat stride, of_nat (13 + cnt * stride)] bs in
      case nxt of None \<Rightarrow> bs | Some b \<Rightarrow> splice 4 (put_be64 b) (splice 0 [or (bs ! 0) 0x20] bs))"

definition entry_bytes :: "nat \<Rightarrow> nat \<Rightarrow> byte list \<times> u64 \<Rightarrow> byte list \<Rightarrow> byte list" where
  "entry_bytes stride k kp bs =
     (let bs = splice (12 + k * stride) (fst kp) bs in splice (unat (bs ! 3) + k * 8) (put_be64 (snd kp)) bs)"

definition set_bytes :: "u64 \<Rightarrow> (byte list \<Rightarrow> byte list) \<Rightarrow> memory \<Rightarrow> memory" where
  "set_bytes a g m = m(a := map_option (\<lambda>b. b\<lparr>b_bytes := g (b_bytes b)\<rparr>) (m a))"

lemma poke_set: "poke a off bs = set_bytes a (splice off bs)"
  by (rule ext) (simp add: poke_def set_bytes_def)

lemma set_bytes_twice: "set_bytes a g (set_bytes a f m) = set_bytes a (g \<circ> f) m"
  by (cases "m a") (simp_all add: set_bytes_def fun_eq_iff)

lemma set_bytes_cong: "m a = Some blk \<Longrightarrow> f (b_bytes blk) = g (b_bytes blk) \<Longrightarrow> set_bytes a f m = set_bytes a g m"
  by (simp add: set_bytes_def)

lemma set_bytes_same: "m a = Some blk \<Longrightarrow> set_bytes a g m a = Some (blk\<lparr>b_bytes := g (b_bytes blk)\<rparr>)"
  by (simp add: set_bytes_def)

lemma set_bytes_other [simp]: "b \<noteq> a \<Longrightarrow> set_bytes a g m b = m b"
  by (simp add: set_bytes_def)

lemma node_header_set:
  "m a = Some blk \<Longrightarrow> node_header stride cnt nxt a m = set_bytes a (header_bytes stride cnt nxt) m"
  by (auto simp: node_header_def header_bytes_def poke_set set_bytes_twice Let_def byte_at_def set_bytes_same ehash_consts
      split: option.split intro!: set_bytes_cong)

lemma node_entry_set:
  "m a = Some blk \<Longrightarrow> node_entry ks stride a k f m = set_bytes a (entry_bytes stride k (key_of m ks f, f_record f)) m"
  by (auto simp: node_entry_def entry_bytes_def poke_set set_bytes_twice Let_def byte_at_def set_bytes_same ehash_consts key_of_def
      intro!: set_bytes_cong)

text \<open>A node of \<open>cnt\<close> keys whose first entries are \<open>kps\<close>.\<close>

definition node_part :: "nat \<Rightarrow> nat \<Rightarrow> nat \<Rightarrow> u64 option \<Rightarrow> (byte list \<times> u64) list \<Rightarrow> byte list \<Rightarrow> bool" where
  "node_part ks stride cnt nxt kps bs =
     (length bs = 256 \<and> bs ! 0 = (if nxt = None then 0x80 else 0xA0) \<and> unat (bs ! 1) = cnt \<and>
      unat (bs ! 2) = stride \<and> unat (bs ! 3) = 13 + cnt * stride \<and> bs ! (12 + cnt * stride) = 0 \<and>
      (\<forall>b. nxt = Some b \<longrightarrow> slice 4 12 bs = put_be64 b) \<and>
      (\<forall>i < length kps. slice (12 + i * stride) (12 + i * stride + ks) bs = fst (kps ! i) \<and>
         slice (13 + cnt * stride + i * 8) (13 + cnt * stride + i * 8 + 8) bs = put_be64 (snd (kps ! i))))"

lemma node_part_done:
  "node_part ks stride (length fs) nxt (map (\<lambda>f. (key_of m ks f, f_record f)) fs) bs \<Longrightarrow>
   node_bytes_ok m ks stride fs nxt bs"
  by (auto simp: node_part_def node_bytes_ok_def node_key_def node_ptr_def ehash_consts Let_def)

lemma before_next: "i < (k::nat) \<Longrightarrow> i * s + s \<le> k * s"
  using mult_le_mono1 [of "Suc i" k s] by simp

context node_geometry begin

lemma header_part:
  assumes "0 < cnt" "cnt \<le> per"
  shows "node_part ks stride cnt nxt [] (header_bytes stride cnt nxt (replicate 256 0))"
proof -
  have r: "13 + cnt * stride + cnt * 8 \<le> 256" by (rule room [OF assms(2)])
  have "stride \<le> cnt * stride" using assms(1) by simp
  then have s: "stride < 256" "cnt < 256" "13 + cnt * stride < 256" "0 < cnt * stride" using r assms(1) key_fits by linarith+
  then have "unat (of_nat cnt :: byte) = cnt" "unat (of_nat stride :: byte) = stride"
      "unat (of_nat (13 + cnt * stride) :: byte) = 13 + cnt * stride"
    unfolding unat_of_nat by simp_all
  then show ?thesis
    using s by (auto simp: node_part_def header_bytes_def splice_def nth_append nth_Cons' slice_def)
qed

lemma entry_part:
  assumes "node_part ks stride cnt nxt kps bs" "length kps < cnt" "cnt \<le> per" "length (fst kp) = ks"
  shows "node_part ks stride cnt nxt (kps @ [kp]) (entry_bytes stride (length kps) kp bs)"
proof -
  let ?k = "length kps"
  let ?bs = "splice (12 + ?k * stride) (fst kp) bs"
  have r: "13 + cnt * stride + cnt * 8 \<le> 256" by (rule room [OF assms(3)])
  have k: "?k * stride + stride \<le> cnt * stride" "?k * 8 + 8 \<le> cnt * 8" using assms(2) before_next by auto
  have len: "length bs = 256" using assms(1) by (simp add: node_part_def)
  have f1: "12 + ?k * stride + length (fst kp) \<le> length bs" using r k assms(4) key_fits len by linarith
  have b3: "?bs ! 3 = bs ! 3" using f1 len by (simp add: nth_splice_other)
  have ptr: "unat (?bs ! 3) + ?k * 8 = 13 + cnt * stride + ?k * 8" using assms(1) b3 by (simp add: node_part_def)
  have f2: "13 + cnt * stride + ?k * 8 + length (put_be64 (snd kp)) \<le> length ?bs" using r k f1 len by simp
  let ?r = "splice (13 + cnt * stride + ?k * 8) (put_be64 (snd kp)) ?bs"
  have e: "entry_bytes stride ?k kp bs = ?r" unfolding entry_bytes_def Let_def ptr ..
  have lenr: "length ?r = 256" using f1 f2 len by simp
  have keep: "?r ! i = bs ! i" if "i < 12 \<or> i = 12 + cnt * stride" for i
    using that f1 f2 len k assms(4) key_fits r by (auto simp: nth_splice_other)
  have link: "slice 4 12 ?r = slice 4 12 bs" using f1 f2 by (simp add: slice_splice_other)
  have same: "slice (12 + ?k * stride) (12 + ?k * stride + ks) ?r = fst kp"
      "slice (13 + cnt * stride + ?k * 8) (13 + cnt * stride + ?k * 8 + 8) ?r = put_be64 (snd kp)"
    using slice_splice_same [OF f1] slice_splice_same [OF f2] f2 k assms(4) key_fits
    by (simp_all add: slice_splice_other)
  have old: "slice (12 + i * stride) (12 + i * stride + ks) ?r = slice (12 + i * stride) (12 + i * stride + ks) bs"
      "slice (13 + cnt * stride + i * 8) (13 + cnt * stride + i * 8 + 8) ?r = slice (13 + cnt * stride + i * 8) (13 + cnt * stride + i * 8 + 8) bs"
    if "i < ?k" for i
  proof -
    have i: "i * stride + stride \<le> ?k * stride" "i * 8 + 8 \<le> ?k * 8" using that before_next by auto
    show "slice (12 + i * stride) (12 + i * stride + ks) ?r = slice (12 + i * stride) (12 + i * stride + ks) bs"
      using f1 f2 i k assms(4) key_fits by (simp add: slice_splice_other)
    show "slice (13 + cnt * stride + i * 8) (13 + cnt * stride + i * 8 + 8) ?r = slice (13 + cnt * stride + i * 8) (13 + cnt * stride + i * 8 + 8) bs"
      using f1 f2 i k assms(4) key_fits by (simp add: slice_splice_other)
  qed
  show ?thesis
    unfolding e using assms(1) lenr keep link same old
    by (auto simp: node_part_def nth_append less_Suc_eq)
qed

end

lemma rec_ok_set: "f_record f \<noteq> a \<Longrightarrow> rec_ok (set_bytes a g m) f = rec_ok m f"
  by (simp add: rec_ok_def)

lemma key_of_set: "f_record f \<noteq> a \<Longrightarrow> key_of (set_bytes a g m) ks f = key_of m ks f"
  by (simp add: key_of_def rec_bytes_def)

lemma length_key_of: "rec_ok m f \<Longrightarrow> ks \<le> 504 \<Longrightarrow> length (key_of m ks f) = ks"
  by (auto simp: rec_ok_def key_of_def rec_bytes_def rec_key_def ehash_consts length_slice)

lemma set_bytes_id: "set_bytes a (\<lambda>x. x) m = m"
  by (rule ext) (simp add: set_bytes_def option.map_ident)

abbreviation key_ptr :: "memory \<Rightarrow> nat \<Rightarrow> flow \<Rightarrow> byte list \<times> u64" where
  "key_ptr m ks f \<equiv> (key_of m ks f, f_record f)"

context node_geometry begin

lemma ks_small: "ks \<le> 504"
proof -
  have "stride \<le> per * stride" using node_fits by simp
  then show ?thesis using key_fits node_fits by linarith
qed

lemma fill_rest:
  assumes "m a = Some blk" "nodes ! i = a" "min per (n - i * per) = cnt"
    "node_part ks stride cnt nxt kps (b_bytes blk)" "length kps + length xs = cnt" "xs \<noteq> []" "kps \<noteq> []"
    "\<forall>f \<in> set xs. rec_ok m f \<and> f_record f \<noteq> a"
  shows "\<exists>g. fold (fill_step ks stride per n nodes) xs (i, length kps, m) = (i + 1, 0, set_bytes a g m) \<and>
    node_part ks stride cnt nxt (kps @ map (key_ptr m ks) xs) (g (b_bytes blk))"
  using assms
proof (induction xs arbitrary: m blk kps)
  case (Cons f fs)
  have cnt: "cnt \<le> per" using Cons.prems(3) by linarith
  let ?e = "entry_bytes stride (length kps) (key_ptr m ks f)"
  let ?m = "set_bytes a ?e m"
  have part: "node_part ks stride cnt nxt (kps @ [key_ptr m ks f]) (?e (b_bytes blk))"
    using Cons.prems ks_small by (intro entry_part cnt) (auto simp: length_key_of)
  have step: "fill_step ks stride per n nodes f (i, length kps, m) =
      (if length kps + 1 = cnt then (i + 1, 0, ?m) else (i, length kps + 1, ?m))"
    using Cons.prems(2,3,7) node_entry_set [where m = m and a = a and blk = blk, OF Cons.prems(1)] by (simp add: fill_step_def Let_def)
  show ?case
  proof (cases "fs = []")
    case True
    with step part Cons.prems(5) show ?thesis by auto
  next
    case False
    have m': "?m a = Some (blk\<lparr>b_bytes := ?e (b_bytes blk)\<rparr>)" using Cons.prems(1) by (rule set_bytes_same)
    have keys: "map (key_ptr ?m ks) fs = map (key_ptr m ks) fs" using Cons.prems(8) by (auto simp: key_of_set)
    obtain g where g: "fold (fill_step ks stride per n nodes) fs (i, length (kps @ [key_ptr m ks f]), ?m) = (i + 1, 0, set_bytes a g ?m)"
        "node_part ks stride cnt nxt ((kps @ [key_ptr m ks f]) @ map (key_ptr ?m ks) fs) (g (?e (b_bytes blk)))"
      using Cons.IH [where m = ?m and blk = "blk\<lparr>b_bytes := ?e (b_bytes blk)\<rparr>" and kps = "kps @ [key_ptr m ks f]"] m' part
        Cons.prems(2,3,5,8) False
      by (auto simp: rec_ok_set)
    have "length kps + 1 \<noteq> cnt" using Cons.prems(5) False by (cases fs) auto
    with step g(1) have "fold (fill_step ks stride per n nodes) (f # fs) (i, length kps, m) = (i + 1, 0, set_bytes a (g \<circ> ?e) m)"
      by (simp add: set_bytes_twice)
    with g(2) keys show ?thesis by (intro exI [of _ "g \<circ> ?e"]) (simp add: comp_def)
  qed
qed simp

lemma fill_chunk:
  assumes "m a = Some blk" "b_bytes blk = replicate 256 0" "nodes ! i = a" "min per (n - i * per) = length xs" "xs \<noteq> []"
    "\<forall>f \<in> set xs. rec_ok m f \<and> f_record f \<noteq> a"
    "nxt = (if i + 1 < length nodes then Some (nodes ! (i + 1)) else None)"
  shows "\<exists>g. fold (fill_step ks stride per n nodes) xs (i, 0, m) = (i + 1, 0, set_bytes a g m) \<and>
    node_part ks stride (length xs) nxt (map (key_ptr m ks) xs) (g (b_bytes blk))"
proof -
  obtain f fs where xs: "xs = f # fs" using assms(5) by (cases xs) auto
  have cnt: "length xs \<le> per" "0 < length xs" using assms(4,5) by auto
  let ?h = "header_bytes stride (length xs) nxt"
  let ?e = "entry_bytes stride 0 (key_ptr m ks f)"
  let ?m = "set_bytes a ?e (set_bytes a ?h m)"
  have mh: "set_bytes a ?h m a = Some (blk\<lparr>b_bytes := ?h (b_bytes blk)\<rparr>)" using assms(1) by (rule set_bytes_same)
  have keys: "key_ptr (set_bytes a ?h m) ks f = key_ptr m ks f" "map (key_ptr ?m ks) fs = map (key_ptr m ks) fs"
    using assms(6) by (auto simp: xs key_of_set)
  have part: "node_part ks stride (length xs) nxt [key_ptr m ks f] (?e (?h (b_bytes blk)))"
    using entry_part [OF header_part [OF cnt(2,1)], of "key_ptr m ks f" nxt] cnt assms(2,6) ks_small by (auto simp: xs length_key_of)
  have step: "fill_step ks stride per n nodes f (i, 0, m) = (if 1 = length xs then (i + 1, 0, ?m) else (i, 1, ?m))"
    unfolding fill_step_def prod.case Let_def assms(3,4) assms(7) [symmetric]
    by (simp add: node_header_set [where m = m and a = a and blk = blk, OF assms(1)]
        node_entry_set [where m = "set_bytes a ?h m" and a = a, OF mh] keys(1) [simplified])
  show ?thesis
  proof (cases "fs = []")
    case True
    with step part show ?thesis by (intro exI [of _ "?e \<circ> ?h"]) (simp add: xs set_bytes_twice)
  next
    case False
    have m': "?m a = Some (blk\<lparr>b_bytes := ?e (?h (b_bytes blk))\<rparr>)"
      using set_bytes_same [where m = "set_bytes a ?h m" and a = a and g = ?e, OF mh] by simp
    have ro: "\<forall>f \<in> set fs. rec_ok ?m f \<and> f_record f \<noteq> a" using assms(6) by (auto simp: xs rec_ok_set)
    obtain g where g: "fold (fill_step ks stride per n nodes) fs (i, 1, ?m) = (i + 1, 0, set_bytes a g ?m)"
        "node_part ks stride (length xs) nxt ([key_ptr m ks f] @ map (key_ptr ?m ks) fs) (g (?e (?h (b_bytes blk))))"
      using fill_rest [where m = ?m and a = a and kps = "[key_ptr m ks f]" and xs = fs and nxt = nxt,
          OF m' assms(3,4)] part False ro by (auto simp: xs)
    note g2 = g(2) [unfolded keys(2)]
    from step g(1) g2 False show ?thesis
      by (intro exI [of _ "g \<circ> ?e \<circ> ?h"]) (simp add: xs set_bytes_twice comp_assoc)
  qed
qed

end

section \<open>A whole bucket\<close>

function chunks :: "nat \<Rightarrow> 'a list \<Rightarrow> 'a list list" where
  "chunks n xs = (if xs = [] \<or> n = 0 then [] else take n xs # chunks n (drop n xs))"
  by pat_completeness auto
termination by (relation "measure (length \<circ> snd)") auto

declare chunks.simps [simp del]

lemma concat_chunks: "0 < n \<Longrightarrow> concat (chunks n xs) = xs"
proof (induction n xs rule: chunks.induct)
  case (1 n xs)
  then show ?case by (subst chunks.simps) auto
qed

lemma length_chunks: "0 < n \<Longrightarrow> length (chunks n xs) = (length xs + n - 1) div n"
proof (induction n xs rule: chunks.induct)
  case (1 n xs)
  show ?case
  proof (cases "xs = []")
    case False
    then have "(length xs + n - 1) div n = Suc ((length xs - 1) div n)"
      using 1(2) by (cases xs) (simp_all add: div_add_self2)
    moreover have "(length xs - 1) div n = (length xs - n + n - 1) div n"
      using False 1(2) by (cases "length xs \<le> n") (auto simp: div_less)
    ultimately show ?thesis
      using 1 False by (subst chunks.simps) simp
  qed (simp add: chunks.simps 1(2))
qed

definition fresh_node :: "memory \<Rightarrow> u64 \<Rightarrow> bool" where
  "fresh_node m a = (\<exists>blk. m a = Some blk \<and> b_node blk \<and> b_bytes blk = replicate 256 0)"

lemma node_is_cong:
  "m a = m' a \<Longrightarrow> \<forall>f \<in> set fs. m (f_record f) = m' (f_record f) \<Longrightarrow> node_is m ks stride a fs nxt = node_is m' ks stride a fs nxt"
  unfolding node_is_def node_bytes_ok_def key_of_def rec_bytes_def by (auto simp: all_set_conv_all_nth)

lemma chain_cong:
  "\<forall>a \<in> set as. m a = m' a \<Longrightarrow> \<forall>f \<in> set (concat cs). m (f_record f) = m' (f_record f) \<Longrightarrow>
   chain m ks stride per as cs = chain m' ks stride per as cs"
proof (induction m ks stride per as cs rule: chain.induct)
  case (2 m ks stride per a as c cs)
  then have "node_is m ks stride a c (head_of as) = node_is m' ks stride a c (head_of as)"
    by (intro node_is_cong) auto
  with 2 show ?case by simp
qed simp_all

lemma rec_ok_cong: "m (f_record f) = m' (f_record f) \<Longrightarrow> rec_ok m f = rec_ok m' f"
  by (simp add: rec_ok_def)

lemma head_of_drop: "head_of (drop i xs) = (if i < length xs then Some (xs ! i) else None)"
  by (auto simp: head_of_def hd_drop_conv_nth split: list.split dest: arg_cong [where f = length])
    (metis Cons_nth_drop_Suc list.inject)+

context node_geometry begin

lemma fill_all:
  assumes "length (drop i nodes) = length (chunks per fs)" "fs \<noteq> [] \<longrightarrow> n = i * per + length fs"
    "\<forall>a \<in> set (drop i nodes). fresh_node m a \<and> aligned a" "distinct (drop i nodes)"
    "\<forall>f \<in> set fs. rec_ok m f \<and> f_record f \<notin> set (drop i nodes)"
  shows "chain (snd (snd (fold (fill_step ks stride per n nodes) fs (i, 0, m)))) ks stride per (drop i nodes) (chunks per fs) \<and>
    (\<forall>a. a \<notin> set (drop i nodes) \<longrightarrow> snd (snd (fold (fill_step ks stride per n nodes) fs (i, 0, m))) a = m a) \<and>
    (\<forall>a. map_option b_seen (snd (snd (fold (fill_step ks stride per n nodes) fs (i, 0, m))) a) = map_option b_seen (m a)) \<and>
    (\<forall>a. map_option b_node (snd (snd (fold (fill_step ks stride per n nodes) fs (i, 0, m))) a) = map_option b_node (m a))"
  using assms
proof (induction "length fs" arbitrary: fs i m rule: less_induct)
  case less
  show ?case
  proof (cases "fs = []")
    case True
    with less.prems(1) show ?thesis by (simp add: chunks.simps)
  next
    case False
    let ?c = "take per fs" and ?fs = "drop per fs"
    have cs: "chunks per fs = ?c # chunks per ?fs" using False node_fits by (subst chunks.simps) simp
    then have i: "i < length nodes" using less.prems(1) by simp
    then have dr: "drop i nodes = nodes ! i # drop (Suc i) nodes" by (simp add: Cons_nth_drop_Suc)
    obtain blk where blk: "m (nodes ! i) = Some blk" "b_node blk" "b_bytes blk = replicate 256 0" "aligned (nodes ! i)"
      using less.prems(3) unfolding dr fresh_node_def by auto
    have cnt: "min per (n - i * per) = length ?c" using less.prems(2) False by simp
    have ro: "\<forall>f \<in> set ?c. rec_ok m f \<and> f_record f \<noteq> nodes ! i"
      using less.prems(5) by (auto simp: dr dest: in_set_takeD)
    have ne: "?c \<noteq> []" using False node_fits by simp
    obtain g where g: "fold (fill_step ks stride per n nodes) ?c (i, 0, m) = (i + 1, 0, set_bytes (nodes ! i) g m)"
        "node_part ks stride (length ?c) (if i + 1 < length nodes then Some (nodes ! (i + 1)) else None) (map (key_ptr m ks) ?c) (g (b_bytes blk))"
      using fill_chunk [where m = m and a = "nodes ! i" and xs = ?c, OF blk(1,3) refl cnt ne ro refl] by blast
    let ?m = "set_bytes (nodes ! i) g m"
    let ?r = "snd (snd (fold (fill_step ks stride per n nodes) ?fs (i + 1, 0, ?m)))"
    have split: "fold (fill_step ks stride per n nodes) fs (i, 0, m) = fold (fill_step ks stride per n nodes) ?fs (i + 1, 0, ?m)"
      using g(1) fold_append [of "fill_step ks stride per n nodes" ?c ?fs] by simp
    have node: "node_is ?m ks stride (nodes ! i) ?c (head_of (drop (i + 1) nodes))"
      unfolding node_is_def set_bytes_same [where m = m and a = "nodes ! i" and g = g, OF blk(1)]
      using blk(2) g(2) ro by (auto simp: head_of_drop key_of_set intro!: node_part_done cong: map_cong)
    have rest: "chain ?r ks stride per (drop (i + 1) nodes) (chunks per ?fs) \<and> (\<forall>a. a \<notin> set (drop (i + 1) nodes) \<longrightarrow> ?r a = ?m a) \<and>
        (\<forall>a. map_option b_seen (?r a) = map_option b_seen (?m a)) \<and> (\<forall>a. map_option b_node (?r a) = map_option b_node (?m a))"
    proof (rule less.hyps)
      show "length ?fs < length fs" using False node_fits by (cases fs) auto
      show "length (drop (i + 1) nodes) = length (chunks per ?fs)" using less.prems(1) cs dr by simp
      show "?fs \<noteq> [] \<longrightarrow> n = (i + 1) * per + length ?fs" using less.prems(2) False by auto
      show "\<forall>a \<in> set (drop (i + 1) nodes). fresh_node ?m a \<and> aligned a"
        using less.prems(3,4) unfolding dr by (auto simp: fresh_node_def set_bytes_def)
      show "distinct (drop (i + 1) nodes)" using less.prems(4) dr by simp
      show "\<forall>f \<in> set ?fs. rec_ok ?m f \<and> f_record f \<notin> set (drop (i + 1) nodes)"
        using less.prems(5) unfolding dr by (auto simp: rec_ok_set dest: in_set_dropD)
    qed
    have keep: "?r (nodes ! i) = ?m (nodes ! i)" "\<forall>f \<in> set ?c. ?m (f_record f) = ?r (f_record f)"
      using rest less.prems(4,5) ro by (auto simp: dr dest: in_set_takeD)
    have first: "node_is ?r ks stride (nodes ! i) ?c (head_of (drop (i + 1) nodes))"
      using node node_is_cong [of ?m "nodes ! i" ?r ?c] keep by simp
    have "length ?c \<le> per" by simp
    then have "chain ?r ks stride per (drop i nodes) (chunks per fs)"
      using first rest ne blk(4) by (simp add: dr cs)
    moreover have "\<forall>a. a \<notin> set (drop i nodes) \<longrightarrow> ?r a = m a" using rest by (auto simp: dr)
    moreover have "map_option b_seen (?m a) = map_option b_seen (m a)" "map_option b_node (?m a) = map_option b_node (m a)" for a
      by (auto simp: set_bytes_def option.map_comp comp_def)
    ultimately show ?thesis unfolding split using rest by simp
  qed
qed

end

end
