(* ===== verification/EhashOps.thy ===== *)
theory EhashOps
  imports EhashNodes
begin

text \<open>
  The operations on the hash table keep its invariant, never fail an assertion of the harness, and make
  the microcode find exactly the flows of the software index, except in buckets left to software after a
  failed rebuild.  The allocator is an interface: what it returns is fresh and aligned.
\<close>

section \<open>The allocator\<close>

locale dma_pool =
  fixes alloc :: "bool \<Rightarrow> (u64 \<Rightarrow> bool) \<Rightarrow> 'h \<Rightarrow> u64 option \<times> 'h"
  assumes fresh: "alloc node live h = (Some a, h') \<Longrightarrow> \<not> live a \<and> a \<noteq> 0 \<and> aligned a"

interpretation harness_pool: dma_pool harness_zalloc
  by unfold_locales (auto simp: harness_zalloc_def Let_def split: prod.splits if_splits)

definition alloc_map :: "bool \<Rightarrow> u64 list \<Rightarrow> memory \<Rightarrow> memory" where
  "alloc_map node as m = (\<lambda>a. if a \<in> set as
     then Some \<lparr>b_node = node, b_seen = 0, b_bytes = replicate (if node then 256 else 512) 0\<rparr> else m a)"

lemma alloc_map_Nil [simp]: "alloc_map node [] m = m" by (simp add: alloc_map_def)

lemma alloc_map_one:
  "alloc_map node [a] m = m(a \<mapsto> \<lparr>b_node = node, b_seen = 0, b_bytes = replicate (if node then 256 else 512) 0\<rparr>)"
  by (rule ext) (simp add: alloc_map_def)

lemma zalloc_spec:
  assumes "dma_pool (e_zalloc e)" "zalloc e node t = (r, t')"
  shows "case r of None \<Rightarrow> \<exists>h. t' = t\<lparr>world := h\<rparr>
    | Some a \<Rightarrow> blocks t a = None \<and> a \<noteq> 0 \<and> aligned a \<and> (\<exists>h. t' = t\<lparr>world := h, blocks := alloc_map node [a] (blocks t)\<rparr>)"
proof (cases "e_zalloc e node (\<lambda>a. blocks t a \<noteq> None) (world t)")
  case (Pair x h)
  show ?thesis
  proof (cases x)
    case None
    with assms(2) Pair show ?thesis by (auto simp: zalloc_def)
  next
    case (Some a)
    with assms(2) Pair have "r = Some a" "t' = t\<lparr>world := h, blocks := alloc_map node [a] (blocks t)\<rparr>"
      by (auto simp: zalloc_def alloc_map_one FMAN_EHASH_CU_SIZE_def FMAN_EHASH_FLOW_BLK_SIZE_def)
    moreover have "blocks t a = None \<and> a \<noteq> 0 \<and> aligned a"
      using dma_pool.fresh [OF assms(1) Pair [unfolded Some]] by simp
    ultimately show ?thesis by auto
  qed
qed

lemma alloc_nodes_spec:
  assumes "dma_pool (e_zalloc e)" "alloc_nodes e n as t = (r, t')"
  shows "\<exists>new h. distinct new \<and> (\<forall>a \<in> set new. blocks t a = None \<and> a \<noteq> 0 \<and> aligned a) \<and>
    t' = t\<lparr>world := h, blocks := alloc_map True new (blocks t)\<rparr> \<and> (r = Inr (as @ new) \<and> length new = n \<or> r = Inl (as @ new))"
  using assms(2)
proof (induction n arbitrary: as t)
  case 0
  then show ?case by (intro exI [of _ "[]"] exI [of _ "world t"]) simp
next
  case (Suc n)
  obtain x t1 where z: "zalloc e True t = (x, t1)" by fastforce
  show ?case
  proof (cases x)
    case None
    then obtain h where "t1 = t\<lparr>world := h\<rparr>" using zalloc_spec [OF assms(1) z] by auto
    moreover have "r = Inl as" "t' = t1" using Suc.prems z None by auto
    ultimately show ?thesis by (intro exI [of _ "[]"] exI [of _ h]) simp
  next
    case (Some a)
    then obtain h where a: "blocks t a = None" "a \<noteq> 0" "aligned a" "t1 = t\<lparr>world := h, blocks := alloc_map True [a] (blocks t)\<rparr>"
      using zalloc_spec [OF assms(1) z] by auto
    have "alloc_nodes e n (as @ [a]) t1 = (r, t')" using Suc.prems z Some by simp
    from Suc.IH [OF this] obtain new h' where n: "distinct new" "\<forall>b \<in> set new. blocks t1 b = None \<and> b \<noteq> 0 \<and> aligned b"
        "t' = t1\<lparr>world := h', blocks := alloc_map True new (blocks t1)\<rparr>"
        "r = Inr ((as @ [a]) @ new) \<and> length new = n \<or> r = Inl ((as @ [a]) @ new)" by blast
    have "blocks t b = None" "b \<noteq> a" if "b \<in> set new" for b
      using n(2) that by (auto simp: a(4) alloc_map_def split: if_splits)
    moreover have "alloc_map True new (alloc_map True [a] (blocks t)) = alloc_map True (a # new) (blocks t)"
      by (auto simp: alloc_map_def)
    ultimately show ?thesis using n a(1-3)
      by (intro exI [of _ "a # new"] exI [of _ h']) (auto simp: a(4))
  qed
qed

lemma free_nodes:
  assumes "\<forall>a \<in> set as. \<exists>blk. blocks t a = Some blk \<and> b_node blk \<and> (draining t \<or> b_seen blk = 0 \<or> b_seen blk < sync_mark t)" "distinct as"
  shows "foldO (dma_pool_free True) as t = Some (t\<lparr>blocks := \<lambda>a. if a \<in> set as then None else blocks t a\<rparr>)"
  using assms
proof (induction as arbitrary: t)
  case (Cons a as)
  let ?t = "t\<lparr>blocks := (blocks t)(a := None)\<rparr>"
  have "dma_pool_free True a t = Some ?t" using Cons.prems(1) by (auto simp: dma_pool_free_def assert_opt_def)
  moreover have "foldO (dma_pool_free True) as ?t = Some (?t\<lparr>blocks := \<lambda>b. if b \<in> set as then None else blocks ?t b\<rparr>)"
  proof (rule Cons.IH)
    show "\<forall>b \<in> set as. \<exists>blk. blocks ?t b = Some blk \<and> b_node blk \<and> (draining ?t \<or> b_seen blk = 0 \<or> b_seen blk < sync_mark ?t)"
    proof
      fix b assume "b \<in> set as"
      moreover from this have "b \<noteq> a" using Cons.prems(2) by auto
      ultimately show "\<exists>blk. blocks ?t b = Some blk \<and> b_node blk \<and> (draining ?t \<or> b_seen blk = 0 \<or> b_seen blk < sync_mark ?t)"
        using Cons.prems(1) by simp
    qed
    show "distinct as" using Cons.prems(2) by simp
  qed
  moreover have "(\<lambda>b. if b \<in> set as then None else blocks ?t b) = (\<lambda>b. if b \<in> set (a # as) then None else blocks t b)"
    by (rule ext) simp
  ultimately show ?case by simp
qed simp

section \<open>SYNC\<close>

text \<open>The part of the state that the hardware and the software index see.\<close>

definition core :: "'h ehash \<Rightarrow> _" where
  "core t = (t_key_size t, t_hash_mask t, t_has_fman t, t_heads t, t_cu t, t_bidx t, t_flows t, blocks t, head_writes t, draining t)"

lemma core_fields:
  "core t = core t' \<Longrightarrow> t_key_size t = t_key_size t' \<and> t_hash_mask t = t_hash_mask t' \<and> t_has_fman t = t_has_fman t' \<and>
     t_heads t = t_heads t' \<and> t_cu t = t_cu t' \<and> t_bidx t = t_bidx t' \<and> t_flows t = t_flows t' \<and> blocks t = blocks t' \<and>
     head_writes t = head_writes t' \<and> draining t = draining t'"
  by (simp add: core_def)

lemma sync_poll_spec:
  "sync_poll e n v t = (v', t') \<Longrightarrow> core t' = core t \<and> barrier t' = barrier t \<and> syncs t' = syncs t \<and> warnings t' = warnings t \<and>
     reads t' \<le> reads t + n \<and> (and v' INV0 = 0 \<longrightarrow> n = 0 \<or> sync_mark t' = head_writes t)"
proof (induction e n v t rule: sync_poll.induct)
  case (2 e n v t)
  obtain w t1 where g: "get_fpm_extc e t = (w, t1)" by fastforce
  then have t1: "core t1 = core t" "barrier t1 = barrier t" "syncs t1 = syncs t" "warnings t1 = warnings t" "reads t1 = reads t + 1"
      "and w INV0 = 0 \<longrightarrow> sync_mark t1 = head_writes t"
    by (auto simp: get_fpm_extc_def Let_def core_def split: prod.splits if_splits)
  show ?case
  proof (cases "and w INV0 = 0")
    case True
    with 2(2) g t1 show ?thesis by auto
  next
    case False
    with 2 g have "sync_poll e n w t1 = (v', t')" by simp
    with False 2(1) [OF g [symmetric] refl] t1 show ?thesis
      by (cases n) (auto dest: core_fields)
  qed
qed simp

lemma sync_tries_spec:
  "\<exists>r t'. sync_tries e attempt n v t = Some (r, t') \<and> core t' = core t \<and> warnings t' = warnings t \<and> (r \<longrightarrow> sync_mark t' = head_writes t)"
proof (induction n arbitrary: attempt v t)
  case (Suc n)
  let ?t = "t\<lparr>barrier := False, syncs := syncs t + 1, world := e_set_extc e INV0 (world t)\<rparr>"
  obtain w t1 where p: "sync_poll e 100000 v ?t = (w, t1)" by fastforce
  have t1: "core t1 = core t" "warnings t1 = warnings t" "and w INV0 = 0 \<longrightarrow> sync_mark t1 = head_writes t"
    using sync_poll_spec [OF p] by (auto simp: core_def)
  have set: "set_fpm_extc e INV0 (t\<lparr>barrier := True\<rparr>) = Some ?t" by (simp add: set_fpm_extc_def assert_opt_def)
  show ?case
  proof (cases "and w INV0 = 0")
    case True
    with p set t1 show ?thesis by (auto simp: core_def)
  next
    case False
    let ?t2 = "t1\<lparr>sync_timeouts := sync_timeouts t1 + 1\<rparr>"
    have "core ?t2 = core t" "warnings ?t2 = warnings t" "head_writes ?t2 = head_writes t"
      using t1 by (auto simp: core_def)
    with Suc.IH [of "attempt + 1" w ?t2] False p set show ?thesis by auto
  qed
qed (auto simp: core_def)

lemma ehash_sync_spec:
  assumes "t_has_fman t"
  obtains r t' where "ehash_sync e t = Some (r, t')" "core t' = core t" "r \<longrightarrow> sync_mark t' = head_writes t"
  using sync_tries_spec [of e 0 FMAN_EHASH_SYNC_TRIES 0 t] assms by (auto simp: ehash_sync_def)

section \<open>What the hardware reads\<close>

text \<open>The walk does not look at the stamps, only at pools and bytes.\<close>

definition block_content :: "memory \<Rightarrow> u64 \<Rightarrow> (bool \<times> byte list) option" where
  "block_content m a = map_option (\<lambda>b. (b_node b, b_bytes b)) (m a)"

lemma content_Some:
  "block_content m a = block_content m' a \<Longrightarrow> m a = Some blk \<Longrightarrow> \<exists>blk'. m' a = Some blk' \<and> b_node blk' = b_node blk \<and> b_bytes blk' = b_bytes blk"
  by (cases "m' a") (auto simp: block_content_def)

lemma content_bytes: "block_content m a = block_content m' a \<Longrightarrow> rec_bytes m a = rec_bytes m' a"
  by (cases "m a"; cases "m' a") (simp_all add: block_content_def rec_bytes_def)

lemma content_key: "block_content m (f_record f) = block_content m' (f_record f) \<Longrightarrow> key_of m ks f = key_of m' ks f"
  unfolding key_of_def by (drule content_bytes) simp

lemma content_rec: "block_content m (f_record f) = block_content m' (f_record f) \<Longrightarrow> rec_ok m f \<Longrightarrow> rec_ok m' f"
  by (auto simp: rec_ok_def dest: content_Some)

lemma content_node:
  assumes "block_content m a = block_content m' a" "\<forall>f \<in> set fs. block_content m (f_record f) = block_content m' (f_record f)"
    "node_is m ks stride a fs nxt"
  shows "node_is m' ks stride a fs nxt"
proof -
  have "\<forall>i < length fs. key_of m ks (fs ! i) = key_of m' ks (fs ! i)" using assms(2) by (auto intro: content_key)
  moreover obtain blk where "m a = Some blk" "b_node blk" "node_bytes_ok m ks stride fs nxt (b_bytes blk)"
    using assms(3) by (auto simp: node_is_def)
  moreover from this(1,2) obtain blk' where "m' a = Some blk'" "b_node blk'" "b_bytes blk' = b_bytes blk"
    using content_Some [OF assms(1)] by auto
  ultimately show ?thesis by (auto simp: node_is_def node_bytes_ok_def)
qed

lemma content_chain:
  "\<forall>a \<in> set as. block_content m a = block_content m' a \<Longrightarrow> \<forall>f \<in> set (concat cs). block_content m (f_record f) = block_content m' (f_record f) \<Longrightarrow>
   chain m ks stride per as cs \<Longrightarrow> chain m' ks stride per as cs"
proof (induction m ks stride per as cs rule: chain.induct)
  case (2 m ks stride per a as c cs)
  then have "node_is m' ks stride a c (head_of as)" using content_node [of m a m' c] by auto
  with 2 show ?case by simp
qed simp_all

text \<open>What a bucket head and its list of nodes must be for the flows \<open>fs\<close>.\<close>

definition bucket_ok :: "memory \<Rightarrow> nat \<Rightarrow> flow list \<Rightarrow> u64 \<Rightarrow> u64 list option \<Rightarrow> bool" where
  "bucket_ok m ks fs h cu =
     (if length fs = 0 then h = 0 \<and> cu = None
      else if length fs = 1 then h = swab64 (f_record (hd fs)) \<and> cu = None
      else (\<exists>as. cu = Some as \<and> h = swab64 (hd as) \<and> distinct as \<and> 0 \<notin> set as \<and>
        chain m ks (cu_stride ks) (per_node ks) as (chunks (per_node ks) fs)))"

definition nodes_of :: "u64 list option \<Rightarrow> u64 list" where
  "nodes_of cu = (case cu of None \<Rightarrow> [] | Some as \<Rightarrow> as)"

lemma nodes_of_simps [simp]: "nodes_of None = []" "nodes_of (Some as) = as"
  by (simp_all add: nodes_of_def)

lemma bucket_content:
  assumes "bucket_ok m ks fs h cu" "\<forall>a \<in> f_record ` set fs \<union> set (nodes_of cu). block_content m a = block_content m' a" "0 < per_node ks"
  shows "bucket_ok m' ks fs h cu"
  using assms content_chain [where m = m and m' = m' and cs = "chunks (per_node ks) fs"]
  by (auto simp: bucket_ok_def concat_chunks split: if_splits)

lemma set_visits: "chain m ks stride per as cs \<Longrightarrow> set (visits as cs) = set as \<union> f_record ` set (concat cs)"
  by (induction m ks stride per as cs rule: chain.induct) auto

definition walk_head :: "memory \<Rightarrow> nat \<Rightarrow> u64 \<Rightarrow> byte list option \<Rightarrow> (u64 option \<times> u64 list) option" where
  "walk_head m ks h key = (if h = 0 then Some (None, []) else walk_from m ks key (swab64 h) (None, []))"

lemma walk_walk_head: "walk_bucket t b key = walk_head (blocks t) (t_key_size t) (t_heads t b) key"
  by (simp add: walk_bucket_def walk_head_def)

lemma bucket_walk:
  assumes "bucket_ok m ks fs h cu" "\<forall>f \<in> set fs. rec_ok m f" "0 < ks" "ks \<le> 56"
  obtains touched where "walk_head m ks h key = Some (first_match m ks key fs None, touched)"
    "set touched = f_record ` set fs \<union> set (nodes_of cu)"
proof -
  note geo = geometry [OF assms(3,4)]
  note node_fits = node_geometry.node_fits [OF geo]
  show ?thesis
  proof (cases "length fs = 0 \<or> length fs = 1")
    case True
    then consider "fs = []" | f where "fs = [f]" by (cases fs) auto
    then show ?thesis
    proof cases
      case 1
      with assms(1) show ?thesis by (intro that [of "[]"]) (auto simp: bucket_ok_def walk_head_def)
    next
      case 2
      then obtain blk where b: "m (f_record f) = Some blk" "\<not> b_node blk" "aligned (f_record f)" "f_record f \<noteq> 0" "b_bytes blk ! 0 = 0"
        using assms(2) by (auto simp: rec_ok_def)
      moreover have "h = swab64 (f_record f)" "cu = None" using assms(1) 2 by (auto simp: bucket_ok_def)
      moreover have "key_of m ks f = rec_key ks (b_bytes blk)" using b(1) by (simp add: key_of_def rec_bytes_def)
      ultimately show ?thesis
        using 2 by (intro that [of "[f_record f]"]) (auto simp: walk_head_def walk_from.simps assert_opt_def first_match_def)
    qed
  next
    case False
    then obtain as where a: "cu = Some as" "h = swab64 (hd as)" "0 \<notin> set as"
        "chain m ks (cu_stride ks) (per_node ks) as (chunks (per_node ks) fs)"
      using assms(1) by (auto simp: bucket_ok_def)
    have "fs \<noteq> []" using False by auto
    then obtain c cs where cs: "chunks (per_node ks) fs = c # cs"
      using node_fits(1) chunks.simps [of "per_node ks" fs] by auto
    with a(4) obtain b bs where as: "as = b # bs" by (cases as) auto
    have con: "concat (c # cs) = fs" using concat_chunks [OF node_fits(1), of fs] cs by simp
    have "walk_from m ks key b (None, []) = Some (first_match m ks key (concat (c # cs)) None, [] @ visits (b # bs) (c # cs))"
      using a(4) assms(2) con unfolding as cs by (intro node_geometry.walk_chain [OF geo]) auto
    then have "walk_from m ks key b (None, []) = Some (first_match m ks key fs None, visits as (c # cs))"
      unfolding con as by simp
    moreover have "set (visits as (c # cs)) = f_record ` set fs \<union> set as"
      using set_visits [OF a(4)] unfolding cs con by blast
    moreover have "swab64 h = b" "h \<noteq> 0" using a(2,3) as by auto
    ultimately show ?thesis using a(1) by (intro that) (simp_all add: walk_head_def)
  qed
qed

section \<open>The head store\<close>

text \<open>The head \<open>h\<close> leads the walker through blocks of \<open>S\<close> only, and it comes back.\<close>

definition hw_reads :: "memory \<Rightarrow> nat \<Rightarrow> u64 set \<Rightarrow> u64 \<Rightarrow> bool" where
  "hw_reads m ks S h = (\<exists>fs cu. bucket_ok m ks fs h cu \<and> (\<forall>f \<in> set fs. rec_ok m f) \<and>
     f_record ` set fs \<union> set (nodes_of cu) \<subseteq> S)"

lemma hw_reads_0 [simp]: "hw_reads m ks S 0"
  unfolding hw_reads_def by (rule exI [of _ "[]"], rule exI [of _ None]) (simp add: bucket_ok_def)

lemma hw_reads_content:
  assumes "hw_reads m ks S h" "\<forall>a \<in> S. block_content m' a = block_content m a" "0 < ks" "ks \<le> 56" "S \<subseteq> S'"
  shows "hw_reads m' ks S' h"
proof -
  note geo = geometry [OF assms(3,4)]
  note node_fits = node_geometry.node_fits [OF geo]
  obtain fs cu where b: "bucket_ok m ks fs h cu" "\<forall>f \<in> set fs. rec_ok m f" "f_record ` set fs \<union> set (nodes_of cu) \<subseteq> S"
    using assms(1) by (auto simp: hw_reads_def)
  have "bucket_ok m' ks fs h cu" using b assms(2) node_fits(1) by (intro bucket_content [OF b(1)]) auto
  moreover have "\<forall>f \<in> set fs. rec_ok m' f" using b(2,3) assms(2) content_rec [of m _ m'] by auto
  ultimately show ?thesis using b(3) assms(5) unfolding hw_reads_def by blast
qed

lemma stamp_content: "block_content (stamp w touched m) a = block_content m a"
  by (simp add: stamp_def block_content_def option.map_comp comp_def)

lemma stamp_buckets:
  assumes "0 < t_key_size t" "t_key_size t \<le> 56" "\<forall>b \<in> set bs. hw_reads (blocks t) (t_key_size t) S (t_heads t b)"
  shows "\<exists>m. foldO stamp_bucket bs t = Some (t\<lparr>blocks := m\<rparr>) \<and> (\<forall>a. block_content m a = block_content (blocks t) a) \<and>
    (\<forall>a. a \<notin> S \<longrightarrow> m a = blocks t a) \<and>
    (\<forall>a blk. m a = Some blk \<longrightarrow> b_seen blk = head_writes t \<or> blocks t a = Some blk)"
  using assms
proof (induction bs arbitrary: t)
  case (Cons b bs)
  let ?ks = "t_key_size t"
  obtain fs cu where b: "bucket_ok (blocks t) ?ks fs (t_heads t b) cu" "\<forall>f \<in> set fs. rec_ok (blocks t) f"
      "f_record ` set fs \<union> set (nodes_of cu) \<subseteq> S"
    using Cons.prems(3) by (auto simp: hw_reads_def)
  obtain hit touched where w: "walk_bucket t b None = Some (hit, touched)" "set touched \<subseteq> S"
    using bucket_walk [OF b(1,2) Cons.prems(1,2), of None] b(3) unfolding walk_walk_head by metis
  let ?m = "stamp (head_writes t) touched (blocks t)"
  let ?t = "t\<lparr>blocks := ?m\<rparr>"
  have one: "stamp_bucket b t = Some ?t" by (simp add: stamp_bucket_def w(1))
  have "\<forall>c \<in> set bs. hw_reads (blocks ?t) (t_key_size ?t) S (t_heads ?t c)"
  proof
    fix c assume "c \<in> set bs"
    then show "hw_reads (blocks ?t) (t_key_size ?t) S (t_heads ?t c)"
      using hw_reads_content [of "blocks t" ?ks S "t_heads t c" ?m S] Cons.prems by (simp add: stamp_content)
  qed
  with Cons.IH [of ?t] Cons.prems(1,2) obtain m where m: "foldO stamp_bucket bs ?t = Some (?t\<lparr>blocks := m\<rparr>)"
      "\<forall>a. block_content m a = block_content ?m a" "\<forall>a. a \<notin> S \<longrightarrow> m a = ?m a"
      "\<forall>a blk. m a = Some blk \<longrightarrow> b_seen blk = head_writes t \<or> ?m a = Some blk" by auto
  have "\<forall>a. a \<notin> S \<longrightarrow> m a = blocks t a" using m(3) w(2) by (auto simp: stamp_def)
  moreover have "b_seen blk = head_writes t \<or> blocks t a = Some blk" if "m a = Some blk" for a blk
  proof -
    have "b_seen blk = head_writes t \<or> ?m a = Some blk" using m(4) that by blast
    then show ?thesis by (auto simp: stamp_def split: if_splits)
  qed
  ultimately show ?case using one m(1,2) by (intro exI [of _ m]) (simp add: stamp_content)
next
  case Nil
  then show ?case by (intro exI [of _ "blocks t"]) simp
qed

lemma head_store_spec:
  assumes "0 < t_key_size t" "t_key_size t \<le> 56" "v = 0 \<or> wmb_pending t"
    "\<forall>c \<le> t_hash_mask t. hw_reads (blocks t) (t_key_size t) S (if c = b then v else t_heads t c)"
  obtains m where "head_store b v t =
      Some (t\<lparr>wmb_pending := False, t_heads := (t_heads t)(b := v), head_writes := head_writes t + 1, blocks := m\<rparr>)"
    "\<forall>a. block_content m a = block_content (blocks t) a" "\<forall>a. a \<notin> S \<longrightarrow> m a = blocks t a"
    "\<forall>a blk. m a = Some blk \<longrightarrow> b_seen blk = head_writes t + 1 \<or> blocks t a = Some blk"
proof -
  let ?t = "t\<lparr>wmb_pending := False, t_heads := (t_heads t)(b := v), head_writes := head_writes t + 1\<rparr>"
  have "\<forall>c \<in> set [0..<t_hash_mask t + 1]. hw_reads (blocks ?t) (t_key_size ?t) S (t_heads ?t c)"
    using assms(4) by auto
  with stamp_buckets [of ?t "[0..<t_hash_mask t + 1]" S] assms(1,2)
  obtain m where "foldO stamp_bucket [0..<t_hash_mask t + 1] ?t = Some (?t\<lparr>blocks := m\<rparr>)"
    "\<forall>a. block_content m a = block_content (blocks t) a" "\<forall>a. a \<notin> S \<longrightarrow> m a = blocks t a"
    "\<forall>a blk. m a = Some blk \<longrightarrow> b_seen blk = head_writes t + 1 \<or> blocks t a = Some blk"
    by auto
  with assms(3) that show thesis by (auto simp: head_store_def assert_opt_def)
qed

section \<open>Publishing a bucket\<close>

text \<open>
  What a head store in bucket \<open>idx\<close> leaves: its head \<open>h\<close> and nodes \<open>cu\<close> hold the flows \<open>fs\<close>, or nothing when
  the bucket is left to software (\<open>\<not> hw\<close>).
\<close>

definition published ::
  "bool \<Rightarrow> 'h ehash \<Rightarrow> nat \<Rightarrow> flow list \<Rightarrow> u64 set \<Rightarrow> 'h ehash \<Rightarrow> bool" where
  "published hw t idx fs S t' = (\<exists>m h cu.
     core t' = core (t\<lparr>t_heads := (t_heads t)(idx := h), t_cu := (t_cu t)(idx := cu), head_writes := head_writes t + 1, blocks := m\<rparr>) \<and>
     (if hw then bucket_ok m (t_key_size t) fs h cu else h = 0 \<and> cu = None) \<and>
     (\<forall>a \<in> set (nodes_of cu). blocks t a = None) \<and>
     (\<forall>a. a \<notin> set (nodes_of cu) \<longrightarrow> block_content m a = block_content (blocks t) a) \<and>
     (\<forall>a. a \<notin> S \<union> f_record ` set fs \<union> set (nodes_of cu) \<longrightarrow> m a = blocks t a) \<and>
     (\<forall>a blk. m a = Some blk \<longrightarrow> b_seen blk \<in> {0, head_writes t + 1} \<or> blocks t a = Some blk))"

lemma switch_spec:
  assumes "0 < t_key_size t" "t_key_size t \<le> 56"
    "\<forall>c \<le> t_hash_mask t. c \<noteq> idx \<longrightarrow> hw_reads (blocks t) (t_key_size t) S (t_heads t c)"
    "bucket_ok (blocks t) (t_key_size t) fs h cu" "\<forall>f \<in> set fs. rec_ok (blocks t) f"
    "S' = S \<union> f_record ` set fs \<union> set (nodes_of cu)"
  shows "\<exists>t' m. do { t1 \<leftarrow> head_store idx h (t\<lparr>wmb_pending := True\<rparr>); Some ((0, t_cu t1 idx), t1\<lparr>t_cu := (t_cu t1)(idx := cu)\<rparr>) } =
      Some ((0, t_cu t idx), t') \<and>
    core t' = core (t\<lparr>t_heads := (t_heads t)(idx := h), t_cu := (t_cu t)(idx := cu), head_writes := head_writes t + 1, blocks := m\<rparr>) \<and>
    (\<forall>a. block_content m a = block_content (blocks t) a) \<and> (\<forall>a. a \<notin> S' \<longrightarrow> m a = blocks t a) \<and>
    (\<forall>a blk. m a = Some blk \<longrightarrow> b_seen blk = head_writes t + 1 \<or> blocks t a = Some blk)"
proof -
  let ?t = "t\<lparr>wmb_pending := True\<rparr>"
  have "hw_reads (blocks t) (t_key_size t) S' h"
    using assms(4,5,6) unfolding hw_reads_def by blast
  moreover have "hw_reads (blocks t) (t_key_size t) S' (t_heads t c)" if "c \<le> t_hash_mask t" "c \<noteq> idx" for c
    using hw_reads_content [of "blocks t" _ S _ "blocks t" S'] assms(1,2,3,6) that by auto
  ultimately have "\<forall>c \<le> t_hash_mask ?t. hw_reads (blocks ?t) (t_key_size ?t) S' (if c = idx then h else t_heads ?t c)" by simp
  from head_store_spec [OF _ _ _ this] assms(1,2) obtain m where m: "head_store idx h ?t =
      Some (?t\<lparr>wmb_pending := False, t_heads := (t_heads ?t)(idx := h), head_writes := head_writes ?t + 1, blocks := m\<rparr>)"
    "\<forall>a. block_content m a = block_content (blocks ?t) a" "\<forall>a. a \<notin> S' \<longrightarrow> m a = blocks ?t a"
    "\<forall>a blk. m a = Some blk \<longrightarrow> b_seen blk = head_writes ?t + 1 \<or> blocks ?t a = Some blk"
    by auto
  then show ?thesis by (intro exI [of _ "?t\<lparr>wmb_pending := False, t_heads := (t_heads t)(idx := h), head_writes := head_writes t + 1,
      blocks := m, t_cu := (t_cu t)(idx := cu)\<rparr>"] exI [of _ m]) (simp add: core_def)
qed

lemma publish_spec:
  assumes pool: "dma_pool (e_zalloc e)" and ks: "0 < t_key_size t" "t_key_size t \<le> 56"
    and fs: "fs = filter (\<lambda>f. Some f \<noteq> skip) (t_bidx t idx)" "\<forall>f \<in> set fs. rec_ok (blocks t) f"
    and others: "\<forall>c \<le> t_hash_mask t. c \<noteq> idx \<longrightarrow> hw_reads (blocks t) (t_key_size t) S (t_heads t c)"
    and live: "\<forall>a \<in> S. blocks t a \<noteq> None"
  shows "(\<exists>t'. bucket_publish e idx skip t = Some ((0, t_cu t idx), t') \<and> published True t idx fs S t') \<or>
    (\<exists>t'. bucket_publish e idx skip t = Some ((- ENOMEM, None), t') \<and> core t' = core t \<and> 1 < length fs)"
proof -
  let ?ks = "t_key_size t"
  let ?per = "per_node ?ks"
  note geo = geometry [OF ks]
  note node_fits = node_geometry.node_fits [OF geo]
  have few: "?thesis" if b: "bucket_ok (blocks t) ?ks fs h None" and eq: "bucket_publish e idx skip t =
      do { t1 \<leftarrow> head_store idx h (t\<lparr>wmb_pending := True\<rparr>); Some ((0, t_cu t1 idx), t1\<lparr>t_cu := (t_cu t1)(idx := None)\<rparr>) }" for h
  proof -
    obtain t' m where "bucket_publish e idx skip t = Some ((0, t_cu t idx), t')"
      "core t' = core (t\<lparr>t_heads := (t_heads t)(idx := h), t_cu := (t_cu t)(idx := None), head_writes := head_writes t + 1, blocks := m\<rparr>)"
      and m: "\<forall>a. block_content m a = block_content (blocks t) a" "\<forall>a. a \<notin> S \<union> f_record ` set fs \<longrightarrow> m a = blocks t a"
      "\<forall>a blk. m a = Some blk \<longrightarrow> b_seen blk = head_writes t + 1 \<or> blocks t a = Some blk"
      using switch_spec [OF ks others b fs(2) refl] unfolding eq by auto
    moreover have "bucket_ok m ?ks fs h None" using bucket_content [OF b] m(1) node_fits(1) by simp
    ultimately have "published True t idx fs S t'"
      unfolding published_def by (intro exI [of _ m] exI [of _ h] exI [of _ None]) auto
    then show ?thesis using \<open>bucket_publish e idx skip t = Some ((0, t_cu t idx), t')\<close> by blast
  qed
  consider "length fs = 0" | "length fs = 1" | "1 < length fs" by linarith
  then show ?thesis
  proof cases
    case 1
    then show ?thesis
      by (intro few [of 0]) (simp_all add: bucket_ok_def bucket_publish_def Let_def fs(1) [symmetric])
  next
    case 2
    then show ?thesis
      by (intro few [of "swab64 (f_record (hd fs))"]) (simp_all add: bucket_ok_def bucket_publish_def Let_def fs(1) [symmetric])
  next
    case 3
    define nodes where "nodes = (length fs + ?per - 1) div ?per"
    obtain ok h1 where kz: "e_kzalloc e (world t) = (ok, h1)" by fastforce
    let ?t1 = "t\<lparr>world := h1\<rparr>"
    have pub: "bucket_publish e idx skip t =
        (if \<not> ok then Some ((- ENOMEM, None), ?t1)
         else case alloc_nodes e nodes [] ?t1 of
           (Inl as, t2) \<Rightarrow> Option.bind (cu_free (Some as) t2) (\<lambda>t3. Some ((- ENOMEM, None), t3))
         | (Inr as, t2) \<Rightarrow>
             let m = snd (snd (fold (fill_step (t_key_size t2) (cu_stride ?ks) ?per (length fs) as) fs (0, 0, blocks t2)))
             in do { t1 \<leftarrow> head_store idx (swab64 (hd as)) (t2\<lparr>blocks := m, wmb_pending := True\<rparr>);
                     Some ((0, t_cu t1 idx), t1\<lparr>t_cu := (t_cu t1)(idx := Some as)\<rparr>) })"
      using 3 kz by (simp add: bucket_publish_def Let_def fs(1) [symmetric] nodes_def per_node_def split: sum.splits prod.splits)
    show ?thesis
    proof (cases ok)
      case False
      with 3 show ?thesis by (simp add: pub core_def)
    next
      case True
      obtain r t2 where al: "alloc_nodes e nodes [] ?t1 = (r, t2)" by fastforce
      from alloc_nodes_spec [OF pool al] obtain new h2 where new: "distinct new"
          "\<forall>a \<in> set new. blocks t a = None \<and> a \<noteq> 0 \<and> aligned a"
          "t2 = t\<lparr>world := h2, blocks := alloc_map True new (blocks t)\<rparr>" "r = Inr new \<and> length new = nodes \<or> r = Inl new"
        by auto
      show ?thesis
      proof (cases r)
        case (Inl as)
        then have as: "as = new" using new(4) by auto
        have "foldO (dma_pool_free True) new t2 = Some (t2\<lparr>blocks := \<lambda>a. if a \<in> set new then None else blocks t2 a\<rparr>)"
          by (rule free_nodes) (auto simp: new(1,3) alloc_map_def)
        moreover have "(\<lambda>a. if a \<in> set new then None else blocks t2 a) = blocks t"
          using new(2) by (auto simp: new(3) alloc_map_def)
        ultimately have "bucket_publish e idx skip t = Some ((- ENOMEM, None), kfree (t2\<lparr>blocks := blocks t\<rparr>))"
          using True al Inl by (simp add: pub as cu_free_def)
        moreover have "core (kfree (t2\<lparr>blocks := blocks t\<rparr>)) = core t" by (simp add: core_def kfree_def new(3))
        ultimately show ?thesis using 3 by blast
      next
        case (Inr as)
        then have as: "as = new" "length new = nodes" using new(4) by auto
        let ?m0 = "blocks t2"
        define m1 where "m1 = snd (snd (fold (fill_step ?ks (cu_stride ?ks) ?per (length fs) new) fs (0, 0, ?m0)))"
        have m0: "?m0 = alloc_map True new (blocks t)" by (simp add: new(3))
        have recs: "\<forall>f \<in> set fs. rec_ok ?m0 f \<and> f_record f \<notin> set new"
        proof
          fix f assume f: "f \<in> set fs"
          then have "blocks t (f_record f) \<noteq> None" using fs(2) by (auto simp: rec_ok_def)
          then have "f_record f \<notin> set new" using new(2) by auto
          then show "rec_ok ?m0 f \<and> f_record f \<notin> set new" using f fs(2) by (auto simp: m0 alloc_map_def rec_ok_def)
        qed
        have "length new = length (chunks ?per fs)" using as(2) length_chunks [OF node_fits(1), of fs] by (simp add: nodes_def)
        moreover have "\<forall>a \<in> set new. fresh_node ?m0 a \<and> aligned a" using new(2) by (auto simp: fresh_node_def m0 alloc_map_def)
        ultimately have fill: "chain m1 ?ks (cu_stride ?ks) ?per new (chunks ?per fs)" "\<forall>a. a \<notin> set new \<longrightarrow> m1 a = ?m0 a"
            "\<forall>a. map_option b_seen (m1 a) = map_option b_seen (?m0 a)"
          using node_geometry.fill_all [OF geo, of 0 new fs "length fs" ?m0] new(1) recs unfolding m1_def by auto
        have m1: "m1 a = blocks t a" if "a \<notin> set new" for a using fill(2) that by (simp add: m0 alloc_map_def)
        let ?t3 = "t2\<lparr>blocks := m1\<rparr>"
        have b: "bucket_ok m1 ?ks fs (swab64 (hd new)) (Some new)"
          using 3 new(1,2) fill(1) by (auto simp: bucket_ok_def)
        have "\<forall>c \<le> t_hash_mask ?t3. c \<noteq> idx \<longrightarrow> hw_reads (blocks ?t3) (t_key_size ?t3) S (t_heads ?t3 c)"
        proof (intro allI impI)
          fix c assume "c \<le> t_hash_mask ?t3" "c \<noteq> idx"
          then have "hw_reads (blocks t) ?ks S (t_heads t c)" using others by (simp add: new(3))
          moreover have "\<forall>a \<in> S. block_content m1 a = block_content (blocks t) a"
            using m1 live new(2) by (metis block_content_def)
          ultimately show "hw_reads (blocks ?t3) (t_key_size ?t3) S (t_heads ?t3 c)"
            using ks by (auto simp: new(3) intro: hw_reads_content)
        qed
        moreover have "\<forall>f \<in> set fs. rec_ok (blocks ?t3) f" using recs fill(2) by (auto simp: rec_ok_def)
        ultimately obtain t' m where sw: "do { t1 \<leftarrow> head_store idx (swab64 (hd new)) (?t3\<lparr>wmb_pending := True\<rparr>);
              Some ((0 :: int, t_cu t1 idx), t1\<lparr>t_cu := (t_cu t1)(idx := Some new)\<rparr>) } = Some ((0, t_cu ?t3 idx), t')"
            "core t' = core (?t3\<lparr>t_heads := (t_heads ?t3)(idx := swab64 (hd new)), t_cu := (t_cu ?t3)(idx := Some new), head_writes := head_writes ?t3 + 1, blocks := m\<rparr>)"
            "\<forall>a. block_content m a = block_content (blocks ?t3) a" "\<forall>a. a \<notin> S \<union> f_record ` set fs \<union> set new \<longrightarrow> m a = blocks ?t3 a"
            "\<forall>a blk. m a = Some blk \<longrightarrow> b_seen blk = head_writes ?t3 + 1 \<or> blocks ?t3 a = Some blk"
          using switch_spec [of ?t3 idx S fs "swab64 (hd new)" "Some new"] ks b by (auto simp: new(3))
        have "bucket_publish e idx skip t = Some ((0, t_cu t idx), t')"
          using True al Inr sw(1) by (simp add: pub as m1_def new(3) Let_def)
        moreover have "published True t idx fs S t'"
          unfolding published_def
        proof (intro exI conjI)
          show "core t' = core (t\<lparr>t_heads := (t_heads t)(idx := swab64 (hd new)), t_cu := (t_cu t)(idx := Some new), head_writes := head_writes t + 1, blocks := m\<rparr>)"
            using sw(2) by (simp add: core_def new(3))
          show "if True then bucket_ok m ?ks fs (swab64 (hd new)) (Some new) else swab64 (hd new) = 0 \<and> Some new = None"
            using bucket_content [OF b] sw(3) node_fits(1) by simp
          show "\<forall>a \<in> set (nodes_of (Some new)). blocks t a = None" using new(2) by simp
          show "\<forall>a. a \<notin> set (nodes_of (Some new)) \<longrightarrow> block_content m a = block_content (blocks t) a"
            using sw(3) m1 by (auto simp: block_content_def)
          show "\<forall>a. a \<notin> S \<union> f_record ` set fs \<union> set (nodes_of (Some new)) \<longrightarrow> m a = blocks t a" using sw(4) m1 by simp
          have "b_seen blk = 0 \<or> blocks t a = Some blk" if "m1 a = Some blk" for a blk
          proof (cases "a \<in> set new")
            case True
            then have "map_option b_seen (m1 a) = Some 0" using fill(3) by (simp add: m0 alloc_map_def)
            then show ?thesis using that by simp
          qed (use that m1 in auto)
          then show "\<forall>a blk. m a = Some blk \<longrightarrow> b_seen blk \<in> {0, head_writes t + 1} \<or> blocks t a = Some blk"
            using sw(5) by (simp add: new(3)) blast
        qed
        ultimately show ?thesis by blast
      qed
    qed
  qed
qed

section \<open>The invariant\<close>

definition in_hw :: "'h ehash \<Rightarrow> nat \<Rightarrow> bool" where
  "in_hw t b = bucket_ok (blocks t) (t_key_size t) (t_bidx t b) (t_heads t b) (t_cu t b)"

definition owned :: "'h ehash \<Rightarrow> nat \<Rightarrow> u64 set" where
  "owned t b = f_record ` set (t_bidx t b) \<union> set (nodes_of (t_cu t b))"

definition entry_ok :: "'h ehash \<Rightarrow> nat \<Rightarrow> bool" where
  "entry_ok t b = ((in_hw t b \<or> t_heads t b = 0 \<and> t_cu t b = None) \<and> distinct (map f_record (t_bidx t b)) \<and>
     (\<forall>f \<in> set (t_bidx t b). rec_ok (blocks t) f \<and> f_index f = b \<and> f_key_size f = t_key_size t))"

definition table_ok :: "'h ehash \<Rightarrow> bool" where
  "table_ok t = (0 < t_key_size t \<and> t_key_size t \<le> 56 \<and> t_has_fman t \<and>
     (\<forall>b \<le> t_hash_mask t. entry_ok t b) \<and>
     (\<forall>b \<le> t_hash_mask t. \<forall>c \<le> t_hash_mask t. b \<noteq> c \<longrightarrow> owned t b \<inter> owned t c = {}) \<and>
     (\<forall>a blk. blocks t a = Some blk \<longrightarrow> b_seen blk \<le> head_writes t) \<and>
     distinct (t_flows t) \<and> set (t_flows t) = (\<Union>b \<le> t_hash_mask t. set (t_bidx t b)))"

lemma core_in_hw: "core t = core t' \<Longrightarrow> in_hw t b = in_hw t' b"
  and core_owned: "core t = core t' \<Longrightarrow> owned t b = owned t' b"
  and core_entry: "core t = core t' \<Longrightarrow> entry_ok t b = entry_ok t' b"
  and core_table: "core t = core t' \<Longrightarrow> table_ok t = table_ok t'"
proof -
  assume c: "core t = core t'"
  note f = core_fields [OF c]
  show "in_hw t b = in_hw t' b" "owned t b = owned t' b" "entry_ok t b = entry_ok t' b" "table_ok t = table_ok t'"
    using f by (simp_all add: in_hw_def owned_def entry_ok_def table_ok_def)
qed

lemma chain_nodes: "chain m ks stride per as cs \<Longrightarrow> a \<in> set as \<Longrightarrow> \<exists>blk. m a = Some blk \<and> b_node blk"
  by (induction m ks stride per as cs rule: chain.induct) (auto simp: node_is_def)

lemma bucket_nodes:
  assumes "bucket_ok m ks fs h cu"
  shows "distinct (nodes_of cu) \<and> (\<forall>a \<in> set (nodes_of cu). \<exists>blk. m a = Some blk \<and> b_node blk)"
  using assms chain_nodes by (fastforce simp: bucket_ok_def split: if_splits)

lemma entry_nodes:
  assumes "entry_ok t b"
  shows "distinct (nodes_of (t_cu t b)) \<and> (\<forall>a \<in> set (nodes_of (t_cu t b)). \<exists>blk. blocks t a = Some blk \<and> b_node blk)"
  using assms bucket_nodes by (fastforce simp: entry_ok_def in_hw_def)

lemma entry_recs: "entry_ok t b \<Longrightarrow> f \<in> set (t_bidx t b) \<Longrightarrow> \<exists>blk. blocks t (f_record f) = Some blk \<and> \<not> b_node blk"
  by (auto simp: entry_ok_def rec_ok_def)

lemma owned_live: "entry_ok t b \<Longrightarrow> a \<in> owned t b \<Longrightarrow> blocks t a \<noteq> None"
  using entry_nodes entry_recs by (fastforce simp: owned_def)

lemma entry_reads:
  assumes "entry_ok t b"
  shows "hw_reads (blocks t) (t_key_size t) (owned t b) (t_heads t b)"
proof (cases "in_hw t b")
  case True
  with assms show ?thesis
    unfolding hw_reads_def by (intro exI [of _ "t_bidx t b"] exI [of _ "t_cu t b"]) (auto simp: entry_ok_def in_hw_def owned_def)
next
  case False
  with assms have "t_heads t b = 0" by (simp add: entry_ok_def)
  then show ?thesis by simp
qed

lemma entry_content:
  assumes "entry_ok t b" "\<forall>a \<in> owned t b. block_content (blocks t') a = block_content (blocks t) a"
    "t_key_size t' = t_key_size t" "t_heads t' b = t_heads t b" "t_cu t' b = t_cu t b" "t_bidx t' b = t_bidx t b"
    "0 < t_key_size t" "t_key_size t \<le> 56"
  shows "entry_ok t' b \<and> (in_hw t b \<longrightarrow> in_hw t' b)"
proof -
  note geo = geometry [OF assms(7,8)]
  note node_fits = node_geometry.node_fits [OF geo]
  have hw: "in_hw t b \<longrightarrow> in_hw t' b"
    using bucket_content [of "blocks t" _ _ _ _ "blocks t'"] assms(2-6) node_fits(1) by (simp add: in_hw_def owned_def)
  have "\<forall>f \<in> set (t_bidx t b). rec_ok (blocks t') f"
    using assms(1,2) content_rec [of "blocks t" _ "blocks t'"] by (auto simp: entry_ok_def owned_def)
  with hw assms show ?thesis by (auto simp: entry_ok_def)
qed

text \<open>A change confined to bucket \<open>idx\<close>.\<close>

lemma table_step:
  assumes t: "table_ok t" and idx: "idx \<le> t_hash_mask t"
    and same: "t_key_size t' = t_key_size t" "t_hash_mask t' = t_hash_mask t" "t_has_fman t'"
    and others: "\<forall>c. c \<noteq> idx \<longrightarrow> t_heads t' c = t_heads t c \<and> t_cu t' c = t_cu t c \<and> t_bidx t' c = t_bidx t c"
      "\<forall>c \<le> t_hash_mask t. c \<noteq> idx \<longrightarrow> (\<forall>a \<in> owned t c. block_content (blocks t') a = block_content (blocks t) a)"
      "\<forall>c \<le> t_hash_mask t. c \<noteq> idx \<longrightarrow> owned t' idx \<inter> owned t c = {}"
    and new: "entry_ok t' idx" "\<forall>a blk. blocks t' a = Some blk \<longrightarrow> b_seen blk \<le> head_writes t'"
      "distinct (t_flows t')" "set (t_flows t') = (\<Union>b \<le> t_hash_mask t. set (t_bidx t' b))"
  shows "table_ok t'" "\<And>c. c \<le> t_hash_mask t \<Longrightarrow> c \<noteq> idx \<Longrightarrow> in_hw t c \<Longrightarrow> in_hw t' c"
proof -
  have e: "entry_ok t' c \<and> (in_hw t c \<longrightarrow> in_hw t' c)" if "c \<le> t_hash_mask t" "c \<noteq> idx" for c
    using that t same others by (intro entry_content) (auto simp: table_ok_def)
  then show "\<And>c. c \<le> t_hash_mask t \<Longrightarrow> c \<noteq> idx \<Longrightarrow> in_hw t c \<Longrightarrow> in_hw t' c" by blast
  have o: "owned t' c = owned t c" if "c \<noteq> idx" for c using others(1) that by (simp add: owned_def)
  have "owned t' b \<inter> owned t' c = {}" if "b \<le> t_hash_mask t" "c \<le> t_hash_mask t" "b \<noteq> c" for b c
    using that others(3) o t by (cases "b = idx"; cases "c = idx") (auto simp: table_ok_def)
  moreover have "\<forall>b \<le> t_hash_mask t. entry_ok t' b" using e new(1) by blast
  ultimately show "table_ok t'" using t same new by (simp add: table_ok_def)
qed

section \<open>Retiring what was replaced\<close>

definition elsewhere :: "'h ehash \<Rightarrow> nat \<Rightarrow> u64 set" where
  "elsewhere t idx = (\<Union>c \<in> {c. c \<le> t_hash_mask t \<and> c \<noteq> idx}. owned t c)"

lemma table_entry: "table_ok t \<Longrightarrow> c \<le> t_hash_mask t \<Longrightarrow> entry_ok t c"
  and table_key_size: "table_ok t \<Longrightarrow> 0 < t_key_size t \<and> t_key_size t \<le> 56 \<and> t_has_fman t"
  and table_disjoint: "table_ok t \<Longrightarrow> b \<le> t_hash_mask t \<Longrightarrow> c \<le> t_hash_mask t \<Longrightarrow> b \<noteq> c \<Longrightarrow> owned t b \<inter> owned t c = {}"
  and table_seen: "table_ok t \<Longrightarrow> blocks t a = Some blk \<Longrightarrow> b_seen blk \<le> head_writes t"
  and table_flows: "table_ok t \<Longrightarrow> distinct (t_flows t) \<and> set (t_flows t) = (\<Union>b \<le> t_hash_mask t. set (t_bidx t b))"
  by (simp_all add: table_ok_def)

lemma elsewhere_reads:
  assumes "table_ok t" "c \<le> t_hash_mask t" "c \<noteq> idx"
  shows "hw_reads (blocks t) (t_key_size t) (elsewhere t idx) (t_heads t c)"
proof (rule hw_reads_content)
  show "hw_reads (blocks t) (t_key_size t) (owned t c) (t_heads t c)" by (rule entry_reads [OF table_entry [OF assms(1,2)]])
  show "owned t c \<subseteq> elsewhere t idx" using assms(2,3) by (auto simp: elsewhere_def)
qed (use table_key_size [OF assms(1)] in auto)

lemma elsewhere_live:
  assumes "table_ok t" "a \<in> elsewhere t idx"
  shows "blocks t a \<noteq> None"
proof -
  obtain c where "c \<le> t_hash_mask t" "a \<in> owned t c" using assms(2) by (auto simp: elsewhere_def)
  then show ?thesis using owned_live table_entry [OF assms(1)] by blast
qed

text \<open>
  After a publish, blocks \<open>old\<close> that were live before, belong to no other bucket and are not part of the
  new one can be freed once a SYNC has completed.
\<close>

lemma retire_ok:
  assumes "core t2 = core t1" "sync_mark t2 = head_writes t1" "distinct old"
    "\<forall>a \<in> set old. \<exists>blk. blocks t1 a = Some blk \<and> b_node blk \<and> b_seen blk < head_writes t1"
  shows "cu_free (Some old) t2 = Some (kfree (t2\<lparr>blocks := \<lambda>a. if a \<in> set old then None else blocks t1 a\<rparr>))"
proof -
  have "blocks t2 = blocks t1" using core_fields [OF assms(1)] by simp
  then have "foldO (dma_pool_free True) old t2 = Some (t2\<lparr>blocks := \<lambda>a. if a \<in> set old then None else blocks t2 a\<rparr>)"
    using assms(2-4) by (intro free_nodes) auto
  then show ?thesis unfolding \<open>blocks t2 = blocks t1\<close> by (simp add: cu_free_def)
qed

text \<open>The state after a publish whose replaced blocks \<open>D\<close> have been freed (or kept, \<open>D\<close> empty).\<close>

lemma publish_table:
  assumes t: "table_ok t" "idx \<le> t_hash_mask t"
    and pub: "published hw t0 idx fs (elsewhere t idx) t1" "core t0 = core (t\<lparr>t_bidx := bi\<rparr>)"
    and fs: "\<forall>f \<in> set fs. rec_ok (blocks t) f \<and> f_index f = idx \<and> f_key_size f = t_key_size t" "distinct (map f_record fs)"
      "f_record ` set fs \<inter> elsewhere t idx = {}"
    and D: "D \<inter> elsewhere t idx = {}" "D \<inter> f_record ` set fs = {}" "\<forall>a \<in> D. blocks t a \<noteq> None"
    and t': "core t' = core (t1\<lparr>t_bidx := (t_bidx t)(idx := fs), t_flows := fl, blocks := \<lambda>a. if a \<in> D then None else blocks t1 a\<rparr>)"
      "distinct fl" "set fl = (\<Union>b \<le> t_hash_mask t. set (((t_bidx t)(idx := fs)) b))"
  shows "table_ok t' \<and> (hw \<or> fs \<noteq> [] \<longrightarrow> in_hw t' idx = hw) \<and> (\<forall>c \<le> t_hash_mask t. c \<noteq> idx \<longrightarrow> in_hw t c \<longrightarrow> in_hw t' c) \<and>
    (\<forall>a \<in> elsewhere t idx \<union> f_record ` set fs. block_content (blocks t') a = block_content (blocks t) a)"
proof -
  have geo: "node_geometry (t_key_size t) (cu_stride (t_key_size t)) (per_node (t_key_size t))"
    using table_key_size [OF t(1)] by (intro geometry) auto
  note node_fits = node_geometry.node_fits [OF geo]
  note f0 = core_fields [OF pub(2)]
  obtain m h cu where m: "core t1 = core (t0\<lparr>t_heads := (t_heads t0)(idx := h), t_cu := (t_cu t0)(idx := cu), head_writes := head_writes t0 + 1, blocks := m\<rparr>)"
      "hw \<Longrightarrow> bucket_ok m (t_key_size t) fs h cu" "\<not> hw \<Longrightarrow> h = 0 \<and> cu = None" "\<forall>a \<in> set (nodes_of cu). blocks t a = None"
      "\<forall>a. a \<notin> set (nodes_of cu) \<longrightarrow> block_content m a = block_content (blocks t) a"
      "\<forall>a blk. m a = Some blk \<longrightarrow> b_seen blk \<in> {0, head_writes t + 1} \<or> blocks t a = Some blk"
    using pub(1) f0 unfolding published_def by (cases hw) auto
  note f1 = core_fields [OF m(1)] and f' = core_fields [OF t'(1)]
  have new_cu: "a \<notin> set (nodes_of cu)" if "a \<in> elsewhere t idx \<union> f_record ` set fs \<union> D" for a
  proof -
    have "blocks t a \<noteq> None" using that elsewhere_live [OF t(1), of a idx] fs(1) D(3) by (auto simp: rec_ok_def)
    then show ?thesis using m(4) by auto
  qed
  have keep: "block_content (blocks t') a = block_content (blocks t) a" if "a \<in> elsewhere t idx \<union> f_record ` set fs" for a
  proof -
    have "blocks t' a = m a" using that D(1,2) f' f1 by auto
    then show ?thesis using m(5) new_cu that by (auto simp: block_content_def)
  qed
  have nodes: "blocks t' a = m a" if "a \<in> set (nodes_of cu)" for a
    using that new_cu f' f1 by auto
  have same: "block_content m a = block_content (blocks t') a" if "a \<in> f_record ` set fs \<union> set (nodes_of cu)" for a
    using that nodes [of a] keep [of a] m(5) by (cases "a \<in> set (nodes_of cu)") (auto simp: block_content_def)
  have F: "t_key_size t' = t_key_size t" "t_bidx t' idx = fs" "t_heads t' idx = h" "t_cu t' idx = cu"
    using f' f1 f0 by simp_all
  have hw: "hw \<Longrightarrow> in_hw t' idx" "\<not> hw \<Longrightarrow> fs \<noteq> [] \<Longrightarrow> \<not> in_hw t' idx" "\<not> hw \<Longrightarrow> h = 0 \<and> cu = None"
  proof -
    assume hw
    then have "bucket_ok (blocks t') (t_key_size t) fs h cu"
      using same node_fits(1) by (intro bucket_content [OF m(2)]) auto
    then show "in_hw t' idx" by (simp add: in_hw_def F)
  next
    assume "\<not> hw"
    with m(3) show e: "h = 0 \<and> cu = None" by simp
    assume "fs \<noteq> []"
    then have "f_record (hd fs) \<noteq> 0" using fs(1) by (cases fs) (auto simp: rec_ok_def)
    with e \<open>fs \<noteq> []\<close> show "\<not> in_hw t' idx" by (simp add: in_hw_def F bucket_ok_def)
  qed
  have "rec_ok (blocks t') f" if "f \<in> set fs" for f
    using that fs(1) keep [of "f_record f"] content_rec [of "blocks t" f "blocks t'"] by auto
  then have "entry_ok t' idx" using hw fs(1,2) by (cases hw) (simp_all add: entry_ok_def F)
  moreover have "owned t' idx \<inter> owned t c = {}" if "c \<le> t_hash_mask t" "c \<noteq> idx" for c
  proof -
    have "owned t c \<subseteq> elsewhere t idx" using that by (auto simp: elsewhere_def)
    moreover have "owned t' idx = f_record ` set fs \<union> set (nodes_of cu)" by (simp add: owned_def F)
    ultimately show ?thesis using fs(3) new_cu by blast
  qed
  moreover have G: "t_key_size t' = t_key_size t" "t_hash_mask t' = t_hash_mask t" "t_has_fman t' = t_has_fman t"
      "t_heads t' = (t_heads t)(idx := h)" "t_cu t' = (t_cu t)(idx := cu)" "t_bidx t' = (t_bidx t)(idx := fs)"
      "t_flows t' = fl" "head_writes t' = head_writes t + 1"
    using f' f1 f0 by simp_all
  have "blocks t1 = m" using f1 by simp
  have "blocks t' = (\<lambda>a. if a \<in> D then None else blocks t1 a)" using f' by simp
  then have Gb: "blocks t' = (\<lambda>a. if a \<in> D then None else m a)" unfolding \<open>blocks t1 = m\<close> .
  have "b_seen blk \<le> head_writes t'" if "blocks t' a = Some blk" for a blk
  proof -
    have "m a = Some blk" using that by (simp add: Gb split: if_splits)
    then have "b_seen blk \<in> {0, head_writes t + 1} \<or> blocks t a = Some blk" using m(6) by blast
    then show ?thesis using table_seen [OF t(1), of a blk] by (auto simp: G)
  qed
  moreover have "block_content (blocks t') a = block_content (blocks t) a" if "c \<le> t_hash_mask t" "c \<noteq> idx" "a \<in> owned t c" for a c
    using that keep by (auto simp: elsewhere_def)
  ultimately have "table_ok t'" "\<And>c. c \<le> t_hash_mask t \<Longrightarrow> c \<noteq> idx \<Longrightarrow> in_hw t c \<Longrightarrow> in_hw t' c"
    using table_step [OF t, of t'] t'(2,3) table_key_size [OF t(1)] by (simp_all add: G del: Union_iff)
  then show ?thesis using hw(1,2) keep by blast
qed

lemma published_old:
  assumes "table_ok t" "published hw t0 idx fs (elsewhere t idx) t1" "core t0 = core (t\<lparr>t_bidx := bi\<rparr>)"
    "a \<notin> elsewhere t idx" "a \<notin> f_record ` set fs" "blocks t a = Some blk"
  shows "blocks t1 a = Some blk \<and> b_seen blk < head_writes t1"
proof -
  note f0 = core_fields [OF assms(3)]
  obtain m h cu where m: "core t1 = core (t0\<lparr>t_heads := (t_heads t0)(idx := h), t_cu := (t_cu t0)(idx := cu), head_writes := head_writes t0 + 1, blocks := m\<rparr>)"
      "\<forall>a \<in> set (nodes_of cu). blocks t a = None"
      "\<forall>a. a \<notin> elsewhere t idx \<union> f_record ` set fs \<union> set (nodes_of cu) \<longrightarrow> m a = blocks t a"
    using assms(2) f0 unfolding published_def by auto
  have "a \<notin> set (nodes_of cu)" using m(2) assms(6) by auto
  then have "m a = Some blk" using m(3) assms(4-6) by auto
  moreover have "blocks t1 = m" "head_writes t1 = head_writes t + 1" using core_fields [OF m(1)] f0 by simp_all
  ultimately show ?thesis using table_seen [OF assms(1), of a blk] assms(6) by simp
qed

lemma bucket_nodes_apart:
  assumes "table_ok t" "idx \<le> t_hash_mask t" "\<forall>f \<in> set fs. rec_ok (blocks t) f" "a \<in> set (nodes_of (t_cu t idx))"
  shows "a \<notin> elsewhere t idx \<and> a \<notin> f_record ` set fs \<and> (\<exists>blk. blocks t a = Some blk \<and> b_node blk)"
proof -
  have n: "\<exists>blk. blocks t a = Some blk \<and> b_node blk" using entry_nodes [OF table_entry [OF assms(1,2)]] assms(4) by blast
  then have "a \<notin> f_record ` set fs" using assms(3) by (auto simp: rec_ok_def)
  moreover have "a \<in> owned t idx" using assms(4) by (simp add: owned_def)
  then have "a \<notin> elsewhere t idx" using table_disjoint [OF assms(1) _ assms(2)] by (auto simp: elsewhere_def)
  ultimately show ?thesis using n by blast
qed

lemma table_fresh:
  assumes "table_ok t" "blocks t r = None" "core t' = core (t\<lparr>blocks := (blocks t)(r \<mapsto> blk)\<rparr>)" "b_seen blk = 0"
  shows "table_ok t' \<and> (\<forall>c \<le> t_hash_mask t. r \<notin> owned t c \<and> owned t' c = owned t c \<and> (in_hw t c \<longrightarrow> in_hw t' c)) \<and>
    (\<forall>c \<le> t_hash_mask t. \<forall>a \<in> owned t c. block_content (blocks t') a = block_content (blocks t) a)"
proof -
  note f = core_fields [OF assms(3)]
  have F: "t_key_size t' = t_key_size t" "t_hash_mask t' = t_hash_mask t" "t_has_fman t' = t_has_fman t" "t_heads t' = t_heads t"
      "t_cu t' = t_cu t" "t_bidx t' = t_bidx t" "t_flows t' = t_flows t" "head_writes t' = head_writes t"
      "blocks t' = (blocks t)(r \<mapsto> blk)"
    using f by simp_all
  have o: "owned t' c = owned t c" for c by (simp add: owned_def F)
  have r: "r \<notin> owned t c" if "c \<le> t_hash_mask t" for c
    using owned_live [OF table_entry [OF assms(1) that], of r] assms(2) by auto
  have same: "block_content (blocks t') a = block_content (blocks t) a" if "c \<le> t_hash_mask t" "a \<in> owned t c" for a c
    using r [OF that(1)] that(2) by (auto simp: F block_content_def)
  have e: "entry_ok t' c \<and> (in_hw t c \<longrightarrow> in_hw t' c)" if "c \<le> t_hash_mask t" for c
    using that same table_key_size [OF assms(1)] by (intro entry_content table_entry [OF assms(1)]) (auto simp: F)
  moreover have "b_seen b \<le> head_writes t'" if "blocks t' a = Some b" for a b
    using that assms(4) table_seen [OF assms(1), of a b] by (auto simp: F split: if_splits)
  ultimately have "table_ok t'"
    using assms(1) o unfolding table_ok_def by (simp add: F)
  then show ?thesis using r o e same by blast
qed

section \<open>Insertion\<close>

lemma add_tail_spec:
  assumes pool: "dma_pool (e_zalloc e)" and t: "table_ok t"
    and f: "rec_ok (blocks t) f" "f_index f = idx" "idx \<le> t_hash_mask t" "\<forall>c \<le> t_hash_mask t. f_record f \<notin> owned t c"
      "blocks t (f_record f) = Some blk" "b_seen blk = 0"
  shows "\<exists>err t'. add_tail e f t = Some (err, t') \<and>
    (err = - ENOMEM \<and> core t' = core (t\<lparr>blocks := (blocks t)(f_record f := None)\<rparr>) \<or>
     err = 0 \<and> (\<exists>t1 D. published True (t\<lparr>t_bidx := (t_bidx t)(idx := f # t_bidx t idx)\<rparr>) idx (f # t_bidx t idx) (elsewhere t idx) t1 \<and>
       D \<subseteq> set (nodes_of (t_cu t idx)) \<and> core t' = core (t1\<lparr>blocks := \<lambda>a. if a \<in> D then None else blocks t1 a\<rparr>)))"
proof -
  let ?fs = "f # t_bidx t idx"
  let ?t0 = "t\<lparr>t_bidx := (t_bidx t)(idx := ?fs)\<rparr>"
  have entry: "entry_ok t idx" by (rule table_entry [OF t f(3)])
  have recs: "\<forall>g \<in> set ?fs. rec_ok (blocks t) g" using entry f(1) by (auto simp: entry_ok_def)
  have ks: "0 < t_key_size ?t0" "t_key_size ?t0 \<le> 56" "t_has_fman t" using table_key_size [OF t] by auto
  have reads: "\<forall>c \<le> t_hash_mask ?t0. c \<noteq> idx \<longrightarrow> hw_reads (blocks ?t0) (t_key_size ?t0) (elsewhere t idx) (t_heads ?t0 c)"
    using elsewhere_reads [OF t] by simp
  have live: "\<forall>a \<in> elsewhere t idx. blocks ?t0 a \<noteq> None" using elsewhere_live [OF t] by simp
  have "?fs = filter (\<lambda>f. Some f \<noteq> None) (t_bidx ?t0 idx)" "\<forall>g \<in> set ?fs. rec_ok (blocks ?t0) g" using recs by simp_all
  from publish_spec [OF pool ks(1,2) this reads live]
  consider t1 where "bucket_publish e idx None ?t0 = Some ((0, t_cu ?t0 idx), t1)" "published True ?t0 idx ?fs (elsewhere t idx) t1"
    | t1 where "bucket_publish e idx None ?t0 = Some ((- ENOMEM, None), t1)" "core t1 = core ?t0" by blast
  then show ?thesis
  proof cases
    case 2
    note c = core_fields [OF 2(2)]
    let ?t2 = "t1\<lparr>t_bidx := (t_bidx t1)(idx := remove1 f (t_bidx t1 idx))\<rparr>"
    have "blocks ?t2 (f_record f) = Some blk" "\<not> b_node blk" using c f(1,5) by (auto simp: rec_ok_def)
    then have "dma_pool_free False (f_record f) ?t2 = Some (?t2\<lparr>blocks := (blocks ?t2)(f_record f := None)\<rparr>)"
      using f(6) by (simp add: dma_pool_free_def assert_opt_def)
    then have "add_tail e f t = Some (- ENOMEM, kfree (?t2\<lparr>blocks := (blocks ?t2)(f_record f := None)\<rparr>))"
      using 2(1) f(2) by (simp add: add_tail_def Let_def ENOMEM_def)
    moreover have "core (kfree (?t2\<lparr>blocks := (blocks ?t2)(f_record f := None)\<rparr>)) = core (t\<lparr>blocks := (blocks t)(f_record f := None)\<rparr>)"
      using c by (simp add: core_def kfree_def)
    ultimately show ?thesis by blast
  next
    case 1
    have fin: ?thesis if "add_tail e f t = Some (0, t')" "D \<subseteq> set (nodes_of (t_cu t idx))"
        "core t' = core (t1\<lparr>blocks := \<lambda>a. if a \<in> D then None else blocks t1 a\<rparr>)" for t' D
      using that 1(2) by blast
    show ?thesis
    proof (cases "t_cu t idx")
      case None
      with 1(1) f(2) show ?thesis by (intro fin [of t1 "{}"]) (auto simp: add_tail_def Let_def core_def)
    next
      case (Some as)
      have "t_has_fman t1" using 1(2) ks(3) by (auto simp: published_def dest: core_fields)
      then obtain ok t2 where sync: "ehash_sync e t1 = Some (ok, t2)" "core t2 = core t1" "ok \<longrightarrow> sync_mark t2 = head_writes t1"
        by (rule ehash_sync_spec)
      show ?thesis
      proof (cases ok)
        case False
        with 1(1) f(2) Some sync show ?thesis
          by (intro fin [of "t2\<lparr>warnings := warnings t2 + 1\<rparr>" "{}"]) (auto simp: add_tail_def Let_def core_def)
      next
        case True
        have "\<exists>blk. blocks t1 a = Some blk \<and> b_node blk \<and> b_seen blk < head_writes t1" if a: "a \<in> set as" for a
        proof -
          have "a \<notin> elsewhere t idx \<and> a \<notin> f_record ` set ?fs \<and> (\<exists>blk. blocks t a = Some blk \<and> b_node blk)"
            using bucket_nodes_apart [OF t f(3) recs, of a] a Some by simp
          then show ?thesis using published_old [OF t 1(2) refl] by blast
        qed
        moreover have "distinct as" using entry_nodes [OF entry] Some by simp
        ultimately have "cu_free (Some as) t2 = Some (kfree (t2\<lparr>blocks := \<lambda>a. if a \<in> set as then None else blocks t1 a\<rparr>))"
          using sync True by (intro retire_ok) auto
        then have "add_tail e f t = Some (0, kfree (t2\<lparr>blocks := \<lambda>a. if a \<in> set as then None else blocks t1 a\<rparr>))"
          using 1(1) f(2) Some sync(1) True by (simp add: add_tail_def Let_def)
        then show ?thesis
          using sync(2) Some by (intro fin [of _ "set as"]) (auto simp: core_def kfree_def)
      qed
    qed
  qed
qed

text \<open>The abstract table: the keys of each bucket, newest first, and whether the hardware has them.\<close>

definition view :: "'h ehash \<Rightarrow> nat \<Rightarrow> byte list list \<times> bool" where
  "view t b = (map (key_of (blocks t) (t_key_size t)) (t_bidx t b), in_hw t b)"

definition spec_add :: "nat \<Rightarrow> byte list \<Rightarrow> (nat \<Rightarrow> byte list list \<times> bool) \<Rightarrow> nat \<Rightarrow> byte list list \<times> bool" where
  "spec_add idx key v = v(idx := (key # fst (v idx), True))"

definition spec_del :: "nat \<Rightarrow> byte list \<Rightarrow> bool \<Rightarrow> (nat \<Rightarrow> byte list list \<times> bool) \<Rightarrow> nat \<Rightarrow> byte list list \<times> bool" where
  "spec_del idx key rebuilt v = v(idx := (remove1 key (fst (v idx)), rebuilt))"

definition views_agree :: "nat \<Rightarrow> (nat \<Rightarrow> byte list list \<times> bool) \<Rightarrow> (nat \<Rightarrow> byte list list \<times> bool) \<Rightarrow> bool" where
  "views_agree hm v v' = (\<forall>b \<le> hm. v b = v' b)"

lemma core_view: "core t = core t' \<Longrightarrow> view t = view t'"
proof (rule ext)
  fix b assume "core t = core t'"
  then show "view t b = view t' b" using core_fields [of t t'] core_in_hw [of t t' b] by (simp add: view_def)
qed

lemma view_content:
  assumes "t_key_size t' = t_key_size t" "t_bidx t' b = fs" "\<forall>f \<in> set fs. block_content (blocks t') (f_record f) = block_content m (f_record f)"
  shows "view t' b = (map (key_of m (t_key_size t)) fs, in_hw t' b)"
  using assms content_key [of "blocks t'" _ m "t_key_size t"] by (auto simp: view_def)

lemma in_hw_others:
  assumes "table_ok t" "table_ok t'" "t_hash_mask t' = t_hash_mask t" "t_key_size t' = t_key_size t" "c \<le> t_hash_mask t"
    "t_heads t' c = t_heads t c" "t_cu t' c = t_cu t c" "t_bidx t' c = t_bidx t c"
    "\<forall>a \<in> owned t c. block_content (blocks t') a = block_content (blocks t) a"
  shows "in_hw t' c = in_hw t c"
proof -
  have "owned t' c = owned t c" using assms(7,8) by (simp add: owned_def)
  then show ?thesis
    using entry_content [of t c t'] entry_content [of t' c t] assms table_entry table_key_size by metis
qed

text \<open>Everything a change of bucket \<open>idx\<close> means for the view.\<close>

lemma publish_view:
  assumes hw: "hw \<or> fs \<noteq> []" and t: "table_ok t" "idx \<le> t_hash_mask t"
    and pub: "published hw t0 idx fs (elsewhere t idx) t1" "core t0 = core (t\<lparr>t_bidx := bi\<rparr>)"
    and fs: "\<forall>f \<in> set fs. rec_ok (blocks t) f \<and> f_index f = idx \<and> f_key_size f = t_key_size t" "distinct (map f_record fs)"
      "f_record ` set fs \<inter> elsewhere t idx = {}"
    and D: "D \<inter> elsewhere t idx = {}" "D \<inter> f_record ` set fs = {}" "\<forall>a \<in> D. blocks t a \<noteq> None"
    and t': "core t' = core (t1\<lparr>t_bidx := (t_bidx t)(idx := fs), t_flows := fl, blocks := \<lambda>a. if a \<in> D then None else blocks t1 a\<rparr>)"
      "distinct fl" "set fl = (\<Union>b \<le> t_hash_mask t. set (((t_bidx t)(idx := fs)) b))"
  shows "table_ok t' \<and> t_key_size t' = t_key_size t \<and> t_hash_mask t' = t_hash_mask t \<and>
    views_agree (t_hash_mask t) (view t') ((view t)(idx := (map (key_of (blocks t) (t_key_size t)) fs, hw)))"
proof -
  have table: "table_ok t'" "in_hw t' idx = hw" "\<And>a. a \<in> elsewhere t idx \<union> f_record ` set fs \<Longrightarrow> block_content (blocks t') a = block_content (blocks t) a"
    using publish_table [OF assms(2-)] hw by blast+
  note f0 = core_fields [OF pub(2)] and f' = core_fields [OF t'(1)]
  obtain m h cu where "core t1 = core (t0\<lparr>t_heads := (t_heads t0)(idx := h), t_cu := (t_cu t0)(idx := cu), head_writes := head_writes t0 + 1, blocks := m\<rparr>)"
    using pub(1) unfolding published_def by blast
  note f1 = core_fields [OF this]
  have F: "t_key_size t' = t_key_size t" "t_hash_mask t' = t_hash_mask t" "t_heads t' = (t_heads t)(idx := h)"
      "t_cu t' = (t_cu t)(idx := cu)" "t_bidx t' = (t_bidx t)(idx := fs)"
    using f' f1 f0 by simp_all
  have "view t' b = ((view t)(idx := (map (key_of (blocks t) (t_key_size t)) fs, hw))) b" if b: "b \<le> t_hash_mask t" for b
  proof (cases "b = idx")
    case True
    then show ?thesis using view_content [of t' t idx fs "blocks t"] table F by simp
  next
    case False
    have o: "\<forall>a \<in> owned t b. block_content (blocks t') a = block_content (blocks t) a"
      using table(3) b False by (auto simp: elsewhere_def)
    have "in_hw t' b = in_hw t b" using o b False by (intro in_hw_others [OF t(1) table(1)]) (simp_all add: F)
    then show ?thesis
      using view_content [of t' t b "t_bidx t b" "blocks t"] o False by (simp add: F view_def owned_def)
  qed
  then show ?thesis using table(1) F by (simp add: views_agree_def)
qed

lemma new_record:
  assumes pool: "dma_pool (e_zalloc e)" and t: "table_ok t" and key: "length key = t_key_size t"
    and z: "zalloc e False t = (Some r, t1)"
    and t2: "t2 = t1\<lparr>blocks := poke r FMAN_EHASH_FLOW_KEY_OFF key (blocks t1)\<rparr>"
    and f: "f = \<lparr>f_record = r, f_index = idx, f_key_size = t_key_size t1\<rparr>"
  shows "\<exists>blk. core t2 = core (t\<lparr>blocks := (blocks t)(r \<mapsto> blk)\<rparr>) \<and> blocks t r = None \<and> b_seen blk = 0 \<and>
    rec_ok (blocks t2) f \<and> key_of (blocks t2) (t_key_size t) f = key"
proof -
  obtain h where a: "blocks t r = None" "r \<noteq> 0" "aligned r" "t1 = t\<lparr>world := h, blocks := alloc_map False [r] (blocks t)\<rparr>"
    using zalloc_spec [OF pool z] by auto
  let ?bs = "splice 8 key (replicate 512 0) :: byte list"
  let ?blk = "\<lparr>b_node = False, b_seen = 0, b_bytes = ?bs\<rparr>"
  have len: "8 + length key \<le> length (replicate 512 (0 :: byte))" using key table_key_size [OF t] by simp
  have m: "blocks t2 = (blocks t)(r \<mapsto> ?blk)" by (simp add: t2 a(4) alloc_map_one poke_def FMAN_EHASH_FLOW_KEY_OFF_def)
  then have "core t2 = core (t\<lparr>blocks := (blocks t)(r \<mapsto> ?blk)\<rparr>)" by (simp add: core_def t2 a(4))
  moreover have "?bs ! 0 = 0" using len nth_splice_other [of 8 key "replicate 512 0" 0] by simp
  then have "rec_ok (blocks t2) f" using a(2,3) len by (simp add: rec_ok_def m f)
  moreover have "key_of (blocks t2) (t_key_size t) f = key"
    using slice_splice_same [OF len] key by (simp add: key_of_def rec_bytes_def rec_key_def m f FMAN_EHASH_FLOW_KEY_OFF_def)
  ultimately show ?thesis using a(1) by auto
qed

lemma ehash_add_spec:
  assumes pool: "dma_pool (e_zalloc e)" and t: "table_ok t" and key: "length key = t_key_size t"
    and idx: "e_bucket e key = idx" "idx \<le> t_hash_mask t" and alloc: "fst (zalloc e False t) \<noteq> None"
  shows "\<exists>err t'. ehash_add e key t = Some (err, t') \<and> table_ok t' \<and> t_key_size t' = t_key_size t \<and> t_hash_mask t' = t_hash_mask t \<and>
    (err = - ENOMEM \<and> core t' = core t \<or> err = 0 \<and> views_agree (t_hash_mask t) (view t') (spec_add idx key (view t)))"
proof -
  obtain r t1 where z: "zalloc e False t = (Some r, t1)" using alloc by (cases "zalloc e False t") auto
  define t2 where "t2 = t1\<lparr>blocks := poke r FMAN_EHASH_FLOW_KEY_OFF key (blocks t1)\<rparr>"
  define f where "f = \<lparr>f_record = r, f_index = idx, f_key_size = t_key_size t1\<rparr>"
  obtain blk where n: "core t2 = core (t\<lparr>blocks := (blocks t)(r \<mapsto> blk)\<rparr>)" "blocks t r = None" "b_seen blk = 0"
      "rec_ok (blocks t2) f" "key_of (blocks t2) (t_key_size t) f = key"
    using new_record [OF pool t key z t2_def f_def] by blast
  note c = core_fields [OF n(1)]
  have fr: "table_ok t2" "\<forall>c \<le> t_hash_mask t. r \<notin> owned t c \<and> owned t2 c = owned t c"
      "\<forall>c \<le> t_hash_mask t. \<forall>a \<in> owned t c. block_content (blocks t2) a = block_content (blocks t) a"
    using table_fresh [OF t n(2,1,3)] by blast+
  have ks1: "t_key_size t1 = t_key_size t" using c by (simp add: t2_def)
  have eq: "ehash_add e key t = Option.bind (add_tail e f t2) (\<lambda>(err, t). Some (if err \<noteq> 0 then (err, t) else (0, t\<lparr>t_flows := f # t_flows t\<rparr>)))"
    unfolding f_def t2_def by (simp add: ehash_add_def z idx(1) Let_def)
  have f: "f_record f = r" "f_index f = idx" "f_key_size f = t_key_size t" by (simp_all add: f_def ks1)
  have "\<forall>c \<le> t_hash_mask t2. f_record f \<notin> owned t2 c" "idx \<le> t_hash_mask t2" "blocks t2 (f_record f) = Some blk"
    using fr(2) c idx(2) f by simp_all
  from add_tail_spec [OF pool fr(1) n(4) f(2) this(2,1,3) n(3)]
  consider t' where "add_tail e f t2 = Some (- ENOMEM, t')" "core t' = core (t2\<lparr>blocks := (blocks t2)(f_record f := None)\<rparr>)"
    | t' t3 D where "add_tail e f t2 = Some (0, t')"
        "published True (t2\<lparr>t_bidx := (t_bidx t2)(idx := f # t_bidx t2 idx)\<rparr>) idx (f # t_bidx t2 idx) (elsewhere t2 idx) t3"
        "D \<subseteq> set (nodes_of (t_cu t2 idx))" "core t' = core (t3\<lparr>blocks := \<lambda>a. if a \<in> D then None else blocks t3 a\<rparr>)"
    by blast
  then show ?thesis
  proof cases
    case 1
    have "core t' = core t" using core_fields [OF 1(2)] c n(2) f(1) by (simp add: core_def fun_upd_idem)
    then show ?thesis using 1(1) eq core_table [of t' t] core_fields [of t' t] t by (auto simp: ENOMEM_def)
  next
    case 2
    let ?fs = "f # t_bidx t2 idx"
    let ?t' = "t'\<lparr>t_flows := f # t_flows t'\<rparr>"
    obtain m h cu where pub: "core t3 = core (t2\<lparr>t_bidx := (t_bidx t2)(idx := ?fs), t_heads := h, t_cu := cu, head_writes := head_writes t2 + 1, blocks := m\<rparr>)"
      using 2(2) by (auto simp: published_def)
    have idx2: "idx \<le> t_hash_mask t2" using c idx(2) by simp
    have entry: "entry_ok t2 idx" by (rule table_entry [OF fr(1) idx2])
    have recs: "\<forall>g \<in> set ?fs. rec_ok (blocks t2) g \<and> f_index g = idx \<and> f_key_size g = t_key_size t2"
      using entry n(4) f c by (auto simp: entry_ok_def)
    have notr: "r \<notin> f_record ` set (t_bidx t2 b)" if "b \<le> t_hash_mask t" for b
      using fr(2) that by (auto simp: owned_def)
    have dist: "distinct (map f_record ?fs)" using entry notr [OF idx(2)] f by (auto simp: entry_ok_def)
    have apart: "f_record ` set ?fs \<inter> elsewhere t2 idx = {}"
    proof -
      have "r \<notin> elsewhere t2 idx" using fr(2) c by (auto simp: elsewhere_def)
      moreover have "f_record ` set (t_bidx t2 idx) \<inter> elsewhere t2 idx = {}"
        using table_disjoint [OF fr(1) _ idx2] unfolding elsewhere_def owned_def by blast
      ultimately show ?thesis using f by simp
    qed
    have D: "D \<inter> elsewhere t2 idx = {} \<and> D \<inter> f_record ` set ?fs = {} \<and> (\<forall>a \<in> D. blocks t2 a \<noteq> None)"
    proof -
      have "a \<notin> elsewhere t2 idx \<and> a \<notin> f_record ` set ?fs \<and> blocks t2 a \<noteq> None" if "a \<in> D" for a
        using bucket_nodes_apart [OF fr(1) idx2, of ?fs a] recs 2(3) that by blast
      then show ?thesis by blast
    qed
    have t': "core ?t' = core (t3\<lparr>t_bidx := (t_bidx t2)(idx := ?fs), t_flows := f # t_flows t2, blocks := \<lambda>a. if a \<in> D then None else blocks t3 a\<rparr>)"
      using core_fields [OF 2(4)] core_fields [OF pub] by (simp add: core_def)
    have nf: "f \<notin> set (t_flows t2)"
      using table_flows [OF fr(1)] notr f c by (fastforce simp: image_iff)
    have "distinct (f # t_flows t2)" "set (f # t_flows t2) = (\<Union>b \<le> t_hash_mask t2. set (((t_bidx t2)(idx := ?fs)) b))"
      using table_flows [OF fr(1)] nf idx2 by (auto split: if_splits)
    from publish_view [OF _ fr(1) idx2 2(2) refl recs dist apart _ _ _ t' this] D
    have pv: "table_ok ?t'" "t_key_size ?t' = t_key_size t2" "t_hash_mask ?t' = t_hash_mask t2"
        "views_agree (t_hash_mask t2) (view ?t') ((view t2)(idx := (map (key_of (blocks t2) (t_key_size t2)) ?fs, True)))"
      by blast+
    have v2: "view t2 b = view t b" if "b \<le> t_hash_mask t" for b
    proof -
      have "in_hw t2 b = in_hw t b"
        using fr(3) that by (intro in_hw_others [OF t fr(1)]) (simp_all add: c)
      moreover have "\<forall>f \<in> set (t_bidx t b). block_content (blocks t2) (f_record f) = block_content (blocks t) (f_record f)"
        using fr(3) that unfolding owned_def by blast
      ultimately show ?thesis using view_content [of t2 t b "t_bidx t b" "blocks t"] c by (simp add: view_def)
    qed
    have "views_agree (t_hash_mask t) (view ?t') (spec_add idx key (view t))"
      using pv(4) v2 c n(5) idx(2) unfolding views_agree_def spec_add_def by (auto simp: view_def)
    then show ?thesis using 2(1) eq pv(1-3) c by simp
  qed
qed

section \<open>Deletion\<close>

lemma del_tail_spec:
  fixes t1 :: "'h ehash"
  assumes "t_has_fman t1" "distinct (nodes_of old)"
    "\<forall>a \<in> set (nodes_of old). \<exists>blk. blocks t1 a = Some blk \<and> b_node blk \<and> b_seen blk < head_writes t1"
    "blocks t1 (f_record x) = Some b" "\<not> b_node b" "b_seen b < head_writes t1"
  shows "\<exists>t' D. (do {
       let t = t1\<lparr>t_flows := remove1 x (t_flows t1), t_bidx := (t_bidx t1)(idx := remove1 x (t_bidx t1 idx))\<rparr>;
       (synced, t) \<leftarrow> ehash_sync e t;
       if \<not> synced
       then Some (0 :: int, kfree ((if old = None then id else kfree) (t\<lparr>warnings := warnings t + 3\<rparr>)))
       else do { t \<leftarrow> cu_free old t; t \<leftarrow> dma_pool_free False (f_record x) t; Some (0, kfree t) }
     }) = Some (0, t') \<and> D \<subseteq> set (nodes_of old) \<union> {f_record x} \<and>
    core t' = core (t1\<lparr>t_flows := remove1 x (t_flows t1), t_bidx := (t_bidx t1)(idx := remove1 x (t_bidx t1 idx)),
      blocks := \<lambda>a. if a \<in> D then None else blocks t1 a\<rparr>)"
proof -
  let ?t = "t1\<lparr>t_flows := remove1 x (t_flows t1), t_bidx := (t_bidx t1)(idx := remove1 x (t_bidx t1 idx))\<rparr>"
  have "t_has_fman ?t" using assms(1) by simp
  have bl: "blocks ?t = blocks t1" by simp
  from \<open>t_has_fman ?t\<close> obtain ok t2 where sync: "ehash_sync e ?t = Some (ok, t2)" "core t2 = core ?t" "ok \<longrightarrow> sync_mark t2 = head_writes ?t"
    by (rule ehash_sync_spec)
  show ?thesis
  proof (cases ok)
    case False
    with sync show ?thesis
      by (intro exI [of _ "kfree ((if old = None then id else kfree) (t2\<lparr>warnings := warnings t2 + 3\<rparr>))"] exI [of _ "{}"])
        (auto simp: core_def kfree_def)
  next
    case True
    let ?m = "\<lambda>a. if a \<in> set (nodes_of old) then None else blocks t1 a"
    obtain t3 where t3: "cu_free old t2 = Some t3" "core t3 = core (t2\<lparr>blocks := ?m\<rparr>)" "sync_mark t3 = sync_mark t2"
    proof (cases old)
      case None
      then show ?thesis using that [of t2] sync(2) by (auto simp: cu_free_def core_def)
    next
      case (Some as)
      have "cu_free (Some as) t2 = Some (kfree (t2\<lparr>blocks := \<lambda>a. if a \<in> set as then None else blocks ?t a\<rparr>))"
        using assms(2,3) Some sync True by (intro retire_ok) auto
      then have "cu_free (Some as) t2 = Some (kfree (t2\<lparr>blocks := \<lambda>a. if a \<in> set as then None else blocks t1 a\<rparr>))"
        unfolding bl .
      then show ?thesis using that [of "kfree (t2\<lparr>blocks := \<lambda>a. if a \<in> set as then None else blocks t1 a\<rparr>)"] Some
        by (simp add: core_def kfree_def)
    qed
    note c = core_fields [OF t3(2)] and c2 = core_fields [OF sync(2)]
    have "f_record x \<notin> set (nodes_of old)" using assms(3-5) by auto
    then have "blocks t3 (f_record x) = Some b" using c assms(4) by simp
    moreover have "b_seen b < sync_mark t3" using t3(3) sync(3) True assms(6) by simp
    ultimately have "dma_pool_free False (f_record x) t3 = Some (t3\<lparr>blocks := (blocks t3)(f_record x := None)\<rparr>)"
      using assms(5) by (simp add: dma_pool_free_def assert_opt_def)
    moreover have "(blocks t3)(f_record x := None) = (\<lambda>a. if a \<in> set (nodes_of old) \<union> {f_record x} then None else blocks t1 a)"
      using c by auto
    ultimately show ?thesis using sync(1) True t3(1) c c2
      by (intro exI [of _ "kfree (t3\<lparr>blocks := (blocks t3)(f_record x := None)\<rparr>)"] exI [of _ "set (nodes_of old) \<union> {f_record x}"])
        (simp add: core_def kfree_def)
  qed
qed

text \<open>Without memory for new nodes the bucket's head is cleared.\<close>

lemma clear_spec:
  assumes "table_ok t" "core t1 = core t"
  shows "\<exists>t2. head_store idx 0 t1 = Some t2 \<and> t_cu t2 = t_cu t \<and>
    (\<forall>w. published False t idx fs (elsewhere t idx) (t2\<lparr>t_cu := (t_cu t2)(idx := None), warnings := w\<rparr>))"
proof -
  note c = core_fields [OF assms(2)]
  have "\<forall>c \<le> t_hash_mask t1. hw_reads (blocks t1) (t_key_size t1) (elsewhere t idx) (if c = idx then 0 else t_heads t1 c)"
    using elsewhere_reads [OF assms(1)] c by simp
  from head_store_spec [OF _ _ _ this] table_key_size [OF assms(1)] c
  obtain m where m: "head_store idx 0 t1 =
      Some (t1\<lparr>wmb_pending := False, t_heads := (t_heads t1)(idx := 0), head_writes := head_writes t1 + 1, blocks := m\<rparr>)"
    "\<forall>a. block_content m a = block_content (blocks t1) a" "\<forall>a. a \<notin> elsewhere t idx \<longrightarrow> m a = blocks t1 a"
    "\<forall>a blk. m a = Some blk \<longrightarrow> b_seen blk = head_writes t1 + 1 \<or> blocks t1 a = Some blk"
    by auto
  let ?t2 = "t1\<lparr>wmb_pending := False, t_heads := (t_heads t1)(idx := 0), head_writes := head_writes t1 + 1, blocks := m\<rparr>"
  have "core (?t2\<lparr>t_cu := (t_cu ?t2)(idx := None), warnings := w\<rparr>) =
      core (t\<lparr>t_heads := (t_heads t)(idx := 0), t_cu := (t_cu t)(idx := None), head_writes := head_writes t + 1, blocks := m\<rparr>)" for w
    using c by (simp add: core_def)
  then have "published False t idx fs (elsewhere t idx) (?t2\<lparr>t_cu := (t_cu ?t2)(idx := None), warnings := w\<rparr>)" for w
    unfolding published_def using m(2-4) c by (intro exI [of _ m] exI [of _ 0] exI [of _ None]) simp
  then show ?thesis using m(1) c by (intro exI [of _ ?t2]) simp
qed

lemma map_remove1_find:
  "find (\<lambda>x. g x = k) xs = Some x \<Longrightarrow> map g (remove1 x xs) = remove1 k (map g xs)"
proof (induction xs)
  case (Cons a xs)
  then have "g a \<noteq> k \<Longrightarrow> x \<noteq> a" by (auto simp: find_Some_iff)
  with Cons show ?case by (auto split: if_splits)
qed simp

lemma find_flow_Some:
  assumes "find_flow t key ks idx = Some x"
  shows "x \<in> set (t_bidx t idx) \<and> key_of (blocks t) ks x = key"
  using assms by (auto simp: find_flow_def find_Some_iff key_of_def dest: nth_mem)

lemma del_key_spec:
  assumes pool: "dma_pool (e_zalloc e)" and t: "table_ok t"
    and idx: "e_bucket e key = idx" "idx \<le> t_hash_mask t" and x: "find_flow t key (t_key_size t) idx = Some x"
  shows "\<exists>t' rebuilt. del_key e (Some key) (t_key_size t) t = Some (0, t') \<and> table_ok t' \<and>
    t_key_size t' = t_key_size t \<and> t_hash_mask t' = t_hash_mask t \<and>
    views_agree (t_hash_mask t) (view t') (spec_del idx key rebuilt (view t))"
proof -
  let ?fs = "remove1 x (t_bidx t idx)"
  have entry: "entry_ok t idx" by (rule table_entry [OF t idx(2)])
  have xin: "x \<in> set (t_bidx t idx)" "key_of (blocks t) (t_key_size t) x = key" using find_flow_Some [OF x] by auto
  have d: "distinct (map f_record (t_bidx t idx))" using entry by (simp add: entry_ok_def)
  then have dx: "distinct (t_bidx t idx)" by (simp add: distinct_map)
  have recs: "\<forall>g \<in> set (t_bidx t idx). rec_ok (blocks t) g \<and> f_index g = idx \<and> f_key_size g = t_key_size t"
    using entry by (auto simp: entry_ok_def)
  have fs: "?fs = filter (\<lambda>f. Some f \<noteq> Some x) (t_bidx t idx)"
    using dx by (simp add: distinct_remove1_removeAll removeAll_filter_not_eq eq_commute [of x])
  have sub: "set ?fs = set (t_bidx t idx) - {x}" using dx by simp
  have ks: "0 < t_key_size t" "t_key_size t \<le> 56" "t_has_fman t" using table_key_size [OF t] by auto
  obtain b where b: "blocks t (f_record x) = Some b" "\<not> b_node b" using recs xin(1) by (auto simp: rec_ok_def)
  have xout: "f_record x \<notin> elsewhere t idx" "f_record x \<notin> f_record ` set ?fs"
  proof -
    have "f_record x \<in> owned t idx" using xin(1) by (simp add: owned_def)
    then show "f_record x \<notin> elsewhere t idx" using table_disjoint [OF t _ idx(2)] by (auto simp: elsewhere_def)
    show "f_record x \<notin> f_record ` set ?fs" using d xin(1) sub by (auto simp: distinct_map inj_on_def)
  qed
  have self: "core t = core (t\<lparr>t_bidx := t_bidx t\<rparr>)" by simp
  have finish: ?thesis
    if pub: "published hw t idx ?fs (elsewhere t idx) t1" "hw \<or> ?fs \<noteq> []" and old: "old = t_cu t idx"
      and eq: "del_key e (Some key) (t_key_size t) t = (do {
       let t = t1\<lparr>t_flows := remove1 x (t_flows t1), t_bidx := (t_bidx t1)(idx := remove1 x (t_bidx t1 idx))\<rparr>;
       (synced, t) \<leftarrow> ehash_sync e t;
       if \<not> synced
       then Some (0 :: int, kfree ((if old = None then id else kfree) (t\<lparr>warnings := warnings t + 3\<rparr>)))
       else do { t \<leftarrow> cu_free old t; t \<leftarrow> dma_pool_free False (f_record x) t; Some (0, kfree t) }
     })" for hw t1 old
  proof -
    obtain m h cu where p: "core t1 = core (t\<lparr>t_heads := (t_heads t)(idx := h), t_cu := (t_cu t)(idx := cu), head_writes := head_writes t + 1, blocks := m\<rparr>)"
      using pub(1) unfolding published_def by blast
    note c1 = core_fields [OF p]
    have nodes: "a \<notin> elsewhere t idx \<and> a \<notin> f_record ` set ?fs \<and> (\<exists>blk. blocks t a = Some blk \<and> b_node blk)" if "a \<in> set (nodes_of old)" for a
      using bucket_nodes_apart [OF t idx(2), of ?fs a] recs sub that unfolding old by blast
    have dead: "\<forall>a \<in> set (nodes_of old). \<exists>blk. blocks t1 a = Some blk \<and> b_node blk \<and> b_seen blk < head_writes t1"
      using nodes published_old [OF t pub(1) self] by blast
    have deadx: "blocks t1 (f_record x) = Some b \<and> b_seen b < head_writes t1"
      using published_old [OF t pub(1) self xout b(1)] .
    have "distinct (nodes_of old)" using entry_nodes [OF entry] old by simp
    moreover have "t_has_fman t1" using c1 ks by simp
    ultimately obtain t' D where t': "del_key e (Some key) (t_key_size t) t = Some (0, t')" "D \<subseteq> set (nodes_of old) \<union> {f_record x}"
        "core t' = core (t1\<lparr>t_flows := remove1 x (t_flows t1), t_bidx := (t_bidx t1)(idx := remove1 x (t_bidx t1 idx)), blocks := \<lambda>a. if a \<in> D then None else blocks t1 a\<rparr>)"
      using del_tail_spec [of t1 old x b idx e] dead deadx b(2) unfolding eq by blast
    have D: "a \<notin> elsewhere t idx \<and> a \<notin> f_record ` set ?fs \<and> blocks t a \<noteq> None" if "a \<in> D" for a
    proof -
      have "a \<in> set (nodes_of old) \<or> a = f_record x" using that t'(2) by auto
      then show ?thesis using nodes [of a] xout b(1) by auto
    qed
    have ct: "core t' = core (t1\<lparr>t_bidx := (t_bidx t)(idx := ?fs), t_flows := remove1 x (t_flows t), blocks := \<lambda>a. if a \<in> D then None else blocks t1 a\<rparr>)"
      using t'(3) c1 by (simp add: core_def)
    have xonly: "x \<notin> set (t_bidx t c)" if "c \<le> t_hash_mask t" "c \<noteq> idx" for c
      using that xin(1) table_disjoint [OF t idx(2) that(1)] by (auto simp: owned_def)
    have fl: "distinct (remove1 x (t_flows t))" "set (remove1 x (t_flows t)) = (\<Union>c \<le> t_hash_mask t. set (((t_bidx t)(idx := ?fs)) c))"
      using table_flows [OF t] sub xonly idx(2) by (auto split: if_splits)
    have fs': "\<forall>f \<in> set ?fs. rec_ok (blocks t) f \<and> f_index f = idx \<and> f_key_size f = t_key_size t" "distinct (map f_record ?fs)"
        "f_record ` set ?fs \<inter> elsewhere t idx = {}"
    proof -
      show "\<forall>f \<in> set ?fs. rec_ok (blocks t) f \<and> f_index f = idx \<and> f_key_size f = t_key_size t" using recs sub by blast
      show "distinct (map f_record ?fs)" using d sub dx by (auto simp: distinct_map intro: inj_on_subset)
      have "f_record ` set (t_bidx t idx) \<inter> elsewhere t idx = {}"
        using table_disjoint [OF t _ idx(2)] unfolding elsewhere_def owned_def by blast
      then show "f_record ` set ?fs \<inter> elsewhere t idx = {}" using sub by blast
    qed
    have "map (key_of (blocks t) (t_key_size t)) ?fs = remove1 key (map (key_of (blocks t) (t_key_size t)) (t_bidx t idx))"
    proof (rule map_remove1_find)
      have "find (\<lambda>f. f_key_size f = t_key_size t \<and> key_of (blocks t) (t_key_size t) f = key) (t_bidx t idx) = Some x"
        using x by (simp add: find_flow_def key_of_def)
      then show "find (\<lambda>f. key_of (blocks t) (t_key_size t) f = key) (t_bidx t idx) = Some x"
        using recs by (simp cong: find_cong)
    qed
    then have "((view t)(idx := (map (key_of (blocks t) (t_key_size t)) ?fs, hw))) = spec_del idx key hw (view t)"
      by (simp add: spec_del_def view_def)
    with publish_view [OF pub(2) t idx(2) pub(1) self fs' _ _ _ ct fl] D t'(1) show ?thesis by auto
  qed
  have reads: "\<forall>c \<le> t_hash_mask t. c \<noteq> idx \<longrightarrow> hw_reads (blocks t) (t_key_size t) (elsewhere t idx) (t_heads t c)"
    using elsewhere_reads [OF t] by simp
  have live: "\<forall>a \<in> elsewhere t idx. blocks t a \<noteq> None" using elsewhere_live [OF t] by simp
  have fi: "f_index x = idx" using recs xin(1) by auto
  have "\<forall>f \<in> set ?fs. rec_ok (blocks t) f" using recs sub by auto
  from publish_spec [OF pool ks(1,2) fs this reads live]
  consider t1 where "bucket_publish e idx (Some x) t = Some ((0, t_cu t idx), t1)" "published True t idx ?fs (elsewhere t idx) t1"
    | t1 where "bucket_publish e idx (Some x) t = Some ((- ENOMEM, None), t1)" "core t1 = core t" "1 < length ?fs" by blast
  then show ?thesis
  proof cases
    case 1
    then show ?thesis
      using ks(1) x idx(1) fi by (intro finish [OF 1(2) _ refl]) (auto simp: del_key_def Let_def)
  next
    case 2
    obtain t2 where t2: "head_store idx 0 t1 = Some t2" "t_cu t2 = t_cu t"
        "published False t idx ?fs (elsewhere t idx) (t2\<lparr>t_cu := (t_cu t2)(idx := None), warnings := warnings t2 + 1\<rparr>)"
      using clear_spec [OF t 2(2)] by metis
    have "?fs \<noteq> []" using 2(3) by auto
    then show ?thesis
      using ks(1) x idx(1) fi 2(1) t2(1,2)
      by (intro finish [where old = "t_cu t2 idx", OF t2(3) [rule_format]]) (auto simp: del_key_def Let_def ENOMEM_def)
  qed
qed

end
