(* ===== verification/EhashTable.thy ===== *)
theory EhashTable
  imports EhashOps
begin

text \<open>
  The states the hash table can reach by insertions and deletions, in any order and with any allocation
  failures and SYNC timeouts, and what holds in all of them.
\<close>

section \<open>Reachable tables\<close>

inductive reaches :: "'h hw_env \<Rightarrow> nat \<Rightarrow> nat \<Rightarrow> 'h ehash \<Rightarrow> bool" for e ks hm where
  start: "reaches e ks hm (ehash_setup ks hm h)"
| add: "reaches e ks hm t \<Longrightarrow> length key = ks \<Longrightarrow> e_bucket e key \<le> hm \<Longrightarrow> ehash_add e key t = Some (err, t') \<Longrightarrow> reaches e ks hm t'"
| delete: "reaches e ks hm t \<Longrightarrow> e_bucket e (the key) \<le> hm \<Longrightarrow> del_key e key n t = Some (err, t') \<Longrightarrow> reaches e ks hm t'"

lemma setup_ok: "0 < ks \<Longrightarrow> ks \<le> 56 \<Longrightarrow> table_ok (ehash_setup ks hm h)"
  by (simp add: table_ok_def entry_ok_def in_hw_def bucket_ok_def owned_def ehash_setup_def)

lemma del_key_cases:
  assumes "dma_pool (e_zalloc e)" "table_ok t" "e_bucket e (the key) \<le> t_hash_mask t"
  shows "\<exists>err t'. del_key e key n t = Some (err, t') \<and> table_ok t' \<and> t_key_size t' = t_key_size t \<and> t_hash_mask t' = t_hash_mask t \<and>
    (err = - EINVAL \<and> (key = None \<or> n = 0 \<or> n \<noteq> t_key_size t) \<and> t' = t \<or>
     (\<exists>k. key = Some k \<and> n = t_key_size t \<and>
        (err = - ENOENT \<and> k \<notin> set (fst (view t (e_bucket e k))) \<and> t' = t \<or>
         err = 0 \<and> k \<in> set (fst (view t (e_bucket e k))) \<and>
           (\<exists>rebuilt. views_agree (t_hash_mask t) (view t') (spec_del (e_bucket e k) k rebuilt (view t))))))"
proof (cases "key = None \<or> n = 0 \<or> n \<noteq> t_key_size t")
  case True
  then show ?thesis using assms(2) by (cases key) (auto simp: del_key_def)
next
  case False
  then obtain k where k: "key = Some k" "n = t_key_size t" "n \<noteq> 0" by auto
  let ?idx = "e_bucket e k"
  have idx: "?idx \<le> t_hash_mask t" using assms(3) k by simp
  have "\<forall>f \<in> set (t_bidx t ?idx). f_key_size f = t_key_size t" using table_entry [OF assms(2) idx] by (auto simp: entry_ok_def)
  then have none: "find_flow t k n ?idx = None \<longleftrightarrow> k \<notin> set (fst (view t ?idx))"
    by (auto simp: find_flow_def find_None_iff view_def key_of_def k(2))
  show ?thesis
  proof (cases "find_flow t k n ?idx")
    case None
    then show ?thesis using none k assms(2) by (auto simp: del_key_def)
  next
    case (Some x)
    then have "find_flow t k (t_key_size t) ?idx = Some x" using k(2) by simp
    with del_key_spec [OF assms(1,2) refl idx] none Some k show ?thesis by (metis option.distinct(1))
  qed
qed

lemma reaches_ok:
  assumes "dma_pool (e_zalloc e)" "0 < ks" "ks \<le> 56" "reaches e ks hm t"
  shows "table_ok t \<and> t_key_size t = ks \<and> t_hash_mask t = hm"
  using assms(4)
proof induction
  case (start h)
  then show ?case using setup_ok [OF assms(2,3)] by (simp add: ehash_setup_def)
next
  case (add t key err t')
  then have "fst (zalloc e False t) \<noteq> None"
    by (cases "zalloc e False t"; cases "fst (zalloc e False t)") (auto simp: ehash_add_def Let_def)
  with add ehash_add_spec [OF assms(1), of t key] show ?case by fastforce
next
  case (delete t key n err t')
  with del_key_cases [OF assms(1), of t key n] show ?case by fastforce
qed

section \<open>Lookup\<close>

lemma walk_view:
  assumes "table_ok t" "b \<le> t_hash_mask t"
  shows "\<exists>hit touched. walk_bucket t b (Some key) = Some (hit, touched) \<and> set touched \<subseteq> owned t b \<and>
    (hit \<noteq> None \<longleftrightarrow> snd (view t b) \<and> key \<in> set (fst (view t b))) \<and>
    (\<forall>r. hit = Some r \<longrightarrow> rec_key (t_key_size t) (rec_bytes (blocks t) r) = key)"
proof (cases "in_hw t b")
  case True
  have e: "entry_ok t b" by (rule table_entry [OF assms])
  have ks: "0 < t_key_size t" "t_key_size t \<le> 56" using table_key_size [OF assms(1)] by auto
  have recs: "\<forall>f \<in> set (t_bidx t b). rec_ok (blocks t) f" using e by (simp add: entry_ok_def)
  obtain touched where w: "walk_head (blocks t) (t_key_size t) (t_heads t b) (Some key) =
        Some (first_match (blocks t) (t_key_size t) (Some key) (t_bidx t b) None, touched)"
      "set touched = f_record ` set (t_bidx t b) \<union> set (nodes_of (t_cu t b))"
    using bucket_walk [OF True [unfolded in_hw_def] recs ks] .
  have hit: "(first_match (blocks t) (t_key_size t) (Some key) (t_bidx t b) None \<noteq> None) =
      (key \<in> set (map (key_of (blocks t) (t_key_size t)) (t_bidx t b)))"
    by (auto simp: first_match_def find_None_iff)
  have "rec_key (t_key_size t) (rec_bytes (blocks t) r) = key"
    if "first_match (blocks t) (t_key_size t) (Some key) (t_bidx t b) None = Some r" for r
    using that by (auto simp: first_match_def find_Some_iff key_of_def)
  then show ?thesis using w hit True by (auto simp: walk_walk_head view_def owned_def)
next
  case False
  then have "t_heads t b = 0" using table_entry [OF assms] by (simp add: entry_ok_def)
  then show ?thesis using False by (simp add: walk_bucket_def view_def)
qed

section \<open>Drain\<close>

definition drain_entry :: "'h ehash \<Rightarrow> nat \<Rightarrow> bool" where
  "drain_entry t b = ((in_hw t b \<or> t_heads t b = 0) \<and> distinct (map f_record (t_bidx t b)) \<and>
     (\<forall>f \<in> set (t_bidx t b). rec_ok (blocks t) f \<and> f_index f = b) \<and> distinct (nodes_of (t_cu t b)) \<and>
     (\<forall>a \<in> set (nodes_of (t_cu t b)). \<exists>blk. blocks t a = Some blk \<and> b_node blk))"

definition drain_ok :: "'h ehash \<Rightarrow> bool" where
  "drain_ok t = (draining t \<and> 0 < t_key_size t \<and> t_key_size t \<le> 56 \<and>
     (\<forall>b \<le> t_hash_mask t. drain_entry t b) \<and>
     (\<forall>b \<le> t_hash_mask t. \<forall>c \<le> t_hash_mask t. b \<noteq> c \<longrightarrow> owned t b \<inter> owned t c = {}) \<and>
     distinct (t_flows t) \<and> set (t_flows t) = (\<Union>b \<le> t_hash_mask t. set (t_bidx t b)))"

lemma table_drain:
  assumes "table_ok t"
  shows "drain_ok (t\<lparr>draining := True\<rparr>)"
proof -
  have "drain_entry (t\<lparr>draining := True\<rparr>) b" if "b \<le> t_hash_mask t" for b
    using table_entry [OF assms that] entry_nodes [of t b] by (auto simp: drain_entry_def entry_ok_def in_hw_def)
  then show ?thesis using assms by (simp add: table_ok_def drain_ok_def owned_def)
qed

lemma drain_entryD: "drain_ok t \<Longrightarrow> b \<le> t_hash_mask t \<Longrightarrow> drain_entry t b"
  and drain_basics: "drain_ok t \<Longrightarrow> draining t \<and> 0 < t_key_size t \<and> t_key_size t \<le> 56"
  and drain_disjoint: "drain_ok t \<Longrightarrow> b \<le> t_hash_mask t \<Longrightarrow> c \<le> t_hash_mask t \<Longrightarrow> b \<noteq> c \<Longrightarrow> owned t b \<inter> owned t c = {}"
  and drain_flows: "drain_ok t \<Longrightarrow> distinct (t_flows t) \<and> set (t_flows t) = (\<Union>b \<le> t_hash_mask t. set (t_bidx t b))"
  by (simp_all add: drain_ok_def)

lemma drain_reads:
  assumes "drain_ok t" "c \<le> t_hash_mask t"
  shows "hw_reads (blocks t) (t_key_size t) UNIV (t_heads t c)"
proof (cases "in_hw t c")
  case True
  then show ?thesis using drain_entryD [OF assms] unfolding hw_reads_def in_hw_def drain_entry_def by blast
next
  case False
  then have "t_heads t c = 0" using drain_entryD [OF assms] by (simp add: drain_entry_def)
  then show ?thesis by simp
qed

text \<open>An entry whose own blocks keep their content stays as it is.\<close>

lemma drain_entry_content:
  assumes "drain_entry t b" "\<forall>a \<in> owned t b. block_content (blocks t') a = block_content (blocks t) a"
    "t_key_size t' = t_key_size t" "t_heads t' b = t_heads t b" "t_cu t' b = t_cu t b" "t_bidx t' b = t_bidx t b"
    "0 < t_key_size t" "t_key_size t \<le> 56"
  shows "drain_entry t' b"
proof -
  note geo = geometry [OF assms(7,8)]
  note node_fits = node_geometry.node_fits [OF geo]
  have "in_hw t b \<Longrightarrow> in_hw t' b"
    using bucket_content [of "blocks t" _ _ _ _ "blocks t'"] assms(2-6) node_fits(1) by (simp add: in_hw_def owned_def)
  moreover have "rec_ok (blocks t') f" if "f \<in> set (t_bidx t b)" for f
    using that assms(1,2) content_rec [of "blocks t" f "blocks t'"] by (auto simp: drain_entry_def owned_def)
  moreover have "\<exists>blk. blocks t' a = Some blk \<and> b_node blk" if a: "a \<in> set (nodes_of (t_cu t b))" for a
  proof -
    obtain blk where "blocks t a = Some blk" "b_node blk" using a assms(1) by (auto simp: drain_entry_def)
    then show ?thesis using content_Some [of "blocks t" a "blocks t'" blk] a assms(2) by (auto simp: owned_def)
  qed
  ultimately show ?thesis using assms(1,3-6) by (auto simp: drain_entry_def)
qed

lemma drain_flow_spec:
  assumes d: "drain_ok t" and fl: "t_flows t = f # fs"
  shows "\<exists>t'. drain_flow f t = Some t' \<and> drain_ok t' \<and> t_flows t' = fs \<and> t_hash_mask t' = t_hash_mask t \<and> t_cu t' = t_cu t \<and>
    t_heads t' = (t_heads t)(f_index f := 0) \<and> t_bidx t' = (t_bidx t)(f_index f := remove1 f (t_bidx t (f_index f))) \<and>
    (\<forall>a. blocks t' a = None \<longleftrightarrow> blocks t a = None \<or> a = f_record f)"
proof -
  let ?b = "f_index f"
  obtain c where c: "c \<le> t_hash_mask t" "f \<in> set (t_bidx t c)" using drain_flows [OF d] fl by auto
  note entry = drain_entryD [OF d]
  have f: "?b \<le> t_hash_mask t" "f \<in> set (t_bidx t ?b)" "rec_ok (blocks t) f"
    using entry [OF c(1)] c by (auto simp: drain_entry_def)
  have ks: "0 < t_key_size t" "t_key_size t \<le> 56" "draining t" using drain_basics [OF d] by auto
  have "\<forall>c \<le> t_hash_mask t. hw_reads (blocks t) (t_key_size t) UNIV (if c = ?b then 0 else t_heads t c)"
    using drain_reads [OF d] by simp
  then obtain m where m: "head_store ?b 0 t =
      Some (t\<lparr>wmb_pending := False, t_heads := (t_heads t)(?b := 0), head_writes := head_writes t + 1, blocks := m\<rparr>)"
    "\<forall>a. block_content m a = block_content (blocks t) a"
    by (rule head_store_spec [OF ks(1,2) disjI1 [OF refl]])
  let ?t' = "kfree (t\<lparr>wmb_pending := False, t_heads := (t_heads t)(?b := 0), head_writes := head_writes t + 1,
    t_flows := fs, t_bidx := (t_bidx t)(?b := remove1 f (t_bidx t ?b)), blocks := m(f_record f := None)\<rparr>)"
  obtain blk where "blocks t (f_record f) = Some blk" "\<not> b_node blk" using f(3) by (auto simp: rec_ok_def)
  then obtain blk' where "m (f_record f) = Some blk'" "\<not> b_node blk'"
    using content_Some [of "blocks t" "f_record f" m blk] m(2) by auto
  then have "drain_flow f t = Some ?t'"
    using m(1) fl ks(3) by (simp add: drain_flow_def dma_pool_free_def assert_opt_def)
  moreover have none: "\<forall>a. blocks ?t' a = None \<longleftrightarrow> blocks t a = None \<or> a = f_record f"
  proof
    fix a
    have "m a = None \<longleftrightarrow> blocks t a = None" using m(2) [rule_format, of a] by (auto simp: block_content_def)
    then show "blocks ?t' a = None \<longleftrightarrow> blocks t a = None \<or> a = f_record f" by (simp add: kfree_def)
  qed
  moreover have "drain_ok ?t'"
  proof -
    have keep: "block_content (blocks ?t') a = block_content (blocks t) a" if "a \<noteq> f_record f" for a
      using m(2) that by (simp add: kfree_def block_content_def)
    have dist: "distinct (t_bidx t ?b)" "distinct (map f_record (t_bidx t ?b))"
      using entry [OF f(1)] by (auto simp: drain_entry_def distinct_map)
    then have rm: "set (remove1 f (t_bidx t ?b)) = set (t_bidx t ?b) - {f}" by simp
    have others: "drain_entry ?t' b" if "b \<le> t_hash_mask t" "b \<noteq> ?b" for b
    proof (rule drain_entry_content [OF entry [OF that(1)]])
      have "owned t b \<inter> owned t ?b = {}" by (rule drain_disjoint [OF d that(1) f(1) that(2)])
      moreover have "f_record f \<in> owned t ?b" using f(2) by (simp add: owned_def)
      ultimately have "f_record f \<notin> owned t b" by blast
      then show "\<forall>a \<in> owned t b. block_content (blocks ?t') a = block_content (blocks t) a" using keep by metis
    qed (use ks that in \<open>simp_all add: kfree_def\<close>)
    have own: "drain_entry ?t' ?b"
    proof -
      have "rec_ok (blocks ?t') g" if g: "g \<in> set (t_bidx t ?b)" "g \<noteq> f" for g
      proof -
        have "f_record g \<noteq> f_record f" using dist(2) f(2) g by (auto simp: distinct_map inj_on_def)
        then show ?thesis using keep content_rec [of "blocks t" g "blocks ?t'"] entry [OF f(1)] g by (auto simp: drain_entry_def)
      qed
      moreover have "\<exists>blk. blocks ?t' a = Some blk \<and> b_node blk" if a: "a \<in> set (nodes_of (t_cu t ?b))" for a
      proof -
        obtain blk where b: "blocks t a = Some blk" "b_node blk" using a entry [OF f(1)] by (auto simp: drain_entry_def)
        then have "a \<noteq> f_record f" using f(3) by (auto simp: rec_ok_def)
        then show ?thesis using content_Some [OF keep [symmetric], of a blk] b by auto
      qed
      ultimately show ?thesis
        using entry [OF f(1)] rm dist by (auto simp: drain_entry_def kfree_def distinct_map intro: inj_on_subset)
    qed
    have "drain_entry ?t' b" if "b \<le> t_hash_mask t" for b using others [OF that] own by (cases "b = ?b") simp_all
    moreover have "owned ?t' b \<subseteq> owned t b" for b
      using rm by (auto simp: owned_def kfree_def)
    then have "owned ?t' b \<inter> owned ?t' c = {}" if "b \<le> t_hash_mask t" "c \<le> t_hash_mask t" "b \<noteq> c" for b c
      using drain_disjoint [OF d that] by blast
    moreover have "f \<notin> set (t_bidx t b)" if "b \<le> t_hash_mask t" "b \<noteq> ?b" for b
      using entry [OF that(1)] that(2) by (auto simp: drain_entry_def)
    then have "set (((t_bidx t)(?b := remove1 f (t_bidx t ?b))) b) = set (t_bidx t b) - {f}" if "b \<le> t_hash_mask t" for b
      using that rm by (cases "b = ?b") auto
    then have "(\<Union>b \<le> t_hash_mask t. set (((t_bidx t)(?b := remove1 f (t_bidx t ?b))) b)) = (\<Union>b \<le> t_hash_mask t. set (t_bidx t b) - {f})"
      by (intro SUP_cong) simp_all
    then have "set fs = (\<Union>b \<le> t_hash_mask t. set (((t_bidx t)(?b := remove1 f (t_bidx t ?b))) b))" "distinct fs"
      using drain_flows [OF d] unfolding fl by auto
    ultimately show ?thesis using ks by (simp add: drain_ok_def kfree_def)
  qed
  ultimately show ?thesis by (intro exI [of _ ?t']) (simp add: kfree_def)
qed

lemma drain_flows_spec:
  "drain_ok t \<Longrightarrow> \<exists>t'. foldO drain_flow (t_flows t) t = Some t' \<and> drain_ok t' \<and> t_flows t' = [] \<and> t_hash_mask t' = t_hash_mask t \<and>
     t_cu t' = t_cu t \<and> (\<forall>b \<le> t_hash_mask t. t_heads t' b = 0 \<or> t_heads t' b = t_heads t b \<and> t_bidx t b = t_bidx t' b) \<and>
     (\<forall>a. blocks t' a = None \<longleftrightarrow> blocks t a = None \<or> a \<in> f_record ` set (t_flows t))"
proof (induction "t_flows t" arbitrary: t)
  case Nil
  then show ?case by (intro exI [of _ t]) simp
next
  case (Cons f fs)
  from drain_flow_spec [OF Cons.prems Cons.hyps(2) [symmetric]]
  obtain t1 where t1: "drain_flow f t = Some t1" "drain_ok t1" "t_flows t1 = fs" "t_hash_mask t1 = t_hash_mask t" "t_cu t1 = t_cu t"
      "t_heads t1 = (t_heads t)(f_index f := 0)" "t_bidx t1 = (t_bidx t)(f_index f := remove1 f (t_bidx t (f_index f)))"
      "\<forall>a. blocks t1 a = None \<longleftrightarrow> blocks t a = None \<or> a = f_record f"
    by blast
  from Cons.hyps(1) [OF t1(3) [symmetric] t1(2)]
  obtain t2 where t2: "foldO drain_flow fs t1 = Some t2" "drain_ok t2" "t_flows t2 = []" "t_hash_mask t2 = t_hash_mask t" "t_cu t2 = t_cu t"
      "\<forall>b \<le> t_hash_mask t. t_heads t2 b = 0 \<or> t_heads t2 b = t_heads t1 b \<and> t_bidx t1 b = t_bidx t2 b"
      "\<forall>a. blocks t2 a = None \<longleftrightarrow> blocks t1 a = None \<or> a \<in> f_record ` set fs"
    unfolding t1(3-5) by blast
  have "t_heads t2 b = 0 \<or> t_heads t2 b = t_heads t b \<and> t_bidx t b = t_bidx t2 b" if "b \<le> t_hash_mask t" for b
    using t2(6) that t1(6,7) by (cases "b = f_index f") auto
  then show ?case using t1(1,8) t2 Cons.hyps(2) [symmetric] by (intro exI [of _ t2]) auto
qed

lemma drain_bucket_spec:
  assumes d: "drain_ok t" and b: "b \<le> t_hash_mask t" "t_heads t b = 0"
  shows "\<exists>t'. drain_bucket b t = Some t' \<and> drain_ok t' \<and> t_flows t' = t_flows t \<and> t_hash_mask t' = t_hash_mask t \<and>
    t_heads t' = t_heads t \<and> t_bidx t' = t_bidx t \<and> t_cu t' = (t_cu t)(b := None) \<and>
    (\<forall>a. blocks t' a = None \<longleftrightarrow> blocks t a = None \<or> a \<in> set (nodes_of (t_cu t b)))"
proof -
  let ?D = "set (nodes_of (t_cu t b))"
  have entry: "drain_entry t b" by (rule drain_entryD [OF d b(1)])
  obtain t1 where t1: "cu_free (t_cu t b) t = Some t1" "core t1 = core (t\<lparr>blocks := \<lambda>a. if a \<in> ?D then None else blocks t a\<rparr>)"
  proof (cases "t_cu t b")
    case None
    then show ?thesis using that [of t] by (simp add: cu_free_def core_def)
  next
    case (Some as)
    have "foldO (dma_pool_free True) as t = Some (t\<lparr>blocks := \<lambda>a. if a \<in> set as then None else blocks t a\<rparr>)"
      using entry drain_basics [OF d] Some by (intro free_nodes) (auto simp: drain_entry_def)
    then show ?thesis using that [of "kfree (t\<lparr>blocks := \<lambda>a. if a \<in> set as then None else blocks t a\<rparr>)"] Some
      by (simp add: cu_free_def core_def kfree_def)
  qed
  note c = core_fields [OF t1(2)]
  let ?t' = "t1\<lparr>t_cu := (t_cu t1)(b := None)\<rparr>"
  have F: "t_key_size ?t' = t_key_size t" "t_hash_mask ?t' = t_hash_mask t" "t_heads ?t' = t_heads t" "t_bidx ?t' = t_bidx t"
      "t_cu ?t' = (t_cu t)(b := None)" "t_flows ?t' = t_flows t" "draining ?t' = draining t"
      "blocks ?t' = (\<lambda>a. if a \<in> ?D then None else blocks t a)"
    using c by simp_all
  have keep: "block_content (blocks ?t') a = block_content (blocks t) a" if "a \<notin> ?D" for a using that by (simp add: F block_content_def)
  have "drain_entry ?t' e" if e: "e \<le> t_hash_mask t" for e
  proof (cases "e = b")
    case False
    have "owned t e \<inter> owned t b = {}" by (rule drain_disjoint [OF d e b(1) False])
    then have "\<forall>a \<in> owned t e. block_content (blocks ?t') a = block_content (blocks t) a" using keep by (auto simp: owned_def)
    with False drain_basics [OF d] show ?thesis
      by (intro drain_entry_content [OF drain_entryD [OF d e]]) (simp_all add: F)
  next
    case True
    have "rec_ok (blocks ?t') f" if f: "f \<in> set (t_bidx t b)" for f
    proof -
      have "rec_ok (blocks t) f" using f entry by (simp add: drain_entry_def)
      moreover from this have "f_record f \<notin> ?D" using entry by (auto simp: drain_entry_def rec_ok_def)
      ultimately show ?thesis using keep content_rec [of "blocks t" f "blocks ?t'"] by simp
    qed
    then show ?thesis using True entry b(2) by (simp add: drain_entry_def F)
  qed
  moreover have "owned ?t' e \<subseteq> owned t e" for e by (auto simp: owned_def F)
  then have "owned ?t' x \<inter> owned ?t' y = {}" if "x \<le> t_hash_mask t" "y \<le> t_hash_mask t" "x \<noteq> y" for x y
    using drain_disjoint [OF d that] by blast
  ultimately have "drain_ok ?t'" using drain_basics [OF d] drain_flows [OF d] by (simp add: drain_ok_def F)
  moreover have "drain_bucket b t = Some ?t'" by (simp add: drain_bucket_def t1(1))
  ultimately show ?thesis using F by (intro exI [of _ ?t']) simp
qed

lemma drain_buckets_spec:
  "drain_ok t \<Longrightarrow> \<forall>b \<in> set bs. b \<le> t_hash_mask t \<and> t_heads t b = 0 \<Longrightarrow>
   \<exists>t'. foldO drain_bucket bs t = Some t' \<and> t_flows t' = t_flows t \<and> t_hash_mask t' = t_hash_mask t \<and> t_heads t' = t_heads t \<and>
     t_bidx t' = t_bidx t \<and> (\<forall>b. t_cu t' b = (if b \<in> set bs then None else t_cu t b)) \<and>
     (\<forall>a. blocks t' a = None \<longleftrightarrow> blocks t a = None \<or> (\<exists>b \<in> set bs. a \<in> set (nodes_of (t_cu t b))))"
proof (induction bs arbitrary: t)
  case (Cons b bs)
  then obtain t1 where t1: "drain_bucket b t = Some t1" "drain_ok t1" "t_flows t1 = t_flows t" "t_hash_mask t1 = t_hash_mask t"
      "t_heads t1 = t_heads t" "t_bidx t1 = t_bidx t" "t_cu t1 = (t_cu t)(b := None)"
      "\<forall>a. blocks t1 a = None \<longleftrightarrow> blocks t a = None \<or> a \<in> set (nodes_of (t_cu t b))"
    using drain_bucket_spec [of t b] by auto
  with Cons.IH [of t1] Cons.prems(2) obtain t2 where t2: "foldO drain_bucket bs t1 = Some t2" "t_flows t2 = t_flows t"
      "t_hash_mask t2 = t_hash_mask t" "t_heads t2 = t_heads t" "t_bidx t2 = t_bidx t"
      "\<forall>c. t_cu t2 c = (if c \<in> set bs then None else t_cu t1 c)"
      "\<forall>a. blocks t2 a = None \<longleftrightarrow> blocks t1 a = None \<or> (\<exists>c \<in> set bs. a \<in> set (nodes_of (t_cu t1 c)))"
    by auto
  have "blocks t2 a = None \<longleftrightarrow> blocks t a = None \<or> (\<exists>c \<in> set (b # bs). a \<in> set (nodes_of (t_cu t c)))" for a
    using t2(7) t1(7,8) by (auto split: if_splits)
  then show ?case using t1(1,7) t2(1-6) by (intro exI [of _ t2]) auto
qed simp

lemma ehash_drain_spec:
  assumes "table_ok t"
  shows "\<exists>t'. ehash_drain t = Some t' \<and> t_flows t' = [] \<and>
    (\<forall>b \<le> t_hash_mask t. t_heads t' b = 0 \<and> t_cu t' b = None \<and> t_bidx t' b = []) \<and>
    (\<forall>a. blocks t' a \<noteq> None \<longleftrightarrow> blocks t a \<noteq> None \<and> (\<forall>b \<le> t_hash_mask t. a \<notin> owned t b))"
proof -
  let ?t = "t\<lparr>draining := True\<rparr>"
  have d: "drain_ok ?t" by (rule table_drain [OF assms])
  obtain t1 where t1: "foldO drain_flow (t_flows ?t) ?t = Some t1" "drain_ok t1" "t_flows t1 = []" "t_hash_mask t1 = t_hash_mask t"
      "t_cu t1 = t_cu t" "\<forall>b \<le> t_hash_mask t. t_heads t1 b = 0 \<or> t_heads t1 b = t_heads t b \<and> t_bidx t b = t_bidx t1 b"
      "\<forall>a. blocks t1 a = None \<longleftrightarrow> blocks t a = None \<or> a \<in> f_record ` set (t_flows t)"
    using drain_flows_spec [OF d] by auto
  have empty: "t_bidx t1 b = []" if "b \<le> t_hash_mask t" for b
    using drain_flows [OF t1(2)] t1(3,4) that by auto
  have head: "t_heads t1 b = 0" if b: "b \<le> t_hash_mask t" for b
  proof (rule ccontr)
    assume h: "t_heads t1 b \<noteq> 0"
    with t1(6) b have "t_heads t b \<noteq> 0" "t_bidx t b = []" using empty [OF b] by auto
    with table_entry [OF assms b] show False by (auto simp: entry_ok_def in_hw_def bucket_ok_def)
  qed
  have bs: "\<forall>b \<in> set [0..<t_hash_mask t + 1]. b \<le> t_hash_mask t1 \<and> t_heads t1 b = 0"
    using head t1(4) by (simp del: upt_Suc add: less_Suc_eq_le)
  obtain t2 where t2: "foldO drain_bucket [0..<t_hash_mask t + 1] t1 = Some t2" "t_flows t2 = []" "t_hash_mask t2 = t_hash_mask t"
      "t_heads t2 = t_heads t1" "t_bidx t2 = t_bidx t1" "\<forall>b. t_cu t2 b = (if b \<in> set [0..<t_hash_mask t + 1] then None else t_cu t b)"
      "\<forall>a. blocks t2 a = None \<longleftrightarrow> blocks t1 a = None \<or> (\<exists>b \<in> set [0..<t_hash_mask t + 1]. a \<in> set (nodes_of (t_cu t b)))"
    using drain_buckets_spec [OF t1(2) bs] t1(3-5) by (metis (no_types, lifting))
  have "f_record ` set (t_flows t) = (\<Union>b \<le> t_hash_mask t. f_record ` set (t_bidx t b))"
    using table_flows [OF assms] by auto
  then have "blocks t2 a \<noteq> None \<longleftrightarrow> blocks t a \<noteq> None \<and> (\<forall>b \<le> t_hash_mask t. a \<notin> owned t b)" for a
    using t1(7) t2(7) by (auto simp: owned_def less_Suc_eq_le simp del: upt_Suc)
  moreover have "ehash_drain t = Some (t2\<lparr>draining := False\<rparr>)"
    using t1(1,4) t2(1) by (simp add: ehash_drain_def flow_drain_def del: upt_Suc)
  ultimately show ?thesis using t2 head empty by (intro exI [of _ "t2\<lparr>draining := False\<rparr>"]) (simp add: less_Suc_eq_le del: upt_Suc)
qed

section \<open>SYNC\<close>

lemma sync_poll_counts:
  "sync_poll e n v t = (v', t') \<Longrightarrow> sync_wedged t' = sync_wedged t \<and> sync_timeouts t' = sync_timeouts t"
proof (induction e n v t rule: sync_poll.induct)
  case (2 e n v t)
  then show ?case by (fastforce simp: get_fpm_extc_def Let_def split: prod.splits if_splits)
qed simp

lemma sync_tries_counts:
  "sync_tries e attempt n v t = Some (r, t') \<Longrightarrow> syncs t' \<le> syncs t + n \<and> reads t' \<le> reads t + n * 100000 \<and>
     (if r then sync_wedged t' = sync_wedged t else sync_wedged t' = sync_wedged t + 1 \<and> sync_timeouts t' = sync_timeouts t + n)"
proof (induction n arbitrary: attempt v t)
  case (Suc n)
  let ?t = "t\<lparr>barrier := False, syncs := syncs t + 1, world := e_set_extc e INV0 (world t)\<rparr>"
  obtain w t1 where p: "sync_poll e 100000 v ?t = (w, t1)" by fastforce
  have t1: "syncs t1 = syncs t + 1" "reads t1 \<le> reads t + 100000" "sync_wedged t1 = sync_wedged t" "sync_timeouts t1 = sync_timeouts t"
    using sync_poll_spec [OF p] sync_poll_counts [OF p] by auto
  have set: "set_fpm_extc e INV0 (t\<lparr>barrier := True\<rparr>) = Some ?t" by (simp add: set_fpm_extc_def assert_opt_def)
  show ?case
  proof (cases "and w INV0 = 0")
    case True
    with Suc.prems p set t1 show ?thesis by (auto split: if_splits)
  next
    case False
    with Suc.prems p set have "sync_tries e (attempt + 1) n w (t1\<lparr>sync_timeouts := sync_timeouts t1 + 1\<rparr>) = Some (r, t')" by simp
    from Suc.IH [OF this] t1 show ?thesis by (auto split: if_splits)
  qed
qed auto

section \<open>Properties\<close>

text \<open>C36. Every SYNC ends, after at most three commands and 300000 register reads, and changes nothing of the
  table.  When it succeeds the hardware has passed the last head store; when it fails the table is counted
  as wedged, with three time-outs.\<close>

theorem sync_bounded:
  assumes "t_has_fman t"
  shows "\<exists>r t'. ehash_sync e t = Some (r, t') \<and> core t' = core t \<and> syncs t' \<le> syncs t + 3 \<and> reads t' \<le> reads t + 300000 \<and>
    (if r then sync_mark t' = head_writes t' \<and> sync_wedged t' = sync_wedged t
     else sync_wedged t' = sync_wedged t + 1 \<and> sync_timeouts t' = sync_timeouts t + 3)"
proof -
  obtain r t' where r: "ehash_sync e t = Some (r, t')" "core t' = core t" "r \<longrightarrow> sync_mark t' = head_writes t"
    by (rule ehash_sync_spec [OF assms])
  then have "sync_tries e 0 3 0 t = Some (r, t')" using assms by (simp add: ehash_sync_def FMAN_EHASH_SYNC_TRIES_def)
  from sync_tries_counts [OF this] r core_fields [OF r(2)] show ?thesis by (cases r) auto
qed

theorem sync_bounded_witness:
  "\<exists>r t'. ehash_sync (harness_env 1) (ehash_setup 50 1 (harness0\<lparr>fm_timeout := True\<rparr>)) = Some (r, t') \<and> syncs t' \<le> 3 \<and> reads t' \<le> 300000"
  using sync_bounded [of "ehash_setup 50 1 (harness0\<lparr>fm_timeout := True\<rparr>)" "harness_env 1"] by (fastforce simp: ehash_setup_def)



text \<open>C2. In every reachable state the operations do what the abstract table says.  An insertion whose record can be
  allocated returns, and either reports no memory and leaves the table as it was or adds the key at the
  front of its bucket, which the hardware then has; a deletion removes the first flow with the key when there
  is one and otherwise returns \<^verbatim>\<open>-ENOENT\<close> without a change.  No assertion of the harness fails on the way.\<close>

theorem table_refined:
  assumes "dma_pool (e_zalloc e)" "0 < ks" "ks \<le> 56" "reaches e ks hm t" "length key = ks" "e_bucket e key \<le> hm"
  shows "(fst (zalloc e False t) = None \<or>
      (\<exists>err t'. ehash_add e key t = Some (err, t') \<and>
        (err = - ENOMEM \<and> view t' = view t \<or> err = 0 \<and> views_agree hm (view t') (spec_add (e_bucket e key) key (view t))))) \<and>
    (\<exists>err t' rebuilt. del_key e (Some key) ks t = Some (err, t') \<and>
      (if key \<in> set (fst (view t (e_bucket e key)))
       then err = 0 \<and> views_agree hm (view t') (spec_del (e_bucket e key) key rebuilt (view t))
       else err = - ENOENT \<and> t' = t))"
proof
  note ok = reaches_ok [OF assms(1-4)]
  show "fst (zalloc e False t) = None \<or>
      (\<exists>err t'. ehash_add e key t = Some (err, t') \<and>
        (err = - ENOMEM \<and> view t' = view t \<or> err = 0 \<and> views_agree hm (view t') (spec_add (e_bucket e key) key (view t))))"
  proof (cases "fst (zalloc e False t) = None")
    case False
    with ehash_add_spec [OF assms(1), of t key "e_bucket e key"] ok assms(5,6) core_view show ?thesis by metis
  qed simp
  show "\<exists>err t' rebuilt. del_key e (Some key) ks t = Some (err, t') \<and>
      (if key \<in> set (fst (view t (e_bucket e key)))
       then err = 0 \<and> views_agree hm (view t') (spec_del (e_bucket e key) key rebuilt (view t))
       else err = - ENOENT \<and> t' = t)"
    using del_key_cases [OF assms(1), of t "Some key" ks] ok assms(2,6) by (auto simp: ENOENT_def)
qed

lemma one_flow: "\<exists>t. reaches (harness_env 1) 4 1 t \<and> fst (view t 0) = [make_key 4 1 0]"
proof -
  let ?e = "harness_env 1" and ?k = "make_key 4 1 0"
  have "case ehash_add ?e ?k (ehash_setup 4 1 harness0) of None \<Rightarrow> False
      | Some (err, t) \<Rightarrow> err = 0 \<and> map (key_of (blocks t) (t_key_size t)) (t_bidx t 0) = [?k]"
    by code_simp
  then obtain t where t: "ehash_add ?e ?k (ehash_setup 4 1 harness0) = Some (0, t)" "fst (view t 0) = [?k]"
    unfolding view_def fst_conv by (simp split: option.splits prod.splits)
  have "length ?k = 4" "e_bucket ?e ?k \<le> 1" by (simp_all add: make_key_def harness_env_def)
  then have "reaches ?e 4 1 t" by (rule reaches.add [OF reaches.start _ _ t(1)])
  then show ?thesis using t(2) by blast
qed

theorem table_refined_witness:
  "\<exists>t err t' rebuilt. fst (view t 0) = [make_key 4 1 0] \<and>
     del_key (harness_env 1) (Some (make_key 4 1 0)) 4 t = Some (err, t') \<and> err = 0 \<and>
     views_agree 1 (view t') (spec_del 0 (make_key 4 1 0) rebuilt (view t))"
proof -
  let ?k = "make_key 4 1 0"
  obtain t where t: "reaches (harness_env 1) 4 1 t" "fst (view t 0) = [?k]" using one_flow by blast
  have pool: "dma_pool (e_zalloc (harness_env 1))" using harness_pool.dma_pool_axioms by (simp add: harness_env_def)
  have b: "length ?k = 4" "e_bucket (harness_env 1) ?k = 0" by (simp_all add: make_key_def harness_env_def)
  show ?thesis using table_refined [OF pool _ _ t(1) b(1)] b(2) t(2) by auto
qed

text \<open>C3. In every reachable state the microcode's lookup ends, reads only live blocks of the bucket's own flows and nodes,
  and finds a record exactly when the hardware has the bucket and the bucket has the key; the record found
  carries the key.\<close>

theorem lookup_agrees:
  assumes "dma_pool (e_zalloc e)" "0 < ks" "ks \<le> 56" "reaches e ks hm t" "b \<le> hm"
  shows "\<exists>hit touched. walk_bucket t b (Some key) = Some (hit, touched) \<and>
    (\<forall>a \<in> set touched. a \<in> owned t b \<and> blocks t a \<noteq> None) \<and>
    (hit \<noteq> None \<longleftrightarrow> snd (view t b) \<and> key \<in> set (fst (view t b))) \<and>
    (\<forall>r. hit = Some r \<longrightarrow> rec_key ks (rec_bytes (blocks t) r) = key)"
proof -
  have ok: "table_ok t" "t_key_size t = ks" "b \<le> t_hash_mask t" using reaches_ok [OF assms(1-4)] assms(5) by auto
  with walk_view [OF ok(1,3), of key] owned_live [OF table_entry [OF ok(1,3)]] show ?thesis by (fastforce simp: subset_iff)
qed

theorem lookup_agrees_witness:
  "\<exists>(t :: harness ehash) hit touched. fst (view t 0) = [make_key 4 1 0] \<and>
     walk_bucket t 0 (Some (make_key 4 1 0)) = Some (hit, touched) \<and> (hit \<noteq> None \<longleftrightarrow> snd (view t 0))"
proof -
  obtain t where t: "reaches (harness_env 1) 4 1 t" "fst (view t 0) = [make_key 4 1 0]" using one_flow by blast
  have pool: "dma_pool (e_zalloc (harness_env 1))" using harness_pool.dma_pool_axioms by (simp add: harness_env_def)
  obtain hit touched where "walk_bucket t 0 (Some (make_key 4 1 0)) = Some (hit, touched)"
      "hit \<noteq> None \<longleftrightarrow> snd (view t 0) \<and> make_key 4 1 0 \<in> set (fst (view t 0))"
    using lookup_agrees [OF pool _ _ t(1), of 0 "make_key 4 1 0"] by auto
  moreover from this have "hit \<noteq> None \<longleftrightarrow> snd (view t 0)" unfolding t(2) by simp
  ultimately show ?thesis using t(2) by blast
qed

text \<open>C4. From every reachable state the drain runs without a failed assertion, empties every bucket and the flow list,
  and frees each block a flow or a bucket still owns, once, and no other.\<close>

theorem drain_frees_all:
  assumes "dma_pool (e_zalloc e)" "0 < ks" "ks \<le> 56" "reaches e ks hm t"
  shows "\<exists>t'. ehash_drain t = Some t' \<and> t_flows t' = [] \<and>
    (\<forall>b \<le> hm. t_heads t' b = 0 \<and> t_cu t' b = None \<and> t_bidx t' b = []) \<and>
    (\<forall>a. blocks t' a \<noteq> None \<longleftrightarrow> blocks t a \<noteq> None \<and> (\<forall>b \<le> hm. a \<notin> owned t b))"
  using reaches_ok [OF assms] ehash_drain_spec [of t] by auto

theorem drain_frees_all_witness:
  "\<exists>t (t' :: harness ehash). fst (view t 0) = [make_key 4 1 0] \<and> ehash_drain t = Some t' \<and> t_flows t' = [] \<and> t_heads t' 0 = 0"
proof -
  obtain t where t: "reaches (harness_env 1) 4 1 t" "fst (view t 0) = [make_key 4 1 0]" using one_flow by blast
  have pool: "dma_pool (e_zalloc (harness_env 1))" using harness_pool.dma_pool_axioms by (simp add: harness_env_def)
  obtain t' where "ehash_drain t = Some t'" "t_flows t' = []" "\<forall>b \<le> 1. t_heads t' b = 0 \<and> t_cu t' b = None \<and> t_bidx t' b = []"
    using drain_frees_all [OF pool _ _ t(1)] by auto
  then show ?thesis using t(2) by blast
qed

end
