(* ===== verification/FwInfo.thy ===== *)
theory FwInfo
  imports QefPatch Hw Json Replace "HOL-Library.Monad_Syntax"
begin

text \<open>
  The operational command \<^verbatim>\<open>show hardware firmware\<close>
  (\<^verbatim>\<open>data/vyos-1x-files/src/op_mode/show_hardware_firmware.py\<close>): the readers that recognise firmware
  in the flash partitions, the report and its machine-readable digest.  Text is the list of its UTF-8
  bytes as characters; a table is kept as its cells, the wrapping and the drawing are left out.
  \<^verbatim>\<open>SYS_ROOT\<close> is empty, as it is outside the test harness.
\<close>

section \<open>Text\<close>

definition str_of :: "byte list \<Rightarrow> string" where "str_of bs = map (\<lambda>b. char_of (unat b)) bs"

definition bytes_of :: "string \<Rightarrow> byte list" where "bytes_of s = map (\<lambda>c. of_nat (of_char c)) s"

text \<open>\<^verbatim>\<open>decode()\<close> and \<^verbatim>\<open>decode(errors="replace")\<close>: every maximal ill-formed part becomes U+FFFD.\<close>

definition byte_in :: "byte \<Rightarrow> byte \<Rightarrow> byte \<Rightarrow> bool" where "byte_in lo hi b = (lo \<le> b \<and> b \<le> hi)"

definition tail_length :: "byte \<Rightarrow> nat option" where
  "tail_length b =
     (if b < 0x80 then Some 0 else if byte_in 0xC2 0xDF b then Some 1
      else if byte_in 0xE0 0xEF b then Some 2 else if byte_in 0xF0 0xF4 b then Some 3 else None)"

definition second_ok :: "byte \<Rightarrow> byte \<Rightarrow> bool" where
  "second_ok b c =
     (if b = 0xE0 then byte_in 0xA0 0xBF c else if b = 0xED then byte_in 0x80 0x9F c
      else if b = 0xF0 then byte_in 0x90 0xBF c else if b = 0xF4 then byte_in 0x80 0x8F c else byte_in 0x80 0xBF c)"

definition tail_good :: "nat \<Rightarrow> byte \<Rightarrow> byte list \<Rightarrow> nat" where
  "tail_good n b bs =
     (case take n bs of [] \<Rightarrow> 0
      | c # cs \<Rightarrow> if second_ok b c then 1 + length (takeWhile (byte_in 0x80 0xBF) cs) else 0)"

definition utf8_step :: "byte \<Rightarrow> byte list \<Rightarrow> bool \<times> nat" where
  "utf8_step b bs = (case tail_length b of None \<Rightarrow> (False, 0) | Some n \<Rightarrow> (tail_good n b bs = n, tail_good n b bs))"

function utf8 :: "bool \<Rightarrow> byte list \<Rightarrow> string option" where
  "utf8 rep [] = Some []"
| "utf8 rep (b # bs) =
     (if fst (utf8_step b bs)
      then map_option ((@) (str_of (b # take (snd (utf8_step b bs)) bs))) (utf8 rep (drop (snd (utf8_step b bs)) bs))
      else if rep then map_option ((@) (str_of [0xEF, 0xBF, 0xBD])) (utf8 rep (drop (snd (utf8_step b bs)) bs))
      else None)"
  by pat_completeness simp_all
termination by (relation "measure (\<lambda>(_, bs). length bs)") simp_all

definition decode_replace :: "byte list \<Rightarrow> string" where "decode_replace bs = the (utf8 True bs)"

definition strip_of :: "string \<Rightarrow> string \<Rightarrow> string" where
  "strip_of cs s = rev (dropWhile (\<lambda>c. c \<in> set cs) (rev (dropWhile (\<lambda>c. c \<in> set cs) s)))"

definition line_breaks :: string where
  "line_breaks = [CHR 0x0A, CHR 0x0D, CHR 0x0B, CHR 0x0C, CHR 0x1C, CHR 0x1D, CHR 0x1E]"

fun py_lines :: "string \<Rightarrow> string \<Rightarrow> string list" where
  "py_lines acc [] = (if acc = [] then [] else [rev acc])"
| "py_lines acc [c] = (if c \<in> set line_breaks then [rev acc] else [rev (c # acc)])"
| "py_lines acc (c # d # cs) =
     (if c = CHR 0x0D \<and> d = CHR 0x0A then rev acc # py_lines [] cs
      else if c \<in> set line_breaks then rev acc # py_lines [] (d # cs) else py_lines (c # acc) (d # cs))"

definition clip :: "nat \<Rightarrow> int \<Rightarrow> nat" where
  "clip n i = nat (max 0 (min (int n) (if i < 0 then i + int n else i)))"

definition py_slice :: "int \<Rightarrow> int \<Rightarrow> 'a list \<Rightarrow> 'a list" where
  "py_slice i j xs = slice (clip (length xs) i) (clip (length xs) j) xs"

definition hex_of :: "byte list \<Rightarrow> string" where "hex_of bs = concat (map (\<lambda>b. hex_fmt 2 (unat b)) bs)"

section \<open>Regular expressions\<close>

definition lit :: "'a list \<Rightarrow> 'a list \<Rightarrow> 'a list option" where
  "lit p xs = (if starts_with p xs then Some (drop (length p) xs) else None)"

definition many1 :: "('a \<Rightarrow> bool) \<Rightarrow> 'a list \<Rightarrow> ('a list \<times> 'a list) option" where
  "many1 P xs = (if takeWhile P xs = [] then None else Some (takeWhile P xs, dropWhile P xs))"

text \<open>\<^verbatim>\<open>re.search\<close>: the leftmost match of \<open>m\<close>, which returns what follows it, and that rest.\<close>

fun search :: "('a list \<Rightarrow> 'a list option) \<Rightarrow> 'a list \<Rightarrow> ('a list \<times> 'a list) option" where
  "search m [] = (case m [] of Some r \<Rightarrow> Some ([], r) | None \<Rightarrow> None)"
| "search m (x # xs) =
     (case m (x # xs) of Some r \<Rightarrow> Some (take (length (x # xs) - length r) (x # xs), r) | None \<Rightarrow> search m xs)"

definition b_digit :: "byte \<Rightarrow> bool" where "b_digit = byte_in 0x30 0x39"
definition b_print :: "byte \<Rightarrow> bool" where "b_print = byte_in 0x20 0x7E"
definition b_space :: "byte \<Rightarrow> bool" where "b_space b = (b = 0x20 \<or> byte_in 0x09 0x0D b)"
definition b_built :: "byte \<Rightarrow> bool" where
  "b_built b = (b_digit b \<or> byte_in 0x41 0x5A b \<or> byte_in 0x61 0x7A b \<or> b_space b \<or> b = 0x3A \<or> b = 0x2C)"

section \<open>The machine\<close>

text \<open>
  What the command reads.  A read may fail (\<open>None\<close>: \<^verbatim>\<open>OSError\<close>); \<open>fs_chunks\<close> are the results of reading a
  file from an offset in pieces of 512 KiB to its end.  Decompression and MD5 are the library's.
\<close>

record 'z fwsys =
  fs_exists :: "string \<Rightarrow> bool"
  fs_opens :: "string \<Rightarrow> bool"
  fs_pread :: "string \<Rightarrow> nat \<Rightarrow> nat option \<Rightarrow> byte list option"
  fs_chunks :: "string \<Rightarrow> nat \<Rightarrow> byte list option list"
  is_root :: bool
  i2c_read :: "nat \<Rightarrow> byte list option"
  printenv :: "(int \<times> string) option"
  z_inflate :: "'z \<Rightarrow> byte list \<Rightarrow> ('z \<times> byte list) option"
  z_start :: 'z
  md5_hex :: "byte list \<Rightarrow> string"

definition DT_COMPATIBLE :: string where "DT_COMPATIBLE = ''/proc/device-tree/compatible''"
definition DT_MODEL :: string where "DT_MODEL = ''/proc/device-tree/model''"
definition DT_UBOOT_VERSION :: string where "DT_UBOOT_VERSION = ''/proc/device-tree/chosen/u-boot,version''"
definition DT_FW :: string where "DT_FW = ''/proc/device-tree/soc/fman@1a00000/fman-firmware/fsl,firmware''"
definition SOC0 :: string where "SOC0 = ''/sys/devices/soc0''"
definition MTD_PROC :: string where "MTD_PROC = ''/proc/mtd''"
definition EMMC_DEV :: string where "EMMC_DEV = ''/dev/mmcblk0''"
definition QEF_LEN :: nat where "QEF_LEN = 76"

definition read_bytes :: "'z fwsys \<Rightarrow> string \<Rightarrow> nat option \<Rightarrow> byte list option" where
  "read_bytes s path n = (if fs_opens s path then fs_pread s path 0 n else None)"

definition read_text :: "'z fwsys \<Rightarrow> string \<Rightarrow> string option" where
  "read_text s path = do {
     d \<leftarrow> read_bytes s path None;
     t \<leftarrow> utf8 False d;
     Some (strip_of [CHR 0x00, CHR 0x0A] t)
   }"

definition is_ls1046a :: "'z fwsys \<Rightarrow> bool" where
  "is_ls1046a s = (case read_text s DT_COMPATIBLE of Some c \<Rightarrow> c \<noteq> [] \<and> contains ''fsl,ls1046a'' c | None \<Rightarrow> False)"

section \<open>Recognisers\<close>

record qinfo =
  qi_length :: nat
  qi_version :: nat
  qi_id :: string
  qi_split_iram :: nat
  qi_count :: nat
  qi_soc_model :: nat
  qi_soc_major :: nat
  qi_soc_minor :: nat

definition qef_decode :: "byte list \<Rightarrow> qinfo option" where
  "qef_decode d =
     (if length d < QEF_LEN \<or> slice 4 7 d \<noteq> [0x51, 0x45, 0x46] then None
      else Some \<lparr>qi_length = unat (word_at 0 d), qi_version = unat (d ! 7),
        qi_id = decode_replace (takeWhile (\<lambda>b. b \<noteq> 0) (slice 8 70 d)),
        qi_split_iram = unat (d ! 70), qi_count = unat (d ! 71), qi_soc_model = unat (push_bit 8 (ucast (d ! 72)) OR ucast (d ! 73) :: u16),
        qi_soc_major = unat (d ! 74), qi_soc_minor = unat (d ! 75)\<rparr>)"

definition ucode_classify :: "string \<Rightarrow> string" where
  "ucode_classify ident =
     (case do { r \<leftarrow> lit ''Microcode version '' ident; (ds, r) \<leftarrow> many1 is_digit r; _ \<leftarrow> lit ''.'' r; Some (py_int 10 ds) } of
        Some (Inr v) \<Rightarrow>
          if v \<ge> 210 then ''proprietary NXP/Mono PCD-capable (CC/HM/POL/PARSER)''
          else ''open-source qoriq-fm-ucode (NO PCD extensions)''
      | _ \<Rightarrow> ''unrecognized id format'')"

definition content_sniff :: "byte list \<Rightarrow> string" where
  "content_sniff head =
     (let h = hex_of head in
      if startswith h ''d00dfeed'' then ''FDT (flattened device tree)''
      else if startswith h ''1f8b'' then ''gzip compressed data''
      else if startswith h ''ffffffff'' then ''erased flash (0xFF)''
      else if startswith h ''00000000'' then ''zeroed''
      else if startswith h ''27051956'' then ''U-Boot legacy uImage''
      else ''unrecognized (first bytes: '' @ take 16 h @ '')'')"

text \<open>A line of \<^verbatim>\<open>/proc/mtd\<close>: device, size in hexadecimal, name up to the last quote.\<close>

definition mtd_line :: "string \<Rightarrow> (string \<times> string \<times> string) option" where
  "mtd_line l = do {
     r \<leftarrow> lit ''mtd'' l; (n, r) \<leftarrow> many1 is_digit r; r \<leftarrow> lit '':'' r;
     (_, r) \<leftarrow> many1 is_space r; (size_hex, r) \<leftarrow> many1 is_hex r;
     (_, r) \<leftarrow> many1 is_space r; (_, r) \<leftarrow> many1 is_hex r;
     (_, r) \<leftarrow> many1 is_space r; r \<leftarrow> lit [CHR 0x22] r;
     if CHR 0x22 \<in> set r then Some (''mtd'' @ n, size_hex, rev (tl (dropWhile (\<lambda>c. c \<noteq> CHR 0x22) (rev r)))) else None
   }"

definition mtd_map :: "'z fwsys \<Rightarrow> (string \<times> string \<times> string) list" where
  "mtd_map s = (case read_text s MTD_PROC of None \<Rightarrow> []
     | Some t \<Rightarrow> List.map_filter (\<lambda>l. mtd_line (strip l)) (py_lines [] t))"

definition flash_head :: "'z fwsys \<Rightarrow> string \<Rightarrow> nat \<Rightarrow> byte list" where
  "flash_head s dev n = (case read_bytes s (''/dev/'' @ dev) (Some n) of Some b \<Rightarrow> b | None \<Rightarrow> [])"

fun eeprom_scan :: "'z fwsys \<Rightarrow> nat list \<Rightarrow> string option" where
  "eeprom_scan s [] = None"
| "eeprom_scan s (bus # buses) =
     (if \<not> fs_exists s (''/dev/i2c-'' @ nat_str bus) then eeprom_scan s buses
      else case i2c_read s bus of None \<Rightarrow> eeprom_scan s buses
      | Some d \<Rightarrow>
          if starts_with (bytes_of ''MAGC'') d
          then (let serial = strip (decode_replace (takeWhile (\<lambda>b. b \<noteq> 0) (slice 40 104 d))) in
                if serial = [] then None else Some serial)
          else eeprom_scan s buses)"

definition read_board_eeprom :: "'z fwsys \<Rightarrow> string option" where
  "read_board_eeprom s = (if is_root s then eeprom_scan s [3, 0, 1, 2, 4, 5, 6, 7] else None)"

definition rcw_preamble :: "byte list" where "rcw_preamble = [0x55, 0xAA, 0x55, 0xAA]"

definition serdes_text :: "u32 list \<Rightarrow> string" where
  "serdes_text ws =
     (let w4 = (if contains ''1133'' (hex_fmt 8 (unat (ws ! 5))) then ws ! 5 else ws ! 4);
          s1 = unat (drop_bit 16 w4 AND 0xFFFF); s2 = unat (w4 AND 0xFFFF) in
      ''S1 0x'' @ hex_fmt 4 s1 @ '' ('' @ nat_str s1 @ ''), S2 0x'' @ hex_fmt 4 s2 @ '' ('' @ nat_str s2 @ '')'')"

definition read_rcw_serdes :: "'z fwsys \<Rightarrow> string option res" where
  "read_rcw_serdes s =
     (if \<not> fs_exists s ''/dev/mtd0'' then Inr None
      else case read_bytes s ''/dev/mtd0'' (Some 512) of None \<Rightarrow> Inr None
      | Some blob \<Rightarrow>
          (case find_from rcw_preamble 0 blob of None \<Rightarrow> Inr None
           | Some off \<Rightarrow>
               let raw = slice (off + 4) (off + 4 + 64) blob in
               if length raw \<noteq> 64 then Inl StructError
               else Inr (Some (serdes_text (map (\<lambda>i. le_word (slice (4 * i) (4 * i + 4) raw)) [0..<16])))))"

text \<open>The first \<^verbatim>\<open>U-Boot 20xx.yy\<close> text, up to the next byte that does not print.\<close>

definition uboot_at :: "byte list \<Rightarrow> byte list option" where
  "uboot_at d = do {
     r \<leftarrow> lit (bytes_of ''U-Boot '') d;
     if 4 \<le> length (takeWhile b_digit (take 4 r)) then lit [0x2E] (drop 4 r) else None
   }"

function uboot_search :: "byte list \<Rightarrow> string option" where
  "uboot_search d =
     (case search uboot_at d of None \<Rightarrow> None
      | Some (m, r) \<Rightarrow>
          let t = strip (decode_replace (m @ takeWhile b_print r)) in
          if t \<noteq> [] then Some t else if length r < length d then uboot_search r else None)"
  by pat_completeness simp_all
termination by (relation "measure length") simp_all

declare uboot_search.simps [simp del]

definition tfa_at :: "byte list \<Rightarrow> byte list option" where
  "tfa_at d = do {
     r \<leftarrow> lit (bytes_of ''v'') d; (_, r) \<leftarrow> many1 b_digit r; r \<leftarrow> lit [0x2E] r; (_, r) \<leftarrow> many1 b_digit r;
     r \<leftarrow> lit [0x2E] r; (_, r) \<leftarrow> many1 b_digit r; r \<leftarrow> lit (bytes_of ''(release):'') r;
     (_, r) \<leftarrow> many1 b_print r; Some r
   }"

definition built_at :: "byte list \<Rightarrow> byte list option" where
  "built_at d = do {
     r \<leftarrow> lit (bytes_of ''Built'') d; r \<leftarrow> lit [0x3A] (dropWhile b_space r);
     (_, r) \<leftarrow> many1 b_built r; Some r
   }"

definition tfa_search :: "byte list \<Rightarrow> string option" where
  "tfa_search d =
     (case search tfa_at d of None \<Rightarrow> None
      | Some (m, r) \<Rightarrow>
          let ver = strip_of [CHR 0x00, CHR '' ''] (decode_replace m) in
          (case search built_at (take 100 r) of None \<Rightarrow> Some ver
           | Some (b, _) \<Rightarrow> Some (ver @ '' ('' @ strip_of [CHR 0x00, CHR '' ''] (decode_replace b) @ '')'')))"

section \<open>The recovery image\<close>

text \<open>\<^verbatim>\<open>hay.rfind(pat, 0, stop)\<close> and \<^verbatim>\<open>int(bs, 16)\<close>, which takes no file or record separator for a blank.\<close>

definition rfind :: "'a list \<Rightarrow> nat \<Rightarrow> 'a list \<Rightarrow> nat option" where
  "rfind pat stop hay = (case filter (occurs_at pat (take stop hay)) (rev [0..<stop + 1]) of [] \<Rightarrow> None | i # _ \<Rightarrow> Some i)"

definition hex_int :: "byte list \<Rightarrow> int res" where
  "hex_int bs = (if \<exists>b \<in> set bs. byte_in 0x1C 0x1F b then Inl (ValueError ''invalid literal for int()'') else py_int 16 (str_of bs))"

definition version_marker :: "byte list" where "version_marker = bytes_of ''etc/firmware/version'' @ [0]"
definition cpio_magic :: "byte list" where "cpio_magic = bytes_of ''070701''"

text \<open>The version file in what has been decompressed: its name, the header before it, its body.\<close>

definition scan_version :: "byte list \<Rightarrow> string option res" where
  "scan_version c =
     (case find_from version_marker 0 c of None \<Rightarrow> Inr None
      | Some idx \<Rightarrow> (case rfind cpio_magic idx c of None \<Rightarrow> Inr None
      | Some h \<Rightarrow>
          if length c < h + 110 then Inr None
          else let hdr = slice h (h + 110) c in
            bindE (hex_int (slice 54 62 hdr)) (\<lambda>fsize. bindE (hex_int (slice 94 102 hdr)) (\<lambda>nsize.
              let body_at = (int h + 110 + nsize + 3) div 4 * 4 in
              Inr (if body_at + fsize \<le> int (length c)
                   then Some (strip_of [CHR 0x00, CHR '' '', CHR 0x0A, CHR 0x0D] (decode_replace (py_slice body_at (body_at + fsize) c)))
                   else None)))))"

fun recovery_stream :: "('z \<Rightarrow> byte list \<Rightarrow> ('z \<times> byte list) option) \<Rightarrow> 'z \<Rightarrow> byte list option \<Rightarrow> byte list option list \<Rightarrow> string option res" where
  "recovery_stream infl z prev [] = Inr None"
| "recovery_stream infl z prev (None # cs) = Inr None"
| "recovery_stream infl z prev (Some chunk # cs) =
     (if chunk = [] then Inr None
      else case infl z chunk of None \<Rightarrow> Inr None
      | Some (z, out) \<Rightarrow>
          if out = [] then recovery_stream infl z prev cs
          else bindE (scan_version (case prev of None \<Rightarrow> out | Some p \<Rightarrow> p @ out)) (\<lambda>v.
            case v of Some _ \<Rightarrow> Inr v | None \<Rightarrow> recovery_stream infl z (Some out) cs))"

definition recovery_version :: "'z fwsys \<Rightarrow> string \<Rightarrow> nat \<Rightarrow> string option res" where
  "recovery_version s path offset =
     (if \<not> fs_exists s path \<or> \<not> fs_opens s path then Inr None
      else recovery_stream (z_inflate s) (z_start s) None (fs_chunks s path offset))"

section \<open>The environment check\<close>

definition fw_env_ok :: "'z fwsys \<Rightarrow> (string \<times> string option) res" where
  "fw_env_ok s =
     (if \<not> is_root s then Inr (''skip'', Some ''not root'')
      else case printenv s of None \<Rightarrow> Inr (''skip'', Some ''fw_printenv not installed'')
      | Some (rc, err) \<Rightarrow>
          if rc = 0 then Inr (''ok'', None)
          else if err = [] then Inr (''fail'', None)
          else (case py_lines [] (strip err) of [] \<Rightarrow> Inl IndexError | l # ls \<Rightarrow> Inr (''fail'', Some (last (l # ls)))))"

end
