(* ===== verification/FwReport.thy ===== *)
theory FwReport
  imports FwInfo
begin

text \<open>
  The report and the digest of \<^verbatim>\<open>show hardware firmware\<close>, and the exit status of both.  The state of a
  run is what has been printed.
\<close>

section \<open>The report\<close>

datatype printed = Line string | Table "string list list" "string list" "nat list" | Digest json

type_synonym 'a report = "(printed list, 'a) io"

definition say :: "string \<Rightarrow> unit report" where "say t ps = (Inr (), ps @ [Line t])"

definition render_table :: "string list list \<Rightarrow> string list \<Rightarrow> nat list \<Rightarrow> unit report" where
  "render_table rows headers widths ps = (Inr (), ps @ [Table rows headers widths])"

text \<open>\<^verbatim>\<open>x or y\<close> on a text that may be missing.\<close>

definition or_else :: "string option \<Rightarrow> string \<Rightarrow> string" where
  "or_else x y = (case x of Some t \<Rightarrow> if t = [] then y else t | None \<Rightarrow> y)"

definition given :: "string option \<Rightarrow> bool" where "given x = (x \<noteq> None \<and> x \<noteq> Some [])"

definition quoted :: "string \<Rightarrow> string" where "quoted t = [CHR 0x22] @ t @ [CHR 0x22]"

definition base_mac :: "'z fwsys \<Rightarrow> string option" where
  "base_mac s =
     (case read_bytes s ''/proc/device-tree/soc/fman@1a00000/ethernet@e2000/local-mac-address'' None of
        Some d \<Rightarrow> if length d = 6 then Some (join '':'' (map (\<lambda>b. [hexu (unat b div 16), hexu (unat b mod 16)]) d)) else None
      | None \<Rightarrow> None)"

definition emmc_serial :: "'z fwsys \<Rightarrow> string option" where "emmc_serial s = read_text s ''/sys/block/mmcblk0/device/serial''"
definition emmc_name :: "'z fwsys \<Rightarrow> string option" where "emmc_name s = read_text s ''/sys/block/mmcblk0/device/name''"

definition soc_text :: "'z fwsys \<Rightarrow> string" where
  "soc_text s =
     (let svr = py_replace ''svr:'' [] (or_else (read_text s (SOC0 @ ''/soc_id'')) []) in
      or_else (read_text s (SOC0 @ ''/family'')) ''QorIQ LS1046AE'' @ '' rev '' @
      or_else (read_text s (SOC0 @ ''/revision'')) ''1.0'' @ (if svr = [] then [] else '' (SVR '' @ svr @ '')''))"

definition emmc_text :: "'z fwsys \<Rightarrow> string option" where
  "emmc_text s =
     (if given (emmc_serial s)
      then Some (if given (emmc_name s) then the (emmc_name s) @ '' (SN '' @ the (emmc_serial s) @ '')''
                 else ''SN '' @ the (emmc_serial s))
      else None)"

definition say_field :: "string \<times> string option \<Rightarrow> unit report" where
  "say_field = (\<lambda>(label, v).
     if given v then say (label @ '':'' @ replicate (16 - length (label @ '':'')) (CHR '' '') @ the v) else retIO ())"

definition render_identity :: "'z fwsys \<Rightarrow> unit report" where
  "render_identity s =
     bindIO (liftIO (read_rcw_serdes s)) (\<lambda>serdes. eachIO say_field
       [(''Model'', Some (or_else (read_text s DT_MODEL) ''Mono Gateway Development Kit'')),
        (''SoC'', Some (soc_text s)), (''Board Serial'', read_board_eeprom s), (''Base MAC'', base_mac s),
        (''eMMC Storage'', emmc_text s), (''DRAM Memory'', Some ''8 GB DDR4 (ECC on)''),
        (''SerDes Config'', serdes), (''System Clocks'', Some ''CPU 1.6 GHz, FMan 700 MHz'')])"

section \<open>The two stores\<close>

definition FIP_SIZE :: nat where "FIP_SIZE = 2 * 1024 * 1024"

text \<open>TF-A and U-Boot of the first flash partition; TF-A, U-Boot and microcode of the eMMC.\<close>

definition nor_fip :: "'z fwsys \<Rightarrow> string option \<times> string option" where
  "nor_fip s =
     (let blob = (if fs_exists s ''/dev/mtd1'' then read_bytes s ''/dev/mtd1'' (Some FIP_SIZE) else None) in
      (Option.bind blob tfa_search, Option.bind blob uboot_search))"

definition emmc_probe :: "'z fwsys \<Rightarrow> string option \<times> string option \<times> qinfo option" where
  "emmc_probe s =
     (if \<not> fs_exists s EMMC_DEV \<or> \<not> fs_opens s EMMC_DEV then (None, None, None)
      else case fs_pread s EMMC_DEV 0x100000 (Some FIP_SIZE) of None \<Rightarrow> (None, None, None)
      | Some fip \<Rightarrow> (tfa_search fip, uboot_search fip, Option.bind (fs_pread s EMMC_DEV 0x400000 (Some QEF_LEN)) qef_decode))"

definition recovery_dev :: "'z fwsys \<Rightarrow> string option" where
  "recovery_dev s = map_option fst (find (\<lambda>(_, _, name). name = ''kernel-initramfs'') (mtd_map s))"

definition nor_recovery :: "'z fwsys \<Rightarrow> string option res" where
  "nor_recovery s = (case recovery_dev s of None \<Rightarrow> Inr None | Some dev \<Rightarrow> recovery_version s (''/dev/'' @ dev) 0)"

definition emmc_recovery :: "'z fwsys \<Rightarrow> string option res" where
  "emmc_recovery s = (if fs_exists s EMMC_DEV then recovery_version s EMMC_DEV 0xA00000 else Inr None)"

definition root_or :: "bool \<Rightarrow> string option \<Rightarrow> string" where
  "root_or root x = or_else x (if root then ''-'' else ''SKIP - not root'')"

definition ucode_text :: "qinfo \<Rightarrow> string" where
  "ucode_text q = quoted (qi_id q) @ '' ('' @ nat_str (qi_length q) @ '' B)''"

definition render_stores :: "'z fwsys \<Rightarrow> string option report" where
  "render_stores s =
     (let root = is_root s;
          (nor_tfa, nor_uboot) = (if root then nor_fip s else (None, None));
          (emmc_tfa, emmc_uboot, emmc_qef) = (if root then emmc_probe s else (None, None, None));
          nor_qef = (if root \<and> fs_exists s ''/dev/mtd3'' then qef_decode (flash_head s ''mtd3'' QEF_LEN) else None);
          rec_text = map_option (\<lambda>v. ''Mono Gateway Firmware v'' @ v) in
      bindIO (say (CHR 0x0A # ''Boot & Recovery Firmware:'')) (\<lambda>_.
      bindIO (if root then liftIO (nor_recovery s) else retIO None) (\<lambda>nor_rec.
      bindIO (if root then liftIO (emmc_recovery s) else retIO None) (\<lambda>emmc_rec.
      bindIO (render_table
        [[''Running U-Boot'', or_else (read_text s DT_UBOOT_VERSION) ''-'', ''-''],
         [''TF-A (BL31)'', root_or root nor_tfa, root_or root emmc_tfa],
         [''On-flash U-Boot'', root_or root nor_uboot, root_or root emmc_uboot],
         [''FMan microcode'',
          root_or root (case nor_qef of Some q \<Rightarrow> if qi_id q = [] then None else Some (ucode_text q) | None \<Rightarrow> None),
          root_or root (map_option ucode_text emmc_qef)],
         [''Recovery OS'', root_or root (if given nor_rec then rec_text nor_rec else None),
          root_or root (if given emmc_rec then rec_text emmc_rec else None)]]
        [''Component'', ''NOR Flash (Active)'', ''eMMC (Inactive / Backup)''] [15, 33, 33]) (\<lambda>_. retIO nor_rec)))))"

section \<open>The partitions\<close>

definition compat_at :: "byte list \<Rightarrow> byte list option" where
  "compat_at d =
     (let rest = (case lit (bytes_of ''mono,'') d of Some r \<Rightarrow> Some r | None \<Rightarrow> lit (bytes_of ''fsl,'') d) in
      Option.bind rest (\<lambda>r. map_option snd (many1 b_print r)))"

text \<open>What the report says of one readable partition: the text, the U-Boot and microcode found, the failures.\<close>

definition partition_detail ::
  "'z fwsys \<Rightarrow> string option \<Rightarrow> string \<Rightarrow> string \<Rightarrow> (string \<times> string option option \<times> string option \<times> nat) res" where
  "partition_detail s nor_rec dev name =
     (let head = flash_head s dev 16; plain = (\<lambda>t. Inr (t, None, None, 0)) in
      if name = ''rcw-bl2'' then
        plain (if contains ''55aa55aa'' (hex_of head) then ''RCW/PBL preamble present''
               else ''WARN: no 55aa55aa preamble in first 16 bytes'')
      else if name = ''uboot'' then
        (let u = Option.bind (read_bytes s (''/dev/'' @ dev) (Some FIP_SIZE)) uboot_search in
         Inr (or_else u ''no embedded version string found'', Some u, None, 0))
      else if name = ''uboot-env'' then
        bindE (fw_env_ok s) (\<lambda>(state, err).
          if state = ''ok'' then plain ''environment CRC valid''
          else if state = ''fail'' then Inr (''FAIL: fw_printenv failed ('' @ or_else err ''bad CRC'' @ '')'', None, None, 1)
          else plain (or_else err ''CRC probe skipped''))
      else if name = ''fman-ucode'' then
        (case qef_decode (flash_head s dev QEF_LEN) of
           Some q \<Rightarrow> Inr (''QEF '' @ ucode_text q, None, Some (qi_id q), 0)
         | None \<Rightarrow> Inr (''FAIL: no valid QEF microcode header'', None, None, 1))
      else if name = ''recovery-dtb'' then
        plain (if startswith (hex_of head) ''d00dfeed''
               then ''FDT valid'' @ (case search compat_at (flash_head s dev (128 * 1024)) of
                   Some (m, _) \<Rightarrow> '' (compatible: '' @ str_of m @ '')'' | None \<Rightarrow> [])
               else ''WARN: FDT magic d00dfeed absent'')
      else if name = ''kernel-initramfs'' then
        plain (if given nor_rec then ''Recovery OS (v'' @ the nor_rec @ '')'' else content_sniff head @ '' - recovery kernel'')
      else plain (content_sniff head))"

record partitions =
  p_rows :: "string list list"
  p_uboot :: "string option"
  p_ucode :: "string option"
  p_fails :: nat

definition partition_row :: "'z fwsys \<Rightarrow> string option \<Rightarrow> string \<times> string \<times> string \<Rightarrow> partitions \<Rightarrow> partitions res" where
  "partition_row s nor_rec = (\<lambda>(dev, size_hex, name) p.
     bindE (py_int 16 size_hex) (\<lambda>size.
     bindE (if is_root s \<and> fs_exists s (''/dev/'' @ dev) then partition_detail s nor_rec dev name
            else Inr (if is_root s then ''/dev/'' @ dev @ '' absent'' else ''not root'', None, None, 0))
       (\<lambda>(detail, uboot, ucode, fails).
          Inr \<lparr>p_rows = p_rows p @ [[dev, int_str (size div 1024), name @ '' ('' @ detail @ '')'']],
               p_uboot = (case uboot of Some u \<Rightarrow> u | None \<Rightarrow> p_uboot p),
               p_ucode = (case ucode of Some u \<Rightarrow> Some u | None \<Rightarrow> p_ucode p), p_fails = p_fails p + fails\<rparr>)))"

definition render_partitions :: "'z fwsys \<Rightarrow> string option \<Rightarrow> (bool \<times> string option \<times> string option \<times> nat) report" where
  "render_partitions s nor_rec =
     bindIO (say (CHR 0x0A # ''QSPI NOR flash partitions (/proc/mtd):'')) (\<lambda>_.
       if mtd_map s = [] then
         bindIO (say ''FAIL - /proc/mtd empty (CONFIG_SPI_FSL_QUADSPI missing?)'') (\<lambda>_. retIO (False, None, None, 1))
       else
         bindIO (liftIO (foldE (partition_row s nor_rec) (mtd_map s) \<lparr>p_rows = [], p_uboot = None, p_ucode = None, p_fails = 0\<rparr>)) (\<lambda>p.
         bindIO (render_table (p_rows p) [''MTD'', ''Size (KiB)'', ''Partition / Content''] [5, 11, 58]) (\<lambda>_.
           retIO (True, p_uboot p, p_ucode p, p_fails p))))"

section \<open>The microcode\<close>

definition running_qef :: "'z fwsys \<Rightarrow> qinfo option" where
  "running_qef s = Option.bind (read_bytes s DT_FW None) qef_decode"

definition render_microcode :: "'z fwsys \<Rightarrow> string option \<Rightarrow> nat report" where
  "render_microcode s flash_ucode =
     (let data = (case read_bytes s DT_FW None of Some d \<Rightarrow> d | None \<Rightarrow> []); q = qef_decode data;
          running_rows =
            (case q of Some q \<Rightarrow>
               (let maxlen = min (qi_length q) (16 * 1024 * 1024) in
                [[''Running microcode'', quoted (qi_id q)],
                 [''QEF header'', ''length='' @ nat_str (qi_length q) @ '' B, layout v'' @ nat_str (qi_version q) @ '', split-IRAM='' @
                    nat_str (qi_split_iram q) @ '', microcode count='' @ nat_str (qi_count q)],
                 [''SoC code'', ''model=0x'' @ hex_fmt 4 (qi_soc_model q) @ '' rev '' @ nat_str (qi_soc_major q) @ ''.'' @ nat_str (qi_soc_minor q)],
                 [''Class'', ucode_classify (qi_id q)],
                 [''MD5 (first '' @ nat_str maxlen @ '' B)'', md5_hex s (take maxlen data)]])
             | None \<Rightarrow> [[''Running microcode'',
                 if data \<noteq> [] then ''FAIL: DT fman-firmware present but QEF invalid''
                 else ''FAIL: no '' @ DT_FW @ '' (U-Boot did not inject FMan microcode)'']]);
          running = map_option qi_id q;
          flash_row =
            (if given running \<and> given flash_ucode then
               (if running = flash_ucode then ''matches on-flash mtd3 copy''
                else ''differs from on-flash mtd3 ('' @ quoted (the flash_ucode) @ '')'')
             else if given flash_ucode then ''on-flash: '' @ quoted (the flash_ucode)
             else ''fman-ucode partition not read'') in
      bindIO (say (CHR 0x0A # ''FMan microcode (running & on-flash):'')) (\<lambda>_.
      bindIO (render_table (running_rows @ [[''Flash match'', flash_row]]) [''Property'', ''Value''] [20, 56]) (\<lambda>_.
        retIO (if q = None then 1 else 0))))"

section \<open>The digest\<close>

definition jopt :: "string option \<Rightarrow> json" where "jopt x = (case x of Some t \<Rightarrow> JStr t | None \<Rightarrow> JNull)"

definition qef_json :: "qinfo \<Rightarrow> json" where
  "qef_json q = JObj [(''length'', JInt (int (qi_length q))), (''version'', JInt (int (qi_version q))), (''id'', JStr (qi_id q)),
     (''split_iram'', JInt (int (qi_split_iram q))), (''count'', JInt (int (qi_count q))), (''soc_model'', JInt (int (qi_soc_model q))),
     (''soc_major'', JInt (int (qi_soc_major q))), (''soc_minor'', JInt (int (qi_soc_minor q)))]"

definition digest :: "'z fwsys \<Rightarrow> string \<Rightarrow> string option \<Rightarrow> string option \<Rightarrow> string option \<Rightarrow> int list \<Rightarrow> json" where
  "digest s env_state nor_rec emmc_rec serdes sizes =
     (let (nor_tfa, nor_uboot) = nor_fip s; (emmc_tfa, emmc_uboot, emmc_qef) = emmc_probe s; q = running_qef s in
      JObj [(''board'', JStr ''ls1046a''), (''model'', jopt (read_text s DT_MODEL)),
        (''soc'', JObj [(''family'', jopt (read_text s (SOC0 @ ''/family''))), (''revision'', jopt (read_text s (SOC0 @ ''/revision''))),
          (''svr'', jopt (read_text s (SOC0 @ ''/soc_id'')))]),
        (''identity'', JObj [(''board_serial'', jopt (read_board_eeprom s)), (''base_mac'', jopt (base_mac s)),
          (''emmc_serial'', jopt (emmc_serial s)), (''emmc_name'', jopt (emmc_name s))]),
        (''platform'', JObj [(''dram'', JStr ''8 GB DDR4 (ECC on)''), (''serdes'', jopt serdes),
          (''clocks'', JStr ''CPU 1.6 GHz, FMan 700 MHz'')]),
        (''boot_firmware'', JObj [(''uboot_running'', jopt (read_text s DT_UBOOT_VERSION)), (''nor_tfa'', jopt nor_tfa),
          (''nor_uboot_onflash'', jopt nor_uboot)]),
        (''recovery_os'', JObj [(''nor_version'', jopt nor_rec), (''emmc_version'', jopt emmc_rec)]),
        (''emmc_firmware'', JObj [(''tfa'', jopt emmc_tfa), (''uboot'', jopt emmc_uboot),
          (''microcode'', jopt (map_option qi_id emmc_qef)), (''recovery_os'', jopt emmc_rec)]),
        (''mtd'', JList (map (\<lambda>((d, _, n), size). JObj [(''dev'', JStr d), (''size_kib'', JInt (size div 1024)), (''name'', JStr n)])
          (zip (mtd_map s) sizes))),
        (''microcode'', (case q of Some q \<Rightarrow> qef_json q | None \<Rightarrow> JNull)), (''microcode_present'', JBool (q \<noteq> None)),
        (''uboot_env_crc'', JStr env_state), (''failed'', JBool (q = None \<or> env_state = ''fail''))])"

definition raw_dict :: "'z fwsys \<Rightarrow> (bool \<times> json) res" where
  "raw_dict s =
     bindE (fw_env_ok s) (\<lambda>(env_state, _). bindE (nor_recovery s) (\<lambda>nor_rec. bindE (emmc_recovery s) (\<lambda>emmc_rec.
     bindE (read_rcw_serdes s) (\<lambda>serdes. bindE (seqE (map (\<lambda>(_, size_hex, _). py_int 16 size_hex) (mtd_map s))) (\<lambda>sizes.
       Inr (running_qef s = None \<or> env_state = ''fail'', digest s env_state nor_rec emmc_rec serdes sizes))))))"

section \<open>The command\<close>

definition show_firmware :: "'z fwsys \<Rightarrow> bool \<Rightarrow> int report" where
  "show_firmware s raw =
     (if \<not> is_ls1046a s then
        bindIO (say ''This platform is not the NXP LS1046A Mono Gateway DK; no boot firmware to report.'') (\<lambda>_. retIO 2)
      else if raw then
        bindIO (liftIO (raw_dict s)) (\<lambda>(failed, d) ps. (Inr (if failed then 1 else 0), ps @ [Digest d]))
      else
        bindIO (if is_root s then retIO ()
                else say ''Note: not root - flash partition reads and fw_printenv will be skipped (op-mode runs this under sudo)'') (\<lambda>_.
        bindIO (say ''Firmware status (LS1046A boot firmware & microcode inventory)'') (\<lambda>_.
        bindIO (say (replicate 62 (CHR ''=''))) (\<lambda>_.
        bindIO (render_identity s) (\<lambda>_.
        bindIO (render_stores s) (\<lambda>nor_rec.
        bindIO (render_partitions s nor_rec) (\<lambda>(_, _, flash_ucode, part_fails).
        bindIO (render_microcode s flash_ucode) (\<lambda>ucode_fails.
          retIO (if part_fails + ucode_fails \<noteq> 0 then 1 else 0)))))))))"

definition firmware_main :: "'z fwsys \<Rightarrow> string list \<Rightarrow> unit report" where
  "firmware_main s argv = bindIO (show_firmware s (argv \<noteq> [] \<and> hd argv = ''raw'')) (\<lambda>st. raiseIO (SystemExit st))"

end
