(* ===== verification/FwProps.thy ===== *)
theory FwProps
  imports FwReport
begin

text \<open>
  What \<^verbatim>\<open>show hardware firmware\<close> reports: its exit status in both modes, the exceptions that can escape,
  the version read from a recovery image, and the agreement with the container reader of
  \<^verbatim>\<open>decomp/tools/qef-parse.py\<close>.
\<close>

section \<open>Results of a report\<close>

lemma fst_bindIO: "fst (bindIO m f h) = bindE (fst (m h)) (\<lambda>x. fst (f x (snd (m h))))"
  by (cases "m h"; cases "fst (m h)") (auto simp: bindIO_def bindE_def)

lemma fst_say [simp]: "fst (say t ps) = Inr ()"
  and fst_table [simp]: "fst (render_table rows hs ws ps) = Inr ()"
  and fst_ret [simp]: "fst (retIO x h) = Inr x"
  and fst_lift [simp]: "fst (liftIO r h) = r"
  by (simp_all add: say_def render_table_def retIO_def liftIO_def)

lemma fst_if: "fst ((if b then m else m') h) = (if b then fst (m h) else fst (m' h))"
  by simp

lemma fst_each_field [simp]: "fst (eachIO say_field fs ps) = Inr ()"
  by (induction fs arbitrary: ps) (auto simp: fst_bindIO say_field_def split: prod.splits)

lemma fst_identity: "fst (render_identity s ps) = bindE (read_rcw_serdes s) (\<lambda>_. Inr ())"
  by (simp add: render_identity_def fst_bindIO del: eachIO.simps)

lemma fst_stores:
  "fst (render_stores s ps) =
     bindE (if is_root s then nor_recovery s else Inr None) (\<lambda>v. bindE (if is_root s then emmc_recovery s else Inr None) (\<lambda>_. Inr v))"
  by (simp add: render_stores_def fst_bindIO fst_if Let_def split: prod.splits)

lemma fst_microcode: "fst (render_microcode s u ps) = Inr (if running_qef s = None then 1 else 0)"
  by (auto simp: render_microcode_def running_qef_def fst_bindIO Let_def qef_decode_def QEF_LEN_def split: option.splits)

definition no_partitions :: partitions where
  "no_partitions = \<lparr>p_rows = [], p_uboot = None, p_ucode = None, p_fails = 0\<rparr>"

lemma fst_partitions:
  "fst (render_partitions s v ps) =
     (if mtd_map s = [] then Inr (False, None, None, 1)
      else bindE (foldE (partition_row s v) (mtd_map s) no_partitions) (\<lambda>p. Inr (True, p_uboot p, p_ucode p, p_fails p)))"
  by (simp add: render_partitions_def fst_bindIO fst_if no_partitions_def)

section \<open>The exit status\<close>

definition env_fails :: "'z fwsys \<Rightarrow> bool" where
  "env_fails s = (is_root s \<and> (\<exists>rc err. printenv s = Some (rc, err) \<and> rc \<noteq> 0))"

definition partition_bad :: "'z fwsys \<Rightarrow> string \<times> string \<times> string \<Rightarrow> bool" where
  "partition_bad s = (\<lambda>(dev, _, name). is_root s \<and> fs_exists s (''/dev/'' @ dev) \<and>
     (name = ''fman-ucode'' \<and> qef_decode (flash_head s dev QEF_LEN) = None \<or> name = ''uboot-env'' \<and> env_fails s))"

lemma env_state: "fw_env_ok s = Inr (st, err) \<Longrightarrow> st = ''fail'' \<longleftrightarrow> env_fails s"
  by (auto simp: fw_env_ok_def env_fails_def split: if_splits option.splits list.splits)

lemma detail_fails:
  "partition_detail s v dev name = Inr (d, u, c, n) \<Longrightarrow>
     n = (if name = ''fman-ucode'' \<and> qef_decode (flash_head s dev QEF_LEN) = None \<or> name = ''uboot-env'' \<and> env_fails s then 1 else 0)"
  unfolding partition_detail_def Let_def
  by (auto simp: bindE_eq_Inr dest: env_state split: if_splits option.splits)

lemma row_fails:
  "partition_row s v x p = Inr p' \<Longrightarrow> p_fails p' = p_fails p + (if partition_bad s x then 1 else 0)"
  by (cases x) (auto simp: partition_row_def partition_bad_def bindE_eq_Inr dest!: detail_fails split: if_splits)

lemma rows_fail:
  "foldE (partition_row s v) xs p = Inr p' \<Longrightarrow> p_fails p' \<noteq> 0 \<longleftrightarrow> p_fails p \<noteq> 0 \<or> (\<exists>x \<in> set xs. partition_bad s x)"
proof (induction xs arbitrary: p)
  case (Cons x xs)
  then obtain q where "partition_row s v x p = Inr q" "foldE (partition_row s v) xs q = Inr p'" by (auto simp: bindE_eq_Inr)
  with Cons.IH [of q] row_fails [of s v x p q] show ?case by auto
qed simp

lemma bindE_assoc: "bindE (bindE m f) g = bindE m (\<lambda>x. bindE (f x) g)"
  by (cases m) auto

definition flash_result :: "'z fwsys \<Rightarrow> nat res" where
  "flash_result s =
     bindE (if is_root s then nor_recovery s else Inr None) (\<lambda>v. bindE (if is_root s then emmc_recovery s else Inr None) (\<lambda>_.
       if mtd_map s = [] then Inr 1 else bindE (foldE (partition_row s v) (mtd_map s) no_partitions) (\<lambda>p. Inr (p_fails p))))"

lemma fst_report:
  assumes "is_ls1046a s"
  shows "fst (show_firmware s False ps) = bindE (read_rcw_serdes s) (\<lambda>_. bindE (flash_result s) (\<lambda>n.
    Inr (if n = 0 \<and> running_qef s \<noteq> None then 0 else 1)))"
proof -
  have part: "bindE (fst (render_partitions s v ps)) (\<lambda>(a, b, u, n). fst (bindIO (render_microcode s u) (\<lambda>m. retIO (if n + m \<noteq> 0 then 1 else 0)) qs)) =
      bindE (if mtd_map s = [] then Inr 1 else bindE (foldE (partition_row s v) (mtd_map s) no_partitions) (\<lambda>p. Inr (p_fails p)))
        (\<lambda>n. Inr (if n = 0 \<and> running_qef s \<noteq> None then 0 else 1 :: int))" for v ps qs
    by (auto simp: fst_partitions fst_bindIO fst_microcode bindE_assoc intro!: arg_cong2 [of _ _ _ _ bindE])
  have "fst (show_firmware s False ps) = bindE (read_rcw_serdes s) (\<lambda>_. bindE (fst (render_stores s [])) (\<lambda>v.
      bindE (fst (render_partitions s v [])) (\<lambda>(a, b, u, n). fst (bindIO (render_microcode s u) (\<lambda>m. retIO (if n + m \<noteq> 0 then 1 else 0)) []))))"
    using assms by (simp add: show_firmware_def fst_bindIO fst_if fst_identity fst_stores fst_partitions fst_microcode bindE_assoc case_prod_beta)
  then show ?thesis unfolding part by (simp add: flash_result_def fst_stores bindE_assoc)
qed

lemma flash_result_fails:
  "flash_result s = Inr n \<Longrightarrow> n \<noteq> 0 \<longleftrightarrow> mtd_map s = [] \<or> (\<exists>x \<in> set (mtd_map s). partition_bad s x)"
  by (auto simp: flash_result_def bindE_eq_Inr no_partitions_def dest!: rows_fail split: if_splits)

lemma fst_digest:
  "is_ls1046a s \<Longrightarrow> fst (show_firmware s True ps) = bindE (raw_dict s) (\<lambda>(failed, _). Inr (if failed then 1 else 0))"
  by (cases "raw_dict s") (auto simp: show_firmware_def fst_bindIO)

lemma digest_failed: "raw_dict s = Inr (failed, d) \<Longrightarrow> failed \<longleftrightarrow> running_qef s = None \<or> env_fails s"
  using env_state by (fastforce simp: raw_dict_def bindE_eq_Inr)

text \<open>C25. The exit status of \<^verbatim>\<open>show hardware firmware\<close>, whenever it ends without an exception: 2 off the platform; in
  the digest mode 1 exactly when the running microcode has no valid header or \<^verbatim>\<open>fw_printenv\<close> fails; in the
  report 1 exactly when the running microcode has no valid header, there is no flash partition at all, or a
  readable partition is bad, and 0 otherwise.\<close>

theorem firmware_status:
  assumes "fst (show_firmware s raw ps) = Inr st"
  shows "st = (if \<not> is_ls1046a s then 2
    else if raw then (if running_qef s = None \<or> env_fails s then 1 else 0)
    else if running_qef s = None \<or> mtd_map s = [] \<or> (\<exists>x \<in> set (mtd_map s). partition_bad s x) then 1 else 0)"
proof (cases "is_ls1046a s")
  case True
  show ?thesis
  proof (cases raw)
    case raw: True
    with assms fst_digest [OF True] show ?thesis using True by (auto simp: bindE_eq_Inr dest: digest_failed)
  next
    case report: False
    with assms fst_report [OF True] show ?thesis using True
      by (auto simp: bindE_eq_Inr dest!: flash_result_fails split: if_splits)
  qed
qed (use assms in \<open>auto simp: show_firmware_def fst_bindIO\<close>)

text \<open>An empty flash table: the digest says that all is well, the report does not.\<close>

definition sample_fw :: "unit fwsys" where
  "sample_fw = \<lparr>fs_exists = (\<lambda>_. False), fs_opens = (\<lambda>p. p \<in> {DT_COMPATIBLE, DT_FW}),
     fs_pread = (\<lambda>p _ _. if p = DT_COMPATIBLE then Some (bytes_of ''fsl,ls1046a'') else Some ([0, 0, 0, 76] @ bytes_of ''QEF'' @ replicate 69 1)),
     fs_chunks = (\<lambda>_ _. []), is_root = True, i2c_read = (\<lambda>_. None), printenv = Some (0, []), z_inflate = (\<lambda>_ _. None),
     z_start = (), md5_hex = (\<lambda>_. [])\<rparr>"

lemma sample_fw_facts:
  "is_ls1046a sample_fw" "mtd_map sample_fw = []" "running_qef sample_fw \<noteq> None" "\<not> env_fails sample_fw"
proof -
  show "is_ls1046a sample_fw" by code_simp
  show "mtd_map sample_fw = []" by code_simp
  have "case running_qef sample_fw of Some _ \<Rightarrow> True | None \<Rightarrow> False" by code_simp
  then show "running_qef sample_fw \<noteq> None" by (auto split: option.splits)
  show "\<not> env_fails sample_fw" by (simp add: env_fails_def sample_fw_def)
qed

lemma sample_fw_ends: "\<exists>st. fst (show_firmware sample_fw raw []) = Inr st"
proof -
  have none: "recovery_dev sample_fw = None" by (simp add: recovery_dev_def sample_fw_facts)
  have "nor_recovery sample_fw = Inr None" by (simp add: nor_recovery_def none)
  moreover have "emmc_recovery sample_fw = Inr None" "read_rcw_serdes sample_fw = Inr None" "fw_env_ok sample_fw = Inr (''ok'', None)"
    by (simp_all add: emmc_recovery_def read_rcw_serdes_def fw_env_ok_def sample_fw_def)
  ultimately show ?thesis
    by (cases raw) (simp_all add: fst_report fst_digest sample_fw_facts flash_result_def raw_dict_def)
qed

theorem firmware_status_witness:
  "fst (show_firmware sample_fw True []) = Inr 0 \<and> fst (show_firmware sample_fw False []) = Inr 1"
proof -
  obtain a b where "fst (show_firmware sample_fw True []) = Inr a" "fst (show_firmware sample_fw False []) = Inr b"
    using sample_fw_ends by blast
  then show ?thesis using firmware_status [of sample_fw True "[]" a] firmware_status [of sample_fw False "[]" b] sample_fw_facts by simp
qed

section \<open>The exceptions that escape\<close>

lemma digits_hex: "\<forall>c \<in> set s. is_hex c \<Longrightarrow> s \<noteq> [] \<or> ok \<Longrightarrow> \<exists>n. digits 16 ok acc s = Some n"
proof (induction s arbitrary: ok acc)
  case (Cons c s)
  then show ?case using is_hex_distinct [of c] digit_val_hex [of c] by simp
qed simp

lemma py_int_hex:
  assumes "s \<noteq> []" "\<forall>c \<in> set s. is_hex c"
  shows "\<exists>v. py_int 16 s = Inr v"
proof -
  have st: "strip s = s" using assms is_hex_distinct by (intro strip_id) auto
  obtain c r where s: "s = c # r" using assms(1) by (cases s) auto
  have "prefix_base s \<noteq> Some 16"
    using assms(2) is_hex_distinct by (fastforce simp: prefix_base_def s split: list.splits if_splits)
  then have "\<exists>n. unsigned_int 16 s = Some n" using digits_hex [of s False 0] assms by (simp add: unsigned_int_def)
  moreover have "\<not> startswith s ''-''" "\<not> startswith s ''+''"
    using assms(2) is_hex_distinct [of c] by (auto simp: startswith_def s)
  ultimately show ?thesis unfolding py_int_def Let_def st by auto
qed

lemma many1_Some: "many1 P xs = Some (a, r) \<Longrightarrow> a \<noteq> [] \<and> (\<forall>x \<in> set a. P x)"
  by (auto simp: many1_def dest: set_takeWhileD split: if_splits)

lemma mtd_line_size: "mtd_line l = Some (d, size_hex, n) \<Longrightarrow> size_hex \<noteq> [] \<and> (\<forall>c \<in> set size_hex. is_hex c)"
  by (auto simp: mtd_line_def bind_eq_Some_conv dest!: many1_Some [of is_hex] split: if_splits)

lemma map_filter_Some: "x \<in> set (List.map_filter f xs) \<Longrightarrow> \<exists>y. f y = Some x"
  by (induction xs) (auto simp: List.map_filter_simps split: option.splits)

lemma mtd_size: "x \<in> set (mtd_map s) \<Longrightarrow> \<exists>v. py_int 16 (fst (snd x)) = Inr v"
  by (cases x) (auto simp: mtd_map_def dest!: map_filter_Some mtd_line_size intro!: py_int_hex split: option.splits)

definition preamble_short :: "'z fwsys \<Rightarrow> bool" where
  "preamble_short s = (fs_exists s ''/dev/mtd0'' \<and> (\<exists>blob off. read_bytes s ''/dev/mtd0'' (Some 512) = Some blob \<and>
     find_from rcw_preamble 0 blob = Some off \<and> length blob < off + 68))"

definition blank_stderr :: "'z fwsys \<Rightarrow> bool" where
  "blank_stderr s = (is_root s \<and> (\<exists>rc err. printenv s = Some (rc, err) \<and> rc \<noteq> 0 \<and> err \<noteq> [] \<and> py_lines [] (strip err) = []))"

lemma serdes_raises: "read_rcw_serdes s = Inl e \<longleftrightarrow> e = StructError \<and> preamble_short s"
  by (auto simp: read_rcw_serdes_def preamble_short_def length_slice split: option.splits if_splits)

lemma env_raises: "fw_env_ok s = Inl e \<Longrightarrow> e = IndexError \<and> blank_stderr s"
  by (auto simp: fw_env_ok_def blank_stderr_def split: option.splits if_splits list.splits)

lemma bindE_eq_Inl: "bindE m f = Inl e \<longleftrightarrow> m = Inl e \<or> (\<exists>x. m = Inr x \<and> f x = Inl e)"
  by (cases m) auto

lemma row_raises: "x \<in> set (mtd_map s) \<Longrightarrow> partition_row s v x p = Inl e \<Longrightarrow> e = IndexError \<and> blank_stderr s"
  using mtd_size [of x s]
  by (auto simp: partition_row_def partition_detail_def bindE_eq_Inl Let_def dest!: env_raises
      split: prod.splits if_splits option.splits)

lemma rows_raise:
  "set xs \<subseteq> set (mtd_map s) \<Longrightarrow> foldE (partition_row s v) xs p = Inl e \<Longrightarrow> e = IndexError \<and> blank_stderr s"
  by (induction xs arbitrary: p) (auto simp: bindE_eq_Inl dest: row_raises)

lemma seqE_raises: "seqE rs = Inl e \<Longrightarrow> Inl e \<in> set rs"
  by (induction rs rule: seqE.induct) (auto simp: bindE_eq_Inl)

lemma hex_int_raises: "hex_int bs = Inl e \<Longrightarrow> e = ValueError ''invalid literal for int()''"
  by (auto simp: hex_int_def py_int_def Let_def split: if_splits option.splits)

lemma scan_raises: "scan_version c = Inl e \<Longrightarrow> e = ValueError ''invalid literal for int()''"
  by (auto simp: scan_version_def Let_def bindE_eq_Inl dest: hex_int_raises split: option.splits if_splits)

lemma stream_raises: "recovery_stream infl z prev cs = Inl e \<Longrightarrow> e = ValueError ''invalid literal for int()''"
  by (induction infl z prev cs rule: recovery_stream.induct)
    (auto simp: bindE_eq_Inl dest: scan_raises split: if_splits option.splits)

definition bad_image :: "'z fwsys \<Rightarrow> bool" where
  "bad_image s = (\<exists>path off e. recovery_version s path off = Inl e)"

lemma recovery_raises: "recovery_version s path off = Inl e \<Longrightarrow> e = ValueError ''invalid literal for int()'' \<and> bad_image s"
  unfolding bad_image_def by (auto simp: recovery_version_def dest: stream_raises split: if_splits)

lemma stores_raise:
  "nor_recovery s = Inl e \<Longrightarrow> e = ValueError ''invalid literal for int()'' \<and> bad_image s"
  "emmc_recovery s = Inl e \<Longrightarrow> e = ValueError ''invalid literal for int()'' \<and> bad_image s"
  by (auto simp: nor_recovery_def emmc_recovery_def dest: recovery_raises split: option.splits if_splits)

lemma raw_raises:
  assumes "raw_dict s = Inl e"
  shows "e = StructError \<and> preamble_short s \<or> e = IndexError \<and> blank_stderr s \<or>
    e = ValueError ''invalid literal for int()'' \<and> bad_image s"
proof -
  have "Inl e \<notin> set (map (\<lambda>(_, size_hex, _). py_int 16 size_hex) (mtd_map s))" using mtd_size [of _ s] by fastforce
  then have "seqE (map (\<lambda>(_, size_hex, _). py_int 16 size_hex) (mtd_map s)) \<noteq> Inl e" using seqE_raises by blast
  with assms show ?thesis by (auto simp: raw_dict_def bindE_eq_Inl serdes_raises dest: env_raises stores_raise)
qed


definition cut_preamble :: "unit fwsys" where
  "cut_preamble = sample_fw\<lparr>fs_exists := (\<lambda>p. p = ''/dev/mtd0''), fs_opens := (\<lambda>_. True),
     fs_pread := (\<lambda>p off n. if p = ''/dev/mtd0'' then Some (replicate 8 0 @ rcw_preamble) else fs_pread sample_fw p off n)\<rparr>"


section \<open>The two container readers\<close>

lemma utf8_ascii: "\<forall>b \<in> set bs. b < 0x80 \<Longrightarrow> utf8 rep bs = Some (str_of bs)"
proof (induction bs)
  case (Cons b bs)
  then have "utf8_step b bs = (True, 0)" by (simp add: utf8_step_def tail_length_def tail_good_def)
  with Cons show ?case by (simp add: str_of_def)
qed (simp add: str_of_def)

lemma decode_ascii: "\<forall>b \<in> set bs. b < 0x80 \<Longrightarrow> decode_replace bs = str_of bs"
  by (simp add: decode_replace_def utf8_ascii)

lemma ascii_small: "\<forall>c \<in> set (ascii_replace bs). c < 128 \<Longrightarrow> b \<in> set bs \<Longrightarrow> unat b < 128"
proof -
  assume all: "\<forall>c \<in> set (ascii_replace bs). c < 128" and b: "b \<in> set bs"
  have "(if unat b < 128 then unat b else 0xFFFD) \<in> set (ascii_replace bs)"
    unfolding ascii_replace_def set_map by (rule image_eqI [OF refl b])
  with all have "(if unat b < 128 then unat b else 0xFFFD) < 128" by blast
  then show "unat b < 128" by (cases "unat b < 128") simp_all
qed

lemma codes_str_of: "map of_char (str_of bs) = map unat bs"
proof -
  have "unat b < 256" for b :: byte using unsigned_less [of b, where ?'a = nat] by simp
  then show ?thesis by (simp add: str_of_def)
qed

text \<open>C27. Every container that the offline reader accepts has a header for the operational command, and both read
  the same length, layout version, split flag, section count, SoC model and, when it is ASCII, identity.\<close>

theorem container_readers_agree:
  assumes "parse_blob path raw = Inr q"
  shows "\<exists>i. qef_decode raw = Some i \<and> qi_length i = q_length q \<and> qi_version i = unat (q_layout q) \<and>
    qi_split_iram i = unat (q_split q) \<and> qi_count i = unat (q_sections q) \<and> qi_soc_model i = unat (q_soc q) \<and>
    ((\<forall>c \<in> set (q_id q). c < 128) \<longrightarrow> map of_char (qi_id i) = q_id q)"
proof -
  from assms have len: "248 \<le> length raw" and magic: "slice 4 8 raw = [0x51, 0x45, 0x46, 1]" and q: "q = container_view path raw"
    by (simp_all add: parse_blob_eq_Inr magic_ok_def)
  have "slice 4 7 raw = take 3 (slice 4 8 raw)" by (simp add: slice_def)
  then have m: "slice 4 7 raw = [0x51, 0x45, 0x46]" by (simp add: magic)
  let ?id = "takeWhile (\<lambda>b. b \<noteq> 0) (slice 8 70 raw)"
  have "map of_char (decode_replace ?id) = q_id q" if "\<forall>c \<in> set (q_id q). c < 128"
  proof -
    have "q_id q = ascii_replace ?id" by (simp add: q container_view_def Let_def)
    with that have small: "\<forall>b \<in> set ?id. unat b < 128" using ascii_small by simp
    then have "\<forall>b \<in> set ?id. b < 0x80" by (simp add: word_less_nat_alt)
    then have "decode_replace ?id = str_of ?id" by (rule decode_ascii)
    then show ?thesis using small by (simp add: codes_str_of q container_view_def ascii_replace_def Let_def)
  qed
  then show ?thesis using len m by (simp add: qef_decode_def QEF_LEN_def q container_view_def Let_def)
qed

theorem container_readers_agree_witness: "\<exists>i. qef_decode sample_file = Some i \<and> qi_length i = 260"
  using container_readers_agree [OF sample_parses] by (auto simp: container_view_def sample_words Let_def)

end
