(* ===== verification/FwImage.thy ===== *)
theory FwImage
  imports FwProps HexText
begin

text \<open>
  Reading the version file back out of a recovery image: what the decompressed stream has to look like
  for the right text to come out.
\<close>

section \<open>Hexadecimal fields\<close>

lemma str_bytes [simp]: "str_of (bytes_of s) = s"
proof -
  have "char_of (unat (of_nat (of_char c) :: byte)) = c" for c
    using nat_of_char_less_256 [of c] by (simp add: unat_of_nat)
  then show ?thesis by (simp add: str_of_def bytes_of_def map_idI)
qed

lemma length_bytes_of [simp]: "length (bytes_of s) = length s"
  by (simp add: bytes_of_def)

lemma hex_int_field:
  assumes "n < 2 ^ 32"
  shows "hex_int (bytes_of (hex_fmt 8 n)) = Inr (int n)"
proof -
  have "\<not> byte_in 0x1C 0x1F (of_nat (of_char c))" if "is_hex c" for c
  proof -
    have "(of_char c :: nat) < 256" by (rule nat_of_char_less_256)
    with that show ?thesis by (auto simp: is_hex_code byte_in_def word_le_nat_alt unat_of_nat Let_def)
  qed
  then have "\<not> (\<exists>b \<in> set (bytes_of (hex_fmt 8 n)). byte_in 0x1C 0x1F b)"
    using hex_fmt_hex [of 8 n] by (auto simp: bytes_of_def)
  moreover have "hex_fmt 8 n \<noteq> []" using hex_fmt_8 [OF assms] by auto
  ultimately show ?thesis by (simp add: hex_int_def py_int_hex_value hex_fmt_hex hex_fmt_value)
qed

section \<open>A cpio entry\<close>

definition cpio_header :: "nat list \<Rightarrow> byte list" where
  "cpio_header nums = cpio_magic @ concat (map (\<lambda>n. bytes_of (hex_fmt 8 n)) nums)"

text \<open>The version file: the size is field 6 and the length of the name, with its zero, field 11.\<close>

definition version_entry :: "nat list \<Rightarrow> byte list \<Rightarrow> byte list" where
  "version_entry nums data =
     (let head = cpio_header nums @ version_marker in head @ replicate ((4 - length head mod 4) mod 4) 0 @ data)"

definition version_fields :: "nat list \<Rightarrow> nat \<Rightarrow> bool" where
  "version_fields nums n = (length nums = 13 \<and> (\<forall>k \<in> set nums. k < 2 ^ 32) \<and> nums ! 6 = n \<and> nums ! 11 = 21)"

lemma drop_blocks: "\<forall>x \<in> set xs. length x = k \<Longrightarrow> i \<le> length xs \<Longrightarrow> drop (i * k) (concat xs) = concat (drop i xs)"
proof (induction xs arbitrary: i)
  case (Cons x xs)
  then show ?case by (cases i) auto
qed simp

lemma header_length: "version_fields nums n \<Longrightarrow> length (cpio_header nums) = 110"
proof -
  assume v: "version_fields nums n"
  have "length (concat (map (\<lambda>n. bytes_of (hex_fmt 8 n)) fs)) = 8 * length fs" if "\<forall>n \<in> set fs. n < 2 ^ 32" for fs
    using that hex_fmt_8 by (induction fs) auto
  with v show ?thesis by (simp add: cpio_header_def version_fields_def cpio_magic_def)
qed

lemma header_field:
  assumes "version_fields nums n" "i < 13"
  shows "slice (6 + 8 * i) (14 + 8 * i) (cpio_header nums) = bytes_of (hex_fmt 8 (nums ! i))"
proof -
  let ?xs = "map (\<lambda>n. bytes_of (hex_fmt 8 n)) nums"
  have len: "length nums = 13" "\<forall>x \<in> set ?xs. length x = 8" using assms(1) hex_fmt_8 by (auto simp: version_fields_def)
  have "length cpio_magic = 6" by (simp add: cpio_magic_def)
  then have "drop (6 + 8 * i) (cpio_header nums) = drop (i * 8) (concat ?xs)"
    by (simp add: cpio_header_def mult.commute)
  also have "\<dots> = concat (drop i ?xs)" using len assms(2) by (intro drop_blocks) auto
  also have "drop i ?xs = ?xs ! i # drop (Suc i) ?xs" using len assms(2) by (intro Cons_nth_drop_Suc [symmetric]) simp
  finally show ?thesis using len assms(2) by (simp add: slice_def)
qed

lemma entry_layout:
  assumes "version_fields nums (length data)"
  shows "version_entry nums data = cpio_header nums @ version_marker @ [0] @ data"
  using header_length [OF assms] by (simp add: version_entry_def Let_def version_marker_def)

lemma slice_mid: "slice (length xs) (length xs + length ys) (xs @ ys @ zs) = ys"
  by (simp add: slice_def)

lemma slice_in_slice: "b \<le> j - i \<Longrightarrow> slice a b (slice i j xs) = slice (i + a) (i + b) xs"
  by (simp add: slice_def drop_take add.commute min_def)

lemma clip_nat: "clip n (int k) = min k n"
proof -
  have "max 0 (min (int n) (int k)) = int (min k n)" by linarith
  then show ?thesis by (simp add: clip_def del: of_nat_min)
qed

lemma py_slice_nat: "py_slice (int i) (int j) xs = slice i j xs"
proof (cases "i \<le> length xs")
  case True
  then show ?thesis by (cases "j \<le> length xs") (simp_all add: py_slice_def clip_nat slice_def)
qed (simp add: py_slice_def clip_nat slice_def)

lemma find_first:
  assumes "occurs_at pat hay i" "\<forall>k < i. \<not> occurs_at pat hay k"
  shows "find_from pat 0 hay = Some i"
proof -
  obtain j where j: "find_from pat 0 hay = Some j" using assms(1) find_from_None [of pat 0 hay] by auto
  then have "occurs_at pat hay j" "\<not> i < j" using find_from_Some [OF j] assms(1) by auto
  with assms(2) j show ?thesis by (metis linorder_neqE_nat)
qed

lemma rfind_last:
  assumes "occurs_at pat (take stop hay) i" "i \<le> stop" "\<forall>k \<le> stop. i < k \<longrightarrow> \<not> occurs_at pat (take stop hay) k"
  shows "rfind pat stop hay = Some i"
proof -
  have "rev [0..<stop + 1] = rev [Suc i..<stop + 1] @ i # rev [0..<i]"
    using assms(2) upt_add_eq_append [of 0 i "stop + 1 - i"] by (simp add: upt_conv_Cons del: upt_Suc)
  moreover have "filter (occurs_at pat (take stop hay)) (rev [Suc i..<stop + 1]) = []"
    using assms(3) by (auto simp: filter_empty_conv)
  ultimately show ?thesis using assms(1) by (simp add: rfind_def)
qed

text \<open>The entry's name is the first occurrence of the marker, and no other magic number stands between its own and its name.\<close>

definition entry_at :: "byte list \<Rightarrow> nat list \<Rightarrow> byte list \<Rightarrow> byte list \<Rightarrow> bool" where
  "entry_at pre nums data c =
     (version_fields nums (length data) \<and> prefix (pre @ version_entry nums data) c \<and>
      (\<forall>k < length pre + 110. \<not> occurs_at version_marker c k) \<and>
      (\<forall>k \<le> length pre + 110. length pre < k \<longrightarrow> \<not> occurs_at cpio_magic (take (length pre + 110) c) k))"

text \<open>The body is looked for at the next multiple of four of the buffer, not of the archive.\<close>

lemma scan_entry:
  assumes "entry_at pre nums data c"
  shows "scan_version c = (let b = (length pre + 134) div 4 * 4 in
    Inr (if b + length data \<le> length c
         then Some (strip_of [CHR 0x00, CHR '' '', CHR 0x0A, CHR 0x0D] (decode_replace (slice b (b + length data) c))) else None))"
proof -
  let ?h = "length pre"
  from assms have v: "version_fields nums (length data)"
    and first: "\<forall>k < ?h + 110. \<not> occurs_at version_marker c k"
    and last: "\<forall>k \<le> ?h + 110. ?h < k \<longrightarrow> \<not> occurs_at cpio_magic (take (?h + 110) c) k"
    by (simp_all add: entry_at_def)
  from assms obtain post where "c = (pre @ version_entry nums data) @ post" by (auto simp: entry_at_def prefix_def)
  then have c: "c = pre @ cpio_header nums @ version_marker @ [0] @ data @ post" by (simp add: entry_layout [OF v])
  note hl = header_length [OF v]
  have ml: "length version_marker = 21" "length cpio_magic = 6" by (simp_all add: version_marker_def cpio_magic_def)
  have idx: "find_from version_marker 0 c = Some (?h + 110)"
  proof (rule find_first [OF _ first])
    show "occurs_at version_marker c (?h + 110)"
      using slice_mid [of "pre @ cpio_header nums" version_marker "[0] @ data @ post"] by (simp add: occurs_at_def c hl ml)
  qed
  have "take (?h + 110) c = pre @ cpio_header nums" by (simp add: c hl)
  moreover have "occurs_at cpio_magic (pre @ cpio_header nums) ?h"
    using hl slice_mid [of pre cpio_magic "concat (map (\<lambda>n. bytes_of (hex_fmt 8 n)) nums)"]
    by (simp add: occurs_at_def cpio_header_def ml)
  ultimately have h: "rfind cpio_magic (?h + 110) c = Some ?h" using last by (intro rfind_last) auto
  have hdr: "slice ?h (?h + 110) c = cpio_header nums"
    using slice_mid [of pre "cpio_header nums" "version_marker @ [0] @ data @ post"] by (simp add: c hl)
  have f: "hex_int (slice 54 62 (cpio_header nums)) = Inr (int (length data))" "hex_int (slice 94 102 (cpio_header nums)) = Inr 21"
  proof -
    have n: "nums ! 6 < 2 ^ 32" "nums ! 11 < 2 ^ 32" "nums ! 6 = length data" "nums ! 11 = 21"
      using v nth_mem [of 6 nums] nth_mem [of 11 nums] by (auto simp: version_fields_def)
    show "hex_int (slice 54 62 (cpio_header nums)) = Inr (int (length data))"
      using header_field [OF v, of 6] hex_int_field [OF n(1)] n(3) by simp
    show "hex_int (slice 94 102 (cpio_header nums)) = Inr 21"
      using header_field [OF v, of 11] hex_int_field [OF n(2)] n(4) by simp
  qed
  have "?h + 110 \<le> length c" by (simp add: c hl)
  moreover have "(134 + int ?h) div 4 * 4 = int ((?h + 134) div 4 * 4)" by (simp add: zdiv_int add.commute)
  ultimately show ?thesis
    using py_slice_nat [of "(?h + 134) div 4 * 4" "(?h + 134) div 4 * 4 + length data" c]
    by (simp add: scan_version_def idx h hdr f Let_def add.commute)
qed

definition image_ok :: "byte list \<Rightarrow> nat list \<Rightarrow> byte list \<Rightarrow> byte list \<Rightarrow> bool" where
  "image_ok pre nums data c = (length pre mod 4 = 0 \<and> entry_at pre nums data c)"

lemma scan_image:
  assumes "image_ok pre nums data c"
  shows "scan_version c = Inr (Some (strip_of [CHR 0x00, CHR '' '', CHR 0x0A, CHR 0x0D] (decode_replace data)))"
proof -
  let ?h = "length pre"
  from assms have v: "version_fields nums (length data)" and e: "entry_at pre nums data c" and "?h mod 4 = 0"
    by (simp_all add: image_ok_def entry_at_def)
  then obtain q where "?h = 4 * q" by (metis mult_div_mod_eq add.right_neutral)
  then have at: "(?h + 134) div 4 * 4 = ?h + 132" by simp
  from e obtain post where "c = (pre @ version_entry nums data) @ post" by (auto simp: entry_at_def prefix_def)
  then have c: "c = (pre @ cpio_header nums @ version_marker @ [0]) @ data @ post" by (simp add: entry_layout [OF v])
  have "length (pre @ cpio_header nums @ version_marker @ [0]) = ?h + 132"
    by (simp add: header_length [OF v] version_marker_def)
  then have "slice (?h + 132) (?h + 132 + length data) c = data" "?h + 132 + length data \<le> length c"
    unfolding c using slice_mid by (metis, simp)
  then show ?thesis by (simp only: scan_entry [OF e] at Let_def if_True)
qed

lemma strip_line:
  assumes "t \<noteq> []" "hd t \<notin> set cs" "last t \<notin> set cs" "CHR 0x0A \<in> set cs"
  shows "strip_of cs (t @ [CHR 0x0A]) = t"
proof -
  obtain a r where "t = a # r" using assms(1) by (cases t) auto
  then have "dropWhile (\<lambda>c. c \<in> set cs) (t @ [CHR 0x0A]) = t @ [CHR 0x0A]" using assms(2) by simp
  moreover have "dropWhile (\<lambda>c. c \<in> set cs) (rev t) = rev t"
    using assms(1,3) by (cases "rev t") (auto simp: hd_rev [symmetric])
  ultimately show ?thesis using assms(4) by (simp add: strip_of_def)
qed

lemma ascii_bytes: "\<forall>c \<in> set t. (of_char c :: nat) < 128 \<Longrightarrow> b \<in> set (bytes_of t) \<Longrightarrow> b < 0x80"
  by (auto simp: bytes_of_def word_less_nat_alt unat_of_nat)

text \<open>C26. The version of a recovery image: when the piece just decompressed, with the piece before it, holds the cpio
  entry of the version file at a multiple of four, its name for the first time and no other magic number in
  its header, the version reported is the text of the file without its line end.\<close>

theorem recovery_reads_version:
  assumes "chunk \<noteq> []" "infl z chunk = Some (z', out)" "out \<noteq> []"
    and "image_ok pre nums (bytes_of (t @ [CHR 0x0A])) (case prev of None \<Rightarrow> out | Some p \<Rightarrow> p @ out)"
    and "t \<noteq> []" "\<forall>c \<in> set t. (of_char c :: nat) < 128" "hd t \<notin> {CHR 0x00, CHR '' '', CHR 0x0A, CHR 0x0D}"
    "last t \<notin> {CHR 0x00, CHR '' '', CHR 0x0A, CHR 0x0D}"
  shows "recovery_stream infl z prev (Some chunk # cs) = Inr (Some t)"
proof -
  have "\<forall>c \<in> set (t @ [CHR 0x0A]). (of_char c :: nat) < 128" using assms(6) by simp
  then have "decode_replace (bytes_of (t @ [CHR 0x0A])) = t @ [CHR 0x0A]"
    using decode_ascii [of "bytes_of (t @ [CHR 0x0A])"] ascii_bytes by (metis str_bytes)
  moreover have "strip_of [CHR 0x00, CHR '' '', CHR 0x0A, CHR 0x0D] (t @ [CHR 0x0A]) = t"
    using assms(5,7,8) by (intro strip_line) auto
  ultimately show ?thesis using assms(1-3) scan_image [OF assms(4)] by simp
qed

definition sample_nums :: "nat list" where
  "sample_nums = [7, 4, 0, 0, 1, 0, 10, 8, 1, 0, 0, 21, 0]"

definition sample_image :: "byte list" where
  "sample_image = version_entry sample_nums (bytes_of (''2026.06.3'' @ [CHR 0x0A])) @ [0, 0]"

lemma sample_bytes: "sample_image = bytes_of (''070701'' @ ''00000007'' @ ''00000004'' @ ''00000000'' @ ''00000000'' @ ''00000001'' @
    ''00000000'' @ ''0000000a'' @ ''00000008'' @ ''00000001'' @ ''00000000'' @ ''00000000'' @ ''00000015'' @ ''00000000'' @
    ''etc/firmware/version'' @ [CHR 0x00, CHR 0x00] @ ''2026.06.3'' @ [CHR 0x0A, CHR 0x00, CHR 0x00])"
  by code_simp

lemma sample_entry:
  assumes "pre \<in> {[], [0, 0]}"
  shows "entry_at pre sample_nums (bytes_of (''2026.06.3'' @ [CHR 0x0A])) (pre @ sample_image)"
proof -
  have v: "version_fields sample_nums (length (bytes_of (''2026.06.3'' @ [CHR 0x0A])))"
    by (simp add: version_fields_def sample_nums_def)
  have f: "find_from version_marker 0 sample_image = Some 110" "find_from cpio_magic 1 (take 110 sample_image) = None"
      "find_from version_marker 0 ([0, 0] @ sample_image) = Some 112" "find_from cpio_magic 3 (take 112 ([0, 0] @ sample_image)) = None"
    unfolding sample_bytes by code_simp+
  show ?thesis
    using assms v find_from_Some(3) [OF f(1)] find_from_Some(3) [OF f(3)] f(2,4) [unfolded find_from_None]
    by (auto simp: entry_at_def sample_image_def)
qed

lemma sample_image_ok: "image_ok [] sample_nums (bytes_of (''2026.06.3'' @ [CHR 0x0A])) sample_image"
  using sample_entry [of "[]"] by (simp add: image_ok_def)

theorem recovery_reads_version_witness:
  "recovery_stream (\<lambda>u c. Some (u, c)) () None [Some sample_image] = Inr (Some ''2026.06.3'')"
proof -
  have "sample_image \<noteq> []" by (simp add: sample_image_def version_entry_def Let_def)
  then show ?thesis
    using recovery_reads_version [of sample_image "\<lambda>u c. Some (u, c)" "()" "()" sample_image "[]" sample_nums "''2026.06.3''" None "[]"]
      sample_image_ok by simp
qed

text \<open>Two bytes before the entry, as when the pieces do not break at a multiple of four, and the first two characters are lost.\<close>

lemma version_misaligned: "scan_version ([0, 0] @ sample_image) = Inr (Some ''26.06.3'')"
proof -
  have "slice 136 146 ([0, 0] @ sample_image) = bytes_of (''26.06.3'' @ [CHR 0x0A, CHR 0x00, CHR 0x00])" "length sample_image = 144"
    unfolding sample_bytes by code_simp+
  moreover have "strip_of [CHR 0x00, CHR '' '', CHR 0x0A, CHR 0x0D] (decode_replace (bytes_of (''26.06.3'' @ [CHR 0x0A, CHR 0x00, CHR 0x00]))) = ''26.06.3''"
    by code_simp
  ultimately show ?thesis using scan_entry [OF sample_entry [of "[0, 0]"]] by simp
qed

end
