(* ===== verification/FanPid.thy ===== *)
theory FanPid
  imports Complex_Main PyText
begin

text \<open>
  The fan controller \<^verbatim>\<open>board/scripts/fan-pid\<close>: one PI controller per thermal zone, the largest demand
  smoothed and sent to every fan above the fan's learned spinning floor, and the search for that floor.
  Temperatures, gains and demands are rationals where the program has floating-point numbers.  A tick
  takes the sensor readings and the bus's acknowledgements; the chip's duty registers are part of the
  state, and every write that is issued is logged.
\<close>

section \<open>Constants\<close>

record zone =
  z_name :: string
  setpoint :: rat
  crit_temp :: rat
  kp :: rat
  ki :: rat
  last_temp :: rat
  integral :: rat

definition zone_of :: "string \<Rightarrow> rat \<Rightarrow> rat \<Rightarrow> rat \<Rightarrow> rat \<Rightarrow> zone" where
  "zone_of n sp cr p i = \<lparr>z_name = n, setpoint = sp, crit_temp = cr, kp = p, ki = i, last_temp = 0, integral = 0\<rparr>"

definition ZONES :: "zone list" where
  "ZONES = [zone_of ''ddr-thermal'' 65 80 4 (20 / 100), zone_of ''serdes-thermal'' 70 85 6 (30 / 100),
     zone_of ''fman-thermal'' 70 87 6 (30 / 100), zone_of ''cluster-thermal'' 65 85 5 (25 / 100),
     zone_of ''sec-thermal'' 65 85 5 (25 / 100)]"

definition ZONE_ALIASES :: "string \<Rightarrow> string list" where
  "ZONE_ALIASES n =
     (if n = ''cluster-thermal'' then [''core_cluster'', ''cluster_thermal'']
      else if n = ''ddr-thermal'' then [''ddr_thermal''] else if n = ''fman-thermal'' then [''fman_thermal'']
      else if n = ''serdes-thermal'' then [''serdes_thermal''] else if n = ''sec-thermal'' then [''sec_thermal''] else [])"

definition PWM_FLOOR :: int where "PWM_FLOOR = 0"
definition PWM_MAX :: int where "PWM_MAX = 255"
definition PWM_DEADBAND :: int where "PWM_DEADBAND = 3"
definition FLOOR_MIN :: int where "FLOOR_MIN = 20"
definition FLOOR_MAX :: int where "FLOOR_MAX = 160"
definition FLOOR_START :: int where "FLOOR_START = 96"
definition SEEK_TARGET_RPM :: int where "SEEK_TARGET_RPM = 590"
definition SEEK_DEADBAND :: int where "SEEK_DEADBAND = 60"
definition SEEK_KP :: rat where "SEEK_KP = 3 / 100"
definition SEEK_UP_MAX :: int where "SEEK_UP_MAX = 10"
definition SEEK_NEAR_BAND :: int where "SEEK_NEAR_BAND = 400"
definition SEEK_DOWN_MAX_FAR :: int where "SEEK_DOWN_MAX_FAR = 12"
definition SEEK_DOWN_MAX_NEAR :: int where "SEEK_DOWN_MAX_NEAR = 3"
definition SEEK_STALL_BUMP :: int where "SEEK_STALL_BUMP = 6"
definition SEEK_STALL_MARGIN :: int where "SEEK_STALL_MARGIN = 2"
definition SEEK_BLACKOUT :: nat where "SEEK_BLACKOUT = 5"
definition SEEK_DOWN_TICKS :: nat where "SEEK_DOWN_TICKS = 2"
definition SEEK_STEP_SETTLE :: nat where "SEEK_STEP_SETTLE = 2"
definition SEEK_FLAT_RPM :: int where "SEEK_FLAT_RPM = 25"
definition SEEK_MEASURE_TOL :: int where "SEEK_MEASURE_TOL = PWM_DEADBAND"
definition SEEK_COOLDOWN :: nat where "SEEK_COOLDOWN = 8"
definition EMA_ALPHA :: rat where "EMA_ALPHA = 25 / 100"
definition HARD_FAULT_TEMP :: rat where "HARD_FAULT_TEMP = 100"
definition EMC2305_RPM_FACTOR :: nat where "EMC2305_RPM_FACTOR = 3932160"
definition TACH_SILICON_FLOOR_RPM :: nat where "TACH_SILICON_FLOOR_RPM = 484"

lemmas fan_consts = PWM_FLOOR_def PWM_MAX_def PWM_DEADBAND_def FLOOR_MIN_def FLOOR_MAX_def FLOOR_START_def SEEK_TARGET_RPM_def
  SEEK_DEADBAND_def SEEK_UP_MAX_def SEEK_NEAR_BAND_def SEEK_DOWN_MAX_FAR_def SEEK_DOWN_MAX_NEAR_def SEEK_STALL_BUMP_def
  SEEK_STALL_MARGIN_def SEEK_BLACKOUT_def SEEK_DOWN_TICKS_def SEEK_STEP_SETTLE_def SEEK_FLAT_RPM_def SEEK_MEASURE_TOL_def
  SEEK_COOLDOWN_def

text \<open>\<^verbatim>\<open>round(x)\<close>: a half goes to the even neighbour.\<close>

definition py_round :: "rat \<Rightarrow> int" where
  "py_round x =
     (let f = floor x; d = x - of_int f in
      if d < 1 / 2 then f else if d > 1 / 2 then f + 1 else if even f then f else f + 1)"

text \<open>
  \<^verbatim>\<open>find_thermal_zones\<close> over the entries of the thermal class in sorted order: name, the text of
  \<^verbatim>\<open>type\<close> unless unreadable, and whether \<^verbatim>\<open>temp\<close> exists.  The result maps zones to entries.
\<close>

definition zone_for :: "string \<Rightarrow> string option" where
  "zone_for t = map_option z_name (find (\<lambda>z. t = z_name z \<or> t \<in> set (ZONE_ALIASES (z_name z))) ZONES)"

definition find_thermal_zones :: "(string \<times> string option \<times> bool) list \<Rightarrow> (string \<rightharpoonup> string)" where
  "find_thermal_zones es =
     fold (\<lambda>(e, t, has_temp) found.
       if \<not> startswith e ''thermal_zone'' \<or> \<not> has_temp then found
       else case t of None \<Rightarrow> found
         | Some t \<Rightarrow> (case zone_for (strip t) of Some n \<Rightarrow> found(n \<mapsto> e) | None \<Rightarrow> found)) es Map.empty"

section \<open>State\<close>

record fan =
  f_name :: string
  duty_reg :: nat
  tach_reg :: nat
  present :: bool
  tach_ok :: bool
  fan_floor :: int
  rpm :: "int option"
  last_written_pwm :: int
  seek_flat :: nat
  seek_settle :: nat
  seek_blackout :: nat
  floor_lo :: int
  cooldown :: nat
  kick :: bool

record controller =
  fans :: "fan list"
  zones :: "zone list"
  zone_paths :: "string list"
  smoothed_pwm :: rat
  raw_tach :: bool
  duty :: "nat \<Rightarrow> int"
  writes :: "(nat \<times> int) list"

text \<open>
  The readings of one tick: the temperature of a zone (in degrees), the word of a tachometer register or
  the text of its file as a number, and whether the chip acknowledges a write to a duty register.
\<close>

record readings =
  r_temp :: "string \<Rightarrow> rat option"
  r_word :: "nat \<Rightarrow> u16 option"
  r_sysfs :: "nat \<Rightarrow> int option"
  r_ack :: "nat \<Rightarrow> bool"

text \<open>The two channels: name, duty register, tachometer register.\<close>

definition FAN_DEFS :: "(string \<times> nat \<times> nat) list" where
  "FAN_DEFS = [(''fan1'', 0x30, 0x3E), (''fan2'', 0x40, 0x4E)]"

section \<open>The chip\<close>

definition i2c_write_pwm :: "readings \<Rightarrow> int \<Rightarrow> nat \<Rightarrow> controller \<Rightarrow> controller" where
  "i2c_write_pwm r v reg c =
     c\<lparr>writes := writes c @ [(reg, v mod 256)], duty := (if r_ack r reg then (duty c)(reg := v mod 256) else duty c)\<rparr>"

definition i2c_write_all_fans :: "readings \<Rightarrow> int \<Rightarrow> controller \<Rightarrow> controller" where
  "i2c_write_all_fans r v c = fold (\<lambda>(_, reg, _). i2c_write_pwm r v reg) FAN_DEFS c"

definition read_fan_rpm_raw :: "u16 option \<Rightarrow> int option" where
  "read_fan_rpm_raw w =
     map_option (\<lambda>w.
       let raw = push_bit 8 (w AND 0xFF) OR (drop_bit 8 w AND 0xFF); count = unat (drop_bit 3 raw) in
       if count = 0 then 0
       else let n = EMC2305_RPM_FACTOR div count in if n \<le> TACH_SILICON_FLOOR_RPM then 0 else int n) w"

definition fan_rpm :: "bool \<Rightarrow> readings \<Rightarrow> fan \<Rightarrow> int option" where
  "fan_rpm raw r f = (if raw then read_fan_rpm_raw (r_word r (tach_reg f)) else r_sysfs r (duty_reg f))"

section \<open>One tick\<close>

definition min_floor :: "controller \<Rightarrow> int" where
  "min_floor c = (case filter present (fans c) of [] \<Rightarrow> FLOOR_MIN | f # fs \<Rightarrow> Min (fan_floor ` set (f # fs)))"

definition integral_clamp :: "zone \<Rightarrow> rat" where
  "integral_clamp z = (if ki z \<le> 0 then 0 else of_int (PWM_MAX - PWM_FLOOR) / ki z)"

text \<open>A zone without a path is skipped; a failed read keeps the last temperature.  The result is the demand.\<close>

definition zone_tick :: "rat \<Rightarrow> readings \<Rightarrow> zone \<Rightarrow> zone \<times> rat" where
  "zone_tick baseline r z =
     (let t = (case r_temp r (z_name z) of None \<Rightarrow> last_temp z | Some t \<Rightarrow> t);
          err = t - setpoint z;
          i = max 0 (integral z + err);
          i = (if i > integral_clamp z then integral_clamp z else i);
          p = baseline + kp z * err + ki z * i in
      (z\<lparr>last_temp := t, integral := i\<rparr>, max 0 (min (of_int PWM_MAX) p)))"

definition driven :: "controller \<Rightarrow> zone \<Rightarrow> bool" where "driven c z = (z_name z \<in> set (zone_paths c))"

definition too_hot :: "controller \<Rightarrow> zone list \<Rightarrow> bool" where
  "too_hot c zs = (\<exists>z \<in> set zs. driven c z \<and> (last_temp z \<ge> HARD_FAULT_TEMP \<or> last_temp z \<ge> crit_temp z))"

text \<open>The zones after their step, the largest demand, and whether a zone is critical or at the fault limit.\<close>

definition read_zones :: "readings \<Rightarrow> controller \<Rightarrow> zone list \<times> rat \<times> bool" where
  "read_zones r c =
     (let b = of_int (min_floor c);
          zs = map (\<lambda>z. if driven c z then fst (zone_tick b r z) else z) (zones c);
          ps = map (\<lambda>z. snd (zone_tick b r z)) (filter (driven c) (zones c)) in
      (zs, fold max ps (of_int PWM_FLOOR), too_hot c zs))"

definition smooth :: "rat \<Rightarrow> bool \<Rightarrow> controller \<Rightarrow> rat" where
  "smooth demand hot c =
     (if hot then of_int PWM_MAX
      else let s = EMA_ALPHA * demand + (1 - EMA_ALPHA) * smoothed_pwm c in
        if s < of_int (min_floor c) then of_int (min_floor c) else s)"

definition fan_output :: "int \<Rightarrow> bool \<Rightarrow> fan \<Rightarrow> int" where
  "fan_output shared allow f =
     max 0 (min PWM_MAX (if kick f then PWM_MAX else if allow then fan_floor f else max shared (fan_floor f)))"

definition must_write :: "int \<Rightarrow> fan \<Rightarrow> bool" where
  "must_write out f = (out = 0 \<or> out = PWM_MAX \<or> last_written_pwm f < 0 \<or> \<bar>out - last_written_pwm f\<bar> \<ge> PWM_DEADBAND)"

definition drive_fan :: "readings \<Rightarrow> int \<Rightarrow> bool \<Rightarrow> fan \<Rightarrow> fan list \<times> controller \<Rightarrow> fan list \<times> controller" where
  "drive_fan r shared allow f = (\<lambda>(fs, c).
     if \<not> present f then (fs @ [f], c)
     else let out = fan_output shared allow f; f' = f\<lparr>kick := False\<rparr> in
       if must_write out f then (fs @ [f'\<lparr>last_written_pwm := out\<rparr>], i2c_write_pwm r out (duty_reg f) c)
       else (fs @ [f'], c))"


text \<open>
  \<^verbatim>\<open>_refine_floor\<close>, in its order of decisions: what is sampled, when the sample counts, the stall branch, the
  upward move and the downward one.
\<close>

definition stall_move :: "fan \<Rightarrow> fan" where
  "stall_move f =
     (let f' = f\<lparr>seek_flat := 0, floor_lo := max (floor_lo f) (fan_floor f + SEEK_STALL_MARGIN)\<rparr> in
      if fan_floor f \<ge> FLOOR_MAX then f'
      else f'\<lparr>fan_floor := min FLOOR_MAX (max (floor_lo f') (fan_floor f + SEEK_STALL_BUMP)),
              kick := True, seek_blackout := SEEK_BLACKOUT\<rparr>)"

definition seek_up :: "int \<Rightarrow> fan \<Rightarrow> fan" where
  "seek_up err f =
     (if fan_floor f \<ge> FLOOR_MAX then f
      else let s = max 1 (min SEEK_UP_MAX (py_round (SEEK_KP * of_int err))) in
        f\<lparr>fan_floor := min FLOOR_MAX (fan_floor f + s), seek_flat := 0, cooldown := SEEK_COOLDOWN\<rparr>)"

definition step_down :: "int \<Rightarrow> int \<Rightarrow> int \<Rightarrow> fan \<Rightarrow> fan" where
  "step_down lo cap err f =
     (let s = max 1 (min cap (py_round (SEEK_KP * of_int (- err)))) in
      f\<lparr>fan_floor := max lo (fan_floor f - s), seek_flat := 0, seek_settle := SEEK_STEP_SETTLE\<rparr>)"

definition seek_down :: "int option \<Rightarrow> int \<Rightarrow> fan \<Rightarrow> fan" where
  "seek_down prev n f =
     (let lo = max FLOOR_MIN (floor_lo f); err = SEEK_TARGET_RPM - n in
      if fan_floor f \<le> lo then f
      else if n - SEEK_TARGET_RPM \<le> SEEK_NEAR_BAND then
        (let flat = (case prev of None \<Rightarrow> False | Some l \<Rightarrow> \<bar>n - l\<bar> \<le> SEEK_FLAT_RPM) in
         if \<not> flat \<or> cooldown f > 0 then f\<lparr>seek_flat := 0\<rparr>
         else let f' = f\<lparr>seek_flat := seek_flat f + 1\<rparr> in
           if seek_flat f' < SEEK_DOWN_TICKS then f' else step_down lo SEEK_DOWN_MAX_NEAR err f')
      else step_down lo SEEK_DOWN_MAX_FAR err f)"

definition seek_move :: "int option \<Rightarrow> int \<Rightarrow> fan \<Rightarrow> fan" where
  "seek_move prev n f =
     (let err = SEEK_TARGET_RPM - n in
      if n = 0 then stall_move f
      else if \<bar>err\<bar> \<le> SEEK_DEADBAND then f\<lparr>seek_flat := 0\<rparr>
      else if err > 0 then seek_up err f
      else seek_down prev n f)"

definition sampled :: "bool \<Rightarrow> int \<Rightarrow> fan \<Rightarrow> fan" where
  "sampled allow n f =
     (let g = f\<lparr>rpm := Some n\<rparr> in
      if \<not> allow then g\<lparr>seek_flat := 0, seek_settle := 0\<rparr>
      else if last_written_pwm g > fan_floor g + SEEK_MEASURE_TOL then g
      else if seek_settle g > 0 then g\<lparr>seek_settle := seek_settle g - 1\<rparr>
      else if seek_blackout g > 0 then g\<lparr>seek_blackout := seek_blackout g - 1\<rparr>
      else seek_move (rpm f) n g)"

definition refine_floor :: "bool \<Rightarrow> readings \<Rightarrow> bool \<Rightarrow> fan \<Rightarrow> fan" where
  "refine_floor raw r allow f =
     (if \<not> present f \<or> \<not> tach_ok f then f
      else let f' = f\<lparr>cooldown := cooldown f - 1\<rparr> in
        case fan_rpm raw r f' of None \<Rightarrow> f' | Some n \<Rightarrow> sampled allow n f')"

definition drive_fans :: "readings \<Rightarrow> int \<Rightarrow> bool \<Rightarrow> controller \<Rightarrow> fan list \<times> controller" where
  "drive_fans r shared allow c = fold (drive_fan r shared allow) (fans c) ([], c)"

definition control_step :: "readings \<Rightarrow> controller \<Rightarrow> controller" where
  "control_step r c =
     (let (zs, demand, hot) = read_zones r c;
          zs = (if hot then map (\<lambda>z. z\<lparr>integral := 0\<rparr>) zs else zs);
          s = smooth demand hot c;
          allow = (\<not> hot \<and> demand \<le> of_int (min_floor c));
          (fs, c') = drive_fans r (py_round s) allow c in
      c'\<lparr>zones := zs, smoothed_pwm := s, fans := map (refine_floor (raw_tach c) r allow) fs\<rparr>)"

section \<open>Start and stop\<close>

definition detect_present_fans :: "bool \<Rightarrow> readings \<Rightarrow> (string \<times> nat \<times> nat \<times> bool) list" where
  "detect_present_fans raw r =
     map (\<lambda>(n, d, t).
       let q = (if raw then read_fan_rpm_raw (r_word r t) else r_sysfs r d) in
       (n, d, t, case q of None \<Rightarrow> False | Some v \<Rightarrow> v > 0)) FAN_DEFS"

definition init_fan :: "int \<Rightarrow> string \<times> nat \<times> nat \<times> bool \<Rightarrow> fan" where
  "init_fan start = (\<lambda>(n, d, t, p).
     \<lparr>f_name = n, duty_reg = d, tach_reg = t, present = p, tach_ok = p,
      fan_floor = (if p then max FLOOR_MIN (min PWM_MAX start) else PWM_MAX),
      rpm = (if p then None else Some 0), last_written_pwm = -1, seek_flat = 0, seek_settle = 0,
      seek_blackout = 0, floor_lo = FLOOR_MIN, cooldown = 0, kick = False\<rparr>)"

definition new_controller :: "bool \<Rightarrow> string list \<Rightarrow> (string \<times> nat \<times> nat \<times> bool) list \<Rightarrow> controller \<Rightarrow> controller" where
  "new_controller raw paths found c =
     (let c' = c\<lparr>fans := map (\<lambda>q. init_fan (if snd (snd (snd q)) then FLOOR_START else PWM_MAX) q) found,
                 zones := ZONES, zone_paths := paths, raw_tach := raw\<rparr> in
      c'\<lparr>smoothed_pwm := of_int (min_floor c')\<rparr>)"

text \<open>The six low and high pulses of the startup whistle, cut short when the daemon is told to stop.\<close>

definition whistle :: "readings list \<Rightarrow> controller \<Rightarrow> controller" where
  "whistle rs c = fold (\<lambda>r c. i2c_write_all_fans r 255 (i2c_write_all_fans r 130 c)) (take 6 rs) c"

definition control_loop :: "readings list \<Rightarrow> controller \<Rightarrow> controller" where
  "control_loop rs c = fold control_step rs c"

text \<open>
  \<^verbatim>\<open>main\<close> from the board gate to the exit status.  What it finds outside (the board's name, the chip, the bus,
  whether the range could be programmed, the zones) is in the record; a stop is the end of the reading lists.
\<close>

record machine =
  on_ls1046a :: bool
  has_hwmon :: bool
  has_i2c :: bool
  range_500 :: bool
  thermal :: "(string \<times> string option \<times> bool) list"
  pulses :: "readings list"
  at_max :: readings
  ticks :: "readings list"
  at_exit :: readings

definition zone_names :: "machine \<Rightarrow> string list" where
  "zone_names m = filter (\<lambda>n. find_thermal_zones (thermal m) n \<noteq> None) (map z_name ZONES)"

definition run_fans :: "machine \<Rightarrow> controller \<Rightarrow> controller" where
  "run_fans m c =
     (let c = i2c_write_all_fans (at_max m) PWM_MAX (whistle (pulses m) c);
          c = new_controller (range_500 m) (zone_names m) (detect_present_fans (range_500 m) (at_max m)) c in
      i2c_write_all_fans (at_exit m) PWM_MAX (control_loop (ticks m) c))"

definition fan_main :: "machine \<Rightarrow> controller \<Rightarrow> nat \<times> controller" where
  "fan_main m c =
     (if \<not> on_ls1046a m then (0, c) else if \<not> has_hwmon m then (1, c) else if \<not> has_i2c m then (1, c)
      else if zone_names m = [] then (1, i2c_write_all_fans (at_exit m) PWM_MAX c)
      else (0, run_fans m c))"

end
