(* ===== verification/MonoLed.thy ===== *)
theory MonoLed
  imports Led FanPid FwInfo
begin

text \<open>
  The status LED daemon (\<^verbatim>\<open>board/scripts/monoledd\<close>): frame counters or byte counters to a load, the load to a step
  of the colour ramp, at most two steps per tick, a fade to the colour.  Sysfs access and the parser of
  colours are those of \<^verbatim>\<open>Led\<close>, whose functions the daemon repeats.  Loads and times are rationals; \<open>lg\<close> is
  \<^verbatim>\<open>math.log10\<close> and \<open>phase\<close> the sine of the heartbeat at a time.  The two periodic effects without state, sleeping
  and the status line of every thirty seconds, are left out.
\<close>

section \<open>Constants\<close>

definition TICK_MS :: int where "TICK_MS = 333"
definition MONO_MIN_FRAME_MS :: int where "MONO_MIN_FRAME_MS = 10"
definition STEP_CLAMP :: int where "STEP_CLAMP = 2"
definition COUNTER_MOD :: int where "COUNTER_MOD = 2 ^ 32"
definition LOG_FLOOR_FPS :: rat where "LOG_FLOOR_FPS = 1000"
definition LOG_CEIL_FPS :: rat where "LOG_CEIL_FPS = 3000000"
definition LOG_FLOOR_BPS :: rat where "LOG_FLOOR_BPS = 1000000"
definition LOG_CEIL_BPS :: rat where "LOG_CEIL_BPS = 10000000000"
definition HEARTBEAT_DEPTH :: rat where "HEARTBEAT_DEPTH = 1 / 2"
definition INTERFACES :: "string list" where "INTERFACES = [''eth0'', ''eth1'', ''eth2'', ''eth3'', ''eth4'']"

definition MONO_PALETTE :: "string list" where
  "MONO_PALETTE =
     [''00020000'', ''00080000'', ''00100000'', ''00200000'', ''08200000'', ''10200000'', ''20180000'', ''30100000'',
      ''40080000'', ''50000000'', ''60080000'', ''80100000'', ''a0080000'', ''a0100000'', ''a0100200'', ''a0100800'',
      ''80101000'', ''60101000'', ''60101804'', ''40081808'', ''20081010'', ''08000820'', ''00000040'', ''00002040'',
      ''00004040'', ''00006020'', ''00007010'', ''00009008'', ''0000a000'', ''0000c000'', ''0000e000'', ''0000ff00'']"

text \<open>The colour of a ramp entry; every entry parses (\<open>palette_parses\<close> below).\<close>

definition colour_of :: "string \<Rightarrow> rgbw" where
  "colour_of s = (case parse_hex8 s of Inr t \<Rightarrow> t | Inl _ \<Rightarrow> (0, 0, 0, 0))"

definition STATES :: "rgbw list" where "STATES = map colour_of MONO_PALETTE"

definition N_STATES :: int where "N_STATES = int (length STATES)"

definition heartbeat_rgbw :: "(rat \<Rightarrow> rat) \<Rightarrow> rat \<Rightarrow> rgbw" where
  "heartbeat_rgbw phase t =
     (case STATES ! 0 of (r, g, b, w) \<Rightarrow>
        let f = (\<lambda>v. max 0 (min 255 (py_round (of_int v * (1 + HEARTBEAT_DEPTH * phase t))))) in (r, f g, f b, w))"

definition IDLE_MIN_STATE :: rgbw where
  "IDLE_MIN_STATE =
     (case STATES ! 0 of (r, g, b, w) \<Rightarrow>
        (r, py_round (of_int g * (1 - HEARTBEAT_DEPTH)), py_round (of_int b * (1 - HEARTBEAT_DEPTH)), w))"

section \<open>The fade\<close>

text \<open>
  \<open>round(c + (g - c) * i / n)\<close>.  Where the fraction lies halfway between two integers the floating-point product
  decides; \<open>up\<close> is that choice.
\<close>

definition mono_lerp :: "(int \<Rightarrow> int \<Rightarrow> int \<Rightarrow> bool) \<Rightarrow> int \<Rightarrow> int \<Rightarrow> int \<Rightarrow> int \<Rightarrow> int" where
  "mono_lerp up n c g i =
     (let x = c * n + (g - c) * i; q = x div n; r = x mod n in
      if 2 * r < n then q else if 2 * r > n then q + 1 else if up c g i then q + 1 else q)"

definition mono_frame :: "(int \<Rightarrow> int \<Rightarrow> int \<Rightarrow> bool) \<Rightarrow> int \<Rightarrow> rgbw \<Rightarrow> rgbw \<Rightarrow> int \<Rightarrow> rgbw" where
  "mono_frame up n = (\<lambda>(r0, g0, b0, w0) (r1, g1, b1, w1) i.
     (mono_lerp up n r0 r1 i, mono_lerp up n g0 g1 i, mono_lerp up n b0 b1 i, mono_lerp up n w0 w1 i))"

definition mono_frames :: "int \<Rightarrow> int" where
  "mono_frames ms = (let frame_ms = max MONO_MIN_FRAME_MS (ms div 10) in max 1 (ms div frame_ms))"

definition mono_fade :: "(int \<Rightarrow> int \<Rightarrow> int \<Rightarrow> bool) \<Rightarrow> rgbw \<Rightarrow> int \<Rightarrow> unit led" where
  "mono_fade up t ms =
     (if ms \<le> 0 then write_rgbw_now t
      else bindIO read_rgbw (\<lambda>c.
        if c = t then retIO ()
        else eachIO (\<lambda>i. write_rgbw_now (mono_frame up (mono_frames ms) c t i)) [1..mono_frames ms]))"

section \<open>Sampling\<close>

text \<open>What one tick reads: the counter node, the statistics files, the clock.\<close>

record mono_in =
  mi_qmi :: "string option"
  mi_stat :: "string \<Rightarrow> string \<Rightarrow> string option"
  mi_now :: rat

definition read_counter :: "string option \<Rightarrow> int" where
  "read_counter t = (case t of None \<Rightarrow> -1 | Some s \<Rightarrow> (case py_int 10 (strip s) of Inr i \<Rightarrow> i | Inl _ \<Rightarrow> -1))"

definition qmi_line :: "string \<Rightarrow> int \<times> int \<Rightarrow> int \<times> int" where
  "qmi_line l = (\<lambda>(e, d).
     case words l of
       k # v # _ \<Rightarrow>
         if k = ''fmqm_etfc'' then ((case py_int 10 v of Inr i \<Rightarrow> i | Inl _ \<Rightarrow> e), d)
         else if k = ''fmqm_dtfc'' then (e, (case py_int 10 v of Inr i \<Rightarrow> i | Inl _ \<Rightarrow> d)) else (e, d)
     | _ \<Rightarrow> (e, d))"

definition sample_qmi_frames :: "string option \<Rightarrow> int" where
  "sample_qmi_frames t =
     (case t of
        None \<Rightarrow> -1
      | Some s \<Rightarrow> (case fold qmi_line (py_lines [] s) (-1, -1) of (e, d) \<Rightarrow> if e < 0 \<and> d < 0 then -1 else max e d))"

definition sample_port_bytes :: "mono_in \<Rightarrow> string \<Rightarrow> int" where
  "sample_port_bytes x ifc =
     (let rx = read_counter (mi_stat x ifc ''rx_bytes''); tx = read_counter (mi_stat x ifc ''tx_bytes'')
      in if rx \<ge> 0 \<and> tx \<ge> 0 then rx + tx else -1)"

section \<open>From counters to a step\<close>

definition log_scale :: "(rat \<Rightarrow> rat) \<Rightarrow> rat \<Rightarrow> rat \<Rightarrow> rat \<Rightarrow> rat" where
  "log_scale lg lo hi x = (lg x - lg lo) / (lg hi - lg lo)"

definition frames_between :: "int \<Rightarrow> int \<Rightarrow> int" where "frames_between prev cur = (cur - prev) mod COUNTER_MOD"

definition compute_load_fps :: "(rat \<Rightarrow> rat) \<Rightarrow> int \<Rightarrow> int \<Rightarrow> rat \<Rightarrow> rat" where
  "compute_load_fps lg prev cur dt =
     (if dt \<le> 0 \<or> prev < 0 \<or> cur < 0 then 0
      else let fps = of_int (frames_between prev cur) / dt in
        if fps \<le> LOG_FLOOR_FPS then 0 else max 0 (min 1 (log_scale lg LOG_FLOOR_FPS LOG_CEIL_FPS fps)))"

definition port_load :: "(rat \<Rightarrow> rat) \<Rightarrow> int \<Rightarrow> int \<Rightarrow> rat \<Rightarrow> rat" where
  "port_load lg p c dt =
     (let bps = of_int ((c - p) * 8) / dt in
      if bps \<le> LOG_FLOOR_BPS then 0 else log_scale lg LOG_FLOOR_BPS LOG_CEIL_BPS bps)"

definition compute_load_bytes :: "(rat \<Rightarrow> rat) \<Rightarrow> (string \<Rightarrow> int) \<Rightarrow> (string \<Rightarrow> int) \<Rightarrow> rat \<Rightarrow> rat" where
  "compute_load_bytes lg prev cur dt =
     (if dt \<le> 0 then 0
      else max 0 (min 1 (fold (\<lambda>i best. if prev i < 0 \<or> cur i < 0 \<or> cur i < prev i then best
                                       else max best (port_load lg (prev i) (cur i) dt)) INTERFACES 0)))"

definition load_to_step :: "rat \<Rightarrow> int" where
  "load_to_step load = max 0 (min (N_STATES - 1) (py_round (load * of_int (N_STATES - 1))))"

text \<open>The step after a tick.\<close>

definition next_step :: "int \<Rightarrow> int \<Rightarrow> int" where
  "next_step cur target = max 0 (min (N_STATES - 1) (max (cur - STEP_CLAMP) (min (cur + STEP_CLAMP) target)))"

section \<open>The main loop\<close>

datatype counters = QmiFrames int | PortBytes "string \<Rightarrow> int"

record mono =
  mo_source :: counters
  mo_step :: int
  mo_last :: rat
  mo_missing :: "string set"
  mo_log :: "string list"

definition report_missing :: "(string \<Rightarrow> int) \<Rightarrow> mono \<Rightarrow> mono" where
  "report_missing cur st =
     fold (\<lambda>i s. if cur i < 0 \<and> i \<notin> mo_missing s
                 then s\<lparr>mo_missing := insert i (mo_missing s), mo_log := mo_log s @ [''interface '' @ i @ '' not present yet '' @ [CHR 0xE2, CHR 0x80, CHR 0x94] @ '' skipping'']\<rparr>
                 else s) INTERFACES st"

definition mono_sample :: "(rat \<Rightarrow> rat) \<Rightarrow> mono_in \<Rightarrow> mono \<Rightarrow> rat \<times> mono" where
  "mono_sample lg x st =
     (let dt = mi_now x - mo_last st; st = st\<lparr>mo_last := mi_now x\<rparr> in
      case mo_source st of
        QmiFrames prev \<Rightarrow>
          (let cur = sample_qmi_frames (mi_qmi x) in
           if cur < 0
           then (0, st\<lparr>mo_source := PortBytes (sample_port_bytes x),
                       mo_log := mo_log st @ [''FMan QMI counter unreadable; switching to sysfs fallback'']\<rparr>)
           else (compute_load_fps lg prev cur dt, st\<lparr>mo_source := QmiFrames cur\<rparr>))
      | PortBytes prev \<Rightarrow>
          (let cur = sample_port_bytes x in
           (compute_load_bytes lg prev cur dt, (report_missing cur st)\<lparr>mo_source := PortBytes cur\<rparr>)))"

definition shown_colour :: "(rat \<Rightarrow> rat) \<Rightarrow> rat \<Rightarrow> int \<Rightarrow> rgbw" where
  "shown_colour phase now step = (if step = 0 then heartbeat_rgbw phase now else STATES ! nat step)"

definition mono_tick ::
  "(rat \<Rightarrow> rat) \<Rightarrow> (rat \<Rightarrow> rat) \<Rightarrow> (int \<Rightarrow> int \<Rightarrow> int \<Rightarrow> bool) \<Rightarrow> mono_in \<Rightarrow> mono \<Rightarrow> mono led" where
  "mono_tick lg phase up x st =
     (let (load, st') = mono_sample lg x st; step = next_step (mo_step st) (load_to_step load) in
      bindIO (mono_fade up (shown_colour phase (mi_now x) step) TICK_MS) (\<lambda>_. retIO (st'\<lparr>mo_step := step\<rparr>)))"

fun mono_loop ::
  "(rat \<Rightarrow> rat) \<Rightarrow> (rat \<Rightarrow> rat) \<Rightarrow> (int \<Rightarrow> int \<Rightarrow> int \<Rightarrow> bool) \<Rightarrow> mono_in list \<Rightarrow> mono \<Rightarrow> mono led" where
  "mono_loop lg phase up [] st = retIO st"
| "mono_loop lg phase up (x # xs) st = bindIO (mono_tick lg phase up x st) (mono_loop lg phase up xs)"

text \<open>Start: the driver may appear while it is polled, \<open>polls\<close> are the directories seen then.\<close>

definition wait_for_driver :: "(channel \<Rightarrow> bool) list \<Rightarrow> unit led" where
  "wait_for_driver polls = (if \<exists>p \<in> set polls. \<forall>c \<in> set channels. p c then retIO () else verify_driver)"

text \<open>The probe, and the reading that the first tick is compared with.\<close>

definition mono_start :: "string option \<Rightarrow> string option \<Rightarrow> mono_in \<Rightarrow> mono" where
  "mono_start q0 q1 x =
     \<lparr>mo_source = (if sample_qmi_frames q0 \<ge> 0 then QmiFrames (sample_qmi_frames q1) else PortBytes (sample_port_bytes x)),
      mo_step = 0, mo_last = mi_now x, mo_missing = {}, mo_log = []\<rparr>"

text \<open>A run: the start, the ticks, and the signal that ends it; \<^verbatim>\<open>sys.exit(0)\<close> in the handler's \<^verbatim>\<open>finally\<close> wins.\<close>

definition mono_cleanup :: "'a led" where
  "mono_cleanup h = (case write_rgbw_now (0, 0, 0, 0) h of (_, h') \<Rightarrow> (Inl (SystemExit 0), h'))"

definition mono_main ::
  "(rat \<Rightarrow> rat) \<Rightarrow> (rat \<Rightarrow> rat) \<Rightarrow> (int \<Rightarrow> int \<Rightarrow> int \<Rightarrow> bool) \<Rightarrow> (channel \<Rightarrow> bool) list \<Rightarrow> string option \<Rightarrow> string option \<Rightarrow>
   mono_in \<Rightarrow> mono_in list \<Rightarrow> unit led" where
  "mono_main lg phase up polls q0 q1 x0 xs =
     bindIO (wait_for_driver polls) (\<lambda>_. bindIO claim_triggers (\<lambda>_. bindIO (write_rgbw_now IDLE_MIN_STATE) (\<lambda>_.
     bindIO (mono_fade up (STATES ! 0) TICK_MS) (\<lambda>_. bindIO (mono_loop lg phase up xs (mono_start q0 q1 x0)) (\<lambda>_. mono_cleanup)))))"

section \<open>Colours\<close>

lemma palettes_agree: "MONO_PALETTE = PALETTE"
  by (simp add: MONO_PALETTE_def PALETTE_def)

lemma palette_parses: "s \<in> set MONO_PALETTE \<Longrightarrow> \<exists>t. parse_hex8 s = Inr t"
  using palette_hex by (metis palettes_agree parse_hex8_ok)

lemma N_STATES: "N_STATES = 32"
  by (simp add: N_STATES_def STATES_def MONO_PALETTE_def)

lemma states_first: "STATES ! 0 = (0, 2, 0, 0)" and states_top: "STATES ! 31 = (0, 0, 255, 0)"
  by code_simp+

lemma states_lit: "\<forall>t \<in> set STATES. in_range t \<and> t \<noteq> (0, 0, 0, 0)"
  by code_simp

lemma heartbeat_lit:
  assumes "-1 \<le> phase t" "phase t \<le> 1"
  shows "heartbeat_rgbw phase t \<in> {(0, 1, 0, 0), (0, 2, 0, 0), (0, 3, 0, 0)}"
proof -
  define y where "y = 2 * (1 + HEARTBEAT_DEPTH * phase t)"
  have y: "1 \<le> y" "y \<le> 3" using assms by (simp_all add: y_def HEARTBEAT_DEPTH_def)
  then have "floor y = 1 \<or> floor y = 2 \<or> floor y = 3" by linarith
  moreover have "floor y = 3 \<Longrightarrow> y = 3" using y by linarith
  ultimately have "py_round y \<in> {1, 2, 3}"
    by (elim disjE) (simp_all add: py_round_def Let_def)
  then show ?thesis by (auto simp: heartbeat_rgbw_def states_first y_def Let_def py_round_def)
qed

lemma idle_min: "IDLE_MIN_STATE = (0, 1, 0, 0)"
  by (simp add: IDLE_MIN_STATE_def states_first HEARTBEAT_DEPTH_def py_round_def)

lemma shown_lit:
  assumes "\<forall>t. -1 \<le> phase t \<and> phase t \<le> 1" "0 \<le> step" "step < N_STATES"
  shows "in_range (shown_colour phase now step) \<and> shown_colour phase now step \<noteq> (0, 0, 0, 0)"
proof (cases "step = 0")
  case True
  then show ?thesis using heartbeat_lit [of phase now] assms(1) by (auto simp: shown_colour_def in_range_def)
next
  case False
  then have "STATES ! nat step \<in> set STATES" using assms(2,3) by (simp add: N_STATES_def)
  then show ?thesis using states_lit False by (simp add: shown_colour_def)
qed

section \<open>The fade\<close>

lemma lerp_numerator:
  assumes "0 \<le> i" "i \<le> n"
  shows "min c g * n \<le> c * n + (g - c) * i" "c * n + (g - c) * i \<le> max c g * (n :: int)"
proof -
  show "min c g * n \<le> c * n + (g - c) * i"
  proof (cases "c \<le> g")
    case True
    then show ?thesis using assms by simp
  next
    case False
    then have "(c - g) * i \<le> (c - g) * n" using assms by (intro mult_left_mono) auto
    then show ?thesis using False by (simp add: algebra_simps)
  qed
  show "c * n + (g - c) * i \<le> max c g * n"
  proof (cases "c \<le> g")
    case True
    then have "(g - c) * i \<le> (g - c) * n" using assms by (intro mult_left_mono) auto
    then show ?thesis using True by (simp add: algebra_simps)
  next
    case False
    then show ?thesis using assms by (simp add: mult_nonpos_nonneg)
  qed
qed

lemma mono_lerp_between:
  assumes "0 < n" "0 \<le> i" "i \<le> n"
  shows "min c g \<le> mono_lerp up n c g i \<and> mono_lerp up n c g i \<le> max c g"
proof -
  define x q r where "x = c * n + (g - c) * i" and "q = x div n" and "r = x mod n"
  have x: "x = q * n + r" "0 \<le> r" "r < n" using assms(1) by (simp_all add: q_def r_def)
  have b: "min c g * n \<le> x" "x \<le> max c g * n" using lerp_numerator [OF assms(2,3), of c g] by (simp_all add: x_def)
  have "min c g * n < (q + 1) * n" using b(1) x by (simp add: algebra_simps)
  then have lo: "min c g \<le> q" using assms(1) by (simp add: mult_less_cancel_right)
  have "q * n \<le> max c g * n" using b(2) x(1,2) by linarith
  then have hi: "q \<le> max c g" using assms(1) by (rule mult_right_le_imp_le)
  have "q + 1 \<le> max c g" if "0 < r"
  proof -
    have "q * n < max c g * n" using b(2) x that by linarith
    then show ?thesis using assms(1) by (simp add: mult_less_cancel_right)
  qed
  then show ?thesis using lo hi x assms(1)
    by (auto simp: mono_lerp_def Let_def x_def [symmetric] q_def [symmetric] r_def [symmetric])
qed

lemma mono_lerp_end: "0 < n \<Longrightarrow> mono_lerp up n c g n = g"
  by (simp add: mono_lerp_def Let_def algebra_simps)

lemma mono_frame_end: "0 < n \<Longrightarrow> mono_frame up n c t n = t"
  by (simp add: mono_frame_def mono_lerp_end split: prod.split)

lemma mono_frame_range:
  "0 < n \<Longrightarrow> 1 \<le> i \<Longrightarrow> i \<le> n \<Longrightarrow> in_range c \<Longrightarrow> in_range t \<Longrightarrow> in_range (mono_frame up n c t i)"
proof -
  assume n: "0 < n" "1 \<le> i" "i \<le> n" and r: "in_range c" "in_range t"
  have "0 \<le> mono_lerp up n a b i \<and> mono_lerp up n a b i \<le> 255" if "0 \<le> a" "a \<le> 255" "0 \<le> b" "b \<le> 255" for a b
    using mono_lerp_between [of n i a b up] n that by (auto simp: min_def max_def split: if_splits)
  then show ?thesis using r by (auto simp: mono_frame_def in_range_def)
qed

lemma mono_frames_tick: "mono_frames TICK_MS = 10"
  by (simp add: mono_frames_def TICK_MS_def MONO_MIN_FRAME_MS_def)

lemma mono_fade_ok:
  assumes "healthy h"
  shows "\<exists>h'. mono_fade up t TICK_MS h = (Inr (), h') \<and> healthy h' \<and> read_rgbw h' = (Inr t, h')"
proof -
  obtain c where c: "read_rgbw h = (Inr c, h)" using read_rgbw_ok [OF assms] by blast
  show ?thesis
  proof (cases "c = t")
    case True
    then show ?thesis using c assms by (auto simp: mono_fade_def TICK_MS_def bindIO_def retIO_def)
  next
    case False
    have "last [1..10 :: int] = 10" "[1..10 :: int] \<noteq> []" by (simp_all add: upto.simps)
    then have "eachIO (\<lambda>i. write_rgbw_now (mono_frame up 10 c t i)) [1..10] h = (Inr (), put4 t h)"
      using each_frames [OF assms, of "[1..10]" "mono_frame up 10 c t"] mono_frame_end [of 10] by simp
    then have "mono_fade up t TICK_MS h = (Inr (), put4 t h)"
      using c False unfolding mono_fade_def mono_frames_tick by (simp add: bindIO_def TICK_MS_def)
    then show ?thesis using healthy_put4 [OF assms] read_put4 by blast
  qed
qed

section \<open>Ticks\<close>

lemma next_step_bounds:
  assumes "0 \<le> cur" "cur < N_STATES"
  shows "0 \<le> next_step cur t" "next_step cur t < N_STATES" "\<bar>next_step cur t - cur\<bar> \<le> STEP_CLAMP"
  using assms by (auto simp: next_step_def STEP_CLAMP_def N_STATES)

lemma mono_tick_ok:
  assumes "healthy h" "0 \<le> mo_step st" "mo_step st < N_STATES"
  shows "\<exists>st' h'. mono_tick lg phase up x st h = (Inr st', h') \<and> healthy h' \<and> 0 \<le> mo_step st' \<and> mo_step st' < N_STATES
    \<and> mo_step st' = next_step (mo_step st) (load_to_step (fst (mono_sample lg x st)))
    \<and> st' = (snd (mono_sample lg x st))\<lparr>mo_step := mo_step st'\<rparr>
    \<and> read_rgbw h' = (Inr (shown_colour phase (mi_now x) (mo_step st')), h')"
proof -
  obtain load s1 where s: "mono_sample lg x st = (load, s1)" by (cases "mono_sample lg x st")
  let ?n = "next_step (mo_step st) (load_to_step load)"
  obtain h' where "mono_fade up (shown_colour phase (mi_now x) ?n) TICK_MS h = (Inr (), h')" "healthy h'"
    "read_rgbw h' = (Inr (shown_colour phase (mi_now x) ?n), h')"
    using mono_fade_ok [OF assms(1)] by blast
  then show ?thesis using s next_step_bounds [OF assms(2,3)] by (simp add: mono_tick_def bindIO_def retIO_def Let_def)
qed

lemma mono_loop_ok:
  assumes "healthy h" "0 \<le> mo_step st" "mo_step st < N_STATES"
  shows "\<exists>st' h'. mono_loop lg phase up xs st h = (Inr st', h') \<and> healthy h' \<and> 0 \<le> mo_step st' \<and> mo_step st' < N_STATES"
  using assms
proof (induction xs arbitrary: st h)
  case (Cons x xs)
  from mono_tick_ok [OF Cons.prems, of lg phase up x] obtain s1 h1 where "mono_tick lg phase up x st h = (Inr s1, h1)"
    "healthy h1" "0 \<le> mo_step s1" "mo_step s1 < N_STATES" by blast
  then show ?case using Cons.IH [of h1 s1] by (simp add: bindIO_def)
qed (simp add: retIO_def)

text \<open>C24. The daemon follows the load in small steps and never goes dark (invariant).  On a working device, whatever
  the counters, the clock and the loads, every tick after any number of ticks ends normally; the ramp step
  stays on the ramp and moves by at most two; the LED then reads exactly the colour of the step, or of the
  heartbeat at step zero; that colour is a valid one with some channel lit; and every intermediate
  frame of a fade between two valid colours is valid.\<close>

theorem daemon_follows_smoothly:
  assumes "healthy h" "0 \<le> mo_step st" "mo_step st < N_STATES" "\<forall>t. -1 \<le> phase t \<and> phase t \<le> 1"
  shows "(\<exists>s1 h1 s2 h2. mono_loop lg phase up xs st h = (Inr s1, h1) \<and> mono_tick lg phase up x s1 h1 = (Inr s2, h2)
      \<and> 0 \<le> mo_step s2 \<and> mo_step s2 < N_STATES \<and> \<bar>mo_step s2 - mo_step s1\<bar> \<le> STEP_CLAMP
      \<and> (\<exists>c. read_rgbw h2 = (Inr c, h2) \<and> c = shown_colour phase (mi_now x) (mo_step s2) \<and> in_range c \<and> c \<noteq> (0, 0, 0, 0)))
    \<and> (\<forall>c t i. in_range c \<and> in_range t \<and> 1 \<le> i \<and> i \<le> mono_frames TICK_MS \<longrightarrow> in_range (mono_frame up (mono_frames TICK_MS) c t i))"
proof
  obtain s1 h1 where 1: "mono_loop lg phase up xs st h = (Inr s1, h1)" "healthy h1" "0 \<le> mo_step s1" "mo_step s1 < N_STATES"
    using mono_loop_ok [OF assms(1-3)] by blast
  from mono_tick_ok [OF 1(2-4), of lg phase up x] obtain s2 h2 where 2: "mono_tick lg phase up x s1 h1 = (Inr s2, h2)"
    "0 \<le> mo_step s2" "mo_step s2 < N_STATES"
    "mo_step s2 = next_step (mo_step s1) (load_to_step (fst (mono_sample lg x s1)))"
    "read_rgbw h2 = (Inr (shown_colour phase (mi_now x) (mo_step s2)), h2)" by blast
  show "\<exists>s1 h1 s2 h2. mono_loop lg phase up xs st h = (Inr s1, h1) \<and> mono_tick lg phase up x s1 h1 = (Inr s2, h2)
      \<and> 0 \<le> mo_step s2 \<and> mo_step s2 < N_STATES \<and> \<bar>mo_step s2 - mo_step s1\<bar> \<le> STEP_CLAMP
      \<and> (\<exists>c. read_rgbw h2 = (Inr c, h2) \<and> c = shown_colour phase (mi_now x) (mo_step s2) \<and> in_range c \<and> c \<noteq> (0, 0, 0, 0))"
    using 1(1) 2 shown_lit [OF assms(4) 2(2,3)] next_step_bounds(3) [OF 1(3,4)] by metis
  show "\<forall>c t i. in_range c \<and> in_range t \<and> 1 \<le> i \<and> i \<le> mono_frames TICK_MS \<longrightarrow> in_range (mono_frame up (mono_frames TICK_MS) c t i)"
    using mono_frame_range [of 10] by (simp add: mono_frames_tick)
qed

definition idle_mono :: mono where
  "idle_mono = \<lparr>mo_source = QmiFrames 0, mo_step = 0, mo_last = 0, mo_missing = {}, mo_log = []\<rparr>"

definition busy_tick :: "string \<Rightarrow> nat \<Rightarrow> mono_in" where
  "busy_tick t k = \<lparr>mi_qmi = Some (''fmqm_etfc '' @ t), mi_stat = (\<lambda>_ _. None), mi_now = of_nat k / 1000000\<rparr>"

theorem daemon_follows_smoothly_witness:
  "\<exists>s1 h1 s2 h2. mono_loop (\<lambda>x. x) (\<lambda>_. 0) (\<lambda>_ _ _. True) [busy_tick ''3'' 1] idle_mono sample_fs = (Inr s1, h1)
     \<and> mono_tick (\<lambda>x. x) (\<lambda>_. 0) (\<lambda>_ _ _. True) (busy_tick ''6'' 2) s1 h1 = (Inr s2, h2) \<and> \<bar>mo_step s2 - mo_step s1\<bar> \<le> 2"
proof -
  have "0 \<le> mo_step idle_mono" "mo_step idle_mono < N_STATES" by (simp_all add: idle_mono_def N_STATES)
  then show ?thesis
    using daemon_follows_smoothly [where phase = "\<lambda>_. 0" and lg = "\<lambda>x. x" and up = "\<lambda>_ _ _. True" and xs = "[busy_tick ''3'' 1]"
        and x = "busy_tick ''6'' 2" and h = sample_fs and st = idle_mono] sample_healthy
    unfolding STEP_CLAMP_def by (simp del: mono_loop.simps) blast
qed

section \<open>A steady load\<close>

text \<open>Every tick reads the frame counter, and what it reads maps to the step \<open>k\<close>.\<close>

fun steady :: "(rat \<Rightarrow> rat) \<Rightarrow> int \<Rightarrow> mono_in list \<Rightarrow> int \<Rightarrow> rat \<Rightarrow> bool" where
  "steady lg k [] p t = True"
| "steady lg k (x # xs) p t =
     (sample_qmi_frames (mi_qmi x) \<ge> 0 \<and> load_to_step (compute_load_fps lg p (sample_qmi_frames (mi_qmi x)) (mi_now x - t)) = k
      \<and> steady lg k xs (sample_qmi_frames (mi_qmi x)) (mi_now x))"

lemma steady_sample:
  assumes "mo_source st = QmiFrames p" "steady lg k (x # xs) p (mo_last st)"
  shows "load_to_step (fst (mono_sample lg x st)) = k
    \<and> mo_source (snd (mono_sample lg x st)) = QmiFrames (sample_qmi_frames (mi_qmi x)) \<and> mo_last (snd (mono_sample lg x st)) = mi_now x"
  using assms by (simp add: mono_sample_def Let_def)

lemma next_step_moves:
  assumes "0 \<le> k" "k < N_STATES" "0 \<le> s" "s < N_STATES" "\<bar>k - s\<bar> \<le> d"
  shows "\<bar>k - next_step s k\<bar> \<le> max 0 (d - 2)"
  using assms by (auto simp: next_step_def STEP_CLAMP_def N_STATES)

lemma steady_loop:
  assumes "healthy h" "0 \<le> mo_step st" "mo_step st < N_STATES" "mo_source st = QmiFrames p" "steady lg k xs p (mo_last st)"
    "0 \<le> k" "k < N_STATES" "\<bar>k - mo_step st\<bar> \<le> d"
  shows "\<exists>st' h'. mono_loop lg phase up xs st h = (Inr st', h') \<and> \<bar>k - mo_step st'\<bar> \<le> max 0 (d - 2 * int (length xs))
    \<and> (xs \<noteq> [] \<longrightarrow> read_rgbw h' = (Inr (shown_colour phase (mi_now (last xs)) (mo_step st')), h'))"
  using assms
proof (induction xs arbitrary: st h p d)
  case Nil
  then show ?case by (simp add: retIO_def)
next
  case (Cons x xs)
  note sm = steady_sample [OF Cons.prems(4,5)]
  from mono_tick_ok [OF Cons.prems(1-3), of lg phase up x] obtain s1 h1 where 1:
    "mono_tick lg phase up x st h = (Inr s1, h1)" "healthy h1" "0 \<le> mo_step s1" "mo_step s1 < N_STATES"
    "mo_step s1 = next_step (mo_step st) k" "s1 = (snd (mono_sample lg x st))\<lparr>mo_step := mo_step s1\<rparr>"
    "read_rgbw h1 = (Inr (shown_colour phase (mi_now x) (mo_step s1)), h1)" using sm by auto
  have src: "mo_source s1 = QmiFrames (sample_qmi_frames (mi_qmi x))" "mo_last s1 = mi_now x"
    using sm by (subst 1(6), simp)+
  have d: "\<bar>k - mo_step s1\<bar> \<le> max 0 (d - 2)"
    using next_step_moves [OF Cons.prems(6,7,2,3,8)] 1(5) by simp
  have "steady lg k xs (sample_qmi_frames (mi_qmi x)) (mo_last s1)" using Cons.prems(5) src by simp
  from Cons.IH [OF 1(2-4) src(1) this Cons.prems(6,7) d] obtain s2 h2 where
    "mono_loop lg phase up xs s1 h1 = (Inr s2, h2)" "\<bar>k - mo_step s2\<bar> \<le> max 0 (max 0 (d - 2) - 2 * int (length xs))"
    "xs \<noteq> [] \<longrightarrow> read_rgbw h2 = (Inr (shown_colour phase (mi_now (last xs)) (mo_step s2)), h2)" by blast
  then show ?case using 1 by (cases xs) (auto simp: bindIO_def retIO_def)
qed

lemma saturated_step:
  assumes "\<forall>x y. 0 < x \<and> x \<le> y \<longrightarrow> lg x \<le> lg y" "lg LOG_FLOOR_FPS < lg LOG_CEIL_FPS" "0 \<le> p" "0 \<le> q" "0 < dt"
    "LOG_CEIL_FPS * dt \<le> of_int (frames_between p q)"
  shows "load_to_step (compute_load_fps lg p q dt) = N_STATES - 1"
proof -
  let ?f = "of_int (frames_between p q) / dt :: rat"
  have f: "LOG_CEIL_FPS \<le> ?f" using assms(5,6) by (simp add: le_divide_eq)
  then have "lg LOG_CEIL_FPS \<le> lg ?f" using assms(1) by (simp add: LOG_CEIL_FPS_def)
  then have "1 \<le> log_scale lg LOG_FLOOR_FPS LOG_CEIL_FPS ?f" using assms(2) by (simp add: log_scale_def le_divide_eq)
  moreover have "\<not> ?f \<le> LOG_FLOOR_FPS" using f by (simp add: LOG_CEIL_FPS_def LOG_FLOOR_FPS_def)
  ultimately have "compute_load_fps lg p q dt = 1" using assms(3-5) by (simp add: compute_load_fps_def Let_def)
  then show ?thesis by (simp add: load_to_step_def N_STATES py_round_def)
qed

lemma idle_step:
  assumes "0 < dt" "of_int (frames_between p q) \<le> LOG_FLOOR_FPS * dt"
  shows "load_to_step (compute_load_fps lg p q dt) = 0"
  using assms by (simp add: compute_load_fps_def Let_def load_to_step_def N_STATES py_round_def divide_le_eq)

text \<open>A steady load is shown within sixteen ticks (liveness).  From any step, when sixteen or more ticks in a row
  read the frame counter and map to the same ramp step, the daemon is at that step and the LED reads its
  colour.  At three million frames a second or more, the step is the top of the ramp and the LED is bright blue; at
  a thousand or fewer, it is zero and the LED breathes.\<close>

lemma steady_load_shown:
  assumes "healthy h" "0 \<le> mo_step st" "mo_step st < N_STATES" "mo_source st = QmiFrames p"
    "steady lg k xs p (mo_last st)" "0 \<le> k" "k < N_STATES" "16 \<le> length xs"
  shows "(\<exists>st' h'. mono_loop lg phase up xs st h = (Inr st', h') \<and> mo_step st' = k
      \<and> read_rgbw h' = (Inr (if k = 0 then heartbeat_rgbw phase (mi_now (last xs)) else STATES ! nat k), h'))
    \<and> (\<forall>q dt. 0 < dt \<and> of_int (frames_between p q) \<le> LOG_FLOOR_FPS * dt \<longrightarrow> load_to_step (compute_load_fps lg p q dt) = 0)
    \<and> (\<forall>q dt. (\<forall>x y. 0 < x \<and> x \<le> y \<longrightarrow> lg x \<le> lg y) \<and> lg LOG_FLOOR_FPS < lg LOG_CEIL_FPS \<and> 0 \<le> p \<and> 0 \<le> q \<and> 0 < dt
          \<and> LOG_CEIL_FPS * dt \<le> of_int (frames_between p q) \<longrightarrow>
        load_to_step (compute_load_fps lg p q dt) = 31 \<and> STATES ! 31 = (0, 0, 255, 0))"
proof (intro conjI)
  have "\<bar>k - mo_step st\<bar> \<le> 31" using assms(2,3,6,7) by (simp add: N_STATES)
  from steady_loop [OF assms(1-7) this, of phase up] obtain st' h' where
    "mono_loop lg phase up xs st h = (Inr st', h')" "\<bar>k - mo_step st'\<bar> \<le> max 0 (31 - 2 * int (length xs))"
    "xs \<noteq> [] \<longrightarrow> read_rgbw h' = (Inr (shown_colour phase (mi_now (last xs)) (mo_step st')), h')" by blast
  then show "\<exists>st' h'. mono_loop lg phase up xs st h = (Inr st', h') \<and> mo_step st' = k
      \<and> read_rgbw h' = (Inr (if k = 0 then heartbeat_rgbw phase (mi_now (last xs)) else STATES ! nat k), h')"
    using assms(8) by (cases "xs = []") (auto simp: shown_colour_def)
qed (use idle_step saturated_step N_STATES states_top in \<open>simp_all\<close>)

definition busy_ticks :: "mono_in list" where
  "busy_ticks = map2 busy_tick
     [''3'', ''6'', ''9'', ''12'', ''15'', ''18'', ''21'', ''24'', ''27'', ''30'', ''33'', ''36'', ''39'', ''42'', ''45'', ''48''] [1, 2, 3, 4, 5, 6, 7, 8, 9, 10, 11, 12, 13, 14, 15, 16]"

lemma busy_sample: "\<forall>(t, n) \<in> set (zip [''3'', ''6'', ''9'', ''12'', ''15'', ''18'', ''21'', ''24'', ''27'', ''30'', ''33'', ''36'', ''39'', ''42'', ''45'', ''48''] [3, 6, 9, 12, 15, 18, 21, 24, 27, 30, 33, 36, 39, 42, 45, 48]). sample_qmi_frames (Some (''fmqm_etfc '' @ t)) = n"
  by (simp add: sample_qmi_frames_def qmi_line_def words_def line_breaks_def text_eval)

lemma busy_steady: "steady (\<lambda>x. x) 31 busy_ticks 0 0"
  using busy_sample
  by (simp add: busy_ticks_def busy_tick_def compute_load_fps_def frames_between_def COUNTER_MOD_def log_scale_def LOG_FLOOR_FPS_def
      LOG_CEIL_FPS_def load_to_step_def N_STATES py_round_def)

lemma steady_load_shown_witness:
  "\<exists>st' h'. mono_loop (\<lambda>x. x) (\<lambda>_. 0) (\<lambda>_ _ _. True) busy_ticks idle_mono sample_fs = (Inr st', h')
     \<and> mo_step st' = 31 \<and> read_rgbw h' = (Inr (0, 0, 255, 0), h')"
proof -
  have s: "0 \<le> mo_step idle_mono" "mo_step idle_mono < N_STATES" "mo_source idle_mono = QmiFrames 0"
    "steady (\<lambda>x. x) 31 busy_ticks 0 (mo_last idle_mono)" "31 < N_STATES" "16 \<le> length busy_ticks"
    using busy_steady by (simp_all add: idle_mono_def N_STATES busy_ticks_def)
  from steady_load_shown [OF sample_healthy s(1-4) _ s(5,6), of "\<lambda>_. 0" "\<lambda>_ _ _. True"] show ?thesis
    by (simp add: states_top)
qed

section \<open>Counters\<close>

text \<open>One counter may wrap once between two readings.\<close>

lemma frames_between_exact: "0 \<le> n \<Longrightarrow> n < COUNTER_MOD \<Longrightarrow> frames_between (c mod COUNTER_MOD) ((c + n) mod COUNTER_MOD) = n"
  by (simp add: frames_between_def mod_diff_eq)

text \<open>
  But the sample is the larger of two counters.  When the larger one wraps, the sample falls to the other one, and the
  difference has nothing to do with the frames that passed: with one counter a billion behind, the tick
  that sees the wrap counts more than three billion frames.  Until then the other counter is not seen at all.
\<close>

lemma wrap_of_the_larger:
  assumes "0 \<le> d" "d < e" "e < COUNTER_MOD" "COUNTER_MOD \<le> e + n" "e + n - COUNTER_MOD \<le> d"
  shows "frames_between (max e d) (max ((e + n) mod COUNTER_MOD) d) = COUNTER_MOD - (e - d)"
proof -
  have "(e + n) mod COUNTER_MOD = e + n - COUNTER_MOD"
    using assms mod_pos_pos_trivial [of "e + n - COUNTER_MOD" COUNTER_MOD] minus_mod_self2 [of "e + n" COUNTER_MOD] by simp
  then have "max ((e + n) mod COUNTER_MOD) d = d" "max e d = e" using assms by simp_all
  moreover have "(d - e) mod COUNTER_MOD = d - e + COUNTER_MOD"
    using assms mod_pos_pos_trivial [of "d - e + COUNTER_MOD" COUNTER_MOD] by simp
  ultimately show ?thesis by (simp add: frames_between_def)
qed

lemma smaller_is_not_seen:
  assumes "0 \<le> d" "d \<le> e" "0 \<le> n" "e + n < COUNTER_MOD" "d + m \<le> e + n"
  shows "frames_between (max e d) (max (e + n) (d + m)) = n"
  using assms by (simp add: frames_between_def max_absorb1 mod_pos_pos_trivial)

section \<open>Start and end\<close>

lemma wait_ok: "healthy h \<Longrightarrow> wait_for_driver polls h = (Inr (), h)"
  by (simp add: wait_for_driver_def verify_ok retIO_def)

text \<open>On a working device every run ends with status 0 and a dark LED; without the driver it ends with status 1.\<close>

lemma daemon_ends_dark:
  assumes "healthy h"
  shows "\<exists>h'. mono_main lg phase up polls q0 q1 x0 xs h = (Inl (SystemExit 0), h') \<and> read_rgbw h' = (Inr (0, 0, 0, 0), h')"
proof -
  obtain h1 where 1: "claim_triggers h = (Inr (), h1)" "healthy h1" using claim_ok [OF assms] by blast
  obtain h2 where 2: "mono_fade up (STATES ! 0) TICK_MS (put4 IDLE_MIN_STATE h1) = (Inr (), h2)" "healthy h2"
    using mono_fade_ok [OF healthy_put4 [OF 1(2)]] by blast
  have "mo_step (mono_start q0 q1 x0) = 0" by (simp add: mono_start_def)
  then obtain s3 h3 where 3: "mono_loop lg phase up xs (mono_start q0 q1 x0) h2 = (Inr s3, h3)" "healthy h3"
    using mono_loop_ok [OF 2(2), of "mono_start q0 q1 x0" lg phase up xs] N_STATES by auto
  have "mono_main lg phase up polls q0 q1 x0 xs h = (Inl (SystemExit 0), put4 (0, 0, 0, 0) h3)"
    using 1 2 3 by (simp add: mono_main_def bindIO_def wait_ok [OF assms] write_rgbw_ok mono_cleanup_def)
  then show ?thesis using read_put4 by blast
qed

lemma no_driver:
  assumes "\<not> sy_dir h c" "\<forall>p \<in> set polls. \<exists>c. \<not> p c"
  shows "mono_main lg phase up polls q0 q1 x0 xs h = (Inl (SystemExit 1), h)"
proof -
  have ch: "c \<in> set channels" for c by (cases c) (simp_all add: channels_def)
  have "verify_driver h = (Inl (SystemExit 1), h)"
    using assms(1) by (cases c) (auto simp: verify_driver_def channels_def bindIO_def getIO_def retIO_def die_def raiseIO_def)
  moreover have "wait_for_driver polls = verify_driver" using assms(2) ch by (simp add: wait_for_driver_def) metis
  ultimately show ?thesis by (simp add: mono_main_def bindIO_def)
qed

end
