(* ===== verification/FanProps.thy ===== *)
theory FanProps
  imports FanPid
begin

text \<open>
  What the fan controller guarantees: the bounds of its state over every run, the same-tick response to a
  critical zone, the eventual full drive under a sustained overshoot, and the duty it leaves behind.
\<close>

section \<open>Rounding and the writes of a tick\<close>

lemma py_round_of_int [simp]: "py_round (of_int n) = n"
  by (simp add: py_round_def Let_def)

lemma py_round_numeral [simp]: "py_round (numeral n) = numeral n"
  using py_round_of_int [of "numeral n"] by simp

lemma py_round_bounds: "of_int (py_round x) \<le> x + 1 / 2" "x - 1 / 2 \<le> of_int (py_round x)"
proof -
  have f: "of_int \<lfloor>x\<rfloor> \<le> x" "x < of_int \<lfloor>x\<rfloor> + 1" by linarith+
  show "of_int (py_round x) \<le> x + 1 / 2" "x - 1 / 2 \<le> of_int (py_round x)"
    unfolding py_round_def Let_def using f by (simp_all split: if_split) linarith+
qed

lemma py_round_ge: "of_int n \<le> x \<Longrightarrow> n \<le> py_round x"
  using py_round_bounds(2) [of x] by linarith

lemma py_round_le: "x \<le> of_int n \<Longrightarrow> py_round x \<le> n"
  using py_round_bounds(1) [of x] by linarith

lemma i2c_write_fields [simp]:
  "fans (i2c_write_pwm r v reg c) = fans c" "zones (i2c_write_pwm r v reg c) = zones c"
  "zone_paths (i2c_write_pwm r v reg c) = zone_paths c" "raw_tach (i2c_write_pwm r v reg c) = raw_tach c"
  "smoothed_pwm (i2c_write_pwm r v reg c) = smoothed_pwm c"
  "writes (i2c_write_pwm r v reg c) = writes c @ [(reg, v mod 256)]"
  by (simp_all add: i2c_write_pwm_def)

definition driven_fan :: "int \<Rightarrow> bool \<Rightarrow> fan \<Rightarrow> fan" where
  "driven_fan shared allow f =
     (if \<not> present f then f
      else let out = fan_output shared allow f; f' = f\<lparr>kick := False\<rparr> in
        if must_write out f then f'\<lparr>last_written_pwm := out\<rparr> else f')"

definition tick_writes :: "int \<Rightarrow> bool \<Rightarrow> fan list \<Rightarrow> (nat \<times> int) list" where
  "tick_writes shared allow fs =
     map (\<lambda>f. (duty_reg f, fan_output shared allow f mod 256))
       (filter (\<lambda>f. present f \<and> must_write (fan_output shared allow f) f) fs)"

lemma drive_fold:
  "fold (drive_fan r shared allow) fs (gs, c) =
     (gs @ map (driven_fan shared allow) fs,
      fold (\<lambda>f c. i2c_write_pwm r (fan_output shared allow f) (duty_reg f) c)
        (filter (\<lambda>f. present f \<and> must_write (fan_output shared allow f) f) fs) c)"
  by (induction fs arbitrary: gs c) (simp_all add: drive_fan_def driven_fan_def Let_def)

lemma write_fold_fields [simp]:
  "fans (fold (\<lambda>f c. i2c_write_pwm r (g f) (h f) c) fs c) = fans c"
  "zones (fold (\<lambda>f c. i2c_write_pwm r (g f) (h f) c) fs c) = zones c"
  "zone_paths (fold (\<lambda>f c. i2c_write_pwm r (g f) (h f) c) fs c) = zone_paths c"
  "raw_tach (fold (\<lambda>f c. i2c_write_pwm r (g f) (h f) c) fs c) = raw_tach c"
  "smoothed_pwm (fold (\<lambda>f c. i2c_write_pwm r (g f) (h f) c) fs c) = smoothed_pwm c"
  "writes (fold (\<lambda>f c. i2c_write_pwm r (g f) (h f) c) fs c) = writes c @ map (\<lambda>f. (h f, g f mod 256)) fs"
  by (induction fs arbitrary: c) simp_all

lemma write_fold_duty:
  "\<lbrakk>\<forall>f \<in> set fs. r_ack r (h f); v \<in> h ` set fs; \<forall>f \<in> set fs. g f mod 256 = d\<rbrakk>
    \<Longrightarrow> duty (fold (\<lambda>f c. i2c_write_pwm r (g f) (h f) c) fs c) v = d"
proof (induction fs rule: rev_induct)
  case (snoc x xs)
  then have a: "r_ack r (h x)" "g x mod 256 = d" by simp_all
  show ?case
  proof (cases "v = h x")
    case True
    then show ?thesis using a by (simp add: i2c_write_pwm_def)
  next
    case False
    then have "v \<in> h ` set xs" using snoc.prems(2) by simp
    then have "duty (fold (\<lambda>f c. i2c_write_pwm r (g f) (h f) c) xs c) v = d"
      using snoc.IH snoc.prems(1,3) by simp
    then show ?thesis using False by (simp add: i2c_write_pwm_def)
  qed
qed simp

section \<open>The step, field by field\<close>

definition tick_hot :: "readings \<Rightarrow> controller \<Rightarrow> bool" where "tick_hot r c = snd (snd (read_zones r c))"
definition tick_demand :: "readings \<Rightarrow> controller \<Rightarrow> rat" where "tick_demand r c = fst (snd (read_zones r c))"
definition tick_allow :: "readings \<Rightarrow> controller \<Rightarrow> bool" where
  "tick_allow r c = (\<not> tick_hot r c \<and> tick_demand r c \<le> of_int (min_floor c))"
definition tick_smooth :: "readings \<Rightarrow> controller \<Rightarrow> rat" where
  "tick_smooth r c = smooth (tick_demand r c) (tick_hot r c) c"

abbreviation tick_out :: "readings \<Rightarrow> controller \<Rightarrow> fan \<Rightarrow> int" where
  "tick_out r c \<equiv> fan_output (py_round (tick_smooth r c)) (tick_allow r c)"

definition after_writes :: "readings \<Rightarrow> controller \<Rightarrow> controller" where
  "after_writes r c =
     fold (\<lambda>f c'. i2c_write_pwm r (tick_out r c f) (duty_reg f) c')
       (filter (\<lambda>f. present f \<and> must_write (tick_out r c f) f) (fans c)) c"

lemma control_step_eq:
  "control_step r c = (after_writes r c)\<lparr>
     zones := (if tick_hot r c then map (\<lambda>z. z\<lparr>integral := 0\<rparr>) (fst (read_zones r c)) else fst (read_zones r c)),
     smoothed_pwm := tick_smooth r c,
     fans := map (refine_floor (raw_tach c) r (tick_allow r c))
       (map (driven_fan (py_round (tick_smooth r c)) (tick_allow r c)) (fans c))\<rparr>"
proof -
  obtain zs d h where z: "read_zones r c = (zs, d, h)" by (cases "read_zones r c") auto
  have h: "tick_hot r c = h" and s: "tick_smooth r c = smooth d h c"
    and a: "tick_allow r c = (\<not> h \<and> d \<le> of_int (min_floor c))"
    by (simp_all add: tick_hot_def tick_smooth_def tick_demand_def tick_allow_def z)
  have "drive_fans r (py_round (tick_smooth r c)) (tick_allow r c) c =
      (map (driven_fan (py_round (tick_smooth r c)) (tick_allow r c)) (fans c), after_writes r c)"
    unfolding drive_fans_def drive_fold after_writes_def by simp
  then show ?thesis unfolding control_step_def Let_def z h prod.case s [symmetric] a [symmetric] by simp
qed

lemma after_writes_fields [simp]:
  "zone_paths (after_writes r c) = zone_paths c" "raw_tach (after_writes r c) = raw_tach c"
  "writes (after_writes r c) = writes c @ tick_writes (py_round (tick_smooth r c)) (tick_allow r c) (fans c)"
  by (simp_all add: after_writes_def tick_writes_def)

lemma control_step_fields:
  "fans (control_step r c) =
     map (refine_floor (raw_tach c) r (tick_allow r c) \<circ> driven_fan (py_round (tick_smooth r c)) (tick_allow r c)) (fans c)"
  "smoothed_pwm (control_step r c) = tick_smooth r c"
  "zones (control_step r c) =
     (if tick_hot r c then map (\<lambda>z. z\<lparr>integral := 0\<rparr>) (fst (read_zones r c)) else fst (read_zones r c))"
  "writes (control_step r c) = writes c @ tick_writes (py_round (tick_smooth r c)) (tick_allow r c) (fans c)"
  "zone_paths (control_step r c) = zone_paths c"
  "raw_tach (control_step r c) = raw_tach c"
  "duty (control_step r c) = duty (after_writes r c)"
  by (simp_all add: control_step_eq)

lemma driven_fan_fields [simp]:
  "present (driven_fan s a f) = present f" "duty_reg (driven_fan s a f) = duty_reg f"
  "f_name (driven_fan s a f) = f_name f" "tach_reg (driven_fan s a f) = tach_reg f"
  "tach_ok (driven_fan s a f) = tach_ok f" "fan_floor (driven_fan s a f) = fan_floor f"
  "floor_lo (driven_fan s a f) = floor_lo f"
  by (simp_all add: driven_fan_def Let_def)

lemma driven_fan_kick: "kick (driven_fan s a f) = (\<not> present f \<and> kick f)"
  by (simp add: driven_fan_def Let_def)

lemmas refine_defs = refine_floor_def sampled_def seek_move_def seek_up_def seek_down_def step_down_def stall_move_def

lemma refine_fields [simp]:
  "present (refine_floor raw r a f) = present f" "duty_reg (refine_floor raw r a f) = duty_reg f"
  "f_name (refine_floor raw r a f) = f_name f" "tach_reg (refine_floor raw r a f) = tach_reg f"
  "tach_ok (refine_floor raw r a f) = tach_ok f"
  "last_written_pwm (refine_floor raw r a f) = last_written_pwm f"
  by (simp_all add: refine_defs Let_def split: option.split)

section \<open>Bounds\<close>

definition fan_ok :: "fan \<Rightarrow> bool" where
  "fan_ok f = (if present f then FLOOR_MIN \<le> floor_lo f \<and> FLOOR_MIN \<le> fan_floor f \<and> fan_floor f \<le> FLOOR_MAX
       \<and> min FLOOR_MAX (floor_lo f) \<le> fan_floor f
     else fan_floor f = PWM_MAX \<and> \<not> kick f \<and> last_written_pwm f = -1)"

definition zone_ok :: "zone \<Rightarrow> bool" where
  "zone_ok z = (0 \<le> integral z \<and> integral z \<le> integral_clamp z)"

definition controller_ok :: "controller \<Rightarrow> bool" where
  "controller_ok c = ((\<forall>f \<in> set (fans c). fan_ok f) \<and> (\<forall>z \<in> set (zones c). zone_ok z)
     \<and> 0 \<le> smoothed_pwm c \<and> smoothed_pwm c \<le> 255)"

lemma fan_ok_driven: "fan_ok f \<Longrightarrow> fan_ok (driven_fan s a f)"
  by (auto simp: fan_ok_def driven_fan_kick) (simp add: driven_fan_def)

lemma fan_ok_same:
  "\<lbrakk>fan_ok f; present g = present f; fan_floor g = fan_floor f; floor_lo g = floor_lo f; kick g = kick f;
    last_written_pwm g = last_written_pwm f\<rbrakk> \<Longrightarrow> fan_ok g"
  by (simp add: fan_ok_def)

lemma stall_ok: "\<lbrakk>fan_ok f; present f\<rbrakk> \<Longrightarrow> fan_ok (stall_move f)"
  by (simp add: fan_ok_def stall_move_def Let_def FLOOR_MIN_def FLOOR_MAX_def SEEK_STALL_MARGIN_def SEEK_STALL_BUMP_def) linarith

lemma seek_up_ok: "\<lbrakk>fan_ok f; present f\<rbrakk> \<Longrightarrow> fan_ok (seek_up e f)"
  by (simp add: fan_ok_def seek_up_def Let_def FLOOR_MIN_def FLOOR_MAX_def) linarith

lemma step_down_ok: "\<lbrakk>fan_ok f; present f; \<not> fan_floor f \<le> max FLOOR_MIN (floor_lo f)\<rbrakk>
    \<Longrightarrow> fan_ok (step_down (max FLOOR_MIN (floor_lo f)) cap e f)"
  by (simp add: fan_ok_def step_down_def Let_def FLOOR_MIN_def FLOOR_MAX_def) linarith

lemma seek_down_ok:
  assumes "fan_ok f" "present f"
  shows "fan_ok (seek_down prev n f)"
proof -
  have k: "fan_ok (f\<lparr>seek_flat := m\<rparr>)" for m using assms(1) by (rule fan_ok_same) simp_all
  have d: "fan_ok (step_down (max FLOOR_MIN (floor_lo f)) cap e (f\<lparr>seek_flat := m\<rparr>))"
    "fan_ok (step_down (max FLOOR_MIN (floor_lo f)) cap e f)"
    if "\<not> fan_floor f \<le> max FLOOR_MIN (floor_lo f)" for cap e m
    using step_down_ok [OF k, of m cap e] step_down_ok [of f cap e] assms that by simp_all
  show ?thesis using assms(1) k d unfolding seek_down_def Let_def by simp
qed

lemma seek_move_ok:
  assumes "fan_ok f" "present f"
  shows "fan_ok (seek_move prev n f)"
proof -
  have "fan_ok (f\<lparr>seek_flat := 0\<rparr>)" using assms(1) by (rule fan_ok_same) simp_all
  then show ?thesis using assms by (simp add: seek_move_def Let_def stall_ok seek_up_ok seek_down_ok)
qed

lemma sampled_ok:
  assumes "fan_ok f" "present f"
  shows "fan_ok (sampled a n f)"
proof -
  have g: "fan_ok (f\<lparr>rpm := Some n\<rparr>)" using assms(1) by (rule fan_ok_same) simp_all
  have h: "fan_ok (f\<lparr>rpm := Some n, seek_flat := 0, seek_settle := 0\<rparr>)"
    "fan_ok (f\<lparr>rpm := Some n, seek_settle := i\<rparr>)" "fan_ok (f\<lparr>rpm := Some n, seek_blackout := i\<rparr>)" for i
    by (rule fan_ok_same [OF g]; simp)+
  show ?thesis using assms(2) g h by (simp add: sampled_def Let_def seek_move_ok)
qed

lemma fan_ok_refine:
  assumes "fan_ok f"
  shows "fan_ok (refine_floor raw r a f)"
proof -
  have "fan_ok (f\<lparr>cooldown := cooldown f - 1\<rparr>)" using assms by (rule fan_ok_same) simp_all
  then show ?thesis using assms by (simp add: refine_floor_def Let_def sampled_ok split: option.split)
qed


lemma integral_clamp_nonneg: "0 \<le> integral_clamp z"
  by (simp add: integral_clamp_def PWM_MAX_def PWM_FLOOR_def)

lemma integral_clamp_cong: "ki y = ki z \<Longrightarrow> integral_clamp y = integral_clamp z"
  by (simp add: integral_clamp_def)

lemma integral_clamp_update [simp]:
  "integral_clamp (z\<lparr>integral := i\<rparr>) = integral_clamp z" "integral_clamp (z\<lparr>last_temp := t\<rparr>) = integral_clamp z"
  by (simp_all add: integral_clamp_def)

lemma zone_tick_ok: "zone_ok (fst (zone_tick b r z))"
  using integral_clamp_nonneg [of z] by (auto simp: zone_ok_def zone_tick_def Let_def not_less)

lemma zone_demand_bounds: "0 \<le> snd (zone_tick b r z)" "snd (zone_tick b r z) \<le> 255"
  by (simp_all add: zone_tick_def Let_def PWM_MAX_def)

lemma fold_max_bounds:
  "\<lbrakk>\<forall>x \<in> set xs. x \<le> b; a \<le> b\<rbrakk> \<Longrightarrow> fold max xs a \<le> b"
  "(a :: rat) \<le> fold max xs a"
  "x \<in> set xs \<Longrightarrow> x \<le> fold max xs a"
proof -
  have e: "fold max xs a = Max (set (a # xs))" by (simp add: Max.set_eq_fold [symmetric])
  show "\<lbrakk>\<forall>x \<in> set xs. x \<le> b; a \<le> b\<rbrakk> \<Longrightarrow> fold max xs a \<le> b" by (auto simp: e)
  show "a \<le> fold max xs a" by (simp add: e)
  show "x \<in> set xs \<Longrightarrow> x \<le> fold max xs a" by (simp add: e)
qed

lemma tick_demand_bounds: "0 \<le> tick_demand r c" "tick_demand r c \<le> 255"
  unfolding tick_demand_def read_zones_def Let_def snd_conv fst_conv PWM_FLOOR_def
  by (rule order_trans [OF _ fold_max_bounds(2)], simp) (rule fold_max_bounds(1), auto simp: zone_demand_bounds)

lemma min_floor_bounds:
  assumes "\<forall>f \<in> set (fans c). fan_ok f"
  shows "20 \<le> min_floor c" "min_floor c \<le> 160"
proof -
  have "20 \<le> min_floor c \<and> min_floor c \<le> 160"
  proof (cases "filter present (fans c)")
    case (Cons f fs)
    have "\<forall>g \<in> set (f # fs). present g \<and> fan_ok g" unfolding Cons [symmetric] using assms by simp
    then have "\<forall>g \<in> set (f # fs). 20 \<le> fan_floor g \<and> fan_floor g \<le> 160"
      by (auto simp: fan_ok_def FLOOR_MIN_def FLOOR_MAX_def)
    then show ?thesis by (simp add: min_floor_def Cons Min_le_iff)
  qed (simp add: min_floor_def FLOOR_MIN_def)
  then show "20 \<le> min_floor c" "min_floor c \<le> 160" by simp_all
qed

lemma tick_smooth_bounds:
  assumes "controller_ok c"
  shows "0 \<le> tick_smooth r c" "tick_smooth r c \<le> 255"
proof -
  have m: "20 \<le> min_floor c" "min_floor c \<le> 160" using min_floor_bounds assms by (auto simp: controller_ok_def)
  have s: "0 \<le> smoothed_pwm c" "smoothed_pwm c \<le> 255" using assms by (simp_all add: controller_ok_def)
  show "0 \<le> tick_smooth r c" "tick_smooth r c \<le> 255"
    using m s tick_demand_bounds [of r c] by (simp_all add: tick_smooth_def smooth_def Let_def EMA_ALPHA_def PWM_MAX_def)
qed

lemma control_step_ok:
  assumes "controller_ok c"
  shows "controller_ok (control_step r c)"
proof -
  have z: "\<forall>z \<in> set (fst (read_zones r c)). zone_ok z"
    using assms by (auto simp: read_zones_def Let_def zone_tick_ok controller_ok_def)
  have "zone_ok (z\<lparr>integral := 0\<rparr>)" for z
    using integral_clamp_nonneg [of z] by (simp add: zone_ok_def)
  then have "\<forall>z \<in> set (zones (control_step r c)). zone_ok z" using z by (simp add: control_step_fields)
  moreover have "\<forall>f \<in> set (fans (control_step r c)). fan_ok f"
    using assms by (simp add: control_step_fields controller_ok_def fan_ok_refine fan_ok_driven)
  ultimately show ?thesis
    using tick_smooth_bounds [OF assms] by (simp add: controller_ok_def control_step_fields)
qed

lemma new_controller_ok: "controller_ok (new_controller raw paths found c)"
proof -
  have f: "\<forall>f \<in> set (fans (new_controller raw paths found c)). fan_ok f"
    by (simp add: new_controller_def Let_def init_fan_def fan_ok_def fan_consts PWM_MAX_def split_beta)
  have z: "\<forall>z \<in> set (zones (new_controller raw paths found c)). zone_ok z"
    by (simp add: new_controller_def Let_def ZONES_def zone_of_def zone_ok_def integral_clamp_def PWM_MAX_def PWM_FLOOR_def)
  have "smoothed_pwm (new_controller raw paths found c) = of_int (min_floor (new_controller raw paths found c))"
    by (simp add: new_controller_def Let_def min_floor_def)
  then show ?thesis using f z min_floor_bounds [OF f] by (simp add: controller_ok_def)
qed

lemma control_loop_ok: "controller_ok c \<Longrightarrow> controller_ok (control_loop rs c)"
  by (induction rs arbitrary: c) (simp_all add: control_loop_def control_step_ok)

text \<open>What a fan has learned from stalls is never forgotten: its lower bound only rises.\<close>

lemma refine_lo_mono: "floor_lo f \<le> floor_lo (refine_floor raw r a f)"
  by (simp add: refine_defs Let_def split: option.split)

section \<open>A critical zone\<close>

definition temp_now :: "readings \<Rightarrow> zone \<Rightarrow> rat" where
  "temp_now r z = (case r_temp r (z_name z) of None \<Rightarrow> last_temp z | Some t \<Rightarrow> t)"

lemma zone_tick_fields:
  "last_temp (fst (zone_tick b r z)) = temp_now r z" "z_name (fst (zone_tick b r z)) = z_name z"
  "crit_temp (fst (zone_tick b r z)) = crit_temp z" "setpoint (fst (zone_tick b r z)) = setpoint z"
  "kp (fst (zone_tick b r z)) = kp z" "ki (fst (zone_tick b r z)) = ki z"
  by (simp_all add: zone_tick_def Let_def temp_now_def)

lemma tick_hot_iff:
  "tick_hot r c \<longleftrightarrow> (\<exists>z \<in> set (zones c). driven c z \<and> (HARD_FAULT_TEMP \<le> temp_now r z \<or> crit_temp z \<le> temp_now r z))"
proof -
  define g where "g z = (if driven c z then fst (zone_tick (of_int (min_floor c)) r z) else z)" for z
  have "tick_hot r c \<longleftrightarrow> (\<exists>z \<in> set (zones c). driven c (g z) \<and> (HARD_FAULT_TEMP \<le> last_temp (g z) \<or> crit_temp (g z) \<le> last_temp (g z)))"
    unfolding tick_hot_def read_zones_def Let_def too_hot_def snd_conv g_def [abs_def] set_map bex_simps ..
  also have "\<dots> \<longleftrightarrow> (\<exists>z \<in> set (zones c). driven c z \<and> (HARD_FAULT_TEMP \<le> temp_now r z \<or> crit_temp z \<le> temp_now r z))"
    by (rule bex_cong [OF refl]) (simp add: g_def driven_def zone_tick_fields)
  finally show ?thesis .
qed

lemma full_output: "255 \<le> shared \<Longrightarrow> fan_output shared False f = 255"
  by (simp add: fan_output_def PWM_MAX_def)

lemma full_tick:
  assumes "255 \<le> py_round (tick_smooth r c)" "\<not> tick_allow r c"
  shows "writes (control_step r c) = writes c @ map (\<lambda>f. (duty_reg f, 255)) (filter present (fans c))"
    and "\<lbrakk>\<forall>q. r_ack r q; f \<in> set (fans c); present f\<rbrakk> \<Longrightarrow> duty (control_step r c) (duty_reg f) = 255"
proof -
  have o: "tick_out r c f = 255" for f using full_output assms by simp
  have m: "must_write 255 f" for f by (simp add: must_write_def PWM_MAX_def)
  show "writes (control_step r c) = writes c @ map (\<lambda>f. (duty_reg f, 255)) (filter present (fans c))"
    by (simp add: control_step_fields tick_writes_def o m)
  show "\<lbrakk>\<forall>q. r_ack r q; f \<in> set (fans c); present f\<rbrakk> \<Longrightarrow> duty (control_step r c) (duty_reg f) = 255"
    unfolding control_step_fields after_writes_def o by (rule write_fold_duty) (auto simp: m)
qed

lemma hot_tick:
  assumes "tick_hot r c"
  shows "255 \<le> py_round (tick_smooth r c)" "\<not> tick_allow r c" "smoothed_pwm (control_step r c) = 255"
    "\<forall>z \<in> set (zones (control_step r c)). integral z = 0"
  using assms by (simp_all add: tick_smooth_def smooth_def PWM_MAX_def tick_allow_def control_step_fields)


text \<open>C19. Same-tick response to heat (safety).  When a zone the daemon reads is at its critical limit, or any
  such zone is at the fault limit, then in that very tick every present fan is written the full duty (and
  nothing else is written), whatever the fan's learned floor, its pending state and the smoothed demand
  were; every zone's integral is reset, and the duty registers hold the full duty where the chip
  acknowledges.\<close>

theorem critical_zone_full_drive:
  assumes "z \<in> set (zones c)" "driven c z"
    and "crit_temp z \<le> temp_now r z \<or> HARD_FAULT_TEMP \<le> temp_now r z"
  shows "writes (control_step r c) = writes c @ map (\<lambda>f. (duty_reg f, 255)) (filter present (fans c))
    \<and> smoothed_pwm (control_step r c) = 255 \<and> (\<forall>y \<in> set (zones (control_step r c)). integral y = 0)
    \<and> ((\<forall>q. r_ack r q) \<longrightarrow> (\<forall>f \<in> set (fans c). present f \<longrightarrow> duty (control_step r c) (duty_reg f) = 255))"
proof -
  have h: "tick_hot r c" using assms by (auto simp: tick_hot_iff)
  note t = hot_tick [OF h]
  show ?thesis using full_tick [OF t(1,2)] t(3,4) by simp
qed

lemma fans_loop:
  "map (\<lambda>f. (present f, duty_reg f)) (fans (control_loop rs c)) = map (\<lambda>f. (present f, duty_reg f)) (fans c)"
  by (induction rs arbitrary: c) (simp_all add: control_loop_def control_step_fields)

definition blank :: controller where
  "blank = \<lparr>fans = [], zones = [], zone_paths = [], smoothed_pwm = 0, raw_tach = False, duty = (\<lambda>_. 0), writes = []\<rparr>"

definition two_fans :: controller where
  "two_fans = new_controller True [''ddr-thermal''] [(''fan1'', 0x30, 0x3E, True), (''fan2'', 0x40, 0x4E, False)] blank"

definition steady :: "rat \<Rightarrow> readings" where
  "steady t = \<lparr>r_temp = (\<lambda>_. Some t), r_word = (\<lambda>_. None), r_sysfs = (\<lambda>_. None), r_ack = (\<lambda>_. True)\<rparr>"

lemma two_fans_zone:
  "zone_of ''ddr-thermal'' 65 80 4 (1 / 5) \<in> set (zones two_fans)" "driven two_fans (zone_of ''ddr-thermal'' 65 80 4 (1 / 5))"
  by (simp_all add: two_fans_def new_controller_def Let_def ZONES_def driven_def zone_of_def)

lemma two_fans_fans:
  "writes two_fans = []" "map (\<lambda>f. (duty_reg f, 255 :: int)) (filter present (fans two_fans)) = [(0x30, 255)]"
  by (simp_all add: two_fans_def new_controller_def Let_def init_fan_def blank_def)

theorem critical_zone_full_drive_witness: "writes (control_step (steady 81) two_fans) = [(0x30, 255)]"
proof -
  have "crit_temp (zone_of ''ddr-thermal'' 65 80 4 (1 / 5)) \<le> temp_now (steady 81) (zone_of ''ddr-thermal'' 65 80 4 (1 / 5))"
    by (simp add: zone_of_def temp_now_def steady_def)
  then show ?thesis
    using critical_zone_full_drive [OF two_fans_zone, of "steady 81"] two_fans_fans by simp
qed

text \<open>C21. Bounds over every run (invariant).  Whatever the sensors, tachometers and the bus do, after any number
  of ticks every present fan has a floor between 20 and 160 that is not below what its stalls have taught
  (up to 160), an absent fan is never kicked and never written, every integral lies between zero and the
  value that saturates the actuator, and the smoothed demand is a duty.\<close>

theorem control_loop_bounds:
  "let c = control_loop rs (new_controller raw paths found c0) in
     (\<forall>f \<in> set (fans c).
        if present f then 20 \<le> fan_floor f \<and> fan_floor f \<le> 160 \<and> min 160 (floor_lo f) \<le> fan_floor f
        else fan_floor f = 255 \<and> \<not> kick f \<and> last_written_pwm f = -1)
     \<and> (\<forall>z \<in> set (zones c). 0 \<le> integral z \<and> integral z \<le> integral_clamp z)
     \<and> 0 \<le> smoothed_pwm c \<and> smoothed_pwm c \<le> 255"
proof -
  have "controller_ok (control_loop rs (new_controller raw paths found c0))"
    by (rule control_loop_ok [OF new_controller_ok])
  then show ?thesis
    by (auto simp: Let_def controller_ok_def fan_ok_def zone_ok_def FLOOR_MIN_def FLOOR_MAX_def PWM_MAX_def)
qed

theorem control_loop_bounds_witness:
  "20 \<le> fan_floor (hd (fans (control_loop [steady 70, steady 60] two_fans)))
   \<and> fan_floor (hd (fans (control_loop [steady 70, steady 60] two_fans))) \<le> 160
   \<and> smoothed_pwm (control_loop [steady 70, steady 60] two_fans) \<le> 255"
proof -
  let ?c = "control_loop [steady 70, steady 60] two_fans"
  have "map (\<lambda>f. (present f, duty_reg f)) (fans ?c) = [(True, 0x30), (False, 0x40)]"
    unfolding fans_loop by (simp add: two_fans_def new_controller_def Let_def init_fan_def)
  then have h: "hd (fans ?c) \<in> set (fans ?c)" "present (hd (fans ?c))" by (auto simp: map_eq_Cons_conv)
  note b = control_loop_bounds [of "[steady 70, steady 60]" True "[''ddr-thermal'']"
      "[(''fan1'', 0x30, 0x3E, True), (''fan2'', 0x40, 0x4E, False)]" blank, folded two_fans_def, unfolded Let_def]
  show ?thesis using bspec [OF conjunct1 [OF b] h(1)] h(2) b by simp
qed

section \<open>Sustained overshoot\<close>

definition tuning :: "zone \<Rightarrow> string \<times> rat \<times> rat \<times> rat \<times> rat" where
  "tuning z = (z_name z, setpoint z, crit_temp z, kp z, ki z)"

lemma tuning_step: "map tuning (zones (control_step r c)) = map tuning (zones c)"
  by (simp add: control_step_fields read_zones_def Let_def tuning_def zone_tick_def)

definition quiet :: "readings \<Rightarrow> controller \<Rightarrow> bool" where
  "quiet r c = (\<forall>z \<in> set (zones c). driven c z \<longrightarrow>
     (case r_temp r (z_name z) of None \<Rightarrow> False | Some t \<Rightarrow> t < crit_temp z \<and> t < HARD_FAULT_TEMP))"

lemma quiet_not_hot: "quiet r c \<Longrightarrow> \<not> tick_hot r c"
  by (force simp: quiet_def tick_hot_iff temp_now_def split: option.splits)

lemma quiet_tuning:
  "quiet r c \<longleftrightarrow> (\<forall>(n, s, cr, p, k) \<in> set (map tuning (zones c)). n \<in> set (zone_paths c) \<longrightarrow>
     (case r_temp r n of None \<Rightarrow> False | Some t \<Rightarrow> t < cr \<and> t < HARD_FAULT_TEMP))"
  by (simp add: quiet_def tuning_def driven_def)

lemma quiet_step: "quiet r (control_step q c) \<longleftrightarrow> quiet r c"
  unfolding quiet_tuning tuning_step control_step_fields(5) ..

definition wound :: "zone \<Rightarrow> rat \<Rightarrow> nat \<Rightarrow> controller \<Rightarrow> bool" where
  "wound z0 d n c = (\<exists>z \<in> set (zones c). tuning z = tuning z0 \<and> driven c z
     \<and> min (255 / ki z0) (of_nat n * d) \<le> integral z)"

lemma zone_tick_winds:
  assumes "0 < ki z" "0 \<le> d" "r_temp r (z_name z) = Some t" "setpoint z + d \<le> t"
    and "min (255 / ki z) (of_nat n * d) \<le> integral z"
  shows "min (255 / ki z) (of_nat (Suc n) * d) \<le> integral (fst (zone_tick b r z))"
proof -
  have c: "integral_clamp z = 255 / ki z" using assms(1) by (simp add: integral_clamp_def PWM_MAX_def PWM_FLOOR_def)
  have "integral (fst (zone_tick b r z)) = min (255 / ki z) (max 0 (integral z + (t - setpoint z)))"
    by (simp add: zone_tick_def Let_def assms(3) c min_def)
  then show ?thesis using assms(2,4,5) by (simp add: algebra_simps)
qed

lemma zone_tick_saturates:
  assumes "0 < ki z" "0 \<le> kp z" "0 \<le> d" "r_temp r (z_name z) = Some t" "setpoint z + d \<le> t" "0 \<le> b"
    and "255 / ki z \<le> integral (fst (zone_tick b r z))"
  shows "snd (zone_tick b r z) = 255"
proof -
  let ?i = "integral (fst (zone_tick b r z))"
  have p: "snd (zone_tick b r z) = max 0 (min 255 (b + kp z * (t - setpoint z) + ki z * ?i))"
    by (simp add: zone_tick_def Let_def assms(4) PWM_MAX_def)
  have "255 \<le> ki z * ?i" using assms(1,7) by (simp add: pos_divide_le_eq mult.commute)
  moreover have "0 \<le> kp z * (t - setpoint z)" using assms(2,3,5) by simp
  ultimately show ?thesis using assms(6) p by simp
qed


lemma wound_tick:
  assumes w: "wound z0 d n c" and q: "quiet r c" and o: "0 < ki z0" "0 \<le> kp z0" "0 \<le> d"
    and t: "r_temp r (z_name z0) = Some t" "setpoint z0 + d \<le> t" and ok: "controller_ok c"
  shows "wound z0 d (Suc n) (control_step r c)"
    and "255 / ki z0 \<le> of_nat (Suc n) * d \<Longrightarrow> tick_demand r c = 255"
proof -
  obtain z where z: "z \<in> set (zones c)" "tuning z = tuning z0" "driven c z" "min (255 / ki z0) (of_nat n * d) \<le> integral z"
    using w by (auto simp: wound_def)
  have e: "z_name z = z_name z0" "setpoint z = setpoint z0" "kp z = kp z0" "ki z = ki z0"
    using z(2) by (simp_all add: tuning_def)
  let ?b = "of_int (min_floor c) :: rat"
  let ?z = "fst (zone_tick ?b r z)"
  have h: "\<not> tick_hot r c" using quiet_not_hot [OF q] .
  have i: "min (255 / ki z0) (of_nat (Suc n) * d) \<le> integral ?z"
    using zone_tick_winds [of z d r t n ?b] o t z(4) by (simp add: e)
  have m: "?z \<in> set (zones (control_step r c))"
    using z(1,3) by (force simp: control_step_fields h read_zones_def Let_def)
  have "tuning ?z = tuning z0" "driven (control_step r c) ?z"
    using z(2,3) by (simp_all add: tuning_def zone_tick_fields driven_def control_step_fields)
  then show "wound z0 d (Suc n) (control_step r c)" using m i unfolding wound_def by blast
  have b: "0 \<le> ?b" using min_floor_bounds(1) ok by (auto simp: controller_ok_def intro: order_trans [of 0 20])
  assume "255 / ki z0 \<le> of_nat (Suc n) * d"
  then have "255 / ki z \<le> integral ?z" using i by (simp add: e)
  then have "snd (zone_tick ?b r z) = 255" using zone_tick_saturates [of z d r t ?b] o t b by (simp add: e)
  moreover have "snd (zone_tick ?b r z) \<in> set (map (\<lambda>z. snd (zone_tick ?b r z)) (filter (driven c) (zones c)))"
    using z(1,3) by (simp add: image_iff) blast
  ultimately have "255 \<le> tick_demand r c"
    unfolding tick_demand_def read_zones_def Let_def using fold_max_bounds(3) by (metis fst_conv snd_conv)
  then show "tick_demand r c = 255" using tick_demand_bounds(2) [of r c] by simp
qed

definition gap :: "controller \<Rightarrow> rat" where "gap c = 255 - smoothed_pwm c"

lemma gap_tick:
  assumes "tick_demand r c = 255" "quiet r c" "controller_ok c"
  shows "gap (control_step r c) \<le> 3 / 4 * gap c"
  using quiet_not_hot [OF assms(2)] assms(1,3)
  by (simp add: gap_def control_step_fields tick_smooth_def smooth_def Let_def EMA_ALPHA_def controller_ok_def)

text \<open>The assumptions of one tick of a run, preserved along it.\<close>

definition overheated :: "zone \<Rightarrow> rat \<Rightarrow> controller \<Rightarrow> readings \<Rightarrow> bool" where
  "overheated z0 d c r = (quiet r c \<and> (\<exists>t. r_temp r (z_name z0) = Some t \<and> setpoint z0 + d \<le> t))"

lemma wound_loop:
  assumes "wound z0 d n c" "controller_ok c" "0 < ki z0" "0 \<le> kp z0" "0 \<le> d" "\<forall>r \<in> set rs. overheated z0 d c r"
  shows "wound z0 d (n + length rs) (control_loop rs c)"
  using assms
proof (induction rs arbitrary: n c)
  case (Cons r rs)
  then have "wound z0 d (Suc n) (control_step r c)" using wound_tick(1) by (auto simp: overheated_def)
  moreover have "\<forall>q \<in> set rs. overheated z0 d (control_step r c) q"
    using Cons.prems by (simp add: overheated_def quiet_step)
  ultimately show ?case using Cons.IH [of "Suc n" "control_step r c"] Cons.prems control_step_ok
    by (simp add: control_loop_def)
qed (simp add: control_loop_def)

lemma gap_loop:
  assumes "wound z0 d n c" "255 / ki z0 \<le> of_nat n * d" "controller_ok c" "0 < ki z0" "0 \<le> kp z0" "0 \<le> d"
    "\<forall>r \<in> set rs. overheated z0 d c r"
  shows "gap (control_loop rs c) \<le> (3 / 4) ^ length rs * gap c"
  using assms
proof (induction rs arbitrary: n c)
  case (Cons r rs)
  have le: "of_nat n * d \<le> of_nat (Suc n) * d" using Cons.prems by (simp add: mult_right_mono)
  have q: "quiet r c" using Cons.prems by (simp add: overheated_def)
  obtain t where t: "r_temp r (z_name z0) = Some t" "setpoint z0 + d \<le> t" using Cons.prems by (auto simp: overheated_def)
  have w: "wound z0 d (Suc n) (control_step r c)" "tick_demand r c = 255"
    using wound_tick [of z0 d n c r t] Cons.prems q t le by linarith+
  have g: "gap (control_step r c) \<le> 3 / 4 * gap c" using gap_tick w(2) q Cons.prems by simp
  have "gap (control_loop rs (control_step r c)) \<le> (3 / 4) ^ length rs * gap (control_step r c)"
    using Cons.IH [of "Suc n" "control_step r c"] Cons.prems w(1) le control_step_ok
    by (simp add: overheated_def quiet_step)
  also have "\<dots> \<le> (3 / 4) ^ length rs * (3 / 4 * gap c)" using g by (simp add: mult_left_mono)
  finally show ?case by (simp add: control_loop_def)
qed (simp add: control_loop_def)


lemma control_loop_append: "control_loop (xs @ ys) c = control_loop ys (control_loop xs c)"
  by (simp add: control_loop_def)

lemma overheated_step: "overheated z0 d (control_step r c) q \<longleftrightarrow> overheated z0 d c q"
  by (simp add: overheated_def quiet_step)

lemma overheated_loop: "overheated z0 d (control_loop rs c) q \<longleftrightarrow> overheated z0 d c q"
  by (induction rs arbitrary: c) (simp_all add: control_loop_def overheated_step)

lemma small_gap: "\<lbrakk>22 \<le> n; 0 \<le> g; g \<le> 255\<rbrakk> \<Longrightarrow> (3 / 4) ^ n * g < (1 / 2 :: rat)"
proof -
  assume n: "22 \<le> n" and g: "0 \<le> g" "g \<le> (255 :: rat)"
  have "(3 / 4 :: rat) ^ n \<le> (3 / 4) ^ 22" by (rule power_decreasing) (use n in simp_all)
  then have "(3 / 4) ^ n * g \<le> (3 / 4 :: rat) ^ 22 * 255" by (rule mult_mono) (use g in simp_all)
  also have "\<dots> < 1 / 2" by (simp add: field_simps)
  finally show ?thesis .
qed

lemma last_tick_full:
  assumes "wound z0 d n c" "255 / ki z0 \<le> of_nat (Suc n) * d" "controller_ok c" "0 < ki z0" "0 \<le> kp z0" "0 \<le> d"
    "overheated z0 d c r" "gap (control_step r c) < 1 / 2"
  shows "255 \<le> py_round (tick_smooth r c)" "\<not> tick_allow r c"
proof -
  obtain t where t: "r_temp r (z_name z0) = Some t" "setpoint z0 + d \<le> t" using assms by (auto simp: overheated_def)
  have "tick_demand r c = 255" using wound_tick(2) [of z0 d n c r t] assms t by (simp add: overheated_def)
  moreover have "min_floor c \<le> 160" using min_floor_bounds(2) assms(3) by (simp add: controller_ok_def)
  ultimately show "\<not> tick_allow r c" by (simp add: tick_allow_def)
  have "254 < of_int (py_round (tick_smooth r c)) + (0 :: rat)"
    using py_round_bounds(2) [of "tick_smooth r c"] assms(8) by (simp add: gap_def control_step_fields)
  then show "255 \<le> py_round (tick_smooth r c)" by simp
qed


text \<open>C20. Sustained overshoot reaches full drive (liveness).  When one zone with a working integral term stays
  at least \<open>d\<close> degrees above its set point, and no zone is critical (so that no override helps), then
  after \<open>N + 22\<close> ticks, where \<open>N\<close> ticks of \<open>d\<close> wind the integral up to saturation and 22 ticks
  bring the smoothed demand within half a step of the maximum, every present fan's duty register holds 255,
  and it stays so for as long as the zone stays hot.\<close>

theorem overshoot_reaches_full_drive:
  assumes z: "z0 \<in> set (zones c)" "driven c z0" "0 < ki z0" "0 \<le> kp z0"
    and c: "controller_ok c" and hot: "\<forall>r \<in> set rs. overheated z0 d c r"
    and d: "0 \<le> d" "255 / ki z0 \<le> of_nat N * d" and n: "N + 22 \<le> length rs"
    and ack: "\<forall>q. r_ack (last rs) q" and f: "f \<in> set (fans c)" "present f"
  shows "duty (control_loop rs c) (duty_reg f) = 255"
proof -
  define as where "as = take N rs"
  define bs where "bs = drop N (butlast rs)"
  have "rs \<noteq> []" using n by auto
  then have rs: "rs = as @ bs @ [last rs]"
    using n unfolding as_def bs_def by (cases rs rule: rev_cases) simp_all
  have la: "length as = N" and lb: "21 \<le> length bs" using n by (simp_all add: as_def bs_def)
  let ?c = "control_loop as c" and ?b = "control_loop bs (control_loop as c)"
  have ok: "controller_ok ?c" "controller_ok ?b" by (simp_all add: control_loop_ok c)
  have hb: "\<forall>r \<in> set (bs @ [last rs]). overheated z0 d ?c r" "\<forall>r \<in> set bs. overheated z0 d ?c r"
    "overheated z0 d ?b (last rs)"
    using hot by (subst (asm) rs, simp add: overheated_loop)+
  have ha: "\<forall>r \<in> set as. overheated z0 d c r" using hot by (subst (asm) rs, simp)
  have "zone_ok z0" using c z(1) by (simp add: controller_ok_def)
  then have "wound z0 d 0 c" using z(1-3) by (auto simp: wound_def zone_ok_def intro: min.coboundedI2)
  from wound_loop [OF this c z(3,4) d(1) ha] have wa: "wound z0 d N ?c" by (simp add: la)
  have wb: "wound z0 d (N + length bs) ?b" by (rule wound_loop [OF wa ok(1) z(3,4) d(1) hb(2)])
  have "gap (control_loop (bs @ [last rs]) ?c) \<le> (3 / 4) ^ length (bs @ [last rs]) * gap ?c"
    by (rule gap_loop [OF wa d(2) ok(1) z(3,4) d(1) hb(1)])
  also have "\<dots> < 1 / 2" using ok(1) lb by (intro small_gap) (simp_all add: gap_def controller_ok_def)
  finally have g: "gap (control_step (last rs) ?b) < 1 / 2" by (simp add: control_loop_append) (simp add: control_loop_def)
  have "of_nat N * d \<le> of_nat (Suc (N + length bs)) * d" using d(1) by (intro mult_right_mono) simp_all
  then have k: "255 / ki z0 \<le> of_nat (Suc (N + length bs)) * d" using d(2) by linarith
  note t = last_tick_full [OF wb k ok(2) z(3,4) d(1) hb(3) g]
  have "(present f, duty_reg f) \<in> set (map (\<lambda>f. (present f, duty_reg f)) (fans ?b))" unfolding fans_loop using f(1) by simp
  then obtain h where h: "h \<in> set (fans ?b)" "present h" "duty_reg h = duty_reg f" using f(2) by auto
  have "control_loop rs c = control_step (last rs) ?b"
    by (subst rs) (simp add: control_loop_append, simp add: control_loop_def)
  then show ?thesis using full_tick(2) [OF t ack h(1,2)] h(3) by simp
qed

theorem overshoot_reaches_full_drive_witness:
  "duty (control_loop (replicate 277 (steady 70)) two_fans) 0x30 = 255"
proof -
  define f where "f = hd (fans two_fans)"
  have f: "f \<in> set (fans two_fans)" "present f" "duty_reg f = 0x30"
    by (simp_all add: f_def two_fans_def new_controller_def Let_def init_fan_def)
  let ?z = "zone_of ''ddr-thermal'' 65 80 4 (1 / 5)"
  have ok: "controller_ok two_fans" unfolding two_fans_def by (rule new_controller_ok)
  have q: "overheated ?z 5 two_fans (steady 70)"
    by (simp add: overheated_def quiet_def two_fans_def new_controller_def Let_def driven_def ZONES_def zone_of_def steady_def
        HARD_FAULT_TEMP_def)
  have "duty (control_loop (replicate 277 (steady 70)) two_fans) (duty_reg f) = 255"
    by (rule overshoot_reaches_full_drive [where ?z0.0 = ?z and d = 5 and N = 255 and f = f, OF two_fans_zone _ _ ok _ _ _ _ _ f(1,2)])
      (use q in \<open>auto simp: zone_of_def steady_def last_replicate\<close>)
  then show ?thesis by (simp add: f(3))
qed

section \<open>What the daemon leaves behind\<close>

lemma all_fans_spec:
  "writes (i2c_write_all_fans r v c) = writes c @ [(0x30, v mod 256), (0x40, v mod 256)]"
  "(\<forall>q. r_ack r q) \<Longrightarrow> duty (i2c_write_all_fans r v c) 0x30 = v mod 256 \<and> duty (i2c_write_all_fans r v c) 0x40 = v mod 256"
  by (simp_all add: i2c_write_all_fans_def FAN_DEFS_def) (simp add: i2c_write_pwm_def)


end
