(* ===== verification/ShowFan.thy ===== *)
theory ShowFan
  imports FanProps FwInfo TextOut
begin

text \<open>
  The operational command \<^verbatim>\<open>op_mode/show_hardware_fan.py\<close>: the thermal zones and the two fan channels, read
  from the kernel's files and from the floors file that the fan controller publishes.  The file is the
  interface of the two programs, so the daemon's writer is modelled here beside the reader.
\<close>

section \<open>The published file\<close>

definition reg_key :: "nat \<Rightarrow> string" where "reg_key r = ''0x'' @ hex_fmt 2 r"

definition floor_lines :: "bool \<Rightarrow> fan list \<Rightarrow> string list" where
  "floor_lines raw fs =
     map (\<lambda>f. reg_key (duty_reg f) @ ''='' @ int_str (fan_floor f)) fs
     @ map (\<lambda>f. ''present:'' @ reg_key (duty_reg f) @ ''='' @ (if present f then ''1'' else ''0'')) fs
     @ [''tach_source='' @ (if raw then ''raw-m1'' else ''sysfs-m2'')]
     @ concat (map (\<lambda>f. case rpm f of None \<Rightarrow> [] | Some n \<Rightarrow> [''rpm:'' @ reg_key (duty_reg f) @ ''='' @ int_str n]) fs)"

definition export_floors :: "bool \<Rightarrow> fan list \<Rightarrow> string" where
  "export_floors raw fs = concat (map (\<lambda>l. l @ [CHR 0x0A]) (floor_lines raw fs))"

record floor_state =
  s_floors :: "string \<rightharpoonup> int"
  s_rpms :: "string \<rightharpoonup> int"
  s_source :: "string option"
  s_presents :: "string \<rightharpoonup> bool"

definition no_floor_state :: floor_state where
  "no_floor_state = \<lparr>s_floors = Map.empty, s_rpms = Map.empty, s_source = None, s_presents = Map.empty\<rparr>"

definition int_of :: "string \<Rightarrow> int option" where
  "int_of t = (case py_int 10 t of Inr i \<Rightarrow> Some i | Inl _ \<Rightarrow> None)"

definition floor_line :: "string \<Rightarrow> floor_state \<Rightarrow> floor_state" where
  "floor_line l st =
     (case split1 (CHR ''='') l of
        [key, v] \<Rightarrow>
          if key \<in> {''0x30'', ''0x40''} then (case int_of v of Some i \<Rightarrow> st\<lparr>s_floors := (s_floors st)(key \<mapsto> i)\<rparr> | None \<Rightarrow> st)
          else if startswith key ''present:'' then st\<lparr>s_presents := (s_presents st)(drop 8 key \<mapsto> (strip v = ''1''))\<rparr>
          else if startswith key ''rpm:'' then (case int_of v of Some i \<Rightarrow> st\<lparr>s_rpms := (s_rpms st)(drop 4 key \<mapsto> i)\<rparr> | None \<Rightarrow> st)
          else if key = ''tach_source'' then st\<lparr>s_source := Some v\<rparr> else st
      | _ \<Rightarrow> st)"

definition read_floor_state :: "string option \<Rightarrow> floor_state" where
  "read_floor_state t = (case t of None \<Rightarrow> no_floor_state | Some t \<Rightarrow> fold floor_line (py_lines [] t) no_floor_state)"

section \<open>Zones\<close>

definition SHOW_ZONES :: "(string \<times> int \<times> int) list" where
  "SHOW_ZONES = [(''ddr-thermal'', 65, 80), (''serdes-thermal'', 70, 85), (''fman-thermal'', 70, 87),
     (''cluster-thermal'', 65, 85), (''sec-thermal'', 65, 85)]"

definition SHOW_ALIASES :: "string \<Rightarrow> string list" where
  "SHOW_ALIASES n =
     (if n = ''ddr-thermal'' then [''ddr_thermal''] else if n = ''serdes-thermal'' then [''serdes_thermal'']
      else if n = ''fman-thermal'' then [''fman_thermal'']
      else if n = ''cluster-thermal'' then [''cluster_thermal'', ''core_cluster'']
      else if n = ''sec-thermal'' then [''sec_thermal''] else [])"

definition show_zone_for :: "string \<Rightarrow> string option" where
  "show_zone_for t = map_option fst (find (\<lambda>(n, _). t = n \<or> t \<in> set (SHOW_ALIASES n)) SHOW_ZONES)"

definition show_thermal_map :: "(string \<times> string option \<times> bool) list \<Rightarrow> (string \<rightharpoonup> string)" where
  "show_thermal_map es =
     fold (\<lambda>(e, t, has_temp) found.
       if \<not> startswith e ''thermal_zone'' then found
       else case t of None \<Rightarrow> found
         | Some t \<Rightarrow> if \<not> has_temp then found
             else (case show_zone_for (strip t) of Some n \<Rightarrow> found(n \<mapsto> e) | None \<Rightarrow> found)) es Map.empty"

text \<open>
  \<^verbatim>\<open>round(m / 1000.0, 1)\<close> in tenths of a degree.  Halfway between two tenths the floating-point quotient
  decides; \<open>up\<close> is that choice.
\<close>

definition read_temp_c :: "(int \<Rightarrow> bool) \<Rightarrow> int \<Rightarrow> int" where
  "read_temp_c up m =
     (let q = m div 100; r = m mod 100 in
      if r < 50 then q else if r > 50 then q + 1 else if up m then q + 1 else q)"

datatype zone_state = Crit | Hot | Warm | Cool

definition classify_zone :: "int \<Rightarrow> int \<Rightarrow> int \<Rightarrow> zone_state" where
  "classify_zone tenths sp cr =
     (if tenths \<ge> 1000 \<or> tenths \<ge> 10 * cr then Crit else if tenths \<ge> 10 * sp then Hot
      else if tenths \<ge> 10 * (sp - 5) then Warm else Cool)"

definition zone_word :: "zone_state \<Rightarrow> string" where
  "zone_word s = (case s of Crit \<Rightarrow> ''crit'' | Hot \<Rightarrow> ''hot'' | Warm \<Rightarrow> ''warm'' | Cool \<Rightarrow> ''cool'')"

section \<open>Fans\<close>

datatype fan_state = NotPresent | Fault | ReadError | Off | Stalled | Blind | NoTach | AtMax | Running

definition zero_or_none :: "int option \<Rightarrow> bool" where "zero_or_none x = (x = None \<or> x = Some 0)"

definition fan_state :: "bool \<Rightarrow> int option \<Rightarrow> int option \<Rightarrow> int option \<Rightarrow> int \<Rightarrow> bool \<Rightarrow> fan_state" where
  "fan_state exists fault pwm n fl here =
     (if \<not> exists \<or> \<not> here then NotPresent
      else if fl = PWM_MAX \<and> zero_or_none n then NotPresent
      else if fl = 0 \<and> zero_or_none n \<and> zero_or_none pwm then NotPresent
      else if fault = Some 1 then Fault
      else case pwm of None \<Rightarrow> ReadError
        | Some p \<Rightarrow>
            if p = 0 then Off
            else if n = Some 0 then
              (if fl \<noteq> 0 \<and> p \<ge> fl then Stalled else if fl \<noteq> 0 \<and> p < fl then Blind
               else if fl = 0 then NotPresent else NoTach)
            else if p \<ge> PWM_MAX then AtMax else Running)"

definition state_word :: "fan_state \<Rightarrow> string" where
  "state_word s = (case s of NotPresent \<Rightarrow> ''not present'' | Fault \<Rightarrow> ''fault'' | ReadError \<Rightarrow> ''read-error'' | Off \<Rightarrow> ''off''
     | Stalled \<Rightarrow> ''stalled'' | Blind \<Rightarrow> ''blind'' | NoTach \<Rightarrow> ''no-tach'' | AtMax \<Rightarrow> ''max'' | Running \<Rightarrow> ''running'')"

definition FAN_REGS :: "nat \<Rightarrow> string" where "FAN_REGS n = (if n = 1 then ''0x30'' else ''0x40'')"

text \<open>
  What the command finds: the entries of the thermal class, the reading of an entry in thousandths of a
  degree, whether the chip's directory exists, its per-channel files (a missing file, or its number if it
  reads as one), and the floors file.
\<close>

record fan_files =
  ff_board :: bool
  ff_thermal :: "(string \<times> string option \<times> bool) list"
  ff_temp :: "string \<Rightarrow> int option"
  ff_hwmon :: bool
  ff_pwm :: "nat \<Rightarrow> int option option"
  ff_fault :: "nat \<Rightarrow> int option option"
  ff_input :: "nat \<Rightarrow> int option option"
  ff_floors :: "string option"

record fan_view =
  v_exists :: bool
  v_pwm :: "int option"
  v_fault :: "int option"
  v_rpm :: "int option"
  v_floor :: int
  v_state :: fan_state

definition file_value :: "bool \<Rightarrow> int option option \<Rightarrow> int option" where
  "file_value dir x = (if dir then (case x of Some v \<Rightarrow> v | None \<Rightarrow> None) else None)"

definition channel_exists :: "fan_files \<Rightarrow> nat \<Rightarrow> bool" where
  "channel_exists s n = (ff_hwmon s \<and> ff_pwm s n \<noteq> None \<and> ff_input s n \<noteq> None)"

definition channel_rpm :: "fan_files \<Rightarrow> floor_state \<Rightarrow> nat \<Rightarrow> int option" where
  "channel_rpm s st n =
     (case s_rpms st (FAN_REGS n) of Some r \<Rightarrow> Some r
      | None \<Rightarrow> if channel_exists s n \<and> s_source st \<noteq> Some ''raw-m1'' then file_value True (ff_input s n) else None)"

text \<open>The table reads the duty and the fault of any file there is, the digest only those of an existing channel.\<close>

definition channel_view :: "bool \<Rightarrow> fan_files \<Rightarrow> floor_state \<Rightarrow> nat \<Rightarrow> fan_view" where
  "channel_view raw s st n =
     (let ex = channel_exists s n; rd = (if raw then ex else ff_hwmon s);
          pwm = file_value rd (ff_pwm s n); fault = file_value rd (ff_fault s n);
          fl = (case s_floors st (FAN_REGS n) of Some f \<Rightarrow> f | None \<Rightarrow> 0);
          here = (case s_presents st (FAN_REGS n) of Some b \<Rightarrow> b | None \<Rightarrow> True);
          r = channel_rpm s st n in
      \<lparr>v_exists = ex, v_pwm = pwm, v_fault = fault, v_rpm = r, v_floor = fl, v_state = fan_state ex fault pwm r fl here\<rparr>)"


section \<open>The command\<close>

definition tenths_fmt :: "int \<Rightarrow> int \<Rightarrow> string" where
  "tenths_fmt m k = (if m < 0 then ''-'' else []) @ nat_str (nat \<bar>k\<bar> div 10) @ ''.'' @ nat_str (nat \<bar>k\<bar> mod 10)"

definition zone_row :: "(int \<Rightarrow> bool) \<Rightarrow> fan_files \<Rightarrow> string \<times> int \<times> int \<Rightarrow> cell list" where
  "zone_row up s = (\<lambda>(n, sp, cr).
     (case show_thermal_map (ff_thermal s) n of
        None \<Rightarrow> [Txt n, Txt ''-'', Txt ''missing'', Txt (int_str sp), Txt (int_str cr)]
      | Some e \<Rightarrow> (case ff_temp s e of
          None \<Rightarrow> [Txt n, Txt ''-'', Txt ''unreadable'', Txt (int_str sp), Txt (int_str cr)]
        | Some m \<Rightarrow> [Txt n, Txt (tenths_fmt m (read_temp_c up m)), Txt (zone_word (classify_zone (read_temp_c up m) sp cr)),
            Txt (int_str sp), Txt (int_str cr)])))"

definition fan_label :: "nat \<Rightarrow> string" where "fan_label n = ''fan'' @ nat_str n"

definition fan_row :: "nat \<Rightarrow> fan_view \<Rightarrow> cell list" where
  "fan_row n v =
     (if v_state v = NotPresent
      then [Txt (fan_label n), Txt ''-'', Txt ''-'', Txt ''-'', Txt ''-'', Txt ''-'', Txt ''not present'']
      else [Txt (fan_label n), (case v_pwm v of Some p \<Rightarrow> Num p | None \<Rightarrow> Txt ''-''),
        Txt (case v_pwm v of Some p \<Rightarrow> int_str (py_round (of_int (p * 100) / of_int PWM_MAX)) | None \<Rightarrow> ''-''),
        (case v_rpm v of Some r \<Rightarrow> Num r | None \<Rightarrow> Txt ''-''),
        (if v_floor v \<noteq> 0 then Num (v_floor v) else Txt ''?''), Num PWM_MAX, Txt (state_word (v_state v))])"

definition show_text :: "(int \<Rightarrow> bool) \<Rightarrow> fan_files \<Rightarrow> shown_item list" where
  "show_text up s =
     (let st = read_floor_state (ff_floors s) in
      [Say ''Fan and thermal status'', Say (replicate 21 (CHR ''='')),
       Say ''Thermal zones (setpoint/critical from fan-pid PI tuning):'',
       Grid (map (zone_row up s) SHOW_ZONES) [''Zone'', ''Temp (degC)'', ''State'', ''Setpoint (degC)'', ''Critical (degC)''],
       Say (CHR 0x0A # ''Fan controller (EMC2305):''),
       Grid (map (\<lambda>n. fan_row n (channel_view False s st n)) [1, 2]) [''Fan'', ''Duty'', ''%'', ''RPM'', ''Min'', ''Max'', ''State'']]
      @ (if ff_hwmon s then [] else [Say ((CHR 0x0A # ''EMC2305 hwmon entry not found '') @ [CHR 0xE2, CHR 0x80, CHR 0x94] @ '' check i2c bus / driver bind.'')]))"

record zone_item =
  zi_zone :: string
  zi_tenths :: "int option"
  zi_state :: string
  zi_setpoint :: int
  zi_critical :: int

record fan_item =
  fi_fan :: string
  fi_exists :: bool
  fi_present :: bool
  fi_duty :: "int option"
  fi_rpm :: "int option"
  fi_min :: "int option"
  fi_max :: "int option"
  fi_state :: string

definition zone_entry :: "(int \<Rightarrow> bool) \<Rightarrow> fan_files \<Rightarrow> string \<times> int \<times> int \<Rightarrow> zone_item" where
  "zone_entry up s = (\<lambda>(n, sp, cr).
     (let t = (case show_thermal_map (ff_thermal s) n of None \<Rightarrow> None | Some e \<Rightarrow> map_option (read_temp_c up) (ff_temp s e)) in
      \<lparr>zi_zone = n, zi_tenths = t,
       zi_state = (case t of Some k \<Rightarrow> zone_word (classify_zone k sp cr) | None \<Rightarrow> ''missing''),
       zi_setpoint = sp, zi_critical = cr\<rparr>))"

definition fan_entry :: "nat \<Rightarrow> fan_view \<Rightarrow> fan_item" where
  "fan_entry n v =
     (let p = (v_exists v \<and> v_state v \<noteq> NotPresent) in
      \<lparr>fi_fan = fan_label n, fi_exists = v_exists v, fi_present = p, fi_duty = (if p then v_pwm v else None),
       fi_rpm = (if p then v_rpm v else None), fi_min = (if p then Some (v_floor v) else None),
       fi_max = (if p then Some PWM_MAX else None), fi_state = state_word (v_state v)\<rparr>)"

definition show_raw :: "(int \<Rightarrow> bool) \<Rightarrow> fan_files \<Rightarrow> zone_item list \<times> fan_item list" where
  "show_raw up s =
     (map (zone_entry up s) SHOW_ZONES,
      map (\<lambda>n. fan_entry n (channel_view True s (read_floor_state (ff_floors s)) n)) [1, 2])"

text \<open>The run: the lines and tables printed, or the digest, or the refusal on another board; the status is 0.\<close>

datatype fan_report = Refused string | Report "shown_item list" | DigestOf "zone_item list" "fan_item list"

definition show_fan :: "(int \<Rightarrow> bool) \<Rightarrow> fan_files \<Rightarrow> string list \<Rightarrow> fan_report \<times> int" where
  "show_fan up s argv =
     (if \<not> ff_board s
      then (Refused ''This platform is not the NXP LS1046A Mono Gateway DK; no fan controller to report.'', 0)
      else if argv \<noteq> [] \<and> hd argv = ''raw'' then (case show_raw up s of (zs, fs) \<Rightarrow> (DigestOf zs fs, 0))
      else (Report (show_text up s), 0))"

section \<open>Agreement with the daemon\<close>

lemma zone_for_agree: "show_zone_for t = zone_for t"
  by (auto simp: show_zone_for_def zone_for_def SHOW_ZONES_def ZONES_def zone_of_def SHOW_ALIASES_def ZONE_ALIASES_def)

lemma thermal_agree: "show_thermal_map es = find_thermal_zones es"
  unfolding show_thermal_map_def find_thermal_zones_def zone_for_agree
  by (rule arg_cong [where f = "\<lambda>g. fold g es Map.empty"]) (auto simp: fun_eq_iff split: option.split)

lemma read_temp_c_bounds: "100 * read_temp_c up m \<le> m + 50" "m - 50 \<le> 100 * read_temp_c up m"
proof -
  define q r where "q = m div 100" and "r = m mod 100"
  have "m = 100 * q + r" "0 \<le> r" "r < 100" by (simp_all add: q_def r_def)
  moreover have "read_temp_c up m = (if r < 50 then q else if r > 50 then q + 1 else if up m then q + 1 else q)"
    by (simp add: read_temp_c_def Let_def q_def r_def)
  ultimately show "100 * read_temp_c up m \<le> m + 50" "m - 50 \<le> 100 * read_temp_c up m"
    by (auto split: if_splits)
qed

lemma read_temp_c_ge: "1000 * k \<le> m \<Longrightarrow> 10 * k \<le> read_temp_c up m"
  using read_temp_c_bounds(2) [of m up] by linarith

lemma degrees_le:
  "of_int c \<le> (of_int m / 1000 :: rat) \<longleftrightarrow> 1000 * c \<le> m"
  "of_int c - 1 / 20 \<le> (of_int m / 1000 :: rat) \<longleftrightarrow> 1000 * c - 50 \<le> m"
proof -
  have "of_int c \<le> (of_int m / 1000 :: rat) \<longleftrightarrow> of_int (1000 * c) \<le> (of_int m :: rat)" by (simp add: field_simps)
  then show "of_int c \<le> (of_int m / 1000 :: rat) \<longleftrightarrow> 1000 * c \<le> m" by (simp only: of_int_le_iff)
  have "of_int c - 1 / 20 \<le> (of_int m / 1000 :: rat) \<longleftrightarrow> of_int (1000 * c - 50) \<le> (of_int m :: rat)"
    by (simp add: field_simps) linarith
  then show "of_int c - 1 / 20 \<le> (of_int m / 1000 :: rat) \<longleftrightarrow> 1000 * c - 50 \<le> m" by (simp only: of_int_le_iff)
qed

lemma classify_crit:
  "(of_int m / 1000 \<ge> (of_int cr :: rat) \<or> of_int m / 1000 \<ge> HARD_FAULT_TEMP \<longrightarrow>
      classify_zone (read_temp_c up m) sp cr = Crit)
   \<and> (classify_zone (read_temp_c up m) sp cr = Crit \<longrightarrow>
      of_int m / 1000 \<ge> (of_int cr - 1 / 20 :: rat) \<or> of_int m / 1000 \<ge> HARD_FAULT_TEMP - 1 / 20)"
proof -
  have h: "HARD_FAULT_TEMP = of_int 100" by (simp add: HARD_FAULT_TEMP_def)
  have t: "classify_zone (read_temp_c up m) sp cr = Crit \<longleftrightarrow> 10 * 100 \<le> read_temp_c up m \<or> 10 * cr \<le> read_temp_c up m"
    by (simp add: classify_zone_def)
  have s: "1000 * c - 50 \<le> m" if "10 * c \<le> read_temp_c up m" for c
    using read_temp_c_bounds(1) [of up m] that by linarith
  show ?thesis unfolding h t degrees_le using read_temp_c_ge s by blast
qed

text \<open>C39. The command shows what the daemon acts on (equivalence).  From the same thermal class both programs take
  the same zones from the same entries, with the same limits; whenever the daemon is forced to full drive
  by a zone's reading, the command calls that zone critical; and it never calls critical a reading that is
  more than 0.05 degrees below the limit that forces the daemon.\<close>

theorem shown_critical_agrees:
  "show_thermal_map es = find_thermal_zones es
   \<and> map (\<lambda>(n, sp, cr). (n, of_int sp, of_int cr)) SHOW_ZONES = map (\<lambda>z. (z_name z, setpoint z, crit_temp z)) ZONES
   \<and> (\<forall>(n, sp, cr) \<in> set SHOW_ZONES. \<forall>m.
        (of_int m / 1000 \<ge> (of_int cr :: rat) \<or> of_int m / 1000 \<ge> HARD_FAULT_TEMP \<longrightarrow>
           classify_zone (read_temp_c up m) sp cr = Crit)
        \<and> (classify_zone (read_temp_c up m) sp cr = Crit \<longrightarrow>
           of_int m / 1000 \<ge> (of_int cr - 1 / 20 :: rat) \<or> of_int m / 1000 \<ge> HARD_FAULT_TEMP - 1 / 20))"
  using classify_crit by (auto simp only: thermal_agree split_beta) (simp_all add: SHOW_ZONES_def ZONES_def zone_of_def)

theorem shown_critical_agrees_witness:
  "classify_zone (read_temp_c (\<lambda>_. False) 80000) 65 80 = Crit \<and> classify_zone (read_temp_c (\<lambda>_. False) 79900) 65 80 = Hot"
proof -
  have z: "(''ddr-thermal'', 65, 80) \<in> set SHOW_ZONES" by (simp add: SHOW_ZONES_def)
  have "classify_zone (read_temp_c (\<lambda>_. False) 80000) 65 80 = Crit"
    using bspec [OF conjunct2 [OF conjunct2 [OF shown_critical_agrees [of "[]" "\<lambda>_. False"]]] z] by auto
  moreover have "classify_zone (read_temp_c (\<lambda>_. False) 79900) 65 80 = Hot"
    by (simp add: read_temp_c_def classify_zone_def)
  ultimately show ?thesis ..
qed


section \<open>The file carries the daemon's state\<close>

lemma py_lines_line:
  "\<forall>c \<in> set l. c \<notin> set line_breaks \<Longrightarrow> py_lines acc (l @ CHR 0x0A # r) = (rev acc @ l) # py_lines [] r"
proof (induction l arbitrary: acc)
  case Nil
  then show ?case by (cases r) (simp_all add: line_breaks_def)
next
  case (Cons c l)
  have "py_lines acc ((c # l) @ CHR 0x0A # r) = py_lines (c # acc) (l @ CHR 0x0A # r)"
    using Cons.prems by (cases l) (auto simp: line_breaks_def)
  then show ?case using Cons.IH [of "c # acc"] Cons.prems by simp
qed

lemma py_lines_lines:
  "\<forall>l \<in> set ls. \<forall>c \<in> set l. c \<notin> set line_breaks \<Longrightarrow> py_lines [] (concat (map (\<lambda>l. l @ [CHR 0x0A]) ls)) = ls"
  by (induction ls) (simp_all add: py_lines_line)

lemma split1_field: "CHR ''='' \<notin> set k \<Longrightarrow> split1 (CHR ''='') (k @ CHR ''='' # v) = [k, v]"
  by (induction k) auto

lemma int_str_plain: "c \<in> set (int_str i) \<Longrightarrow> c \<notin> set line_breaks"
proof -
  assume "c \<in> set (int_str i)"
  then have "is_digit c \<or> c = CHR ''-''" using nat_str_digits by (auto simp: int_str_def split: if_splits)
  then show ?thesis by (auto simp: line_breaks_def is_digit_def)
qed

lemma int_of_int_str [simp]: "int_of (int_str i) = Some i"
  by (simp add: int_of_def py_int_int_str)

lemma reg_keys [simp]: "reg_key 0x30 = ''0x30''" "reg_key 0x40 = ''0x40''"
  by code_simp+


lemma floor_line_eval:
  "floor_line (''0x30='' @ int_str i) st = st\<lparr>s_floors := (s_floors st)(''0x30'' \<mapsto> i)\<rparr>"
  "floor_line (''0x40='' @ int_str i) st = st\<lparr>s_floors := (s_floors st)(''0x40'' \<mapsto> i)\<rparr>"
  "floor_line (''rpm:0x30='' @ int_str i) st = st\<lparr>s_rpms := (s_rpms st)(''0x30'' \<mapsto> i)\<rparr>"
  "floor_line (''rpm:0x40='' @ int_str i) st = st\<lparr>s_rpms := (s_rpms st)(''0x40'' \<mapsto> i)\<rparr>"
  "floor_line (''present:0x30='' @ (if b then ''1'' else ''0'')) st = st\<lparr>s_presents := (s_presents st)(''0x30'' \<mapsto> b)\<rparr>"
  "floor_line (''present:0x40='' @ (if b then ''1'' else ''0'')) st = st\<lparr>s_presents := (s_presents st)(''0x40'' \<mapsto> b)\<rparr>"
  "floor_line (''tach_source='' @ (if b then ''raw-m1'' else ''sysfs-m2'')) st = st\<lparr>s_source := Some (if b then ''raw-m1'' else ''sysfs-m2'')\<rparr>"
  by (simp_all add: floor_line_def startswith_def strip_def lstrip_def rstrip_def is_space_def)

lemma floor_lines_plain: "\<forall>l \<in> set (floor_lines raw [f, g]). \<forall>c \<in> set l. c \<notin> set line_breaks"
  if "duty_reg f = 0x30" "duty_reg g = 0x40"
proof -
  have n: "\<forall>b \<in> set line_breaks. b \<notin> set (int_str i)" for i using int_str_plain by blast
  show ?thesis using that n by (auto simp: floor_lines_def line_breaks_def split: option.split)
qed

lemma read_export:
  assumes "duty_reg f = 0x30" "duty_reg g = 0x40"
  shows "read_floor_state (Some (export_floors raw [f, g])) =
    \<lparr>s_floors = [''0x30'' \<mapsto> fan_floor f, ''0x40'' \<mapsto> fan_floor g],
     s_rpms = Map.empty(''0x30'' := rpm f, ''0x40'' := rpm g),
     s_source = Some (if raw then ''raw-m1'' else ''sysfs-m2''),
     s_presents = [''0x30'' \<mapsto> present f, ''0x40'' \<mapsto> present g]\<rparr>"
proof -
  have l: "py_lines [] (export_floors raw [f, g]) = floor_lines raw [f, g]"
    unfolding export_floors_def by (rule py_lines_lines [OF floor_lines_plain [OF assms]])
  have s: "floor_lines raw [f, g] =
      [''0x30='' @ int_str (fan_floor f), ''0x40='' @ int_str (fan_floor g),
       ''present:0x30='' @ (if present f then ''1'' else ''0''), ''present:0x40='' @ (if present g then ''1'' else ''0''),
       ''tach_source='' @ (if raw then ''raw-m1'' else ''sysfs-m2'')]
      @ (case rpm f of None \<Rightarrow> [] | Some n \<Rightarrow> [''rpm:0x30='' @ int_str n])
      @ (case rpm g of None \<Rightarrow> [] | Some n \<Rightarrow> [''rpm:0x40='' @ int_str n])"
    by (simp add: floor_lines_def assms split: option.split)
  show ?thesis
    unfolding read_floor_state_def option.case l s
    by (cases "rpm f"; cases "rpm g"; simp only: fold_simps fold_append o_apply floor_line_eval option.case)
       (simp_all add: no_floor_state_def fun_eq_iff)
qed

lemma fans_shape:
  "\<exists>f g. fans (control_loop rs (new_controller raw paths (detect_present_fans raw r) c0)) = [f, g]
     \<and> duty_reg f = 0x30 \<and> duty_reg g = 0x40"
proof -
  have "map duty_reg (fans (control_loop rs (new_controller raw paths (detect_present_fans raw r) c0))) = [0x30, 0x40]"
    using arg_cong [OF fans_loop, of "map snd" rs "new_controller raw paths (detect_present_fans raw r) c0"]
    by (simp add: comp_def new_controller_def Let_def detect_present_fans_def FAN_DEFS_def init_fan_def)
  then show ?thesis by (auto simp: map_eq_Cons_conv)
qed

text \<open>C22. The published file carries the state (round trip).  At every tick of a run, what the command reads
  back from the floors file is exactly the daemon's state: each channel's floor and presence, its last sample
  where there is one, and which tachometer the samples come from.\<close>

theorem floors_round_trip:
  "\<exists>f g. let c = control_loop rs (new_controller raw paths (detect_present_fans raw r) c0) in
     fans c = [f, g] \<and> duty_reg f = 0x30 \<and> duty_reg g = 0x40
     \<and> read_floor_state (Some (export_floors (raw_tach c) (fans c))) =
         \<lparr>s_floors = [''0x30'' \<mapsto> fan_floor f, ''0x40'' \<mapsto> fan_floor g],
          s_rpms = Map.empty(''0x30'' := rpm f, ''0x40'' := rpm g),
          s_source = Some (if raw_tach c then ''raw-m1'' else ''sysfs-m2''),
          s_presents = [''0x30'' \<mapsto> present f, ''0x40'' \<mapsto> present g]\<rparr>"
  using fans_shape [of rs raw paths r c0] by (auto simp: Let_def read_export)

end
