(* ===== verification/ShowOffload.thy ===== *)
theory ShowOffload
  imports TextOut Json IpAddr "HOL-Library.Product_Lexorder" "HOL-Library.Multiset"
begin

text \<open>
  The operational commands \<^verbatim>\<open>op_mode/show_offload.py\<close> (offload configuration per port, learned flows) and
  \<^verbatim>\<open>op_mode/show_ask_offload.py\<close> (flows of one interface).  Both read the same netlink dump.  Its
  attributes have the types of \<^verbatim>\<open>kernel/ask/uapi/ask.yaml\<close>: numbers, and byte strings in hexadecimal.
  The configuration tree, the dump and the kernel's files are arguments.
\<close>

section \<open>The dump\<close>

definition swap_char :: "char \<Rightarrow> char \<Rightarrow> string \<Rightarrow> string" where "swap_char a b = map (\<lambda>c. if c = a then b else c)"

text \<open>\<^verbatim>\<open>_get\<close> on one name: as given, with underscores, with dashes.\<close>

definition get_attr :: "(string \<times> json) list \<Rightarrow> string \<Rightarrow> json option" where
  "get_attr kvs n =
     (case find (\<lambda>k. k \<in> fst ` set kvs) [n, swap_char (CHR ''-'') (CHR ''_'') n, swap_char (CHR ''_'') (CHR ''-'') n] of
        Some k \<Rightarrow> map_of kvs k | None \<Rightarrow> None)"

record dump_flow =
  l3_proto :: "int option"
  l4_proto :: "int option"
  src_ip :: "string option"
  dst_ip :: "string option"
  sport :: "int option"
  dport :: "int option"
  iif :: "int option"
  oif :: "int option"
  offloaded :: "int option"
  packets :: "int option"
  nbytes :: "int option"
  port_id :: "int option"
  agg_packets :: "int option"
  agg_bytes :: "int option"

definition attr_int :: "(string \<times> json) list \<Rightarrow> string \<Rightarrow> int option option" where
  "attr_int kvs n = (case get_attr kvs n of None \<Rightarrow> Some None | Some (JInt i) \<Rightarrow> Some (Some i) | _ \<Rightarrow> None)"

definition attr_str :: "(string \<times> json) list \<Rightarrow> string \<Rightarrow> string option option" where
  "attr_str kvs n = (case get_attr kvs n of None \<Rightarrow> Some None | Some (JStr s) \<Rightarrow> Some (Some s) | _ \<Rightarrow> None)"

text \<open>A dictionary at the types of the schema; \<open>None\<close> when some attribute is of another type.\<close>

definition flow_of :: "(string \<times> json) list \<Rightarrow> dump_flow option" where
  "flow_of kvs =
     (case (attr_int kvs ''l3-proto'', attr_int kvs ''l4-proto'', attr_str kvs ''src-ip'', attr_str kvs ''dst-ip'',
        attr_int kvs ''sport'', attr_int kvs ''dport'', attr_int kvs ''iif'', attr_int kvs ''oif'', attr_int kvs ''offloaded'',
        attr_int kvs ''packets'', attr_int kvs ''bytes'', attr_int kvs ''port-id'', attr_int kvs ''agg-packets'', attr_int kvs ''agg-bytes'') of
        (Some a, Some b, Some c, Some d, Some e, Some f, Some g, Some h, Some i, Some j, Some k, Some l, Some m, Some n) \<Rightarrow>
          Some \<lparr>l3_proto = a, l4_proto = b, src_ip = c, dst_ip = d, sport = e, dport = f, iif = g, oif = h, offloaded = i,
                packets = j, nbytes = k, port_id = l, agg_packets = m, agg_bytes = n\<rparr>
      | _ \<Rightarrow> None)"

text \<open>One item of the dump: a wrapped flow, a flat one, or something to be passed over.\<close>

definition item_flow :: "json \<Rightarrow> (string \<times> json) list option" where
  "item_flow j =
     (case j of JObj kvs \<Rightarrow> (case map_of kvs ''flow'' of Some (JObj f) \<Rightarrow> Some f | _ \<Rightarrow> Some kvs) | _ \<Rightarrow> None)"

definition somes :: "'a option list \<Rightarrow> 'a list" where "somes xs = concat (map (\<lambda>x. case x of Some a \<Rightarrow> [a] | None \<Rightarrow> []) xs)"

text \<open>\<open>loads\<close> is \<^verbatim>\<open>json.loads\<close>.  A text is iterated character by character, none of which is a dictionary.\<close>

definition fetch_flows :: "(string \<Rightarrow> json res) \<Rightarrow> int \<times> string \<Rightarrow> (string \<times> json) list list res" where
  "fetch_flows loads = (\<lambda>(rc, out).
     if rc \<noteq> 0 then
       Inl (RuntimeError (if strip out = [] then ''ynl dump-flows failed (is ask.ko loaded and offload engaged?)'' else strip out))
     else if strip out = [] then Inr []
     else bindE (loads out) (\<lambda>data.
       case data of
         JObj kvs \<Rightarrow> Inr (somes [item_flow data])
       | JList items \<Rightarrow> Inr (somes (map item_flow items))
       | JStr _ \<Rightarrow> Inr []
       | _ \<Rightarrow> Inl TypeError))"

section \<open>Addresses\<close>

definition hex_space :: "char \<Rightarrow> bool" where
  "hex_space c = (c \<in> {CHR '' '', CHR 0x09, CHR 0x0A, CHR 0x0B, CHR 0x0C, CHR 0x0D})"

text \<open>\<^verbatim>\<open>bytes.fromhex\<close>: pairs of digits, with blanks between pairs.\<close>

fun fromhex :: "string \<Rightarrow> nat list option" where
  "fromhex [] = Some []"
| "fromhex (c # cs) =
     (if hex_space c then fromhex cs
      else case cs of
        d # r \<Rightarrow> if is_hex c \<and> is_hex d then map_option (\<lambda>bs. (16 * hexv c + hexv d) # bs) (fromhex r) else None
      | [] \<Rightarrow> None)"

definition to_hex :: "nat list \<Rightarrow> string" where "to_hex bs = concat (map (\<lambda>b. [hexu (b div 16), hexu (b mod 16)]) bs)"

fun byte_pairs :: "nat list \<Rightarrow> nat list" where
  "byte_pairs (a # b # r) = (256 * a + b) # byte_pairs r"
| "byte_pairs _ = []"

definition ip_text :: "nat list \<Rightarrow> string" where
  "ip_text raw =
     (if length raw \<ge> 16 \<and> (\<exists>b \<in> set (take 12 (drop 4 raw)). b \<noteq> 0) then ip6_str (byte_pairs (take 16 raw))
      else if length raw \<ge> 4 then ip4_str (take 4 raw) else to_hex raw)"

definition fmt_ip :: "string option \<Rightarrow> string" where
  "fmt_ip v = (case v of None \<Rightarrow> ''-'' | Some t \<Rightarrow> (case fromhex t of None \<Rightarrow> t | Some raw \<Rightarrow> ip_text raw))"

definition port_text :: "int option \<Rightarrow> string" where "port_text p = (case p of None \<Rightarrow> ''-'' | Some i \<Rightarrow> int_str i)"

definition fmt_endpoint :: "string option \<Rightarrow> int option \<Rightarrow> string" where
  "fmt_endpoint v p =
     (let ip = fmt_ip v in
      if CHR '':'' \<in> set ip then ''['' @ ip @ '']:'' @ port_text p else ip @ '':'' @ port_text p)"

definition proto_names :: "(int \<times> string) list" where
  "proto_names = [(6, ''tcp''), (17, ''udp''), (1, ''icmp''), (50, ''esp''), (132, ''sctp'')]"

definition proto_name :: "int option \<Rightarrow> string" where
  "proto_name p = (case p of None \<Rightarrow> ''-'' | Some i \<Rightarrow> (case map_of proto_names i of Some n \<Rightarrow> n | None \<Rightarrow> int_str i))"

section \<open>Ports and gates\<close>

definition HW_PORT :: "(string \<times> nat) list" where
  "HW_PORT = [(''eth0'', 0x0C), (''eth1'', 0x0D), (''eth2'', 0x09), (''eth3'', 0x10), (''eth4'', 0x11)]"

definition port_name :: "nat \<Rightarrow> string" where "port_name p = the (map_of (map (\<lambda>(n, q). (q, n)) HW_PORT) p)"

text \<open>The lines of \<^verbatim>\<open>fe_port\<close>; a number that does not parse is passed over.\<close>

definition armed_line :: "string \<Rightarrow> int list" where
  "armed_line l =
     (case words l of w # v # _ \<Rightarrow>
        if w = ''port'' then (case py_int 16 v of Inr i \<Rightarrow> [i] | Inl _ \<Rightarrow> []) else []
      | _ \<Rightarrow> [])"

definition armed_hw_ports :: "string option \<Rightarrow> int set" where
  "armed_hw_ports t = (case t of None \<Rightarrow> {} | Some t \<Rightarrow> set (concat (map armed_line (split_on (CHR 0x0A) t))))"

definition gate_on :: "string option \<Rightarrow> bool" where
  "gate_on t = (case t of None \<Rightarrow> False | Some t \<Rightarrow> lower (strip t) \<in> {''1'', ''y'', ''yes'', ''true''})"

section \<open>Configuration\<close>

record offload_sys =
  conf_exists :: "string list \<Rightarrow> bool"
  fe_port :: "string option"
  nat44_gate :: "string option"
  nat66_gate :: "string option"

definition port_offloads :: "offload_sys \<Rightarrow> nat \<Rightarrow> string list" where
  "port_offloads s p =
     (let n = port_name p; base = [''interfaces'', ''ethernet'', n] in
      if conf_exists s [''vpp'', ''settings'', ''interface'', n] then [''vpp'']
      else let v4 = conf_exists s (base @ [''offload'', ''ipv4'']); v6 = conf_exists s (base @ [''offload'', ''ipv6'']);
               os = (if v4 then [''ipv4''] else []) @ (if v6 then [''ipv6''] else [])
                  @ (if v4 \<and> gate_on (nat44_gate s) then [''nat44''] else []) @ (if v6 \<and> gate_on (nat66_gate s) then [''nat66''] else [])
                  @ (if conf_exists s (base @ [''ingress-policer'']) then [''policer''] else []) in
        if os \<noteq> [] \<and> int p \<notin> armed_hw_ports (fe_port s) then map (\<lambda>o'. o' @ ''*'') os else os)"

definition port_row :: "offload_sys \<Rightarrow> nat \<Rightarrow> string list" where
  "port_row s p =
     [''0x'' @ hex_fmt 2 p, port_name p, (if port_offloads s p \<noteq> [] then join '', '' (port_offloads s p) else ''none'')]"

definition show_config :: "offload_sys \<Rightarrow> shown_item list" where
  "show_config s =
     (let rows = map (port_row s) (sort (map snd HW_PORT)) in
      [Say (''ASK2 hardware routing offload (NXP LS1046A FMan FE-VM)'' @ [CHR 0x0A]),
       Grid (map (map Txt) rows) [''HW-Port'', ''Interface'', ''Offloads'']]
      @ (if \<exists>r \<in> set rows. CHR ''*'' \<in> set (r ! 2)
         then [Say (CHR 0x0A # ''* configured but not currently engaged in silicon (e.g. link down or interface assigned to VPP).'')]
         else []))"

section \<open>Flows\<close>

definition ETH_P_IPV6 :: int where "ETH_P_IPV6 = 34525"

definition is_v6 :: "dump_flow \<Rightarrow> bool" where "is_v6 f = (l3_proto f = Some ETH_P_IPV6)"

definition or_zero :: "int option \<Rightarrow> int" where "or_zero x = (case x of None \<Rightarrow> 0 | Some i \<Rightarrow> i)"

text \<open>The sort key of a row; texts are compared by their character codes.\<close>

definition codes :: "string \<Rightarrow> nat list" where "codes = map of_char"

type_synonym flow_key = "nat \<times> nat list \<times> nat list \<times> int \<times> nat list \<times> int"

definition sort_key_of :: "dump_flow \<Rightarrow> flow_key" where
  "sort_key_of f =
     (if is_v6 f then 1 else 0, codes (proto_name (l4_proto f)), codes (fmt_ip (src_ip f)), or_zero (sport f),
      codes (fmt_ip (dst_ip f)), or_zero (dport f))"

definition flow_row :: "dump_flow \<Rightarrow> cell list" where
  "flow_row f =
     [Txt ((if is_v6 f then ''ipv6'' else ''ipv4'') @ ''/'' @ proto_name (l4_proto f)),
      Txt (fmt_endpoint (src_ip f) (sport f) @ '' '' @ [CHR 0xE2, CHR 0x86, CHR 0x92] @ '' '' @ fmt_endpoint (dst_ip f) (dport f)),
      Num (or_zero (packets f)), Num (or_zero (nbytes f))]"

definition port_aggregates :: "dump_flow list \<Rightarrow> (int \<times> int \<times> int option) list" where
  "port_aggregates fs =
     fold (\<lambda>f agg. case (port_id f, agg_packets f) of
        (Some p, Some n) \<Rightarrow> if p \<in> fst ` set agg then agg else agg @ [(p, n, agg_bytes f)] | _ \<Rightarrow> agg) fs []"

definition hash_hex :: "int \<Rightarrow> string" where
  "hash_hex p = (if p < 0 then ''-0x'' @ hex_fmt 1 (nat (- p)) else ''0x'' @ hex_fmt 2 (nat p))"

definition aggregate_line :: "int \<times> int \<times> int option \<Rightarrow> shown_item" where
  "aggregate_line = (\<lambda>(p, n, b).
     Say (CHR 0x0A # ''VLAN port '' @ hash_hex p @ '' hardware aggregate (since first flow on port): '' @ int_str n @ '' packets / ''
       @ (case b of None \<Rightarrow> ''None'' | Some i \<Rightarrow> int_str i) @ '' bytes''))"

definition show_flow :: "dump_flow list \<Rightarrow> shown_item list" where
  "show_flow fs =
     (if fs = [] then [Say ''No flows tracked by ASK offload'']
      else [Say (''ASK offload flows ('' @ nat_str (length fs) @ '' total):'' @ [CHR 0x0A]),
            Grid (map flow_row (sort_key sort_key_of fs)) [''Protocol'', ''Flow'', ''Packets'', ''Bytes'']]
           @ map aggregate_line (sort_key fst (port_aggregates fs)))"

section \<open>Flows of an interface\<close>

definition offload_mark :: "int option \<Rightarrow> string" where
  "offload_mark x = (case x of None \<Rightarrow> ''?'' | Some i \<Rightarrow> if i \<noteq> 0 then ''hw'' else ''sw'')"

definition num_cell :: "int option \<Rightarrow> cell" where "num_cell x = (case x of None \<Rightarrow> Txt ''-'' | Some i \<Rightarrow> Num i)"

definition ask_row :: "dump_flow \<Rightarrow> cell list" where
  "ask_row f =
     [Txt (proto_name (l4_proto f)), Txt (fmt_ip (src_ip f) @ '':'' @ port_text (sport f)),
      Txt (fmt_ip (dst_ip f) @ '':'' @ port_text (dport f)), num_cell (iif f), num_cell (oif f), Txt (offload_mark (offloaded f)),
      Num (or_zero (packets f)), Num (or_zero (nbytes f))]"

definition on_interface :: "int \<Rightarrow> dump_flow \<Rightarrow> bool" where "on_interface idx f = (iif f = Some idx \<or> oif f = Some idx)"

definition show_ask_flows :: "string \<Rightarrow> int \<Rightarrow> dump_flow list \<Rightarrow> shown_item list" where
  "show_ask_flows intf idx fs =
     (let rows = map ask_row (filter (on_interface idx) fs) in
      if rows = [] then [Say (''No flows tracked by ASK on '' @ intf)]
      else [Say (''ASK flows on '' @ intf @ '' ('' @ nat_str (length rows) @ '' tracked, ''
                 @ nat_str (length (filter (\<lambda>r. r ! 5 = Txt ''hw'') rows)) @ '' in hardware):'' @ [CHR 0x0A]),
            Grid rows [''Proto'', ''Source'', ''Destination'', ''IIF'', ''OIF'', ''Offload'', ''Packets'', ''Bytes'']])"

section \<open>The commands\<close>

text \<open>
  What is printed and the status; an exception other than \<^verbatim>\<open>RuntimeError\<close> escapes.  \<open>None\<close> is a dump that
  breaks the schema.
\<close>

definition all_some :: "'a option list \<Rightarrow> 'a list option" where
  "all_some xs = (if None \<in> set xs then None else Some (map the xs))"

definition with_flows ::
  "(string \<Rightarrow> json res) \<Rightarrow> int \<times> string \<Rightarrow> (dump_flow list \<Rightarrow> shown_item list) \<Rightarrow> (shown_item list \<times> int) res option" where
  "with_flows loads dump render =
     (case fetch_flows loads dump of
        Inl (RuntimeError m) \<Rightarrow> Some (Inr ([Say m], 1))
      | Inl e \<Rightarrow> Some (Inl e)
      | Inr ds \<Rightarrow> map_option (\<lambda>fs. Inr (render fs, 0)) (all_some (map flow_of ds)))"

definition show_offload :: "(string \<Rightarrow> json res) \<Rightarrow> offload_sys \<Rightarrow> int \<times> string \<Rightarrow> string \<Rightarrow> (shown_item list \<times> int) res option" where
  "show_offload loads s dump action =
     (if action = ''config'' then Some (Inr (show_config s, 0)) else with_flows loads dump show_flow)"

definition show_ask_offload ::
  "(string \<Rightarrow> json res) \<Rightarrow> (string \<Rightarrow> string option) \<Rightarrow> int \<times> string \<Rightarrow> string \<Rightarrow> (shown_item list \<times> int) res option" where
  "show_ask_offload loads ifindex dump intf =
     (case ifindex intf of
        None \<Rightarrow> Some (Inr ([Say (''Interface '' @ intf @ '' does not exist'')], 1))
      | Some t \<Rightarrow> (case py_int 10 t of
          Inl _ \<Rightarrow> Some (Inr ([Say (''Interface '' @ intf @ '' does not exist'')], 1))
        | Inr idx \<Rightarrow> with_flows loads dump (show_ask_flows intf idx)))"


section \<open>Properties\<close>

lemma starred_ports:
  assumes "o' \<in> set (port_offloads s p)"
  shows "CHR ''*'' \<in> set o' \<longleftrightarrow> o' \<noteq> ''vpp'' \<and> int p \<notin> armed_hw_ports (fe_port s)"
  using assms by (auto simp: port_offloads_def Let_def split: if_splits)

lemma vpp_excludes_others: "''vpp'' \<in> set (port_offloads s p) \<Longrightarrow> port_offloads s p = [''vpp'']"
  by (auto simp: port_offloads_def Let_def split: if_splits)

lemma mset_sort_rows: "mset (map flow_row (sort_key sort_key_of fs)) = mset (map flow_row fs)"
  by simp

lemma sorted_blocks:
  assumes "sorted (map k xs)" "\<And>x y. P x \<Longrightarrow> \<not> P y \<Longrightarrow> k y < (k x :: 'a :: linorder)"
  shows "xs = filter (\<lambda>x. \<not> P x) xs @ filter P xs"
  using assms(1)
proof (induction xs)
  case (Cons x xs)
  show ?case
  proof (cases "P x")
    case True
    have "P y" if "y \<in> set xs" for y
      using Cons.prems assms(2) [OF True, of y] that by (auto simp: not_less [symmetric])
    then show ?thesis using True by (simp add: filter_id_conv filter_empty_conv)
  next
    case False
    then show ?thesis using Cons by simp
  qed
qed simp

text \<open>The flow table is the dump, in order (functional).  For any dump the table has one row per flow, the count
  printed is theirs, rows are in ascending order of family, protocol, source and destination, all IPv4 rows
  precede all IPv6 rows, and flows that the key does not distinguish keep the order of the dump.\<close>

lemma flow_table_sorted:
  "fs = [] \<and> show_flow fs = [Say ''No flows tracked by ASK offload''] \<or>
   (\<exists>gs. show_flow fs =
        [Say (''ASK offload flows ('' @ nat_str (length gs) @ '' total):'' @ [CHR 0x0A]),
         Grid (map flow_row gs) [''Protocol'', ''Flow'', ''Packets'', ''Bytes'']]
        @ map aggregate_line (sort_key fst (port_aggregates fs))
      \<and> mset gs = mset fs \<and> sorted (map sort_key_of gs)
      \<and> gs = filter (\<lambda>f. \<not> is_v6 f) gs @ filter is_v6 gs
      \<and> (\<forall>k. filter (\<lambda>f. sort_key_of f = k) gs = filter (\<lambda>f. sort_key_of f = k) fs))"
proof (cases "fs = []")
  case False
  let ?gs = "sort_key sort_key_of fs"
  have "?gs = filter (\<lambda>f. \<not> is_v6 f) ?gs @ filter is_v6 ?gs"
    by (rule sorted_blocks [OF sorted_sort_key]) (simp add: sort_key_of_def)
  moreover have "filter (\<lambda>f. sort_key_of f = k) ?gs = filter (\<lambda>f. sort_key_of f = k) fs" for k
    by (rule sort_key_stable)
  ultimately show ?thesis using False by (intro disjI2 exI [of _ ?gs]) (simp add: show_flow_def)
qed (simp add: show_flow_def)

lemma hexu_digit: "b < 16 \<Longrightarrow> is_hex (hexu b) \<and> hexv (hexu b) = b \<and> \<not> hex_space (hexu b)"
proof -
  assume "b < 16"
  then have h: "is_hex (hexu b)" "hexv (hexu b) = b" using hexu_hex by auto
  then show ?thesis by (auto simp: hex_space_def is_hex_def is_digit_def)
qed

lemma fromhex_to_hex: "\<forall>b \<in> set bs. b < 256 \<Longrightarrow> fromhex (to_hex bs) = Some bs"
proof (induction bs)
  case (Cons b bs)
  then have "b div 16 < 16" "b mod 16 < 16" by auto
  then show ?case using Cons hexu_digit by (simp add: to_hex_def)
qed (simp add: to_hex_def)

lemma fmt_ip_bytes: "\<forall>b \<in> set bs. b < 256 \<Longrightarrow> fmt_ip (Some (to_hex bs)) = ip_text bs"
  by (simp add: fmt_ip_def fromhex_to_hex)

text \<open>Which address a flow shows (error).  An attribute of sixteen bytes is printed as the IPv6 address it is
  exactly when one of its last twelve bytes is not zero.  Otherwise the family of the flow is ignored and the
  first four bytes are printed as an IPv4 address, so that the IPv6 flow cannot be told from an IPv4 flow with
  that address.  Four bytes are always printed as the IPv4 address they are.\<close>

lemma address_shown:
  assumes "length bs = 16" "\<forall>b \<in> set bs. b < 256"
  shows "fmt_ip (Some (to_hex (take 4 bs))) = ip4_str (take 4 bs)
    \<and> fmt_ip (Some (to_hex bs)) =
        (if \<exists>b \<in> set (drop 4 bs). b \<noteq> 0 then ip6_str (byte_pairs bs) else fmt_ip (Some (to_hex (take 4 bs))))"
proof -
  have s: "\<forall>b \<in> set (take 4 bs). b < 256" using assms(2) by (meson in_set_takeD)
  have "fmt_ip (Some (to_hex (take 4 bs))) = ip4_str (take 4 bs)"
    using assms(1) by (simp add: fmt_ip_bytes [OF s] ip_text_def)
  then show ?thesis using assms(1)
    by (cases "\<exists>b \<in> set (drop 4 bs). b \<noteq> 0") (auto simp: fmt_ip_bytes [OF assms(2)] ip_text_def)
qed

lemma address_shown_witness:
  "fmt_ip (Some (to_hex ([32, 1, 13, 184] @ replicate 12 0))) = ip4_str [32, 1, 13, 184]"
proof -
  have "length ([32, 1, 13, 184] @ replicate 12 (0 :: nat)) = 16" by simp
  moreover have "\<forall>b \<in> set ([32, 1, 13, 184] @ replicate 12 (0 :: nat)). b < 256" by simp
  ultimately show ?thesis using address_shown [of "[32, 1, 13, 184] @ replicate 12 0"] by simp
qed

text \<open>The flows of an interface: which are listed, and how many are counted as in hardware.\<close>

lemma hw_count:
  "length (filter (\<lambda>r. r ! 5 = Txt ''hw'') (map ask_row fs)) = length (filter (\<lambda>f. \<exists>i. offloaded f = Some i \<and> i \<noteq> 0) fs)"
proof -
  have "ask_row f ! 5 = Txt ''hw'' \<longleftrightarrow> (\<exists>i. offloaded f = Some i \<and> i \<noteq> 0)" for f
    by (cases "offloaded f") (auto simp: ask_row_def offload_mark_def)
  then show ?thesis by (simp add: filter_map comp_def)
qed

end
