(* ===== verification/ShowDpaa.thy ===== *)
theory ShowDpaa
  imports ShowOffload FwReport "HOL-Library.AList"
begin

text \<open>
  The operational command \<^verbatim>\<open>op_mode/show_hardware_dpaa.py\<close>: ports, their offload state, AF_XDP counters, bound
  drivers.  Files, directories and the outputs of \<^verbatim>\<open>nft\<close> and \<^verbatim>\<open>ethtool\<close> are arguments; tables are the cells
  handed to the table printer.
\<close>

section \<open>What the command reads\<close>

text \<open>\<open>d_read\<close> is \<open>None\<close> and a tool's result is \<open>None\<close> on \<^verbatim>\<open>OSError\<close>; \<open>d_device\<close> is the base name of the device link.\<close>

record dpaa_sys =
  d_read :: "string \<Rightarrow> string option"
  d_exists :: "string \<Rightarrow> bool"
  d_list :: "string \<Rightarrow> string list option"
  d_device :: "string \<Rightarrow> string"
  d_ethtool :: "string \<Rightarrow> (int \<times> string) option"
  d_nft :: "(int \<times> string) option"
  d_root :: bool
  d_blob :: "byte list option"

definition stripped :: "string option \<Rightarrow> string option" where
  "stripped = map_option (strip_of [CHR 0x00, CHR 0x0A, CHR 0x0D, CHR '' ''])"

definition d_text :: "dpaa_sys \<Rightarrow> string \<Rightarrow> string option" where "d_text s path = stripped (d_read s path)"

definition board_text :: "string option \<Rightarrow> bool" where
  "board_text c = (case c of Some t \<Rightarrow> t \<noteq> [] \<and> contains ''fsl,ls1046a'' t | None \<Rightarrow> False)"

definition file_lines :: "string \<Rightarrow> string list" where "file_lines = split_on (CHR 0x0A)"

record memac =
  mm_memac :: string
  mm_type :: string
  mm_port :: "nat option"

definition MEMAC_MAP :: "(string \<times> memac) list" where
  "MEMAC_MAP =
     [(''1ae8000'', \<lparr>mm_memac = ''MAC5'', mm_type = ''1G SGMII (GPY115C)'', mm_port = Some 0x12\<rparr>),
      (''1aea000'', \<lparr>mm_memac = ''MAC6'', mm_type = ''1G SGMII (GPY115C)'', mm_port = Some 0x13\<rparr>),
      (''1ae2000'', \<lparr>mm_memac = ''MAC2'', mm_type = ''1G SGMII (GPY115C)'', mm_port = Some 0x14\<rparr>),
      (''1af0000'', \<lparr>mm_memac = ''MAC9'', mm_type = ''10G XFI (SFP+)'', mm_port = Some 0x10\<rparr>),
      (''1af2000'', \<lparr>mm_memac = ''MAC10'', mm_type = ''10G XFI (SFP+)'', mm_port = Some 0x11\<rparr>)]"

definition memac_of :: "string \<Rightarrow> memac" where
  "memac_of addr = (case map_of MEMAC_MAP addr of Some m \<Rightarrow> m | None \<Rightarrow> \<lparr>mm_memac = ''?'', mm_type = ''?'', mm_port = None\<rparr>)"

definition net_dir :: "string \<Rightarrow> string" where "net_dir iface = ''/sys/class/net/'' @ iface"

definition count_bound :: "dpaa_sys \<Rightarrow> string \<Rightarrow> nat" where
  "count_bound s drv =
     (let path = ''/sys/bus/platform/drivers/'' @ drv in
      case d_list s path of
        None \<Rightarrow> 0
      | Some ls \<Rightarrow> length (filter (\<lambda>l. l \<notin> {''bind'', ''unbind'', ''uevent'', ''module''} \<and> d_exists s (path @ ''/'' @ l)) ls))"

section \<open>Armed ports and flowtables\<close>

text \<open>\<^verbatim>\<open>get_armed_ports\<close>: the first number that does not parse ends the scan.\<close>

fun armed_scan :: "string list \<Rightarrow> int list" where
  "armed_scan [] = []"
| "armed_scan (l # ls) =
     (case words l of
        w # v # _ \<Rightarrow>
          if w = ''port'' then (case py_int 16 v of Inr i \<Rightarrow> i # armed_scan ls | Inl _ \<Rightarrow> []) else armed_scan ls
      | _ \<Rightarrow> armed_scan ls)"

definition FE_PORT :: string where "FE_PORT = ''/sys/kernel/debug/fman_pcd/0/fe_port''"

definition get_armed_ports :: "dpaa_sys \<Rightarrow> int set" where
  "get_armed_ports s =
     (if d_exists s FE_PORT then (case d_read s FE_PORT of Some t \<Rightarrow> set (armed_scan (file_lines t)) | None \<Rightarrow> {}) else {})"

text \<open>The match of \<^verbatim>\<open>devices\s*=\s*\{\s*([^}]+)\s*\}\<close> at the head of a text, and the group of the leftmost match.  The
  group keeps leading blanks only when it has nothing else; every name is stripped later.\<close>

definition devices_at :: "string \<Rightarrow> string option" where
  "devices_at xs = do {
     r \<leftarrow> lit ''devices'' xs;
     r \<leftarrow> lit ''='' (dropWhile is_space r);
     r \<leftarrow> lit ''{'' (dropWhile is_space r);
     (_, r) \<leftarrow> many1 (\<lambda>c. c \<noteq> CHR ''}'') r;
     lit ''}'' r
   }"

definition device_group :: "string \<Rightarrow> string option" where
  "device_group l = map_option (\<lambda>(m, _). butlast (tl (dropWhile (\<lambda>c. c \<noteq> CHR ''{'') m))) (search devices_at l)"

text \<open>The state of the scan: what is known per device (\<open>True\<close>: offloaded), devices of the current table, the flag.\<close>

type_synonym nft_state = "(string \<rightharpoonup> bool) \<times> string list \<times> bool"

definition nft_line :: "string \<Rightarrow> nft_state \<Rightarrow> nft_state" where
  "nft_line l = (\<lambda>(devs, cur, has).
     let cur' = (if contains ''devices = {'' l
                 then (case device_group l of Some g \<Rightarrow> map strip (split_on (CHR '','') g) | None \<Rightarrow> cur) else cur);
         has' = (contains ''flags offload'' l \<or> has)
     in if CHR ''}'' \<in> set l \<and> cur' \<noteq> [] then (fold (\<lambda>d m. m(d \<mapsto> has')) cur' devs, [], False) else (devs, cur', has'))"

definition nft_scan :: "string list \<Rightarrow> string \<rightharpoonup> bool" where
  "nft_scan ls = fst (fold nft_line ls (Map.empty, [], False))"

definition get_nft_flowtable_offloads :: "dpaa_sys \<Rightarrow> string \<rightharpoonup> bool" where
  "get_nft_flowtable_offloads s =
     (if d_root s then (case d_nft s of Some (rc, out) \<Rightarrow> if rc = 0 then nft_scan (py_lines [] out) else Map.empty | None \<Rightarrow> Map.empty)
      else Map.empty)"

section \<open>AF_XDP counters\<close>

definition field_int :: "string \<Rightarrow> int res" where "field_int l = py_int 10 (strip (split_on (CHR '':'') l ! 1))"

text \<open>Redirected, armed, fill guard; a value that does not parse ends the scan and keeps what was read.\<close>

fun xsk_scan :: "string list \<Rightarrow> int \<times> int \<times> int \<Rightarrow> int \<times> int \<times> int" where
  "xsk_scan [] (r, a, g) = (r, a, g)"
| "xsk_scan (l # ls) (r, a, g) =
     (if contains ''xsk_zc_rx_redirect:'' l then (case field_int l of Inr v \<Rightarrow> xsk_scan ls (v, a, g) | Inl _ \<Rightarrow> (r, a, g))
      else if contains ''xsk_zc_rx_armed:'' l then (case field_int l of Inr v \<Rightarrow> xsk_scan ls (r, v, g) | Inl _ \<Rightarrow> (r, a, g))
      else if contains ''xsk_fill_guard_block:'' l then (case field_int l of Inr v \<Rightarrow> xsk_scan ls (r, a, v) | Inl _ \<Rightarrow> (r, a, g))
      else xsk_scan ls (r, a, g))"

record xsk_status =
  xs_port :: string
  xs_redirect :: int
  xs_armed :: int
  xs_guard :: int
  xs_state :: string

definition xsk_state_text :: "int \<Rightarrow> int \<Rightarrow> int \<Rightarrow> string" where
  "xsk_state_text r a g =
     (if g > 0 then ''guard-block ('' @ int_str g @ '')''
      else if r > 0 then ''active (ZC)'' else if a > 0 then ''armed'' else ''dormant'')"

definition xsk_of :: "dpaa_sys \<Rightarrow> string \<Rightarrow> xsk_status" where
  "xsk_of s iface =
     (let (r, a, g) = (case d_ethtool s iface of
            Some (rc, out) \<Rightarrow> if rc = 0 then xsk_scan (py_lines [] out) (0, 0, 0) else (0, 0, 0) | None \<Rightarrow> (0, 0, 0))
      in \<lparr>xs_port = iface, xs_redirect = r, xs_armed = a, xs_guard = g, xs_state = xsk_state_text r a g\<rparr>)"

definition get_xsk_status :: "dpaa_sys \<Rightarrow> xsk_status list" where
  "get_xsk_status s = map (xsk_of s) (filter (\<lambda>i. d_exists s (net_dir i)) [''eth3'', ''eth4''])"

section \<open>Interfaces\<close>

record iface_info =
  if_iface :: string
  if_memac :: string
  if_addr :: string
  if_type :: string
  if_mac :: string
  if_mtu :: string
  if_link :: string
  if_offload :: string

definition upper :: "string \<Rightarrow> string" where
  "upper = map (\<lambda>c. if 97 \<le> (of_char c :: nat) \<and> (of_char c :: nat) \<le> 122 then char_of ((of_char c :: nat) - 32) else c)"

definition xsk_live :: "xsk_status list \<Rightarrow> string \<Rightarrow> bool" where
  "xsk_live xs iface = (\<exists>x \<in> set xs. xs_port x = iface \<and> (xs_armed x > 0 \<or> xs_redirect x > 0))"

definition port_armed :: "int set \<Rightarrow> memac \<Rightarrow> bool" where
  "port_armed armed m = (case mm_port m of Some p \<Rightarrow> int p \<in> armed | None \<Rightarrow> False)"

definition offload_state :: "xsk_status list \<Rightarrow> int set \<Rightarrow> (string \<rightharpoonup> bool) \<Rightarrow> string \<Rightarrow> memac \<Rightarrow> string \<Rightarrow> string" where
  "offload_state xs armed nft iface m oper =
     (if oper = ''down'' then ''N/A (down)''
      else if xsk_live xs iface then ''AF_XDP''
      else if port_armed armed m then ''ASK2''
      else case nft iface of Some True \<Rightarrow> ''ASK2'' | Some False \<Rightarrow> ''SW-Flowtable'' | None \<Rightarrow> ''None'')"

definition iface_of :: "dpaa_sys \<Rightarrow> xsk_status list \<Rightarrow> int set \<Rightarrow> (string \<rightharpoonup> bool) \<Rightarrow> string \<Rightarrow> iface_info" where
  "iface_of s xs armed nft iface =
     (let dir = net_dir iface; oper = or_else (d_text s (dir @ ''/operstate'')) ''unknown'';
          addr = hd (split_on (CHR ''.'') (d_device s iface)); m = memac_of addr in
      \<lparr>if_iface = iface, if_memac = mm_memac m, if_addr = ''0x'' @ addr, if_type = mm_type m,
       if_mac = upper (or_else (d_text s (dir @ ''/address'')) ''-''), if_mtu = or_else (d_text s (dir @ ''/mtu'')) ''-'',
       if_link = oper, if_offload = offload_state xs armed nft iface m oper\<rparr>)"

definition eth_names :: "string list" where "eth_names = map (\<lambda>i. ''eth'' @ nat_str i) [0, 1, 2, 3, 4]"

definition get_interfaces_info :: "dpaa_sys \<Rightarrow> xsk_status list \<Rightarrow> iface_info list" where
  "get_interfaces_info s xs =
     (let armed = get_armed_ports s; nft = get_nft_flowtable_offloads s in
      map (iface_of s xs armed nft) (filter (\<lambda>i. d_exists s (net_dir i)) eth_names))"

section \<open>MURAM, frame size, microcode, packets\<close>

definition MURAM_DEBUGFS :: string where "MURAM_DEBUGFS = ''/sys/kernel/debug/fman_pcd/0/muram_budget''"

definition muram_line :: "string \<Rightarrow> (string \<times> string) list \<Rightarrow> (string \<times> string) list" where
  "muram_line l info = (case words l of k # v # _ \<Rightarrow> AList.update k v info | _ \<Rightarrow> info)"

definition get_muram_info :: "dpaa_sys \<Rightarrow> (string \<times> string) list option" where
  "get_muram_info s =
     (if d_exists s MURAM_DEBUGFS
      then Some (case d_read s MURAM_DEBUGFS of Some t \<Rightarrow> fold muram_line (file_lines t) [] | None \<Rightarrow> [])
      else None)"

definition muram_kib :: "(string \<times> string) list \<Rightarrow> string \<Rightarrow> int res" where
  "muram_kib m k = (case map_of m k of None \<Rightarrow> Inr 0 | Some v \<Rightarrow> bindE (py_int 10 v) (\<lambda>i. Inr (i div 1024)))"

definition frm_at :: "string \<Rightarrow> string option" where
  "frm_at xs = do { r \<leftarrow> lit ''fsl_fm_max_frm='' xs; (_, r) \<leftarrow> many1 is_digit r; Some r }"

definition max_frame :: "dpaa_sys \<Rightarrow> string option" where
  "max_frame s = map_option (\<lambda>(m, _). drop 15 m) (search frm_at (or_else (d_text s ''/proc/cmdline'') []))"

definition version_at :: "byte list \<Rightarrow> byte list option" where
  "version_at xs = do { r \<leftarrow> lit (bytes_of ''Microcode version '') xs; (_, r) \<leftarrow> many1 (\<lambda>b. b_digit b \<or> b = 0x2E) r; Some r }"

definition ucode_str :: "dpaa_sys \<Rightarrow> string" where
  "ucode_str s =
     (if d_exists s DT_FW
      then (case d_blob s of
          Some b \<Rightarrow> (case search version_at (take 128 b) of Some (m, _) \<Rightarrow> ''v'' @ str_of (drop 18 m) | None \<Rightarrow> ''unknown'')
        | None \<Rightarrow> ''unknown'')
      else ''unknown'')"

definition packet_count :: "dpaa_sys \<Rightarrow> string \<Rightarrow> string \<Rightarrow> int res" where
  "packet_count s iface f = py_int 10 (or_else (d_text s (net_dir iface @ ''/statistics/'' @ f)) ''0'')"

definition total_packets :: "dpaa_sys \<Rightarrow> iface_info list \<Rightarrow> int res" where
  "total_packets s is =
     foldE (\<lambda>i n. bindE (packet_count s (if_iface i) ''rx_packets'') (\<lambda>rx.
                  bindE (packet_count s (if_iface i) ''tx_packets'') (\<lambda>tx. Inr (n + rx + tx)))) is 0"

section \<open>The command\<close>

datatype dpaa_report = DText "shown_item list" | DJson json

definition iface_json :: "iface_info \<Rightarrow> json" where
  "iface_json i = JObj [(''iface'', JStr (if_iface i)), (''memac'', JStr (if_memac i)), (''addr'', JStr (if_addr i)),
     (''type'', JStr (if_type i)), (''mac'', JStr (if_mac i)), (''mtu'', JStr (if_mtu i)), (''link'', JStr (if_link i)),
     (''offload'', JStr (if_offload i))]"

definition xsk_json :: "xsk_status \<Rightarrow> json" where
  "xsk_json x = JObj [(''port'', JStr (xs_port x)), (''redirect'', JInt (xs_redirect x)), (''armed'', JInt (xs_armed x)),
     (''guard'', JInt (xs_guard x)), (''state'', JStr (xs_state x))]"

definition dpaa_json :: "dpaa_sys \<Rightarrow> iface_info list \<Rightarrow> xsk_status list \<Rightarrow> int \<Rightarrow> json" where
  "dpaa_json s is xs pkts =
     JObj [(''interfaces'', JList (map iface_json is)),
       (''complex'', JObj [(''fman'', JStr ''FMan v3 @ 0x1a00000''), (''microcode'', JStr (ucode_str s)),
          (''qman'', JStr ''QMan @ 0x1880000 (4 CPU portals @ 0x500000000)''),
          (''bman'', JStr ''BMan @ 0x1890000 (4 CPU portals @ 0x508000000)''),
          (''max_frame'', JStr (case max_frame s of Some d \<Rightarrow> d | None \<Rightarrow> ''default (1522)'')),
          (''total_packets'', JInt pkts),
          (''muram'', case get_muram_info s of None \<Rightarrow> JNull | Some m \<Rightarrow> JObj (map (\<lambda>(k, v). (k, JStr v)) m))]),
       (''af_xdp'', JList (map xsk_json xs)), (''failed'', JBool (length is = 0))]"

definition port_grid :: "iface_info list \<Rightarrow> shown_item list" where
  "port_grid is =
     [Say ''Network Interfaces & MEMAC Mapping:'',
      Grid (map (\<lambda>i. map Txt [if_iface i, if_memac i, if_type i, if_mac i, if_mtu i, if_link i, if_offload i]) is)
        [''Port'', ''MEMAC'', ''Type / PHY'', ''MAC Address'', ''MTU'', ''Link'', ''Offload'']]"

definition fman_rows :: "dpaa_sys \<Rightarrow> cell list list" where
  "fman_rows s = map (\<lambda>(n, d, t). [Txt n, Txt d, Num (int (count_bound s d)), Txt t])
     [(''FMan Controller'', ''fsl-fman'', ''Frame Manager v3 main controller''),
      (''BMI Ports'', ''fsl-fman-port'', ''8 RX + 8 TX hardware BMI ports''),
      (''mEMAC MDIO Buses'', ''fsl-fman_xmdio'', ''Internal SGMII + SFP+ MDIO buses''),
      (''MEMAC Controllers'', ''fsl_dpaa_mac'', ''Active MAC controllers (MAC2,5,6,9,10)''),
      (''DPAA Ethernet'', ''fsl_dpa'', ''Linux netdevs (eth0-eth4)'')]"

definition driver_rows :: "dpaa_sys \<Rightarrow> cell list list" where
  "driver_rows s = map (\<lambda>(n, d, u, t). [Txt n, Txt d, Txt (nat_str (count_bound s d) @ u), Txt t])
     [(''FMan Controller'', ''fsl-fman'', '' device'', ''FMan controller @ 0x1a00000''),
      (''BMI Ports'', ''fsl-fman-port'', '' devices'', ''8 RX + 8 TX hardware BMI ports''),
      (''MDIO Buses'', ''fsl-fman_xmdio'', '' devices'', ''Internal SGMII + SFP+ MDIO''),
      (''MEMAC MACs'', ''fsl_dpaa_mac'', '' devices'', ''MAC controllers (MAC2,5,6,9,10)''),
      (''Netdevs'', ''fsl_dpa'', '' devices'', ''Linux netdevs (eth0-eth4)'')]
     @ [map Txt [''QMan Portals'', ''qbman_portal'', ''4 portals'', ''CPU0-CPU3 portals @ 0x500000000''],
        map Txt [''BMan Portals'', ''qbman_portal'', ''4 portals'', ''CPU0-CPU3 portals @ 0x508000000'']]"

definition muram_text :: "(string \<times> string) list option \<Rightarrow> string res" where
  "muram_text m =
     (case m of
        None \<Rightarrow> Inr ''MURAM Memory:   64 KiB total (MURAM base 0x1a00000)''
      | Some [] \<Rightarrow> Inr ''MURAM Memory:   64 KiB total (MURAM base 0x1a00000)''
      | Some kvs \<Rightarrow>
          bindE (muram_kib kvs ''used'') (\<lambda>u. bindE (muram_kib kvs ''reserved'') (\<lambda>r.
            Inr (''MURAM Memory:   '' @ int_str u @ '' KiB used / '' @ int_str r @ '' KiB reserved (''
                 @ (case map_of kvs ''free'' of Some f \<Rightarrow> f | None \<Rightarrow> ''0'') @ '' B free)''))))"

definition frame_text :: "dpaa_sys \<Rightarrow> string" where
  "frame_text s =
     (case max_frame s of
        Some d \<Rightarrow> ''Frame Size Cap: '' @ d @ '' B ('' @ (case py_int 10 d of Inr n \<Rightarrow> if n \<ge> 9600 then ''Jumbo enabled'' else ''Standard MTU'' | Inl _ \<Rightarrow> ''Standard MTU'') @ '')''
      | None \<Rightarrow> ''Frame Size Cap: default (1522) B (Standard MTU)'')"

definition subsystem_text :: "dpaa_sys \<Rightarrow> xsk_status list \<Rightarrow> int \<Rightarrow> string \<Rightarrow> shown_item list" where
  "subsystem_text s xs pkts mt =
     map Say [CHR 0x0A # ''Hardware Subsystems:'',
       ''Frame Manager:  FMan v3 @ 0x1a00000 (ucode '' @ ucode_str s @ '', PCD-capable: CC HM POL PARSER)'', mt,
       ''Queue Manager:  QMan @ 0x1880000 (4 CPU portals @ 0x500000000, 32 MB PFDR)'',
       ''Buffer Manager: BMan @ 0x1890000 (4 CPU portals @ 0x508000000, 16 MB FBPR)'',
       frame_text s, ''Datapath Load:  '' @ int_str pkts @ '' pkts processed across FQs/pools'',
       CHR 0x0A # ''Controller & Driver Status:'']
     @ [Grid (driver_rows s) [''Subsystem'', ''Driver'', ''Bound'', ''Details''],
        Say (CHR 0x0A # ''AF_XDP Zero-Copy Status (10G SFP+ Ports):''),
        Grid (map (\<lambda>x. [Txt (xs_port x), Num (xs_redirect x), Num (xs_armed x), Num (xs_guard x), Txt (xs_state x)]) xs)
          [''Port'', ''Redirected (RX)'', ''Armed'', ''Fill Guard Block'', ''State'']]"

definition dpaa_title :: "shown_item list" where
  "dpaa_title = [Say ''DPAA1 Network Acceleration (NXP Data Path Acceleration Architecture)'', Say (replicate 69 (CHR ''=''))]"

definition show_dpaa :: "dpaa_sys \<Rightarrow> bool \<Rightarrow> bool \<Rightarrow> bool \<Rightarrow> (dpaa_report \<times> int) res" where
  "show_dpaa s raw ports_only fman_only =
     (if \<not> board_text (d_text s DT_COMPATIBLE)
      then Inr (DText [Say ''This platform is not the NXP LS1046A Mono Gateway DK; no DPAA1 hardware complex to report.''], 2)
      else let xs = get_xsk_status s; is = get_interfaces_info s xs in
        bindE (total_packets s is) (\<lambda>pkts.
          if raw then Inr (DJson (dpaa_json s is xs pkts), if length is = 0 then 1 else 0)
          else if ports_only then Inr (DText (port_grid is), 0)
          else if fman_only then
            Inr (DText (dpaa_title @ port_grid is
                   @ [Say (CHR 0x0A # ''FMan Subsystems & Drivers:''), Grid (fman_rows s) [''Subsystem'', ''Driver'', ''Bound'', ''Description'']]), 0)
          else bindE (muram_text (get_muram_info s)) (\<lambda>mt.
            Inr (DText (dpaa_title @ port_grid is @ subsystem_text s xs pkts mt), if length is \<ge> 5 then 0 else 1))))"

definition dpaa_main :: "dpaa_sys \<Rightarrow> string list \<Rightarrow> (dpaa_report \<times> int) res" where
  "dpaa_main s argv =
     (let has = (\<lambda>o'. ''--'' @ o' \<in> set argv \<or> o' \<in> set argv) in show_dpaa s (has ''raw'') (has ''ports'') (has ''fman''))"

section \<open>Flowtables in the order that \<^verbatim>\<open>nft\<close> prints them\<close>

text \<open>
  A table is printed with its heading lines, the line of its devices, the offload flag when it has one, and a closing
  brace.
\<close>

record flowtable =
  ft_head :: "string list"
  ft_devices :: "string list"
  ft_offload :: bool

definition devices_line :: "string list \<Rightarrow> string" where
  "devices_line ds = [CHR 0x09, CHR 0x09] @ ''devices = {'' @ '' '' @ join '', '' ds @ '' '' @ ''}''"

definition flowtable_lines :: "flowtable \<Rightarrow> string list" where
  "flowtable_lines t =
     ft_head t @ [devices_line (ft_devices t)] @ (if ft_offload t then [[CHR 0x09, CHR 0x09] @ ''flags offload''] else [])
     @ [CHR 0x09 # ''}'']"

definition plain_name :: "string \<Rightarrow> bool" where
  "plain_name d = (d \<noteq> [] \<and> (\<forall>c \<in> set d. \<not> is_space c \<and> c \<notin> {CHR '','', CHR ''{'', CHR ''}''}))"

definition plain_table :: "flowtable \<Rightarrow> bool" where
  "plain_table t =
     ((\<forall>h \<in> set (ft_head t). \<not> contains ''devices = {'' h \<and> \<not> contains ''flags offload'' h)
      \<and> ft_devices t \<noteq> [] \<and> (\<forall>d \<in> set (ft_devices t). plain_name d)
      \<and> \<not> contains ''flags offload'' (devices_line (ft_devices t)))"

lemma dropWhile_plain: "plain_name d \<Longrightarrow> dropWhile is_space (d @ e) = d @ e \<and> dropWhile is_space (rev d @ e) = rev d @ e"
  by (auto simp: plain_name_def dropWhile_eq_self_iff hd_append hd_in_set hd_rev)

lemma blank: "is_space (CHR '' '') \<and> \<not> is_space (CHR ''='') \<and> \<not> is_space (CHR ''{'')"
  by (simp add: is_space_def)

lemma strip_padded:
  assumes "plain_name d" shows "strip (CHR '' '' # d) = d" "strip (CHR '' '' # d @ '' '') = d"
  using dropWhile_plain [OF assms, of "[]"] dropWhile_plain [OF assms, of "'' ''"]
  by (simp_all add: strip_def lstrip_def rstrip_def blank)

lemma split_names:
  assumes "plain_name d" "\<forall>e \<in> set ds. plain_name e"
  shows "map strip (split_on (CHR '','') ('' '' @ d @ concat (map (\<lambda>y. '', '' @ y) ds) @ '' '')) = d # ds"
  using assms
proof (induction ds arbitrary: d)
  case Nil
  then have "CHR '','' \<notin> set ('' '' @ d @ '' '')" by (auto simp: plain_name_def)
  from split_on_none [OF this] show ?case using strip_padded(2) [OF Nil.prems(1)] by (simp del: split_on.simps)
next
  case (Cons e ds)
  have "CHR '','' \<notin> set ('' '' @ d)" using Cons.prems by (auto simp: plain_name_def)
  from split_on_plain [OF this, of "'' '' @ e @ concat (map (\<lambda>y. '', '' @ y) ds) @ '' ''"]
  show ?case using Cons.IH [of e] Cons.prems strip_padded(1) [OF Cons.prems(1)] by (simp del: split_on.simps)
qed

lemma search_hit: "m xs = Some r \<Longrightarrow> xs \<noteq> [] \<Longrightarrow> search m xs = Some (take (length xs - length r) xs, r)"
  by (cases xs) simp_all

lemma group_names:
  assumes "plain_table t"
  shows "map_option (\<lambda>g. map strip (split_on (CHR '','') g)) (device_group (devices_line (ft_devices t))) = Some (ft_devices t)"
proof -
  obtain d ds where t: "ft_devices t = d # ds" and ok: "plain_name d" "\<forall>e \<in> set ds. plain_name e"
    using assms by (cases "ft_devices t") (auto simp: plain_table_def)
  let ?g = "'' '' @ d @ concat (map (\<lambda>y. '', '' @ y) ds) @ '' ''"
  have no: "CHR ''}'' \<notin> set ?g" using ok by (auto simp: plain_name_def)
  then have tw: "takeWhile (\<lambda>c. c \<noteq> CHR ''}'') (?g @ ''}'') = ?g" "dropWhile (\<lambda>c. c \<noteq> CHR ''}'') (?g @ ''}'') = ''}''"
    by (simp_all add: takeWhile_append dropWhile_append)
  have hit: "devices_at (''devices = {'' @ ?g @ ''}'') = Some []"
    using tw by (simp add: devices_at_def lit_def many1_def blank Option.bind_eq_Some_conv)
  have sep: "(@) '', '' = (\<lambda>y. CHR '','' # CHR '' '' # y)" by (simp add: fun_eq_iff)
  have tab: "search devices_at (CHR 0x09 # xs) = search devices_at xs" for xs
    by (simp add: devices_at_def lit_def)
  have line: "devices_line (d # ds) = CHR 0x09 # CHR 0x09 # (''devices = {'' @ ?g @ ''}'')"
    by (simp add: devices_line_def join_def sep)
  have "search devices_at (''devices = {'' @ ?g @ ''}'') = Some (''devices = {'' @ ?g @ ''}'', [])"
    by (subst search_hit [where m = devices_at, OF hit]) simp_all
  then have "search devices_at (devices_line (d # ds)) = Some (''devices = {'' @ ?g @ ''}'', [])"
    by (simp only: line tab)
  then have "device_group (devices_line (d # ds)) = Some ?g"
    by (simp add: device_group_def butlast_append)
  then show ?thesis using split_names [OF ok] t by simp
qed

lemma head_lines:
  assumes "\<forall>h \<in> set hs. \<not> contains ''devices = {'' h \<and> \<not> contains ''flags offload'' h"
  shows "fold nft_line hs (m, [], b) = (m, [], b)"
  using assms by (induction hs) (auto simp: nft_line_def)

lemma flowtable_step:
  assumes "plain_table t"
  shows "fold nft_line (flowtable_lines t) (m, [], b) = (fold (\<lambda>d m. m(d \<mapsto> b)) (ft_devices t) m, [], ft_offload t)"
proof -
  let ?l = "devices_line (ft_devices t)" and ?f = "[CHR 0x09, CHR 0x09] @ ''flags offload''" and ?e = "CHR 0x09 # ''}''"
  let ?m = "fold (\<lambda>d m. m(d \<mapsto> b)) (ft_devices t) m"
  have ne: "ft_devices t \<noteq> []" and no: "\<not> contains ''flags offload'' ?l" using assms by (auto simp: plain_table_def)
  have "?l = [CHR 0x09, CHR 0x09] @ ''devices = {'' @ ('' '' @ join '', '' (ft_devices t) @ '' '' @ ''}'')"
    by (simp add: devices_line_def)
  then have yes: "contains ''devices = {'' ?l" "CHR ''}'' \<in> set ?l"
    unfolding contains_iff occurs_at_split by blast (simp add: devices_line_def)
  have dev: "nft_line ?l (m, [], b) = (?m, [], False)"
    using group_names [OF assms] ne yes no by (auto simp: nft_line_def Let_def)
  have flag: "nft_line ?f (n, [], False) = (n, [], True)" for n
    by (simp add: nft_line_def contains_def find_from_def)
  have brace: "nft_line ?e (n, [], c) = (n, [], c)" for n c
    by (simp add: nft_line_def contains_def find_from_def)
  have "fold nft_line (flowtable_lines t) (m, [], b) = fold nft_line ((if ft_offload t then [?f] else []) @ [?e]) (?m, [], False)"
    using head_lines [of "ft_head t" m b] assms by (simp add: flowtable_lines_def plain_table_def dev)
  then show ?thesis by (simp only: fold_append fold.simps flag brace comp_def id_def split: if_split) simp
qed

type_synonym labelling = "(bool \<times> string list) list"

definition label_all :: "labelling \<Rightarrow> (string \<rightharpoonup> bool) \<Rightarrow> string \<rightharpoonup> bool" where
  "label_all = fold (\<lambda>(b, ds) m. fold (\<lambda>d m. m(d \<mapsto> b)) ds m)"

lemma scan_tables:
  assumes "\<forall>t \<in> set ts. plain_table t"
  shows "nft_scan (concat (map flowtable_lines ts)) = label_all (zip (False # map ft_offload ts) (map ft_devices ts)) Map.empty"
proof -
  have "fst (fold nft_line (concat (map flowtable_lines ts)) (m, [], b)) =
    label_all (zip (b # map ft_offload ts) (map ft_devices ts)) m" for m b
    using assms by (induction ts arbitrary: m b) (simp_all add: flowtable_step label_all_def)
  then show ?thesis by (simp add: nft_scan_def)
qed

lemma label_one: "fold (\<lambda>d m. m(d \<mapsto> b)) ds m d = (if d \<in> set ds then Some b else m d)"
  by (induction ds arbitrary: m) auto

lemma label_other: "\<forall>(b, ds) \<in> set ls. d \<notin> set ds \<Longrightarrow> label_all ls m d = m d"
  by (induction ls arbitrary: m) (auto simp: label_all_def label_one)

lemma label_at:
  assumes "i < length ts" "d \<in> set (ft_devices (ts ! i))"
    "\<forall>j. i < j \<and> j < length ts \<longrightarrow> d \<notin> set (ft_devices (ts ! j))"
  shows "label_all (zip (b # map ft_offload ts) (map ft_devices ts)) m d = Some (if i = 0 then b else ft_offload (ts ! (i - 1)))"
  using assms
proof (induction ts arbitrary: i b m)
  case (Cons t ts)
  have unfold: "label_all (zip (b # map ft_offload (t # ts)) (map ft_devices (t # ts))) m =
    label_all (zip (ft_offload t # map ft_offload ts) (map ft_devices ts)) (fold (\<lambda>d m. m(d \<mapsto> b)) (ft_devices t) m)"
    by (simp add: label_all_def)
  show ?case
  proof (cases i)
    case 0
    have "d \<notin> set (ft_devices u)" if "u \<in> set ts" for u
    proof -
      from that obtain k where "k < length ts" "u = ts ! k" by (auto simp: in_set_conv_nth)
      then show ?thesis using Cons.prems(3) [rule_format, of "Suc k"] 0 by simp
    qed
    then have "\<forall>(b, ds) \<in> set (zip (ft_offload t # map ft_offload ts) (map ft_devices ts)). d \<notin> set ds"
      by (auto dest!: set_zip_rightD)
    then show ?thesis using Cons.prems(2) 0 by (simp only: unfold label_other label_one) simp
  next
    case (Suc k)
    have "\<forall>j. k < j \<and> j < length ts \<longrightarrow> d \<notin> set (ft_devices (ts ! j))"
    proof (intro allI impI)
      fix j assume "k < j \<and> j < length ts"
      then show "d \<notin> set (ft_devices (ts ! j))" using Cons.prems(3) [rule_format, of "Suc j"] Suc by simp
    qed
    from Cons.IH [OF _ _ this] show ?thesis using Cons.prems Suc by (cases k) (simp_all only: unfold, simp_all)
  qed
qed simp

text \<open>C31. Which table's offload flag a device is shown with (functional).  The listing of \<^verbatim>\<open>nft\<close> has the devices of a
  table on one line and the flag after it.  The scan settles the devices at their own line, so every device gets
  the flag of the table before its own, and the devices of the first table are never shown as offloaded.\<close>

theorem flowtable_flag_shifted:
  assumes "\<forall>t \<in> set ts. plain_table t" "i < length ts" "d \<in> set (ft_devices (ts ! i))"
    "\<forall>j. i < j \<and> j < length ts \<longrightarrow> d \<notin> set (ft_devices (ts ! j))"
  shows "nft_scan (concat (map flowtable_lines ts)) d = Some (0 < i \<and> ft_offload (ts ! (i - 1)))"
  using scan_tables [OF assms(1)] label_at [OF assms(2-4), of False Map.empty] by (auto simp del: list.map zip_Cons_Cons)

definition two_tables :: "flowtable list" where
  "two_tables =
     [\<lparr>ft_head = [''table inet filter {'', ''flowtable f {''], ft_devices = [''eth0'', ''eth1''], ft_offload = True\<rparr>,
      \<lparr>ft_head = [''flowtable g {''], ft_devices = [''eth2''], ft_offload = False\<rparr>]"

lemma two_tables_plain: "\<forall>t \<in> set two_tables. plain_table t"
  by (simp add: two_tables_def plain_table_def plain_name_def is_space_def devices_line_def join_def contains_def find_from_def)

theorem flowtable_flag_shifted_witness:
  "nft_scan (concat (map flowtable_lines two_tables)) ''eth1'' = Some False \<and>
   nft_scan (concat (map flowtable_lines two_tables)) ''eth2'' = Some True"
proof -
  have l: "length two_tables = 2" by (simp add: two_tables_def)
  have "\<forall>j. 0 < j \<and> j < length two_tables \<longrightarrow> ''eth1'' \<notin> set (ft_devices (two_tables ! j))"
    by (auto simp: two_tables_def less_Suc_eq)
  then show ?thesis
    using flowtable_flag_shifted [OF two_tables_plain, of 0 "''eth1''"] flowtable_flag_shifted [OF two_tables_plain, of 1 "''eth2''"] l
    by (simp add: two_tables_def)
qed

section \<open>Agreement with \<^verbatim>\<open>show offload\<close>\<close>

text \<open>When every number of the file parses, both commands read the same set of armed ports.\<close>

lemma armed_sets_agree:
  assumes "\<forall>l \<in> set ls. \<forall>v r. words l = ''port'' # v # r \<longrightarrow> (\<exists>i. py_int 16 v = Inr i)"
  shows "set (armed_scan ls) = set (concat (map armed_line ls))"
  using assms
proof (induction ls)
  case (Cons l ls)
  then have IH: "set (armed_scan ls) = set (concat (map armed_line ls))" by (meson list.set_intros(2))
  have "\<exists>p. armed_scan (l # ls) = p @ armed_scan ls \<and> armed_line l = p"
  proof (cases "\<exists>v r. words l = ''port'' # v # r")
    case True
    then obtain v r where w: "words l = ''port'' # v # r" by blast
    then obtain i where "py_int 16 v = Inr i" using Cons.prems by (meson list.set_intros(1))
    then show ?thesis by (intro exI [of _ "[i]"]) (simp add: armed_line_def w)
  next
    case False
    then show ?thesis by (intro exI [of _ "[]"]) (simp add: armed_line_def split: list.split)
  qed
  then show ?case using IH by auto
qed simp

text \<open>
  The table of this command gives the three RJ45 ports other hardware ports than \<^verbatim>\<open>show_offload.py\<close>, and none that is
  a port of the board: armed on silicon, they are shown as armed by the one command and not by the other.
\<close>

lemma memac_port_wrong:
  "\<forall>(addr, n) \<in> {(''1ae8000'', ''eth0''), (''1aea000'', ''eth1''), (''1ae2000'', ''eth2'')}.
     mm_port (memac_of addr) \<noteq> map_of HW_PORT n \<and> mm_port (memac_of addr) \<notin> Some ` snd ` set HW_PORT"
  "mm_port (memac_of ''1af0000'') = map_of HW_PORT ''eth3''"
  "mm_port (memac_of ''1af2000'') = map_of HW_PORT ''eth4''"
  by (simp_all add: memac_of_def MEMAC_MAP_def HW_PORT_def)

lemma rj45_never_armed:
  assumes "armed \<subseteq> int ` snd ` set HW_PORT" "addr \<in> {''1ae8000'', ''1aea000'', ''1ae2000''}"
  shows "\<not> port_armed armed (memac_of addr)"
  using assms by (auto simp: port_armed_def memac_of_def MEMAC_MAP_def HW_PORT_def)

section \<open>Exit status\<close>

lemma ports_shown: "length (get_interfaces_info s xs) \<le> 5"
  by (simp add: get_interfaces_info_def Let_def eth_names_def)

text \<open>The status of the digest and of the report differ when one to four ports exist.\<close>

lemma dpaa_status:
  assumes "board_text (d_text s DT_COMPATIBLE)" "show_dpaa s True p f = Inr (x, c)" "show_dpaa s False False False = Inr (y, d)"
  shows "(c = 1 \<longleftrightarrow> get_interfaces_info s (get_xsk_status s) = []) \<and> (d = 0 \<longleftrightarrow> length (get_interfaces_info s (get_xsk_status s)) = 5)
    \<and> (c \<noteq> d \<longleftrightarrow> length (get_interfaces_info s (get_xsk_status s)) \<in> {1..4})"
proof -
  let ?n = "length (get_interfaces_info s (get_xsk_status s))"
  have "c = (if ?n = 0 then 1 else 0)" "d = (if ?n \<ge> 5 then 0 else 1)"
    using assms by (auto simp: show_dpaa_def Let_def bindE_eq_Inr split: if_splits)
  then show ?thesis using ports_shown [of s "get_xsk_status s"]
    by (cases "get_interfaces_info s (get_xsk_status s)") auto
qed

end
