(* ===== verification/ShowCrypto.thy ===== *)
theory ShowCrypto
  imports ShowDpaa
begin

text \<open>
  The operational command \<^verbatim>\<open>op_mode/show_hardware_crypto.py\<close>: job rings with their interrupts, the hardware
  algorithms of \<^verbatim>\<open>/proc/crypto\<close> by category, the random number device.
\<close>

section \<open>What the command reads\<close>

record crypto_sys =
  c_read :: "string \<Rightarrow> string option"
  c_exists :: "string \<Rightarrow> bool"
  c_rings :: "string list option"
  c_islink :: "string \<Rightarrow> bool"
  c_root :: bool
  c_sample :: "byte list option"

definition c_text :: "crypto_sys \<Rightarrow> string \<Rightarrow> string option" where "c_text s path = stripped (c_read s path)"

section \<open>Job rings\<close>

record irq_info =
  iq_irq :: string
  iq_type :: string
  iq_count :: nat

definition irq_of :: "string list \<Rightarrow> irq_info" where
  "irq_of parts =
     \<lparr>iq_irq = rev (dropWhile (\<lambda>c. c = CHR '':'') (rev (hd parts))),
      iq_type = join '' '' (take 3 (drop (length parts - 4) parts)),
      iq_count = sum_list (map dec_val (filter all_digits (tl parts)))\<rparr>"

definition irq_line :: "string \<Rightarrow> (string \<rightharpoonup> irq_info) \<Rightarrow> string \<rightharpoonup> irq_info" where
  "irq_line l m =
     (let parts = words l in
      if length parts \<ge> 4 \<and> contains ''.jr'' l
      then fold (\<lambda>n m. if contains ''.jr'' n then m(n \<mapsto> irq_of parts) else m) [rev parts ! 0, rev parts ! 1] m
      else m)"

definition irq_map :: "crypto_sys \<Rightarrow> string \<rightharpoonup> irq_info" where
  "irq_map s =
     (if c_exists s ''/proc/interrupts''
      then (case c_read s ''/proc/interrupts'' of Some t \<Rightarrow> fold irq_line (file_lines t) Map.empty | None \<Rightarrow> Map.empty)
      else Map.empty)"

record job_ring =
  jr_name :: string
  jr_address :: string
  jr_irq :: string
  jr_interrupt :: string
  jr_count :: nat
  jr_status :: string

definition ring_of :: "(string \<rightharpoonup> irq_info) \<Rightarrow> string \<Rightarrow> job_ring" where
  "ring_of m e =
     \<lparr>jr_name = e, jr_address = ''0x'' @ hd (split_on (CHR ''.'') e),
      jr_irq = (case m e of Some i \<Rightarrow> iq_irq i | None \<Rightarrow> ''-''),
      jr_interrupt = (case m e of Some i \<Rightarrow> iq_type i | None \<Rightarrow> ''Level''),
      jr_count = (case m e of Some i \<Rightarrow> iq_count i | None \<Rightarrow> 0), jr_status = ''active''\<rparr>"

definition get_job_rings :: "crypto_sys \<Rightarrow> job_ring list" where
  "get_job_rings s =
     (case c_rings s of
        None \<Rightarrow> []
      | Some es \<Rightarrow> map (ring_of (irq_map s)) (filter (\<lambda>e. c_islink s e \<and> starts_with (rev ''.jr'') (rev e)) (sort_key codes es)))"

section \<open>Algorithms\<close>

text \<open>\<^verbatim>\<open>text.split('\n\n')\<close>.\<close>

fun blocks :: "string \<Rightarrow> string \<Rightarrow> string list" where
  "blocks acc [] = [rev acc]"
| "blocks acc [c] = [rev (c # acc)]"
| "blocks acc (c # d # cs) =
     (if c = CHR 0x0A \<and> d = CHR 0x0A then rev acc # blocks [] cs else blocks (c # acc) (d # cs))"

type_synonym alg = "(string \<times> string) list"

definition alg_line :: "string \<Rightarrow> alg \<Rightarrow> alg" where
  "alg_line l d = (case split1 (CHR '':'') l of [k, v] \<Rightarrow> AList.update (strip k) (strip v) d | _ \<Rightarrow> d)"

definition alg_of :: "string \<Rightarrow> alg" where "alg_of b = fold alg_line (py_lines [] b) []"

definition alg_get :: "alg \<Rightarrow> string \<Rightarrow> string \<Rightarrow> string" where
  "alg_get a k dflt = (case map_of a k of Some v \<Rightarrow> v | None \<Rightarrow> dflt)"

definition caam_algs :: "string \<Rightarrow> alg list" where
  "caam_algs t = filter (\<lambda>a. contains ''caam'' (alg_get a ''driver'' [])) (map alg_of (filter (\<lambda>b. strip b \<noteq> []) (blocks [] t)))"

definition get_caam_algorithms :: "crypto_sys \<Rightarrow> alg list" where
  "get_caam_algorithms s =
     (if c_exists s ''/proc/crypto'' then (case c_read s ''/proc/crypto'' of Some t \<Rightarrow> caam_algs t | None \<Rightarrow> []) else [])"

section \<open>Categories\<close>

datatype crypto_cat = Aead | Cipher | Hash | Pkc | Rng

definition cat_of :: "string \<Rightarrow> crypto_cat option" where
  "cat_of typ =
     (if typ = ''aead'' then Some Aead
      else if typ = ''skcipher'' then Some Cipher
      else if typ \<in> {''ahash'', ''shash''} then Some Hash
      else if typ \<in> {''akcipher'', ''sig'', ''kpp''} then Some Pkc
      else if typ = ''rng'' then Some Rng else None)"

fun key_alg :: "crypto_cat \<Rightarrow> string \<Rightarrow> bool" where
  "key_alg Aead n = (n \<in> {''gcm(aes)'', ''ccm(aes)'', ''rfc4106(gcm(aes))''})"
| "key_alg Cipher n = (hd (split_on (CHR ''('') n) \<in> {''cbc'', ''ctr'', ''ecb'', ''xts''})"
| "key_alg Hash n = (n \<in> {''sha1'', ''sha224'', ''sha256'', ''sha384'', ''sha512'', ''md5''})"
| "key_alg Pkc n = True"
| "key_alg Rng n = True"

type_synonym tally = "(crypto_cat \<Rightarrow> nat) \<times> (crypto_cat \<Rightarrow> string list)"

definition tally_alg :: "alg \<Rightarrow> tally \<Rightarrow> tally" where
  "tally_alg a = (\<lambda>(cnt, names).
     let n = alg_get a ''name'' [] in
     case cat_of (alg_get a ''type'' []) of
       None \<Rightarrow> (cnt, names)
     | Some c \<Rightarrow> (cnt(c := cnt c + 1), if key_alg c n \<and> n \<notin> set (names c) then names(c := names c @ [n]) else names))"

definition tally_all :: "alg list \<Rightarrow> tally" where "tally_all as = fold tally_alg as (\<lambda>_. 0, \<lambda>_. [])"

section \<open>The random number device\<close>

record hwrng =
  hr_current :: "string option"
  hr_available :: "string option"
  hr_sample :: "string option"
  hr_present :: bool

definition get_hwrng_info :: "crypto_sys \<Rightarrow> hwrng" where
  "get_hwrng_info s =
     \<lparr>hr_current = c_text s ''/sys/class/misc/hw_random/rng_current'',
      hr_available = c_text s ''/sys/class/misc/hw_random/rng_available'',
      hr_sample = (if c_exists s ''/dev/hwrng'' \<and> c_root s then map_option (\<lambda>b. hex_of (take 16 b)) (c_sample s) else None),
      hr_present = c_exists s ''/dev/hwrng''\<rparr>"

section \<open>The command\<close>

definition ring_json :: "job_ring \<Rightarrow> json" where
  "ring_json r = JObj [(''name'', JStr (jr_name r)), (''address'', JStr (jr_address r)), (''irq'', JStr (jr_irq r)),
     (''interrupt'', JStr (jr_interrupt r)), (''count'', JInt (int (jr_count r))), (''status'', JStr (jr_status r))]"

definition crypto_json :: "crypto_sys \<Rightarrow> bool \<Rightarrow> job_ring list \<Rightarrow> alg list \<Rightarrow> json" where
  "crypto_json s show_all jrs as =
     (let h = get_hwrng_info s in
      JObj [(''engine'', JObj [(''model'', JStr ''NXP SEC 5.4 / CAAM''), (''era'', JInt 8), (''mmio_base'', JStr ''0x1700000''),
              (''job_rings_count'', JInt (int (length jrs))), (''qi_enabled'', JBool True)]),
        (''hwrng'', JObj [(''current'', jopt (hr_current h)), (''available'', jopt (hr_available h)),
              (''sample'', jopt (hr_sample h)), (''present'', JBool (hr_present h))]),
        (''job_rings'', JList (map ring_json jrs)), (''algorithms_count'', JInt (int (length as))),
        (''algorithms'', JList (if show_all then map (\<lambda>a. JObj (map (\<lambda>(k, v). (k, JStr v)) a)) as
                              else map (\<lambda>a. jopt (map_of a ''name'')) as)),
        (''failed'', JBool (length jrs = 0 \<or> length as = 0))])"

definition rng_lines :: "crypto_sys \<Rightarrow> string list" where
  "rng_lines s =
     (let h = get_hwrng_info s in
      [''Hardware RNG:   '' @ (if hr_present h then ''/dev/hwrng (Source: '' @ or_else (hr_current h) ''unknown'' @ '', Active)'' else ''absent'')]
      @ (if given (hr_sample h) then [''Entropy Sample: '' @ the (hr_sample h)]
         else if \<not> c_root s then [''Entropy Sample: (run with sudo to sample /dev/hwrng)''] else []))"

definition ring_rows :: "job_ring list \<Rightarrow> cell list list" where
  "ring_rows jrs = map (\<lambda>(i, r). [Txt (''caam_jr'' @ nat_str i), Txt (jr_address r), Txt (jr_interrupt r),
     Num (int (jr_count r)), Txt ''caam_jr'', Txt (jr_status r)]) (enumerate 0 jrs)"

definition cat_rows :: "tally \<Rightarrow> cell list list" where
  "cat_rows = (\<lambda>(cnt, names).
     map (\<lambda>(t, c, k). [Txt t, Num (int (cnt c)), Txt k])
       [(''AEAD (IPsec / ESP)'', Aead, join '', '' (names Aead) @ '', authenc(*)''),
        (''Symmetric (Cipher)'', Cipher, join '', '' (names Cipher)),
        (''Hashes & Digests'', Hash, join '', '' (names Hash) @ '', hmac(*)''),
        (''Asymmetric (PKC)'', Pkc, join '', '' (names Pkc)),
        (''Random Number Gen'', Rng, ''prng-caam, rng-caam'')])"

definition right7 :: "nat \<Rightarrow> string" where "right7 n = replicate (7 - length (nat_str n)) (CHR '' '') @ nat_str n"

definition alg_text :: "bool \<Rightarrow> alg list \<Rightarrow> shown_item list" where
  "alg_text show_all as =
     (if as = [] then [Say ''WARN - No CAAM-accelerated algorithms found in /proc/crypto'']
      else [Grid (cat_rows (tally_all as)) [''Category'', ''Count'', ''Key Hardware Algorithms''],
            Say (replicate 18 (CHR ''-'') @ ''  '' @ replicate 7 (CHR ''-'') @ ''  '' @ replicate 50 (CHR ''-'')),
            Say (''Total Registered  '' @ right7 (length as) @ ''  Hardware priority 2000 (QI) / 3000 (JR)'')]
         @ (if show_all
            then [Say (CHR 0x0A # ''All Registered Hardware Algorithms:''),
                  Grid (map (\<lambda>a. map (\<lambda>k. Txt (alg_get a k ''-'')) [''name'', ''driver'', ''type'', ''priority'']) as)
                    [''Name'', ''Driver'', ''Type'', ''Priority'']]
            else []))"

definition crypto_text :: "crypto_sys \<Rightarrow> bool \<Rightarrow> job_ring list \<Rightarrow> alg list \<Rightarrow> shown_item list" where
  "crypto_text s show_all jrs as =
     map Say ([''Crypto Acceleration (NXP CAAM / SEC 5.4)'', replicate 62 (CHR ''=''),
               ''Engine:         NXP SEC 5.4 / CAAM (Era 8, ID 0x0a11030100000000)'',
               ''Architecture:   3 Job Rings (JR) + Queue Interface (QI)'', ''MMIO Base:      0x1700000 (fsl,sec-v5.4)'']
              @ rng_lines s @ [CHR 0x0A # ''Job Ring Status:''])
     @ [if jrs \<noteq> [] then Grid (ring_rows jrs) [''Ring'', ''Address'', ''Interrupt'', ''IRQs'', ''Driver'', ''Status'']
        else Say ''FAIL - No active CAAM Job Rings detected'',
        Say (CHR 0x0A # ''Hardware-Accelerated Algorithms (/proc/crypto):'')]
     @ alg_text show_all as"

definition show_crypto :: "crypto_sys \<Rightarrow> bool \<Rightarrow> bool \<Rightarrow> dpaa_report \<times> int" where
  "show_crypto s raw show_all =
     (if \<not> board_text (c_text s DT_COMPATIBLE)
      then (DText [Say ''This platform is not the NXP LS1046A Mono Gateway DK; no CAAM crypto engine to report.''], 2)
      else let jrs = get_job_rings s; as = get_caam_algorithms s in
        if raw then (DJson (crypto_json s show_all jrs as), if length jrs = 0 \<or> length as = 0 then 1 else 0)
        else (DText (crypto_text s show_all jrs as), if jrs \<noteq> [] \<and> as \<noteq> [] then 0 else 1))"

definition crypto_main :: "crypto_sys \<Rightarrow> string list \<Rightarrow> dpaa_report \<times> int" where
  "crypto_main s argv =
     (let has = (\<lambda>o'. ''--'' @ o' \<in> set argv \<or> o' \<in> set argv) in show_crypto s (has ''raw'') (has ''all''))"

section \<open>Properties\<close>

text \<open>Digest and report end with the same status, for both values of the other flag.\<close>

lemma crypto_status_agrees: "snd (show_crypto s True b) = snd (show_crypto s False c)"
  by (simp add: show_crypto_def Let_def)

lemma crypto_status_ok:
  "snd (show_crypto s raw b) = 0 \<longleftrightarrow> board_text (c_text s DT_COMPATIBLE) \<and> get_job_rings s \<noteq> [] \<and> get_caam_algorithms s \<noteq> []"
  by (simp add: show_crypto_def Let_def)

definition alg_cat :: "alg \<Rightarrow> crypto_cat option" where "alg_cat a = cat_of (alg_get a ''type'' [])"

lemma tally_inv:
  assumes "fold tally_alg as (cnt, names) = (cnt', names')" "\<forall>c. distinct (names c)"
  shows "cnt' c = cnt c + length (filter (\<lambda>a. alg_cat a = Some c) as) \<and> distinct (names' c)
    \<and> set (names' c) = set (names c) \<union> {n. key_alg c n \<and> (\<exists>a \<in> set as. alg_cat a = Some c \<and> alg_get a ''name'' [] = n)}"
  using assms
proof (induction as arbitrary: cnt names)
  case (Cons a as)
  obtain k ns where step: "tally_alg a (cnt, names) = (k, ns)" by (cases "tally_alg a (cnt, names)")
  let ?n = "alg_get a ''name'' []"
  have d: "\<forall>c. distinct (ns c)"
    using step Cons.prems(2) by (auto simp: tally_alg_def Let_def split: option.splits if_splits)
  have k: "k c = cnt c + (if alg_cat a = Some c then 1 else 0)"
    using step by (auto simp: tally_alg_def alg_cat_def Let_def split: option.splits if_splits)
  have n: "set (ns c) = set (names c) \<union> {m. key_alg c m \<and> alg_cat a = Some c \<and> ?n = m}"
    using step by (auto simp: tally_alg_def alg_cat_def Let_def split: option.splits if_splits)
  have "fold tally_alg as (k, ns) = (cnt', names')" using Cons.prems(1) step by simp
  from Cons.IH [OF this d] show ?case using k n by auto
qed simp

text \<open>The table of categories: what is counted and what is listed in each.\<close>

lemma category_table:
  assumes "tally_all as = (cnt, names)"
  shows "cnt c = length (filter (\<lambda>a. alg_cat a = Some c) as)" "distinct (names c)"
    "set (names c) = {n. key_alg c n \<and> (\<exists>a \<in> set as. alg_cat a = Some c \<and> alg_get a ''name'' [] = n)}"
  using tally_inv [OF assms [unfolded tally_all_def], of c] by simp_all

lemma categories_total:
  assumes "tally_all as = (cnt, names)"
  shows "cnt Aead + cnt Cipher + cnt Hash + cnt Pkc + cnt Rng + length (filter (\<lambda>a. alg_cat a = None) as) = length as"
proof -
  have "length (filter (\<lambda>a. alg_cat a = Some Aead) as) + length (filter (\<lambda>a. alg_cat a = Some Cipher) as)
    + length (filter (\<lambda>a. alg_cat a = Some Hash) as) + length (filter (\<lambda>a. alg_cat a = Some Pkc) as)
    + length (filter (\<lambda>a. alg_cat a = Some Rng) as) + length (filter (\<lambda>a. alg_cat a = None) as) = length as"
  proof (induction as)
    case (Cons a as)
    then show ?case
    proof (cases "alg_cat a")
      case (Some c)
      then show ?thesis using Cons by (cases c) simp_all
    qed simp
  qed simp
  then show ?thesis by (simp add: category_table(1) [OF assms])
qed

text \<open>
  A line of \<^verbatim>\<open>/proc/interrupts\<close> has the counters of the processors, the chip, its interrupt number, the trigger and the
  name.  The number is made of digits as the counters are, and is added to them.
\<close>

lemma dec_val_nat_str: "dec_val (nat_str n) = n"
proof (induction n rule: nat_str.induct)
  case (1 n)
  have "of_char (digit_char d) - (48 :: nat) = d" if "d < 10" for d using that by (simp add: digit_char_code)
  then show ?case using 1 by (subst nat_str.simps) (auto simp: dec_val_def)
qed

lemma all_digits_nat_str: "all_digits (nat_str n)"
  using nat_str_digits [of n] by (simp add: all_digits_def list_all_iff)

lemma irq_count_includes_number:
  assumes "\<not> all_digits chip" "\<not> all_digits trigger" "\<not> all_digits name"
  shows "iq_count (irq_of (irq # map nat_str counts @ [chip, nat_str hwirq, trigger, name])) = sum_list counts + hwirq"
proof -
  have "filter all_digits (map nat_str counts) = map nat_str counts"
    by (simp add: filter_id_conv all_digits_nat_str)
  then show ?thesis using assms by (simp add: irq_of_def all_digits_nat_str dec_val_nat_str comp_def)
qed

end
