(* ===== verification/Sleigh.thy ===== *)
theory Sleigh
  imports Disasm "HOL-Library.Product_Lexorder"
begin

text \<open>
  The generator \<^verbatim>\<open>decomp/tools/generate-sleigh.py\<close>: from the instruction table that the full disassembler
  selects from, the text of a SLEIGH processor specification.  The table (entries as in \<^verbatim>\<open>Disasm\<close>) is an
  argument; the result is the text of the file that is written.
\<close>

section \<open>The table's flags\<close>

definition delay_slot :: "string \<Rightarrow> string \<Rightarrow> bool" where
  "delay_slot mn pseudo =
     (contains ''execute(pc + 1)'' pseudo \<or> contains ''execute pc+1'' pseudo \<or> ends_with mn ''.comp'')"

section \<open>Token fields\<close>

text \<open>The members of \<^verbatim>\<open>all_slices\<close>: a pair, or a triple for a signed field.\<close>

datatype tok = Plain int int | Signed int int

fun tok_key :: "tok \<Rightarrow> int \<times> int" where
  "tok_key (Plain h l) = (h, l)"
| "tok_key (Signed h l) = (h, l)"

definition slice_name :: "int \<Rightarrow> int \<Rightarrow> bool \<Rightarrow> string" where
  "slice_name h l sg = ''f_'' @ int_str h @ ''_'' @ int_str l @ (if sg then ''_s'' else [])"

definition is_displacement :: "string \<Rightarrow> bool" where
  "is_displacement label = (contains ''target'' label \<or> contains ''signed'' label \<or> contains ''displacement'' label)"

definition field_toks :: "field \<Rightarrow> tok list res" where
  "field_toks f =
     bindE (field_bits f) (\<lambda>(h, l). Inr (Plain h l # (if is_displacement (f_label f) then [Signed h l] else [])))"

definition table_fields :: "inst list \<Rightarrow> field list" where "table_fields tbl = concat (map i_fields tbl)"

definition all_slices :: "inst list \<Rightarrow> tok list res" where
  "all_slices tbl = bindE (seqE (map field_toks (table_fields tbl))) (\<lambda>ts. Inr (remdups (concat ts)))"

definition attached :: "(int \<times> int) list" where "attached = [(20, 16), (15, 11), (10, 6)]"

definition imm_alias :: "field \<Rightarrow> (int \<times> int) list res" where
  "imm_alias f =
     (if contains ''immediate'' (f_label f) \<and> contains ''..'' (f_bits f)
      then bindE (field_bits f) (\<lambda>k. Inr (if k \<in> set attached then [k] else []))
      else Inr [])"

definition imm_aliases :: "inst list \<Rightarrow> (int \<times> int) list res" where
  "imm_aliases tbl = bindE (seqE (map imm_alias (table_fields tbl))) (\<lambda>ks. Inr (remdups (concat ks)))"

text \<open>
  \<^verbatim>\<open>sorted(..., reverse=True)\<close> on the pair of bounds.  A pair and a triple with the same bounds keep the order
  in which the set is traversed, which is the argument \<open>plain_first\<close>.
\<close>

definition descending :: "(int \<times> int) list \<Rightarrow> (int \<times> int) list" where "descending ks = rev (sort (remdups ks))"

definition sorted_slices :: "(int \<times> int \<Rightarrow> bool) \<Rightarrow> tok list \<Rightarrow> tok list" where
  "sorted_slices plain_first ts =
     concat (map (\<lambda>(h, l). filter (\<lambda>t. t \<in> set ts) (if plain_first (h, l) then [Plain h l, Signed h l] else [Signed h l, Plain h l]))
       (descending (map tok_key ts)))"

definition ljust :: "nat \<Rightarrow> string \<Rightarrow> string" where "ljust n s = s @ replicate (n - length s) (CHR '' '')"

definition span_text :: "int \<Rightarrow> int \<Rightarrow> string" where "span_text h l = ''('' @ int_str l @ '','' @ int_str h @ '')''"

fun tok_name :: "tok \<Rightarrow> string" where
  "tok_name (Plain h l) = slice_name h l False"
| "tok_name (Signed h l) = slice_name h l True"

fun tok_line :: "tok \<Rightarrow> string" where
  "tok_line (Plain h l) = ''    '' @ ljust 14 (slice_name h l False) @ '' = '' @ span_text h l"
| "tok_line (Signed h l) = ''    '' @ ljust 14 (slice_name h l True) @ '' = '' @ span_text h l @ '' signed''"

definition imm_name :: "int \<times> int \<Rightarrow> string" where "imm_name = (\<lambda>(h, l). slice_name h l False @ ''_imm'')"

definition imm_line :: "int \<times> int \<Rightarrow> string" where
  "imm_line k = ''    '' @ ljust 14 (imm_name k) @ '' = '' @ span_text (fst k) (snd k)"

section \<open>The fixed parts of the file\<close>

definition preamble :: "string list" where
  "preamble =
    [
     ''# fman-risc.slaspec '' @ [CHR 0xE2, CHR 0x80, CHR 0x94] @ '' NXP FMan v3 Controller Microcode RISC ISA'',
     ''# Automatically generated from arch/fman-instruction-table.html (201 canonical forms).'',
     ''# Target: Ghidra 11.x SLEIGH Compiler.'' @ [CHR 0x0A],
     ''define endian=big;'',
     ''define alignment=4;'' @ [CHR 0x0A],
     ''# Address spaces'',
     ''define space code     type=ram_space       size=4  default;'',
     ''define space register type=register_space  size=4;'',
     ''define space dmem     type=ram_space       size=2;'' @ [CHR 0x0A],
     ''# Register file (32 general registers + special registers)'',
     ''define register offset=0x00 size=4'',
     ''  [ r0  r1  r2  r3  r4  r5  r6  r7  r8  r9  r10 r11 r12 r13 r14 r15'',
     ''    r16 r17 r18 r19 r20 r21 r22 r23 r24 r25 r26 r27 r28 r29 r30 r31 ];'',
     ''define register offset=0x100 size=4 [ pc sp cc ];'',
     ''define register offset=0x110 size=1 [ Z N C P ];'' @ [CHR 0x0A],
     ''# Instruction token definitions'',
     ''define token instr(32)'']"

definition register_list :: "string list" where
  "register_list =
    [''  [ r0  r1  r2  r3  r4  r5  r6  r7  r8  r9  r10 r11 r12 r13 r14 r15'',
     ''    r16 r17 r18 r19 r20 r21 r22 r23 r24 r25 r26 r27 r28 r29 r30 r31 ];'' @ [CHR 0x0A]]"

definition attach_lines :: "tok list \<Rightarrow> string list" where
  "attach_lines ts =
     (let regs = filter (\<lambda>t. case t of Plain h l \<Rightarrow> h - l + 1 = 5 | Signed _ _ \<Rightarrow> False) ts in
      if regs = [] then []
      else [''# Register attachments for standard 5-bit register fields'',
            ''attach variables [ '' @ join '' '' (map tok_name (filter (\<lambda>t. tok_key t \<in> set attached) regs)) @ '' ]'']
           @ register_list)"

definition target_rules :: "string list" where
  "target_rules =
    [''rel16_dest: rel is f_15_0_s [ rel = inst_start + f_15_0_s * 4; ] { export *:1 rel; }'',
     ''rel14_dest: rel is f_13_0_s [ rel = inst_start + f_13_0_s * 4; ] { export *:1 rel; }'' @ [CHR 0x0A]]"

definition pcodeops :: "string list" where
  "pcodeops =
     [''fman_bitfield_xform'', ''fman_cckey_emit'', ''fman_cckey_prepare'', ''fman_csum_accum'',
      ''fman_csum_init'', ''fman_csum_result'', ''fman_csum_setup'', ''fman_dma_read'', ''fman_dma_write'',
      ''fman_keycmp_run'', ''fman_ld_sm'', ''fman_pipeline_setup'', ''fman_st_sm'', ''fman_task_boundary'',
      ''fman_task_complete'', ''fman_task_handoff'', ''fman_task_info'', ''fman_task_redispatch'',
      ''fman_task_set_end_nia'', ''fman_task_set_fqid'', ''fman_taskctx_load2'', ''fman_tnum_alloc'',
      ''fman_unit_config'', ''fman_unit_read0'', ''fman_unit_read32'', ''fman_unit_submit'']"

section \<open>Semantics\<close>

datatype cond = Eq string | Pre string | Has string | IsBranch

fun holds :: "string \<Rightarrow> bool \<Rightarrow> cond \<Rightarrow> bool" where
  "holds mn br (Eq s) = (mn = s)"
| "holds mn br (Pre s) = startswith mn s"
| "holds mn br (Has s) = contains s mn"
| "holds mn br IsBranch = br"

definition addr_setup :: "string list" where
  "addr_setup = [''local addr:2 = f_10_0;'', ''addr = addr + f_15_11[0,16];'']"

text \<open>The chain of tests in its order, in three parts; \<open>t\<close> is the text of the branch target.\<close>

definition branch_rules :: "string \<Rightarrow> (cond list \<times> string list) list" where
  "branch_rules t =
    [
     ([Eq ''ret'', Eq ''ret.comp''], [''return [r30];'']),
     ([Eq ''indirect'', Eq ''indirect.comp'', Eq ''indirect.m5'', Eq ''indirect.m5.comp''], [''goto [f_15_11];'']),
     ([Eq ''call'', Eq ''call.comp''], [''call '' @ t @ '';'']),
     ([Eq ''cbrz14'', Eq ''cbrz14.comp''], [''if (Z != 0) goto '' @ t @ '';'']),
     ([Eq ''cbrnz14'', Eq ''cbrnz14.comp''], [''if (Z == 0) goto '' @ t @ '';'']),
     ([Eq ''cbrn14''], [''if (N != 0) goto '' @ t @ '';'']),
     ([Eq ''cbrnn14.comp''], [''if (N == 0) goto '' @ t @ '';'']),
     ([Eq ''cbrc14''], [''if (C != 0) goto '' @ t @ '';'']),
     ([Eq ''cbrnc14''], [''if (C == 0) goto '' @ t @ '';'']),
     ([Pre ''brbitclr''], [''local b:4 = 0x1f:4 - (f_25_21:4); if ((((f_20_16 >> b) & 1:4) == 0:4)) goto '' @ t @ '';'']),
     ([Pre ''brbitset''], [''local b:4 = 0x1f:4 - (f_25_21:4); if ((((f_20_16 >> b) & 1:4) != 0:4)) goto '' @ t @ '';'']),
     ([Pre ''brctrl0''], [''if (cc != 0) goto '' @ t @ '';'']),
     ([Pre ''brnotctrl0''], [''if (cc == 0) goto '' @ t @ '';'']),
     ([IsBranch], [''goto '' @ t @ '';''])]"

definition data_rules :: "(cond list \<times> string list) list" where
  "data_rules =
    [
     ([Eq ''fill''], [''goto inst_start;'']),
     ([Eq ''task.complete''], [''fman_task_complete(); return [r30];'']),
     ([Eq ''task.redispatch''], [''fman_task_redispatch(); return [r30];'']),
     ([Eq ''task.handoff''], [''fman_task_handoff(); return [r30];'']),
     ([Eq ''task.boundary''], [''fman_task_boundary(f_20_16, f_15_11);'']),
     ([Eq ''task.set_fqid''], [''fman_task_set_fqid(f_20_16, f_15_11);'']),
     ([Eq ''task.set_end_nia''], [''fman_task_set_end_nia(f_20_16, f_15_11);'']),
     ([Eq ''task.info''], [''f_20_16 = fman_task_info();'']),
     ([Eq ''tnum.alloc''], [''f_20_16 = fman_tnum_alloc();'']),
     ([Eq ''taskctx.load2''], [''fman_taskctx_load2(f_20_16);'']),
     ([Eq ''li16''], [''f_20_16 = f_15_0:4;'']),
     ([Eq ''lihi16''], [''f_20_16 = (f_15_0:4) << 16;'']),
     ([Eq ''addi16''], [''f_20_16 = f_20_16 + (f_15_0:4);'']),
     ([Eq ''addhi16''], [''f_20_16 = f_20_16 + ((f_15_0:4) << 16);'']),
     ([Eq ''subi16''], [''f_20_16 = f_20_16 - (f_15_0:4);'']),
     ([Eq ''andi16''], [''f_20_16 = f_20_16 & (f_15_0:4);'']),
     ([Eq ''andhi16''], [''f_20_16 = f_20_16 & ((f_15_0:4) << 16);'']),
     ([Eq ''ori16''], [''f_20_16 = f_20_16 | (f_15_0:4);'']),
     ([Eq ''orhi16''], [''f_20_16 = f_20_16 | ((f_15_0:4) << 16);'']),
     ([Eq ''xori16''], [''f_20_16 = f_20_16 ^ (f_15_0:4);'']),
     ([Eq ''not32''], [''f_20_16 = ~f_20_16;'']),
     ([Eq ''not32.r10''], [''r10 = ~r10;'']),
     ([Eq ''not32.r9''], [''r9 = ~r9;'']),
     ([Eq ''add32''], [''f_10_6 = f_20_16 + f_15_11;'']),
     ([Eq ''sub32''], [''f_10_6 = f_20_16 - f_15_11;'']),
     ([Eq ''and32''], [''f_10_6 = f_20_16 & f_15_11;'']),
     ([Eq ''or32''], [''f_10_6 = f_20_16 | f_15_11;'']),
     ([Eq ''xor32''], [''f_10_6 = f_20_16 ^ f_15_11;'']),
     ([Eq ''lsl32''], [''f_10_6 = f_20_16 << (f_15_11 & 0x1f:4);'']),
     ([Eq ''lsl32i''], [''f_10_6 = f_20_16 << f_15_11_imm;'']),
     ([Eq ''lsr32''], [''f_10_6 = f_20_16 >> (f_15_11 & 0x1f:4);'']),
     ([Eq ''lsr32i''], [''f_10_6 = f_20_16 >> f_15_11_imm;'']),
     ([Eq ''asr32''], [''f_10_6 = f_20_16 s>> (f_15_11 & 0x1f:4);'']),
     ([Eq ''asr32i''], [''f_10_6 = f_20_16 s>> f_15_11_imm;'']),
     ([Eq ''cmp32''], [''local lt:4 = 0:4;'', ''if (f_20_16 < f_15_11) goto <lt_set>;'', ''goto <eq_chk>;'',
        ''<lt_set> lt = 0x80000000:4;'', ''<eq_chk> local eq:4 = 0:4;'', ''if (f_20_16 == f_15_11) goto <eq_set>;'',
        ''goto <sig_chk>;'', ''<eq_set> eq = 0x40000000:4;'',
        ''<sig_chk> if ((f_20_16 - f_15_11) s< 0:4) goto <sig_set>;'', ''goto <publish>;'',
        ''<sig_set> lt = 0x20000000:4;'', ''<publish> r31 = (r31 & 0x0fffffff:4) | lt | eq;'']),
     ([Eq ''cmpi16''], [''Z = (f_20_16 == (f_15_0:4));'', ''N = ((f_20_16 - (f_15_0:4)) s< 0:4);'',
        ''C = (f_20_16 < (f_15_0:4));'']),
     ([Eq ''cmpeqi16''], [''Z = (f_20_16 == (f_15_0:4));'']),
     ([Eq ''test32''], [''Z = (r2 == 0:4);'']),
     ([Eq ''testand32''], [''Z = ((f_20_16 & f_15_11) == 0:4);'']),
     ([Eq ''testor32''], [''Z = ((f_20_16 | f_15_11) == 0:4);'']),
     ([Eq ''testxor32''], [''Z = ((f_20_16 ^ f_15_11) == 0:4);'']),
     ([Eq ''tstandi16''], [''Z = ((f_20_16 & (f_15_0:4)) == 0:4);'']),
     ([Eq ''tstandhi16''], [''Z = ((f_20_16 & ((f_15_0:4) << 16)) == 0:4);'']),
     ([Eq ''tstori16''], [''local o:4 = f_20_16 | (f_15_0:4);'', ''C = 0:1;'', ''Z = (o == 0:4);'', ''N = (o s< 0:4);'']),
     ([Eq ''tstaddi16''], [''local s:4 = f_20_16 + (f_15_0:4);'', ''C = (s < f_20_16);'', ''Z = (s == 0:4);'',
        ''N = (s s< 0:4);'']),
     ([Eq ''tstimm16''], [''Z = (f_15_0 == 0:2);'']),
     ([Eq ''andi16z''], [''r0 = r0 & (f_15_0:4); Z = (r0 == 0:4);''])]"

definition memory_rules :: "(cond list \<times> string list) list" where
  "memory_rules =
    [
     ([Pre ''memw.readz''], addr_setup @ [''f_20_16 = *[dmem]:4 addr;'', ''Z = (f_20_16 == 0:4);'']),
     ([Pre ''memw.read''], addr_setup @ [''f_20_16 = *[dmem]:4 addr;'']),
     ([Pre ''memw.write''], addr_setup @ [''*[dmem]:4 addr = f_20_16;'']),
     ([Pre ''memh.read''], addr_setup @ [''f_20_16 = zext(*[dmem]:2 addr);'']),
     ([Pre ''memhu.readz''], addr_setup @ [''f_20_16 = zext(*[dmem]:2 addr);'', ''Z = (f_20_16 == 0:4);'']),
     ([Pre ''memh.write''], addr_setup @ [''*[dmem]:2 addr = f_20_16[0,16];'']),
     ([Pre ''memb.read''], addr_setup @ [''f_20_16 = zext(*[dmem]:1 addr);'']),
     ([Pre ''membu.readz''], addr_setup @ [''f_20_16 = zext(*[dmem]:1 addr);'', ''Z = (f_20_16 == 0:4);'']),
     ([Pre ''membs.readz''], addr_setup @ [''f_20_16 = sext(*[dmem]:1 addr);'', ''Z = (f_20_16 == 0:4);'']),
     ([Pre ''memb.write''], addr_setup @ [''*[dmem]:1 addr = f_20_16[0,8];'']),
     ([Pre ''memd.read''], addr_setup @ [''f_20_16 = *[dmem]:4 addr;'']),
     ([Pre ''memd.write''], addr_setup @ [''*[dmem]:4 addr = f_20_16;'']),
     ([Pre ''clz32''], [''r7 = lzcount(r1);'']),
     ([Pre ''dma.read256'', Pre ''dma.read64''], [''local src:2 = f_20_16[0,16];'', ''local dst:2 = f_15_11[0,16];'',
        ''*[dmem]:4 (dst + 0) = *[dmem]:4 (src + 0);'', ''*[dmem]:4 (dst + 4) = *[dmem]:4 (src + 4);'',
        ''*[dmem]:4 (dst + 8) = *[dmem]:4 (src + 8);'', ''*[dmem]:4 (dst + 12) = *[dmem]:4 (src + 12);'',
        ''fman_dma_read();'']),
     ([Eq ''dma.read8''], [''local src:2 = f_20_16[0,16];'', ''local dst:2 = f_15_11[0,16];'',
        ''*[dmem]:4 (dst + 0) = *[dmem]:4 (src + 0);'', ''*[dmem]:4 (dst + 4) = *[dmem]:4 (src + 4);'',
        ''fman_dma_read();'']),
     ([Eq ''dma.read8.muramimm''], [''local src:2 = f_20_16[0,16];'', ''local dst:2 = f_10_0;'',
        ''*[dmem]:4 (dst + 0) = *[dmem]:4 (src + 0);'', ''*[dmem]:4 (dst + 4) = *[dmem]:4 (src + 4);'',
        ''fman_dma_read();'']),
     ([Pre ''dma.write''], [''local dst:2 = f_20_16[0,16];'', ''local src:2 = f_15_11[0,16];'',
        ''*[dmem]:4 (dst + 0) = *[dmem]:4 (src + 0);'', ''*[dmem]:4 (dst + 4) = *[dmem]:4 (src + 4);'',
        ''fman_dma_write();'']),
     ([Has ''dma''], [''fman_dma_read();'']),
     ([Pre ''csum''], [''fman_csum_accum();'']),
     ([Pre ''keycmp''], [''r0 = fman_keycmp_run();''])]"

definition semantic_rules :: "string \<Rightarrow> (cond list \<times> string list) list" where
  "semantic_rules t = branch_rules t @ data_rules @ memory_rules"

definition semantics :: "string \<Rightarrow> bool \<Rightarrow> string \<Rightarrow> string list" where
  "semantics mn br t =
     (case find (\<lambda>(cs, _). list_ex (holds mn br) cs) (semantic_rules t) of Some (_, ss) \<Rightarrow> ss | None \<Rightarrow> [[]])"

section \<open>Constructors\<close>

text \<open>A part of a pattern: a fixed field, one of the two branch rules, or a field taken as operand.\<close>

datatype part = Fix int int int | Rel16 | Rel14 | Use int int bool

definition hex_of_int :: "int \<Rightarrow> string" where
  "hex_of_int v = (if v < 0 then ''-'' else []) @ hex_str (nat \<bar>v\<bar>)"

fun part_text :: "part \<Rightarrow> string" where
  "part_text (Fix h l v) = slice_name h l False @ ''=0x'' @ hex_of_int v"
| "part_text Rel16 = ''rel16_dest''"
| "part_text Rel14 = ''rel14_dest''"
| "part_text (Use h l imm) = (if imm then imm_name (h, l) else slice_name h l False)"

definition fixed_value :: "field \<Rightarrow> int res" where
  "fixed_value f = (case words (f_label f) of _ # w # _ \<Rightarrow> py_int 2 w | _ \<Rightarrow> Inl IndexError)"

definition field_part :: "(int \<times> int) list \<Rightarrow> field \<Rightarrow> part res" where
  "field_part aliases f =
     bindE (field_bits f) (\<lambda>(h, l).
       if f_kind f = ''fixed'' then bindE (fixed_value f) (\<lambda>v. Inr (Fix h l v))
       else if contains ''target'' (field_name f) \<or> contains ''displacement'' (field_name f)
       then Inr (if h - l + 1 = 16 then Rel16 else Rel14)
       else Inr (Use h l (contains ''immediate'' (f_label f) \<and> (h, l) \<in> set aliases)))"

definition is_operand :: "part \<Rightarrow> bool" where "is_operand p = (case p of Fix _ _ _ \<Rightarrow> False | _ \<Rightarrow> True)"
definition is_rel :: "part \<Rightarrow> bool" where "is_rel p = (p = Rel16 \<or> p = Rel14)"

definition target_text :: "part list \<Rightarrow> string" where
  "target_text ps = (case filter is_rel ps of [] \<Rightarrow> ''None'' | qs \<Rightarrow> part_text (last qs))"

definition sleigh_mn :: "string \<Rightarrow> string" where "sleigh_mn mn = map (\<lambda>c. if c = CHR ''.'' then CHR ''_'' else c) mn"

definition ctor_sig :: "string \<Rightarrow> part list \<Rightarrow> string" where
  "ctor_sig mn ps =
     '':'' @ sleigh_mn mn @ '' '' @ join '' '' (map part_text (filter is_operand ps)) @ '' is '' @ join '' & '' (map part_text ps)"

definition body_text :: "string \<Rightarrow> bool \<Rightarrow> part list \<Rightarrow> string" where
  "body_text mn delay ps =
     '' { '' @ (if delay then ''delayslot(1); '' else []) @ join '' '' (semantics mn (list_ex is_rel ps) (target_text ps)) @ '' }''"

definition entry_parts :: "(int \<times> int) list \<Rightarrow> inst \<Rightarrow> part list res" where
  "entry_parts aliases e = seqE (map (field_part aliases) (i_fields e))"

text \<open>The loop over the table: the signatures seen and the lines written.\<close>

definition emit_entry :: "(int \<times> int) list \<Rightarrow> inst \<Rightarrow> string list \<times> string list \<Rightarrow> (string list \<times> string list) res" where
  "emit_entry aliases e = (\<lambda>(seen, out).
     if i_mn e = ''fill'' then Inr (seen, out)
     else bindE (entry_parts aliases e) (\<lambda>ps.
       let sig = ctor_sig (i_mn e) ps in
       if sig \<in> set seen then Inr (seen, out)
       else Inr (seen @ [sig], out @ [sig @ body_text (i_mn e) (i_delay e) ps])))"

definition constructors :: "(int \<times> int) list \<Rightarrow> inst list \<Rightarrow> (string list \<times> string list) res" where
  "constructors aliases tbl = foldE (emit_entry aliases) tbl ([], [])"

definition catch_all :: "string list" where
  "catch_all =
    [[CHR 0x0A] @ ''# Catch-all opcode (least specific)'',
     '':unk f_31_0 is f_31_0 { }'',
     '':nop is f_31_0=0xffffffff { }'']"

section \<open>The file\<close>

definition sleigh_lines :: "tok list \<Rightarrow> (int \<times> int) list \<Rightarrow> string list \<Rightarrow> string list" where
  "sleigh_lines ts aliases cs =
     preamble @ map tok_line ts @ map imm_line (descending aliases) @ ['';'' @ [CHR 0x0A]] @ attach_lines ts
     @ [''# Sub-rules for branch targets''] @ target_rules
     @ [''# Black-box and special pipeline pcodeops''] @ map (\<lambda>op. ''define pcodeop '' @ op @ '';'') pcodeops
     @ [[CHR 0x0A] @ ''# Instruction constructors'' @ [CHR 0x0A]] @ cs @ catch_all"

definition generate_sleigh :: "(int \<times> int \<Rightarrow> bool) \<Rightarrow> inst list \<Rightarrow> string res" where
  "generate_sleigh plain_first tbl =
     bindE (all_slices tbl) (\<lambda>slices.
     bindE (imm_aliases tbl) (\<lambda>aliases.
     bindE (constructors aliases tbl) (\<lambda>(_, cs).
       Inr (join [CHR 0x0A] (sleigh_lines (sorted_slices plain_first slices) aliases cs) @ [CHR 0x0A]))))"

end
