(* ===== verification/SleighProps.thy ===== *)
theory SleighProps
  imports Sleigh
begin

text \<open>
  The generated specification against the disassembler: its patterns select the same words as the masks and
  values of the table, the token fields its constructors use are declared, and its branch rules name the
  same words up to the size of the code store.
\<close>

unbundle bit_operations_syntax

section \<open>Patterns\<close>

text \<open>What a pattern says of an instruction word: \<^verbatim>\<open>f_h_l=v\<close> on the token field \<^verbatim>\<open>(l,h)\<close>.\<close>

definition word_slice :: "u32 \<Rightarrow> int \<Rightarrow> int \<Rightarrow> int" where
  "word_slice w h l = int ((unat w div 2 ^ nat l) mod 2 ^ nat (h - l + 1))"

fun part_accepts :: "u32 \<Rightarrow> part \<Rightarrow> bool" where
  "part_accepts w (Fix h l v) = (word_slice w h l = v)"
| "part_accepts w _ = True"

definition pattern_accepts :: "u32 \<Rightarrow> part list \<Rightarrow> bool" where "pattern_accepts w ps = list_all (part_accepts w) ps"

text \<open>The consistency of an entry: its mask is what the fixed fields cover, its value what they say.\<close>

definition span_mask :: "int \<Rightarrow> int \<Rightarrow> u32" where "span_mask h l = push_bit (nat l) (mask (nat (h - l + 1)))"

fun part_mask :: "part \<Rightarrow> u32" where
  "part_mask (Fix h l v) = span_mask h l"
| "part_mask _ = 0"

fun part_valid :: "u32 \<Rightarrow> part \<Rightarrow> bool" where
  "part_valid val (Fix h l v) = (0 \<le> l \<and> l \<le> h \<and> h < 32 \<and> word_slice val h l = v)"
| "part_valid val _ = True"

definition parts_consistent :: "inst \<Rightarrow> part list \<Rightarrow> bool" where
  "parts_consistent e ps =
     (list_all (part_valid (i_val e)) ps \<and> i_mask e = foldr (OR) (map part_mask ps) 0 \<and> i_val e AND i_mask e = i_val e)"

definition entry_consistent :: "(int \<times> int) list \<Rightarrow> inst \<Rightarrow> bool" where
  "entry_consistent aliases e = (case entry_parts aliases e of Inr ps \<Rightarrow> parts_consistent e ps | Inl _ \<Rightarrow> False)"

lemma bit_foldr_or: "bit (foldr (OR) ms 0) i \<longleftrightarrow> (\<exists>m \<in> set ms. bit (m :: u32) i)"
  by (induction ms) (auto simp: bit_or_iff)

lemma bit_span_mask:
  assumes "0 \<le> l" "l \<le> h" "h < 32"
  shows "bit (span_mask h l) i \<longleftrightarrow> nat l \<le> i \<and> i \<le> nat h"
  using assms by (auto simp: span_mask_def bit_push_bit_iff bit_mask_iff nat_diff_distrib' nat_add_distrib)

lemma bit_unat: "bit (unat (w :: u32)) i \<longleftrightarrow> bit w i"
  by (simp add: bit_unsigned_iff)

lemma word_slice_eq:
  assumes "0 \<le> l" "l \<le> h"
  shows "word_slice w h l = word_slice v h l \<longleftrightarrow> (\<forall>i. nat l \<le> i \<and> i \<le> nat h \<longrightarrow> bit w i = bit v i)"
proof -
  define n where "n = nat (h - l + 1)"
  have n: "nat l + n = nat h + 1" using assms by (simp add: n_def)
  have "word_slice w h l = word_slice v h l \<longleftrightarrow> take_bit n (drop_bit (nat l) (unat w)) = take_bit n (drop_bit (nat l) (unat v))"
    by (simp add: word_slice_def n_def take_bit_eq_mod drop_bit_eq_div)
  also have "\<dots> \<longleftrightarrow> (\<forall>j. j < n \<longrightarrow> bit w (nat l + j) = bit v (nat l + j))"
    by (auto simp: bit_eq_iff bit_take_bit_iff bit_drop_bit_eq bit_unat)
  also have "\<dots> \<longleftrightarrow> (\<forall>i. nat l \<le> i \<and> i \<le> nat h \<longrightarrow> bit w i = bit v i)"
  proof safe
    fix i assume a: "\<forall>j. j < n \<longrightarrow> bit w (nat l + j) = bit v (nat l + j)" and i: "nat l \<le> i" "i \<le> nat h"
    have "bit w (nat l + (i - nat l)) = bit v (nat l + (i - nat l))" using a i n by (intro a [rule_format]) linarith
    then show "bit w i \<Longrightarrow> bit v i" "bit v i \<Longrightarrow> bit w i" using i by simp_all
  qed (use n in auto)
  finally show ?thesis .
qed

lemma masked_eq_iff:
  assumes "(val :: u32) AND m = val"
  shows "w AND m = val \<longleftrightarrow> (\<forall>i. bit m i \<longrightarrow> bit w i = bit val i)"
proof -
  have c: "bit val i \<Longrightarrow> bit m i" for i using arg_cong [OF assms, of "\<lambda>x. bit x i"] by (simp add: bit_and_iff)
  show ?thesis
  proof
    assume "w AND m = val"
    then show "\<forall>i. bit m i \<longrightarrow> bit w i = bit val i" by (auto simp: bit_and_iff)
  next
    assume "\<forall>i. bit m i \<longrightarrow> bit w i = bit val i"
    then show "w AND m = val" using c by (intro bit_eqI) (auto simp: bit_and_iff)
  qed
qed

lemma pattern_matches:
  assumes "parts_consistent e ps"
  shows "pattern_accepts w ps \<longleftrightarrow> w AND i_mask e = i_val e"
proof -
  have v: "\<forall>p \<in> set ps. part_valid (i_val e) p" and m: "i_mask e = foldr (OR) (map part_mask ps) 0"
    and c: "i_val e AND i_mask e = i_val e" using assms unfolding parts_consistent_def list_all_iff by blast+
  have p: "part_accepts w p \<longleftrightarrow> (\<forall>i. bit (part_mask p) i \<longrightarrow> bit w i = bit (i_val e) i)" if "p \<in> set ps" for p
  proof (cases p)
    case (Fix h l x)
    then have "0 \<le> l" "l \<le> h" "h < 32" "word_slice (i_val e) h l = x" using v that by auto
    then show ?thesis using word_slice_eq [of l h w "i_val e"] by (auto simp: Fix bit_span_mask)
  qed simp_all
  have "pattern_accepts w ps \<longleftrightarrow> (\<forall>p \<in> set ps. \<forall>i. bit (part_mask p) i \<longrightarrow> bit w i = bit (i_val e) i)"
    using p by (auto simp: pattern_accepts_def list_all_iff)
  also have "\<dots> \<longleftrightarrow> (\<forall>i. bit (i_mask e) i \<longrightarrow> bit w i = bit (i_val e) i)" by (auto simp: m bit_foldr_or)
  finally show ?thesis by (simp add: masked_eq_iff [OF c])
qed

section \<open>The loop over the table\<close>

lemma constructors_snoc: "foldE f (xs @ [x]) s = bindE (foldE f xs s) (f x)"
  by (induction xs arbitrary: s) (auto simp: bindE_def split: sum.splits)

text \<open>What has been written after a prefix of the table.\<close>

definition written :: "(int \<times> int) list \<Rightarrow> inst list \<Rightarrow> string list \<Rightarrow> string list \<Rightarrow> bool" where
  "written al tbl seen out =
     (distinct seen \<and> length out = length seen
      \<and> (\<forall>e \<in> set tbl. i_mn e \<noteq> ''fill'' \<longrightarrow> (\<exists>ps. entry_parts al e = Inr ps \<and> ctor_sig (i_mn e) ps \<in> set seen))
      \<and> (\<forall>(s, line) \<in> set (zip seen out). \<exists>e \<in> set tbl. \<exists>ps. entry_parts al e = Inr ps \<and> i_mn e \<noteq> ''fill''
           \<and> s = ctor_sig (i_mn e) ps \<and> line = s @ body_text (i_mn e) (i_delay e) ps))"

lemma written_step:
  assumes "written al tbl seen out" "emit_entry al e (seen, out) = Inr (seen', out')"
  shows "written al (tbl @ [e]) seen' out'"
proof (cases "i_mn e = ''fill''")
  case True
  then show ?thesis using assms by (auto simp: emit_entry_def written_def)
next
  case False
  then obtain ps where ps: "entry_parts al e = Inr ps" using assms(2) by (auto simp: emit_entry_def bindE_eq_Inr)
  show ?thesis
  proof (cases "ctor_sig (i_mn e) ps \<in> set seen")
    case True
    then have "seen' = seen" "out' = out" using assms(2) False ps by (simp_all add: emit_entry_def Let_def)
    then show ?thesis using assms(1) True False ps unfolding written_def by fastforce
  next
    case new: False
    then have "seen' = seen @ [ctor_sig (i_mn e) ps]"
      "out' = out @ [ctor_sig (i_mn e) ps @ body_text (i_mn e) (i_delay e) ps]"
      using assms(2) False ps by (simp_all add: emit_entry_def Let_def)
    then show ?thesis using assms(1) new False ps unfolding written_def by fastforce
  qed
qed

lemma constructors_written: "constructors al tbl = Inr (seen, out) \<Longrightarrow> written al tbl seen out"
proof (induction tbl arbitrary: seen out rule: rev_induct)
  case Nil
  then show ?case by (simp add: constructors_def written_def)
next
  case (snoc e tbl)
  then obtain s o' where c: "constructors al tbl = Inr (s, o')" "emit_entry al e (s, o') = Inr (seen, out)"
    by (auto simp: constructors_def constructors_snoc bindE_eq_Inr)
  show ?case by (rule written_step [OF snoc.IH [OF c(1)] c(2)])
qed


lemma matches_set: "e \<in> set (matches w tbl) \<longleftrightarrow> e \<in> set tbl \<and> w AND i_mask e = i_val e"
  by (auto simp: matches_def)

lemma generate_parts:
  assumes "generate_sleigh pf tbl = Inr text"
  obtains ts al seen cs where "all_slices tbl = Inr ts" "imm_aliases tbl = Inr al" "constructors al tbl = Inr (seen, cs)"
    "text = join [CHR 0x0A] (sleigh_lines (sorted_slices pf ts) al cs) @ [CHR 0x0A]"
  using assms by (auto simp: generate_sleigh_def bindE_eq_Inr split_beta)


definition cbrz :: inst where
  "cbrz = \<lparr>i_mn = ''cbrz14.comp'', i_val = 0xB03F0000, i_mask = 0xFFFF0000,
     i_fields = [\<lparr>f_bits = ''31..16'', f_kind = ''fixed'', f_label = ''fixed 1011000000111111''\<rparr>,
       \<lparr>f_bits = ''15..0'', f_kind = ''field'', f_label = ''target_word: displacement, signed''\<rparr>], i_delay = True\<rparr>"

lemma cbrz_fields:
  "field_part [] \<lparr>f_bits = ''31..16'', f_kind = ''fixed'', f_label = ''fixed 1011000000111111''\<rparr> = Inr (Fix 31 16 0xB03F)"
  "field_part [] \<lparr>f_bits = ''15..0'', f_kind = ''field'', f_label = ''target_word: displacement, signed''\<rparr> = Inr Rel16"
  by (simp_all add: field_part_def field_bits_def fixed_value_def field_name_def words_def text_eval contains_def find_from_def)

lemma cbrz_parts: "entry_parts [] cbrz = Inr [Fix 31 16 0xB03F, Rel16]"
  by (simp add: entry_parts_def cbrz_def cbrz_fields)

lemma cbrz_consistent: "entry_consistent [] cbrz"
proof -
  have "span_mask 31 16 = 0xFFFF0000" by (simp add: span_mask_def push_bit_eq_mult mask_eq_exp_minus_1)
  then show ?thesis
    by (simp add: entry_consistent_def cbrz_parts parts_consistent_def word_slice_def) (simp add: cbrz_def)
qed

lemma cbrz_slices: "all_slices [cbrz] = Inr [Plain 31 16, Plain 15 0, Signed 15 0]" by code_simp
lemma cbrz_aliases: "imm_aliases [cbrz] = Inr []" by code_simp

lemma cbrz_generated: "\<exists>text. generate_sleigh pf [cbrz] = Inr text"
proof -
  have "i_mn cbrz \<noteq> ''fill''" by (simp add: cbrz_def)
  then show ?thesis
    by (simp add: generate_sleigh_def cbrz_slices cbrz_aliases constructors_def emit_entry_def cbrz_parts Let_def)
qed


section \<open>Declared token fields\<close>

lemma set_descending [simp]: "set (descending ks) = set ks"
  by (simp add: descending_def)

lemma set_sorted_slices [simp]: "set (sorted_slices pf ts) = set ts"
proof
  show "set (sorted_slices pf ts) \<subseteq> set ts" by (auto simp: sorted_slices_def split: if_splits)
  show "set ts \<subseteq> set (sorted_slices pf ts)"
  proof
    fix t assume t: "t \<in> set ts"
    then have "tok_key t \<in> set (map tok_key ts)" by simp
    then show "t \<in> set (sorted_slices pf ts)"
      using t by (cases t) (force simp: sorted_slices_def)+
  qed
qed

lemma all_slices_has:
  assumes "all_slices tbl = Inr ts" "f \<in> set (table_fields tbl)" "field_bits f = Inr (h, l)"
  shows "Plain h l \<in> set ts" "is_displacement (f_label f) \<Longrightarrow> Signed h l \<in> set ts"
proof -
  obtain ls where ls: "map field_toks (table_fields tbl) = map Inr ls" "ts = remdups (concat ls)"
    using assms(1) by (auto simp: all_slices_def bindE_eq_Inr seqE_eq_Inr)
  have "field_toks f \<in> Inr ` set ls" using ls(1) assms(2) by (metis image_eqI list.set_map)
  then obtain k where "field_toks f = Inr k" "k \<in> set ls" by auto
  then show "Plain h l \<in> set ts" "is_displacement (f_label f) \<Longrightarrow> Signed h l \<in> set ts"
    using ls(2) assms(3) by (force simp: field_toks_def split: if_splits)+
qed

lemma all_slices_only:
  assumes "all_slices tbl = Inr ts" "t \<in> set ts"
  shows "\<exists>f \<in> set (table_fields tbl). field_bits f = Inr (tok_key t) \<and> (t = Signed (fst (tok_key t)) (snd (tok_key t)) \<longrightarrow> is_displacement (f_label f))"
proof -
  obtain ls where ls: "map field_toks (table_fields tbl) = map Inr ls" "ts = remdups (concat ls)"
    using assms(1) by (auto simp: all_slices_def bindE_eq_Inr seqE_eq_Inr)
  obtain k where k: "k \<in> set ls" "t \<in> set k" using ls(2) assms(2) by auto
  have "Inr k \<in> field_toks ` set (table_fields tbl)" using ls(1) k(1) by (metis image_eqI list.set_map)
  then obtain f where f: "f \<in> set (table_fields tbl)" "field_toks f = Inr k" by auto
  then obtain h l where b: "field_bits f = Inr (h, l)" "k = Plain h l # (if is_displacement (f_label f) then [Signed h l] else [])"
    by (auto simp: field_toks_def bindE_eq_Inr)
  then have "tok_key t = (h, l)" "t = Signed h l \<longrightarrow> is_displacement (f_label f)" using k(2) by (auto split: if_splits)
  then show ?thesis using f(1) b(1) by auto
qed


lemma entry_parts_from:
  assumes "entry_parts al e = Inr ps" "p \<in> set ps"
  shows "\<exists>f \<in> set (i_fields e). field_part al f = Inr p"
proof -
  have "map (field_part al) (i_fields e) = map Inr ps" using assms(1) by (simp add: entry_parts_def seqE_eq_Inr)
  then have "Inr p \<in> field_part al ` set (i_fields e)" using assms(2) by (metis image_eqI list.set_map)
  then show ?thesis by auto
qed

lemma contains_in_prefix: "contains p (take n s) \<Longrightarrow> contains p s"
proof -
  assume "contains p (take n s)"
  then obtain u v where "take n s = u @ p @ v" by (auto simp: contains_iff occurs_at_split)
  then have "s = u @ p @ (v @ drop n s)" by (metis append_take_drop_id append.assoc)
  then show ?thesis by (auto simp: contains_iff occurs_at_split)
qed

lemma contains_infix: "contains p s \<Longrightarrow> contains p (a @ s @ b)"
proof -
  assume "contains p s"
  then obtain u v where "s = u @ p @ v" by (auto simp: contains_iff occurs_at_split)
  then have "a @ s @ b = (a @ u) @ p @ (v @ b)" by simp
  then show ?thesis unfolding contains_iff occurs_at_split by metis
qed

lemma strip_infix: "\<exists>a b. s = a @ strip s @ b"
proof -
  have "s = takeWhile is_space s @ lstrip s" by (simp add: lstrip_def)
  moreover have "lstrip s = rstrip (lstrip s) @ rev (takeWhile is_space (rev (lstrip s)))"
    by (simp add: rstrip_def flip: rev_append)
  ultimately have "s = takeWhile is_space s @ strip s @ rev (takeWhile is_space (rev (lstrip s)))"
    by (simp add: strip_def)
  then show ?thesis by blast
qed

lemma split_on_hd: "\<exists>b. s = hd (split_on c s) @ b"
proof (induction s)
  case (Cons x s)
  then show ?case by (cases "split_on c s") auto
qed simp

lemma name_in_label: "contains p (field_name f) \<Longrightarrow> contains p (f_label f)"
proof -
  assume c: "contains p (field_name f)"
  define h where "h = hd (split_on CHR '':'' (f_label f))"
  obtain r where r: "f_label f = h @ r" unfolding h_def using split_on_hd by metis
  obtain a b where "h = a @ field_name f @ b" unfolding field_name_def h_def using strip_infix by metis
  then have "f_label f = a @ field_name f @ (b @ r)" using r by simp
  then show ?thesis using contains_infix [OF c] by metis
qed

text \<open>The declarations a part needs.\<close>

fun declared :: "tok list \<Rightarrow> (int \<times> int) list \<Rightarrow> part \<Rightarrow> bool" where
  "declared ts al (Fix h l v) = (Plain h l \<in> set ts)"
| "declared ts al (Use h l imm) = (if imm then (h, l) \<in> set al else Plain h l \<in> set ts)"
| "declared ts al Rel16 = (\<exists>h l. Signed h l \<in> set ts \<and> h - l + 1 = 16)"
| "declared ts al Rel14 = (\<exists>h l. Signed h l \<in> set ts \<and> h - l + 1 \<noteq> 16)"

lemma field_part_declared:
  assumes "all_slices tbl = Inr ts" "f \<in> set (table_fields tbl)" "field_part al f = Inr p"
  shows "declared ts al p"
proof -
  obtain h l where b: "field_bits f = Inr (h, l)" using assms(3) by (auto simp: field_part_def bindE_eq_Inr)
  note d = all_slices_has [OF assms(1,2) b]
  have "contains ''target'' (field_name f) \<or> contains ''displacement'' (field_name f) \<Longrightarrow> Signed h l \<in> set ts"
    using d(2) name_in_label by (auto simp: is_displacement_def)
  then show ?thesis using assms(3) d(1) by (auto simp: field_part_def b bindE_eq_Inr split: if_splits)
qed

text \<open>Every token field a constructor names is declared (safety).  In every file the generator writes, each
  fixed field and each operand of each constructor is a token of the token block, an immediate one under its
  unattached name, and a constructor that uses a branch rule comes with a signed token of that width.  The
  fixed lines of the file name three tokens whatever the table is; each of them is declared exactly when the
  table has a field at those bits (signed ones: a displacement).\<close>

lemma sleigh_tokens_declared:
  assumes "generate_sleigh pf tbl = Inr text"
  shows "\<exists>ts al cs seen. text = join [CHR 0x0A] (sleigh_lines (sorted_slices pf ts) al cs) @ [CHR 0x0A]
    \<and> constructors al tbl = Inr (seen, cs)
    \<and> (\<forall>e \<in> set tbl. case entry_parts al e of
         Inr ps \<Rightarrow> (\<forall>p \<in> set ps. declared (sorted_slices pf ts) (descending al) p) | Inl _ \<Rightarrow> i_mn e = ''fill'')
    \<and> (Plain 31 0 \<in> set (sorted_slices pf ts) \<longleftrightarrow> (\<exists>f \<in> set (table_fields tbl). field_bits f = Inr (31, 0)))
    \<and> (\<forall>h. Signed h 0 \<in> set (sorted_slices pf ts) \<longleftrightarrow>
         (\<exists>f \<in> set (table_fields tbl). field_bits f = Inr (h, 0) \<and> is_displacement (f_label f)))"
proof -
  obtain ts al seen cs where t: "all_slices tbl = Inr ts" "constructors al tbl = Inr (seen, cs)"
    "text = join [CHR 0x0A] (sleigh_lines (sorted_slices pf ts) al cs) @ [CHR 0x0A]"
    using generate_parts [OF assms] by metis
  have e: "case entry_parts al e of Inr ps \<Rightarrow> (\<forall>p \<in> set ps. declared (sorted_slices pf ts) (descending al) p)
      | Inl _ \<Rightarrow> i_mn e = ''fill''" if e: "e \<in> set tbl" for e
  proof (cases "entry_parts al e")
    case (Inl x)
    then show ?thesis using constructors_written [OF t(2)] e by (auto simp: written_def)
  next
    case (Inr ps)
    have "declared ts al p" if "p \<in> set ps" for p
      using entry_parts_from [OF Inr that] field_part_declared [OF t(1)] e by (auto simp: table_fields_def)
    then have "declared (sorted_slices pf ts) (descending al) p" if "p \<in> set ps" for p
      using that by (cases p) (fastforce split: if_splits)+
    then show ?thesis by (simp add: Inr)
  qed
  have p: "Plain 31 0 \<in> set ts \<longleftrightarrow> (\<exists>f \<in> set (table_fields tbl). field_bits f = Inr (31, 0))"
    using all_slices_has(1) [OF t(1)] all_slices_only [OF t(1), of "Plain 31 0"] by auto
  have s: "Signed h 0 \<in> set ts \<longleftrightarrow> (\<exists>f \<in> set (table_fields tbl). field_bits f = Inr (h, 0) \<and> is_displacement (f_label f))" for h
    using all_slices_has(2) [OF t(1)] all_slices_only [OF t(1), of "Signed h 0"] by auto
  show ?thesis using t(2,3) e p s unfolding set_sorted_slices by blast
qed

lemma sleigh_tokens_declared_witness:
  "\<exists>text ts al cs. generate_sleigh (\<lambda>_. True) [cbrz] = Inr text
    \<and> text = join [CHR 0x0A] (sleigh_lines ts al cs) @ [CHR 0x0A] \<and> Plain 31 0 \<notin> set ts"
proof -
  obtain out where g: "generate_sleigh (\<lambda>_. True) [cbrz] = Inr out" using cbrz_generated by blast
  have b: "field_bits \<lparr>f_bits = ''31..16'', f_kind = ''fixed'', f_label = ''fixed 1011000000111111''\<rparr> = Inr (31, 16)"
    "field_bits \<lparr>f_bits = ''15..0'', f_kind = ''field'', f_label = ''target_word: displacement, signed''\<rparr> = Inr (15, 0)"
    by (simp_all add: field_bits_def text_eval contains_def find_from_def)
  have "\<not> (\<exists>f \<in> set (table_fields [cbrz]). field_bits f = Inr (31, 0))"
    by (simp add: table_fields_def cbrz_def b)
  then show ?thesis using sleigh_tokens_declared [OF g] g by blast
qed

section \<open>The compare instruction\<close>

text \<open>
  The condition register after the statements generated for \<^verbatim>\<open>cmp32\<close>: one local carries both the
  unsigned-less bit and the sign bit, and the second assignment overwrites the first.
\<close>

definition cmp32_r31 :: "u32 \<Rightarrow> u32 \<Rightarrow> u32 \<Rightarrow> u32" where
  "cmp32_r31 r31 a b =
     (let lt = (if a < b then 0x80000000 else 0); eq = (if a = b then 0x40000000 else 0);
          lt = (if sint (a - b) < 0 then 0x20000000 else lt) in
      (r31 AND 0x0FFFFFFF) OR lt OR eq)"

lemma cmp32_unsigned_less_lost:
  "bit (cmp32_r31 r31 a b) 31 \<longleftrightarrow> a < b \<and> \<not> sint (a - b) < 0"
  by (simp add: cmp32_r31_def Let_def bit_or_iff bit_and_iff)

section \<open>Branch targets\<close>

text \<open>
  What the two branch rules compute, in words: the address of the instruction plus four times the signed
  field, where the disassembler reduces the word modulo the size of the code store.
\<close>

definition rel_target :: "nat \<Rightarrow> nat \<Rightarrow> nat \<Rightarrow> int" where "rel_target width idx v = (4 * int idx + sx v width * 4) div 4"

lemma rel_target_eq: "rel_target width idx v = int idx + sx v width"
  by (simp add: rel_target_def flip: distrib_left)

lemma sx_16_14: "sx v 16 mod 0x4000 = sx v 14 mod 0x4000"
proof -
  have "sx v 16 mod 0x4000 = (sx v 16 mod 2 ^ 16) mod 0x4000" by (simp add: mod_mod_cancel)
  also have "\<dots> = (int v mod 2 ^ 16) mod 0x4000" using sx_cong [of 16 v] by simp
  also have "\<dots> = int v mod 2 ^ 14" by (simp add: mod_mod_cancel)
  also have "\<dots> = sx v 14 mod 2 ^ 14" using sx_cong [of 14 v] by simp
  finally show ?thesis by simp
qed

text \<open>The two decoders agree on where branches go (equivalence).  The word that the specification's branch
  rules compute and the one the disassembler prints are equal modulo the 0x4000 words of the code store, for
  sixteen-bit and for fourteen-bit displacements; they are the same word exactly when the specification's lies
  inside the store, which it does not reduce.\<close>

lemma branch_targets_agree:
  "(rel_target 16 idx v mod 0x4000 = int (branch_target idx v))
   \<and> (rel_target 16 idx v = int (branch_target idx v) \<longleftrightarrow> 0 \<le> rel_target 16 idx v \<and> rel_target 16 idx v < 0x4000)
   \<and> (0x3FFF < v \<or> rel_target 14 idx v mod 0x4000 = int (branch_target idx v))"
proof -
  have b: "int (branch_target idx v) = (int idx + sx v 16) mod 0x4000"
  proof (cases "0x3FFF < v")
    case False
    have "(int idx + sx v 14) mod 0x4000 = (int idx + sx v 16) mod 0x4000"
      using sx_16_14 [of v] by (metis mod_add_right_eq)
    then show ?thesis using False by (simp add: branch_target_def)
  qed (simp add: branch_target_def)
  have "(int idx + sx v 14) mod 0x4000 = (int idx + sx v 16) mod 0x4000"
    using sx_16_14 [of v] by (metis mod_add_right_eq)
  moreover have "x = x mod 0x4000 \<longleftrightarrow> 0 \<le> x \<and> x < (0x4000 :: int)" for x
    using pos_mod_bound [of "0x4000" x] pos_mod_sign [of "0x4000" x] mod_pos_pos_trivial [of x "0x4000"] by auto
  ultimately show ?thesis unfolding b rel_target_eq by auto
qed

end
